(* ===== verification/Bus_Prelude.thy ===== *)
theory Bus_Prelude
  imports Main "HOL-Library.Word"
begin

text \<open>
  Shared ground of the development.

  \<^item> machine integers of the code: \<open>byte\<close>, \<open>u16\<close>, \<open>u32\<close>, \<open>u64\<close> (C++ \<open>uint8_t\<close> ... \<open>size_t\<close>);
  \<^item> \<open>cerror\<close> and \<open>'a cres\<close>: what a C++ call can do besides returning (a bare \<open>throw;\<close>, an access
    outside its block, a failed \<open>assert\<close>, a null pointer handed to \<open>std::string\<close>, an exception of
    the JSON library), with \<open>cbind\<close>;
  \<^item> memory blocks as byte lists, with the bounds-checked accesses \<open>cload\<close> and \<open>cstore\<close>, the pure
    \<open>overlay\<close> they perform and the predicate \<open>holds_at\<close>;
  \<^item> byte order (\<open>htons\<close>, \<open>htonl\<close> on a little-endian host) and the libc string functions the code
    calls (\<open>strncpy\<close>, the conversion of a \<open>char*\<close> to \<open>std::string\<close>).

  The collection \<open>mem_simps\<close> carries the component proofs.
\<close>

unbundle bit_operations_syntax

named_theorems mem_simps "rewriting of memory blocks, byte order and fallible calls"

section \<open>Machine types and fallible results\<close>

type_synonym byte = "8 word"
type_synonym u16 = "16 word"
type_synonym u32 = "32 word"
type_synonym u64 = "64 word"

datatype cerror =
    Terminate      \<comment> \<open>\<open>throw;\<close> with no exception in flight: \<open>std::terminate\<close>\<close>
  | OutOfBounds    \<comment> \<open>an access outside the memory block (undefined behaviour)\<close>
  | AssertFailed   \<comment> \<open>a failed \<open>assert\<close>\<close>
  | NullPointer    \<comment> \<open>a null \<open>char*\<close> where the callee needs a string\<close>
  | RuntimeError   \<comment> \<open>an exception \<open>std::runtime_error\<close> leaves the call\<close>

type_synonym 'a cres = "cerror + 'a"

definition cbind :: "'a cres \<Rightarrow> ('a \<Rightarrow> 'b cres) \<Rightarrow> 'b cres" where
  "cbind m f = (case m of Inl e \<Rightarrow> Inl e | Inr x \<Rightarrow> f x)"

definition cmap :: "('a \<Rightarrow> 'b) \<Rightarrow> 'a cres \<Rightarrow> 'b cres" where
  "cmap f m = cbind m (\<lambda>x. Inr (f x))"

definition is_ok :: "'a cres \<Rightarrow> bool" where
  "is_ok m = (case m of Inl _ \<Rightarrow> False | Inr _ \<Rightarrow> True)"

section \<open>Memory blocks\<close>

definition cload :: "byte list \<Rightarrow> nat \<Rightarrow> nat \<Rightarrow> byte list cres" where
  "cload blk p n = (if p + n \<le> length blk then Inr (take n (drop p blk)) else Inl OutOfBounds)"

definition overlay :: "nat \<Rightarrow> byte list \<Rightarrow> byte list \<Rightarrow> byte list" where
  "overlay p bs blk = take p blk @ bs @ drop (p + length bs) blk"

definition cstore :: "byte list \<Rightarrow> nat \<Rightarrow> byte list \<Rightarrow> byte list cres" where
  "cstore blk p bs =
     (if p + length bs \<le> length blk then Inr (overlay p bs blk) else Inl OutOfBounds)"

definition holds_at :: "nat \<Rightarrow> byte list \<Rightarrow> byte list \<Rightarrow> bool" where
  "holds_at p bs blk \<longleftrightarrow> p + length bs \<le> length blk \<and> take (length bs) (drop p blk) = bs"

section \<open>Byte order\<close>

text \<open>
  The memory image of an integer on the little-endian hosts the code is built for, and the
  conversions \<open>htons\<close>/\<open>ntohs\<close> and \<open>htonl\<close>/\<open>ntohl\<close>, which swap the bytes there.
\<close>

definition mem16 :: "u16 \<Rightarrow> byte list" where
  "mem16 w = [ucast w, ucast (drop_bit 8 w)]"

definition mem32 :: "u32 \<Rightarrow> byte list" where
  "mem32 w = [ucast w, ucast (drop_bit 8 w), ucast (drop_bit 16 w), ucast (drop_bit 24 w)]"

fun of_mem16 :: "byte list \<Rightarrow> u16" where
  "of_mem16 [a, b] = ucast a OR push_bit 8 (ucast b)"
| "of_mem16 _ = 0"

fun of_mem32 :: "byte list \<Rightarrow> u32" where
  "of_mem32 [a, b, c, d] =
     ucast a OR push_bit 8 (ucast b) OR push_bit 16 (ucast c) OR push_bit 24 (ucast d)"
| "of_mem32 _ = 0"

definition htons :: "u16 \<Rightarrow> u16" where
  "htons w = of_mem16 (rev (mem16 w))"

definition htonl :: "u32 \<Rightarrow> u32" where
  "htonl w = of_mem32 (rev (mem32 w))"

text \<open>The network (big-endian) image, the reference for what the code puts on the wire.\<close>

definition be16 :: "u16 \<Rightarrow> byte list" where
  "be16 w = rev (mem16 w)"

definition be32 :: "u32 \<Rightarrow> byte list" where
  "be32 w = rev (mem32 w)"

definition load8 :: "byte list \<Rightarrow> nat \<Rightarrow> byte cres" where
  "load8 blk p = cmap hd (cload blk p 1)"

definition load16 :: "byte list \<Rightarrow> nat \<Rightarrow> u16 cres" where
  "load16 blk p = cmap of_mem16 (cload blk p 2)"

definition load32 :: "byte list \<Rightarrow> nat \<Rightarrow> u32 cres" where
  "load32 blk p = cmap of_mem32 (cload blk p 4)"

section \<open>C strings\<close>

text \<open>
  \<open>strncpy_read n src\<close> is what \<open>strncpy(dst, src, n)\<close> puts into \<open>dst\<close>: the bytes of \<open>src\<close> up to its
  first NUL, filled with NUL to exactly \<open>n\<close> bytes. It reads \<open>src\<close> byte by byte, so a block
  that ends before a NUL and before \<open>n\<close> bytes is read outside its bounds.
\<close>

fun strncpy_read :: "nat \<Rightarrow> byte list \<Rightarrow> byte list cres" where
  "strncpy_read 0 src = Inr []"
| "strncpy_read (Suc n) [] = Inl OutOfBounds"
| "strncpy_read (Suc n) (b # src) =
     (if b = 0 then Inr (replicate (Suc n) 0) else cmap ((#) b) (strncpy_read n src))"

definition cstr :: "byte list \<Rightarrow> byte list" where
  "cstr a = takeWhile (\<lambda>b. b \<noteq> 0) a"

definition cpad :: "nat \<Rightarrow> byte list \<Rightarrow> byte list" where
  "cpad n s = take n s @ replicate (n - length s) 0"

text \<open>\<open>std::string s(char*)\<close>: the bytes up to the NUL; without one the read leaves the block.\<close>

definition string_of_cstr :: "byte list \<Rightarrow> byte list cres" where
  "string_of_cstr a = (if 0 \<in> set a then Inr (cstr a) else Inl OutOfBounds)"

text \<open>A string literal of the source as the bytes of its characters.\<close>

definition lit :: "string \<Rightarrow> byte list" where
  "lit s = map of_char s"

text \<open>\<open>strncpy\<close> and \<open>memcpy\<close> from a pointer that may be null.\<close>

definition strncpy_ptr :: "nat \<Rightarrow> byte list option \<Rightarrow> byte list cres" where
  "strncpy_ptr n src = (case src of
       None \<Rightarrow> if n = 0 then Inr [] else Inl NullPointer
     | Some s \<Rightarrow> strncpy_read n s)"

definition memcpy_ptr :: "nat \<Rightarrow> byte list option \<Rightarrow> byte list cres" where
  "memcpy_ptr n src = (case src of
       None \<Rightarrow> if n = 0 then Inr [] else Inl NullPointer
     | Some s \<Rightarrow> cload s 0 n)"

text \<open>\<open>std::string::find\<close>: the first position at which the pattern occurs.\<close>

fun str_find :: "'a list \<Rightarrow> 'a list \<Rightarrow> nat option" where
  "str_find [] pat = (if pat = [] then Some 0 else None)"
| "str_find (c # s) pat =
     (if take (length pat) (c # s) = pat then Some 0 else map_option Suc (str_find s pat))"

section \<open>Lemmas on results\<close>

lemma cbind_Inr [simp, mem_simps]: "cbind (Inr x) f = f x"
  by (simp add: cbind_def)

lemma cbind_Inl [simp, mem_simps]: "cbind (Inl e) f = Inl e"
  by (simp add: cbind_def)

lemma cmap_Inr [simp, mem_simps]: "cmap f (Inr x) = Inr (f x)"
  by (simp add: cmap_def)

lemma cmap_Inl [simp, mem_simps]: "cmap f (Inl e) = Inl e"
  by (simp add: cmap_def)

lemma is_ok_Inr [simp]: "is_ok (Inr x)"
  by (simp add: is_ok_def)

lemma is_ok_Inl [simp]: "\<not> is_ok (Inl e)"
  by (simp add: is_ok_def)

lemma cbind_eq_Inr: "cbind m f = Inr y \<longleftrightarrow> (\<exists>x. m = Inr x \<and> f x = Inr y)"
  by (cases m) auto

lemma cbindE: "cbind m f = Inr y \<Longrightarrow> (\<And>x. m = Inr x \<Longrightarrow> f x = Inr y \<Longrightarrow> P) \<Longrightarrow> P"
  by (cases m) auto

lemma cmap_eq_Inr: "cmap f m = Inr y \<longleftrightarrow> (\<exists>x. m = Inr x \<and> y = f x)"
  by (cases m) auto

lemma is_ok_cbind: "is_ok (cbind m f) \<longleftrightarrow> (\<exists>x. m = Inr x \<and> is_ok (f x))"
  by (cases m) auto

lemma is_ok_cmap [simp]: "is_ok (cmap f m) = is_ok m"
  by (cases m) auto

lemma is_ok_iff: "is_ok m \<longleftrightarrow> (\<exists>x. m = Inr x)"
  by (cases m) auto

section \<open>Lemmas on memory\<close>

lemma length_overlay [simp, mem_simps]:
  "p + length bs \<le> length blk \<Longrightarrow> length (overlay p bs blk) = length blk"
  by (simp add: overlay_def)

lemma overlay_overlay [mem_simps]:
  assumes "q = p + length bs" "q + length cs \<le> length blk"
  shows "overlay q cs (overlay p bs blk) = overlay p (bs @ cs) blk"
  using assms by (simp add: overlay_def ac_simps)

lemma overlay_Nil [simp]: "overlay p [] blk = blk"
  by (simp add: overlay_def)

lemma cstore_ok [mem_simps]:
  "p + length bs \<le> length blk \<Longrightarrow> cstore blk p bs = Inr (overlay p bs blk)"
  by (simp add: cstore_def)

lemma cstore_length: "cstore blk p bs = Inr blk' \<Longrightarrow> length blk' = length blk"
  by (auto simp: cstore_def split: if_splits)

lemma holds_at_overlay [simp, mem_simps]:
  "p + length bs \<le> length blk \<Longrightarrow> holds_at p bs (overlay p bs blk)"
  by (simp add: holds_at_def overlay_def)

lemma holds_at_append [mem_simps]:
  "holds_at p (bs @ cs) blk \<longleftrightarrow> holds_at p bs blk \<and> holds_at (p + length bs) cs blk"
proof
  assume h: "holds_at p (bs @ cs) blk"
  then obtain rest where "drop p blk = (bs @ cs) @ rest"
    unfolding holds_at_def by (metis append_take_drop_id)
  then have "drop p blk = bs @ cs @ rest" "drop (p + length bs) blk = cs @ rest"
    by (simp_all add: add.commute [of p] flip: drop_drop)
  with h show "holds_at p bs blk \<and> holds_at (p + length bs) cs blk"
    by (auto simp: holds_at_def)
next
  assume h: "holds_at p bs blk \<and> holds_at (p + length bs) cs blk"
  then have "take (length bs + length cs) (drop p blk) = bs @ cs"
    by (auto simp: holds_at_def take_add add.commute)
  with h show "holds_at p (bs @ cs) blk"
    by (auto simp: holds_at_def)
qed

lemma holds_at_Cons [mem_simps]:
  "bs \<noteq> [] \<Longrightarrow> holds_at p (b # bs) blk \<longleftrightarrow> holds_at p [b] blk \<and> holds_at (Suc p) bs blk"
  using holds_at_append [of p "[b]" bs blk] by simp

lemma holds_at_Nil [simp]: "holds_at p [] blk \<longleftrightarrow> p \<le> length blk"
  by (simp add: holds_at_def)

lemma holds_at_bound: "holds_at p bs blk \<Longrightarrow> p + length bs \<le> length blk"
  by (simp add: holds_at_def)

lemma holds_at_0_append [simp]: "holds_at 0 bs (bs @ rest)"
  by (simp add: holds_at_def)

lemma holds_at_self [simp]: "holds_at 0 bs bs"
  by (simp add: holds_at_def)

lemma cload_holds [mem_simps]:
  "holds_at p bs blk \<Longrightarrow> n = length bs \<Longrightarrow> cload blk p n = Inr bs"
  by (simp add: cload_def holds_at_def)

lemma cload_ok: "is_ok (cload blk p n) \<longleftrightarrow> p + n \<le> length blk"
  by (simp add: cload_def)

lemma cload_length: "cload blk p n = Inr bs \<Longrightarrow> length bs = n"
  by (auto simp: cload_def split: if_splits)

lemma load8_ok [simp]: "is_ok (load8 blk p) \<longleftrightarrow> p + 1 \<le> length blk"
  and load16_ok [simp]: "is_ok (load16 blk p) \<longleftrightarrow> p + 2 \<le> length blk"
  and load32_ok [simp]: "is_ok (load32 blk p) \<longleftrightarrow> p + 4 \<le> length blk"
  by (simp_all add: load8_def load16_def load32_def cload_ok)

section \<open>Lemmas on byte order\<close>

lemma length_mem16 [simp, mem_simps]: "length (mem16 w) = 2"
  by (simp add: mem16_def)

lemma length_mem32 [simp, mem_simps]: "length (mem32 w) = 4"
  by (simp add: mem32_def)

lemma length_be16 [simp, mem_simps]: "length (be16 w) = 2"
  by (simp add: be16_def)

lemma length_be32 [simp, mem_simps]: "length (be32 w) = 4"
  by (simp add: be32_def)

lemma of_mem16_mem16 [simp]: "of_mem16 (mem16 w) = w"
  by (rule bit_word_eqI)
     (auto simp: mem16_def bit_or_iff bit_push_bit_iff bit_ucast_iff bit_drop_bit_eq not_less)

lemma of_mem32_mem32 [simp]: "of_mem32 (mem32 w) = w"
proof (rule bit_word_eqI)
  fix n :: nat
  assume n: "n < LENGTH(32)"
  then consider "n < 8" | "8 \<le> n" "n < 16" | "16 \<le> n" "n < 24" | "24 \<le> n" "n < 32"
    by fastforce
  then show "bit (of_mem32 (mem32 w)) n \<longleftrightarrow> bit w n"
    by cases (auto simp: mem32_def bit_or_iff bit_push_bit_iff bit_ucast_iff bit_drop_bit_eq)
qed

lemma mem16_of_mem16 [simp]: "mem16 (of_mem16 [a, b]) = [a, b]"
  by (auto simp: mem16_def intro!: bit_word_eqI)
     (auto simp: bit_or_iff bit_push_bit_iff bit_ucast_iff bit_drop_bit_eq dest: bit_imp_le_length)

lemma mem32_of_mem32 [simp]: "mem32 (of_mem32 [a, b, c, d]) = [a, b, c, d]"
  by (auto simp: mem32_def intro!: bit_word_eqI)
     (auto simp: bit_or_iff bit_push_bit_iff bit_ucast_iff bit_drop_bit_eq dest: bit_imp_le_length)

declare of_mem16.simps [simp del] of_mem32.simps [simp del]

lemma mem16_cases: "\<exists>a b. mem16 w = [a, b]"
  by (simp add: mem16_def)

lemma mem32_cases: "\<exists>a b c d. mem32 w = [a, b, c, d]"
  by (simp add: mem32_def)

lemma mem16_htons [simp, mem_simps]: "mem16 (htons w) = be16 w"
  using mem16_cases [of w] by (auto simp: htons_def be16_def)

lemma mem32_htonl [simp, mem_simps]: "mem32 (htonl w) = be32 w"
  using mem32_cases [of w] by (auto simp: htonl_def be32_def)

lemma of_mem32_be32 [simp]: "of_mem32 (be32 w) = htonl w"
  by (metis mem32_htonl of_mem32_mem32)

lemma htons_htons [simp, mem_simps]: "htons (htons w) = w"
  unfolding htons_def [of "htons w"] by (simp add: be16_def)

lemma htonl_htonl [simp, mem_simps]: "htonl (htonl w) = w"
  unfolding htonl_def [of "htonl w"] by (simp add: be32_def)

lemma load8_holds [mem_simps]: "holds_at p [b] blk \<Longrightarrow> load8 blk p = Inr b"
  by (simp add: load8_def cload_holds [where bs = "[b]"])

lemma load16_holds [mem_simps]: "holds_at p (be16 w) blk \<Longrightarrow> load16 blk p = Inr (htons w)"
  by (simp add: load16_def cload_holds [where bs = "be16 w"]) (simp add: be16_def htons_def)

lemma load32_holds [mem_simps]: "holds_at p (be32 w) blk \<Longrightarrow> load32 blk p = Inr (htonl w)"
  by (simp add: load32_def cload_holds [where bs = "be32 w"])

section \<open>Lemmas on C strings\<close>

lemma strncpy_read_eq:
  "n \<le> length src \<or> 0 \<in> set src \<Longrightarrow> strncpy_read n src = Inr (cpad n (cstr src))"
  by (induction n src rule: strncpy_read.induct) (auto simp: cpad_def cstr_def)

lemma strncpy_read_oob:
  "0 \<notin> set src \<Longrightarrow> length src < n \<Longrightarrow> strncpy_read n src = Inl OutOfBounds"
  by (induction n src rule: strncpy_read.induct) auto

lemma length_cpad [simp, mem_simps]: "length (cpad n s) = n"
  by (simp add: cpad_def)

lemma cpad_0 [simp]: "cpad 0 s = []"
  by (simp add: cpad_def)

lemma strncpy_read_length: "strncpy_read n src = Inr bs \<Longrightarrow> length bs = n"
  by (induction n src arbitrary: bs rule: strncpy_read.induct)
     (auto simp: cmap_eq_Inr split: if_splits)

lemma cstr_no_nul [simp]: "0 \<notin> set (cstr a)"
  by (auto simp: cstr_def dest: set_takeWhileD)

lemma cstr_id: "0 \<notin> set a \<Longrightarrow> cstr a = a"
  by (auto simp: cstr_def takeWhile_eq_all_conv)

lemma cstr_append_nul [simp]: "0 \<notin> set s \<Longrightarrow> cstr (s @ 0 # rest) = s"
  by (simp add: cstr_def takeWhile_append)

lemma length_cstr: "length (cstr a) \<le> length a"
  by (simp add: cstr_def length_takeWhile_le)

lemma cstr_cpad: "0 \<notin> set s \<Longrightarrow> cstr (cpad n s) = take n s"
proof -
  assume s: "0 \<notin> set s"
  then have "0 \<notin> set (take n s)" by (auto dest: in_set_takeD)
  then show ?thesis
    by (cases "n - length s") (simp_all add: cpad_def cstr_id)
qed

lemma string_of_cpad:
  "0 \<notin> set s \<Longrightarrow> length s < n \<Longrightarrow> string_of_cstr (cpad n s) = Inr s"
  by (simp add: string_of_cstr_def cstr_cpad) (simp add: cpad_def)

lemma cstr_of_append_nul: "0 \<in> set a \<Longrightarrow> cstr (a @ b) = cstr a"
  by (auto simp: cstr_def takeWhile_append1)

lemma str_find_0: "str_find s pat = Some 0 \<longleftrightarrow> take (length pat) s = pat"
  by (cases s) auto

lemma str_find_Some: "str_find s pat = Some n \<Longrightarrow> take (length pat) (drop n s) = pat"
  by (induction s arbitrary: n) (auto split: if_splits)

lemma str_find_None: "str_find s pat = None \<longleftrightarrow> (\<nexists>xs ys. s = xs @ pat @ ys)"
proof (induction s)
  case (Cons c s)
  have "(\<exists>xs ys. c # s = xs @ pat @ ys) \<longleftrightarrow>
      (\<exists>ys. c # s = pat @ ys) \<or> (\<exists>xs ys. s = xs @ pat @ ys)"
    by (metis append_Cons append_Nil list.exhaust list.inject)
  moreover have "(\<exists>ys. c # s = pat @ ys) \<longleftrightarrow> take (length pat) (c # s) = pat"
    by (metis append_eq_conv_conj append_take_drop_id)
  ultimately show ?case using Cons.IH by auto
qed auto

lemma fold_keeps: "(\<And>x s. q (f x s) = q s) \<Longrightarrow> q (fold f xs s) = q s"
  by (induction xs arbitrary: s) auto

end
