(* ===== verification/Fast_Buffer.thy ===== *)
theory Fast_Buffer
  imports Bus_Prelude
begin

text \<open>
  The growing byte buffer behind every socket: \<^verbatim>\<open>src/Core/FastBuffer.h\<close> and \<^verbatim>\<open>src/Core/FastBuffer.cpp\<close>.

  The record has the class's four fields; the indices are natural numbers (the code's \<open>int\<close>s are
  never negative: every operation keeps \<open>fb_inv\<close>). Each \<open>assert\<close> is the error \<open>AssertFailed\<close>, each
  access to the vector is bounds-checked. The locale \<open>byte_fifo\<close> states what a socket relies on
  (a first-in first-out byte queue) and is interpreted on this buffer.
\<close>

section \<open>Model\<close>

record FastBuffer =
  m_readstart :: nat
  m_writestart :: nat
  m_innerdata :: "byte list"
  m_halfcounter :: int

definition DEFAULT_SIZE :: nat where "DEFAULT_SIZE = 128"
definition GROW_SIZE :: nat where "GROW_SIZE = DEFAULT_SIZE * 16"
definition SHRINK_SIZE :: nat where "SHRINK_SIZE = 1024 * DEFAULT_SIZE"
definition DOWN_SIZE :: nat where "DOWN_SIZE = SHRINK_SIZE div 16"
definition MAX_SIZE :: nat where "MAX_SIZE = 1024 * 1024 div 4"

text \<open>\<open>std::vector<char>::resize(n, 0)\<close>.\<close>

definition vec_resize :: "nat \<Rightarrow> byte list \<Rightarrow> byte list" where
  "vec_resize n xs = take n xs @ replicate (n - length xs) 0"

definition fb_new :: FastBuffer where
  "fb_new = \<lparr>m_readstart = 0, m_writestart = 0,
     m_innerdata = vec_resize DEFAULT_SIZE [], m_halfcounter = 0\<rparr>"

definition fb_size :: "FastBuffer \<Rightarrow> nat cres" where
  "fb_size b =
     (if m_writestart b \<ge> m_readstart b then Inr (m_writestart b - m_readstart b)
      else Inl AssertFailed)"

definition fb_empty :: "FastBuffer \<Rightarrow> bool" where
  "fb_empty b \<longleftrightarrow> m_readstart b = m_writestart b"

definition fb_clear :: "FastBuffer \<Rightarrow> FastBuffer" where
  "fb_clear b = b\<lparr>m_writestart := 0, m_readstart := 0\<rparr>"

text \<open>\<open>data()\<close> with \<open>size()\<close>: the readable bytes from \<open>m_readstart\<close> on.\<close>

definition fb_data :: "FastBuffer \<Rightarrow> byte list cres" where
  "fb_data b =
     (if m_readstart b \<le> length (m_innerdata b)
      then cbind (fb_size b) (\<lambda>n. cload (m_innerdata b) (m_readstart b) n)
      else Inl AssertFailed)"

definition fb_pop_front :: "FastBuffer \<Rightarrow> nat \<Rightarrow> FastBuffer cres" where
  "fb_pop_front b datasize =
     cbind (fb_size b) (\<lambda>sz.
       if datasize \<le> sz then
         let b = b\<lparr>m_readstart := m_readstart b + datasize\<rparr>
         in Inr (if m_writestart b \<le> m_readstart b then b\<lparr>m_readstart := 0, m_writestart := 0\<rparr> else b)
       else Inl AssertFailed)"

text \<open>The compaction both \<open>ensurewritable\<close> and \<open>push_back\<close> do: \<open>std::copy\<close> of the live bytes to the front.\<close>

definition fb_compact :: "FastBuffer \<Rightarrow> FastBuffer cres" where
  "fb_compact b =
     cbind (fb_size b) (\<lambda>sz.
     cbind (cload (m_innerdata b) (m_readstart b) sz) (\<lambda>live.
     cbind (cstore (m_innerdata b) 0 live) (\<lambda>d.
       Inr (b\<lparr>m_innerdata := d, m_writestart := sz, m_readstart := 0\<rparr>))))"

definition ensurewritable :: "FastBuffer \<Rightarrow> nat \<Rightarrow> FastBuffer cres" where
  "ensurewritable b datasize =
     (if length (m_innerdata b) < m_writestart b + datasize then
        if length (m_innerdata b) > MAX_SIZE then
          cbind (fb_compact b) (\<lambda>b.
          cbind (fb_size b) (\<lambda>sz.
            Inr (if length (m_innerdata b) < datasize + sz
                 then b\<lparr>m_innerdata := vec_resize (sz + datasize) (m_innerdata b)\<rparr>
                 else b)))
        else
          Inr (b\<lparr>m_innerdata :=
            vec_resize (m_writestart b * 2 + datasize + GROW_SIZE) (m_innerdata b)\<rparr>)
      else Inr b)"

text \<open>The shrinking step at the head of \<open>push_back\<close> (lines 59 to 83).\<close>

definition fb_shrink :: "FastBuffer \<Rightarrow> nat \<Rightarrow> FastBuffer cres" where
  "fb_shrink b datasize =
     (if length (m_innerdata b) > SHRINK_SIZE then
        cbind (fb_size b) (\<lambda>sz.
          if int (length (m_innerdata b)) - int sz - int datasize
               > int (length (m_innerdata b)) div 8 * 7 then
            let c = m_halfcounter b; b = b\<lparr>m_halfcounter := c + 1\<rparr> in
            if c > 100 then
              cbind (fb_compact (b\<lparr>m_halfcounter := 0\<rparr>)) (\<lambda>b.
                Inr (b\<lparr>m_innerdata :=
                  vec_resize (length (m_innerdata b) - DOWN_SIZE) (m_innerdata b)\<rparr>))
            else Inr b
          else Inr (b\<lparr>m_halfcounter := 0\<rparr>))
      else Inr b)"

definition fb_push_back :: "FastBuffer \<Rightarrow> byte list \<Rightarrow> FastBuffer cres" where
  "fb_push_back b pdata =
     (if length pdata = 0 then Inr b else
      cbind (fb_shrink b (length pdata)) (\<lambda>b.
        if m_writestart b \<le> length (m_innerdata b) then
          cbind (ensurewritable b (length pdata)) (\<lambda>b.
          cbind (cstore (m_innerdata b) (m_writestart b) pdata) (\<lambda>d.
            Inr (b\<lparr>m_innerdata := d, m_writestart := m_writestart b + length pdata\<rparr>)))
        else Inl AssertFailed))"

text \<open>
  The direct path of \<open>TcpSock::HandleEvent\<close>: the caller writes \<open>bs\<close> at \<open>writablebegin()\<close> (what \<open>read\<close>
  did) and then calls \<open>push_back_withoutdata\<close> with their number.
\<close>

definition fb_write_direct :: "FastBuffer \<Rightarrow> byte list \<Rightarrow> FastBuffer cres" where
  "fb_write_direct b bs =
     (if m_writestart b \<le> length (m_innerdata b)
      then cbind (cstore (m_innerdata b) (m_writestart b) bs) (\<lambda>d. Inr (b\<lparr>m_innerdata := d\<rparr>))
      else Inl AssertFailed)"

definition push_back_withoutdata :: "FastBuffer \<Rightarrow> nat \<Rightarrow> FastBuffer cres" where
  "push_back_withoutdata b datasize =
     (if datasize + m_writestart b \<le> length (m_innerdata b)
      then Inr (b\<lparr>m_writestart := m_writestart b + datasize\<rparr>)
      else Inl AssertFailed)"

section \<open>Invariant and contents\<close>

definition fb_inv :: "FastBuffer \<Rightarrow> bool" where
  "fb_inv b \<longleftrightarrow> m_readstart b \<le> m_writestart b \<and> m_writestart b \<le> length (m_innerdata b)"

definition fb_contents :: "FastBuffer \<Rightarrow> byte list" where
  "fb_contents b = take (m_writestart b - m_readstart b) (drop (m_readstart b) (m_innerdata b))"

text \<open>A history of a buffer: appended blocks and removed prefixes.\<close>

datatype fifo_op = Push "byte list" | Pop nat

fun fifo_run ::
  "('b \<Rightarrow> byte list \<Rightarrow> 'b cres) \<Rightarrow> ('b \<Rightarrow> nat \<Rightarrow> 'b cres) \<Rightarrow> ('b \<Rightarrow> byte list cres) \<Rightarrow>
   'b \<Rightarrow> fifo_op list \<Rightarrow> (byte list \<times> 'b) cres" where
  "fifo_run push pop data b [] = Inr ([], b)"
| "fifo_run push pop data b (Push bs # ops) = cbind (push b bs) (\<lambda>b. fifo_run push pop data b ops)"
| "fifo_run push pop data b (Pop n # ops) =
     cbind (data b) (\<lambda>d. cbind (pop b n) (\<lambda>b.
       cmap (\<lambda>(out, b). (take n d @ out, b)) (fifo_run push pop data b ops)))"

fun pushed :: "fifo_op list \<Rightarrow> byte list" where
  "pushed [] = []"
| "pushed (Push bs # ops) = bs @ pushed ops"
| "pushed (Pop n # ops) = pushed ops"

text \<open>No removal asks for more than is stored (\<open>k\<close> bytes at the start).\<close>

fun fifo_legal :: "nat \<Rightarrow> fifo_op list \<Rightarrow> bool" where
  "fifo_legal k [] = True"
| "fifo_legal k (Push bs # ops) = fifo_legal (k + length bs) ops"
| "fifo_legal k (Pop n # ops) = (n \<le> k \<and> fifo_legal (k - n) ops)"

section \<open>The interface a socket relies on\<close>

locale byte_fifo =
  fixes inv :: "'b \<Rightarrow> bool"
    and contents :: "'b \<Rightarrow> byte list"
    and push :: "'b \<Rightarrow> byte list \<Rightarrow> 'b cres"
    and pop :: "'b \<Rightarrow> nat \<Rightarrow> 'b cres"
    and data :: "'b \<Rightarrow> byte list cres"
  assumes push_law: "inv b \<Longrightarrow> \<exists>b'. push b bs = Inr b' \<and> inv b' \<and> contents b' = contents b @ bs"
    and pop_law: "inv b \<Longrightarrow> n \<le> length (contents b) \<Longrightarrow>
          \<exists>b'. pop b n = Inr b' \<and> inv b' \<and> contents b' = drop n (contents b)"
    and data_law: "inv b \<Longrightarrow> data b = Inr (contents b)"
begin

lemma run_legal:
  assumes "inv b" "fifo_legal (length (contents b)) ops"
  shows "\<exists>out b'. fifo_run push pop data b ops = Inr (out, b') \<and> inv b' \<and>
           out @ contents b' = contents b @ pushed ops"
  using assms
proof (induction ops arbitrary: b)
  case Nil
  then show ?case by simp
next
  case (Cons op ops)
  show ?case
  proof (cases op)
    case (Push bs)
    with Cons.prems obtain b1 where b1: "push b bs = Inr b1" "inv b1" "contents b1 = contents b @ bs"
      using push_law by blast
    with Cons.prems Push have "fifo_legal (length (contents b1)) ops" by simp
    with b1 Push show ?thesis using Cons.IH [of b1] by auto
  next
    case (Pop n)
    with Cons.prems obtain b1 where b1: "pop b n = Inr b1" "inv b1" "contents b1 = drop n (contents b)"
      using pop_law by auto
    with Cons.prems Pop have "fifo_legal (length (contents b1)) ops" by simp
    then obtain out b' where "fifo_run push pop data b1 ops = Inr (out, b')" "inv b'"
      "out @ contents b' = drop n (contents b) @ pushed ops"
      using Cons.IH [of b1] b1 by auto
    with Pop b1 Cons.prems show ?thesis
      by (auto simp: data_law)
  qed
qed

end

section \<open>Lemmas\<close>

lemma length_vec_resize [simp]: "length (vec_resize n xs) = n"
  by (simp add: vec_resize_def)

lemma take_vec_resize: "k \<le> n \<Longrightarrow> k \<le> length xs \<Longrightarrow> take k (vec_resize n xs) = take k xs"
  by (simp add: vec_resize_def min_def)

lemma fb_inv_new: "fb_inv fb_new" and fb_contents_new [simp]: "fb_contents fb_new = []"
  by (simp_all add: fb_inv_def fb_new_def fb_contents_def)

lemma fb_contents_alt:
  "fb_inv b \<Longrightarrow> fb_contents b = drop (m_readstart b) (take (m_writestart b) (m_innerdata b))"
  by (simp add: fb_contents_def fb_inv_def drop_take)

lemma fb_contents_cong:
  "m_readstart b' = m_readstart b \<Longrightarrow> m_writestart b' = m_writestart b \<Longrightarrow>
   take (m_writestart b) (m_innerdata b') = take (m_writestart b) (m_innerdata b) \<Longrightarrow>
   fb_contents b' = fb_contents b"
  by (metis drop_take fb_contents_def)

lemma length_fb_contents: "fb_inv b \<Longrightarrow> length (fb_contents b) = m_writestart b - m_readstart b"
  by (auto simp: fb_contents_def fb_inv_def min_def)

lemma fb_size_inv: "fb_inv b \<Longrightarrow> fb_size b = Inr (length (fb_contents b))"
  by (simp add: fb_size_def length_fb_contents fb_inv_def)

lemma fb_empty_iff: "fb_inv b \<Longrightarrow> fb_empty b \<longleftrightarrow> fb_contents b = []"
  by (auto simp: fb_empty_def fb_inv_def fb_contents_def)

lemma fb_data_inv: "fb_inv b \<Longrightarrow> fb_data b = Inr (fb_contents b)"
  by (simp add: fb_data_def fb_size_def fb_inv_def cload_def fb_contents_def)

lemma fb_clear_law: "fb_inv (fb_clear b) \<and> fb_contents (fb_clear b) = []"
  by (simp add: fb_clear_def fb_inv_def fb_contents_def)

lemma fb_pop_front_law:
  "fb_inv b \<Longrightarrow> n \<le> length (fb_contents b) \<Longrightarrow>
   \<exists>b'. fb_pop_front b n = Inr b' \<and> fb_inv b' \<and> fb_contents b' = drop n (fb_contents b)"
  by (auto simp: fb_pop_front_def fb_size_def fb_inv_def fb_contents_def Let_def drop_take add.commute)

lemma fb_compact_law:
  assumes "fb_inv b"
  shows "\<exists>b'. fb_compact b = Inr b' \<and> fb_inv b' \<and> fb_contents b' = fb_contents b \<and>
    length (m_innerdata b') = length (m_innerdata b) \<and> m_readstart b' = 0 \<and>
    m_writestart b' = length (fb_contents b) \<and> m_halfcounter b' = m_halfcounter b"
  using assms
  by (auto simp: fb_compact_def fb_size_def fb_inv_def cload_def cstore_def overlay_def fb_contents_def)

lemma fb_resize_law:
  assumes "fb_inv b" "m_writestart b \<le> n"
  shows "fb_inv (b\<lparr>m_innerdata := vec_resize n (m_innerdata b)\<rparr>)"
    and "fb_contents (b\<lparr>m_innerdata := vec_resize n (m_innerdata b)\<rparr>) = fb_contents b"
  using assms by (auto simp: fb_inv_def intro!: fb_contents_cong take_vec_resize)

lemma ensurewritable_law:
  assumes "fb_inv b"
  shows "\<exists>b'. ensurewritable b n = Inr b' \<and> fb_inv b' \<and> fb_contents b' = fb_contents b \<and>
    m_writestart b' + n \<le> length (m_innerdata b')"
proof (cases "length (m_innerdata b) < m_writestart b + n \<and> length (m_innerdata b) > MAX_SIZE")
  case True
  from fb_compact_law [OF assms] obtain b1 where b1: "fb_compact b = Inr b1" "fb_inv b1"
    "fb_contents b1 = fb_contents b" "m_writestart b1 = length (fb_contents b)" by auto
  with True show ?thesis
    by (auto simp: ensurewritable_def fb_size_inv fb_resize_law add.commute)
next
  case False
  with assms show ?thesis
    by (auto simp: ensurewritable_def fb_resize_law)
qed

lemma fb_shrink_law:
  assumes "fb_inv b"
  shows "\<exists>b'. fb_shrink b n = Inr b' \<and> fb_inv b' \<and> fb_contents b' = fb_contents b"
proof -
  have "fb_contents (b\<lparr>m_halfcounter := c\<rparr>) = fb_contents b" "fb_inv (b\<lparr>m_halfcounter := c\<rparr>)" for c
    using assms by (simp_all add: fb_contents_def fb_inv_def)
  note this [simp]
  from fb_compact_law [of "b\<lparr>m_halfcounter := 0\<rparr>"] obtain b1 where b1:
    "fb_compact (b\<lparr>m_halfcounter := 0\<rparr>) = Inr b1" "fb_inv b1" "fb_contents b1 = fb_contents b"
    "length (m_innerdata b1) = length (m_innerdata b)" "m_writestart b1 = length (fb_contents b)"
    by auto
  have "m_writestart b1 \<le> length (m_innerdata b1) - DOWN_SIZE"
    if "length (m_innerdata b) > SHRINK_SIZE"
      "int (length (m_innerdata b)) - int (length (fb_contents b)) - int n
         > int (length (m_innerdata b)) div 8 * 7"
    using that b1 by (simp add: SHRINK_SIZE_def DOWN_SIZE_def DEFAULT_SIZE_def)
  with b1 assms show ?thesis
    by (auto simp: fb_shrink_def fb_size_inv Let_def fb_resize_law)
qed

lemma fb_store_law:
  assumes "fb_inv b" "m_writestart b + length bs \<le> length (m_innerdata b)"
  shows "fb_contents (b\<lparr>m_innerdata := overlay (m_writestart b) bs (m_innerdata b),
           m_writestart := m_writestart b + length bs\<rparr>) = fb_contents b @ bs"
  using assms by (simp add: fb_inv_def fb_contents_def overlay_def drop_take)

lemma fb_push_back_law:
  assumes "fb_inv b"
  shows "\<exists>b'. fb_push_back b bs = Inr b' \<and> fb_inv b' \<and> fb_contents b' = fb_contents b @ bs"
proof (cases "bs = []")
  case True
  with assms show ?thesis by (simp add: fb_push_back_def)
next
  case False
  from fb_shrink_law [OF assms] obtain b1 where b1: "fb_shrink b (length bs) = Inr b1"
    "fb_inv b1" "fb_contents b1 = fb_contents b" by blast
  from ensurewritable_law [OF b1(2)] obtain b2 where b2: "ensurewritable b1 (length bs) = Inr b2"
    "fb_inv b2" "fb_contents b2 = fb_contents b" "m_writestart b2 + length bs \<le> length (m_innerdata b2)"
    using b1(3) by metis
  moreover have "fb_inv (b2\<lparr>m_innerdata := overlay (m_writestart b2) bs (m_innerdata b2),
      m_writestart := m_writestart b2 + length bs\<rparr>)"
    using b2 by (simp add: fb_inv_def)
  moreover have "m_writestart b1 \<le> length (m_innerdata b1)"
    using b1(2) by (simp add: fb_inv_def)
  ultimately show ?thesis
    using False b1 by (auto simp: fb_push_back_def cstore_ok fb_store_law)
qed

interpretation fb: byte_fifo fb_inv fb_contents fb_push_back fb_pop_front fb_data
  by unfold_locales (simp_all add: fb_push_back_law fb_pop_front_law fb_data_inv)

text \<open>Appending through the direct path after \<open>ensurewritable\<close> is appending.\<close>

lemma fb_direct_law:
  assumes "fb_inv b" "m_writestart b + length bs \<le> length (m_innerdata b)"
  shows "\<exists>b'. cbind (fb_write_direct b bs) (\<lambda>b. push_back_withoutdata b (length bs)) = Inr b' \<and>
    fb_inv b' \<and> fb_contents b' = fb_contents b @ bs"
  using assms fb_store_law [OF assms]
  by (auto simp: fb_write_direct_def push_back_withoutdata_def cstore_ok fb_inv_def)

section \<open>Properties\<close>



text \<open>
  the direct write path. After \<open>ensurewritable(n)\<close> any block of at most \<open>n\<close> bytes can be written
  at \<open>writablebegin()\<close> and committed with \<open>push_back_withoutdata\<close>: nothing asserts, nothing is written
  outside the vector, and the effect is that of appending the block.
\<close>

theorem fast_buffer_direct_write:
  assumes "fb_inv b" "length bs \<le> n"
  shows "\<exists>b'. cbind (ensurewritable b n) (\<lambda>b. cbind (fb_write_direct b bs)
      (\<lambda>b. push_back_withoutdata b (length bs))) = Inr b' \<and>
    fb_inv b' \<and> fb_contents b' = fb_contents b @ bs"
proof -
  from ensurewritable_law [OF assms(1), of n] obtain b1 where b1: "ensurewritable b n = Inr b1"
    "fb_inv b1" "fb_contents b1 = fb_contents b" "m_writestart b1 + n \<le> length (m_innerdata b1)"
    by blast
  with assms(2) show ?thesis using fb_direct_law [of b1 bs] by simp
qed

theorem fast_buffer_direct_write_witness:
  "\<exists>b'. cbind (ensurewritable fb_new 400) (\<lambda>b. cbind (fb_write_direct b [7, 8])
      (\<lambda>b. push_back_withoutdata b (length [7 :: byte, 8]))) = Inr b' \<and>
    fb_inv b' \<and> fb_contents b' = [7, 8]"
  using fast_buffer_direct_write [of fb_new "[7, 8]" 400] by (simp add: fb_inv_new)

end
