(* ===== verification/Net_Msg.thy ===== *)
theory Net_Msg
  imports Bus_Prelude
begin

text \<open>
  Messages between two processes: the parameter of a message (\<open>MsgBusParam\<close> of
  \<^verbatim>\<open>src/Core/msgbus_interface.h\<close>), the content string that carries sender, message id and parameter
  (\<^verbatim>\<open>src/Core/NetMsgBusUtility.hpp\<close>), and the filters applied to it (\<^verbatim>\<open>src/Core/NetMsgBusFilterMgr.cpp\<close>).

  A \<open>shared_array\<close> is the block it points to, or \<open>None\<close> when it is empty. A function that returns false and
  leaves its output unset returns \<open>None\<close>.
\<close>

section \<open>Model\<close>

record MsgBusParam =
  paramdata :: "byte list option"
  paramlen :: u32

definition MsgBusParam_empty :: MsgBusParam where
  "MsgBusParam_empty = \<lparr>paramdata = None, paramlen = 0\<rparr>"

definition DeepCopy :: "MsgBusParam \<Rightarrow> MsgBusParam cres" where
  "DeepCopy m = cbind (memcpy_ptr (unat (paramlen m)) (paramdata m)) (\<lambda>d.
     Inr \<lparr>paramdata = Some d, paramlen = paramlen m\<rparr>)"

subsection \<open>Filters\<close>

record FilterMgr =
  m_include_senders :: "byte list list"
  m_exclude_msgids :: "byte list list"

definition FilterMgr_init :: FilterMgr where
  "FilterMgr_init = \<lparr>m_include_senders = [], m_exclude_msgids = []\<rparr>"

definition AddIncludeSender :: "FilterMgr \<Rightarrow> byte list \<Rightarrow> FilterMgr" where
  "AddIncludeSender f sender_name = f\<lparr>m_include_senders := m_include_senders f @ [sender_name]\<rparr>"

definition AddExcludeMsgId :: "FilterMgr \<Rightarrow> byte list \<Rightarrow> FilterMgr" where
  "AddExcludeMsgId f msgid = f\<lparr>m_exclude_msgids := m_exclude_msgids f @ [msgid]\<rparr>"

fun sender_listed :: "byte list list \<Rightarrow> byte list \<Rightarrow> bool" where
  "sender_listed [] name = False"
| "sender_listed (s # ss) name = (if s = name then True else sender_listed ss name)"

definition FilterBySender :: "FilterMgr \<Rightarrow> byte list \<Rightarrow> bool" where
  "FilterBySender f name =
     (if m_include_senders f = [] then True else sender_listed (m_include_senders f) name)"

fun msgid_passes :: "byte list list \<Rightarrow> byte list \<Rightarrow> bool" where
  "msgid_passes [] msgid = True"
| "msgid_passes (x # xs) msgid = (if str_find msgid x = Some 0 then False else msgid_passes xs msgid)"

definition FilterByMsgId :: "FilterMgr \<Rightarrow> byte list \<Rightarrow> bool" where
  "FilterByMsgId f msgid =
     (if m_exclude_msgids f = [] then True else msgid_passes (m_exclude_msgids f) msgid)"

subsection \<open>Message content\<close>

definition SENDER_LEN_BYTES :: nat where "SENDER_LEN_BYTES = 1"
definition MSGKEY_LEN_BYTES :: nat where "MSGKEY_LEN_BYTES = 1"
definition MSGVALUE_LEN_BYTES :: nat where "MSGVALUE_LEN_BYTES = 4"

definition GetMsgSender :: "byte list \<Rightarrow> byte list option cres" where
  "GetMsgSender c =
     (if length c < SENDER_LEN_BYTES then Inr None else
      cbind (load8 c 0) (\<lambda>msgsender_len.
      if length c < SENDER_LEN_BYTES + unat msgsender_len then Inr None
      else Inr (Some (take (unat msgsender_len) (drop SENDER_LEN_BYTES c)))))"

definition GetMsgId :: "byte list \<Rightarrow> byte list option cres" where
  "GetMsgId c =
     (if length c < SENDER_LEN_BYTES then Inr None else
      cbind (load8 c 0) (\<lambda>msgsender_len.
      if length c < SENDER_LEN_BYTES + unat msgsender_len + MSGKEY_LEN_BYTES then Inr None else
      cbind (load8 c (SENDER_LEN_BYTES + unat msgsender_len)) (\<lambda>msgid_len.
      if length c < SENDER_LEN_BYTES + unat msgsender_len + MSGKEY_LEN_BYTES + unat msgid_len then Inr None
      else Inr (Some (take (unat msgid_len)
             (drop (SENDER_LEN_BYTES + unat msgsender_len + MSGKEY_LEN_BYTES) c))))))"

definition CheckMsgSender :: "FilterMgr \<Rightarrow> byte list \<Rightarrow> (bool \<times> byte list option) cres" where
  "CheckMsgSender f c =
     cmap (\<lambda>r. case r of Some msgsender \<Rightarrow> (FilterBySender f msgsender, Some msgsender)
               | None \<Rightarrow> (False, None)) (GetMsgSender c)"

definition CheckMsgId :: "FilterMgr \<Rightarrow> byte list \<Rightarrow> (bool \<times> byte list option) cres" where
  "CheckMsgId f c =
     cmap (\<lambda>r. case r of Some msgid \<Rightarrow> (FilterByMsgId f msgid, Some msgid)
               | None \<Rightarrow> (False, None)) (GetMsgId c)"

text \<open>The offsets are \<open>uint32_t\<close>: the sum in the last length check can wrap.\<close>

definition GetMsgParam :: "byte list \<Rightarrow> (byte list \<times> u32) option cres" where
  "GetMsgParam c =
     (if length c < SENDER_LEN_BYTES then Inr None else
      cbind (load8 c 0) (\<lambda>msgsender_len.
      if length c < SENDER_LEN_BYTES + unat msgsender_len + MSGKEY_LEN_BYTES then Inr None else
      cbind (load8 c (SENDER_LEN_BYTES + unat msgsender_len)) (\<lambda>msgkey_len.
      let msgparam_offset = of_nat SENDER_LEN_BYTES + ucast msgsender_len + of_nat MSGKEY_LEN_BYTES
            + ucast msgkey_len :: u32 in
      if length c < unat (msgparam_offset + of_nat MSGVALUE_LEN_BYTES) then Inr None else
      cbind (load32 c (unat msgparam_offset)) (\<lambda>netparam_len.
      let param_len = htonl netparam_len in
      if length c < unat (msgparam_offset + of_nat MSGVALUE_LEN_BYTES + param_len) then Inr None else
      cbind (cload c (unat (msgparam_offset + of_nat MSGVALUE_LEN_BYTES)) (unat param_len)) (\<lambda>d.
        Inr (Some (d, param_len)))))))"

definition GenerateNetMsgContent :: "byte list \<Rightarrow> MsgBusParam \<Rightarrow> byte list \<Rightarrow> MsgBusParam cres" where
  "GenerateNetMsgContent msgid param msgsender =
     (let msgsender_len = of_nat (length msgsender) :: byte;
          msgid_len = of_nat (length msgid) :: byte;
          netmsgparam_len = htonl (paramlen param);
          total = 1 + ucast msgsender_len + 1 + ucast msgid_len + 4 + paramlen param :: u32;
          blk = replicate (unat total) 0;
          pid = 1 + unat msgsender_len;
          plen = pid + 1 + unat msgid_len in
      cbind (cstore blk 0 [msgsender_len]) (\<lambda>blk.
      cbind (cload msgsender 0 (unat msgsender_len)) (\<lambda>s.
      cbind (cstore blk 1 s) (\<lambda>blk.
      cbind (cstore blk pid [msgid_len]) (\<lambda>blk.
      cbind (cload msgid 0 (unat msgid_len)) (\<lambda>s.
      cbind (cstore blk (pid + 1) s) (\<lambda>blk.
      cbind (cstore blk plen (mem32 netmsgparam_len)) (\<lambda>blk.
      cbind (memcpy_ptr (unat (paramlen param)) (paramdata param)) (\<lambda>d.
      cbind (cstore blk (plen + 4) d) (\<lambda>blk.
        Inr \<lparr>paramdata = Some blk, paramlen = total\<rparr>))))))))))"

section \<open>Reference format\<close>

definition netmsg_bytes :: "byte list \<Rightarrow> byte list \<Rightarrow> byte list \<Rightarrow> byte list" where
  "netmsg_bytes sender msgid d =
     [of_nat (length sender)] @ sender @ [of_nat (length msgid)] @ msgid @ be32 (of_nat (length d)) @ d"

section \<open>Lemmas\<close>

lemma sender_listed_iff [simp]: "sender_listed ss name \<longleftrightarrow> name \<in> set ss"
  by (induction ss) auto

lemma msgid_passes_iff [simp]:
  "msgid_passes xs msgid \<longleftrightarrow> (\<forall>x\<in>set xs. take (length x) msgid \<noteq> x)"
  by (induction xs) (auto simp: str_find_0)

lemma unat_of_nat_byte: "n < 256 \<Longrightarrow> unat (of_nat n :: byte) = n"
  and unat_of_nat_u32: "n < 2 ^ 32 \<Longrightarrow> unat (of_nat n :: u32) = n"
  by (simp_all add: unat_of_nat)

lemma unat_byte_le: "unat (b :: byte) \<le> 255"
  using unsigned_less [of b, where 'a = nat] by simp

lemma unat_ucast_8_32 [simp]: "unat (ucast (w :: byte) :: u32) = unat w"
  by (simp add: unsigned_ucast_eq take_bit_nat_eq_self_iff less_le_trans [OF unsigned_less])

lemma unat_add_u32: "unat (a :: u32) + unat b < 2 ^ 32 \<Longrightarrow> unat (a + b) = unat a + unat b"
  by (simp add: unat_word_ariths)

lemma unat_offset:
  fixes a b :: byte and n :: u32
  shows "unat (2 + (ucast a + ucast b) :: u32) = 2 + unat a + unat b"
    and "unat (6 + (ucast a + ucast b) :: u32) = 6 + unat a + unat b"
    and "6 + unat a + unat b + unat n < 2 ^ 32 \<Longrightarrow>
      unat (6 + (ucast a + (ucast b + n))) = 6 + unat a + unat b + unat n"
proof -
  show b: "unat (2 + (ucast a + ucast b) :: u32) = 2 + unat a + unat b"
    "unat (6 + (ucast a + ucast b) :: u32) = 6 + unat a + unat b"
    using unat_byte_le [of a] unat_byte_le [of b] by (simp_all add: unat_add_u32)
  assume "6 + unat a + unat b + unat n < 2 ^ 32"
  then show "unat (6 + (ucast a + (ucast b + n))) = 6 + unat a + unat b + unat n"
    using unat_add_u32 [of "6 + (ucast a + ucast b)" n] unfolding b(2) by (simp add: add.assoc)
qed

lemmas len_bytes_defs = SENDER_LEN_BYTES_def MSGKEY_LEN_BYTES_def MSGVALUE_LEN_BYTES_def

lemma length_netmsg_bytes [simp]:
  "length (netmsg_bytes sender msgid d) = 6 + length sender + length msgid + length d"
  by (simp add: netmsg_bytes_def)

lemma netmsg_holds:
  fixes sender msgid d :: "byte list"
  defines "c \<equiv> netmsg_bytes sender msgid d"
  shows "holds_at 0 [of_nat (length sender)] c" "holds_at 1 sender c"
    "holds_at (1 + length sender) [of_nat (length msgid)] c"
    "holds_at (2 + length sender) msgid c"
    "holds_at (2 + length sender + length msgid) (be32 (of_nat (length d))) c"
    "holds_at (6 + length sender + length msgid) d c"
proof -
  have "holds_at 0 (netmsg_bytes sender msgid d) c" by (simp add: c_def)
  then show "holds_at 0 [of_nat (length sender)] c" "holds_at 1 sender c"
    "holds_at (1 + length sender) [of_nat (length msgid)] c"
    "holds_at (2 + length sender) msgid c"
    "holds_at (2 + length sender + length msgid) (be32 (of_nat (length d))) c"
    "holds_at (6 + length sender + length msgid) d c"
    unfolding netmsg_bytes_def holds_at_append by (simp_all add: ac_simps eval_nat_numeral)
qed

lemma GetMsgSender_bytes:
  "length sender < 256 \<Longrightarrow> GetMsgSender (netmsg_bytes sender msgid d) = Inr (Some sender)"
  using netmsg_holds(1,2) [of sender msgid d]
  by (simp add: GetMsgSender_def len_bytes_defs load8_holds unat_of_nat_byte holds_at_def)

lemma GetMsgId_bytes:
  "length sender < 256 \<Longrightarrow> length msgid < 256 \<Longrightarrow>
   GetMsgId (netmsg_bytes sender msgid d) = Inr (Some msgid)"
  using load8_holds [OF netmsg_holds(1) [of sender msgid d]]
    load8_holds [OF netmsg_holds(3) [of sender msgid d]] netmsg_holds(4) [of sender msgid d]
  by (simp add: GetMsgId_def len_bytes_defs unat_of_nat_byte holds_at_def)

lemma GetMsgParam_bytes:
  assumes "length sender < 256" "length msgid < 256"
    and "6 + length sender + length msgid + length d < 2 ^ 32"
  shows "GetMsgParam (netmsg_bytes sender msgid d) = Inr (Some (d, of_nat (length d)))"
proof -
  let ?c = "netmsg_bytes sender msgid d"
  have n: "unat (of_nat (length d) :: u32) = length d"
    using assms(3) by (simp add: unat_of_nat_u32)
  show ?thesis
    using assms load8_holds [OF netmsg_holds(1) [of sender msgid d]]
      load8_holds [OF netmsg_holds(3) [of sender msgid d]]
      load32_holds [OF netmsg_holds(5) [of sender msgid d]]
      cload_holds [OF netmsg_holds(6) [of sender msgid d] refl]
    by (simp add: GetMsgParam_def len_bytes_defs unat_of_nat_byte unat_offset n Let_def add.assoc)
qed

lemma GenerateNetMsgContent_bytes:
  assumes "length sender < 256" "length msgid < 256"
    and "paramdata param = Some d" "unat (paramlen param) = length d"
    and "6 + length sender + length msgid + length d < 2 ^ 32"
  shows "\<exists>n. GenerateNetMsgContent msgid param sender =
      Inr \<lparr>paramdata = Some (netmsg_bytes sender msgid d), paramlen = n\<rparr> \<and>
    unat n = 6 + length sender + length msgid + length d"
proof -
  let ?t = "6 + (ucast (of_nat (length sender) :: byte) + (ucast (of_nat (length msgid) :: byte)
      + paramlen param)) :: u32"
  have t: "unat ?t = 6 + length sender + length msgid + length d"
    using assms by (simp add: unat_offset unat_of_nat_byte)
  have l: "of_nat (length d) = paramlen param"
    by (simp add: assms(4) [symmetric])
  have "GenerateNetMsgContent msgid param sender =
      Inr \<lparr>paramdata = Some (overlay 0 (netmsg_bytes sender msgid d) (replicate (unat ?t) 0)), paramlen = ?t\<rparr>"
    using assms t
    by (simp add: GenerateNetMsgContent_def unat_of_nat_byte memcpy_ptr_def cload_def cstore_ok
          overlay_overlay netmsg_bytes_def l Let_def add.assoc)
  moreover have "overlay 0 (netmsg_bytes sender msgid d) (replicate (unat ?t) 0) = netmsg_bytes sender msgid d"
    by (simp add: overlay_def t)
  ultimately show ?thesis using t by auto
qed

lemma GetMsgSender_safe: "is_ok (GetMsgSender c)"
  by (cases c) (auto simp: GetMsgSender_def len_bytes_defs is_ok_cbind load8_def cload_def)

lemma GetMsgId_safe: "is_ok (GetMsgId c)"
  by (cases c) (auto simp: GetMsgId_def len_bytes_defs is_ok_cbind load8_def cload_def)

lemma GetMsgParam_fails:
  assumes "GetMsgParam c = Inl e"
  shows "\<exists>p n. load32 c p = Inr n \<and> 2 ^ 32 - 516 \<le> unat (htonl n)"
proof -
  from assms obtain a b where ab: "load8 c 0 = Inr a" "load8 c (1 + unat a) = Inr b"
    "6 + unat a + unat b \<le> length c"
    by (cases c)
       (auto simp: GetMsgParam_def len_bytes_defs Let_def unat_offset add.assoc cbind_def load8_def cload_def
          split: sum.splits if_splits)
  define n where "n = of_mem32 (take 4 (drop (2 + unat a + unat b) c))"
  have n: "load32 c (2 + unat a + unat b) = Inr n"
    using ab(3) by (simp add: load32_def cload_def n_def)
  have "2 ^ 32 - 516 \<le> unat (htonl n)"
  proof (rule ccontr)
    assume "\<not> ?thesis"
    then have "6 + unat a + unat b + unat (htonl n) < 2 ^ 32"
      using unat_byte_le [of a] unat_byte_le [of b] by simp
    with assms ab n show False
      by (auto simp: GetMsgParam_def len_bytes_defs Let_def unat_offset add.assoc cload_def
            split: if_splits)
  qed
  with n show ?thesis by blast
qed

section \<open>Properties\<close>

text \<open>
  C36: message content round trip. For a sender and a message id of at most 255 bytes and any parameter
  whose total fits 32 bits, \<open>GenerateNetMsgContent\<close> stays inside the block it allocates and the three
  accessors return the sender, the id and the parameter bytes, also when these contain NULs.
\<close>

theorem net_msg_roundtrip:
  assumes "length sender < 256" "length msgid < 256"
    and "paramdata param = Some d" "unat (paramlen param) = length d"
    and "6 + length sender + length msgid + length d < 2 ^ 32"
  shows "\<exists>c n. GenerateNetMsgContent msgid param sender = Inr \<lparr>paramdata = Some c, paramlen = n\<rparr> \<and>
    unat n = length c \<and> GetMsgSender c = Inr (Some sender) \<and> GetMsgId c = Inr (Some msgid) \<and>
    GetMsgParam c = Inr (Some (d, paramlen param))"
proof -
  have "of_nat (length d) = paramlen param" by (simp add: assms(4) [symmetric])
  with GenerateNetMsgContent_bytes [OF assms] GetMsgSender_bytes [OF assms(1), of msgid d]
    GetMsgId_bytes [OF assms(1,2), of d] GetMsgParam_bytes [OF assms(1,2,5)]
  show ?thesis by auto
qed

theorem net_msg_roundtrip_witness:
  "\<exists>c n. GenerateNetMsgContent (lit ''login'') \<lparr>paramdata = Some [1, 0, 2], paramlen = 3\<rparr> (lit ''a'') =
      Inr \<lparr>paramdata = Some c, paramlen = n\<rparr> \<and> unat n = length c \<and>
    GetMsgSender c = Inr (Some (lit ''a'')) \<and> GetMsgId c = Inr (Some (lit ''login'')) \<and>
    GetMsgParam c = Inr (Some ([1, 0, 2], 3))"
  using net_msg_roundtrip [of "lit ''a''" "lit ''login''" "\<lparr>paramdata = Some [1, 0, 2], paramlen = 3\<rparr>"
      "[1, 0, 2]"]
  by (simp add: lit_def)

text \<open>
  untrusted content. Reading the sender and the id never leaves the string; reading the parameter
  can only do so when the announced length is within 516 of 2^32, where the 32-bit sum of the
  check wraps.
\<close>

theorem net_msg_bounds:
  "is_ok (GetMsgSender c) \<and> is_ok (GetMsgId c) \<and>
   (is_ok (GetMsgParam c) \<or> (\<exists>p n. load32 c p = Inr n \<and> 2 ^ 32 - 516 \<le> unat (htonl n)))"
  using GetMsgParam_fails [of c] by (cases "GetMsgParam c") (auto simp: GetMsgSender_safe GetMsgId_safe)

text \<open>
  the wrap is reachable. A content of six bytes that announces a parameter of 2^32 - 6 bytes
  passes the length check and the copy reads outside the string.
\<close>

theorem net_msg_param_overflow:
  "GetMsgParam [0, 0, 255, 255, 255, 250] = Inl OutOfBounds"
proof -
  have h: "htonl (of_mem32 [255, 255, 255, 250]) = 0xFFFFFFFA"
    unfolding htonl_def mem32_of_mem32 by (simp add: of_mem32.simps)
  show ?thesis
    by (simp add: GetMsgParam_def len_bytes_defs load8_def load32_def cload_def h)
qed

text \<open>
  the filters. With no sender configured everyone passes, otherwise exactly the configured names
  (compared for equality); a message id passes exactly when no excluded id is a prefix of it.
\<close>

theorem filters_spec:
  "(FilterBySender f name \<longleftrightarrow> m_include_senders f = [] \<or> name \<in> set (m_include_senders f)) \<and>
   (FilterByMsgId f msgid \<longleftrightarrow> (\<nexists>x y. x \<in> set (m_exclude_msgids f) \<and> msgid = x @ y)) \<and>
   (FilterBySender (AddIncludeSender f s) name \<longleftrightarrow> name = s \<or> name \<in> set (m_include_senders f)) \<and>
   (FilterByMsgId (AddExcludeMsgId f s) msgid \<longleftrightarrow> FilterByMsgId f msgid \<and> (\<nexists>y. msgid = s @ y))"
proof -
  have "take (length x) msgid = x \<longleftrightarrow> (\<exists>y. msgid = x @ y)" for x :: "byte list"
    by (metis append_eq_conv_conj append_take_drop_id)
  then show ?thesis
    by (auto simp: FilterBySender_def FilterByMsgId_def AddIncludeSender_def AddExcludeMsgId_def)
qed

end
