(* ===== verification/Host_Info.thy ===== *)
theory Host_Info
  imports Bus_Prelude
begin

text \<open>
  The address of a client, \<open>S_ClientHostInfo\<close> (\<open>ClientHost\<close>) of \<^verbatim>\<open>src/Core/msgbus_def.h\<close> and
  \<^verbatim>\<open>src/Core/msgbus_def.cpp\<close>: its three packed fields (\<open>ip_v\<close>, \<open>port_v\<close>, \<open>busy_state_v\<close> for the code's names with a trailing underscore), the accessors, the equality the server compares
  hosts with, and the two C library functions they call (\<open>inet_pton\<close>, \<open>inet_ntop\<close> for \<open>AF_INET\<close>).
\<close>

section \<open>Model\<close>

text \<open>\<open>kServerBusyState\<close>; the field itself is a 32-bit integer read from the wire, so any word can occur.\<close>

definition LOW :: u32 where "LOW = 0"
definition MIDDLE :: u32 where "MIDDLE = 1"
definition HIGH :: u32 where "HIGH = 2"
definition UNAVAILABLE :: u32 where "UNAVAILABLE = 3"

record ClientHost =
  ip_v :: u32
  port_v :: u16
  busy_state_v :: u32

text \<open>\<open>inet_ntop\<close>: the four bytes of the address in memory order, in decimal, separated by dots.\<close>

definition digit :: "nat \<Rightarrow> byte" where
  "digit n = 48 + of_nat n"

definition dec_byte :: "byte \<Rightarrow> byte list" where
  "dec_byte b = (let n = unat b in
     if n < 10 then [digit n]
     else if n < 100 then [digit (n div 10), digit (n mod 10)]
     else [digit (n div 100), digit (n div 10 mod 10), digit (n mod 10)])"

fun dotted :: "byte list \<Rightarrow> byte list" where
  "dotted [] = []"
| "dotted [b] = dec_byte b"
| "dotted (b # bs) = dec_byte b @ 46 # dotted bs"

definition inet_ntop :: "u32 \<Rightarrow> byte list" where
  "inet_ntop a = dotted (mem32 a)"

text \<open>
  \<open>inet_pton\<close>: a scan over the characters with the number of octets begun, whether the current octet has
  a digit, the finished octets (last first) and the current one. No leading zeros, no octet above
  255, exactly four octets.
\<close>

fun pton_scan :: "nat \<Rightarrow> bool \<Rightarrow> byte list \<Rightarrow> nat \<Rightarrow> byte list \<Rightarrow> byte list option" where
  "pton_scan octets saw_digit tmp tp [] =
     (if octets < 4 then None else Some (rev (of_nat tp # tmp)))"
| "pton_scan octets saw_digit tmp tp (ch # src) =
     (if 48 \<le> ch \<and> ch \<le> 57 then
        let new = tp * 10 + (unat ch - 48) in
        if saw_digit \<and> tp = 0 then None
        else if new > 255 then None
        else if saw_digit then pton_scan octets True tmp new src
        else if octets + 1 > 4 then None
        else pton_scan (octets + 1) True tmp new src
      else if ch = 46 \<and> saw_digit then
        if octets = 4 then None
        else pton_scan octets False (of_nat tp # tmp) 0 src
      else None)"

definition inet_pton :: "byte list \<Rightarrow> u32 option" where
  "inet_pton s = map_option of_mem32 (pton_scan 0 False [] 0 (cstr s))"

definition ClientHost_default :: ClientHost where
  "ClientHost_default = \<lparr>ip_v = 0, port_v = 0, busy_state_v = htonl LOW\<rparr>"

definition set_ip :: "ClientHost \<Rightarrow> byte list \<Rightarrow> ClientHost" where
  "set_ip h ip_str = (case inet_pton ip_str of
       Some a \<Rightarrow> h\<lparr>ip_v := a\<rparr>
     | None \<Rightarrow> h\<lparr>ip_v := 0\<rparr>)"

definition set_port :: "ClientHost \<Rightarrow> u16 \<Rightarrow> ClientHost" where
  "set_port h port = h\<lparr>port_v := htons port\<rparr>"

definition set_state :: "ClientHost \<Rightarrow> u32 \<Rightarrow> ClientHost" where
  "set_state h st = h\<lparr>busy_state_v := htonl st\<rparr>"

definition ClientHost_new :: "byte list \<Rightarrow> u16 \<Rightarrow> ClientHost" where
  "ClientHost_new ip_str port = (case inet_pton ip_str of
       Some a \<Rightarrow> \<lparr>ip_v = a, port_v = htons port, busy_state_v = htonl LOW\<rparr>
     | None \<Rightarrow> \<lparr>ip_v = 0, port_v = htons port, busy_state_v = htonl LOW\<rparr>)"

text \<open>
  \<open>ip()\<close> sizes its string to \<open>INET6_ADDRSTRLEN\<close> (46) characters first: the text is followed by NULs
  that stay part of the returned \<open>std::string\<close>.
\<close>

definition host_ip :: "ClientHost \<Rightarrow> byte list" where
  "host_ip h = (if ip_v h = 0 then [] else cpad 46 (inet_ntop (ip_v h)))"

definition host_port :: "ClientHost \<Rightarrow> u16" where
  "host_port h = htons (port_v h)"

definition host_state :: "ClientHost \<Rightarrow> u32" where
  "host_state h = htonl (busy_state_v h)"

definition ClientHostIsEqual :: "ClientHost \<Rightarrow> ClientHost \<Rightarrow> bool" where
  "ClientHostIsEqual l r \<longleftrightarrow> host_ip l = host_ip r \<and> host_port l = host_port r"

text \<open>The packed memory image of the struct, which \<open>PackBody\<close> copies to the wire.\<close>

definition host_bytes :: "ClientHost \<Rightarrow> byte list" where
  "host_bytes h = mem32 (ip_v h) @ mem16 (port_v h) @ mem32 (busy_state_v h)"

definition load_host :: "byte list \<Rightarrow> nat \<Rightarrow> ClientHost cres" where
  "load_host blk p =
     cbind (load32 blk p) (\<lambda>a. cbind (load16 blk (p + 4)) (\<lambda>q. cbind (load32 blk (p + 6)) (\<lambda>s.
       Inr \<lparr>ip_v = a, port_v = q, busy_state_v = s\<rparr>)))"

section \<open>Lemmas\<close>

lemma digit_facts:
  assumes "n < 10"
  shows "48 \<le> digit n" "digit n \<le> 57" "unat (digit n) = 48 + n" "digit n \<noteq> 0"
proof -
  from assms have "unat (digit n) = 48 + n"
    by (auto simp: digit_def unat_word_ariths unat_of_nat)
  with assms show "48 \<le> digit n" "digit n \<le> 57" "unat (digit n) = 48 + n" "digit n \<noteq> 0"
    by (auto simp: word_le_nat_alt)
qed

lemma dec_byte_cases:
  obtains (one) n where "n < 10" "unat b = n" "dec_byte b = [digit n]"
  | (two) m n where "0 < m" "m < 10" "n < 10" "unat b = 10 * m + n" "dec_byte b = [digit m, digit n]"
  | (three) k m n where "0 < k" "k < 10" "m < 10" "n < 10" "unat b = 100 * k + 10 * m + n"
      "dec_byte b = [digit k, digit m, digit n]"
proof -
  have b: "unat b < 256" using unsigned_less [of b] by simp
  consider "unat b < 10" | "10 \<le> unat b" "unat b < 100" | "100 \<le> unat b" by linarith
  then show thesis
  proof cases
    case 1 then show ?thesis by (intro one) (simp_all add: dec_byte_def)
  next
    case 2 then show ?thesis
      by (intro two [of "unat b div 10" "unat b mod 10"]) (simp_all add: dec_byte_def Let_def)
  next
    case 3
    moreover have "unat b = 100 * (unat b div 100) + 10 * (unat b div 10 mod 10) + unat b mod 10"
      using mult_div_mod_eq [of 10 "unat b"] mult_div_mod_eq [of 10 "unat b div 10"]
      unfolding div_mult2_eq [of "unat b" 10 10, simplified] by linarith
    ultimately show ?thesis using b
      by (intro three [of "unat b div 100" "unat b div 10 mod 10" "unat b mod 10"])
         (simp_all add: dec_byte_def Let_def)
  qed
qed

lemma length_dec_byte: "length (dec_byte b) \<le> 3" and dec_byte_no_nul: "0 \<notin> set (dec_byte b)"
  by (cases b rule: dec_byte_cases; auto simp: digit_facts dest!: sym [of 0])+

lemma pton_scan_dec:
  "k < 4 \<Longrightarrow> pton_scan k False tmp 0 (dec_byte b @ src) = pton_scan (Suc k) True tmp (unat b) src"
  using unsigned_less [of b, where 'a = nat]
  by (cases b rule: dec_byte_cases) (auto simp: digit_facts Let_def algebra_simps)

lemma mem32_4: obtains a b c d where "mem32 w = [a, b, c, d]"
  using mem32_cases by blast

lemma inet_ntop_no_nul: "0 \<notin> set (inet_ntop a)" and length_inet_ntop: "length (inet_ntop a) \<le> 15"
proof -
  obtain w x y z where m: "mem32 a = [w, x, y, z]" by (rule mem32_4)
  show "0 \<notin> set (inet_ntop a)" by (simp add: inet_ntop_def m dec_byte_no_nul)
  show "length (inet_ntop a) \<le> 15"
    using length_dec_byte [of w] length_dec_byte [of x] length_dec_byte [of y] length_dec_byte [of z]
    by (simp add: inet_ntop_def m)
qed

lemma pton_scan_ntop: "pton_scan 0 False [] 0 (inet_ntop a) = Some (mem32 a)"
proof -
  obtain w x y z where m: "mem32 a = [w, x, y, z]" by (rule mem32_4)
  have "pton_scan 3 False t 0 (dec_byte z) = Some (rev (z # t))" for t
    using pton_scan_dec [of 3 t z "[]"] by simp
  then show ?thesis
    by (simp add: inet_ntop_def m pton_scan_dec numeral_3_eq_3)
qed

lemma inet_pton_ntop: "inet_pton (inet_ntop a) = Some a"
  by (simp add: inet_pton_def cstr_id inet_ntop_no_nul pton_scan_ntop)

lemma inet_pton_host_ip: "ip_v h \<noteq> 0 \<Longrightarrow> inet_pton (host_ip h) = Some (ip_v h)"
  using length_inet_ntop [of "ip_v h"]
  by (simp add: host_ip_def inet_pton_def cstr_cpad inet_ntop_no_nul pton_scan_ntop)

lemma inet_pton_Nil: "inet_pton [] = None"
  by (simp add: inet_pton_def cstr_def)

lemma host_ip_inj: "host_ip l = host_ip r \<longleftrightarrow> ip_v l = ip_v r"
  by (metis host_ip_def inet_pton_Nil inet_pton_host_ip option.inject option.distinct(1))

lemma htons_inj [simp]: "htons a = htons b \<longleftrightarrow> a = b"
  by (metis htons_htons)

lemma ClientHostIsEqual_iff: "ClientHostIsEqual l r \<longleftrightarrow> ip_v l = ip_v r \<and> port_v l = port_v r"
  by (simp add: ClientHostIsEqual_def host_ip_inj host_port_def)

lemma length_host_bytes [simp, mem_simps]: "length (host_bytes h) = 10"
  by (simp add: host_bytes_def)

lemma load16_mem [mem_simps]: "holds_at p (mem16 w) blk \<Longrightarrow> load16 blk p = Inr w"
  by (simp add: load16_def cload_holds [where bs = "mem16 w"])

lemma load32_mem [mem_simps]: "holds_at p (mem32 w) blk \<Longrightarrow> load32 blk p = Inr w"
  by (simp add: load32_def cload_holds [where bs = "mem32 w"])

lemma load_host_holds [mem_simps]: "holds_at p (host_bytes h) blk \<Longrightarrow> load_host blk p = Inr h"
  by (auto simp: host_bytes_def load_host_def holds_at_append load16_mem load32_mem ac_simps)

lemma load_host_ok: "is_ok (load_host blk p) \<longleftrightarrow> p + 10 \<le> length blk"
  by (auto simp: load_host_def is_ok_cbind load16_def load32_def cload_def)

section \<open>Properties\<close>

text \<open>
  a host's address survives the text form. Setting the address of any host to the string \<open>ip()\<close>
  returns (with its trailing NULs) gives back the same 32-bit address, also for the unset address 0,
  and \<open>port()\<close> and \<open>state()\<close> return what \<open>set_port\<close> and \<open>set_state\<close> stored.
\<close>

theorem client_host_text_roundtrip:
  "ip_v (set_ip g (host_ip h)) = ip_v h \<and> host_port (set_port h q) = q \<and> host_state (set_state h st) = st \<and>
   ip_v (ClientHost_new (host_ip h) q) = ip_v h"
proof (cases "ip_v h = 0")
  case True
  then show ?thesis
    by (simp add: set_ip_def ClientHost_new_def host_ip_def inet_pton_Nil set_port_def host_port_def
          set_state_def host_state_def)
next
  case False
  then show ?thesis
    by (simp add: set_ip_def ClientHost_new_def inet_pton_host_ip set_port_def host_port_def
          set_state_def host_state_def)
qed

end
