(* ===== verification/MsgBus_Def.thy ===== *)
theory MsgBus_Def
  imports Host_Info
begin

text \<open>
  The wire protocol between the bus server and its clients: \<^verbatim>\<open>src/Core/msgbus_def.h\<close> and
  \<^verbatim>\<open>src/Core/msgbus_def.cpp\<close>.

  A message class is a record; the classes derived from \<open>MsgBusPackHead\<close> are extensions of its record,
  so that the methods of the base class apply to all of them. A packing method takes the target
  memory block and the offset of its \<open>data\<close> argument, an unpacking method the source block; every access
  is bounds-checked against the block. A bare \<open>throw;\<close> (no exception is active) is \<open>Inl Terminate\<close>.
  Unpacking returns the C++ return value with the object as the code leaves it, also when it returns -1.
  \<open>len\<close> is the \<open>size_t\<close> argument whose default 0 means that nothing is checked.

  \<open>head_bytes\<close> and the \<open>body\<close> functions are the reference wire format; the locale \<open>message_codec\<close> states what a
  message class has to guarantee for \<open>PackData\<close> and \<open>UnPackData\<close> to be inverse, and is interpreted on the
  classes.
\<close>

section \<open>Constants\<close>

definition MAX_SERVICE_NAME :: nat where "MAX_SERVICE_NAME = 64"

definition REQ_REGISTER :: u32 where "REQ_REGISTER = 0x010001"
definition REQ_UNREGISTER :: u32 where "REQ_UNREGISTER = 0x010002"
definition REQ_CONFIRM_ALIVE :: u32 where "REQ_CONFIRM_ALIVE = 0x010003"
definition REQ_SENDMSG :: u32 where "REQ_SENDMSG = 0x010004"
definition REQ_GETCLIENT :: u32 where "REQ_GETCLIENT = 0x010005"
definition RSP_REGISTER :: u32 where "RSP_REGISTER = 0x020001"
definition RSP_UNREGISTER :: u32 where "RSP_UNREGISTER = 0x020002"
definition RSP_CONFIRM_ALIVE :: u32 where "RSP_CONFIRM_ALIVE = 0x020003"
definition RSP_SENDMSG :: u32 where "RSP_SENDMSG = 0x020004"
definition RSP_GETCLIENT :: u32 where "RSP_GETCLIENT = 0x020005"
definition BODY_PBTYPE :: u32 where "BODY_PBTYPE = 0x030001"
definition BODY_JSONTYPE :: u32 where "BODY_JSONTYPE = 0x030002"

lemmas body_type_defs = REQ_REGISTER_def REQ_UNREGISTER_def REQ_CONFIRM_ALIVE_def REQ_SENDMSG_def
  REQ_GETCLIENT_def RSP_REGISTER_def RSP_UNREGISTER_def RSP_CONFIRM_ALIVE_def RSP_SENDMSG_def
  RSP_GETCLIENT_def BODY_PBTYPE_def BODY_JSONTYPE_def

section \<open>The packet head\<close>

record MsgBusPackHead =
  magic :: byte
  version :: u16
  msg_type :: byte
  msg_id :: u32
  body_type :: u32
  body_len :: u32

text \<open>\<open>Size()\<close> of the head: \<open>sizeof(MsgBusPackHead)\<close> under \<open>#pragma pack(1)\<close>.\<close>

definition HeadSize :: u32 where "HeadSize = 16"

text \<open>The constructors; \<open>bt\<close> is what the memory of \<open>body_type\<close> held in the default constructor.\<close>

definition new_MsgBusPackHead_raw :: "u32 \<Rightarrow> MsgBusPackHead" where
  "new_MsgBusPackHead_raw bt = \<lparr>magic = 0x66, version = 1, msg_type = 0, msg_id = 0,
     body_type = bt, body_len = 0\<rparr>"

definition new_MsgBusPackHead :: "byte \<Rightarrow> u32 \<Rightarrow> MsgBusPackHead" where
  "new_MsgBusPackHead t msgbody_type = \<lparr>magic = 0x66, version = 1, msg_type = t, msg_id = 0,
     body_type = msgbody_type, body_len = 0\<rparr>"

definition PackHead ::
  "'a MsgBusPackHead_scheme \<Rightarrow> byte list \<Rightarrow> nat \<Rightarrow> nat \<Rightarrow> (u16 \<times> byte list) cres" where
  "PackHead m blk p len =
     (if len \<noteq> 0 \<and> len < unat HeadSize then Inl Terminate else
      cbind (cstore blk p [magic m]) (\<lambda>blk.
      cbind (cstore blk (p + 1) (mem16 (htons (version m)))) (\<lambda>blk.
      cbind (cstore blk (p + 3) [msg_type m]) (\<lambda>blk.
      cbind (cstore blk (p + 4) (mem32 (htonl (msg_id m)))) (\<lambda>blk.
      cbind (cstore blk (p + 8) (mem32 (htonl (body_type m)))) (\<lambda>blk.
      cbind (cstore blk (p + 12) (mem32 (htonl (body_len m)))) (\<lambda>blk.
        Inr (12, blk))))))))"

definition UnPackHead ::
  "'a MsgBusPackHead_scheme \<Rightarrow> byte list \<Rightarrow> nat \<Rightarrow> nat \<Rightarrow> (int \<times> 'a MsgBusPackHead_scheme) cres" where
  "UnPackHead m blk p len =
     (if len \<noteq> 0 \<and> len < unat HeadSize then Inr (- 1, m) else
      cbind (load8 blk p) (\<lambda>v. let m = m\<lparr>magic := v\<rparr> in
      cbind (load16 blk (p + 1)) (\<lambda>v. let m = m\<lparr>version := htons v\<rparr> in
      cbind (load8 blk (p + 3)) (\<lambda>v. let m = m\<lparr>msg_type := v\<rparr> in
      cbind (load32 blk (p + 4)) (\<lambda>v. let m = m\<lparr>msg_id := htonl v\<rparr> in
      cbind (load32 blk (p + 8)) (\<lambda>v. let m = m\<lparr>body_type := htonl v\<rparr> in
      cbind (load32 blk (p + 12)) (\<lambda>v. let m = m\<lparr>body_len := htonl v\<rparr> in
        Inr (12, m))))))))"

definition PackReqHead ::
  "'a MsgBusPackHead_scheme \<Rightarrow> byte list \<Rightarrow> nat \<Rightarrow> nat \<Rightarrow> (u16 \<times> byte list) cres" where
  "PackReqHead m blk p len = PackHead m blk p 0"

definition UnPackReqHead ::
  "'a MsgBusPackHead_scheme \<Rightarrow> byte list \<Rightarrow> nat \<Rightarrow> nat \<Rightarrow> (int \<times> 'a MsgBusPackHead_scheme) cres" where
  "UnPackReqHead m blk p len =
     cbind (UnPackHead m blk p 0) (\<lambda>(offset, m).
       if offset \<ge> 0 \<and> msg_type m = 0 then Inr (offset, m) else Inr (- 1, m))"

definition PackRspHead ::
  "'a MsgBusPackHead_scheme \<Rightarrow> byte list \<Rightarrow> nat \<Rightarrow> nat \<Rightarrow> (u16 \<times> byte list) cres" where
  "PackRspHead m blk p len = PackHead m blk p 0"

definition UnPackRspHead ::
  "'a MsgBusPackHead_scheme \<Rightarrow> byte list \<Rightarrow> nat \<Rightarrow> nat \<Rightarrow> (int \<times> 'a MsgBusPackHead_scheme) cres" where
  "UnPackRspHead m blk p len =
     cbind (UnPackHead m blk p 0) (\<lambda>(offset, m).
       if offset \<ge> 0 \<and> msg_type m = 1 then Inr (offset, m) else Inr (- 1, m))"

section \<open>Message classes\<close>

text \<open>
  All ten \<open>PackData\<close> methods have one body, with the class's own \<open>Size\<close>, head and body packing: they set
  \<open>body_len\<close>, write the head and then the body behind it. The ten \<open>UnPackData\<close> methods have two: six
  check \<open>len\<close> against \<open>Size()\<close> first (\<open>guarded\<close>), four ignore it.
\<close>

definition PackData_of where
  "PackData_of Size packHead packBody m blk p len =
     (if len \<noteq> 0 \<and> len < unat (Size m) then Inl Terminate else
      let m = m\<lparr>body_len := Size m - HeadSize\<rparr> in
      cbind (packHead m blk p 0) (\<lambda>(_ :: u16, blk).
      cbind (packBody m blk (p + unat HeadSize) 0) (\<lambda>blk :: byte list.
        Inr (blk, m))))"

definition UnPackData_of where
  "UnPackData_of guarded Size unpackHead btype unpackBody m blk p len =
     (if guarded \<and> len \<noteq> 0 \<and> len < unat (Size m) then Inl Terminate else
      cbind (unpackHead m blk p 0) (\<lambda>(offset :: int, m).
        if offset \<ge> 0 \<and> body_type m = btype then unpackBody m blk (p + unat HeadSize) 0
        else Inr (- 1, m)))"

subsection \<open>Register and unregister\<close>

record MsgBusRegisterReq = MsgBusPackHead +
  rreq_service_name :: "byte list"
  rreq_service_host :: ClientHost

definition new_MsgBusRegisterReq :: "byte list \<Rightarrow> MsgBusRegisterReq" where
  "new_MsgBusRegisterReq garbage =
     MsgBusPackHead.extend (new_MsgBusPackHead 0 REQ_REGISTER)
       (MsgBusRegisterReq.fields garbage ClientHost_default)"

definition RegisterReq_Size :: "MsgBusRegisterReq \<Rightarrow> u32" where
  "RegisterReq_Size m = 90"

definition RegisterReq_PackBody :: "MsgBusRegisterReq \<Rightarrow> byte list \<Rightarrow> nat \<Rightarrow> nat \<Rightarrow> byte list cres" where
  "RegisterReq_PackBody m blk p len =
     (if len \<noteq> 0 \<and> len < unat (RegisterReq_Size m - HeadSize) then Inl Terminate else
      cbind (strncpy_read MAX_SERVICE_NAME (rreq_service_name m)) (\<lambda>s.
      cbind (cstore blk p s) (\<lambda>blk.
        cstore blk (p + MAX_SERVICE_NAME) (host_bytes (rreq_service_host m)))))"

definition RegisterReq_PackData ::
  "MsgBusRegisterReq \<Rightarrow> byte list \<Rightarrow> nat \<Rightarrow> nat \<Rightarrow> (byte list \<times> MsgBusRegisterReq) cres" where
  "RegisterReq_PackData = PackData_of RegisterReq_Size PackReqHead RegisterReq_PackBody"

definition RegisterReq_UnPackBody ::
  "MsgBusRegisterReq \<Rightarrow> byte list \<Rightarrow> nat \<Rightarrow> nat \<Rightarrow> (int \<times> MsgBusRegisterReq) cres" where
  "RegisterReq_UnPackBody m blk p len =
     (if len \<noteq> 0 \<and> len < unat (RegisterReq_Size m - HeadSize) then Inl Terminate else
      cbind (strncpy_read MAX_SERVICE_NAME (drop p blk)) (\<lambda>s. let m = m\<lparr>rreq_service_name := s\<rparr> in
      cbind (load_host blk (p + MAX_SERVICE_NAME)) (\<lambda>h.
        Inr (0, m\<lparr>rreq_service_host := h\<rparr>))))"

definition RegisterReq_UnPackData ::
  "MsgBusRegisterReq \<Rightarrow> byte list \<Rightarrow> nat \<Rightarrow> nat \<Rightarrow> (int \<times> MsgBusRegisterReq) cres" where
  "RegisterReq_UnPackData =
     UnPackData_of True RegisterReq_Size UnPackReqHead REQ_REGISTER RegisterReq_UnPackBody"

record MsgBusRegisterRsp = MsgBusPackHead +
  rrsp_ret_code :: u16
  rrsp_service_name :: "byte list"
  rrsp_err_msg_len :: u16
  rrsp_err_msg :: "byte list option"
  rrsp_needfree :: bool

definition new_MsgBusRegisterRsp :: "u16 \<Rightarrow> byte list \<Rightarrow> MsgBusRegisterRsp" where
  "new_MsgBusRegisterRsp garbage_code garbage =
     MsgBusPackHead.extend (new_MsgBusPackHead 1 RSP_REGISTER)
       (MsgBusRegisterRsp.fields garbage_code garbage 0 None False)"

definition RegisterRsp_FreeVarData :: "MsgBusRegisterRsp \<Rightarrow> MsgBusRegisterRsp" where
  "RegisterRsp_FreeVarData m = (if rrsp_needfree m then m\<lparr>rrsp_err_msg := None\<rparr> else m)"

definition RegisterRsp_SetVarData :: "MsgBusRegisterRsp \<Rightarrow> byte list option \<Rightarrow> MsgBusRegisterRsp" where
  "RegisterRsp_SetVarData m var_err_msg =
     (RegisterRsp_FreeVarData m)\<lparr>rrsp_err_msg := var_err_msg, rrsp_needfree := False\<rparr>"

definition RegisterRsp_Size :: "MsgBusRegisterRsp \<Rightarrow> u32" where
  "RegisterRsp_Size m = HeadSize + 2 + of_nat MAX_SERVICE_NAME + 2 + ucast (rrsp_err_msg_len m)"

definition RegisterRsp_PackBody :: "MsgBusRegisterRsp \<Rightarrow> byte list \<Rightarrow> nat \<Rightarrow> nat \<Rightarrow> byte list cres" where
  "RegisterRsp_PackBody m blk p len =
     (if len \<noteq> 0 \<and> len < unat (RegisterRsp_Size m - HeadSize) then Inl Terminate else
      cbind (cstore blk p (mem16 (htons (rrsp_ret_code m)))) (\<lambda>blk.
      cbind (strncpy_read MAX_SERVICE_NAME (rrsp_service_name m)) (\<lambda>s.
      cbind (cstore blk (p + 2) s) (\<lambda>blk.
      cbind (cstore blk (p + 2 + MAX_SERVICE_NAME) (mem16 (htons (rrsp_err_msg_len m)))) (\<lambda>blk.
      cbind (strncpy_ptr (unat (rrsp_err_msg_len m)) (rrsp_err_msg m)) (\<lambda>e.
        cstore blk (p + 2 + MAX_SERVICE_NAME + 2) e))))))"

definition RegisterRsp_PackData ::
  "MsgBusRegisterRsp \<Rightarrow> byte list \<Rightarrow> nat \<Rightarrow> nat \<Rightarrow> (byte list \<times> MsgBusRegisterRsp) cres" where
  "RegisterRsp_PackData = PackData_of RegisterRsp_Size PackRspHead RegisterRsp_PackBody"

definition RegisterRsp_UnPackBody ::
  "MsgBusRegisterRsp \<Rightarrow> byte list \<Rightarrow> nat \<Rightarrow> nat \<Rightarrow> (int \<times> MsgBusRegisterRsp) cres" where
  "RegisterRsp_UnPackBody m blk p len =
     (if len \<noteq> 0 \<and> len < 2 + MAX_SERVICE_NAME + 2 then Inr (- 1, m) else
      cbind (load16 blk p) (\<lambda>v. let m = m\<lparr>rrsp_ret_code := htons v\<rparr> in
      cbind (strncpy_read MAX_SERVICE_NAME (drop (p + 2) blk)) (\<lambda>s. let m = m\<lparr>rrsp_service_name := s\<rparr> in
      cbind (load16 blk (p + 2 + MAX_SERVICE_NAME)) (\<lambda>v. let m = m\<lparr>rrsp_err_msg_len := htons v\<rparr> in
      if len \<noteq> 0 \<and> len < 2 + MAX_SERVICE_NAME + 2 + unat (rrsp_err_msg_len m) then Inr (- 1, m) else
      let m = (RegisterRsp_FreeVarData m)\<lparr>rrsp_needfree := True\<rparr> in
      cbind (strncpy_read (unat (rrsp_err_msg_len m)) (drop (p + 2 + MAX_SERVICE_NAME + 2) blk)) (\<lambda>e.
        Inr (0, m\<lparr>rrsp_err_msg := Some e\<rparr>))))))"

definition RegisterRsp_UnPackData ::
  "MsgBusRegisterRsp \<Rightarrow> byte list \<Rightarrow> nat \<Rightarrow> nat \<Rightarrow> (int \<times> MsgBusRegisterRsp) cres" where
  "RegisterRsp_UnPackData =
     UnPackData_of False RegisterRsp_Size UnPackRspHead RSP_REGISTER RegisterRsp_UnPackBody"

record MsgBusUnRegisterReq = MsgBusPackHead +
  ureq_service_name :: "byte list"
  ureq_service_host :: ClientHost

definition new_MsgBusUnRegisterReq :: "byte list \<Rightarrow> MsgBusUnRegisterReq" where
  "new_MsgBusUnRegisterReq garbage =
     MsgBusPackHead.extend (new_MsgBusPackHead 0 REQ_UNREGISTER)
       (MsgBusUnRegisterReq.fields garbage ClientHost_default)"

definition UnRegisterReq_Size :: "MsgBusUnRegisterReq \<Rightarrow> u32" where
  "UnRegisterReq_Size m = 90"

definition UnRegisterReq_PackBody :: "MsgBusUnRegisterReq \<Rightarrow> byte list \<Rightarrow> nat \<Rightarrow> nat \<Rightarrow> byte list cres" where
  "UnRegisterReq_PackBody m blk p len =
     (if len \<noteq> 0 \<and> len < unat (UnRegisterReq_Size m - HeadSize) then Inl Terminate else
      cbind (strncpy_read MAX_SERVICE_NAME (ureq_service_name m)) (\<lambda>s.
      cbind (cstore blk p s) (\<lambda>blk.
        cstore blk (p + MAX_SERVICE_NAME) (host_bytes (ureq_service_host m)))))"

definition UnRegisterReq_PackData ::
  "MsgBusUnRegisterReq \<Rightarrow> byte list \<Rightarrow> nat \<Rightarrow> nat \<Rightarrow> (byte list \<times> MsgBusUnRegisterReq) cres" where
  "UnRegisterReq_PackData = PackData_of UnRegisterReq_Size PackReqHead UnRegisterReq_PackBody"

definition UnRegisterReq_UnPackBody ::
  "MsgBusUnRegisterReq \<Rightarrow> byte list \<Rightarrow> nat \<Rightarrow> nat \<Rightarrow> (int \<times> MsgBusUnRegisterReq) cres" where
  "UnRegisterReq_UnPackBody m blk p len =
     (if len \<noteq> 0 \<and> len < unat (UnRegisterReq_Size m - HeadSize) then Inl Terminate else
      cbind (strncpy_read MAX_SERVICE_NAME (drop p blk)) (\<lambda>s. let m = m\<lparr>ureq_service_name := s\<rparr> in
      cbind (load_host blk (p + MAX_SERVICE_NAME)) (\<lambda>h.
        Inr (0, m\<lparr>ureq_service_host := h\<rparr>))))"

definition UnRegisterReq_UnPackData ::
  "MsgBusUnRegisterReq \<Rightarrow> byte list \<Rightarrow> nat \<Rightarrow> nat \<Rightarrow> (int \<times> MsgBusUnRegisterReq) cres" where
  "UnRegisterReq_UnPackData =
     UnPackData_of True UnRegisterReq_Size UnPackReqHead REQ_UNREGISTER UnRegisterReq_UnPackBody"

subsection \<open>Confirm alive\<close>

record MsgBusConfirmAliveReq = MsgBusPackHead +
  careq_alive_flag :: byte

definition new_MsgBusConfirmAliveReq :: MsgBusConfirmAliveReq where
  "new_MsgBusConfirmAliveReq =
     MsgBusPackHead.extend (new_MsgBusPackHead 0 REQ_CONFIRM_ALIVE) (MsgBusConfirmAliveReq.fields 0)"

definition ConfirmAliveReq_Size :: "MsgBusConfirmAliveReq \<Rightarrow> u32" where
  "ConfirmAliveReq_Size m = 17"

definition ConfirmAliveReq_PackBody ::
  "MsgBusConfirmAliveReq \<Rightarrow> byte list \<Rightarrow> nat \<Rightarrow> nat \<Rightarrow> byte list cres" where
  "ConfirmAliveReq_PackBody m blk p len =
     (if len \<noteq> 0 \<and> len < unat (ConfirmAliveReq_Size m - HeadSize) then Inl Terminate else
      cstore blk p [careq_alive_flag m])"

definition ConfirmAliveReq_PackData ::
  "MsgBusConfirmAliveReq \<Rightarrow> byte list \<Rightarrow> nat \<Rightarrow> nat \<Rightarrow> (byte list \<times> MsgBusConfirmAliveReq) cres" where
  "ConfirmAliveReq_PackData = PackData_of ConfirmAliveReq_Size PackReqHead ConfirmAliveReq_PackBody"

definition ConfirmAliveReq_UnPackBody ::
  "MsgBusConfirmAliveReq \<Rightarrow> byte list \<Rightarrow> nat \<Rightarrow> nat \<Rightarrow> (int \<times> MsgBusConfirmAliveReq) cres" where
  "ConfirmAliveReq_UnPackBody m blk p len =
     (if len \<noteq> 0 \<and> len < unat (ConfirmAliveReq_Size m - HeadSize) then Inl Terminate else
      cbind (load8 blk p) (\<lambda>v. Inr (0, m\<lparr>careq_alive_flag := v\<rparr>)))"

definition ConfirmAliveReq_UnPackData ::
  "MsgBusConfirmAliveReq \<Rightarrow> byte list \<Rightarrow> nat \<Rightarrow> nat \<Rightarrow> (int \<times> MsgBusConfirmAliveReq) cres" where
  "ConfirmAliveReq_UnPackData =
     UnPackData_of True ConfirmAliveReq_Size UnPackReqHead REQ_CONFIRM_ALIVE ConfirmAliveReq_UnPackBody"

record MsgBusConfirmAliveRsp = MsgBusPackHead +
  carsp_ret_code :: u16

definition new_MsgBusConfirmAliveRsp :: MsgBusConfirmAliveRsp where
  "new_MsgBusConfirmAliveRsp =
     MsgBusPackHead.extend (new_MsgBusPackHead 1 RSP_CONFIRM_ALIVE) (MsgBusConfirmAliveRsp.fields 0)"

definition ConfirmAliveRsp_Size :: "MsgBusConfirmAliveRsp \<Rightarrow> u32" where
  "ConfirmAliveRsp_Size m = HeadSize + 2"

definition ConfirmAliveRsp_PackBody ::
  "MsgBusConfirmAliveRsp \<Rightarrow> byte list \<Rightarrow> nat \<Rightarrow> nat \<Rightarrow> byte list cres" where
  "ConfirmAliveRsp_PackBody m blk p len =
     (if len \<noteq> 0 \<and> len < unat (ConfirmAliveRsp_Size m - HeadSize) then Inl Terminate else
      cstore blk p (mem16 (htons (carsp_ret_code m))))"

definition ConfirmAliveRsp_PackData ::
  "MsgBusConfirmAliveRsp \<Rightarrow> byte list \<Rightarrow> nat \<Rightarrow> nat \<Rightarrow> (byte list \<times> MsgBusConfirmAliveRsp) cres" where
  "ConfirmAliveRsp_PackData = PackData_of ConfirmAliveRsp_Size PackRspHead ConfirmAliveRsp_PackBody"

definition ConfirmAliveRsp_UnPackBody ::
  "MsgBusConfirmAliveRsp \<Rightarrow> byte list \<Rightarrow> nat \<Rightarrow> nat \<Rightarrow> (int \<times> MsgBusConfirmAliveRsp) cres" where
  "ConfirmAliveRsp_UnPackBody m blk p len =
     (if len \<noteq> 0 \<and> len < unat (ConfirmAliveRsp_Size m - HeadSize) then Inl Terminate else
      cbind (load16 blk p) (\<lambda>v. Inr (0, m\<lparr>carsp_ret_code := htons v\<rparr>)))"

text \<open>The code compares with \<open>RSP_REGISTER\<close> here (line 464).\<close>

definition ConfirmAliveRsp_UnPackData ::
  "MsgBusConfirmAliveRsp \<Rightarrow> byte list \<Rightarrow> nat \<Rightarrow> nat \<Rightarrow> (int \<times> MsgBusConfirmAliveRsp) cres" where
  "ConfirmAliveRsp_UnPackData =
     UnPackData_of True ConfirmAliveRsp_Size UnPackRspHead RSP_REGISTER ConfirmAliveRsp_UnPackBody"

subsection \<open>Get client\<close>

record MsgBusGetClientReq = MsgBusPackHead +
  gcreq_dest_name :: "byte list"

definition new_MsgBusGetClientReq :: "byte list \<Rightarrow> MsgBusGetClientReq" where
  "new_MsgBusGetClientReq garbage =
     MsgBusPackHead.extend (new_MsgBusPackHead 0 REQ_GETCLIENT) (MsgBusGetClientReq.fields garbage)"

definition GetClientReq_Size :: "MsgBusGetClientReq \<Rightarrow> u32" where
  "GetClientReq_Size m = 80"

definition GetClientReq_PackBody :: "MsgBusGetClientReq \<Rightarrow> byte list \<Rightarrow> nat \<Rightarrow> nat \<Rightarrow> byte list cres" where
  "GetClientReq_PackBody m blk p len =
     (if len \<noteq> 0 \<and> len < unat (GetClientReq_Size m - HeadSize) then Inl Terminate else
      cbind (strncpy_read MAX_SERVICE_NAME (gcreq_dest_name m)) (\<lambda>s. cstore blk p s))"

definition GetClientReq_PackData ::
  "MsgBusGetClientReq \<Rightarrow> byte list \<Rightarrow> nat \<Rightarrow> nat \<Rightarrow> (byte list \<times> MsgBusGetClientReq) cres" where
  "GetClientReq_PackData = PackData_of GetClientReq_Size PackReqHead GetClientReq_PackBody"

definition GetClientReq_UnPackBody ::
  "MsgBusGetClientReq \<Rightarrow> byte list \<Rightarrow> nat \<Rightarrow> nat \<Rightarrow> (int \<times> MsgBusGetClientReq) cres" where
  "GetClientReq_UnPackBody m blk p len =
     (if len \<noteq> 0 \<and> len < unat (GetClientReq_Size m - HeadSize) then Inl Terminate else
      cbind (strncpy_read MAX_SERVICE_NAME (drop p blk)) (\<lambda>s. Inr (0, m\<lparr>gcreq_dest_name := s\<rparr>)))"

definition GetClientReq_UnPackData ::
  "MsgBusGetClientReq \<Rightarrow> byte list \<Rightarrow> nat \<Rightarrow> nat \<Rightarrow> (int \<times> MsgBusGetClientReq) cres" where
  "GetClientReq_UnPackData =
     UnPackData_of True GetClientReq_Size UnPackReqHead REQ_GETCLIENT GetClientReq_UnPackBody"

record MsgBusGetClientRsp = MsgBusPackHead +
  gcrsp_ret_code :: u16
  gcrsp_dest_name :: "byte list"
  gcrsp_dest_host :: ClientHost

definition new_MsgBusGetClientRsp :: "u16 \<Rightarrow> byte list \<Rightarrow> MsgBusGetClientRsp" where
  "new_MsgBusGetClientRsp garbage_code garbage =
     MsgBusPackHead.extend (new_MsgBusPackHead 1 RSP_GETCLIENT)
       (MsgBusGetClientRsp.fields garbage_code garbage ClientHost_default)"

definition GetClientRsp_Size :: "MsgBusGetClientRsp \<Rightarrow> u32" where
  "GetClientRsp_Size m = 92"

definition GetClientRsp_PackBody :: "MsgBusGetClientRsp \<Rightarrow> byte list \<Rightarrow> nat \<Rightarrow> nat \<Rightarrow> byte list cres" where
  "GetClientRsp_PackBody m blk p len =
     (if len \<noteq> 0 \<and> len < unat (GetClientRsp_Size m - HeadSize) then Inl Terminate else
      cbind (cstore blk p (mem16 (htons (gcrsp_ret_code m)))) (\<lambda>blk.
      cbind (strncpy_read MAX_SERVICE_NAME (gcrsp_dest_name m)) (\<lambda>s.
      cbind (cstore blk (p + 2) s) (\<lambda>blk.
        cstore blk (p + 2 + MAX_SERVICE_NAME) (host_bytes (gcrsp_dest_host m))))))"

definition GetClientRsp_PackData ::
  "MsgBusGetClientRsp \<Rightarrow> byte list \<Rightarrow> nat \<Rightarrow> nat \<Rightarrow> (byte list \<times> MsgBusGetClientRsp) cres" where
  "GetClientRsp_PackData = PackData_of GetClientRsp_Size PackRspHead GetClientRsp_PackBody"

definition GetClientRsp_UnPackBody ::
  "MsgBusGetClientRsp \<Rightarrow> byte list \<Rightarrow> nat \<Rightarrow> nat \<Rightarrow> (int \<times> MsgBusGetClientRsp) cres" where
  "GetClientRsp_UnPackBody m blk p len =
     (if len \<noteq> 0 \<and> len < unat (GetClientRsp_Size m - HeadSize) then Inl Terminate else
      cbind (load16 blk p) (\<lambda>v. let m = m\<lparr>gcrsp_ret_code := htons v\<rparr> in
      cbind (strncpy_read MAX_SERVICE_NAME (drop (p + 2) blk)) (\<lambda>s. let m = m\<lparr>gcrsp_dest_name := s\<rparr> in
      cbind (load_host blk (p + 2 + MAX_SERVICE_NAME)) (\<lambda>h.
        Inr (0, m\<lparr>gcrsp_dest_host := h\<rparr>)))))"

definition GetClientRsp_UnPackData ::
  "MsgBusGetClientRsp \<Rightarrow> byte list \<Rightarrow> nat \<Rightarrow> nat \<Rightarrow> (int \<times> MsgBusGetClientRsp) cres" where
  "GetClientRsp_UnPackData =
     UnPackData_of True GetClientRsp_Size UnPackRspHead RSP_GETCLIENT GetClientRsp_UnPackBody"

subsection \<open>Relayed messages\<close>

record MsgBusSendMsgReq = MsgBusPackHead +
  smreq_dest_name :: "byte list"
  smreq_from_name :: "byte list"
  smreq_msg_len :: u32
  smreq_msg_content :: "byte list option"
  smreq_needfree :: bool

definition new_MsgBusSendMsgReq :: "byte list \<Rightarrow> byte list \<Rightarrow> MsgBusSendMsgReq" where
  "new_MsgBusSendMsgReq garbage_dest garbage_from =
     MsgBusPackHead.extend (new_MsgBusPackHead 0 REQ_SENDMSG)
       (MsgBusSendMsgReq.fields garbage_dest garbage_from 0 None False)"

definition SendMsgReq_FreeVarData :: "MsgBusSendMsgReq \<Rightarrow> MsgBusSendMsgReq" where
  "SendMsgReq_FreeVarData m = (if smreq_needfree m then m\<lparr>smreq_msg_content := None\<rparr> else m)"

definition SendMsgReq_SetVarData :: "MsgBusSendMsgReq \<Rightarrow> byte list option \<Rightarrow> MsgBusSendMsgReq" where
  "SendMsgReq_SetVarData m var_msg_content =
     (SendMsgReq_FreeVarData m)\<lparr>smreq_msg_content := var_msg_content, smreq_needfree := False\<rparr>"

text \<open>The sum is computed in 64 bits and truncated to the \<open>uint32_t\<close> result.\<close>

definition SendMsgReq_Size :: "MsgBusSendMsgReq \<Rightarrow> u32" where
  "SendMsgReq_Size m = HeadSize + 2 * of_nat MAX_SERVICE_NAME + 4 + smreq_msg_len m"

definition SendMsgReq_PackBody :: "MsgBusSendMsgReq \<Rightarrow> byte list \<Rightarrow> nat \<Rightarrow> nat \<Rightarrow> byte list cres" where
  "SendMsgReq_PackBody m blk p len =
     (if len \<noteq> 0 \<and> len < unat (SendMsgReq_Size m - HeadSize) then Inl Terminate else
      cbind (strncpy_read MAX_SERVICE_NAME (smreq_dest_name m)) (\<lambda>s.
      cbind (cstore blk p s) (\<lambda>blk.
      cbind (strncpy_read MAX_SERVICE_NAME (smreq_from_name m)) (\<lambda>s.
      cbind (cstore blk (p + MAX_SERVICE_NAME) s) (\<lambda>blk.
      cbind (cstore blk (p + MAX_SERVICE_NAME + MAX_SERVICE_NAME) (mem32 (htonl (smreq_msg_len m)))) (\<lambda>blk.
      cbind (memcpy_ptr (unat (smreq_msg_len m)) (smreq_msg_content m)) (\<lambda>c.
        cstore blk (p + MAX_SERVICE_NAME + MAX_SERVICE_NAME + 4) c)))))))"

definition SendMsgReq_PackData ::
  "MsgBusSendMsgReq \<Rightarrow> byte list \<Rightarrow> nat \<Rightarrow> nat \<Rightarrow> (byte list \<times> MsgBusSendMsgReq) cres" where
  "SendMsgReq_PackData = PackData_of SendMsgReq_Size PackReqHead SendMsgReq_PackBody"

definition SendMsgReq_UnPackBody ::
  "MsgBusSendMsgReq \<Rightarrow> byte list \<Rightarrow> nat \<Rightarrow> nat \<Rightarrow> (int \<times> MsgBusSendMsgReq) cres" where
  "SendMsgReq_UnPackBody m blk p len =
     (if len \<noteq> 0 \<and> len < MAX_SERVICE_NAME * 2 + 4 then Inr (- 1, m) else
      cbind (strncpy_read MAX_SERVICE_NAME (drop p blk)) (\<lambda>s. let m = m\<lparr>smreq_dest_name := s\<rparr> in
      cbind (strncpy_read MAX_SERVICE_NAME (drop (p + MAX_SERVICE_NAME) blk)) (\<lambda>s.
      let m = m\<lparr>smreq_from_name := s\<rparr> in
      cbind (load32 blk (p + MAX_SERVICE_NAME + MAX_SERVICE_NAME)) (\<lambda>v.
      let m = m\<lparr>smreq_msg_len := htonl v\<rparr> in
      if len \<noteq> 0 \<and> len < MAX_SERVICE_NAME * 2 + 4 + unat (smreq_msg_len m) then Inr (- 1, m) else
      let m = (SendMsgReq_FreeVarData m)\<lparr>smreq_needfree := True\<rparr> in
      cbind (cload blk (p + MAX_SERVICE_NAME + MAX_SERVICE_NAME + 4) (unat (smreq_msg_len m))) (\<lambda>c.
        Inr (0, m\<lparr>smreq_msg_content := Some c\<rparr>))))))"

definition SendMsgReq_UnPackData ::
  "MsgBusSendMsgReq \<Rightarrow> byte list \<Rightarrow> nat \<Rightarrow> nat \<Rightarrow> (int \<times> MsgBusSendMsgReq) cres" where
  "SendMsgReq_UnPackData =
     UnPackData_of False SendMsgReq_Size UnPackReqHead REQ_SENDMSG SendMsgReq_UnPackBody"

record MsgBusSendMsgRsp = MsgBusPackHead +
  smrsp_ret_code :: u16
  smrsp_err_msg_len :: u16
  smrsp_err_msg :: "byte list option"
  smrsp_needfree :: bool

definition new_MsgBusSendMsgRsp :: "u16 \<Rightarrow> MsgBusSendMsgRsp" where
  "new_MsgBusSendMsgRsp garbage_code =
     MsgBusPackHead.extend (new_MsgBusPackHead 1 RSP_SENDMSG)
       (MsgBusSendMsgRsp.fields garbage_code 0 None False)"

definition SendMsgRsp_FreeVarData :: "MsgBusSendMsgRsp \<Rightarrow> MsgBusSendMsgRsp" where
  "SendMsgRsp_FreeVarData m = (if smrsp_needfree m then m\<lparr>smrsp_err_msg := None\<rparr> else m)"

definition SendMsgRsp_SetVarData :: "MsgBusSendMsgRsp \<Rightarrow> byte list option \<Rightarrow> MsgBusSendMsgRsp" where
  "SendMsgRsp_SetVarData m var_err_msg =
     (SendMsgRsp_FreeVarData m)\<lparr>smrsp_err_msg := var_err_msg, smrsp_needfree := False\<rparr>"

definition SendMsgRsp_Size :: "MsgBusSendMsgRsp \<Rightarrow> u32" where
  "SendMsgRsp_Size m = HeadSize + 2 + 2 + ucast (smrsp_err_msg_len m)"

definition SendMsgRsp_PackBody :: "MsgBusSendMsgRsp \<Rightarrow> byte list \<Rightarrow> nat \<Rightarrow> nat \<Rightarrow> byte list cres" where
  "SendMsgRsp_PackBody m blk p len =
     (if len \<noteq> 0 \<and> len < unat (SendMsgRsp_Size m - HeadSize) then Inl Terminate else
      cbind (cstore blk p (mem16 (htons (smrsp_ret_code m)))) (\<lambda>blk.
      cbind (cstore blk (p + 2) (mem16 (htons (smrsp_err_msg_len m)))) (\<lambda>blk.
      cbind (strncpy_ptr (unat (smrsp_err_msg_len m)) (smrsp_err_msg m)) (\<lambda>e.
        cstore blk (p + 2 + 2) e))))"

definition SendMsgRsp_PackData ::
  "MsgBusSendMsgRsp \<Rightarrow> byte list \<Rightarrow> nat \<Rightarrow> nat \<Rightarrow> (byte list \<times> MsgBusSendMsgRsp) cres" where
  "SendMsgRsp_PackData = PackData_of SendMsgRsp_Size PackRspHead SendMsgRsp_PackBody"

definition SendMsgRsp_UnPackBody ::
  "MsgBusSendMsgRsp \<Rightarrow> byte list \<Rightarrow> nat \<Rightarrow> nat \<Rightarrow> (int \<times> MsgBusSendMsgRsp) cres" where
  "SendMsgRsp_UnPackBody m blk p len =
     (if len \<noteq> 0 \<and> len < 2 then Inr (- 1, m) else
      cbind (load16 blk p) (\<lambda>v. let m = m\<lparr>smrsp_ret_code := htons v\<rparr> in
      if len \<noteq> 0 \<and> len < 2 + 2 then Inr (- 1, m) else
      cbind (load16 blk (p + 2)) (\<lambda>v. let m = m\<lparr>smrsp_err_msg_len := htons v\<rparr> in
      if len \<noteq> 0 \<and> len < 2 + 2 + unat (smrsp_err_msg_len m) then Inr (- 1, m) else
      let m = (SendMsgRsp_FreeVarData m)\<lparr>smrsp_needfree := True\<rparr> in
      cbind (strncpy_read (unat (smrsp_err_msg_len m)) (drop (p + 2 + 2) blk)) (\<lambda>e.
        Inr (0, m\<lparr>smrsp_err_msg := Some e\<rparr>)))))"

definition SendMsgRsp_UnPackData ::
  "MsgBusSendMsgRsp \<Rightarrow> byte list \<Rightarrow> nat \<Rightarrow> nat \<Rightarrow> (int \<times> MsgBusSendMsgRsp) cres" where
  "SendMsgRsp_UnPackData =
     UnPackData_of False SendMsgRsp_Size UnPackRspHead RSP_SENDMSG SendMsgRsp_UnPackBody"

subsection \<open>Protocol buffer packets\<close>

text \<open>The two lengths are \<open>int32_t\<close>: \<open>sint\<close> reads them, \<open>scast\<close> is their conversion to \<open>size_t\<close>.\<close>

record MsgBusPackPBType = MsgBusPackHead +
  pb_pbtype_len :: u32
  pb_pbdata_len :: u32
  pb_pbtype :: "byte list option"
  pb_pbdata :: "byte list option"
  pb_needfree :: bool

definition new_MsgBusPackPBType :: "u32 \<Rightarrow> u32 \<Rightarrow> MsgBusPackPBType" where
  "new_MsgBusPackPBType garbage_tlen garbage_dlen =
     MsgBusPackHead.extend (new_MsgBusPackHead 0 BODY_PBTYPE)
       (MsgBusPackPBType.fields garbage_tlen garbage_dlen None None False)"

definition PBType_FreeVarData :: "MsgBusPackPBType \<Rightarrow> MsgBusPackPBType" where
  "PBType_FreeVarData m =
     (if pb_needfree m then m\<lparr>pb_pbtype := None, pb_pbdata := None\<rparr> else m)\<lparr>pb_needfree := False\<rparr>"

definition PBType_SetVarData ::
  "MsgBusPackPBType \<Rightarrow> byte list option \<Rightarrow> byte list option \<Rightarrow> MsgBusPackPBType" where
  "PBType_SetVarData m var_pbtype var_pbdata =
     (PBType_FreeVarData m)\<lparr>pb_pbtype := var_pbtype, pb_pbdata := var_pbdata, pb_needfree := False\<rparr>"

definition PBType_Size :: "MsgBusPackPBType \<Rightarrow> u32" where
  "PBType_Size m = HeadSize + 4 + pb_pbtype_len m + 4 + pb_pbdata_len m"

text \<open>
  \<open>strncpy\<close> and \<open>memcpy\<close> get the lengths as \<open>size_t\<close>, so a negative one is a huge count, which no block
  holds.
\<close>

definition PBType_PackBody :: "MsgBusPackPBType \<Rightarrow> byte list \<Rightarrow> nat \<Rightarrow> nat \<Rightarrow> byte list cres" where
  "PBType_PackBody m blk p len =
     (if len \<noteq> 0 \<and> len < unat (PBType_Size m - HeadSize) then Inl Terminate else
      cbind (cstore blk p (mem32 (htonl (pb_pbtype_len m)))) (\<lambda>blk.
      cbind (cstore blk (p + 4) (mem32 (htonl (pb_pbdata_len m)))) (\<lambda>blk.
      if sint (pb_pbtype_len m) < 0 then Inl OutOfBounds else
      cbind (strncpy_ptr (unat (pb_pbtype_len m)) (pb_pbtype m)) (\<lambda>s.
      cbind (cstore blk (p + 4 + 4) s) (\<lambda>blk.
      if sint (pb_pbdata_len m) < 0 then Inl OutOfBounds else
      cbind (memcpy_ptr (unat (pb_pbdata_len m)) (pb_pbdata m)) (\<lambda>d.
        cstore blk (p + 4 + 4 + unat (pb_pbtype_len m)) d))))))"

definition PBType_PackData ::
  "MsgBusPackPBType \<Rightarrow> byte list \<Rightarrow> nat \<Rightarrow> nat \<Rightarrow> (byte list \<times> MsgBusPackPBType) cres" where
  "PBType_PackData = PackData_of PBType_Size PackHead PBType_PackBody"

text \<open>\<open>new char[n]\<close> with a negative \<open>n\<close> raises \<open>std::bad_array_new_length\<close>, which the handler turns into -1.\<close>

definition PBType_UnPackBody ::
  "MsgBusPackPBType \<Rightarrow> byte list \<Rightarrow> nat \<Rightarrow> nat \<Rightarrow> (int \<times> MsgBusPackPBType) cres" where
  "PBType_UnPackBody m blk p len =
     (if len \<noteq> 0 \<and> len < 4 then Inl Terminate else
      cbind (load32 blk p) (\<lambda>v. let m = m\<lparr>pb_pbtype_len := htonl v\<rparr> in
      if len \<noteq> 0 \<and> len < unat (4 + scast (pb_pbtype_len m) :: u64) then Inr (- 1, m) else
      cbind (load32 blk (p + 4)) (\<lambda>v. let m = m\<lparr>pb_pbdata_len := htonl v\<rparr> in
      if len \<noteq> 0 \<and> len < unat (PBType_Size m - HeadSize) then Inr (- 1, m) else
      let m = (PBType_FreeVarData m)\<lparr>pb_needfree := True\<rparr> in
      if sint (pb_pbtype_len m) < 0 then Inr (- 1, m) else
      cbind (strncpy_read (unat (pb_pbtype_len m)) (drop (p + 4 + 4) blk)) (\<lambda>s.
      let m = m\<lparr>pb_pbtype := Some s\<rparr> in
      if len \<noteq> 0 \<and> len < unat (4 + scast (pb_pbtype_len m) + 4 :: u64) then Inr (- 1, m) else
      if sint (pb_pbdata_len m) < 0 then Inr (- 1, m) else
      cbind (cload blk (p + 4 + 4 + unat (pb_pbtype_len m)) (unat (pb_pbdata_len m))) (\<lambda>d.
        Inr (0, m\<lparr>pb_pbdata := Some d\<rparr>))))))"

definition PBType_UnPackData ::
  "MsgBusPackPBType \<Rightarrow> byte list \<Rightarrow> nat \<Rightarrow> nat \<Rightarrow> (int \<times> MsgBusPackPBType) cres" where
  "PBType_UnPackData =
     UnPackData_of False PBType_Size UnPackHead BODY_PBTYPE PBType_UnPackBody"

end
