(* ===== verification/MsgBus_Codec.thy ===== *)
theory MsgBus_Codec
  imports MsgBus_Def
begin

text \<open>
  Correctness of the message classes of \<open>MsgBus_Def\<close>: the reference wire format, the contract of a
  message class (\<open>message_codec\<close>), its interpretation on the classes, bounds of the unpacking
  functions on untrusted input, and the properties.
\<close>

section \<open>Reference wire format\<close>

definition head_bytes :: "'a MsgBusPackHead_scheme \<Rightarrow> byte list" where
  "head_bytes m = [magic m] @ be16 (version m) @ [msg_type m] @ be32 (msg_id m) @ be32 (body_type m) @
     be32 (body_len m)"

definition copy_head ::
  "'a MsgBusPackHead_scheme \<Rightarrow> 'a MsgBusPackHead_scheme \<Rightarrow> 'a MsgBusPackHead_scheme" where
  "copy_head m0 m = m0\<lparr>magic := magic m, version := version m, msg_type := msg_type m,
     msg_id := msg_id m, body_type := body_type m, body_len := body_len m\<rparr>"

definition name_bytes :: "byte list \<Rightarrow> byte list" where
  "name_bytes a = cpad MAX_SERVICE_NAME (cstr a)"

definition var_bytes :: "nat \<Rightarrow> byte list option \<Rightarrow> byte list" where
  "var_bytes n v = (case v of None \<Rightarrow> [] | Some s \<Rightarrow> cpad n (cstr s))"

definition var_ok :: "nat \<Rightarrow> byte list option \<Rightarrow> bool" where
  "var_ok n v = (case v of None \<Rightarrow> n = 0 | Some s \<Rightarrow> n \<le> length s \<or> 0 \<in> set s)"

definition raw_bytes :: "nat \<Rightarrow> byte list option \<Rightarrow> byte list" where
  "raw_bytes n v = (case v of None \<Rightarrow> [] | Some s \<Rightarrow> take n s)"

definition raw_ok :: "nat \<Rightarrow> byte list option \<Rightarrow> bool" where
  "raw_ok n v = (case v of None \<Rightarrow> n = 0 | Some s \<Rightarrow> n \<le> length s)"

definition RegisterReq_body :: "MsgBusRegisterReq \<Rightarrow> byte list" where
  "RegisterReq_body m = name_bytes (rreq_service_name m) @ host_bytes (rreq_service_host m)"

definition RegisterReq_wf :: "MsgBusRegisterReq \<Rightarrow> bool" where
  "RegisterReq_wf m \<longleftrightarrow> msg_type m = 0 \<and> body_type m = REQ_REGISTER \<and>
     length (rreq_service_name m) = MAX_SERVICE_NAME"

definition RegisterReq_received :: "MsgBusRegisterReq \<Rightarrow> MsgBusRegisterReq \<Rightarrow> MsgBusRegisterReq" where
  "RegisterReq_received m0 m = m0\<lparr>rreq_service_name := name_bytes (rreq_service_name m),
     rreq_service_host := rreq_service_host m\<rparr>"

definition RegisterRsp_body :: "MsgBusRegisterRsp \<Rightarrow> byte list" where
  "RegisterRsp_body m = be16 (rrsp_ret_code m) @ name_bytes (rrsp_service_name m) @
     be16 (rrsp_err_msg_len m) @ var_bytes (unat (rrsp_err_msg_len m)) (rrsp_err_msg m)"

definition RegisterRsp_wf :: "MsgBusRegisterRsp \<Rightarrow> bool" where
  "RegisterRsp_wf m \<longleftrightarrow> msg_type m = 1 \<and> body_type m = RSP_REGISTER \<and>
     length (rrsp_service_name m) = MAX_SERVICE_NAME \<and>
     var_ok (unat (rrsp_err_msg_len m)) (rrsp_err_msg m)"

definition RegisterRsp_received :: "MsgBusRegisterRsp \<Rightarrow> MsgBusRegisterRsp \<Rightarrow> MsgBusRegisterRsp" where
  "RegisterRsp_received m0 m = m0\<lparr>rrsp_ret_code := rrsp_ret_code m,
     rrsp_service_name := name_bytes (rrsp_service_name m),
     rrsp_err_msg_len := rrsp_err_msg_len m,
     rrsp_err_msg := Some (var_bytes (unat (rrsp_err_msg_len m)) (rrsp_err_msg m)),
     rrsp_needfree := True\<rparr>"

definition UnRegisterReq_body :: "MsgBusUnRegisterReq \<Rightarrow> byte list" where
  "UnRegisterReq_body m = name_bytes (ureq_service_name m) @ host_bytes (ureq_service_host m)"

definition UnRegisterReq_wf :: "MsgBusUnRegisterReq \<Rightarrow> bool" where
  "UnRegisterReq_wf m \<longleftrightarrow> msg_type m = 0 \<and> body_type m = REQ_UNREGISTER \<and>
     length (ureq_service_name m) = MAX_SERVICE_NAME"

definition UnRegisterReq_received ::
  "MsgBusUnRegisterReq \<Rightarrow> MsgBusUnRegisterReq \<Rightarrow> MsgBusUnRegisterReq" where
  "UnRegisterReq_received m0 m = m0\<lparr>ureq_service_name := name_bytes (ureq_service_name m),
     ureq_service_host := ureq_service_host m\<rparr>"

definition ConfirmAliveReq_wf :: "MsgBusConfirmAliveReq \<Rightarrow> bool" where
  "ConfirmAliveReq_wf m \<longleftrightarrow> msg_type m = 0 \<and> body_type m = REQ_CONFIRM_ALIVE"

definition GetClientReq_wf :: "MsgBusGetClientReq \<Rightarrow> bool" where
  "GetClientReq_wf m \<longleftrightarrow> msg_type m = 0 \<and> body_type m = REQ_GETCLIENT \<and>
     length (gcreq_dest_name m) = MAX_SERVICE_NAME"

definition GetClientRsp_body :: "MsgBusGetClientRsp \<Rightarrow> byte list" where
  "GetClientRsp_body m = be16 (gcrsp_ret_code m) @ name_bytes (gcrsp_dest_name m) @
     host_bytes (gcrsp_dest_host m)"

definition GetClientRsp_wf :: "MsgBusGetClientRsp \<Rightarrow> bool" where
  "GetClientRsp_wf m \<longleftrightarrow> msg_type m = 1 \<and> body_type m = RSP_GETCLIENT \<and>
     length (gcrsp_dest_name m) = MAX_SERVICE_NAME"

definition GetClientRsp_received :: "MsgBusGetClientRsp \<Rightarrow> MsgBusGetClientRsp \<Rightarrow> MsgBusGetClientRsp" where
  "GetClientRsp_received m0 m = m0\<lparr>gcrsp_ret_code := gcrsp_ret_code m,
     gcrsp_dest_name := name_bytes (gcrsp_dest_name m), gcrsp_dest_host := gcrsp_dest_host m\<rparr>"

text \<open>The bound on \<open>msg_len\<close> keeps \<open>Size()\<close>, a \<open>uint32_t\<close>, from wrapping.\<close>

definition SendMsgReq_body :: "MsgBusSendMsgReq \<Rightarrow> byte list" where
  "SendMsgReq_body m = name_bytes (smreq_dest_name m) @ name_bytes (smreq_from_name m) @
     be32 (smreq_msg_len m) @ raw_bytes (unat (smreq_msg_len m)) (smreq_msg_content m)"

definition SendMsgReq_wf :: "MsgBusSendMsgReq \<Rightarrow> bool" where
  "SendMsgReq_wf m \<longleftrightarrow> msg_type m = 0 \<and> body_type m = REQ_SENDMSG \<and>
     length (smreq_dest_name m) = MAX_SERVICE_NAME \<and> length (smreq_from_name m) = MAX_SERVICE_NAME \<and>
     raw_ok (unat (smreq_msg_len m)) (smreq_msg_content m) \<and>
     unat (smreq_msg_len m) + 148 < 2 ^ 32"

definition SendMsgReq_received :: "MsgBusSendMsgReq \<Rightarrow> MsgBusSendMsgReq \<Rightarrow> MsgBusSendMsgReq" where
  "SendMsgReq_received m0 m = m0\<lparr>smreq_dest_name := name_bytes (smreq_dest_name m),
     smreq_from_name := name_bytes (smreq_from_name m), smreq_msg_len := smreq_msg_len m,
     smreq_msg_content := Some (raw_bytes (unat (smreq_msg_len m)) (smreq_msg_content m)),
     smreq_needfree := True\<rparr>"

definition SendMsgRsp_body :: "MsgBusSendMsgRsp \<Rightarrow> byte list" where
  "SendMsgRsp_body m = be16 (smrsp_ret_code m) @ be16 (smrsp_err_msg_len m) @
     var_bytes (unat (smrsp_err_msg_len m)) (smrsp_err_msg m)"

definition SendMsgRsp_wf :: "MsgBusSendMsgRsp \<Rightarrow> bool" where
  "SendMsgRsp_wf m \<longleftrightarrow> msg_type m = 1 \<and> body_type m = RSP_SENDMSG \<and>
     var_ok (unat (smrsp_err_msg_len m)) (smrsp_err_msg m)"

definition SendMsgRsp_received :: "MsgBusSendMsgRsp \<Rightarrow> MsgBusSendMsgRsp \<Rightarrow> MsgBusSendMsgRsp" where
  "SendMsgRsp_received m0 m = m0\<lparr>smrsp_ret_code := smrsp_ret_code m,
     smrsp_err_msg_len := smrsp_err_msg_len m,
     smrsp_err_msg := Some (var_bytes (unat (smrsp_err_msg_len m)) (smrsp_err_msg m)),
     smrsp_needfree := True\<rparr>"

definition PBType_body :: "MsgBusPackPBType \<Rightarrow> byte list" where
  "PBType_body m = be32 (pb_pbtype_len m) @ be32 (pb_pbdata_len m) @
     var_bytes (unat (pb_pbtype_len m)) (pb_pbtype m) @ raw_bytes (unat (pb_pbdata_len m)) (pb_pbdata m)"

definition PBType_wf :: "MsgBusPackPBType \<Rightarrow> bool" where
  "PBType_wf m \<longleftrightarrow> body_type m = BODY_PBTYPE \<and>
     var_ok (unat (pb_pbtype_len m)) (pb_pbtype m) \<and> raw_ok (unat (pb_pbdata_len m)) (pb_pbdata m) \<and>
     unat (pb_pbtype_len m) < 2 ^ 31 - 24 \<and> unat (pb_pbdata_len m) < 2 ^ 31"

definition PBType_received :: "MsgBusPackPBType \<Rightarrow> MsgBusPackPBType \<Rightarrow> MsgBusPackPBType" where
  "PBType_received m0 m = m0\<lparr>pb_pbtype_len := pb_pbtype_len m, pb_pbdata_len := pb_pbdata_len m,
     pb_pbtype := Some (var_bytes (unat (pb_pbtype_len m)) (pb_pbtype m)),
     pb_pbdata := Some (raw_bytes (unat (pb_pbdata_len m)) (pb_pbdata m)), pb_needfree := True\<rparr>"

section \<open>Head lemmas\<close>

lemma length_head_bytes [simp]: "length (head_bytes m) = 16"
  by (simp add: head_bytes_def)

lemma PackHead_ok:
  "p + 16 \<le> length blk \<Longrightarrow> len = 0 \<or> 16 \<le> len \<Longrightarrow> PackHead m blk p len = Inr (12, overlay p (head_bytes m) blk)"
  by (auto simp: PackHead_def HeadSize_def head_bytes_def mem_simps)

lemma holds_at_head:
  assumes "holds_at p (head_bytes m) blk"
  shows "holds_at p [magic m] blk" "holds_at (p + 1) (be16 (version m)) blk"
    "holds_at (p + 3) [msg_type m] blk" "holds_at (p + 4) (be32 (msg_id m)) blk"
    "holds_at (p + 8) (be32 (body_type m)) blk" "holds_at (p + 12) (be32 (body_len m)) blk"
  using assms unfolding head_bytes_def holds_at_append by (simp_all add: ac_simps eval_nat_numeral)

lemma UnPackHead_holds:
  assumes "holds_at p (head_bytes m) blk" "len = 0 \<or> 16 \<le> len"
  shows "UnPackHead m0 blk p len = Inr (12, copy_head m0 m)"
  using assms(2) holds_at_head [OF assms(1)]
  by (auto simp: UnPackHead_def HeadSize_def copy_head_def load8_holds load16_holds load32_holds Let_def)

lemma PackReqHead_eq [simp]: "PackReqHead m blk p len = PackHead m blk p 0"
  and PackRspHead_eq [simp]: "PackRspHead m blk p len = PackHead m blk p 0"
  by (simp_all add: PackReqHead_def PackRspHead_def)

lemma msg_type_copy_head [simp]: "msg_type (copy_head m0 m) = msg_type m"
  and body_type_copy_head [simp]: "body_type (copy_head m0 m) = body_type m"
  and body_len_copy_head [simp]: "body_len (copy_head m0 m) = body_len m"
  and msg_id_copy_head [simp]: "msg_id (copy_head m0 m) = msg_id m"
  by (simp_all add: copy_head_def)

lemma UnPackReqHead_holds:
  "holds_at p (head_bytes m) blk \<Longrightarrow> msg_type m = 0 \<Longrightarrow>
   UnPackReqHead m0 blk p len = Inr (12, copy_head m0 m)"
  by (simp add: UnPackReqHead_def UnPackHead_holds)

lemma UnPackRspHead_holds:
  "holds_at p (head_bytes m) blk \<Longrightarrow> msg_type m = 1 \<Longrightarrow>
   UnPackRspHead m0 blk p len = Inr (12, copy_head m0 m)"
  by (simp add: UnPackRspHead_def UnPackHead_holds)

lemma head_bytes_inj:
  assumes "head_bytes m = head_bytes m'"
  shows "copy_head m0 m = copy_head m0 m'"
  using UnPackHead_holds [of 0 m "head_bytes m" 0 m0] UnPackHead_holds [of 0 m' "head_bytes m" 0 m0]
  by (simp add: assms)

section \<open>Field lemmas\<close>

lemma length_name_bytes [simp]: "length (name_bytes a) = 64"
  by (simp add: name_bytes_def MAX_SERVICE_NAME_def)

lemma name_bytes_idem [simp]: "name_bytes (name_bytes a) = name_bytes a"
  by (simp add: name_bytes_def cstr_cpad) (simp add: cpad_def)

lemma strncpy_name: "length a = MAX_SERVICE_NAME \<Longrightarrow> strncpy_read MAX_SERVICE_NAME a = Inr (name_bytes a)"
  by (simp add: strncpy_read_eq name_bytes_def)

lemma strncpy_read_take: "n \<le> length src \<Longrightarrow> strncpy_read n (take n src) = strncpy_read n src"
  by (induction n src rule: strncpy_read.induct) auto

lemma strncpy_holds:
  assumes "holds_at p (cpad n (cstr s)) blk"
  shows "strncpy_read n (drop p blk) = Inr (cpad n (cstr s))"
proof -
  from assms have "n \<le> length (drop p blk)" "take n (drop p blk) = cpad n (cstr s)"
    by (auto simp: holds_at_def)
  then have "strncpy_read n (drop p blk) = strncpy_read n (cpad n (cstr s))"
    using strncpy_read_take by metis
  then show ?thesis
    by (simp add: strncpy_read_eq cstr_cpad) (simp add: cpad_def)
qed

lemma name_holds:
  "holds_at p (name_bytes s) blk \<Longrightarrow> strncpy_read MAX_SERVICE_NAME (drop p blk) = Inr (name_bytes s)"
  by (simp add: name_bytes_def strncpy_holds)

lemma length_var_bytes [simp]: "var_ok n v \<Longrightarrow> length (var_bytes n v) = n"
  by (auto simp: var_ok_def var_bytes_def split: option.splits)

lemma length_raw_bytes [simp]: "raw_ok n v \<Longrightarrow> length (raw_bytes n v) = n"
  by (auto simp: raw_ok_def raw_bytes_def split: option.splits)

lemma strncpy_ptr_ok: "var_ok n v \<Longrightarrow> strncpy_ptr n v = Inr (var_bytes n v)"
  by (auto simp: strncpy_ptr_def var_ok_def var_bytes_def strncpy_read_eq split: option.splits)

lemma memcpy_ptr_ok: "raw_ok n v \<Longrightarrow> memcpy_ptr n v = Inr (raw_bytes n v)"
  by (auto simp: memcpy_ptr_def raw_ok_def raw_bytes_def cload_def split: option.splits)

lemma var_holds:
  "holds_at p (var_bytes n v) blk \<Longrightarrow> var_ok n v \<Longrightarrow> strncpy_read n (drop p blk) = Inr (var_bytes n v)"
  by (auto simp: var_ok_def var_bytes_def strncpy_holds split: option.splits)

lemma raw_holds: "holds_at p (raw_bytes n v) blk \<Longrightarrow> raw_ok n v \<Longrightarrow> cload blk p n = Inr (raw_bytes n v)"
  by (simp add: cload_holds)

lemma unat_ucast_16_32 [simp]: "unat (ucast (w :: u16) :: u32) = unat w"
  by (simp add: unsigned_ucast_eq take_bit_nat_eq_self_iff less_le_trans [OF unsigned_less])

lemma unat_plus_small: "unat (a :: u32) + unat b < 2 ^ 32 \<Longrightarrow> unat (a + b) = unat a + unat b"
  by (simp add: unat_word_ariths)

section \<open>The contract of a message class\<close>

locale message_codec =
  fixes Size :: "'x MsgBusPackHead_scheme \<Rightarrow> u32"
    and wf :: "'x MsgBusPackHead_scheme \<Rightarrow> bool"
    and body :: "'x MsgBusPackHead_scheme \<Rightarrow> byte list"
    and packHead :: "'x MsgBusPackHead_scheme \<Rightarrow> byte list \<Rightarrow> nat \<Rightarrow> nat \<Rightarrow> (u16 \<times> byte list) cres"
    and packBody :: "'x MsgBusPackHead_scheme \<Rightarrow> byte list \<Rightarrow> nat \<Rightarrow> nat \<Rightarrow> byte list cres"
    and unpackHead ::
      "'x MsgBusPackHead_scheme \<Rightarrow> byte list \<Rightarrow> nat \<Rightarrow> nat \<Rightarrow> (int \<times> 'x MsgBusPackHead_scheme) cres"
    and unpackBody ::
      "'x MsgBusPackHead_scheme \<Rightarrow> byte list \<Rightarrow> nat \<Rightarrow> nat \<Rightarrow> (int \<times> 'x MsgBusPackHead_scheme) cres"
    and received :: "'x MsgBusPackHead_scheme \<Rightarrow> 'x MsgBusPackHead_scheme \<Rightarrow> 'x MsgBusPackHead_scheme"
    and btype :: u32
    and guarded :: bool
  assumes wf_type: "wf m \<Longrightarrow> body_type m = btype"
    and wf_len: "wf m \<Longrightarrow> wf (m\<lparr>body_len := n\<rparr>)"
    and body_indep: "body (m\<lparr>body_len := n\<rparr>) = body m"
    and size_body: "wf m \<Longrightarrow> unat (Size m) = 16 + length (body m)"
    and size_fixed: "guarded \<Longrightarrow> Size m = Size m'"
    and packHead_law: "packHead m blk p 0 = PackHead m blk p 0"
    and packBody_law: "wf m \<Longrightarrow> p + length (body m) \<le> length blk \<Longrightarrow>
          packBody m blk p 0 = Inr (overlay p (body m) blk)"
    and unpackHead_law: "wf m \<Longrightarrow> holds_at p (head_bytes m) blk \<Longrightarrow>
          unpackHead m0 blk p 0 = Inr (12, copy_head m0 m)"
    and unpackBody_law: "wf m \<Longrightarrow> holds_at p (body m) blk \<Longrightarrow>
          unpackBody m0 blk p 0 = Inr (0, received m0 m)"
begin

definition sent :: "'x MsgBusPackHead_scheme \<Rightarrow> 'x MsgBusPackHead_scheme" where
  "sent m = m\<lparr>body_len := Size m - HeadSize\<rparr>"

definition encode :: "'x MsgBusPackHead_scheme \<Rightarrow> byte list" where
  "encode m = head_bytes (sent m) @ body m"

lemma length_encode: "wf m \<Longrightarrow> length (encode m) = unat (Size m)"
  by (simp add: encode_def size_body)

lemma announced_len: "wf m \<Longrightarrow> unat (body_len (sent m)) = length (body m)"
  using size_body [of m] by (simp add: sent_def HeadSize_def unat_sub_if_size)

lemma packData_ok:
  assumes "wf m" "p + unat (Size m) \<le> length blk" "len = 0 \<or> unat (Size m) \<le> len"
  shows "PackData_of Size packHead packBody m blk p len = Inr (overlay p (encode m) blk, sent m)"
proof -
  have s: "unat (Size m) = 16 + length (body m)" using assms(1) by (rule size_body)
  have "PackHead (sent m) blk p 0 = Inr (12, overlay p (head_bytes (sent m)) blk)"
    using assms(2) s by (simp add: PackHead_ok)
  moreover have "packBody (sent m) (overlay p (head_bytes (sent m)) blk) (p + 16) 0
      = Inr (overlay p (encode m) blk)"
    using assms s packBody_law [OF wf_len [OF assms(1)], of "p + 16"]
    by (simp add: sent_def body_indep encode_def overlay_overlay)
  ultimately show ?thesis
    using assms(3) by (auto simp: PackData_of_def packHead_law HeadSize_def sent_def)
qed

lemma unpackData_ok:
  assumes "wf m" "holds_at p (encode m) blk" "len = 0 \<or> unat (Size m) \<le> len"
  shows "UnPackData_of guarded Size unpackHead btype unpackBody m0 blk p len =
    Inr (0, received (copy_head m0 (sent m)) m)"
proof -
  have "holds_at p (head_bytes (sent m)) blk" "holds_at (p + 16) (body m) blk"
    using assms(2) by (simp_all add: encode_def holds_at_append)
  moreover have "wf (sent m)" "body_type (sent m) = btype"
    using assms(1) by (simp_all add: sent_def wf_len wf_type)
  ultimately show ?thesis
    using assms(1,3) size_fixed [of m0 m]
    by (auto simp: UnPackData_of_def HeadSize_def unpackHead_law unpackBody_law)
qed

lemma roundtrip:
  assumes "wf m" "p + unat (Size m) \<le> length blk" "len = 0 \<or> unat (Size m) \<le> len"
  shows "\<exists>blk'. PackData_of Size packHead packBody m blk p len = Inr (blk', sent m) \<and>
    blk' = overlay p (encode m) blk \<and>
    UnPackData_of guarded Size unpackHead btype unpackBody m0 blk' p len =
      Inr (0, received (copy_head m0 (sent m)) m)"
  using packData_ok [OF assms] unpackData_ok [OF assms(1) _ assms(3)] assms(1,2)
  by (simp add: length_encode)

text \<open>The use in the program: packing into a buffer allocated with \<open>Size()\<close> bytes.\<close>

lemma packData_fresh:
  "wf m \<Longrightarrow> PackData_of Size packHead packBody m (replicate (unat (Size m)) 0) 0 0 = Inr (encode m, sent m)"
  using packData_ok [of m 0 "replicate (unat (Size m)) 0" 0] by (simp add: overlay_def length_encode)

lemma packData_fresh_len:
  "wf m \<Longrightarrow> PackData_of Size packHead packBody m (replicate (unat (Size m)) 0) 0 (unat (Size m))
     = Inr (encode m, sent m)"
  using packData_ok [of m 0 "replicate (unat (Size m)) 0" "unat (Size m)"]
  by (simp add: overlay_def length_encode)

lemma unpackData_fresh:
  "wf m \<Longrightarrow> UnPackData_of guarded Size unpackHead btype unpackBody m0 (encode m) 0 0 =
     Inr (0, received (copy_head m0 (sent m)) m)"
  using unpackData_ok [of m 0 "encode m" 0 m0] by simp

end

section \<open>The classes satisfy the contract\<close>

lemmas codec_defs = HeadSize_def MAX_SERVICE_NAME_def Let_def

lemma RegisterReq_PackBody_ok:
  "RegisterReq_wf m \<Longrightarrow> p + length (RegisterReq_body m) \<le> length blk \<Longrightarrow>
   RegisterReq_PackBody m blk p 0 = Inr (overlay p (RegisterReq_body m) blk)"
  by (simp add: RegisterReq_PackBody_def RegisterReq_wf_def RegisterReq_body_def strncpy_name)
     (simp add: codec_defs cstore_ok overlay_overlay)

lemma RegisterReq_UnPackBody_ok:
  "holds_at p (RegisterReq_body m) blk \<Longrightarrow>
   RegisterReq_UnPackBody m0 blk p 0 = Inr (0, RegisterReq_received m0 m)"
  unfolding RegisterReq_body_def holds_at_append
  by (clarsimp simp: RegisterReq_UnPackBody_def RegisterReq_received_def name_holds)
     (simp add: codec_defs load_host_holds)

interpretation rreq: message_codec RegisterReq_Size RegisterReq_wf RegisterReq_body PackReqHead
  RegisterReq_PackBody UnPackReqHead RegisterReq_UnPackBody RegisterReq_received REQ_REGISTER True
  by unfold_locales
     (simp_all add: RegisterReq_PackBody_ok RegisterReq_UnPackBody_ok UnPackReqHead_holds,
      simp_all add: RegisterReq_wf_def RegisterReq_body_def RegisterReq_Size_def UnPackReqHead_holds)

lemma UnRegisterReq_PackBody_ok:
  "UnRegisterReq_wf m \<Longrightarrow> p + length (UnRegisterReq_body m) \<le> length blk \<Longrightarrow>
   UnRegisterReq_PackBody m blk p 0 = Inr (overlay p (UnRegisterReq_body m) blk)"
  by (simp add: UnRegisterReq_PackBody_def UnRegisterReq_wf_def UnRegisterReq_body_def strncpy_name)
     (simp add: codec_defs cstore_ok overlay_overlay)

lemma UnRegisterReq_UnPackBody_ok:
  "holds_at p (UnRegisterReq_body m) blk \<Longrightarrow>
   UnRegisterReq_UnPackBody m0 blk p 0 = Inr (0, UnRegisterReq_received m0 m)"
  unfolding UnRegisterReq_body_def holds_at_append
  by (clarsimp simp: UnRegisterReq_UnPackBody_def UnRegisterReq_received_def name_holds)
     (simp add: codec_defs load_host_holds)

interpretation ureq: message_codec UnRegisterReq_Size UnRegisterReq_wf UnRegisterReq_body PackReqHead
  UnRegisterReq_PackBody UnPackReqHead UnRegisterReq_UnPackBody UnRegisterReq_received REQ_UNREGISTER True
  by unfold_locales
     (simp_all add: UnRegisterReq_PackBody_ok UnRegisterReq_UnPackBody_ok UnPackReqHead_holds,
      simp_all add: UnRegisterReq_wf_def UnRegisterReq_body_def UnRegisterReq_Size_def UnPackReqHead_holds)

interpretation careq: message_codec ConfirmAliveReq_Size ConfirmAliveReq_wf
  "\<lambda>m. [careq_alive_flag m]" PackReqHead ConfirmAliveReq_PackBody UnPackReqHead
  ConfirmAliveReq_UnPackBody "\<lambda>m0 m. m0\<lparr>careq_alive_flag := careq_alive_flag m\<rparr>" REQ_CONFIRM_ALIVE True
  by unfold_locales
     (simp_all add: ConfirmAliveReq_wf_def ConfirmAliveReq_Size_def UnPackReqHead_holds
        ConfirmAliveReq_PackBody_def ConfirmAliveReq_UnPackBody_def cstore_ok load8_holds)

interpretation gcreq: message_codec GetClientReq_Size GetClientReq_wf
  "\<lambda>m. name_bytes (gcreq_dest_name m)" PackReqHead GetClientReq_PackBody UnPackReqHead
  GetClientReq_UnPackBody "\<lambda>m0 m. m0\<lparr>gcreq_dest_name := name_bytes (gcreq_dest_name m)\<rparr>"
  REQ_GETCLIENT True
  by unfold_locales
     (simp_all add: GetClientReq_wf_def GetClientReq_Size_def UnPackReqHead_holds
        GetClientReq_PackBody_def GetClientReq_UnPackBody_def cstore_ok strncpy_name name_holds)

lemma GetClientRsp_PackBody_ok:
  "GetClientRsp_wf m \<Longrightarrow> p + length (GetClientRsp_body m) \<le> length blk \<Longrightarrow>
   GetClientRsp_PackBody m blk p 0 = Inr (overlay p (GetClientRsp_body m) blk)"
  by (simp add: GetClientRsp_PackBody_def GetClientRsp_wf_def GetClientRsp_body_def strncpy_name)
     (simp add: codec_defs cstore_ok overlay_overlay)

lemma GetClientRsp_body_size: "unat (GetClientRsp_Size m - 16) = 76"
  by (simp add: GetClientRsp_Size_def)

lemma GetClientRsp_UnPackBody_ok:
  "holds_at p (GetClientRsp_body m) blk \<Longrightarrow> len = 0 \<or> length (GetClientRsp_body m) \<le> len \<Longrightarrow>
   GetClientRsp_UnPackBody m0 blk p len = Inr (0, GetClientRsp_received m0 m)"
  unfolding GetClientRsp_body_def holds_at_append
  by (clarsimp simp: GetClientRsp_UnPackBody_def GetClientRsp_received_def load16_holds name_holds)
     (auto simp: codec_defs GetClientRsp_body_size load_host_holds ac_simps)

interpretation gcrsp: message_codec GetClientRsp_Size GetClientRsp_wf GetClientRsp_body PackRspHead
  GetClientRsp_PackBody UnPackRspHead GetClientRsp_UnPackBody GetClientRsp_received RSP_GETCLIENT True
  by unfold_locales
     (simp_all add: GetClientRsp_PackBody_ok GetClientRsp_UnPackBody_ok UnPackRspHead_holds,
      simp_all add: GetClientRsp_wf_def GetClientRsp_body_def GetClientRsp_Size_def UnPackRspHead_holds)

lemma RegisterRsp_PackBody_ok:
  "RegisterRsp_wf m \<Longrightarrow> p + length (RegisterRsp_body m) \<le> length blk \<Longrightarrow>
   RegisterRsp_PackBody m blk p 0 = Inr (overlay p (RegisterRsp_body m) blk)"
  by (simp add: RegisterRsp_PackBody_def RegisterRsp_wf_def RegisterRsp_body_def strncpy_name
        strncpy_ptr_ok)
     (simp add: codec_defs cstore_ok overlay_overlay)

lemma RegisterRsp_UnPackBody_ok:
  "RegisterRsp_wf m \<Longrightarrow> holds_at p (RegisterRsp_body m) blk \<Longrightarrow> len = 0 \<or> length (RegisterRsp_body m) \<le> len \<Longrightarrow>
   RegisterRsp_UnPackBody m0 blk p len = Inr (0, RegisterRsp_received m0 m)"
  unfolding RegisterRsp_body_def holds_at_append
  by (clarsimp simp: RegisterRsp_UnPackBody_def RegisterRsp_wf_def RegisterRsp_received_def
        RegisterRsp_FreeVarData_def load16_holds name_holds)
     (auto simp: codec_defs RegisterRsp_FreeVarData_def load16_holds var_holds ac_simps)

lemma RegisterRsp_size: "unat (RegisterRsp_Size m) = 84 + unat (rrsp_err_msg_len m)"
  using unsigned_less [of "rrsp_err_msg_len m", where 'a = nat]
  by (simp add: RegisterRsp_Size_def codec_defs unat_plus_small)

interpretation rrsp: message_codec RegisterRsp_Size RegisterRsp_wf RegisterRsp_body PackRspHead
  RegisterRsp_PackBody UnPackRspHead RegisterRsp_UnPackBody RegisterRsp_received RSP_REGISTER False
  by unfold_locales
     (simp_all add: RegisterRsp_PackBody_ok RegisterRsp_UnPackBody_ok RegisterRsp_size,
      simp_all add: RegisterRsp_wf_def RegisterRsp_body_def UnPackRspHead_holds)

lemma SendMsgReq_PackBody_ok:
  "SendMsgReq_wf m \<Longrightarrow> p + length (SendMsgReq_body m) \<le> length blk \<Longrightarrow>
   SendMsgReq_PackBody m blk p 0 = Inr (overlay p (SendMsgReq_body m) blk)"
  by (simp add: SendMsgReq_PackBody_def SendMsgReq_wf_def SendMsgReq_body_def strncpy_name
        memcpy_ptr_ok)
     (simp add: codec_defs cstore_ok overlay_overlay)

lemma SendMsgReq_UnPackBody_ok:
  "SendMsgReq_wf m \<Longrightarrow> holds_at p (SendMsgReq_body m) blk \<Longrightarrow>
   len = 0 \<or> length (SendMsgReq_body m) \<le> len \<Longrightarrow>
   SendMsgReq_UnPackBody m0 blk p len = Inr (0, SendMsgReq_received m0 m)"
  unfolding SendMsgReq_body_def holds_at_append
  by (clarsimp simp: SendMsgReq_UnPackBody_def SendMsgReq_wf_def SendMsgReq_received_def
        SendMsgReq_FreeVarData_def load32_holds name_holds)
     (auto simp: codec_defs SendMsgReq_FreeVarData_def load32_holds name_holds [unfolded MAX_SERVICE_NAME_def] raw_holds ac_simps)

lemma SendMsgReq_size:
  "SendMsgReq_wf m \<Longrightarrow> unat (SendMsgReq_Size m) = 148 + unat (smreq_msg_len m)"
  by (simp add: SendMsgReq_Size_def SendMsgReq_wf_def codec_defs unat_plus_small)

interpretation smreq: message_codec SendMsgReq_Size SendMsgReq_wf SendMsgReq_body PackReqHead
  SendMsgReq_PackBody UnPackReqHead SendMsgReq_UnPackBody SendMsgReq_received REQ_SENDMSG False
  by unfold_locales
     (simp_all add: SendMsgReq_PackBody_ok SendMsgReq_UnPackBody_ok SendMsgReq_size,
      simp_all add: SendMsgReq_wf_def SendMsgReq_body_def UnPackReqHead_holds)

lemma SendMsgRsp_PackBody_ok:
  "SendMsgRsp_wf m \<Longrightarrow> p + length (SendMsgRsp_body m) \<le> length blk \<Longrightarrow>
   SendMsgRsp_PackBody m blk p 0 = Inr (overlay p (SendMsgRsp_body m) blk)"
  by (simp add: SendMsgRsp_PackBody_def SendMsgRsp_wf_def SendMsgRsp_body_def strncpy_ptr_ok)
     (simp add: codec_defs cstore_ok overlay_overlay)

lemma SendMsgRsp_UnPackBody_ok:
  "SendMsgRsp_wf m \<Longrightarrow> holds_at p (SendMsgRsp_body m) blk \<Longrightarrow> len = 0 \<or> length (SendMsgRsp_body m) \<le> len \<Longrightarrow>
   SendMsgRsp_UnPackBody m0 blk p len = Inr (0, SendMsgRsp_received m0 m)"
  unfolding SendMsgRsp_body_def holds_at_append
  by (clarsimp simp: SendMsgRsp_UnPackBody_def SendMsgRsp_wf_def SendMsgRsp_received_def
        SendMsgRsp_FreeVarData_def load16_holds)
     (auto simp: codec_defs SendMsgRsp_FreeVarData_def load16_holds var_holds ac_simps)

lemma SendMsgRsp_size: "unat (SendMsgRsp_Size m) = 20 + unat (smrsp_err_msg_len m)"
  using unsigned_less [of "smrsp_err_msg_len m", where 'a = nat]
  by (simp add: SendMsgRsp_Size_def codec_defs unat_plus_small)

interpretation smrsp: message_codec SendMsgRsp_Size SendMsgRsp_wf SendMsgRsp_body PackRspHead
  SendMsgRsp_PackBody UnPackRspHead SendMsgRsp_UnPackBody SendMsgRsp_received RSP_SENDMSG False
  by unfold_locales
     (simp_all add: SendMsgRsp_PackBody_ok SendMsgRsp_UnPackBody_ok SendMsgRsp_size,
      simp_all add: SendMsgRsp_wf_def SendMsgRsp_body_def UnPackRspHead_holds)

lemma sint_nonneg_iff: "sint (w :: u32) < 0 \<longleftrightarrow> 2 ^ 31 \<le> unat w"
proof -
  have w: "unat w < 2 ^ 32" using unsigned_less [of w, where 'a = nat] by simp
  have "sint w < 0 \<longleftrightarrow> odd (unat w div 2 ^ 31)"
    using bit_iff_odd [of "unat w" 31] by (simp add: sint_uint bit_simps)
  also have "\<dots> \<longleftrightarrow> 2 ^ 31 \<le> unat w"
  proof (cases "unat w < 2 ^ 31")
    case False
    with w have "unat w div 2 ^ 31 = 1" by (simp add: div_nat_eqI)
    with False show ?thesis by simp
  qed simp
  finally show ?thesis .
qed

lemma PBType_PackBody_ok:
  "PBType_wf m \<Longrightarrow> p + length (PBType_body m) \<le> length blk \<Longrightarrow>
   PBType_PackBody m blk p 0 = Inr (overlay p (PBType_body m) blk)"
  by (simp add: PBType_PackBody_def PBType_wf_def PBType_body_def strncpy_ptr_ok memcpy_ptr_ok
        sint_nonneg_iff)
     (simp add: codec_defs cstore_ok overlay_overlay)

lemma PBType_UnPackBody_ok:
  "PBType_wf m \<Longrightarrow> holds_at p (PBType_body m) blk \<Longrightarrow>
   PBType_UnPackBody m0 blk p 0 = Inr (0, PBType_received m0 m)"
  unfolding PBType_body_def holds_at_append
  by (clarsimp simp: PBType_UnPackBody_def PBType_wf_def PBType_received_def
        PBType_FreeVarData_def load32_holds sint_nonneg_iff)
     (auto simp: codec_defs PBType_FreeVarData_def load32_holds var_holds raw_holds sint_nonneg_iff ac_simps)

lemma PBType_size:
  "PBType_wf m \<Longrightarrow> unat (PBType_Size m) = 24 + unat (pb_pbtype_len m) + unat (pb_pbdata_len m)"
  by (simp add: PBType_Size_def PBType_wf_def codec_defs unat_plus_small)

interpretation pb: message_codec PBType_Size PBType_wf PBType_body PackHead
  PBType_PackBody UnPackHead PBType_UnPackBody PBType_received BODY_PBTYPE False
  by unfold_locales
     (simp_all add: PBType_PackBody_ok PBType_UnPackBody_ok PBType_size UnPackHead_holds,
      simp_all add: PBType_wf_def PBType_body_def)

section \<open>Untrusted input\<close>

lemma strncpy_read_ok: "n \<le> length src \<Longrightarrow> \<exists>bs. strncpy_read n src = Inr bs"
  by (auto simp: strncpy_read_eq)

lemma load16_bounded: "p + 2 \<le> length blk \<Longrightarrow> \<exists>v. load16 blk p = Inr v"
  and load32_bounded: "p + 4 \<le> length blk \<Longrightarrow> \<exists>v. load32 blk p = Inr v"
  by (simp_all add: load16_def load32_def cload_def)

lemma is_ok_cbindI: "\<exists>x. m = Inr x \<Longrightarrow> (\<And>x. m = Inr x \<Longrightarrow> is_ok (f x)) \<Longrightarrow> is_ok (cbind m f)"
  by auto

lemmas bounded_reads = strncpy_read_ok load16_bounded load32_bounded

lemma SendMsgReq_UnPackBody_bounded:
  "len \<noteq> 0 \<Longrightarrow> p + len \<le> length blk \<Longrightarrow> is_ok (SendMsgReq_UnPackBody m blk p len)"
  by (auto simp: SendMsgReq_UnPackBody_def MAX_SERVICE_NAME_def Let_def SendMsgReq_FreeVarData_def
        cload_def intro!: is_ok_cbindI bounded_reads)

lemma RegisterRsp_UnPackBody_bounded:
  "len \<noteq> 0 \<Longrightarrow> p + len \<le> length blk \<Longrightarrow> is_ok (RegisterRsp_UnPackBody m blk p len)"
  by (auto simp: RegisterRsp_UnPackBody_def MAX_SERVICE_NAME_def Let_def RegisterRsp_FreeVarData_def
        intro!: is_ok_cbindI bounded_reads)

lemma SendMsgRsp_UnPackBody_bounded:
  "len \<noteq> 0 \<Longrightarrow> p + len \<le> length blk \<Longrightarrow> is_ok (SendMsgRsp_UnPackBody m blk p len)"
  by (auto simp: SendMsgRsp_UnPackBody_def Let_def SendMsgRsp_FreeVarData_def
        intro!: is_ok_cbindI bounded_reads)
     (simp_all add: not_less)

section \<open>Properties\<close>

text \<open>
  the packet head. Packing writes the sixteen bytes of the big-endian wire format at the target
  and nothing else, and unpacking any block that holds them restores all six fields in the receiving
  object, whatever that object (of any derived class) held before.
\<close>

theorem pack_head_roundtrip:
  assumes "p + 16 \<le> length blk"
  shows "PackHead m blk p 0 = Inr (12, overlay p (head_bytes m) blk) \<and>
    UnPackHead m0 (overlay p (head_bytes m) blk) p 0 = Inr (12, copy_head m0 m)"
  using assms by (simp add: PackHead_ok UnPackHead_holds)

theorem pack_head_roundtrip_witness:
  "PackHead (new_MsgBusPackHead 0 REQ_SENDMSG) (replicate 16 0) 0 0 =
    Inr (12, overlay 0 (head_bytes (new_MsgBusPackHead 0 REQ_SENDMSG)) (replicate 16 0)) \<and>
   UnPackHead (new_MsgBusPackHead_raw 0)
     (overlay 0 (head_bytes (new_MsgBusPackHead 0 REQ_SENDMSG)) (replicate 16 0)) 0 0 =
    Inr (12, copy_head (new_MsgBusPackHead_raw 0) (new_MsgBusPackHead 0 REQ_SENDMSG))"
  by (rule pack_head_roundtrip) simp

text \<open>
  register requests. \<open>PackData\<close> into any block with \<open>Size()\<close> bytes left changes only those bytes,
  announces the true body length, and \<open>UnPackData\<close> into any receiver returns 0 with exactly the
  object that was sent (its name being a NUL-padded string).
\<close>

theorem register_req_roundtrip:
  assumes "RegisterReq_wf m" "name_bytes (rreq_service_name m) = rreq_service_name m"
    and "p + 90 \<le> length blk" "len = 0 \<or> 90 \<le> len"
  shows "\<exists>blk' m1. RegisterReq_PackData m blk p len = Inr (blk', m1) \<and> length blk' = length blk \<and>
    take p blk' = take p blk \<and> drop (p + 90) blk' = drop (p + 90) blk \<and> body_len m1 = 74 \<and>
    RegisterReq_UnPackData m0 blk' p len = Inr (0, m1)"
proof -
  have s: "unat (RegisterReq_Size m) = 90" by (simp add: RegisterReq_Size_def)
  have e: "length (rreq.encode m) = 90" using rreq.length_encode [OF assms(1)] s by simp
  have "RegisterReq_received (copy_head m0 (rreq.sent m)) m = rreq.sent m"
    using assms(2) by (cases m0; cases m) (simp add: RegisterReq_received_def copy_head_def rreq.sent_def)
  then show ?thesis
    using rreq.roundtrip [OF assms(1), of p blk len m0] assms(3,4) s e
    by (auto simp: RegisterReq_PackData_def RegisterReq_UnPackData_def overlay_def rreq.sent_def
          RegisterReq_Size_def HeadSize_def)
qed

theorem register_req_roundtrip_witness:
  "\<exists>blk' m1. RegisterReq_PackData (new_MsgBusRegisterReq (replicate 64 0)) (replicate 100 7) 5 0
     = Inr (blk', m1) \<and> length blk' = length (replicate 100 (7 :: byte)) \<and>
   take 5 blk' = take 5 (replicate 100 7) \<and> drop (5 + 90) blk' = drop (5 + 90) (replicate 100 7) \<and>
   body_len m1 = 74 \<and>
   RegisterReq_UnPackData (new_MsgBusRegisterReq (replicate 64 1)) blk' 5 0 = Inr (0, m1)"
  by (rule register_req_roundtrip)
     (simp_all add: RegisterReq_wf_def new_MsgBusRegisterReq_def new_MsgBusPackHead_def
        MsgBusPackHead.extend_def MsgBusRegisterReq.fields_def name_bytes_def cstr_def cpad_def
        MAX_SERVICE_NAME_def)

text \<open>
  C35: relayed messages. A send request whose content is at least \<open>msg_len\<close> bytes long (and whose
  size fits 32 bits) is packed inside its \<open>Size()\<close> bytes; the receiver gets both names and exactly the
  first \<open>msg_len\<close> bytes of the content, whatever bytes they are.
\<close>

theorem send_msg_req_roundtrip:
  assumes "SendMsgReq_wf m" "p + unat (SendMsgReq_Size m) \<le> length blk"
  shows "\<exists>blk' m1 m2. SendMsgReq_PackData m blk p 0 = Inr (blk', m1) \<and> length blk' = length blk \<and>
    take p blk' = take p blk \<and>
    unat (body_len m1) = 132 + unat (smreq_msg_len m) \<and>
    SendMsgReq_UnPackData m0 blk' p 0 = Inr (0, m2) \<and> msg_id m2 = msg_id m \<and>
    smreq_dest_name m2 = name_bytes (smreq_dest_name m) \<and>
    smreq_from_name m2 = name_bytes (smreq_from_name m) \<and>
    smreq_msg_len m2 = smreq_msg_len m \<and>
    smreq_msg_content m2 = Some (raw_bytes (unat (smreq_msg_len m)) (smreq_msg_content m))"
proof -
  have e: "length (smreq.encode m) = unat (SendMsgReq_Size m)"
    using smreq.length_encode [OF assms(1)] .
  have b: "unat (body_len (smreq.sent m)) = 132 + unat (smreq_msg_len m)"
    using smreq.announced_len [OF assms(1)] assms(1) by (simp add: SendMsgReq_body_def SendMsgReq_wf_def)
  show ?thesis
    using smreq.roundtrip [OF assms, of 0 m0] assms(2) e b
    by (auto simp: SendMsgReq_PackData_def SendMsgReq_UnPackData_def SendMsgReq_received_def overlay_def
          smreq.sent_def)
qed

theorem send_msg_req_roundtrip_witness:
  "let m = (new_MsgBusSendMsgReq (replicate 64 65) (replicate 64 0))
             \<lparr>smreq_msg_len := 2, smreq_msg_content := Some [0, 9, 9]\<rparr>
   in \<exists>blk' m1 m2. SendMsgReq_PackData m (replicate 150 0) 0 0 = Inr (blk', m1) \<and>
     length blk' = length (replicate 150 (0 :: byte)) \<and> take 0 blk' = take 0 (replicate 150 0) \<and>
     unat (body_len m1) = 132 + unat (smreq_msg_len m) \<and>
     SendMsgReq_UnPackData m blk' 0 0 = Inr (0, m2) \<and> msg_id m2 = msg_id m \<and>
     smreq_dest_name m2 = name_bytes (smreq_dest_name m) \<and>
     smreq_from_name m2 = name_bytes (smreq_from_name m) \<and>
     smreq_msg_len m2 = smreq_msg_len m \<and>
     smreq_msg_content m2 = Some (raw_bytes (unat (smreq_msg_len m)) (smreq_msg_content m))"
  unfolding Let_def
  by (rule send_msg_req_roundtrip)
     (simp_all add: SendMsgReq_wf_def new_MsgBusSendMsgReq_def new_MsgBusPackHead_def raw_ok_def
        MsgBusPackHead.extend_def MsgBusSendMsgReq.fields_def MAX_SERVICE_NAME_def SendMsgReq_Size_def
        HeadSize_def)

text \<open>
  C38: untrusted bodies. For the three classes with a variable part that check it, unpacking with the true
  number of received bytes as \<open>len\<close> never reads outside them, whatever they hold: it returns 0 or -1.
\<close>

theorem unpack_body_bounded:
  assumes "0 < len" "p + len \<le> length blk"
  shows "is_ok (SendMsgReq_UnPackBody m1 blk p len) \<and> is_ok (RegisterRsp_UnPackBody m2 blk p len) \<and>
    is_ok (SendMsgRsp_UnPackBody m3 blk p len)"
  using assms
  by (simp add: SendMsgReq_UnPackBody_bounded RegisterRsp_UnPackBody_bounded SendMsgRsp_UnPackBody_bounded)

theorem unpack_body_bounded_witness:
  "is_ok (SendMsgReq_UnPackBody (new_MsgBusSendMsgReq [] []) (replicate 140 255) 2 138) \<and>
   is_ok (RegisterRsp_UnPackBody (new_MsgBusRegisterRsp 0 []) (replicate 140 255) 2 138) \<and>
   is_ok (SendMsgRsp_UnPackBody (new_MsgBusSendMsgRsp 0) (replicate 140 255) 2 138)"
  by (rule unpack_body_bounded) simp_all

text \<open>
  without a length (\<open>len\<close> = 0, as the server calls it) the check is off: a register body shorter than
  its 74 bytes is always read outside the block.
\<close>

theorem unpack_body_unchecked:
  assumes "length blk < p + 74"
  shows "RegisterReq_UnPackBody m blk p 0 = Inl OutOfBounds"
proof -
  have "load_host blk (p + 64) = Inl OutOfBounds"
    using assms by (auto simp: load_host_def load16_def load32_def cload_def)
  then show ?thesis
    using assms strncpy_read_oob [of "drop p blk" 64] strncpy_read_eq [of 64 "drop p blk"]
    by (cases "0 \<in> set (drop p blk) \<or> 64 \<le> length (drop p blk)")
       (auto simp: RegisterReq_UnPackBody_def MAX_SERVICE_NAME_def)
qed

theorem unpack_body_unchecked_witness:
  "RegisterReq_UnPackBody (new_MsgBusRegisterReq (replicate 64 0)) (replicate 80 0) 16 0 = Inl OutOfBounds"
  by (rule unpack_body_unchecked) simp

text \<open>
  the confirm-alive response cannot be received. Its \<open>UnPackData\<close> expects the type of a register
  response, so it returns -1 on every packet its own \<open>PackData\<close> writes.
\<close>

theorem confirm_alive_rsp_rejected:
  assumes "body_type m = RSP_CONFIRM_ALIVE" "p + 18 \<le> length blk"
  shows "\<exists>blk' m1 m2. ConfirmAliveRsp_PackData m blk p 0 = Inr (blk', m1) \<and>
    ConfirmAliveRsp_UnPackData m0 blk' p 0 = Inr (- 1, m2)"
proof -
  define m1 where "m1 = m\<lparr>body_len := 2\<rparr>"
  define blk' where "blk' = overlay p (head_bytes m1 @ be16 (carsp_ret_code m1)) blk"
  have "ConfirmAliveRsp_PackData m blk p 0 = Inr (blk', m1)"
    using assms(2)
    by (simp add: ConfirmAliveRsp_PackData_def PackData_of_def PackHead_ok ConfirmAliveRsp_Size_def
          HeadSize_def ConfirmAliveRsp_PackBody_def cstore_ok overlay_overlay blk'_def m1_def Let_def)
  moreover have "holds_at p (head_bytes m1) blk'"
    using assms(2) holds_at_overlay [of p "head_bytes m1 @ be16 (carsp_ret_code m1)" blk]
    by (simp add: blk'_def holds_at_append)
  then have "\<exists>m2. ConfirmAliveRsp_UnPackData m0 blk' p 0 = Inr (- 1, m2)"
    using assms(1)
    by (simp add: ConfirmAliveRsp_UnPackData_def UnPackData_of_def UnPackRspHead_def UnPackHead_holds
          m1_def RSP_CONFIRM_ALIVE_def RSP_REGISTER_def)
  ultimately show ?thesis by blast
qed

theorem confirm_alive_rsp_rejected_witness:
  "\<exists>blk' m1 m2. ConfirmAliveRsp_PackData new_MsgBusConfirmAliveRsp (replicate 18 0) 0 0 = Inr (blk', m1) \<and>
    ConfirmAliveRsp_UnPackData new_MsgBusConfirmAliveRsp blk' 0 0 = Inr (- 1, m2)"
  by (rule confirm_alive_rsp_rejected)
     (simp_all add: new_MsgBusConfirmAliveRsp_def new_MsgBusPackHead_def MsgBusPackHead.extend_def
        MsgBusConfirmAliveRsp.fields_def)

end
