(* ===== verification/Framing.thy ===== *)
theory Framing
  imports MsgBus_Codec
begin

text \<open>
  Cutting a byte stream into frames. Every \<open>onRead\<close> callback of the program is called with all buffered
  bytes, handles the complete frames at their front and returns the number of bytes they took; the rest
  is offered again when more bytes have arrived. The locale \<open>frame_protocol\<close> states what a frame format
  has to satisfy for the result not to depend on how the stream was cut into reads, \<open>stream_reader\<close> what a
  reading loop has to satisfy for this to hold of its connection.
\<close>

section \<open>Reference: frames of a stream\<close>

text \<open>A frame format: the first frame of the bytes and its length, or \<open>None\<close> while it is incomplete.\<close>

type_synonym 'f parser = "byte list \<Rightarrow> ('f \<times> nat) option"

fun split_frames :: "'f parser \<Rightarrow> nat \<Rightarrow> byte list \<Rightarrow> 'f list \<times> byte list" where
  "split_frames parse 0 b = ([], b)"
| "split_frames parse (Suc k) b =
     (case parse b of None \<Rightarrow> ([], b)
      | Some (f, n) \<Rightarrow> let (fs, r) = split_frames parse k (drop n b) in (f # fs, r))"

text \<open>Every frame takes at least one byte, so the number of bytes bounds the number of frames.\<close>

definition frames :: "'f parser \<Rightarrow> byte list \<Rightarrow> 'f list \<times> byte list" where
  "frames parse b = split_frames parse (length b) b"

fun feed_chunks :: "'f parser \<Rightarrow> byte list \<Rightarrow> byte list list \<Rightarrow> 'f list \<times> byte list" where
  "feed_chunks parse buf [] = ([], buf)"
| "feed_chunks parse buf (c # cs) =
     (let (fs, r) = frames parse (buf @ c); (gs, r') = feed_chunks parse r cs in (fs @ gs, r'))"

section \<open>The contract of a frame format\<close>

locale frame_protocol =
  fixes parse :: "'f parser"
  assumes parse_bounds: "parse b = Some (f, n) \<Longrightarrow> 0 < n \<and> n \<le> length b"
    and parse_prefix: "parse b = Some (f, n) \<Longrightarrow> parse (b @ c) = Some (f, n)"
begin

lemma split_frames_fuel: "length b \<le> k \<Longrightarrow> split_frames parse k b = frames parse b"
  unfolding frames_def
proof (induction "length b" arbitrary: b k rule: less_induct)
  case less
  show ?case
  proof (cases "parse b")
    case None
    then show ?thesis by (cases k; cases "length b") auto
  next
    case (Some fn)
    then obtain f n where fn: "parse b = Some (f, n)" "0 < n" "n \<le> length b"
      using parse_bounds by (cases fn) auto
    then obtain k' l where "k = Suc k'" "length b = Suc l"
      using less.prems by (cases k; cases "length b") auto
    moreover have "split_frames parse k' (drop n b) = split_frames parse l (drop n b)"
      if "length b = Suc l" "k = Suc k'" for k' l
      using less.hyps [of "drop n b" k'] less.hyps [of "drop n b" l] less.prems fn that by simp
    ultimately show ?thesis using fn by simp
  qed
qed

lemma frames_step: "parse b = Some (f, n) \<Longrightarrow>
    frames parse b = (let (fs, r) = frames parse (drop n b) in (f # fs, r))"
  using parse_bounds [of b f n] split_frames_fuel [of "drop n b" "length b - 1"]
  by (cases "length b") (auto simp: frames_def)

lemma frames_stop: "parse b = None \<Longrightarrow> frames parse b = ([], b)"
  by (cases "length b") (auto simp: frames_def)

lemma frames_induct [case_names stop step]:
  assumes "\<And>b. parse b = None \<Longrightarrow> P b"
    and "\<And>b f n. parse b = Some (f, n) \<Longrightarrow> 0 < n \<Longrightarrow> n \<le> length b \<Longrightarrow> P (drop n b) \<Longrightarrow> P b"
  shows "P b"
proof (induction "length b" arbitrary: b rule: less_induct)
  case less
  show ?case
  proof (cases "parse b")
    case (Some fn)
    then obtain f n where fn: "parse b = Some (f, n)" by (cases fn) auto
    then show ?thesis using parse_bounds [OF fn] less.hyps [of "drop n b"] assms(2) [OF fn] by auto
  qed (rule assms(1))
qed

lemma frames_rest: "length (snd (frames parse b)) \<le> length b \<and>
    drop (length b - length (snd (frames parse b))) b = snd (frames parse b)"
proof (induction b rule: frames_induct)
  case (step b f n)
  obtain gs r where fr: "frames parse (drop n b) = (gs, r)" by (cases "frames parse (drop n b)") auto
  have r: "length r \<le> length b - n" "drop (length b - n - length r) (drop n b) = r"
    using step(4) by (simp_all add: fr)
  have "length b - n - length r + n = length b - length r" using r(1) step(3) by simp
  then have "drop (length b - length r) b = r" using r(2) by (simp only: drop_drop)
  with step(1) r(1) show ?case by (simp add: frames_step fr)
qed (simp add: frames_stop)

lemma frames_done: "parse (snd (frames parse b)) = None"
  by (induction b rule: frames_induct) (simp_all add: frames_stop frames_step split_beta Let_def)

lemma frames_append:
  "frames parse (a @ b) =
     (let (fs, r) = frames parse a; (gs, r') = frames parse (r @ b) in (fs @ gs, r'))"
proof (induction a rule: frames_induct)
  case (step a f n)
  have "parse (a @ b) = Some (f, n)" using step(1) parse_prefix by blast
  with step show ?case by (simp add: frames_step Let_def split_beta)
qed (simp add: frames_stop split_beta)

text \<open>The frames do not depend on how the stream was cut into reads.\<close>

lemma feed_chunks_concat: "parse buf = None \<Longrightarrow> feed_chunks parse buf cs = frames parse (buf @ concat cs)"
proof (induction cs arbitrary: buf)
  case (Cons c cs)
  then show ?case
    using Cons.IH [OF frames_done [of "buf @ c"]] frames_append [of "buf @ c" "concat cs"]
    by (simp add: split_beta Let_def)
qed (simp add: frames_stop)

end

section \<open>Reading loops\<close>

text \<open>Handling frames one after the other, and a connection: each read appends a chunk to the buffered bytes and
  drops what the reader consumed.\<close>

fun run_frames :: "('s \<Rightarrow> 'f \<Rightarrow> 's cres) \<Rightarrow> 's \<Rightarrow> 'f list \<Rightarrow> 's cres" where
  "run_frames step s [] = Inr s"
| "run_frames step s (f # fs) = cbind (step s f) (\<lambda>s. run_frames step s fs)"

fun feed_reader :: "('s \<Rightarrow> byte list \<Rightarrow> (nat \<times> 's) cres) \<Rightarrow> 's \<Rightarrow> byte list \<Rightarrow> byte list list \<Rightarrow> ('s \<times> byte list) cres" where
  "feed_reader on_read s buf [] = Inr (s, buf)"
| "feed_reader on_read s buf (c # cs) =
     cbind (on_read s (buf @ c)) (\<lambda>(n, s). feed_reader on_read s (drop n (buf @ c)) cs)"

lemma run_frames_append: "run_frames step s (fs @ gs) = cbind (run_frames step s fs) (\<lambda>s. run_frames step s gs)"
proof (induction fs arbitrary: s)
  case (Cons f fs)
  then show ?case by (cases "step s f") simp_all
qed simp

text \<open>
  The contract of the four reading loops: without a complete frame at the pointer the loop returns what it has
  consumed so far, otherwise it handles the frame and goes on behind it.
\<close>

locale stream_reader = frame_protocol parse for parse :: "'f parser" +
  fixes step :: "'s \<Rightarrow> 'f \<Rightarrow> 's cres"
    and loop :: "byte list \<Rightarrow> nat \<Rightarrow> nat \<Rightarrow> nat \<Rightarrow> 's \<Rightarrow> (nat \<times> 's) cres"
  assumes loop_stop: "p \<le> length blk \<Longrightarrow> parse (drop p blk) = None \<Longrightarrow> loop blk p (length blk - p) n s = Inr (n, s)"
    and loop_step: "p \<le> length blk \<Longrightarrow> parse (drop p blk) = Some (f, k) \<Longrightarrow>
      loop blk p (length blk - p) n s = cbind (step s f) (\<lambda>s. loop blk (p + k) (length blk - (p + k)) (n + k) s)"
begin

definition on_read :: "'s \<Rightarrow> byte list \<Rightarrow> (nat \<times> 's) cres" where
  "on_read s blk = loop blk 0 (length blk) 0 s"

lemma loop_frames:
  assumes "p \<le> length blk" "frames parse (drop p blk) = (fs, r)"
  shows "loop blk p (length blk - p) n s = cmap (\<lambda>s. (n + (length blk - p - length r), s)) (run_frames step s fs)"
  using assms
proof (induction "length blk - p" arbitrary: p n s fs rule: less_induct)
  case less
  show ?case
  proof (cases "parse (drop p blk)")
    case None
    with less.prems show ?thesis by (auto simp: frames_stop loop_stop)
  next
    case (Some x)
    then obtain f k where fk: "parse (drop p blk) = Some (f, k)" by (cases x) auto
    then have k: "0 < k" "k \<le> length blk - p" using parse_bounds [OF fk] by simp_all
    obtain gs where fs: "fs = f # gs" "frames parse (drop (p + k) blk) = (gs, r)"
      using less.prems(2) frames_step [OF fk] by (auto simp: Let_def add.commute split: prod.splits)
    have "length r \<le> length blk - (p + k)" using frames_rest [of "drop (p + k) blk"] fs(2) by simp
    with k less.prems(1) less.hyps [OF _ _ fs(2)] show ?thesis
      by (cases "step s f") (simp_all add: loop_step [OF _ fk] fs(1) add.assoc)
  qed
qed

lemma on_read_frames:
  "frames parse b = (fs, r) \<Longrightarrow> on_read s b = cmap (\<lambda>s. (length b - length r, s)) (run_frames step s fs)"
  using loop_frames [of 0 b fs r 0 s] by (simp add: on_read_def)

lemma feed_frames:
  "parse [] = None \<Longrightarrow> frames parse (concat chunks) = (fs, r) \<Longrightarrow>
   feed_reader on_read s [] chunks = cmap (\<lambda>s. (s, r)) (run_frames step s fs)"
proof -
  have "feed_reader on_read s buf cs = cmap (\<lambda>s. (s, r)) (run_frames step s fs)"
    if "feed_chunks parse buf cs = (fs, r)" for buf cs fs r s
    using that
  proof (induction cs arbitrary: buf fs s)
    case (Cons c cs)
    obtain f1 r1 where 1: "frames parse (buf @ c) = (f1, r1)" by (cases "frames parse (buf @ c)") auto
    then obtain f2 where 2: "feed_chunks parse r1 cs = (f2, r)" "fs = f1 @ f2"
      using Cons.prems by (auto split: prod.splits)
    have "drop (length (buf @ c) - length r1) (buf @ c) = r1" using frames_rest [of "buf @ c"] 1 by simp
    with on_read_frames [OF 1, of s] Cons.IH [OF 2(1)] 2(2) show ?case
      by (cases "run_frames step s f1") (simp_all add: run_frames_append del: drop_append length_append)
  qed simp
  then show "parse [] = None \<Longrightarrow> frames parse (concat chunks) = (fs, r) \<Longrightarrow> ?thesis"
    using feed_chunks_concat [of "[]" chunks] by simp
qed

end

section \<open>The three frame formats\<close>

text \<open>A bus packet: head and as many body bytes as it announces.\<close>

definition bus_parse :: "(MsgBusPackHead \<times> byte list) parser" where
  "bus_parse b =
     (if length b < 16 then None else
      case UnPackHead (new_MsgBusPackHead_raw 0) b 0 0 of
        Inl _ \<Rightarrow> None
      | Inr (_, head) \<Rightarrow>
          if length b < 16 + unat (body_len head) then None
          else Some ((head, take (unat (body_len head)) (drop 16 b)), 16 + unat (body_len head)))"

text \<open>A message sent to a receiver: sync flag, session id, content.\<close>

definition post_parse :: "(byte \<times> u32 \<times> byte list) parser" where
  "post_parse b =
     (if length b < 9 then None else
      let n = unat (htonl (of_mem32 (take 4 (drop 5 b)))) in
      if length b < 9 + n then None
      else Some ((hd b, htonl (of_mem32 (take 4 (drop 1 b))), take n (drop 9 b)), 9 + n))"

text \<open>A receiver's answer: session id, result.\<close>

definition rsp_parse :: "(u32 \<times> byte list) parser" where
  "rsp_parse b =
     (if length b < 8 then None else
      let n = unat (htonl (of_mem32 (take 4 (drop 4 b)))) in
      if length b < 8 + n then None
      else Some ((htonl (of_mem32 (take 4 b)), take n (drop 8 b)), 8 + n))"

lemma cload_append: "cload blk p n = Inr bs \<Longrightarrow> cload (blk @ c) p n = Inr bs"
  by (auto simp: cload_def split: if_splits)

lemma load_append:
  "load8 blk p = Inr v \<Longrightarrow> load8 (blk @ c) p = Inr v"
  "load16 blk p = Inr w \<Longrightarrow> load16 (blk @ c) p = Inr w"
  "load32 blk p = Inr x \<Longrightarrow> load32 (blk @ c) p = Inr x"
  by (auto simp: load8_def load16_def load32_def cmap_eq_Inr intro: cload_append)

lemma UnPackHead_append:
  "UnPackHead m blk p len = Inr r \<Longrightarrow> UnPackHead m (blk @ c) p len = Inr r"
  by (auto simp: UnPackHead_def Let_def cbind_eq_Inr intro!: exI load_append split: if_splits)

lemma UnPackHead_total:
  assumes "p + 16 \<le> length blk"
  shows "\<exists>m'. UnPackHead m blk p 0 = Inr (12, m')"
proof -
  have l: "\<exists>v. load8 blk p = Inr v" "\<exists>v. load16 blk (p + 1) = Inr v" "\<exists>v. load8 blk (p + 3) = Inr v"
    "\<exists>v. load32 blk (p + 4) = Inr v" "\<exists>v. load32 blk (p + 8) = Inr v" "\<exists>v. load32 blk (p + 12) = Inr v"
    using assms by (auto simp: load8_def load16_def load32_def cload_def)
  then show ?thesis by (auto simp: UnPackHead_def Let_def)
qed

interpretation bus_frames: frame_protocol bus_parse
proof
  fix b c f n
  assume p: "bus_parse b = Some (f, n)"
  then show "0 < n \<and> n \<le> length b"
    by (auto simp: bus_parse_def split: if_splits sum.splits)
  from p obtain r head where h: "\<not> length b < 16" "UnPackHead (new_MsgBusPackHead_raw 0) b 0 0 = Inr (r, head)"
    "\<not> length b < 16 + unat (body_len head)" "n = 16 + unat (body_len head)"
    "f = (head, take (unat (body_len head)) (drop 16 b))"
    by (auto simp: bus_parse_def split: if_splits sum.splits)
  moreover have "UnPackHead (new_MsgBusPackHead_raw 0) (b @ c) 0 0 = Inr (r, head)"
    using h(2) by (rule UnPackHead_append)
  ultimately show "bus_parse (b @ c) = Some (f, n)"
    by (simp add: bus_parse_def)
qed

interpretation post_frames: frame_protocol post_parse
  by unfold_locales (auto simp: post_parse_def Let_def hd_append split: if_splits)

interpretation rsp_frames: frame_protocol rsp_parse
  by unfold_locales (auto simp: rsp_parse_def Let_def split: if_splits)

lemma parse_empty: "bus_parse [] = None" "post_parse [] = None" "rsp_parse [] = None"
  by (simp_all add: bus_parse_def post_parse_def rsp_parse_def)

lemma UnPackHead_drop: "UnPackHead m blk p 0 = UnPackHead m (drop p blk) 0 0"
  by (simp add: UnPackHead_def load8_def load16_def load32_def cload_def ac_simps) auto

text \<open>What the frame format finds at a pointer, as the loops read it.\<close>

lemma bus_parse_None:
  assumes "p \<le> length blk" "bus_parse (drop p blk) = None" "\<not> length blk - p < 16"
  obtains head where "UnPackHead (new_MsgBusPackHead_raw 0) blk p 0 = Inr (12, head)" "length blk - p < 16 + unat (body_len head)"
proof -
  obtain head where h: "UnPackHead (new_MsgBusPackHead_raw 0) blk p 0 = Inr (12, head)"
    using UnPackHead_total [of p blk] assms by fastforce
  with assms that show thesis
    by (auto simp: bus_parse_def UnPackHead_drop [of _ blk p] split: if_splits)
qed

lemma bus_parse_Some:
  assumes "p \<le> length blk" "bus_parse (drop p blk) = Some (f, k)"
  obtains head where "UnPackHead (new_MsgBusPackHead_raw 0) blk p 0 = Inr (12, head)" "\<not> length blk - p < 16"
    "k = 16 + unat (body_len head)" "k \<le> length blk - p" "f = (head, take (unat (body_len head)) (drop (p + 16) blk))"
proof -
  have l: "\<not> length blk - p < 16" using assms by (auto simp: bus_parse_def split: if_splits)
  then obtain head where h: "UnPackHead (new_MsgBusPackHead_raw 0) blk p 0 = Inr (12, head)"
    using UnPackHead_total [of p blk] assms by fastforce
  with assms l that show thesis
    by (auto simp: bus_parse_def UnPackHead_drop [of _ blk p] add.commute split: if_splits)
qed

end
