(* ===== verification/Std_Map.thy ===== *)
theory Std_Map
  imports Bus_Prelude "HOL-Library.List_Lexorder"
begin

text \<open>
  The containers the program keeps its tables in. \<open>std::map\<close> iterates in key order, which the server's
  loops observe, so it is an association list sorted by key (strings compare as their unsigned bytes,
  the lexicographic order of byte lists). \<open>boost::unordered_map\<close>, whose order is never observed, is a
  HOL map. The locale \<open>map_container\<close> is the interface both provide.
\<close>

section \<open>Model of std::map\<close>

type_synonym ('k, 'v) std_map = "('k \<times> 'v) list"

fun map_insert :: "'k::linorder \<Rightarrow> 'v \<Rightarrow> ('k, 'v) std_map \<Rightarrow> ('k, 'v) std_map" where
  "map_insert k v [] = [(k, v)]"
| "map_insert k v ((k', v') # m) =
     (if k < k' then (k, v) # (k', v') # m
      else if k = k' then (k, v) # m
      else (k', v') # map_insert k v m)"

fun map_erase :: "'k::linorder \<Rightarrow> ('k, 'v) std_map \<Rightarrow> ('k, 'v) std_map" where
  "map_erase k [] = []"
| "map_erase k ((k', v') # m) = (if k = k' then m else (k', v') # map_erase k m)"

definition map_sorted :: "('k::linorder, 'v) std_map \<Rightarrow> bool" where
  "map_sorted m \<longleftrightarrow> sorted (map fst m) \<and> distinct (map fst m)"

section \<open>The interface of a map\<close>

locale map_container =
  fixes invar :: "'m \<Rightarrow> bool"
    and lookup :: "'m \<Rightarrow> 'k \<Rightarrow> 'v option"
    and insert :: "'k \<Rightarrow> 'v \<Rightarrow> 'm \<Rightarrow> 'm"
    and erase :: "'k \<Rightarrow> 'm \<Rightarrow> 'm"
    and empty :: 'm
  assumes invar_empty: "invar empty"
    and lookup_empty: "lookup empty = Map.empty"
    and invar_insert: "invar m \<Longrightarrow> invar (insert k v m)"
    and lookup_insert: "invar m \<Longrightarrow> lookup (insert k v m) = (lookup m)(k \<mapsto> v)"
    and invar_erase: "invar m \<Longrightarrow> invar (erase k m)"
    and lookup_erase: "invar m \<Longrightarrow> lookup (erase k m) = (lookup m)(k := None)"
begin

lemma insert_other: "invar m \<Longrightarrow> j \<noteq> k \<Longrightarrow> lookup (insert k v m) j = lookup m j"
  by (simp add: lookup_insert)

lemma insert_same: "invar m \<Longrightarrow> lookup (insert k v m) k = Some v"
  by (simp add: lookup_insert)

lemma erase_same: "invar m \<Longrightarrow> lookup (erase k m) k = None"
  by (simp add: lookup_erase)

lemma fold_insert:
  "invar m \<Longrightarrow> invar (fold (\<lambda>(k, v). insert k v) kvs m) \<and>
     lookup (fold (\<lambda>(k, v). insert k v) kvs m) = lookup m ++ map_of (rev kvs)"
proof (induction kvs arbitrary: m)
  case (Cons kv kvs)
  then show ?case
    using Cons.IH [of "insert (fst kv) (snd kv) m"]
    by (auto simp: invar_insert lookup_insert map_add_def split_beta fun_eq_iff split: option.splits)
qed simp

end

section \<open>Lemmas\<close>

lemma map_sorted_Nil [simp]: "map_sorted []"
  by (simp add: map_sorted_def)

lemma map_sorted_Cons [simp]:
  "map_sorted ((k, v) # m) \<longleftrightarrow> map_sorted m \<and> (\<forall>k'\<in>fst ` set m. k < k')"
  by (auto simp: map_sorted_def order_less_le image_iff)

lemma fst_map_insert: "fst ` set (map_insert k v m) = insert k (fst ` set m)"
  by (induction m rule: map_insert.induct) auto

lemma map_sorted_insert [simp]: "map_sorted m \<Longrightarrow> map_sorted (map_insert k v m)"
  by (induction m) (force simp: fst_map_insert)+

lemma map_of_insert: "map_sorted m \<Longrightarrow> map_of (map_insert k v m) = (map_of m)(k \<mapsto> v)"
  by (induction m) (auto simp: fun_eq_iff)

lemma map_insert_last: "\<forall>k' \<in> fst ` set m. k' < k \<Longrightarrow> map_insert k v m = m @ [(k, v)]"
  by (induction m) (auto simp: order_less_not_sym less_imp_neq)

lemma set_map_insert:
  "map_sorted m \<Longrightarrow> set (map_insert k v m) = insert (k, v) {e \<in> set m. fst e \<noteq> k}"
  by (induction m) (force+)

lemma set_map_erase_eq: "map_sorted m \<Longrightarrow> set (map_erase k m) = {e \<in> set m. fst e \<noteq> k}"
proof (induction m)
  case (Cons e m)
  then show ?case by (cases e) (auto dest: bspec)
qed simp

lemma map_sorted_erase [simp]: "map_sorted m \<Longrightarrow> map_sorted (map_erase k m)"
proof (induction m)
  case (Cons e m)
  then show ?case by (cases e) (auto simp: set_map_erase_eq)
qed simp

lemma map_of_erase: "map_sorted m \<Longrightarrow> map_of (map_erase k m) = (map_of m)(k := None)"
proof (induction m)
  case (Cons e m)
  then show ?case
    by (cases e) (force simp: fun_eq_iff map_of_eq_None_iff)
qed simp

interpretation smap: map_container map_sorted map_of map_insert map_erase "[]"
  by unfold_locales (simp_all add: map_of_insert map_of_erase)

interpretation umap: map_container "\<lambda>_. True" "\<lambda>m. m" "\<lambda>k v m. m(k \<mapsto> v)" "\<lambda>k m. m(k := None)" Map.empty
  by unfold_locales simp_all

text \<open>Entries as a set, for invariants over all values of a map.\<close>

lemma map_sorted_distinct: "map_sorted m \<Longrightarrow> distinct (map fst m)"
  by (simp add: map_sorted_def)

lemma map_of_in_set: "map_sorted m \<Longrightarrow> map_of m k = Some v \<longleftrightarrow> (k, v) \<in> set m"
  by (simp add: map_sorted_distinct map_of_eq_Some_iff)

end
