(* ===== verification/Server.thy ===== *)
theory Server
  imports Framing Std_Map
begin

text \<open>
  The message bus server, \<^verbatim>\<open>src/Core/msgbus_server.cpp\<close>: the registry of services and active
  connections, the request handlers, the relay queues and the thread that empties them.

  A \<open>TcpSockSmartPtr\<close> is the object's address (0 is null); \<open>sock_heap\<close> holds what the handlers read of the
  object. \<open>SendData\<close> appends to \<open>outbox\<close>, so the order of all answers is visible. Each handler runs as one
  step: the registry is only changed while \<open>g_activeclients_locker\<close> is held. What is not the program's is
  the record \<open>server_env\<close>: the results of \<open>rand()\<close>, the protocol buffer library's parsing and serialising of
  the query messages, and the bytes an uninitialised name array holds.
\<close>

section \<open>State\<close>

record sock_info =
  si_fd :: int
  si_ip :: "byte list"
  si_port :: u16

record ReqTask =
  rt_client_name :: "byte list"
  rt_data :: "byte list"

type_synonym BroadcastTask = "byte list"

type_synonym TcpSockContainerT = "(int, int) std_map"

record server =
  available_services :: "(byte list, ClientHost list) std_map"
  active_clients :: "(byte list, TcpSockContainerT) std_map"
  tcp_services_map :: "int \<rightharpoonup> ClientHost"
  reqtoclient_task_container :: "ReqTask list"
  broadcast_task_container :: "BroadcastTask list"
  server_terminate :: bool
  sock_heap :: "int \<Rightarrow> sock_info"
  outbox :: "(int \<times> byte list) list"
  rand_calls :: nat

record server_env =
  rnd :: "nat \<Rightarrow> nat"
  pb_parse :: "byte list \<Rightarrow> byte list option"
  pb_serialize :: "byte list list \<Rightarrow> byte list"
  junk_name :: "byte list"

definition deref :: "server \<Rightarrow> int \<Rightarrow> sock_info cres" where
  "deref st sp = (if sp = 0 then Inl NullPointer else Inr (sock_heap st sp))"

definition SendData_to :: "server \<Rightarrow> int \<Rightarrow> byte list \<Rightarrow> server" where
  "SendData_to st sp bs = st\<lparr>outbox := outbox st @ [(sp, bs)]\<rparr>"

text \<open>\<open>if(sp_tcp) sp_tcp->SendData(...)\<close>.\<close>

definition reply :: "server \<Rightarrow> int \<Rightarrow> byte list \<Rightarrow> server" where
  "reply st sp bs = (if sp \<noteq> 0 then SendData_to st sp bs else st)"

section \<open>Helpers\<close>

definition msgbus_queue_reqtoclient :: "server \<Rightarrow> ReqTask \<Rightarrow> server" where
  "msgbus_queue_reqtoclient st t =
     st\<lparr>reqtoclient_task_container := reqtoclient_task_container st @ [t]\<rparr>"

definition msgbus_queue_broadcast :: "server \<Rightarrow> BroadcastTask \<Rightarrow> server" where
  "msgbus_queue_broadcast st t =
     st\<lparr>broadcast_task_container := broadcast_task_container st @ [t]\<rparr>"

definition is_prefix_matching :: "byte list \<Rightarrow> byte list \<Rightarrow> bool" where
  "is_prefix_matching l r =
     (if length l > length r then take (length r) l = r else take (length l) r = l)"

text \<open>\<open>(int)((rand()/(RAND_MAX + 1.0))*size)\<close> with \<open>RAND_MAX\<close> = 2^31 - 1; exact in doubles for these sizes.\<close>

definition RAND_MAX :: nat where "RAND_MAX = 2 ^ 31 - 1"

definition randselect :: "nat \<Rightarrow> nat \<Rightarrow> int" where
  "randselect r n = int (r * n div (RAND_MAX + 1))"

fun select_loop :: "int \<Rightarrow> int \<Rightarrow> TcpSockContainerT \<Rightarrow> int" where
  "select_loop k bestelem [] = bestelem"
| "select_loop k bestelem ((_, sp) # pos) = (if k < 0 then sp else select_loop (k - 1) bestelem pos)"

text \<open>The overload for connections; \<open>None\<close> is the return value false.\<close>

definition select_best_tcp :: "nat \<Rightarrow> TcpSockContainerT \<Rightarrow> int option" where
  "select_best_tcp r container =
     (if length container > 0 then
        let best = select_loop (randselect r (length container)) (snd (hd container)) container in
        if best \<noteq> 0 then Some best else None
      else None)"

definition select_best_host :: "nat \<Rightarrow> ClientHost list \<Rightarrow> ClientHost option cres" where
  "select_best_host r container =
     (if length container > 0 then
        let k = nat (randselect r (length container)) in
        if k < length container then Inr (Some (container ! k)) else Inl OutOfBounds
      else Inr None)"

definition check_register_client :: "server \<Rightarrow> int \<Rightarrow> bool cres" where
  "check_register_client st sp = cbind (deref st sp) (\<lambda>s. Inr (tcp_services_map st (si_fd s) \<noteq> None))"

text \<open>\<open>std::find_first_of\<close> with one host and \<open>ClientHostIsEqual\<close>: the position of the first equal host.\<close>

fun find_host :: "ClientHost list \<Rightarrow> ClientHost \<Rightarrow> nat option" where
  "find_host [] host = None"
| "find_host (h # hs) host = (if ClientHostIsEqual h host then Some 0 else map_option Suc (find_host hs host))"

definition unregister_client_from_service :: "server \<Rightarrow> byte list \<Rightarrow> ClientHost \<Rightarrow> server" where
  "unregister_client_from_service st service_name host =
     (case map_of (available_services st) service_name of
        None \<Rightarrow> st
      | Some hs \<Rightarrow>
         (case find_host hs host of
            None \<Rightarrow> st
          | Some i \<Rightarrow>
             let hs' = take i hs @ drop (Suc i) hs in
             st\<lparr>available_services :=
               (if hs' = [] then map_erase service_name (available_services st)
                else map_insert service_name hs' (available_services st))\<rparr>))"

text \<open>\<open>active_clients[service_name][(long)sp] = sp\<close>; \<open>operator[]\<close> creates the inner map when it is missing.\<close>

definition add_active :: "byte list \<Rightarrow> int \<Rightarrow> (byte list, TcpSockContainerT) std_map
    \<Rightarrow> (byte list, TcpSockContainerT) std_map" where
  "add_active name sp ac =
     map_insert name (map_insert sp sp (case map_of ac name of None \<Rightarrow> [] | Some c \<Rightarrow> c)) ac"

section \<open>Request handlers\<close>

definition process_confirm_alive_req :: "server \<Rightarrow> int \<Rightarrow> MsgBusPackHead \<Rightarrow> byte list \<Rightarrow> server cres" where
  "process_confirm_alive_req st sp head bodybuffer =
     cbind (ConfirmAliveReq_UnPackBody new_MsgBusConfirmAliveReq bodybuffer 0 0) (\<lambda>(_, alive_req).
     let rsp = new_MsgBusConfirmAliveRsp\<lparr>msg_id := msg_id head,
                 carsp_ret_code := ucast (careq_alive_flag alive_req)\<rparr> in
     cbind (ConfirmAliveRsp_PackData rsp (replicate (unat (ConfirmAliveRsp_Size rsp)) 0) 0 0) (\<lambda>(buf, rsp).
       Inr (reply st sp buf)))"

text \<open>
  The registration itself (lines 573 to 628, under the lock). It returns the state, the return code and
  the error text of the response.
\<close>

definition register_host ::
  "server \<Rightarrow> int \<Rightarrow> byte list \<Rightarrow> ClientHost \<Rightarrow> u16 \<Rightarrow> byte list \<Rightarrow> (server \<times> u16 \<times> byte list) cres" where
  "register_host st sp service_name host ret_code errmsg =
     (case map_of (available_services st) service_name of
        Some hs \<Rightarrow>
         (case find_host hs host of
            Some i \<Rightarrow>
              Inr (st\<lparr>available_services := map_insert service_name
                     (hs[i := set_state (hs ! i) (host_state host)]) (available_services st)\<rparr>,
                   ret_code, errmsg)
          | None \<Rightarrow>
              let st = st\<lparr>available_services := map_insert service_name (hs @ [host]) (available_services st),
                         active_clients := add_active service_name sp (active_clients st)\<rparr> in
              cbind (deref st sp) (\<lambda>s.
                Inr (st\<lparr>tcp_services_map := (tcp_services_map st)(si_fd s \<mapsto> host)\<rparr>, ret_code, errmsg)))
      | None \<Rightarrow>
         if host_port host \<noteq> 0 then
           let st = st\<lparr>available_services := map_insert service_name [host] (available_services st),
                      active_clients := add_active service_name sp (active_clients st)\<rparr> in
           cbind (deref st sp) (\<lambda>s.
             Inr (st\<lparr>tcp_services_map := (tcp_services_map st)(si_fd s \<mapsto> host)\<rparr>, ret_code, errmsg))
         else if map_of (active_clients st) service_name \<noteq> None then
           Inr (st, 1, lit ''Register without service port can only be registered once.'')
         else
           let st = st\<lparr>active_clients := add_active service_name sp (active_clients st)\<rparr> in
           cbind (deref st sp) (\<lambda>s.
             Inr (st\<lparr>tcp_services_map := (tcp_services_map st)(si_fd s \<mapsto> host)\<rparr>, ret_code, errmsg)))"

text \<open>
  The assertion on \<open>rsp.err_msg_len\<close> (line 630) holds on every path, the length being 1 or the length of an
  error text plus one; the length is then computed again from the text.
\<close>

definition process_register_req :: "server \<Rightarrow> int \<Rightarrow> MsgBusPackHead \<Rightarrow> byte list \<Rightarrow> server cres" where
  "process_register_req st sp head bodybuffer =
     cbind (RegisterReq_UnPackBody (new_MsgBusRegisterReq (replicate MAX_SERVICE_NAME 0)) bodybuffer 0 0)
       (\<lambda>(_, reg_req).
     cbind (string_of_cstr (rreq_service_name reg_req)) (\<lambda>service_name.
     cbind (strncpy_read MAX_SERVICE_NAME (rreq_service_name reg_req)) (\<lambda>rsp_name.
     cbind
       (if service_name = [] then Inr (st, 1, lit ''empty name is not allowed.'')
        else
          let host = rreq_service_host reg_req in
          if host_ip host = [] then
            if sp \<noteq> 0
            then register_host st sp service_name (set_ip host (si_ip (sock_heap st sp))) 0 []
            else register_host st sp service_name host 1 (lit ''can not get host ip for receiver service.'')
          else register_host st sp service_name host 0 [])
       (\<lambda>(st, ret_code, errmsg).
     let errmsg = errmsg @ [0];
         rsp = (new_MsgBusRegisterRsp ret_code rsp_name)
                 \<lparr>msg_id := msg_id head, rrsp_err_msg_len := of_nat (length errmsg)\<rparr>;
         rsp = RegisterRsp_SetVarData rsp (Some errmsg) in
     cbind (RegisterRsp_PackData rsp (replicate (unat (RegisterRsp_Size rsp)) 0) 0 0) (\<lambda>(outbuffer, rsp).
       Inr (reply st sp outbuffer))))))"

definition process_unregister_req :: "server \<Rightarrow> int \<Rightarrow> MsgBusPackHead \<Rightarrow> byte list \<Rightarrow> server cres" where
  "process_unregister_req st sp head bodybuffer =
     cbind (UnRegisterReq_UnPackBody (new_MsgBusUnRegisterReq (replicate MAX_SERVICE_NAME 0)) bodybuffer 0 0)
       (\<lambda>(_, unreg_req).
     cbind (string_of_cstr (ureq_service_name unreg_req)) (\<lambda>service_name.
     if service_name = [] then Inr st
     else
       let host = ureq_service_host unreg_req in
       if host_ip host = [] then
         if sp \<noteq> 0
         then Inr (unregister_client_from_service st service_name (set_ip host (si_ip (sock_heap st sp))))
         else Inr st
       else Inr (unregister_client_from_service st service_name host)))"

text \<open>The search of lines 687 to 699.\<close>

fun dest_exists :: "(byte list, TcpSockContainerT) std_map \<Rightarrow> byte list \<Rightarrow> bool" where
  "dest_exists [] dest_name = False"
| "dest_exists ((name, socks) # cit) dest_name =
     (if is_prefix_matching name dest_name \<and> length socks > 0 then True else dest_exists cit dest_name)"

definition process_sendmsg_req :: "server_env \<Rightarrow> server \<Rightarrow> int \<Rightarrow> MsgBusPackHead \<Rightarrow> byte list \<Rightarrow> server cres" where
  "process_sendmsg_req env st sp head bodybuffer =
     cbind (SendMsgReq_UnPackBody (new_MsgBusSendMsgReq (junk_name env) (junk_name env)) bodybuffer 0 (unat (body_len head))) (\<lambda>(_, req).
     cbind (string_of_cstr (smreq_dest_name req)) (\<lambda>dest_name.
     cbind
       (if dest_exists (active_clients st) dest_name then
          cbind (SendMsgReq_PackData req (replicate (unat (SendMsgReq_Size req)) 0) 0 0) (\<lambda>(outbuffer, req).
            Inr (if dest_name = [] then msgbus_queue_broadcast st outbuffer
                 else msgbus_queue_reqtoclient st \<lparr>rt_client_name = dest_name, rt_data = outbuffer\<rparr>, 0, []))
        else Inr (st, 1, lit ''dest client not found.''))
       (\<lambda>(st, ret_code, errmsg).
     let errmsg = errmsg @ [0];
         rsp = (new_MsgBusSendMsgRsp ret_code)
                 \<lparr>msg_id := msg_id head, smrsp_err_msg_len := of_nat (length errmsg)\<rparr>;
         rsp = SendMsgRsp_SetVarData rsp (Some errmsg) in
     cbind (SendMsgRsp_PackData rsp (replicate (unat (SendMsgRsp_Size rsp)) 0) 0 0) (\<lambda>(rspbuffer, rsp).
       Inr (reply st sp rspbuffer)))))"

definition process_getclient_req ::
  "server_env \<Rightarrow> server \<Rightarrow> int \<Rightarrow> MsgBusPackHead \<Rightarrow> byte list \<Rightarrow> server cres" where
  "process_getclient_req env st sp head bodybuffer =
     cbind (GetClientReq_UnPackBody (new_MsgBusGetClientReq (replicate MAX_SERVICE_NAME 0)) bodybuffer 0 0)
       (\<lambda>(_, req).
     cbind (string_of_cstr (gcreq_dest_name req)) (\<lambda>dest_name.
     cbind (strncpy_read MAX_SERVICE_NAME (gcreq_dest_name req)) (\<lambda>rsp_name.
     cbind
       (case map_of (available_services st) dest_name of
          None \<Rightarrow> Inr (st, None)
        | Some hs \<Rightarrow>
           cbind (select_best_host (rnd env (rand_calls st)) hs) (\<lambda>r.
             Inr (if length hs > 0 then st\<lparr>rand_calls := Suc (rand_calls st)\<rparr> else st, r)))
       (\<lambda>(st, r).
     let rsp = (new_MsgBusGetClientRsp (case r of Some _ \<Rightarrow> 0 | None \<Rightarrow> 1) rsp_name)\<lparr>msg_id := msg_id head\<rparr>;
         rsp = (case r of Some host \<Rightarrow> rsp\<lparr>gcrsp_dest_host := host\<rparr> | None \<Rightarrow> rsp) in
     cbind (GetClientRsp_PackData rsp (replicate (unat (GetClientRsp_Size rsp)) 0) 0 0) (\<lambda>(outbuffer, rsp).
       Inr (reply st sp outbuffer))))))"

fun matching_services :: "(byte list, ClientHost list) std_map \<Rightarrow> byte list \<Rightarrow> byte list list" where
  "matching_services [] pat = []"
| "matching_services ((name, _) # cit) pat =
     (if str_find name pat \<noteq> None then name # matching_services cit pat else matching_services cit pat)"

definition onQueryServicesReq ::
  "server_env \<Rightarrow> server \<Rightarrow> int \<Rightarrow> MsgBusPackHead \<Rightarrow> byte list \<Rightarrow> server cres" where
  "onQueryServicesReq env st sp head match_prefix =
     (let data = pb_serialize env (matching_services (available_services st) match_prefix);
          pbtype = lit ''NetMsgBus.PBQueryServicesRsp'' @ [0];
          packpb = (new_MsgBusPackPBType (of_nat (length pbtype)) (of_nat (length data)))\<lparr>msg_id := msg_id head\<rparr>;
          packpb = PBType_SetVarData packpb (Some pbtype) (Some data) in
      cbind (PBType_PackData packpb (replicate (unat (PBType_Size packpb)) 0) 0 (unat (PBType_Size packpb)))
        (\<lambda>(outbuffer, packpb). Inr (reply st sp outbuffer)))"

text \<open>
  The only handler \<open>main\<close> puts into \<open>s_pb_handlers\<close> is the one for \<open>PBQueryServicesReq\<close>; \<open>onPbData\<close> calls it
  when the library can parse the data. \<open>std::string\<close> from a null pointer throws.
\<close>

definition process_pbbody_data ::
  "server_env \<Rightarrow> server \<Rightarrow> int \<Rightarrow> MsgBusPackHead \<Rightarrow> byte list \<Rightarrow> server cres" where
  "process_pbbody_data env st sp head bodybuffer =
     cbind (PBType_UnPackBody (new_MsgBusPackPBType 0 0) bodybuffer 0 (unat (body_len head))) (\<lambda>(_, pbbody).
     case pb_pbtype pbbody of None \<Rightarrow> Inl NullPointer | Some t \<Rightarrow>
     cbind (string_of_cstr t) (\<lambda>pbtype.
     case pb_pbdata pbbody of None \<Rightarrow> Inl NullPointer | Some pbdata \<Rightarrow>
     if pbtype = lit ''NetMsgBus.PBQueryServicesReq'' then
       (case pb_parse env pbdata of
          Some match_prefix \<Rightarrow> onQueryServicesReq env st sp head match_prefix
        | None \<Rightarrow> Inr st)
     else Inr st))"

definition process_data_from_client ::
  "server_env \<Rightarrow> server \<Rightarrow> int \<Rightarrow> MsgBusPackHead \<Rightarrow> byte list \<Rightarrow> server cres" where
  "process_data_from_client env st sp head bodybuffer =
     (if msg_type head = 0 then
        cbind (check_register_client st sp) (\<lambda>check_reg.
        if body_type head \<noteq> REQ_REGISTER \<and> body_type head \<noteq> REQ_CONFIRM_ALIVE \<and> \<not> check_reg then Inr st
        else if body_type head = REQ_REGISTER then process_register_req st sp head bodybuffer
        else if body_type head = REQ_GETCLIENT then process_getclient_req env st sp head bodybuffer
        else if body_type head = REQ_SENDMSG then process_sendmsg_req env st sp head bodybuffer
        else if body_type head = REQ_UNREGISTER then process_unregister_req st sp head bodybuffer
        else if body_type head = REQ_CONFIRM_ALIVE then process_confirm_alive_req st sp head bodybuffer
        else if body_type head = BODY_PBTYPE then process_pbbody_data env st sp head bodybuffer
        else Inr st)
      else Inr st)"

section \<open>Connection callbacks\<close>

text \<open>
  The read loop. It returns the number of consumed bytes and the packets it hands to the thread pool
  (each becomes a call of \<open>process_data_from_client\<close>), in order.
\<close>

function server_read_loop ::
  "byte list \<Rightarrow> nat \<Rightarrow> nat \<Rightarrow> nat \<Rightarrow> (nat \<times> (MsgBusPackHead \<times> byte list) list) cres" where
  "server_read_loop blk pdata sz readedlen =
     (if sz < 16 then Inr (readedlen, []) else
      cbind (UnPackHead (new_MsgBusPackHead_raw 0) blk pdata 0) (\<lambda>(r, head).
      if r = - 1 then Inr (readedlen, []) else
      let needlen = 16 + unat (body_len head) in
      if sz < needlen then Inr (readedlen, [])
      else if body_len head = 0 then Inl AssertFailed
      else
        cbind (cload blk (pdata + 16) (unat (body_len head))) (\<lambda>bodybuffer.
        cmap (\<lambda>(n, tasks). (n, (head, bodybuffer) # tasks))
          (server_read_loop blk (pdata + needlen) (sz - needlen) (readedlen + needlen)))))"
  by pat_completeness auto
termination
  by (relation "measure (\<lambda>(blk, pdata, sz, readedlen). sz)") auto

declare server_read_loop.simps [simp del]

definition server_onRead :: "byte list \<Rightarrow> (nat \<times> (MsgBusPackHead \<times> byte list) list) cres" where
  "server_onRead data = server_read_loop data 0 (length data) 0"

text \<open>The loop of \<open>server_onClose\<close>: the first service whose connections contain the socket.\<close>

fun find_active :: "(byte list, TcpSockContainerT) std_map \<Rightarrow> int \<Rightarrow> (byte list \<times> TcpSockContainerT) option" where
  "find_active [] sp = None"
| "find_active ((name, socks) # it) sp =
     (if map_of socks sp \<noteq> None then Some (name, socks) else find_active it sp)"

definition server_onClose :: "server \<Rightarrow> int \<Rightarrow> server cres" where
  "server_onClose st sp =
     (case find_active (active_clients st) sp of
        None \<Rightarrow> Inr (unregister_client_from_service st [] ClientHost_default)
      | Some (service_name, socks) \<Rightarrow>
         cbind (deref st sp) (\<lambda>s.
         cbind (deref st (the (map_of socks sp))) (\<lambda>s'.
         if si_fd s \<noteq> si_fd s' then Inl AssertFailed else
         let host = (case tcp_services_map st (si_fd s) of Some h \<Rightarrow> h | None \<Rightarrow> ClientHost_default);
             socks' = map_erase sp socks;
             st = st\<lparr>tcp_services_map := (tcp_services_map st)(si_fd s := None),
                    active_clients := (if socks' = [] then map_erase service_name (active_clients st)
                                       else map_insert service_name socks' (active_clients st))\<rparr> in
         Inr (unregister_client_from_service st service_name host))))"

definition server_onError :: "server \<Rightarrow> int \<Rightarrow> server cres" where
  "server_onError st sp = server_onClose st sp"

text \<open>\<open>sp_tcp->Close()\<close> leaves the descriptor -1 in the object.\<close>

definition server_onTimeout :: "server \<Rightarrow> int \<Rightarrow> server cres" where
  "server_onTimeout st sp =
     cbind (server_onClose st sp) (\<lambda>st.
     cbind (deref st sp) (\<lambda>s.
       Inr (st\<lparr>sock_heap := (sock_heap st)(sp := s\<lparr>si_fd := - 1\<rparr>)\<rparr>)))"

section \<open>Threads\<close>

text \<open>
  One round of the accept loop (lines 316 to 369): the result of \<open>select\<close> is negative on error, zero on
  timeout; \<open>conn\<close> is the accepted connection, if any. The result is the state, the counter and
  whether the loop goes on.
\<close>

definition accept_loop_step ::
  "server \<Rightarrow> nat \<Rightarrow> int \<Rightarrow> (int \<times> sock_info) option \<Rightarrow> server \<times> nat \<times> bool" where
  "accept_loop_step st noclient_quit_cnt result conn =
     (if result = - 1 then (st, noclient_quit_cnt, True) else
      let (st, cnt) =
        (if active_clients st = [] then
           (if noclient_quit_cnt + 1 > 15 then st\<lparr>server_terminate := True\<rparr> else st, noclient_quit_cnt + 1)
         else (st, 0)) in
      if server_terminate st then (st, cnt, False)
      else if result = 0 then (st, cnt, True)
      else (case conn of
          Some (sp, info) \<Rightarrow> (st\<lparr>sock_heap := (sock_heap st)(sp := info)\<rparr>, cnt, True)
        | None \<Rightarrow> (st, cnt, True)))"

text \<open>The receivers of one request (lines 871 to 888): one connection of every matching service.\<close>

fun collect_dest ::
  "server_env \<Rightarrow> byte list \<Rightarrow> (byte list, TcpSockContainerT) std_map \<Rightarrow> nat \<Rightarrow> TcpSockContainerT
    \<Rightarrow> TcpSockContainerT \<times> nat" where
  "collect_dest env client_name [] calls dest = (dest, calls)"
| "collect_dest env client_name ((name, socks) # cit) calls dest =
     (if is_prefix_matching name client_name then
        collect_dest env client_name cit (if length socks > 0 then Suc calls else calls)
          (case select_best_tcp (rnd env calls) socks of Some sp \<Rightarrow> map_insert sp sp dest | None \<Rightarrow> dest)
      else collect_dest env client_name cit calls dest)"

definition send_all :: "server \<Rightarrow> TcpSockContainerT \<Rightarrow> byte list \<Rightarrow> server" where
  "send_all st dest data = fold (\<lambda>(_, sp) st. reply st sp data) dest st"

definition run_reqtask :: "server_env \<Rightarrow> ReqTask \<Rightarrow> server \<Rightarrow> server" where
  "run_reqtask env t st =
     (let (dest, calls) = collect_dest env (rt_client_name t) (active_clients st) (rand_calls st) [] in
      send_all (st\<lparr>rand_calls := calls\<rparr>) dest (rt_data t))"

text \<open>A broadcast keeps one chosen connection per service (lines 904 to 918).\<close>

fun collect_all ::
  "server_env \<Rightarrow> (byte list, TcpSockContainerT) std_map \<Rightarrow> nat \<Rightarrow> (byte list, TcpSockContainerT) std_map
    \<Rightarrow> (byte list, TcpSockContainerT) std_map \<times> nat" where
  "collect_all env [] calls allclients = (allclients, calls)"
| "collect_all env ((name, socks) # cit) calls allclients =
     collect_all env cit (if length socks > 0 then Suc calls else calls)
       (case select_best_tcp (rnd env calls) socks of
          Some sp \<Rightarrow> add_active name sp allclients | None \<Rightarrow> allclients)"

definition run_broadcast :: "server_env \<Rightarrow> BroadcastTask \<Rightarrow> server \<Rightarrow> server" where
  "run_broadcast env data st =
     (let (allclients, calls) = collect_all env (active_clients st) (rand_calls st) [] in
      fold (\<lambda>(_, socks) st. send_all st socks data) allclients (st\<lparr>rand_calls := calls\<rparr>))"

text \<open>
  One round of \<open>msgbus_process_thread\<close>: \<open>None\<close> when the thread returns; with both queues empty it waits.
\<close>

definition msgbus_process_round :: "server_env \<Rightarrow> server \<Rightarrow> server option" where
  "msgbus_process_round env st =
     (if server_terminate st then None
      else
        let reqs = reqtoclient_task_container st; bcasts = broadcast_task_container st in
        Some (fold (run_broadcast env) bcasts
               (fold (run_reqtask env) reqs
                 (st\<lparr>reqtoclient_task_container := [], broadcast_task_container := []\<rparr>))))"

end
