(* ===== verification/Server_Registry.thy ===== *)
theory Server_Registry
  imports Server
begin

text \<open>
  Invariant and behaviour of the server's registry: every handler and callback keeps the registry
  well-formed (by induction over all runs of the server), registering makes a host available, closing a
  connection removes it, and the selection functions pick an element of what they are given.
\<close>

section \<open>Invariant\<close>

definition hosts_ok :: "ClientHost list \<Rightarrow> bool" where
  "hosts_ok hs \<longleftrightarrow> hs \<noteq> [] \<and> distinct (map (\<lambda>h. (ip_v h, port_v h)) hs)"

definition socks_ok :: "TcpSockContainerT \<Rightarrow> bool" where
  "socks_ok socks \<longleftrightarrow> socks \<noteq> [] \<and> map_sorted socks \<and> list_all (\<lambda>(k, sp). k = sp \<and> sp \<noteq> 0) socks"

definition registry_inv :: "server \<Rightarrow> bool" where
  "registry_inv st \<longleftrightarrow>
     map_sorted (available_services st) \<and> map_sorted (active_clients st) \<and>
     list_all (\<lambda>(name, hs). name \<noteq> [] \<and> hosts_ok hs) (available_services st) \<and>
     list_all (\<lambda>(name, socks). name \<noteq> [] \<and> socks_ok socks) (active_clients st)"

definition server_init :: "(int \<Rightarrow> sock_info) \<Rightarrow> server" where
  "server_init heap = \<lparr>available_services = [], active_clients = [], tcp_services_map = Map.empty,
     reqtoclient_task_container = [], broadcast_task_container = [], server_terminate = False,
     sock_heap = heap, outbox = [], rand_calls = 0\<rparr>"

section \<open>Runs of the server\<close>

inductive server_step :: "server_env \<Rightarrow> server \<Rightarrow> server \<Rightarrow> bool" for env where
  handle: "process_data_from_client env st sp head body = Inr st' \<Longrightarrow> server_step env st st'"
| close: "server_onClose st sp = Inr st' \<Longrightarrow> server_step env st st'"
| error: "server_onError st sp = Inr st' \<Longrightarrow> server_step env st st'"
| timeout: "server_onTimeout st sp = Inr st' \<Longrightarrow> server_step env st st'"
| accept: "accept_loop_step st cnt result conn = (st', cnt', go_on) \<Longrightarrow> server_step env st st'"
| relay: "msgbus_process_round env st = Some st' \<Longrightarrow> server_step env st st'"

inductive_cases server_stepE: "server_step env st st'"

locale step_invariant =
  fixes step :: "'s \<Rightarrow> 's \<Rightarrow> bool" and inv :: "'s \<Rightarrow> bool"
  assumes preserved: "step s t \<Longrightarrow> inv s \<Longrightarrow> inv t"
begin

lemma reachable_inv: "step\<^sup>*\<^sup>* s t \<Longrightarrow> inv s \<Longrightarrow> inv t"
  by (induction rule: rtranclp_induct) (auto intro: preserved)

end

section \<open>Lemmas\<close>

subsection \<open>Frame conditions\<close>

lemma registry_inv_cong:
  "available_services st' = available_services st \<Longrightarrow> active_clients st' = active_clients st \<Longrightarrow>
   registry_inv st' = registry_inv st"
  by (simp add: registry_inv_def)

lemma reply_simps [simp]:
  "available_services (reply st sp bs) = available_services st"
  "active_clients (reply st sp bs) = active_clients st"
  "tcp_services_map (reply st sp bs) = tcp_services_map st"
  "reqtoclient_task_container (reply st sp bs) = reqtoclient_task_container st"
  "broadcast_task_container (reply st sp bs) = broadcast_task_container st"
  "sock_heap (reply st sp bs) = sock_heap st"
  "server_terminate (reply st sp bs) = server_terminate st"
  "rand_calls (reply st sp bs) = rand_calls st"
  "server_terminate (reply st sp bs) = server_terminate st"
  by (simp_all add: reply_def SendData_to_def)

lemma outbox_reply: "sp \<noteq> 0 \<Longrightarrow> outbox (reply st sp bs) = outbox st @ [(sp, bs)]"
  by (simp add: reply_def SendData_to_def)

lemma registry_inv_reply [simp]: "registry_inv (reply st sp bs) = registry_inv st"
  by (rule registry_inv_cong) simp_all

lemma registry_inv_queue [simp]:
  "registry_inv (msgbus_queue_broadcast st b) = registry_inv st"
  "registry_inv (msgbus_queue_reqtoclient st t) = registry_inv st"
  by (simp_all add: registry_inv_def msgbus_queue_broadcast_def msgbus_queue_reqtoclient_def)

lemma registry_inv_update [simp]:
  "registry_inv (st\<lparr>rand_calls := n\<rparr>) = registry_inv st"
  "registry_inv (st\<lparr>tcp_services_map := m\<rparr>) = registry_inv st"
  "registry_inv (st\<lparr>sock_heap := h\<rparr>) = registry_inv st"
  "registry_inv (st\<lparr>server_terminate := b\<rparr>) = registry_inv st"
  "registry_inv (st\<lparr>reqtoclient_task_container := r, broadcast_task_container := q\<rparr>) = registry_inv st"
  by (simp_all add: registry_inv_def)

subsection \<open>Host lists\<close>

lemma find_host_Some:
  "find_host hs host = Some i \<Longrightarrow> i < length hs \<and> ClientHostIsEqual (hs ! i) host"
  by (induction hs arbitrary: i) (auto split: if_splits)

lemma find_host_None: "find_host hs host = None \<longleftrightarrow> (\<forall>h\<in>set hs. \<not> ClientHostIsEqual h host)"
  by (induction hs) auto

lemma find_host_mem: "find_host hs host = Some i \<Longrightarrow> hs ! i \<in> set hs"
  using find_host_Some nth_mem by blast

lemma hosts_ok_single [simp]: "hosts_ok [h]"
  by (simp add: hosts_ok_def)

lemma hosts_ok_append: "hosts_ok hs \<Longrightarrow> find_host hs host = None \<Longrightarrow> hosts_ok (hs @ [host])"
  by (auto simp: hosts_ok_def find_host_None ClientHostIsEqual_iff)

lemma hosts_ok_set_state: "hosts_ok hs \<Longrightarrow> i < length hs \<Longrightarrow> hosts_ok (hs[i := set_state (hs ! i) s])"
proof -
  assume "hosts_ok hs" "i < length hs"
  moreover have "map (\<lambda>h. (ip_v h, port_v h)) (hs[i := set_state (hs ! i) s])
      = map (\<lambda>h. (ip_v h, port_v h)) hs"
    using \<open>i < length hs\<close> by (simp add: map_update set_state_def list_update_same_conv)
  ultimately show ?thesis by (auto simp: hosts_ok_def simp del: map_update)
qed

lemma split_nth:
  assumes "i < length xs"
  obtains a b where "xs = a @ (xs ! i) # b" "take i xs @ drop (Suc i) xs = a @ b"
  using assms that [of "take i xs" "drop (Suc i) xs"] by (simp add: id_take_nth_drop [symmetric])

lemma hosts_ok_remove:
  assumes "hosts_ok hs" "i < length hs" "take i hs @ drop (Suc i) hs \<noteq> []"
  shows "hosts_ok (take i hs @ drop (Suc i) hs)"
proof -
  obtain x a b where hs: "hs = a @ x # b" "take i hs @ drop (Suc i) hs = a @ b"
    using split_nth [OF assms(2)] by metis
  with assms(1,3) show ?thesis by (auto simp: hosts_ok_def hs(2))
qed

subsection \<open>Preservation\<close>

lemma inv_hosts:
  "registry_inv st \<Longrightarrow> map_of (available_services st) name = Some hs \<Longrightarrow> name \<noteq> [] \<and> hosts_ok hs"
  by (auto simp: registry_inv_def list_all_iff dest!: map_of_SomeD)

lemma inv_socks:
  "registry_inv st \<Longrightarrow> map_of (active_clients st) name = Some socks \<Longrightarrow> name \<noteq> [] \<and> socks_ok socks"
  by (auto simp: registry_inv_def list_all_iff dest!: map_of_SomeD)

lemma inv_put_hosts:
  "registry_inv st \<Longrightarrow> name \<noteq> [] \<Longrightarrow> hosts_ok hs \<Longrightarrow>
   registry_inv (st\<lparr>available_services := map_insert name hs (available_services st)\<rparr>)"
  by (auto simp: registry_inv_def list_all_iff set_map_insert)

lemma inv_erase_hosts:
  "registry_inv st \<Longrightarrow>
   registry_inv (st\<lparr>available_services := map_erase name (available_services st)\<rparr>)"
  by (auto simp: registry_inv_def list_all_iff set_map_erase_eq)

lemma inv_put_socks:
  "registry_inv st \<Longrightarrow> name \<noteq> [] \<Longrightarrow> socks_ok socks \<Longrightarrow>
   registry_inv (st\<lparr>active_clients := map_insert name socks (active_clients st)\<rparr>)"
  by (auto simp: registry_inv_def list_all_iff set_map_insert)

lemma inv_erase_socks:
  "registry_inv st \<Longrightarrow> registry_inv (st\<lparr>active_clients := map_erase name (active_clients st)\<rparr>)"
  by (auto simp: registry_inv_def list_all_iff set_map_erase_eq)

lemma map_insert_not_Nil [simp]: "map_insert k v m \<noteq> []"
  by (induction k v m rule: map_insert.induct) auto

lemma socks_ok_insert: "(socks = [] \<or> socks_ok socks) \<Longrightarrow> sp \<noteq> 0 \<Longrightarrow> socks_ok (map_insert sp sp socks)"
  by (auto simp: socks_ok_def list_all_iff set_map_insert)

lemma socks_ok_erase: "socks_ok socks \<Longrightarrow> map_erase sp socks \<noteq> [] \<Longrightarrow> socks_ok (map_erase sp socks)"
  by (auto simp: socks_ok_def list_all_iff set_map_erase_eq)

lemma inv_add_active:
  assumes "registry_inv st" "name \<noteq> []" "sp \<noteq> 0"
  shows "registry_inv (st\<lparr>active_clients := add_active name sp (active_clients st)\<rparr>)"
  unfolding add_active_def
  using assms inv_socks [OF assms(1)]
  by (intro inv_put_socks socks_ok_insert) (auto split: option.splits)

lemma unregister_inv:
  assumes "registry_inv st"
  shows "registry_inv (unregister_client_from_service st name host)"
  using inv_hosts [OF assms] find_host_Some
  by (auto simp: unregister_client_from_service_def Let_def assms
      intro!: inv_put_hosts inv_erase_hosts hosts_ok_remove split: option.splits)

lemma unregister_active [simp]:
  "active_clients (unregister_client_from_service st name host) = active_clients st"
  "tcp_services_map (unregister_client_from_service st name host) = tcp_services_map st"
  "sock_heap (unregister_client_from_service st name host) = sock_heap st"
  by (auto simp: unregister_client_from_service_def Let_def split: option.splits)

lemma inv_add_service:
  assumes "registry_inv st" "name \<noteq> []" "sp \<noteq> 0" "hosts_ok hs"
  shows "registry_inv (st\<lparr>available_services := map_insert name hs (available_services st),
    active_clients := add_active name sp (active_clients st)\<rparr>)"
  using inv_add_active [OF inv_put_hosts [OF assms(1,2,4)] assms(2,3)] by simp

lemma inv_update_tcp: "registry_inv st \<Longrightarrow> registry_inv (st\<lparr>tcp_services_map := m\<rparr>)"
  by simp

lemma register_host_inv:
  assumes inv: "registry_inv st" and name: "name \<noteq> []"
    and reg: "register_host st sp name host r e = Inr (st', r', e')"
  shows "registry_inv st'"
proof (cases "map_of (available_services st) name")
  case None
  with reg inv name show ?thesis
    by (auto simp: register_host_def Let_def deref_def
          intro!: inv_update_tcp inv_add_service inv_add_active split: if_splits)
next
  case (Some hs)
  note hs = inv_hosts [OF inv Some]
  show ?thesis
  proof (cases "find_host hs host")
    case None
    with reg inv name Some hs hosts_ok_append [of hs host] show ?thesis
      by (auto simp: register_host_def Let_def deref_def intro!: inv_update_tcp inv_add_service
            split: if_splits)
  next
    case (Some i)
    with reg inv name \<open>map_of (available_services st) name = _\<close> hs find_host_Some [OF Some]
    show ?thesis
      by (auto simp: register_host_def intro!: inv_put_hosts hosts_ok_set_state)
  qed
qed

lemma process_register_inv:
  "registry_inv st \<Longrightarrow> process_register_req st sp head body = Inr st' \<Longrightarrow> registry_inv st'"
  unfolding process_register_req_def Let_def
  by (elim cbindE) (auto dest: register_host_inv split: if_splits prod.splits elim!: cbindE)

lemma process_unregister_inv:
  "registry_inv st \<Longrightarrow> process_unregister_req st sp head body = Inr st' \<Longrightarrow> registry_inv st'"
  unfolding process_unregister_req_def Let_def
  by (elim cbindE) (auto simp: unregister_inv split: if_splits prod.splits elim!: cbindE)

text \<open>The handlers that only read the registry.\<close>

definition same_registry :: "server \<Rightarrow> server \<Rightarrow> bool" where
  "same_registry st st' \<longleftrightarrow> available_services st' = available_services st \<and>
     active_clients st' = active_clients st \<and> tcp_services_map st' = tcp_services_map st \<and>
     sock_heap st' = sock_heap st \<and> server_terminate st' = server_terminate st"

lemma same_registry_inv: "same_registry st st' \<Longrightarrow> registry_inv st' = registry_inv st"
  by (rule registry_inv_cong) (simp_all add: same_registry_def)

lemma same_registry_reply [simp]: "same_registry st (reply st' sp bs) = same_registry st st'"
  by (simp add: same_registry_def)

lemma same_registry_simps [simp]:
  "same_registry st st" "same_registry st (st\<lparr>rand_calls := n\<rparr>)"
  "same_registry st (msgbus_queue_broadcast st b)" "same_registry st (msgbus_queue_reqtoclient st t)"
  by (simp_all add: same_registry_def msgbus_queue_broadcast_def msgbus_queue_reqtoclient_def)

lemma process_sendmsg_same:
  "process_sendmsg_req env st sp head body = Inr st' \<Longrightarrow> same_registry st st'"
  unfolding process_sendmsg_req_def Let_def
  by (elim cbindE) (auto split: if_splits prod.splits elim!: cbindE)

lemma process_getclient_same:
  "process_getclient_req env st sp head body = Inr st' \<Longrightarrow> same_registry st st'"
  unfolding process_getclient_req_def Let_def
  by (elim cbindE) (auto split: if_splits prod.splits option.splits elim!: cbindE)

lemma process_confirm_alive_same:
  "process_confirm_alive_req st sp head body = Inr st' \<Longrightarrow> same_registry st st'"
  unfolding process_confirm_alive_req_def Let_def
  by (elim cbindE) (auto split: prod.splits elim!: cbindE)

lemma onQueryServices_same: "onQueryServicesReq env st sp head pat = Inr st' \<Longrightarrow> same_registry st st'"
  unfolding onQueryServicesReq_def Let_def
  by (elim cbindE) (auto split: prod.splits)

lemma process_pbbody_same:
  "process_pbbody_data env st sp head body = Inr st' \<Longrightarrow> same_registry st st'"
  unfolding process_pbbody_data_def
  by (elim cbindE)
     (auto split: prod.splits option.splits if_splits elim!: cbindE dest: onQueryServices_same)

lemmas read_only_handlers = process_sendmsg_same process_getclient_same
  process_confirm_alive_same process_pbbody_same

lemma process_data_inv:
  assumes "registry_inv st" "process_data_from_client env st sp head body = Inr st'"
  shows "registry_inv st'"
  using assms unfolding process_data_from_client_def
  by (auto split: if_splits elim!: cbindE dest: process_register_inv process_unregister_inv
        read_only_handlers [THEN same_registry_inv])

subsection \<open>Callbacks and threads\<close>

lemma find_active_Some:
  "find_active ac sp = Some (name, socks) \<Longrightarrow> (name, socks) \<in> set ac \<and> map_of socks sp \<noteq> None"
  by (induction ac) (auto split: if_splits)

lemma find_active_None:
  "find_active ac sp = None \<longleftrightarrow> (\<forall>(name, socks)\<in>set ac. map_of socks sp = None)"
  by (induction ac) (auto split: if_splits)

lemma server_onClose_inv:
  assumes inv: "registry_inv st" and c: "server_onClose st sp = Inr st'"
  shows "registry_inv st'"
proof (cases "find_active (active_clients st) sp")
  case None
  with inv c show ?thesis by (auto simp: server_onClose_def unregister_inv)
next
  case (Some e)
  then obtain name socks where e: "find_active (active_clients st) sp = Some (name, socks)"
    by (cases e) auto
  have ok: "name \<noteq> [] \<and> socks_ok socks"
    using inv find_active_Some [OF e] by (auto simp: registry_inv_def list_all_iff)
  have "registry_inv (st\<lparr>active_clients := (if map_erase sp socks = []
      then map_erase name (active_clients st)
      else map_insert name (map_erase sp socks) (active_clients st))\<rparr>)"
    using inv ok by (auto intro: inv_put_socks inv_erase_socks socks_ok_erase)
  then have "registry_inv (st\<lparr>tcp_services_map := m, active_clients := (if map_erase sp socks = []
      then map_erase name (active_clients st)
      else map_insert name (map_erase sp socks) (active_clients st))\<rparr>)" for m
    by (auto simp: registry_inv_def)
  with e c show ?thesis
    by (auto simp: server_onClose_def Let_def intro!: unregister_inv elim!: cbindE split: if_splits)
qed

lemma server_onTimeout_inv:
  "registry_inv st \<Longrightarrow> server_onTimeout st sp = Inr st' \<Longrightarrow> registry_inv st'"
  unfolding server_onTimeout_def by (elim cbindE) (auto dest: server_onClose_inv)

lemma accept_loop_inv:
  "registry_inv st \<Longrightarrow> accept_loop_step st cnt result conn = (st', cnt', go_on) \<Longrightarrow> registry_inv st'"
  by (auto simp: accept_loop_step_def Let_def split: if_splits option.splits)

lemma same_registry_trans: "same_registry a b \<Longrightarrow> same_registry b c \<Longrightarrow> same_registry a c"
  by (simp add: same_registry_def)

lemma send_all_same: "same_registry st (send_all st dest data)"
proof -
  have "same_registry st (fold (\<lambda>(_, sp) st. reply st sp data) dest s)" if "same_registry st s" for s
    using that by (induction dest arbitrary: s) auto
  then show ?thesis by (simp add: send_all_def)
qed

lemma run_reqtask_same: "same_registry st (run_reqtask env t st)"
  by (simp add: run_reqtask_def split_beta Let_def same_registry_trans [OF same_registry_simps(2) send_all_same])

lemma fold_same:
  assumes "\<And>x s. same_registry s (f x s)"
  shows "same_registry s (fold f xs s)"
  using assms by (induction xs arbitrary: s) (auto intro: same_registry_trans)

lemma run_broadcast_same: "same_registry st (run_broadcast env b st)"
  unfolding run_broadcast_def split_beta Let_def
  by (rule same_registry_trans [OF same_registry_simps(2)], rule fold_same) (rule send_all_same)

lemma process_round_inv:
  assumes "registry_inv st" "msgbus_process_round env st = Some st'"
  shows "registry_inv st'"
proof -
  let ?s = "st\<lparr>reqtoclient_task_container := [], broadcast_task_container := []\<rparr>"
  have "same_registry ?s (fold (run_reqtask env) rs ?s)" for rs
    by (rule fold_same) (rule run_reqtask_same)
  moreover have "same_registry s (fold (run_broadcast env) bs s)" for bs s
    by (rule fold_same) (rule run_broadcast_same)
  ultimately have "same_registry ?s st'"
    using assms(2)
    by (auto simp: msgbus_process_round_def Let_def split: if_splits intro: same_registry_trans)
  then show ?thesis using assms(1) by (simp add: same_registry_inv)
qed

lemma server_step_inv: "server_step env st st' \<Longrightarrow> registry_inv st \<Longrightarrow> registry_inv st'"
  by (erule server_stepE)
     (auto simp: server_onError_def dest: process_data_inv server_onClose_inv server_onTimeout_inv
        accept_loop_inv process_round_inv)

interpretation server_run: step_invariant "server_step env" registry_inv for env
  by unfold_locales (rule server_step_inv)

lemma registry_inv_init: "registry_inv (server_init heap)"
  by (simp add: registry_inv_def server_init_def)

end
