(* ===== verification/Server_Props.thy ===== *)
theory Server_Props
  imports Server_Registry
begin

text \<open>
  Behaviour of the server's operations: the read loop delivers exactly the packets of the stream, the
  handlers answer as the protocol says, and the relay thread delivers the queued messages.
\<close>

section \<open>The read loop\<close>

text \<open>The server collects the packets for its workers; an empty body fails an assertion.\<close>

definition nonempty_bodies :: "(MsgBusPackHead \<times> byte list) list \<Rightarrow> bool" where
  "nonempty_bodies fs \<longleftrightarrow> list_all (\<lambda>(head, _). body_len head \<noteq> 0) fs"

definition server_frame :: "(MsgBusPackHead \<times> byte list) list \<Rightarrow> MsgBusPackHead \<times> byte list \<Rightarrow> (MsgBusPackHead \<times> byte list) list cres" where
  "server_frame tasks f = (if body_len (fst f) = 0 then Inl AssertFailed else Inr (tasks @ [f]))"

interpretation server_reader: stream_reader bus_parse server_frame
  "\<lambda>blk p sz n tasks. cmap (\<lambda>(n, ts). (n, tasks @ ts)) (server_read_loop blk p sz n)"
proof
  fix p n k :: nat and blk :: "byte list" and s f
  assume p: "p \<le> length blk"
  show "cmap (\<lambda>(n, ts). (n, s @ ts)) (server_read_loop blk p (length blk - p) n) = Inr (n, s)" if none: "bus_parse (drop p blk) = None"
  proof (cases "length blk - p < 16")
    case False
    from bus_parse_None [OF p none False] obtain head where
      "UnPackHead (new_MsgBusPackHead_raw 0) blk p 0 = Inr (12, head)" "length blk - p < 16 + unat (body_len head)" .
    with False show ?thesis by (subst server_read_loop.simps) (simp add: Let_def)
  qed (simp add: server_read_loop.simps)
  show "cmap (\<lambda>(n, ts). (n, s @ ts)) (server_read_loop blk p (length blk - p) n) =
      cbind (server_frame s f) (\<lambda>s. cmap (\<lambda>(n, ts). (n, s @ ts)) (server_read_loop blk (p + k) (length blk - (p + k)) (n + k)))"
    if fk: "bus_parse (drop p blk) = Some (f, k)"
  proof -
    from bus_parse_Some [OF p fk] obtain head where "UnPackHead (new_MsgBusPackHead_raw 0) blk p 0 = Inr (12, head)" "\<not> length blk - p < 16"
      "k = 16 + unat (body_len head)" "k \<le> length blk - p" "f = (head, take (unat (body_len head)) (drop (p + 16) blk))" .
    then show ?thesis
      by (subst server_read_loop.simps, cases "server_read_loop blk (p + k) (length blk - (p + k)) (n + k)")
        (auto simp: Let_def server_frame_def cload_def)
  qed
qed

lemma run_server_frames:
  "run_frames server_frame tasks fs = (if nonempty_bodies fs then Inr (tasks @ fs) else Inl AssertFailed)"
  by (induction fs arbitrary: tasks) (auto simp: nonempty_bodies_def server_frame_def)

lemma server_reader_on_read: "server_reader.on_read tasks b = cmap (\<lambda>(n, ts). (n, tasks @ ts)) (server_onRead b)"
  by (simp add: server_reader.on_read_def server_onRead_def)

lemma server_onRead_frames:
  assumes "frames bus_parse d = (fs, r)" "nonempty_bodies fs"
  shows "server_onRead d = Inr (length d - length r, fs)"
  using server_reader.on_read_frames [OF assms(1), of "[]"] assms(2)
  by (cases "server_onRead d") (auto simp: server_reader_on_read run_server_frames)

text \<open>The packets a connection hands to the workers over a sequence of reads, and the bytes still buffered.\<close>

definition server_feed :: "byte list list \<Rightarrow> ((MsgBusPackHead \<times> byte list) list \<times> byte list) cres" where
  "server_feed chunks = feed_reader (\<lambda>tasks b. cmap (\<lambda>(n, ts). (n, tasks @ ts)) (server_onRead b)) [] [] chunks"

lemma server_feed_frames:
  assumes "frames bus_parse (concat chunks) = (fs, r)"
  shows "server_feed chunks = (if nonempty_bodies fs then Inr (fs, r) else Inl AssertFailed)"
  using server_reader.feed_frames [OF parse_empty(1) assms, of "[]"]
  by (simp add: server_feed_def server_reader_on_read [abs_def] run_server_frames)

section \<open>Selection\<close>

lemma randselect_bounds: "r \<le> RAND_MAX \<Longrightarrow> 0 < n \<Longrightarrow> 0 \<le> randselect r n \<and> nat (randselect r n) < n"
proof -
  assume "r \<le> RAND_MAX" "0 < n"
  then have "r * n < (RAND_MAX + 1) * n" by (intro mult_less_mono1) simp_all
  then have "r * n < n * (RAND_MAX + 1)" by (simp only: mult.commute)
  then show ?thesis by (simp add: randselect_def less_mult_imp_div_less)
qed

lemma select_loop_nth:
  "select_loop k best c = (if k < 0 then (case c of [] \<Rightarrow> best | e # _ \<Rightarrow> snd e)
     else if nat k + 1 < length c then snd (c ! (nat k + 1)) else best)"
proof (induction k best c rule: select_loop.induct)
  case (2 k best e sp pos)
  show ?case
  proof (cases "k < 0")
    case False
    show ?thesis
    proof (cases "k = 0")
      case True
      with 2 show ?thesis by (auto split: list.splits simp: nth_Cons')
    next
      case nz: False
      with False have "nat k = Suc (nat (k - 1))" by simp
      with False nz 2 show ?thesis by simp
    qed
  qed simp
qed simp

lemma select_best_tcp_nth:
  assumes "r \<le> RAND_MAX" "c \<noteq> []" "list_all (\<lambda>(k, sp). sp \<noteq> 0) c"
  shows "select_best_tcp r c = Some (snd (c ! ((nat (randselect r (length c)) + 1) mod length c)))"
proof -
  let ?k = "randselect r (length c)"
  have k: "0 \<le> ?k" "nat ?k < length c" using randselect_bounds [OF assms(1), of "length c"] assms(2) by auto
  have "select_loop ?k (snd (hd c)) c = snd (c ! ((nat ?k + 1) mod length c))"
  proof (cases "nat ?k + 1 < length c")
    case False
    with k have "nat ?k + 1 = length c" by simp
    then have "(nat ?k + 1) mod length c = 0" by simp
    with False k assms(2) show ?thesis by (simp add: select_loop_nth hd_conv_nth)
  qed (use k in \<open>simp add: select_loop_nth\<close>)
  moreover have "c ! ((nat ?k + 1) mod length c) \<in> set c" using assms(2) by simp
  then have "snd (c ! ((nat ?k + 1) mod length c)) \<noteq> 0"
    using assms(3) by (auto simp: list_all_iff)
  ultimately show ?thesis using assms(2) by (simp add: select_best_tcp_def)
qed

lemma select_best_tcp_member:
  assumes "r \<le> RAND_MAX" "socks_ok c"
  obtains sp where "select_best_tcp r c = Some sp" "sp \<in> snd ` set c" "sp \<noteq> 0"
proof -
  have "c \<noteq> []" "list_all (\<lambda>(k, sp). sp \<noteq> 0) c"
    using assms(2) by (auto simp: socks_ok_def list_all_iff)
  then show ?thesis
    using select_best_tcp_nth [OF assms(1), of c] that
    by (auto simp: list_all_iff split_beta)
qed

lemma select_best_host_member:
  assumes "r \<le> RAND_MAX" "hs \<noteq> []"
  obtains h where "select_best_host r hs = Inr (Some h)" "h \<in> set hs"
  using randselect_bounds [OF assms(1), of "length hs"] assms(2) that
  by (auto simp: select_best_host_def Let_def)

lemma is_prefix_matching_iff:
  "is_prefix_matching l r \<longleftrightarrow> (\<exists>z. l = r @ z) \<or> (\<exists>z. r = l @ z)"
proof -
  have t: "take (length b) a = b \<longleftrightarrow> (\<exists>z. a = b @ z)" for a b :: "byte list"
    by (metis append_eq_conv_conj append_take_drop_id)
  show ?thesis
    unfolding is_prefix_matching_def t by auto
qed

lemma dest_exists_iff:
  "dest_exists ac dest \<longleftrightarrow> (\<exists>(name, socks)\<in>set ac. is_prefix_matching name dest \<and> socks \<noteq> [])"
  by (induction ac) auto

section \<open>Registering and looking up\<close>

lemma string_of_name:
  "0 \<notin> set name \<Longrightarrow> length name < 64 \<Longrightarrow> name_bytes (cpad 64 name) = cpad 64 name"
  "0 \<notin> set name \<Longrightarrow> length name < 64 \<Longrightarrow> string_of_cstr (cpad 64 name) = Inr name"
  by (simp_all add: name_bytes_def MAX_SERVICE_NAME_def cstr_cpad string_of_cpad)

lemma register_host_ok:
  assumes "registry_inv st" "sp \<noteq> 0" "host_port host \<noteq> 0"
  shows "\<exists>st' hs. register_host st sp name host 0 [] = Inr (st', 0, []) \<and>
    map_of (available_services st') name = Some hs \<and>
    (\<exists>h\<in>set hs. ClientHostIsEqual h host \<and> host_state h = host_state host) \<and>
    outbox st' = outbox st \<and> sock_heap st' = sock_heap st \<and> rand_calls st' = rand_calls st \<and>
    (map_of (available_services st) name = None \<longrightarrow> hs = [host])"
proof -
  have s: "map_sorted (available_services st)" using assms(1) by (simp add: registry_inv_def)
  show ?thesis
  proof (cases "map_of (available_services st) name")
    case None
    with assms s show ?thesis
      by (simp add: register_host_def deref_def Let_def map_of_insert ClientHostIsEqual_iff)
  next
    case (Some hs)
    show ?thesis
    proof (cases "find_host hs host")
      case None
      with Some assms s show ?thesis
        by (simp add: register_host_def deref_def Let_def map_of_insert ClientHostIsEqual_iff)
    next
      case i: (Some i)
      have "i < length hs" "ClientHostIsEqual (hs ! i) host" using find_host_Some [OF i] by auto
      then have "\<exists>h\<in>set (hs[i := set_state (hs ! i) (host_state host)]).
          ClientHostIsEqual h host \<and> host_state h = host_state host"
        by (intro bexI [of _ "set_state (hs ! i) (host_state host)"])
           (auto simp: ClientHostIsEqual_iff set_state_def host_state_def set_update_memI)
      with i Some assms s show ?thesis
        by (simp add: register_host_def deref_def Let_def map_of_insert)
    qed
  qed
qed

text \<open>The register response on the wire.\<close>

definition reg_rsp :: "MsgBusPackHead \<Rightarrow> u16 \<Rightarrow> byte list \<Rightarrow> byte list \<Rightarrow> MsgBusRegisterRsp" where
  "reg_rsp head ret_code name errmsg =
     RegisterRsp_SetVarData ((new_MsgBusRegisterRsp ret_code name)
       \<lparr>msg_id := msg_id head, rrsp_err_msg_len := of_nat (length (errmsg @ [0]))\<rparr>) (Some (errmsg @ [0]))"

lemma reg_rsp_wf: "length name = 64 \<Longrightarrow> length errmsg < 65535 \<Longrightarrow> RegisterRsp_wf (reg_rsp head c name errmsg)"
  by (auto simp: reg_rsp_def RegisterRsp_wf_def RegisterRsp_SetVarData_def RegisterRsp_FreeVarData_def
      new_MsgBusRegisterRsp_def new_MsgBusPackHead_def MsgBusPackHead.extend_def MsgBusRegisterRsp.fields_def
      MAX_SERVICE_NAME_def var_ok_def unat_of_nat)

lemma reg_rsp_simps [simp]:
  "rrsp_ret_code (reg_rsp head c name errmsg) = c" "msg_id (reg_rsp head c name errmsg) = msg_id head"
  "rrsp_service_name (reg_rsp head c name errmsg) = name"
  by (auto simp: reg_rsp_def RegisterRsp_SetVarData_def RegisterRsp_FreeVarData_def
      new_MsgBusRegisterRsp_def new_MsgBusPackHead_def MsgBusPackHead.extend_def MsgBusRegisterRsp.fields_def)

lemma reg_rsp_pack:
  assumes "length name = 64" "length errmsg < 65535"
  shows "RegisterRsp_PackData (reg_rsp head c name errmsg)
      (replicate (unat (RegisterRsp_Size (reg_rsp head c name errmsg))) 0) 0 0 =
    Inr (rrsp.encode (reg_rsp head c name errmsg), rrsp.sent (reg_rsp head c name errmsg))"
  unfolding RegisterRsp_PackData_def by (rule rrsp.packData_fresh) (rule reg_rsp_wf [OF assms])

lemma reg_rsp_unpack:
  assumes "length name = 64" "length errmsg < 65535"
  shows "\<exists>m. RegisterRsp_UnPackData m0 (rrsp.encode (reg_rsp head c name errmsg)) 0 0 = Inr (0, m) \<and>
    rrsp_ret_code m = c \<and> msg_id m = msg_id head"
  unfolding RegisterRsp_UnPackData_def rrsp.unpackData_fresh [OF reg_rsp_wf [OF assms]]
  by (simp add: RegisterRsp_received_def rrsp.sent_def)

text \<open>What a register request carries: a name that fits its array and an address.\<close>

definition reg_body :: "byte list \<Rightarrow> ClientHost \<Rightarrow> byte list" where
  "reg_body name host = cpad 64 name @ host_bytes host"

lemma reg_body_unpack:
  assumes "0 \<notin> set name" "length name < 64"
  shows "\<exists>m. RegisterReq_UnPackBody m0 (reg_body name host) 0 0 = Inr (0, m) \<and>
    rreq_service_name m = cpad 64 name \<and> rreq_service_host m = host"
proof -
  have "reg_body name host = RegisterReq_body (m0\<lparr>rreq_service_name := cpad 64 name, rreq_service_host := host\<rparr>)"
    using assms by (simp add: reg_body_def RegisterReq_body_def string_of_name)
  then show ?thesis
    using RegisterReq_UnPackBody_ok [of 0 "m0\<lparr>rreq_service_name := cpad 64 name, rreq_service_host := host\<rparr>"
        "reg_body name host" m0] assms
    by (simp add: RegisterReq_received_def string_of_name)
qed

lemma process_register_eq:
  assumes name: "0 \<notin> set name" "length name < 64" "name \<noteq> []"
    and host: "ip_v host \<noteq> 0" "host_port host \<noteq> 0" and st: "registry_inv st" "sp \<noteq> 0"
  shows "\<exists>st1 hs. process_register_req st sp head (reg_body name host) =
      Inr (reply st1 sp (rrsp.encode (reg_rsp head 0 (cpad 64 name) []))) \<and>
    map_of (available_services st1) name = Some hs \<and>
    (\<exists>h\<in>set hs. ClientHostIsEqual h host \<and> host_state h = host_state host) \<and> outbox st1 = outbox st \<and>
    (map_of (available_services st) name = None \<longrightarrow> hs = [host])"
proof -
  obtain m where m: "RegisterReq_UnPackBody (new_MsgBusRegisterReq (replicate MAX_SERVICE_NAME 0))
      (reg_body name host) 0 0 = Inr (0, m)" "rreq_service_name m = cpad 64 name" "rreq_service_host m = host"
    using reg_body_unpack [OF name(1,2)] by blast
  have n: "strncpy_read MAX_SERVICE_NAME (cpad 64 name) = Inr (cpad 64 name)"
    using name strncpy_name [of "cpad 64 name"] by (simp add: string_of_name MAX_SERVICE_NAME_def)
  obtain st1 hs where st1: "register_host st sp name host 0 [] = Inr (st1, 0, [])"
    "map_of (available_services st1) name = Some hs"
    "\<exists>h\<in>set hs. ClientHostIsEqual h host \<and> host_state h = host_state host" "outbox st1 = outbox st"
    "map_of (available_services st) name = None \<longrightarrow> hs = [host]"
    using register_host_ok [OF st host(2), of name] by metis
  have ip: "host_ip host \<noteq> []" using host(1) by (metis host_ip_inj host_ip_def inet_pton_host_ip inet_pton_Nil option.distinct(1))
  have "process_register_req st sp head (reg_body name host) = Inr (reply st1 sp (rrsp.encode (reg_rsp head 0 (cpad 64 name) [])))"
    using m n st1(1) ip name reg_rsp_pack [of "cpad 64 name" "[]" head 0]
    by (simp add: process_register_req_def string_of_name Let_def reg_rsp_def [of _ _ _ "[]", simplified, symmetric])
  with st1 show ?thesis by (intro exI [of _ st1] exI [of _ hs]) simp
qed

lemma process_register_ok:
  assumes name: "0 \<notin> set name" "length name < 64" "name \<noteq> []"
    and host: "ip_v host \<noteq> 0" "host_port host \<noteq> 0" and st: "registry_inv st" "sp \<noteq> 0"
  shows "\<exists>st' hs bs m. process_register_req st sp head (reg_body name host) = Inr st' \<and>
    map_of (available_services st') name = Some hs \<and>
    (\<exists>h\<in>set hs. ClientHostIsEqual h host \<and> host_state h = host_state host) \<and>
    outbox st' = outbox st @ [(sp, bs)] \<and> RegisterRsp_UnPackData m0 bs 0 0 = Inr (0, m) \<and>
    rrsp_ret_code m = 0 \<and> msg_id m = msg_id head"
  using process_register_eq [OF assms, of head] reg_rsp_unpack [of "cpad 64 name" "[]" m0 head 0] st(2)
  by (fastforce simp: outbox_reply)

text \<open>The answer to a lookup.\<close>

definition gc_rsp :: "MsgBusPackHead \<Rightarrow> byte list \<Rightarrow> ClientHost option \<Rightarrow> MsgBusGetClientRsp" where
  "gc_rsp head name r =
     (let rsp = (new_MsgBusGetClientRsp (case r of Some _ \<Rightarrow> 0 | None \<Rightarrow> 1) name)\<lparr>msg_id := msg_id head\<rparr>
      in case r of Some host \<Rightarrow> rsp\<lparr>gcrsp_dest_host := host\<rparr> | None \<Rightarrow> rsp)"

lemmas gc_rsp_defs = gc_rsp_def new_MsgBusGetClientRsp_def new_MsgBusPackHead_def
  MsgBusPackHead.extend_def MsgBusGetClientRsp.fields_def Let_def

lemma gc_rsp_wf: "length name = 64 \<Longrightarrow> GetClientRsp_wf (gc_rsp head name r)"
  by (auto simp: gc_rsp_defs GetClientRsp_wf_def MAX_SERVICE_NAME_def split: option.splits)

lemma gc_rsp_pack:
  "length name = 64 \<Longrightarrow> GetClientRsp_PackData (gc_rsp head name r)
      (replicate (unat (GetClientRsp_Size (gc_rsp head name r))) 0) 0 0 =
    Inr (gcrsp.encode (gc_rsp head name r), gcrsp.sent (gc_rsp head name r))"
  unfolding GetClientRsp_PackData_def by (rule gcrsp.packData_fresh) (rule gc_rsp_wf)

lemma gc_rsp_unpack:
  assumes "length name = 64"
  shows "\<exists>m. GetClientRsp_UnPackData m0 (gcrsp.encode (gc_rsp head name r)) 0 0 = Inr (0, m) \<and>
    gcrsp_ret_code m = (case r of Some _ \<Rightarrow> 0 | None \<Rightarrow> 1) \<and> msg_id m = msg_id head \<and>
    (\<forall>h. r = Some h \<longrightarrow> gcrsp_dest_host m = h)"
  unfolding GetClientRsp_UnPackData_def gcrsp.unpackData_fresh [OF gc_rsp_wf [OF assms]]
  by (auto simp: GetClientRsp_received_def gcrsp.sent_def gc_rsp_defs split: option.splits)

lemma process_getclient_eq:
  assumes name: "0 \<notin> set name" "length name < 64" and st: "registry_inv st" "sp \<noteq> 0"
    and r: "rnd env (rand_calls st) \<le> RAND_MAX"
  shows "\<exists>st1 r. process_getclient_req env st sp head (cpad 64 name) =
      Inr (reply st1 sp (gcrsp.encode (gc_rsp head (cpad 64 name) r))) \<and> outbox st1 = outbox st \<and>
    (case map_of (available_services st) name of None \<Rightarrow> r = None | Some hs \<Rightarrow> \<exists>h\<in>set hs. r = Some h)"
proof -
  define m where "m = (new_MsgBusGetClientReq (replicate MAX_SERVICE_NAME 0))\<lparr>gcreq_dest_name := cpad 64 name\<rparr>"
  have n: "strncpy_read MAX_SERVICE_NAME (cpad 64 name) = Inr (cpad 64 name)"
    using name strncpy_name [of "cpad 64 name"] by (simp add: string_of_name MAX_SERVICE_NAME_def)
  have m: "GetClientReq_UnPackBody (new_MsgBusGetClientReq (replicate MAX_SERVICE_NAME 0)) (cpad 64 name) 0 0
      = Inr (0, m)"
    by (simp add: GetClientReq_UnPackBody_def n m_def)
  have "gcreq_dest_name m = cpad 64 name" by (simp add: m_def)
  note m = m this
  define r where "r = (case map_of (available_services st) name of None \<Rightarrow> None
      | Some hs \<Rightarrow> (case select_best_host (rnd env (rand_calls st)) hs of Inr x \<Rightarrow> x | Inl _ \<Rightarrow> None))"
  define st1 where "st1 = (if map_of (available_services st) name = None then st
      else st\<lparr>rand_calls := Suc (rand_calls st)\<rparr>)"
  have sel: "(case map_of (available_services st) name of None \<Rightarrow> r = None
      | Some hs \<Rightarrow> hs \<noteq> [] \<and> select_best_host (rnd env (rand_calls st)) hs = Inr r \<and> (\<exists>h\<in>set hs. r = Some h))"
    using inv_hosts [OF st(1), of name] select_best_host_member [OF assms(5)]
    by (fastforce simp: r_def hosts_ok_def split: option.splits)
  have "process_getclient_req env st sp head (cpad 64 name) = Inr (reply st1 sp (gcrsp.encode (gc_rsp head (cpad 64 name) r)))"
    using m n sel name gc_rsp_pack [of "cpad 64 name" head r]
    by (auto simp: process_getclient_req_def string_of_name gc_rsp_def Let_def st1_def split: option.splits)
  moreover have "outbox st1 = outbox st" by (simp add: st1_def)
  moreover have "case map_of (available_services st) name of None \<Rightarrow> r = None | Some hs \<Rightarrow> \<exists>h\<in>set hs. r = Some h"
    using sel by (auto split: option.splits)
  ultimately show ?thesis by blast
qed

lemma process_getclient_ok:
  assumes name: "0 \<notin> set name" "length name < 64" and st: "registry_inv st" "sp \<noteq> 0"
    and r: "rnd env (rand_calls st) \<le> RAND_MAX"
  shows "\<exists>st' bs m. process_getclient_req env st sp head (cpad 64 name) = Inr st' \<and>
    outbox st' = outbox st @ [(sp, bs)] \<and> GetClientRsp_UnPackData m0 bs 0 0 = Inr (0, m) \<and>
    msg_id m = msg_id head \<and>
    (case map_of (available_services st) name of
       None \<Rightarrow> gcrsp_ret_code m = 1
     | Some hs \<Rightarrow> gcrsp_ret_code m = 0 \<and> gcrsp_dest_host m \<in> set hs)"
proof -
  obtain st1 r where r: "process_getclient_req env st sp head (cpad 64 name) = Inr (reply st1 sp (gcrsp.encode (gc_rsp head (cpad 64 name) r)))"
    "outbox st1 = outbox st" "case map_of (available_services st) name of None \<Rightarrow> r = None | Some hs \<Rightarrow> \<exists>h\<in>set hs. r = Some h"
    using process_getclient_eq [OF assms, of head] by blast
  with gc_rsp_unpack [of "cpad 64 name" m0 head r] st(2) show ?thesis
    by (fastforce simp: outbox_reply split: option.splits)
qed

section \<open>Relaying\<close>

definition sm_rsp :: "MsgBusPackHead \<Rightarrow> u16 \<Rightarrow> byte list \<Rightarrow> MsgBusSendMsgRsp" where
  "sm_rsp head ret_code errmsg =
     SendMsgRsp_SetVarData ((new_MsgBusSendMsgRsp ret_code)
       \<lparr>msg_id := msg_id head, smrsp_err_msg_len := of_nat (length (errmsg @ [0]))\<rparr>) (Some (errmsg @ [0]))"

lemmas sm_rsp_defs = sm_rsp_def SendMsgRsp_SetVarData_def SendMsgRsp_FreeVarData_def
  new_MsgBusSendMsgRsp_def new_MsgBusPackHead_def MsgBusPackHead.extend_def MsgBusSendMsgRsp.fields_def

lemma sm_rsp_wf: "length errmsg < 65535 \<Longrightarrow> SendMsgRsp_wf (sm_rsp head c errmsg)"
  by (auto simp: sm_rsp_defs SendMsgRsp_wf_def var_ok_def unat_of_nat)

lemma sm_rsp_pack:
  "length errmsg < 65535 \<Longrightarrow> SendMsgRsp_PackData (sm_rsp head c errmsg)
      (replicate (unat (SendMsgRsp_Size (sm_rsp head c errmsg))) 0) 0 0 =
    Inr (smrsp.encode (sm_rsp head c errmsg), smrsp.sent (sm_rsp head c errmsg))"
  unfolding SendMsgRsp_PackData_def by (rule smrsp.packData_fresh) (rule sm_rsp_wf)

lemma sm_rsp_unpack:
  assumes "length errmsg < 65535"
  shows "\<exists>m. SendMsgRsp_UnPackData m0 (smrsp.encode (sm_rsp head c errmsg)) 0 0 = Inr (0, m) \<and>
    smrsp_ret_code m = c \<and> msg_id m = msg_id head"
  unfolding SendMsgRsp_UnPackData_def smrsp.unpackData_fresh [OF sm_rsp_wf [OF assms]]
  by (simp add: SendMsgRsp_received_def smrsp.sent_def sm_rsp_defs)

text \<open>What a send request carries, and the object the server unpacks from it.\<close>

definition sm_body :: "byte list \<Rightarrow> byte list \<Rightarrow> byte list \<Rightarrow> byte list" where
  "sm_body dest from c = cpad 64 dest @ cpad 64 from @ be32 (of_nat (length c)) @ c"

definition sm_req :: "byte list \<Rightarrow> byte list \<Rightarrow> byte list \<Rightarrow> MsgBusSendMsgReq" where
  "sm_req dest from c = (new_MsgBusSendMsgReq (cpad 64 dest) (cpad 64 from))
     \<lparr>smreq_msg_len := of_nat (length c), smreq_msg_content := Some c, smreq_needfree := True\<rparr>"

lemmas sm_req_defs = sm_req_def new_MsgBusSendMsgReq_def new_MsgBusPackHead_def
  MsgBusPackHead.extend_def MsgBusSendMsgReq.fields_def

lemma sm_req_wf: "148 + length c < 2 ^ 32 \<Longrightarrow> SendMsgReq_wf (sm_req dest from c)"
  by (auto simp: sm_req_defs SendMsgReq_wf_def raw_ok_def MAX_SERVICE_NAME_def unat_of_nat)

lemma sm_req_body:
  assumes "148 + length c < 2 ^ 32" "0 \<notin> set dest" "length dest < 64" "0 \<notin> set from" "length from < 64"
  shows "SendMsgReq_body (sm_req dest from c) = sm_body dest from c"
  using assms by (simp add: SendMsgReq_body_def sm_req_defs sm_body_def string_of_name raw_bytes_def unat_of_nat)

lemma sm_req_received:
  assumes "148 + length c < 2 ^ 32" "0 \<notin> set dest" "length dest < 64" "0 \<notin> set from" "length from < 64"
  shows "SendMsgReq_received (new_MsgBusSendMsgReq a b) (sm_req dest from c) = sm_req dest from c"
  using assms
  by (simp add: SendMsgReq_received_def sm_req_defs string_of_name raw_bytes_def unat_of_nat)

lemma sm_req_pack:
  "148 + length c < 2 ^ 32 \<Longrightarrow> SendMsgReq_PackData (sm_req dest from c)
      (replicate (unat (SendMsgReq_Size (sm_req dest from c))) 0) 0 0 =
    Inr (smreq.encode (sm_req dest from c), smreq.sent (sm_req dest from c))"
  unfolding SendMsgReq_PackData_def by (rule smreq.packData_fresh) (rule sm_req_wf)

lemma sm_req_unpack:
  assumes "148 + length c < 2 ^ 32" "0 \<notin> set dest" "length dest < 64" "0 \<notin> set from" "length from < 64"
  shows "\<exists>m. SendMsgReq_UnPackData m0 (smreq.encode (sm_req dest from c)) 0 0 = Inr (0, m) \<and>
    smreq_dest_name m = cpad 64 dest \<and> smreq_from_name m = cpad 64 from \<and> smreq_msg_content m = Some c"
  unfolding SendMsgReq_UnPackData_def smreq.unpackData_fresh [OF sm_req_wf [OF assms(1)]]
  using assms by (simp add: SendMsgReq_received_def sm_req_defs string_of_name raw_bytes_def unat_of_nat)

text \<open>The state after the queueing part of \<open>process_sendmsg_req\<close>.\<close>

definition queue_relay :: "server \<Rightarrow> byte list \<Rightarrow> byte list \<Rightarrow> server" where
  "queue_relay st dest pkt =
     (if \<not> dest_exists (active_clients st) dest then st
      else if dest = [] then msgbus_queue_broadcast st pkt
      else msgbus_queue_reqtoclient st \<lparr>rt_client_name = dest, rt_data = pkt\<rparr>)"

lemma process_sendmsg_eq:
  assumes c: "148 + length c < 2 ^ 32"
    and names: "0 \<notin> set dest" "length dest < 64" "0 \<notin> set from" "length from < 64"
    and head: "unat (body_len head) = length (sm_body dest from c)" and sp: "sp \<noteq> 0"
  shows "process_sendmsg_req env st sp head (sm_body dest from c) =
      Inr (reply (queue_relay st dest (smreq.encode (sm_req dest from c))) sp
        (smrsp.encode (sm_rsp head (if dest_exists (active_clients st) dest then 0 else 1)
          (if dest_exists (active_clients st) dest then [] else lit ''dest client not found.''))))"
proof -
  let ?req = "sm_req dest from c"
  let ?e = "if dest_exists (active_clients st) dest then [] else lit ''dest client not found.''"
  let ?rsp = "sm_rsp head (if dest_exists (active_clients st) dest then 0 else 1) ?e"
  have u: "SendMsgReq_UnPackBody (new_MsgBusSendMsgReq (junk_name env) (junk_name env)) (sm_body dest from c)
      0 (unat (body_len head)) = Inr (0, ?req)"
    using SendMsgReq_UnPackBody_ok [OF sm_req_wf [OF c, of dest "from"], of 0 "sm_body dest from c"]
      sm_req_body [OF c names] sm_req_received [OF c names] head by simp
  have d: "smreq_dest_name ?req = cpad 64 dest" by (simp add: sm_req_defs)
  have e: "length ?e < 65535" by (simp add: lit_def)
  show "process_sendmsg_req env st sp head (sm_body dest from c) =
      Inr (reply (queue_relay st dest (smreq.encode ?req)) sp (smrsp.encode ?rsp))"
  proof (cases "dest_exists (active_clients st) dest")
    case True
    with u d names sm_req_pack [OF c, of dest "from"] sm_rsp_pack [of "[]" head 0] show ?thesis
      by (simp add: process_sendmsg_req_def string_of_name queue_relay_def Let_def sm_rsp_def)
  next
    case False
    with u d names sm_rsp_pack [OF e, of head 1] show ?thesis
      by (simp add: process_sendmsg_req_def string_of_name queue_relay_def Let_def sm_rsp_def)
  qed
qed

lemma process_sendmsg_ok:
  assumes c: "148 + length c < 2 ^ 32"
    and names: "0 \<notin> set dest" "length dest < 64" "0 \<notin> set from" "length from < 64"
    and head: "unat (body_len head) = length (sm_body dest from c)" and sp: "sp \<noteq> 0"
  shows "\<exists>bs pkt m m'. process_sendmsg_req env st sp head (sm_body dest from c) =
      Inr (reply (queue_relay st dest pkt) sp bs) \<and>
    SendMsgRsp_UnPackData m0 bs 0 0 = Inr (0, m) \<and> msg_id m = msg_id head \<and>
    smrsp_ret_code m = (if dest_exists (active_clients st) dest then 0 else 1) \<and>
    SendMsgReq_UnPackData m1 pkt 0 0 = Inr (0, m') \<and>
    smreq_dest_name m' = cpad 64 dest \<and> smreq_from_name m' = cpad 64 from \<and> smreq_msg_content m' = Some c"
proof -
  have e: "length (if dest_exists (active_clients st) dest then [] else lit ''dest client not found.'') < 65535" by (simp add: lit_def)
  from process_sendmsg_eq [OF assms, of env st] sm_req_unpack [OF c names, of m1] sm_rsp_unpack [OF e, of m0 head] show ?thesis by blast
qed

section \<open>The relay thread\<close>

definition socks_set :: "TcpSockContainerT \<Rightarrow> int set" where
  "socks_set c = snd ` set c"

lemma socks_set_Nil [simp]: "socks_set [] = {}"
  by (simp add: socks_set_def)

lemma select_best_tcp_socks:
  assumes "r \<le> RAND_MAX" "socks_ok c"
  obtains sp where "select_best_tcp r c = Some sp" "sp \<in> socks_set c" "sp \<noteq> 0"
  using select_best_tcp_member [OF assms] by (metis socks_set_def)

text \<open>
  The receivers \<open>d\<close> of a message for the services \<open>P\<close>: only connections of these services, and at least one of
  each.
\<close>

definition serves :: "(byte list, TcpSockContainerT) std_map \<Rightarrow> (byte list \<Rightarrow> bool) \<Rightarrow> int list \<Rightarrow> bool" where
  "serves ac P d \<longleftrightarrow>
     list_all (\<lambda>sp. list_ex (\<lambda>(name, socks). P name \<and> sp \<in> socks_set socks) ac) d \<and>
     list_all (\<lambda>(name, socks). P name \<longrightarrow> list_ex (\<lambda>sp. sp \<in> socks_set socks) d) ac"

definition dest_ok :: "TcpSockContainerT \<Rightarrow> bool" where
  "dest_ok d \<longleftrightarrow> map_sorted d \<and> list_all (\<lambda>(k, sp). k = sp \<and> sp \<noteq> 0) d"

lemma dest_ok_insert: "dest_ok d \<Longrightarrow> sp \<noteq> 0 \<Longrightarrow> dest_ok (map_insert sp sp d)"
  by (auto simp: dest_ok_def list_all_iff set_map_insert)

lemma snd_dest_insert: "dest_ok d \<Longrightarrow> socks_set (map_insert sp sp d) = insert sp (socks_set d)"
  by (force simp: socks_set_def dest_ok_def list_all_iff set_map_insert image_iff)

lemma collect_dest_ok:
  assumes "list_all (\<lambda>(name, socks). socks_ok socks) ac" "\<And>i. rnd env i \<le> RAND_MAX" "dest_ok dest"
    and "collect_dest env n ac calls dest = (d, calls')"
  shows "dest_ok d \<and> socks_set dest \<subseteq> socks_set d \<and>
    (\<forall>sp\<in>socks_set d. sp \<in> socks_set dest \<or>
       (\<exists>(name, socks)\<in>set ac. is_prefix_matching name n \<and> sp \<in> socks_set socks)) \<and>
    (\<forall>(name, socks)\<in>set ac. is_prefix_matching name n \<longrightarrow> (\<exists>sp\<in>socks_set d. sp \<in> socks_set socks))"
  using assms(1,3,4)
proof (induction ac arbitrary: calls dest)
  case (Cons e ac)
  obtain name socks where e: "e = (name, socks)" by (cases e)
  show ?case
  proof (cases "is_prefix_matching name n")
    case False
    with Cons e show ?thesis by auto
  next
    case True
    have "socks_ok socks" using Cons.prems(1) e by simp
  then obtain sp where sp: "select_best_tcp (rnd env calls) socks = Some sp" "sp \<in> socks_set socks" "sp \<noteq> 0"
      using select_best_tcp_socks [OF assms(2)] by blast
    note IH = Cons.IH [of "map_insert sp sp dest" "if length socks > 0 then Suc calls else calls"]
    from True e sp Cons.prems IH [OF _ dest_ok_insert [OF Cons.prems(2) sp(3)]]
    have *: "dest_ok d \<and> socks_set (map_insert sp sp dest) \<subseteq> socks_set d \<and>
      (\<forall>sq\<in>socks_set d. sq \<in> socks_set (map_insert sp sp dest) \<or>
         (\<exists>(name, socks)\<in>set ac. is_prefix_matching name n \<and> sq \<in> socks_set socks)) \<and>
      (\<forall>(name, socks)\<in>set ac. is_prefix_matching name n \<longrightarrow> (\<exists>sp\<in>socks_set d. sp \<in> socks_set socks))"
      by simp
    have ins: "socks_set (map_insert sp sp dest) = insert sp (socks_set dest)"
      using Cons.prems(2) by (rule snd_dest_insert)
    show ?thesis
      using * True sp(2) unfolding ins e by auto
  qed
qed simp

lemma send_all_outbox:
  "list_all (\<lambda>(k, sp). sp \<noteq> 0) dest \<Longrightarrow> outbox (send_all st dest data) = outbox st @ map (\<lambda>(k, sp). (sp, data)) dest"
  unfolding send_all_def by (induction dest arbitrary: st) (auto simp: outbox_reply)

lemma run_reqtask_outbox:
  assumes "list_all (\<lambda>(name, socks). socks_ok socks) (active_clients st)" "\<And>i. rnd env i \<le> RAND_MAX"
  shows "\<exists>d. outbox (run_reqtask env t st) = outbox st @ map (\<lambda>sp. (sp, rt_data t)) d \<and> distinct d \<and>
    serves (active_clients st) (\<lambda>name. is_prefix_matching name (rt_client_name t)) d"
proof -
  obtain d calls where d: "collect_dest env (rt_client_name t) (active_clients st) (rand_calls st) [] = (d, calls)"
    by fastforce
  have ok: "dest_ok d" "serves (active_clients st) (\<lambda>name. is_prefix_matching name (rt_client_name t)) (map snd d)"
    using collect_dest_ok [OF assms _ d]
    by (auto simp: dest_ok_def serves_def list_all_iff list_ex_iff socks_set_def)
  then have nz: "list_all (\<lambda>(k, sp). sp \<noteq> 0) d" by (auto simp: dest_ok_def list_all_iff)
  have "map snd d = map fst d" using ok(1) by (auto simp: dest_ok_def list_all_iff)
  then have dist: "distinct (map snd d)" using ok(1) by (metis dest_ok_def map_sorted_def)
  have "outbox (run_reqtask env t st) = outbox st @ map (\<lambda>sp. (sp, rt_data t)) (map snd d)"
    using d nz by (simp add: run_reqtask_def send_all_outbox split_beta)
  with ok dist show ?thesis by blast
qed

text \<open>The broadcast list: for every service, in key order, one of its connections.\<close>

definition bcast_ok :: "(byte list, TcpSockContainerT) std_map \<Rightarrow> (byte list, TcpSockContainerT) std_map \<Rightarrow> bool" where
  "bcast_ok ac al \<longleftrightarrow> map fst al = map fst ac \<and>
     list_all2 (\<lambda>(n, c) (n', socks). \<exists>sp. c = [(sp, sp)] \<and> sp \<noteq> 0 \<and> sp \<in> socks_set socks) al ac"

lemma collect_all_ok:
  assumes "list_all (\<lambda>(name, socks). socks_ok socks) ac" "\<And>i. rnd env i \<le> RAND_MAX"
    and "bcast_ok pre al" "map_sorted (pre @ ac)"
  shows "bcast_ok (pre @ ac) (fst (collect_all env ac calls al))"
  using assms(1,3,4)
proof (induction ac arbitrary: pre al calls)
  case (Cons e ac)
  obtain name socks where e: "e = (name, socks)" by (cases e)
  have "socks_ok socks" using Cons.prems(1) e by simp
  then obtain sp where sp: "select_best_tcp (rnd env calls) socks = Some sp" "sp \<in> socks_set socks" "sp \<noteq> 0"
    using select_best_tcp_socks [OF assms(2)] by blast
  have less: "\<forall>k'\<in>fst ` set al. k' < name"
  proof -
    have "map fst al = map fst pre" using Cons.prems(2) by (simp add: bcast_ok_def)
    then have "set (map fst al) = set (map fst pre)" by (rule arg_cong)
    then have "fst ` set al = fst ` set pre" by simp
    moreover have "\<forall>k'\<in>fst ` set pre. k' < name"
      using Cons.prems(3) e by (auto simp: map_sorted_def sorted_append order_less_le)
    ultimately show ?thesis by simp
  qed
  then have "map_of al name = None" by (auto simp: map_of_eq_None_iff)
  then have add: "add_active name sp al = al @ [(name, [(sp, sp)])]"
    using less by (simp add: add_active_def map_insert_last)
  have "bcast_ok (pre @ [e]) (al @ [(name, [(sp, sp)])])"
    using Cons.prems(2) sp(2,3) e by (auto simp: bcast_ok_def list_all2_appendI)
  from Cons.IH [OF _ this] Cons.prems(1,3) e sp(1) add show ?case by simp
qed simp

lemma run_broadcast_outbox:
  assumes "list_all (\<lambda>(name, socks). socks_ok socks) (active_clients st)" "\<And>i. rnd env i \<le> RAND_MAX"
    and "map_sorted (active_clients st)"
  shows "\<exists>d. outbox (run_broadcast env b st) = outbox st @ map (\<lambda>sp. (sp, b)) d \<and>
    list_all2 (\<lambda>sp (name, socks). sp \<in> socks_set socks) d (active_clients st)"
proof -
  obtain al calls where al: "collect_all env (active_clients st) (rand_calls st) [] = (al, calls)"
    by fastforce
  have "bcast_ok (active_clients st) al"
    using collect_all_ok [OF assms(1,2), of "[]" "[]" "rand_calls st"] assms(3) al
    by (simp add: bcast_ok_def)
  then have all: "list_all2 (\<lambda>(n, c) (n', socks). \<exists>sp. c = [(sp, sp)] \<and> sp \<noteq> 0 \<and> sp \<in> socks_set socks)
      al (active_clients st)"
    by (simp add: bcast_ok_def)
  define d where "d = map (\<lambda>(n, c). snd (hd c)) al"
  have "list_all2 (\<lambda>sp (name, socks). sp \<in> socks_set socks) d (active_clients st)"
    unfolding d_def list_all2_map1 using all by (rule list_all2_mono) auto
  moreover have "outbox (fold (\<lambda>(n, socks) st. send_all st socks b) al s) = outbox s @ map (\<lambda>sp. (sp, b)) d" for s
    unfolding d_def using all by (induction arbitrary: s rule: list_all2_induct) (auto simp: send_all_outbox)
  ultimately show ?thesis using al by (auto simp: run_broadcast_def)
qed

lemma send_all_queues:
  "reqtoclient_task_container (send_all st dest data) = reqtoclient_task_container st"
  "broadcast_task_container (send_all st dest data) = broadcast_task_container st"
  unfolding send_all_def by (rule fold_keeps, simp add: split_beta)+

lemma run_queues:
  "reqtoclient_task_container (run_reqtask env t st) = reqtoclient_task_container st"
  "broadcast_task_container (run_reqtask env t st) = broadcast_task_container st"
  "reqtoclient_task_container (run_broadcast env b st) = reqtoclient_task_container st"
  "broadcast_task_container (run_broadcast env b st) = broadcast_task_container st"
  by (simp_all add: run_reqtask_def run_broadcast_def split_beta Let_def send_all_queues
        fold_keeps [where q = reqtoclient_task_container] fold_keeps [where q = broadcast_task_container])

lemma list_all2_exI:
  assumes "\<And>x s. I s \<Longrightarrow> I (f x s) \<and> (\<exists>d. outbox (f x s) = outbox s @ g x d \<and> Q x d)" "I s"
  shows "\<exists>ds. outbox (fold f xs s) = outbox s @ concat (map2 g xs ds) \<and> list_all2 Q xs ds"
  using assms(2)
proof (induction xs arbitrary: s)
  case (Cons x xs)
  obtain d where d: "outbox (f x s) = outbox s @ g x d" "Q x d" using assms(1) [OF Cons.prems] by blast
  obtain ds where "outbox (fold f xs (f x s)) = outbox (f x s) @ concat (map2 g xs ds)" "list_all2 Q xs ds"
    using Cons.IH assms(1) [OF Cons.prems] by blast
  with d show ?case by (intro exI [of _ "d # ds"]) simp
qed simp

lemma process_round_outbox:
  assumes inv: "registry_inv st" and rnd: "\<And>i. rnd env i \<le> RAND_MAX" and run: "\<not> server_terminate st"
  shows "\<exists>st' ds bs. msgbus_process_round env st = Some st' \<and>
    reqtoclient_task_container st' = [] \<and> broadcast_task_container st' = [] \<and>
    outbox st' = outbox st
      @ concat (map2 (\<lambda>t d. map (\<lambda>sp. (sp, rt_data t)) d) (reqtoclient_task_container st) ds)
      @ concat (map2 (\<lambda>b d. map (\<lambda>sp. (sp, b)) d) (broadcast_task_container st) bs) \<and>
    list_all2 (\<lambda>t d. distinct d \<and>
      serves (active_clients st) (\<lambda>name. is_prefix_matching name (rt_client_name t)) d)
      (reqtoclient_task_container st) ds \<and>
    list_all2 (\<lambda>b d. list_all2 (\<lambda>sp (name, socks). sp \<in> socks_set socks) d (active_clients st))
      (broadcast_task_container st) bs"
proof -
  let ?ac = "active_clients st"
  let ?s0 = "st\<lparr>reqtoclient_task_container := [], broadcast_task_container := []\<rparr>"
  let ?s1 = "fold (run_reqtask env) (reqtoclient_task_container st) ?s0"
  have ac: "list_all (\<lambda>(name, socks). socks_ok socks) ?ac" "map_sorted ?ac"
    using inv by (auto simp: registry_inv_def list_all_iff)
  have same: "active_clients (run_reqtask env t s) = active_clients s"
    "active_clients (run_broadcast env b s) = active_clients s" for t b s
    using run_reqtask_same run_broadcast_same by (simp_all add: same_registry_def)
  have R: "active_clients (run_reqtask env t s) = ?ac \<and>
      (\<exists>d. outbox (run_reqtask env t s) = outbox s @ map (\<lambda>sp. (sp, rt_data t)) d \<and>
        (distinct d \<and> serves ?ac (\<lambda>name. is_prefix_matching name (rt_client_name t)) d))"
    if "active_clients s = ?ac" for t s
    using run_reqtask_outbox [of s env t] ac(1) rnd same(1) that by simp
  obtain ds where ds: "outbox ?s1 = outbox ?s0 @ concat (map2 (\<lambda>t d. map (\<lambda>sp. (sp, rt_data t)) d)
      (reqtoclient_task_container st) ds)"
    "list_all2 (\<lambda>t d. distinct d \<and> serves ?ac (\<lambda>name. is_prefix_matching name (rt_client_name t)) d)
      (reqtoclient_task_container st) ds"
    using list_all2_exI [where I = "\<lambda>s. active_clients s = ?ac" and f = "run_reqtask env"
        and g = "\<lambda>t d. map (\<lambda>sp. (sp, rt_data t)) d" and s = ?s0 and xs = "reqtoclient_task_container st", OF R]
    by auto
  have s1: "active_clients ?s1 = ?ac"
    using fold_keeps [of active_clients "run_reqtask env" _ ?s0] same(1) by simp
  have B: "active_clients (run_broadcast env b s) = ?ac \<and>
      (\<exists>d. outbox (run_broadcast env b s) = outbox s @ map (\<lambda>sp. (sp, b)) d \<and>
        list_all2 (\<lambda>sp (name, socks). sp \<in> socks_set socks) d ?ac)"
    if "active_clients s = ?ac" for b s
    using run_broadcast_outbox [of s env b] ac rnd same(2) that by simp
  obtain bs where bs: "outbox (fold (run_broadcast env) (broadcast_task_container st) ?s1) =
      outbox ?s1 @ concat (map2 (\<lambda>b d. map (\<lambda>sp. (sp, b)) d) (broadcast_task_container st) bs)"
    "list_all2 (\<lambda>b d. list_all2 (\<lambda>sp (name, socks). sp \<in> socks_set socks) d ?ac)
      (broadcast_task_container st) bs"
    using list_all2_exI [where I = "\<lambda>s. active_clients s = ?ac" and f = "run_broadcast env"
        and g = "\<lambda>b d. map (\<lambda>sp. (sp, b)) d" and xs = "broadcast_task_container st", OF B s1]
    by auto
  have q: "reqtoclient_task_container (fold (run_broadcast env) b ?s1) = []"
    "broadcast_task_container (fold (run_broadcast env) b ?s1) = []" for b
    using fold_keeps [of reqtoclient_task_container "run_broadcast env"]
      fold_keeps [of broadcast_task_container "run_broadcast env"]
      fold_keeps [of reqtoclient_task_container "run_reqtask env"]
      fold_keeps [of broadcast_task_container "run_reqtask env"]
    by (simp_all add: run_queues)
  show ?thesis
    using run ds bs q by (auto simp: msgbus_process_round_def Let_def)
qed

section \<open>Closing a connection\<close>

lemma unregister_removes:
  assumes "registry_inv st"
    and "map_of (available_services (unregister_client_from_service st name host)) name = Some hs" "h \<in> set hs"
  shows "\<not> ClientHostIsEqual h host"
proof
  assume eq: "ClientHostIsEqual h host"
  have s: "map_sorted (available_services st)" using assms(1) by (simp add: registry_inv_def)
  show False
  proof (cases "map_of (available_services st) name")
    case None
    with assms(2) show ?thesis by (simp add: unregister_client_from_service_def)
  next
    case (Some hs0)
    show ?thesis
    proof (cases "find_host hs0 host")
      case None
      with Some assms eq show ?thesis
        by (auto simp: unregister_client_from_service_def find_host_None)
    next
      case i: (Some i)
      have ih: "i < length hs0" "ClientHostIsEqual (hs0 ! i) host" using find_host_Some [OF i] by auto
      have "hs = take i hs0 @ drop (Suc i) hs0"
        using assms(2) Some i s
        by (auto simp: unregister_client_from_service_def Let_def map_of_insert map_of_erase split: if_splits)
      moreover obtain x a b where x: "hs0 = a @ x # b" "take i hs0 @ drop (Suc i) hs0 = a @ b"
        "ClientHostIsEqual x host"
        using split_nth [OF ih(1)] ih(2) by metis
      ultimately have h: "h \<in> set a \<union> set b" using assms(3) by simp
      have "distinct (map (\<lambda>h. (ip_v h, port_v h)) (a @ x # b))"
        using inv_hosts [OF assms(1) Some] unfolding x(1) hosts_ok_def by blast
      then have "(ip_v x, port_v x) \<notin> (\<lambda>h. (ip_v h, port_v h)) ` (set a \<union> set b)" by auto
      moreover have "(ip_v x, port_v x) = (ip_v h, port_v h)"
        using eq x(3) by (simp add: ClientHostIsEqual_iff)
      ultimately show ?thesis using h by blast
    qed
  qed
qed

lemma inv_find_active:
  assumes "registry_inv st" "find_active (active_clients st) sp = Some (name, socks)"
  shows "map_of (active_clients st) name = Some socks" "map_of socks sp = Some sp" "sp \<noteq> 0"
proof -
  have f: "(name, socks) \<in> set (active_clients st)" "map_of socks sp \<noteq> None"
    using find_active_Some [OF assms(2)] by auto
  then show "map_of (active_clients st) name = Some socks"
    using assms(1) by (simp add: registry_inv_def map_of_in_set)
  then have "socks_ok socks" using inv_socks [OF assms(1)] by blast
  moreover obtain y where y: "map_of socks sp = Some y" using f(2) by blast
  ultimately have "y = sp" "sp \<noteq> 0"
    using map_of_SomeD [OF y] by (auto simp: socks_ok_def list_all_iff)
  with y show "map_of socks sp = Some sp" "sp \<noteq> 0" by simp_all
qed

lemma find_active_map: "map_sorted ac \<Longrightarrow>
  find_active ac sp = None \<longleftrightarrow> (\<forall>n s. map_of ac n = Some s \<longrightarrow> map_of s sp = None)"
  by (auto simp: find_active_None map_of_in_set)

text \<open>The state of the active connections after \<open>server_onClose\<close>.\<close>

lemma server_onClose_result:
  assumes inv: "registry_inv st" and f: "find_active (active_clients st) sp = Some (name, socks)"
    and host: "tcp_services_map st (si_fd (sock_heap st sp)) = Some host"
  shows "\<exists>st'. server_onClose st sp = Inr st' \<and> registry_inv st' \<and>
    tcp_services_map st' (si_fd (sock_heap st' sp)) = None \<and>
    map_of (active_clients st') = (map_of (active_clients st))
      (name := (if map_erase sp socks = [] then None else Some (map_erase sp socks))) \<and>
    (\<forall>hs h. map_of (available_services st') name = Some hs \<longrightarrow> h \<in> set hs \<longrightarrow> \<not> ClientHostIsEqual h host)"
proof -
  define st1 where "st1 = st\<lparr>tcp_services_map := (tcp_services_map st)(si_fd (sock_heap st sp) := None),
      active_clients := (if map_erase sp socks = [] then map_erase name (active_clients st)
        else map_insert name (map_erase sp socks) (active_clients st))\<rparr>"
  have c: "server_onClose st sp = Inr (unregister_client_from_service st1 name host)"
    using inv_find_active [OF inv f] f host by (simp add: server_onClose_def deref_def st1_def Let_def)
  have s: "map_sorted (active_clients st)" using inv by (simp add: registry_inv_def)
  have "socks_ok socks" using inv_socks [OF inv inv_find_active(1) [OF inv f]] by blast
  then have "registry_inv st1"
    using inv inv_socks [OF inv inv_find_active(1) [OF inv f]]
    by (auto simp: registry_inv_def st1_def list_all_iff set_map_insert set_map_erase_eq socks_ok_erase)
  with c s unregister_removes [of st1 name host] server_onClose_inv [OF inv c] show ?thesis
    by (auto simp: st1_def map_of_insert map_of_erase)
qed

lemma server_onClose_once:
  assumes inv: "registry_inv st" and f: "find_active (active_clients st) sp = Some (name, socks)"
    and host: "tcp_services_map st (si_fd (sock_heap st sp)) = Some host"
    and once: "\<And>n s. map_of (active_clients st) n = Some s \<Longrightarrow> n \<noteq> name \<Longrightarrow> map_of s sp = None"
  shows "\<exists>st'. server_onClose st sp = Inr st' \<and> find_active (active_clients st') sp = None \<and>
    tcp_services_map st' (si_fd (sock_heap st' sp)) = None \<and>
    (\<forall>hs h. map_of (available_services st') name = Some hs \<longrightarrow> h \<in> set hs \<longrightarrow> \<not> ClientHostIsEqual h host)"
proof -
  obtain st' where st': "server_onClose st sp = Inr st'" "registry_inv st'"
    "tcp_services_map st' (si_fd (sock_heap st' sp)) = None"
    "map_of (active_clients st') = (map_of (active_clients st))
      (name := (if map_erase sp socks = [] then None else Some (map_erase sp socks)))"
    "\<forall>hs h. map_of (available_services st') name = Some hs \<longrightarrow> h \<in> set hs \<longrightarrow> \<not> ClientHostIsEqual h host"
    using server_onClose_result [OF inv f host] by blast
  have "map_sorted socks"
    using inv_socks [OF inv inv_find_active(1) [OF inv f]] by (simp add: socks_ok_def)
  then have "map_of (map_erase sp socks) sp = None" by (simp add: map_of_erase)
  then have "map_of s sp = None" if "map_of (active_clients st') n = Some s" for n s
    using that once [of n s] unfolding st'(4) by (auto split: if_splits)
  moreover have "map_sorted (active_clients st')" using st'(2) by (simp add: registry_inv_def)
  ultimately have "find_active (active_clients st') sp = None" by (simp add: find_active_map)
  with st' show ?thesis by blast
qed

lemma server_onClose_twice:
  assumes inv: "registry_inv st" and f: "find_active (active_clients st) sp = Some (name, socks)"
    and host: "tcp_services_map st (si_fd (sock_heap st sp)) = Some host"
    and two: "map_of (active_clients st) n2 = Some s2" "n2 \<noteq> name" "map_of s2 sp \<noteq> None"
  shows "\<exists>st'. server_onClose st sp = Inr st' \<and> find_active (active_clients st') sp \<noteq> None \<and>
    check_register_client st' sp = Inr False"
proof -
  obtain st' where st': "server_onClose st sp = Inr st'" "registry_inv st'"
    "tcp_services_map st' (si_fd (sock_heap st' sp)) = None"
    "map_of (active_clients st') = (map_of (active_clients st))
      (name := (if map_erase sp socks = [] then None else Some (map_erase sp socks)))"
    using server_onClose_result [OF inv f host] by blast
  have "map_of (active_clients st') n2 = Some s2" using st'(4) two by simp
  moreover have "map_sorted (active_clients st')" using st'(2) by (simp add: registry_inv_def)
  ultimately have "find_active (active_clients st') sp \<noteq> None"
    using two(3) by (auto simp: find_active_map)
  with st' inv_find_active(3) [OF inv f] show ?thesis
    by (simp add: check_register_client_def deref_def)
qed

section \<open>Dispatch\<close>

lemma dispatch_register:
  "msg_type head = 0 \<Longrightarrow> body_type head = REQ_REGISTER \<Longrightarrow> sp \<noteq> 0 \<Longrightarrow>
   process_data_from_client env st sp head body = process_register_req st sp head body"
  by (simp add: process_data_from_client_def check_register_client_def deref_def)

lemma dispatch_registered:
  assumes "msg_type head = 0" "check_register_client st sp = Inr True"
  shows "body_type head = REQ_GETCLIENT \<Longrightarrow>
      process_data_from_client env st sp head body = process_getclient_req env st sp head body"
    and "body_type head = REQ_SENDMSG \<Longrightarrow>
      process_data_from_client env st sp head body = process_sendmsg_req env st sp head body"
  using assms by (simp_all add: process_data_from_client_def body_type_defs)

lemma check_register_nonnull: "check_register_client st sp = Inr b \<Longrightarrow> sp \<noteq> 0"
  by (auto simp: check_register_client_def deref_def)

text \<open>
  Registering never withdraws a connection's registration: the map from descriptors only grows.
\<close>

lemma register_host_keeps_tcp:
  "register_host st sp name host r e = Inr (st', r', e') \<Longrightarrow>
   sock_heap st' = sock_heap st \<and> dom (tcp_services_map st) \<subseteq> dom (tcp_services_map st')"
  by (auto simp: register_host_def Let_def deref_def split: option.splits if_splits)

lemma process_register_keeps_tcp:
  assumes "process_register_req st sp head body = Inr st'"
  shows "sock_heap st' = sock_heap st \<and> dom (tcp_services_map st) \<subseteq> dom (tcp_services_map st')"
  using assms unfolding process_register_req_def Let_def
  by (elim cbindE)
     (auto dest: register_host_keeps_tcp split: if_splits prod.splits elim!: cbindE, (blast dest: register_host_keeps_tcp)+)

lemma check_register_mono:
  assumes "process_register_req st sp head body = Inr st'" "check_register_client st sq = Inr True"
  shows "check_register_client st' sq = Inr True"
  using process_register_keeps_tcp [OF assms(1)] assms(2)
  by (auto simp: check_register_client_def deref_def split: if_splits)

section \<open>Concrete inputs for the witnesses\<close>

definition demo_env :: server_env where
  "demo_env = \<lparr>rnd = (\<lambda>_. 0), pb_parse = (\<lambda>_. None), pb_serialize = (\<lambda>_. []), junk_name = replicate 64 0\<rparr>"

definition demo_heap :: "int \<Rightarrow> sock_info" where
  "demo_heap sp = \<lparr>si_fd = sp, si_ip = lit ''10.0.0.1'', si_port = 9000\<rparr>"

definition demo_host :: ClientHost where
  "demo_host = \<lparr>ip_v = 16777343, port_v = htons 80, busy_state_v = 0\<rparr>"

definition demo_head :: "u32 \<Rightarrow> u32 \<Rightarrow> MsgBusPackHead" where
  "demo_head bt n = (new_MsgBusPackHead 0 bt)\<lparr>msg_id := 7, body_len := n\<rparr>"

text \<open>Connection 1 has registered the service \<open>a\<close> at \<open>demo_host\<close>.\<close>

definition demo_server :: server where
  "demo_server = (server_init demo_heap)\<lparr>available_services := [(lit ''a'', [demo_host])],
     active_clients := [(lit ''a'', [(1, 1)])], tcp_services_map := [1 \<mapsto> demo_host]\<rparr>"

lemma demo_inv: "registry_inv demo_server"
  by (simp add: demo_server_def server_init_def registry_inv_def socks_ok_def lit_def)

lemma demo_simps [simp]:
  "rnd demo_env i \<le> RAND_MAX" "msg_type (demo_head bt n) = 0" "body_type (demo_head bt n) = bt"
  "body_len (demo_head bt n) = n" "msg_id (demo_head bt n) = 7"
  "host_port demo_host \<noteq> 0" "ip_v demo_host \<noteq> 0" "server_terminate demo_server = False"
  "check_register_client demo_server 1 = Inr True"
  by (simp_all add: demo_env_def demo_head_def new_MsgBusPackHead_def demo_host_def host_port_def
      demo_server_def server_init_def check_register_client_def deref_def demo_heap_def)

end
