(* ===== verification/Server_Theorems.thy ===== *)
theory Server_Theorems
  imports Server_Props
begin

text \<open>
  The properties of the message bus server.
\<close>

text \<open>
  C7: in every run of the server, from any packets, closed and timed-out connections, new connections and
  relay rounds in any order, the registry stays well-formed: both tables are sorted maps without empty
  names, every service has at least one host and no two hosts of a service share address and port, and
  every active service has at least one (non-null) connection, stored under its own address.
\<close>

theorem server_registry_invariant:
  assumes "(server_step env)\<^sup>*\<^sup>* (server_init heap) st"
  shows "registry_inv st"
  using server_run.reachable_inv [OF assms registry_inv_init] .

theorem server_registry_invariant_witness:
  "\<exists>st. server_step demo_env (server_init demo_heap) st \<and> registry_inv st \<and>
     map_of (available_services st) (lit ''a'') \<noteq> None"
proof -
  obtain st hs where st: "process_register_req (server_init demo_heap) 1 (demo_head REQ_REGISTER 74)
      (reg_body (lit ''a'') demo_host) = Inr st" "map_of (available_services st) (lit ''a'') = Some hs"
    using process_register_ok [of "lit ''a''" demo_host "server_init demo_heap" 1 "demo_head REQ_REGISTER 74"]
    by (force simp: registry_inv_init lit_def)
  have step: "server_step demo_env (server_init demo_heap) st"
    using st(1) dispatch_register [of "demo_head REQ_REGISTER 74" 1]
    by (intro server_step.handle [where sp = 1 and head = "demo_head REQ_REGISTER 74"]) simp
  then have "registry_inv st"
    by (intro server_registry_invariant [of demo_env demo_heap]) simp
  with step st(2) show ?thesis by auto
qed

text \<open>
  a connection that has not registered is served nothing but registration and heartbeat: any other
  request leaves the whole server unchanged and unanswered.
\<close>

theorem server_ignores_unregistered:
  assumes "check_register_client st sp = Inr False"
    and "msg_type head = 0" "body_type head \<noteq> REQ_REGISTER" "body_type head \<noteq> REQ_CONFIRM_ALIVE"
  shows "process_data_from_client env st sp head body = Inr st"
  using assms by (simp add: process_data_from_client_def)

theorem server_ignores_unregistered_witness:
  "process_data_from_client demo_env demo_server 2 (demo_head REQ_SENDMSG 5) [1, 2, 3, 4, 5] = Inr demo_server"
  by (rule server_ignores_unregistered)
     (simp_all add: check_register_client_def deref_def demo_server_def server_init_def demo_heap_def
        body_type_defs)

text \<open>
  register, then look up. A register request with a non-empty name and an address with port is
  answered with return code 0, and from then on every registered connection that asks for the name gets
  return code 0 and the address of one of the hosts of that service, among them the new one; no value of
  \<open>rand()\<close> makes the selection leave the list.
\<close>

theorem server_register_lookup:
  assumes "registry_inv st" "\<And>i. rnd env i \<le> RAND_MAX" "sp \<noteq> 0" "check_register_client st sq = Inr True"
    and "0 \<notin> set name" "length name < 64" "name \<noteq> []" "ip_v host \<noteq> 0" "host_port host \<noteq> 0"
    and "msg_type head = 0" "body_type head = REQ_REGISTER" "msg_type head' = 0" "body_type head' = REQ_GETCLIENT"
  shows "\<exists>st1 bs1 m1 hs st2 bs2 m2.
    process_data_from_client env st sp head (reg_body name host) = Inr st1 \<and>
    outbox st1 = outbox st @ [(sp, bs1)] \<and>
    RegisterRsp_UnPackData m0 bs1 0 0 = Inr (0, m1) \<and> rrsp_ret_code m1 = 0 \<and> msg_id m1 = msg_id head \<and>
    map_of (available_services st1) name = Some hs \<and>
    (\<exists>h\<in>set hs. ClientHostIsEqual h host \<and> host_state h = host_state host) \<and>
    process_data_from_client env st1 sq head' (cpad 64 name) = Inr st2 \<and>
    outbox st2 = outbox st1 @ [(sq, bs2)] \<and>
    GetClientRsp_UnPackData m0' bs2 0 0 = Inr (0, m2) \<and> gcrsp_ret_code m2 = 0 \<and> msg_id m2 = msg_id head' \<and>
    gcrsp_dest_host m2 \<in> set hs"
proof -
  obtain st1 hs bs1 m1 where 1: "process_register_req st sp head (reg_body name host) = Inr st1"
    "map_of (available_services st1) name = Some hs"
    "\<exists>h\<in>set hs. ClientHostIsEqual h host \<and> host_state h = host_state host"
    "outbox st1 = outbox st @ [(sp, bs1)]" "RegisterRsp_UnPackData m0 bs1 0 0 = Inr (0, m1)"
    "rrsp_ret_code m1 = 0" "msg_id m1 = msg_id head"
    using process_register_ok [OF assms(5,6,7,8,9,1,3)] by blast
  have sq: "check_register_client st1 sq = Inr True" using check_register_mono [OF 1(1) assms(4)] .
  have "process_data_from_client env st sp head (reg_body name host) = Inr st1"
    using dispatch_register [OF assms(10,11,3)] 1(1) by simp
  moreover from process_getclient_ok [OF assms(5,6) process_register_inv [OF assms(1) 1(1)]
      check_register_nonnull [OF sq] assms(2), of head' m0'] 1(2)
  obtain st2 bs2 m2 where "process_getclient_req env st1 sq head' (cpad 64 name) = Inr st2"
    "outbox st2 = outbox st1 @ [(sq, bs2)]" "GetClientRsp_UnPackData m0' bs2 0 0 = Inr (0, m2)"
    "msg_id m2 = msg_id head'" "gcrsp_ret_code m2 = 0" "gcrsp_dest_host m2 \<in> set hs"
    by auto
  moreover have "process_data_from_client env st1 sq head' (cpad 64 name) =
      process_getclient_req env st1 sq head' (cpad 64 name)"
    using dispatch_registered(1) [OF assms(12) sq assms(13)] .
  ultimately show ?thesis using 1(2-) by metis
qed

theorem server_register_lookup_witness:
  "\<exists>st1 bs1 m1 hs st2 bs2 m2.
    process_data_from_client demo_env demo_server 2 (demo_head REQ_REGISTER 74) (reg_body (lit ''b'') demo_host)
      = Inr st1 \<and>
    outbox st1 = outbox demo_server @ [(2, bs1)] \<and>
    RegisterRsp_UnPackData (new_MsgBusRegisterRsp 0 []) bs1 0 0 = Inr (0, m1) \<and> rrsp_ret_code m1 = 0 \<and>
    msg_id m1 = msg_id (demo_head REQ_REGISTER 74) \<and>
    map_of (available_services st1) (lit ''b'') = Some hs \<and>
    (\<exists>h\<in>set hs. ClientHostIsEqual h demo_host \<and> host_state h = host_state demo_host) \<and>
    process_data_from_client demo_env st1 1 (demo_head REQ_GETCLIENT 64) (cpad 64 (lit ''b'')) = Inr st2 \<and>
    outbox st2 = outbox st1 @ [(1, bs2)] \<and>
    GetClientRsp_UnPackData (new_MsgBusGetClientRsp 0 []) bs2 0 0 = Inr (0, m2) \<and> gcrsp_ret_code m2 = 0 \<and>
    msg_id m2 = msg_id (demo_head REQ_GETCLIENT 64) \<and> gcrsp_dest_host m2 \<in> set hs"
  by (rule server_register_lookup) (simp_all add: demo_inv, simp_all add: lit_def)

text \<open>
  relaying a message. A send request of a registered connection is answered exactly once, with
  return code 0 exactly when some active service name is a prefix of the destination or the other way
  round. Then one packet that unpacks to the same destination, sender and content is queued, for
  broadcast when the destination is empty and for the destination otherwise; if not, nothing is queued.
\<close>

theorem server_sendmsg:
  assumes "registry_inv st" "check_register_client st sp = Inr True"
    and "msg_type head = 0" "body_type head = REQ_SENDMSG"
    and "unat (body_len head) = length (sm_body dest from c)" "148 + length c < 2 ^ 32"
    and "0 \<notin> set dest" "length dest < 64" "0 \<notin> set from" "length from < 64"
  shows "\<exists>st' bs pkt m m'. process_data_from_client env st sp head (sm_body dest from c) = Inr st' \<and>
    outbox st' = outbox st @ [(sp, bs)] \<and>
    SendMsgRsp_UnPackData m0 bs 0 0 = Inr (0, m) \<and> msg_id m = msg_id head \<and>
    SendMsgReq_UnPackData m1 pkt 0 0 = Inr (0, m') \<and>
    smreq_dest_name m' = cpad 64 dest \<and> smreq_from_name m' = cpad 64 from \<and> smreq_msg_content m' = Some c \<and>
    (if list_ex (\<lambda>(name, socks). \<exists>z. name = dest @ z \<or> dest = name @ z) (active_clients st)
     then smrsp_ret_code m = 0 \<and>
       (if dest = []
        then broadcast_task_container st' = broadcast_task_container st @ [pkt] \<and>
          reqtoclient_task_container st' = reqtoclient_task_container st
        else broadcast_task_container st' = broadcast_task_container st \<and>
          reqtoclient_task_container st' = reqtoclient_task_container st
            @ [\<lparr>rt_client_name = dest, rt_data = pkt\<rparr>])
     else smrsp_ret_code m = 1 \<and> broadcast_task_container st' = broadcast_task_container st \<and>
       reqtoclient_task_container st' = reqtoclient_task_container st)"
proof -
  have sp: "sp \<noteq> 0" using check_register_nonnull [OF assms(2)] .
  have ex: "dest_exists (active_clients st) dest \<longleftrightarrow>
      list_ex (\<lambda>(name, socks). \<exists>z. name = dest @ z \<or> dest = name @ z) (active_clients st)"
  proof -
    have "e \<in> set (active_clients st) \<Longrightarrow> snd e \<noteq> []" for e
      using assms(1) by (auto simp: registry_inv_def list_all_iff socks_ok_def)
    then have "dest_exists (active_clients st) dest \<longleftrightarrow>
        (\<exists>e\<in>set (active_clients st). is_prefix_matching (fst e) dest)"
      unfolding dest_exists_iff by (auto simp: split_beta)
    then show ?thesis by (simp add: is_prefix_matching_iff list_ex_iff split_beta ex_disj_distrib)
  qed
  obtain bs pkt m m' where r: "process_sendmsg_req env st sp head (sm_body dest from c) =
      Inr (reply (queue_relay st dest pkt) sp bs)" "SendMsgRsp_UnPackData m0 bs 0 0 = Inr (0, m)"
    "msg_id m = msg_id head" "smrsp_ret_code m = (if dest_exists (active_clients st) dest then 0 else 1)"
    "SendMsgReq_UnPackData m1 pkt 0 0 = Inr (0, m')" "smreq_dest_name m' = cpad 64 dest"
    "smreq_from_name m' = cpad 64 from" "smreq_msg_content m' = Some c"
    using process_sendmsg_ok [OF assms(6-10) assms(5) sp, where ?m1.0 = m1] by blast
  have "process_data_from_client env st sp head (sm_body dest from c) =
      Inr (reply (queue_relay st dest pkt) sp bs)"
    using dispatch_registered(2) [OF assms(3,2,4)] r(1) by simp
  moreover have "outbox (queue_relay st dest pkt) = outbox st"
    by (simp add: queue_relay_def msgbus_queue_broadcast_def msgbus_queue_reqtoclient_def)
  ultimately show ?thesis
    using r(2-) sp ex
    by (intro exI [of _ "reply (queue_relay st dest pkt) sp bs"] exI [of _ bs] exI [of _ pkt] exI [of _ m]
          exI [of _ m'])
       (auto simp: outbox_reply queue_relay_def msgbus_queue_broadcast_def msgbus_queue_reqtoclient_def)
qed

theorem server_sendmsg_witness:
  "\<exists>st' bs pkt m m'. process_data_from_client demo_env demo_server 1 (demo_head REQ_SENDMSG 135)
      (sm_body (lit ''ab'') (lit ''a'') [1, 0, 2]) = Inr st' \<and>
    outbox st' = outbox demo_server @ [(1, bs)] \<and>
    SendMsgRsp_UnPackData (new_MsgBusSendMsgRsp 0) bs 0 0 = Inr (0, m) \<and>
    msg_id m = msg_id (demo_head REQ_SENDMSG 135) \<and>
    SendMsgReq_UnPackData (new_MsgBusSendMsgReq [] []) pkt 0 0 = Inr (0, m') \<and>
    smreq_dest_name m' = cpad 64 (lit ''ab'') \<and> smreq_from_name m' = cpad 64 (lit ''a'') \<and>
    smreq_msg_content m' = Some [1, 0, 2] \<and>
    (if list_ex (\<lambda>(name, socks). \<exists>z. name = lit ''ab'' @ z \<or> lit ''ab'' = name @ z) (active_clients demo_server)
     then smrsp_ret_code m = 0 \<and>
       (if lit ''ab'' = []
        then broadcast_task_container st' = broadcast_task_container demo_server @ [pkt] \<and>
          reqtoclient_task_container st' = reqtoclient_task_container demo_server
        else broadcast_task_container st' = broadcast_task_container demo_server \<and>
          reqtoclient_task_container st' = reqtoclient_task_container demo_server
            @ [\<lparr>rt_client_name = lit ''ab'', rt_data = pkt\<rparr>])
     else smrsp_ret_code m = 1 \<and> broadcast_task_container st' = broadcast_task_container demo_server \<and>
       reqtoclient_task_container st' = reqtoclient_task_container demo_server)"
  by (rule server_sendmsg) (simp_all add: demo_inv, simp_all add: lit_def sm_body_def)



text \<open>
  C11: framing. However the bytes of a connection are cut into reads, the server hands exactly the
  packets of the byte stream to its workers, in order, each with the body its head announces, and keeps
  the incomplete rest for the next read; if and only if some packet announces an empty body an assertion fails.
\<close>

theorem server_stream:
  "server_feed chunks =
     (let (packets, rest) = frames bus_parse (concat chunks) in
      if nonempty_bodies packets then Inr (packets, rest) else Inl AssertFailed)"
  by (cases "frames bus_parse (concat chunks)") (simp add: server_feed_frames)

text \<open>
  closing a connection that is registered under one name removes it: it is no active connection of
  any service, it counts as unregistered, and the host it registered is gone from its service.
\<close>

theorem server_close_removes:
  assumes "registry_inv st" "map_of (active_clients st) name = Some socks" "map_of socks sp \<noteq> None"
    and "\<And>n s. map_of (active_clients st) n = Some s \<Longrightarrow> n \<noteq> name \<Longrightarrow> map_of s sp = None"
    and "tcp_services_map st (si_fd (sock_heap st sp)) = Some host"
  shows "\<exists>st'. server_onClose st sp = Inr st' \<and> find_active (active_clients st') sp = None \<and>
    tcp_services_map st' (si_fd (sock_heap st' sp)) = None \<and>
    (\<forall>hs h. map_of (available_services st') name = Some hs \<longrightarrow> h \<in> set hs \<longrightarrow> \<not> ClientHostIsEqual h host)"
proof -
  have "map_sorted (active_clients st)" using assms(1) by (simp add: registry_inv_def)
  then have "find_active (active_clients st) sp \<noteq> None" using assms(2,3) by (auto simp: find_active_map)
  then obtain n s where f: "find_active (active_clients st) sp = Some (n, s)" by auto
  then have "n = name"
    using inv_find_active [OF assms(1) f] assms(4) by fastforce
  with f assms show ?thesis by (intro server_onClose_once [where socks = s]) auto
qed

theorem server_close_removes_witness:
  "\<exists>st'. server_onClose demo_server 1 = Inr st' \<and> find_active (active_clients st') 1 = None \<and>
    tcp_services_map st' (si_fd (sock_heap st' 1)) = None \<and>
    (\<forall>hs h. map_of (available_services st') (lit ''a'') = Some hs \<longrightarrow> h \<in> set hs \<longrightarrow>
       \<not> ClientHostIsEqual h demo_host)"
  by (rule server_close_removes [where socks = "[(1, 1)]"])
     (simp_all add: demo_inv, auto simp: demo_server_def server_init_def demo_heap_def split: if_splits)

text \<open>
  a connection registered under two names is only half removed: after closing it, it is still an active
  connection of the other service, although the server no longer counts it as registered.
\<close>

theorem server_close_leaves_second_name:
  assumes "registry_inv st" "find_active (active_clients st) sp = Some (name, socks)"
    and "tcp_services_map st (si_fd (sock_heap st sp)) = Some host"
    and "map_of (active_clients st) name2 = Some socks2" "name2 \<noteq> name" "map_of socks2 sp \<noteq> None"
  shows "\<exists>st'. server_onClose st sp = Inr st' \<and> find_active (active_clients st') sp \<noteq> None \<and>
    check_register_client st' sp = Inr False"
  by (rule server_onClose_twice [OF assms])

theorem server_close_leaves_second_name_witness:
  "\<exists>st'. server_onClose (demo_server\<lparr>active_clients := [(lit ''a'', [(1, 1)]), (lit ''b'', [(1, 1)])]\<rparr>) 1
     = Inr st' \<and> find_active (active_clients st') 1 \<noteq> None \<and> check_register_client st' 1 = Inr False"
  by (rule server_close_leaves_second_name [where name = "lit ''a''" and ?name2.0 = "lit ''b''"
        and socks = "[(1, 1)]" and ?socks2.0 = "[(1, 1)]" and host = demo_host])
     (simp_all add: demo_server_def server_init_def demo_heap_def registry_inv_def socks_ok_def lit_def)

text \<open>
  a host that registers again over a new connection (before the server has seen the old one close) is
  answered with success, but only its state is updated: the new connection stays unregistered, so that
  all its other requests are ignored.
\<close>

theorem server_reregister_not_registered:
  assumes "map_of (available_services st) name = Some hs" "find_host hs host = Some i"
    and "check_register_client st sp = Inr False"
  shows "\<exists>st'. register_host st sp name host 0 [] = Inr (st', 0, []) \<and> check_register_client st' sp = Inr False"
  using assms by (auto simp: register_host_def check_register_client_def deref_def split: if_splits)

theorem server_reregister_not_registered_witness:
  "\<exists>st'. register_host demo_server 2 (lit ''a'') demo_host 0 [] = Inr (st', 0, []) \<and>
     check_register_client st' 2 = Inr False"
  by (rule server_reregister_not_registered [where hs = "[demo_host]" and i = 0])
     (simp_all add: demo_server_def server_init_def check_register_client_def deref_def demo_heap_def
        ClientHostIsEqual_iff)

text \<open>
  selecting a connection. For every possible value r of \<open>rand()\<close> the loop picks the element after the
  one at position r * n / 2^31, cyclically: always an element of the container, never null.
\<close>

theorem server_select_connection:
  assumes "r \<le> RAND_MAX" "c \<noteq> []" "list_all (\<lambda>(k, sp). sp \<noteq> 0) c"
  shows "select_best_tcp r c = Some (snd (c ! ((r * length c div 2 ^ 31 + 1) mod length c)))"
  using select_best_tcp_nth [OF assms] by (simp add: randselect_def RAND_MAX_def)

theorem server_select_connection_witness:
  "select_best_tcp 2147483647 [(3, 3), (5, 5)] = Some 3"
  using server_select_connection [of 2147483647 "[(3, 3), (5, 5)]"] by (simp add: RAND_MAX_def)

text \<open>
  a complete packet that announces an empty body makes the read loop fail its assertion: any client
  can stop a server built with assertions by sending sixteen bytes.
\<close>

theorem server_empty_body_asserts:
  fixes m :: MsgBusPackHead
  assumes "body_len m = 0"
  shows "server_onRead (head_bytes m @ tail) = Inl AssertFailed"
proof -
  have "UnPackHead (new_MsgBusPackHead_raw 0) (head_bytes m @ tail) 0 0 = Inr (12, copy_head (new_MsgBusPackHead_raw 0) m)"
    by (rule UnPackHead_holds) simp_all
  with assms show ?thesis by (simp add: server_onRead_def server_read_loop.simps)
qed

theorem server_empty_body_asserts_witness:
  "server_onRead (head_bytes (new_MsgBusPackHead 0 REQ_REGISTER) @ []) = Inl AssertFailed"
  by (rule server_empty_body_asserts) (simp add: new_MsgBusPackHead_def)

end
