(* ===== verification/Tcp_Sock.thy ===== *)
theory Tcp_Sock
  imports Fast_Buffer Host_Info
begin

unbundle bit_operations_syntax

text \<open>
  A TCP connection: the event mask of \<^verbatim>\<open>src/Core/SockEvent.hpp\<close>, the callbacks of
  \<^verbatim>\<open>src/Core/SockHandler.h\<close> and \<^verbatim>\<open>src/Core/TcpSock.h\<close>, \<^verbatim>\<open>src/Core/TcpSock.cpp\<close>.

  What the code asks of its surroundings is explicit. The results of \<open>read\<close> and \<open>write\<close> are a list of
  outcomes; an exhausted list is \<open>EAGAIN\<close>. \<open>sent_bytes\<close> is what the kernel has accepted. The record \<open>thread_ctx\<close>
  says which event loop thread runs the code; calls the event loop receives (tasks it queues, updates,
  removal) and callback invocations are appended to \<open>calls\<close>. A callback is given by what it returns; callbacks
  do not call back into the same socket.
\<close>

section \<open>Events\<close>

type_synonym EventResult = u32

definition EV_NOEVENT :: EventResult where "EV_NOEVENT = 0"
definition EV_READ :: EventResult where "EV_READ = 1"
definition EV_WRITE :: EventResult where "EV_WRITE = 2"
definition EV_EXCEPTION :: EventResult where "EV_EXCEPTION = 4"
definition EV_ALL :: EventResult where "EV_ALL = 7"

type_synonym SockEvent = EventResult

definition hasAny :: "SockEvent \<Rightarrow> bool" where "hasAny ev \<longleftrightarrow> ev \<noteq> EV_NOEVENT"
definition hasEvent :: "SockEvent \<Rightarrow> EventResult \<Rightarrow> bool" where "hasEvent ev er \<longleftrightarrow> ev AND er \<noteq> EV_NOEVENT"
definition hasRead :: "SockEvent \<Rightarrow> bool" where "hasRead ev \<longleftrightarrow> ev AND EV_READ \<noteq> EV_NOEVENT"
definition hasWrite :: "SockEvent \<Rightarrow> bool" where "hasWrite ev \<longleftrightarrow> ev AND EV_WRITE \<noteq> EV_NOEVENT"
definition hasException :: "SockEvent \<Rightarrow> bool" where "hasException ev \<longleftrightarrow> ev AND EV_EXCEPTION \<noteq> EV_NOEVENT"
definition ev_AddEvent :: "SockEvent \<Rightarrow> EventResult \<Rightarrow> SockEvent" where "ev_AddEvent ev er = ev OR er"
definition ev_RemoveEvent :: "SockEvent \<Rightarrow> EventResult \<Rightarrow> SockEvent" where "ev_RemoveEvent ev er = ev AND NOT er"

section \<open>State\<close>

record SockHandler =
  onRead :: "(byte list \<Rightarrow> nat) option"
  onSend :: "bool option"
  onClose :: bool
  onError :: bool
  onTimeout :: bool

definition SockHandler_clear :: SockHandler where
  "SockHandler_clear = \<lparr>onRead = None, onSend = None, onClose = False, onError = False, onTimeout = False\<rparr>"

datatype io_result = Bytes "byte list" | Wrote nat | Fail int

datatype sock_call =
    CB_onRead "byte list" | CB_onSend | CB_onClose | CB_onError | CB_onTimeout
  | UpdateTcpSock | RemoveTcpSock | ShutdownFd
  | QueueSend "byte list" | QueueShutDown | QueueClose bool | QueueAddEvent EventResult

record TcpSock =
  m_inbuf :: FastBuffer
  m_outbuf :: FastBuffer
  m_sockcb :: SockHandler
  m_fd :: int
  m_writeable :: bool
  m_allow_more_send :: bool
  m_isclosing :: bool
  m_sockev :: SockEvent
  m_caredev :: SockEvent
  m_alive_counter :: int
  m_errno :: int
  m_host_ip :: "byte list"
  m_host_port :: u16
  m_timeout_ms :: int
  m_timeout_renew :: int
  m_is_timeout_need :: bool
  m_evloop :: bool
  m_tmp_blocksize :: nat
  need_renew_timeout :: bool
  sent_bytes :: "byte list"
  calls :: "sock_call list"

record thread_ctx =
  in_loop :: bool
  in_write_loop :: bool

definition BLOCK_SIZE :: nat where "BLOCK_SIZE = 1024 * 8"
definition MAX_BUF_SIZE :: nat where "MAX_BUF_SIZE = BLOCK_SIZE * 64 * 8"
definition ALIVE_NUM :: int where "ALIVE_NUM = 5"

definition EAGAIN :: int where "EAGAIN = 11"
definition EINTR :: int where "EINTR = 4"
definition EPIPE :: int where "EPIPE = 32"

text \<open>The constructor for an accepted connection; \<open>errno0\<close> and \<open>renew0\<close> are members it leaves uninitialised.\<close>

definition new_TcpSock :: "int \<Rightarrow> bool \<Rightarrow> int \<Rightarrow> byte list \<Rightarrow> u16 \<Rightarrow> TcpSock" where
  "new_TcpSock errno0 renew0 fd ip port =
     \<lparr>m_inbuf = fb_new, m_outbuf = fb_new, m_sockcb = SockHandler_clear, m_fd = fd, m_writeable = True,
      m_allow_more_send = True, m_isclosing = False, m_sockev = EV_NOEVENT, m_caredev = EV_NOEVENT,
      m_alive_counter = ALIVE_NUM, m_errno = errno0, m_host_ip = ip, m_host_port = port,
      m_timeout_ms = - 1, m_timeout_renew = errno0, m_is_timeout_need = False, m_evloop = False,
      m_tmp_blocksize = BLOCK_SIZE, need_renew_timeout = renew0, sent_bytes = [], calls = []\<rparr>"

definition new_TcpSock_unconnected :: "int \<Rightarrow> bool \<Rightarrow> TcpSock" where
  "new_TcpSock_unconnected errno0 renew0 = (new_TcpSock errno0 renew0 (- 1) [] 0)
     \<lparr>m_writeable := False, m_allow_more_send := False, m_isclosing := True, m_alive_counter := - 1\<rparr>"

definition log_call :: "TcpSock \<Rightarrow> sock_call \<Rightarrow> TcpSock" where
  "log_call s c = s\<lparr>calls := calls s @ [c]\<rparr>"

section \<open>Operations\<close>

definition IsClosed :: "TcpSock \<Rightarrow> bool" where
  "IsClosed s = (if m_fd s = - 1 then True else m_isclosing s)"

definition Writeable :: "TcpSock \<Rightarrow> bool" where
  "Writeable s \<longleftrightarrow> m_writeable s \<and> m_allow_more_send s"

definition SetEventLoop :: "TcpSock \<Rightarrow> bool \<Rightarrow> TcpSock" where
  "SetEventLoop s pev = (if m_evloop s \<noteq> pev then s\<lparr>m_evloop := pev\<rparr> else s)"

definition SetSockHandler :: "TcpSock \<Rightarrow> SockHandler \<Rightarrow> TcpSock" where
  "SetSockHandler s cb = s\<lparr>m_sockcb := cb\<rparr>"

definition GetDestHost :: "TcpSock \<Rightarrow> (byte list \<times> u16) option" where
  "GetDestHost s = (if m_host_ip s = [] then None else Some (m_host_ip s, m_host_port s))"

definition sock_AddEvent :: "thread_ctx \<Rightarrow> TcpSock \<Rightarrow> EventResult \<Rightarrow> TcpSock cres" where
  "sock_AddEvent t s er =
     (if m_evloop s \<and> \<not> in_loop t then Inl AssertFailed else Inr (s\<lparr>m_sockev := ev_AddEvent (m_sockev s) er\<rparr>))"

definition sock_ClearEvent :: "thread_ctx \<Rightarrow> TcpSock \<Rightarrow> TcpSock cres" where
  "sock_ClearEvent t s =
     (if m_evloop s \<and> \<not> in_loop t then Inl AssertFailed else Inr (s\<lparr>m_sockev := EV_NOEVENT\<rparr>))"

text \<open>Timeouts; \<open>now\<close> is \<open>GetTickCount()\<close>.\<close>

definition SetTimeout :: "int \<Rightarrow> TcpSock \<Rightarrow> int \<Rightarrow> TcpSock" where
  "SetTimeout now s to_ms =
     (if to_ms \<le> 0 then s\<lparr>m_is_timeout_need := False\<rparr>
      else s\<lparr>m_timeout_renew := to_ms, m_timeout_ms := now + to_ms, m_is_timeout_need := True\<rparr>)"

definition RenewTimeout :: "thread_ctx \<Rightarrow> int \<Rightarrow> TcpSock \<Rightarrow> TcpSock cres" where
  "RenewTimeout t now s =
     (if m_is_timeout_need s then
        if \<not> m_evloop s then Inl NullPointer
        else if \<not> in_loop t then Inl AssertFailed
        else Inr (s\<lparr>m_timeout_ms := now + m_timeout_renew s, need_renew_timeout := False\<rparr>)
      else Inr s)"

definition UpdateTimeout :: "thread_ctx \<Rightarrow> int \<Rightarrow> TcpSock \<Rightarrow> TcpSock cres" where
  "UpdateTimeout t now s =
     (if m_is_timeout_need s then
        cbind (if need_renew_timeout s then RenewTimeout t now s else Inr s) (\<lambda>s.
        if now > m_timeout_ms s then
          if \<not> m_evloop s then Inl NullPointer
          else if \<not> in_loop t then Inl AssertFailed
          else cbind (RenewTimeout t now s) (\<lambda>s.
            Inr (if onTimeout (m_sockcb s) then log_call s CB_onTimeout else s\<lparr>m_is_timeout_need := False\<rparr>))
        else Inr s)
      else Inr s)"

definition AddAndUpdateEvent :: "TcpSock \<Rightarrow> EventResult \<Rightarrow> TcpSock" where
  "AddAndUpdateEvent s ev =
     (if m_evloop s then
        if hasEvent (m_caredev s) ev then s
        else log_call (s\<lparr>m_caredev := ev_AddEvent (m_caredev s) ev\<rparr>) UpdateTcpSock
      else s)"

definition RemoveAndUpdateEvent :: "TcpSock \<Rightarrow> EventResult \<Rightarrow> TcpSock" where
  "RemoveAndUpdateEvent s ev =
     (if m_evloop s then
        if \<not> hasEvent (m_caredev s) ev then s
        else log_call (s\<lparr>m_caredev := ev_RemoveEvent (m_caredev s) ev\<rparr>) UpdateTcpSock
      else s)"

definition ShutDownWrite :: "thread_ctx \<Rightarrow> TcpSock \<Rightarrow> TcpSock" where
  "ShutDownWrite t s =
     (if IsClosed s then s
      else if m_evloop s \<and> \<not> in_write_loop t then log_call s QueueShutDown
      else log_call (s\<lparr>m_writeable := False, m_outbuf := fb_clear (m_outbuf s)\<rparr>) ShutdownFd)"

definition DisAllowSend :: "thread_ctx \<Rightarrow> TcpSock \<Rightarrow> TcpSock" where
  "DisAllowSend t s =
     (let s = s\<lparr>m_allow_more_send := False\<rparr> in
      if m_evloop s then
        if fb_empty (m_outbuf s) then ShutDownWrite t s
        else if \<not> in_loop t then log_call s (QueueAddEvent EV_WRITE)
        else AddAndUpdateEvent s EV_WRITE
      else s)"

text \<open>
  \<open>Close\<close>. The call \<open>::close(m_fd)\<close> is commented out in the source: the descriptor is replaced by one of
  \<^verbatim>\<open>/dev/null\<close> and forgotten. The output buffer is not cleared.
\<close>

definition Close :: "thread_ctx \<Rightarrow> TcpSock \<Rightarrow> bool \<Rightarrow> TcpSock" where
  "Close t s needremove =
     (if m_fd s = - 1 \<or> m_isclosing s then s
      else if m_evloop s \<and> \<not> in_loop t then log_call s (QueueClose needremove)
      else
        let s = s\<lparr>m_isclosing := True, m_writeable := False, m_allow_more_send := False\<rparr>;
            s = (if m_evloop s \<and> needremove then (log_call s RemoveTcpSock)\<lparr>m_evloop := False\<rparr> else s)
        in s\<lparr>m_sockcb := SockHandler_clear, m_fd := - 1, m_inbuf := fb_clear (m_inbuf s),
             m_alive_counter := - 1, m_host_ip := [], m_is_timeout_need := False\<rparr>)"

text \<open>
  One attempt of \<open>write\<close>: the kernel accepts at most what it is given. The result is the return value, with
  \<open>errno\<close> when it is -1.
\<close>

definition write_result :: "io_result \<Rightarrow> nat \<Rightarrow> int \<times> int" where
  "write_result r sz = (case r of Wrote n \<Rightarrow> (int (min n sz), 0) | Bytes _ \<Rightarrow> (0, 0) | Fail e \<Rightarrow> (- 1, e))"

text \<open>The output buffer has become empty (lines 306 to 315).\<close>

definition drained :: "thread_ctx \<Rightarrow> TcpSock \<Rightarrow> TcpSock" where
  "drained t s =
     (let s = RemoveAndUpdateEvent s EV_WRITE in
      case onSend (m_sockcb s) of
        None \<Rightarrow> s
      | Some ok \<Rightarrow> let s = log_call s CB_onSend in if \<not> ok then DisAllowSend t s else s)"

text \<open>The loop of \<open>DoSend\<close>: the value is \<open>DoSend\<close>'s, the socket, and the outcomes not used yet.\<close>

fun DoSend :: "thread_ctx \<Rightarrow> TcpSock \<Rightarrow> io_result list \<Rightarrow> (bool \<times> TcpSock \<times> io_result list) cres" where
  "DoSend t s [] = Inr (True, s, [])"
| "DoSend t s (r # rs) =
     cbind (fb_data (m_outbuf s)) (\<lambda>d.
     let (writed, err) = write_result r (length d) in
     if writed > 0 then
       cbind (fb_pop_front (m_outbuf s) (nat writed)) (\<lambda>b.
       let s = s\<lparr>m_outbuf := b, sent_bytes := sent_bytes s @ take (nat writed) d\<rparr> in
       if fb_empty (m_outbuf s) then
         let s = drained t s in
         if \<not> m_allow_more_send s then Inr (False, ShutDownWrite t s, rs)
         else DoSend t (s\<lparr>need_renew_timeout := True\<rparr>) rs
       else DoSend t (s\<lparr>need_renew_timeout := True\<rparr>) rs)
     else if writed = 0 then Inr (True, s, rs)
     else if err \<noteq> EAGAIN \<and> err \<noteq> EINTR then
       let s = s\<lparr>m_errno := err\<rparr>;
           s = (if onError (m_sockcb s) then log_call s CB_onError else s)
       in Inr (False, Close t s True, rs)
     else if err = EAGAIN then Inr (True, s, rs)
     else DoSend t s rs)"

definition SendDataInLoop ::
  "thread_ctx \<Rightarrow> TcpSock \<Rightarrow> byte list \<Rightarrow> io_result list \<Rightarrow> (TcpSock \<times> io_result list) cres" where
  "SendDataInLoop t s pdata rs =
     (if m_evloop s \<and> \<not> in_write_loop t then Inl AssertFailed
      else if IsClosed s \<or> \<not> Writeable s then Inr (s\<lparr>m_errno := EPIPE\<rparr>, rs)
      else
        cbind (fb_push_back (m_outbuf s) pdata) (\<lambda>b.
        cbind (DoSend t (s\<lparr>m_outbuf := b\<rparr>) rs) (\<lambda>(ok, s, rs).
          Inr (if ok \<and> \<not> fb_empty (m_outbuf s) then AddAndUpdateEvent s EV_WRITE else s, rs))))"

text \<open>The build with assertions also bounds the size of one call.\<close>

definition SendData ::
  "thread_ctx \<Rightarrow> TcpSock \<Rightarrow> byte list option \<Rightarrow> io_result list \<Rightarrow> (bool \<times> TcpSock \<times> io_result list) cres" where
  "SendData t s pdata rs =
     (case pdata of None \<Rightarrow> Inr (False, s, rs) | Some d \<Rightarrow>
      if length d > 0 then
        if IsClosed s \<or> \<not> Writeable s then Inr (False, s\<lparr>m_errno := EPIPE\<rparr>, rs)
        else if length d > MAX_BUF_SIZE then Inr (False, s\<lparr>m_errno := 0\<rparr>, rs)
        else if \<not> m_evloop s then Inr (False, s, rs)
        else if \<not> in_write_loop t then Inr (True, log_call s (QueueSend d), rs)
        else cbind (SendDataInLoop t s d rs) (\<lambda>(s, rs). Inr (True, s, rs))
      else Inr (False, s, rs))"

text \<open>The callback of the read loop (lines 481 to 501).\<close>

definition deliver :: "TcpSock \<Rightarrow> TcpSock cres" where
  "deliver s =
     cbind (fb_data (m_inbuf s)) (\<lambda>d.
     let n = (case onRead (m_sockcb s) of Some f \<Rightarrow> f d | None \<Rightarrow> length d);
         s = (if onRead (m_sockcb s) \<noteq> None then log_call s (CB_onRead d) else s) in
     cbind (if n > 0 then
              if n > length d then Inr (fb_clear (m_inbuf s)) else fb_pop_front (m_inbuf s) n
            else Inr (m_inbuf s)) (\<lambda>b.
       Inr (s\<lparr>m_inbuf := b\<rparr>)))"

text \<open>
  The read loop of \<open>HandleEvent\<close>: \<open>False\<close> when the handler returns (the socket was closed), otherwise the
  loop ended with \<open>EAGAIN\<close>. \<open>read\<close> stores at most the number of bytes it was asked for.
\<close>

fun ReadLoop :: "thread_ctx \<Rightarrow> TcpSock \<Rightarrow> io_result list \<Rightarrow> (bool \<times> TcpSock \<times> io_result list) cres" where
  "ReadLoop t s [] = Inr (True, s, [])"
| "ReadLoop t s (r # rs) =
     cbind (ensurewritable (m_inbuf s) (m_tmp_blocksize s)) (\<lambda>b.
     let s = s\<lparr>m_inbuf := b\<rparr> in
     case r of
       Fail e \<Rightarrow>
         if e \<noteq> EAGAIN \<and> e \<noteq> EINTR then
           let s = s\<lparr>m_errno := e\<rparr>;
               s = (if onError (m_sockcb s) then log_call s CB_onError else s)
           in Inr (False, Close t s True, rs)
         else if e = EAGAIN then Inr (True, s, rs)
         else ReadLoop t s rs
     | _ \<Rightarrow>
         let got = take (m_tmp_blocksize s) (case r of Bytes bs \<Rightarrow> bs | _ \<Rightarrow> []) in
         if got = [] then
           let s = (if onClose (m_sockcb s) then log_call s CB_onClose else s)
           in Inr (False, Close t s True, rs)
         else
           cbind (fb_write_direct (m_inbuf s) got) (\<lambda>b.
           cbind (push_back_withoutdata b (length got)) (\<lambda>b.
           let s = s\<lparr>m_inbuf := b\<rparr>;
               s = (if length got = m_tmp_blocksize s then s\<lparr>m_tmp_blocksize := m_tmp_blocksize s * 2\<rparr> else s) in
           cbind (deliver s) (\<lambda>s. ReadLoop t s rs))))"

definition HandleEvent ::
  "thread_ctx \<Rightarrow> TcpSock \<Rightarrow> int \<Rightarrow> io_result list \<Rightarrow> io_result list \<Rightarrow> TcpSock cres" where
  "HandleEvent t s err reads writes =
     (if IsClosed s then Inr s
      else if \<not> m_evloop s then Inl NullPointer
      else if \<not> (in_loop t \<or> in_write_loop t) then Inl AssertFailed
      else if hasRead (m_sockev s) \<and> \<not> in_loop t then Inr s
      else
        cbind (if hasRead (m_sockev s) then ReadLoop t s reads else Inr (True, s, reads)) (\<lambda>(go_on, s, _).
        if \<not> go_on then Inr s
        else if hasWrite (m_sockev s) \<and> m_writeable s \<and> m_evloop s \<and> \<not> in_write_loop t then Inr s
        else
          cbind (if hasWrite (m_sockev s) \<and> m_writeable s then DoSend t s writes else Inr (True, s, writes))
            (\<lambda>(go_on, s, _).
          if \<not> go_on then Inr s
          else if hasException (m_sockev s) then
            if m_evloop s \<and> \<not> in_loop t then Inr s
            else
              let s = s\<lparr>m_errno := err\<rparr>;
                  s = (if onError (m_sockcb s) then log_call s CB_onError else s)
              in Inr (Close t s True)
          else Inr s)))"

text \<open>
  \<open>Connect\<close>: \<open>fd\<close> is the result of \<open>socket\<close>, \<open>conn\<close> of \<open>connect\<close> (\<open>Fail errno\<close> on error), \<open>sel\<close> of \<open>select\<close> and \<open>flag\<close>
  the socket's pending error. \<open>EINPROGRESS\<close> is 115.
\<close>

definition Connect ::
  "thread_ctx \<Rightarrow> TcpSock \<Rightarrow> byte list \<Rightarrow> u16 \<Rightarrow> int \<Rightarrow> int option \<Rightarrow> int \<Rightarrow> int \<Rightarrow> int \<Rightarrow> (bool \<times> TcpSock) cres" where
  "Connect t s ip port fd conn sel flag err =
     (if m_fd s \<noteq> - 1 then Inl AssertFailed
      else if fd = - 1 then Inr (False, s\<lparr>m_errno := err\<rparr>)
      else
        let s = s\<lparr>m_fd := fd\<rparr> in
        case conn of
          Some e \<Rightarrow>
            if e \<noteq> 115 then Inr (False, s\<lparr>m_errno := e\<rparr>)
            else if sel = 0 \<or> sel = - 1 then Inr (False, Close t (s\<lparr>m_errno := err\<rparr>) True)
            else if flag \<noteq> 0 then Inr (False, (Close t s True)\<lparr>m_errno := err\<rparr>)
            else Inr (True, s\<lparr>m_writeable := True, m_allow_more_send := True, m_isclosing := False,
                   m_alive_counter := ALIVE_NUM, m_host_ip := ip, m_host_port := port\<rparr>)
        | None \<Rightarrow>
            if sel = 0 \<or> sel = - 1 then Inr (False, Close t (s\<lparr>m_errno := err\<rparr>) True)
            else if flag \<noteq> 0 then Inr (False, (Close t s True)\<lparr>m_errno := err\<rparr>)
            else Inr (True, s\<lparr>m_writeable := True, m_allow_more_send := True, m_isclosing := False,
                   m_alive_counter := ALIVE_NUM, m_host_ip := ip, m_host_port := port\<rparr>))"

section \<open>Lemmas\<close>

subsection \<open>Events\<close>

lemma hasEvent_add: "er \<noteq> 0 \<Longrightarrow> hasEvent (ev_AddEvent ev er) er"
proof -
  assume "er \<noteq> 0"
  moreover have "(ev OR er) AND er = er" by (rule bit_word_eqI) (auto simp: bit_simps)
  ultimately show ?thesis by (simp add: hasEvent_def ev_AddEvent_def EV_NOEVENT_def)
qed

lemma hasEvent_remove: "\<not> hasEvent (ev_RemoveEvent ev er) er"
proof -
  have "(ev AND NOT er) AND er = 0" by (rule bit_word_eqI) (auto simp: bit_simps)
  then show ?thesis by (simp add: hasEvent_def ev_RemoveEvent_def EV_NOEVENT_def)
qed

lemma hasEvent_remove_other: "er AND er' = 0 \<Longrightarrow> hasEvent (ev_RemoveEvent ev er) er' = hasEvent ev er'"
proof -
  assume d: "er AND er' = 0"
  have "(ev AND NOT er) AND er' = ev AND er'"
  proof (rule bit_word_eqI)
    fix n
    have "\<not> (bit er n \<and> bit er' n)" using arg_cong [OF d, of "\<lambda>w. bit w n"] by (simp add: bit_simps)
    then show "bit ((ev AND NOT er) AND er') n = bit (ev AND er') n" if "n < LENGTH(32)"
      using that by (auto simp: bit_simps)
  qed
  then show ?thesis by (simp add: hasEvent_def ev_RemoveEvent_def)
qed

subsection \<open>What the helpers leave unchanged\<close>

text \<open>The output side of a socket: the buffer and the bytes the kernel has taken.\<close>

lemma out_log [simp]: "m_outbuf (log_call s c) = m_outbuf s" "sent_bytes (log_call s c) = sent_bytes s"
  "m_inbuf (log_call s c) = m_inbuf s" "m_sockcb (log_call s c) = m_sockcb s"
  "m_tmp_blocksize (log_call s c) = m_tmp_blocksize s" "calls (log_call s c) = calls s @ [c]"
  by (simp_all add: log_call_def)

lemma out_event [simp]:
  "m_outbuf (AddAndUpdateEvent s ev) = m_outbuf s" "sent_bytes (AddAndUpdateEvent s ev) = sent_bytes s"
  "m_outbuf (RemoveAndUpdateEvent s ev) = m_outbuf s" "sent_bytes (RemoveAndUpdateEvent s ev) = sent_bytes s"
  by (simp_all add: AddAndUpdateEvent_def RemoveAndUpdateEvent_def)

lemma out_close [simp]:
  "m_outbuf (Close t s n) = m_outbuf s" "sent_bytes (Close t s n) = sent_bytes s"
  by (simp_all add: Close_def Let_def)

definition out_ok :: "TcpSock \<Rightarrow> byte list \<Rightarrow> bool" where
  "out_ok s bs \<longleftrightarrow> fb_inv (m_outbuf s) \<and> sent_bytes s @ fb_contents (m_outbuf s) = bs"

lemma out_ok_cong: "m_outbuf s' = m_outbuf s \<Longrightarrow> sent_bytes s' = sent_bytes s \<Longrightarrow> out_ok s' bs = out_ok s bs"
  by (simp add: out_ok_def)

lemma out_ok_simps [simp]:
  "out_ok (log_call s c) bs = out_ok s bs" "out_ok (AddAndUpdateEvent s ev) bs = out_ok s bs"
  "out_ok (RemoveAndUpdateEvent s ev) bs = out_ok s bs" "out_ok (Close t s n) bs = out_ok s bs"
  "out_ok (s\<lparr>need_renew_timeout := b\<rparr>) bs = out_ok s bs" "out_ok (s\<lparr>m_errno := e\<rparr>) bs = out_ok s bs"
  "out_ok (s\<lparr>m_allow_more_send := b\<rparr>) bs = out_ok s bs"
  by (simp_all add: out_ok_def)

lemma out_ok_shutdown:
  "out_ok s bs \<Longrightarrow> fb_contents (m_outbuf s) = [] \<Longrightarrow>
   out_ok (ShutDownWrite t s) bs \<and> fb_contents (m_outbuf (ShutDownWrite t s)) = []"
  using fb_clear_law by (auto simp: ShutDownWrite_def out_ok_def)

lemma out_ok_disallow:
  "out_ok s bs \<Longrightarrow> fb_contents (m_outbuf s) = [] \<Longrightarrow>
   out_ok (DisAllowSend t s) bs \<and> fb_contents (m_outbuf (DisAllowSend t s)) = []"
  using out_ok_shutdown [of "s\<lparr>m_allow_more_send := False\<rparr>" bs t]
  by (auto simp: DisAllowSend_def Let_def)

subsection \<open>Sending\<close>

lemma out_ok_drained:
  "out_ok s bs \<Longrightarrow> fb_contents (m_outbuf s) = [] \<Longrightarrow>
   out_ok (drained t s) bs \<and> fb_contents (m_outbuf (drained t s)) = []"
  using out_ok_disallow [of "log_call (RemoveAndUpdateEvent s EV_WRITE) CB_onSend" bs t]
  by (auto simp: drained_def Let_def split: option.splits)

lemma DoSend_conserves:
  "out_ok s bs \<Longrightarrow> \<exists>ok s' rs'. DoSend t s rs = Inr (ok, s', rs') \<and> out_ok s' bs"
proof (induction rs arbitrary: s)
  case (Cons r rs)
  define d where "d = fb_contents (m_outbuf s)"
  have inv: "fb_inv (m_outbuf s)" and d: "fb_data (m_outbuf s) = Inr d"
    using Cons.prems by (simp_all add: out_ok_def fb_data_inv d_def)
  obtain w err where w: "write_result r (length d) = (w, err)" by (cases "write_result r (length d)")
  show ?case
  proof (cases "w > 0")
    case True
    then have "nat w \<le> length d" using w by (auto simp: write_result_def split: io_result.splits)
    then obtain b where b: "fb_pop_front (m_outbuf s) (nat w) = Inr b" "fb_inv b" "fb_contents b = drop (nat w) d"
      using fb_pop_front_law [OF inv, of "nat w"] by (auto simp: d_def)
    define s1 where "s1 = s\<lparr>m_outbuf := b, sent_bytes := sent_bytes s @ take (nat w) d\<rparr>"
    have s1: "out_ok s1 bs" using Cons.prems b by (auto simp: out_ok_def s1_def d_def)
    have unf: "DoSend t s (r # rs) = (if fb_empty b
        then if \<not> m_allow_more_send (drained t s1) then Inr (False, ShutDownWrite t (drained t s1), rs)
          else DoSend t ((drained t s1)\<lparr>need_renew_timeout := True\<rparr>) rs
        else DoSend t (s1\<lparr>need_renew_timeout := True\<rparr>) rs)"
      using d w True b(1) by (simp add: s1_def Let_def)
    show ?thesis
    proof (cases "fb_empty b")
      case True
      then have "fb_contents (m_outbuf s1) = []" using b(2) by (simp add: s1_def fb_empty_iff)
      with s1 have "out_ok (drained t s1) bs \<and> fb_contents (m_outbuf (drained t s1)) = []"
        by (rule out_ok_drained)
      with True unf out_ok_shutdown [of "drained t s1" bs t] Cons.IH show ?thesis by auto
    next
      case False
      with unf s1 Cons.IH show ?thesis by simp
    qed
  next
    case False
    with d w Cons show ?thesis by (auto simp: Let_def)
  qed
qed auto

lemma SendDataInLoop_conserves:
  assumes "out_ok s bs" "m_evloop s \<Longrightarrow> in_write_loop t"
  shows "\<exists>s' rs'. SendDataInLoop t s pdata rs = Inr (s', rs') \<and>
    out_ok s' (if IsClosed s \<or> \<not> Writeable s then bs else bs @ pdata)"
proof (cases "IsClosed s \<or> \<not> Writeable s")
  case True
  with assms show ?thesis by (auto simp: SendDataInLoop_def)
next
  case False
  obtain b where b: "fb_push_back (m_outbuf s) pdata = Inr b" "fb_inv b"
    "fb_contents b = fb_contents (m_outbuf s) @ pdata"
    using fb_push_back_law [of "m_outbuf s" pdata] assms(1) by (auto simp: out_ok_def)
  then have "out_ok (s\<lparr>m_outbuf := b\<rparr>) (bs @ pdata)" using assms(1) by (auto simp: out_ok_def)
  from DoSend_conserves [OF this, of t rs] b(1) False assms(2) show ?thesis
    by (auto simp: SendDataInLoop_def)
qed

text \<open>A history of the output side: calls of \<open>SendData\<close> in the write thread, and writable events.\<close>

datatype out_op = OSend "byte list" "io_result list" | OWritable "io_result list"

fun out_run :: "thread_ctx \<Rightarrow> TcpSock \<Rightarrow> out_op list \<Rightarrow> TcpSock cres" where
  "out_run t s [] = Inr s"
| "out_run t s (OSend d rs # ops) = cbind (SendDataInLoop t s d rs) (\<lambda>(s, _). out_run t s ops)"
| "out_run t s (OWritable rs # ops) =
     cbind (if \<not> IsClosed s \<and> m_writeable s then DoSend t s rs else Inr (True, s, rs)) (\<lambda>(_, s, _). out_run t s ops)"

text \<open>The bytes of the calls made while the socket accepted data.\<close>

fun accepted :: "thread_ctx \<Rightarrow> TcpSock \<Rightarrow> out_op list \<Rightarrow> byte list" where
  "accepted t s [] = []"
| "accepted t s (OSend d rs # ops) =
     (if IsClosed s \<or> \<not> Writeable s then [] else d) @
     (case SendDataInLoop t s d rs of Inr (s, _) \<Rightarrow> accepted t s ops | Inl _ \<Rightarrow> [])"
| "accepted t s (OWritable rs # ops) =
     (case (if \<not> IsClosed s \<and> m_writeable s then DoSend t s rs else Inr (True, s, rs)) of
        Inr (_, s, _) \<Rightarrow> accepted t s ops | Inl _ \<Rightarrow> [])"

lemma out_run_conserves:
  assumes "in_write_loop t"
  shows "out_ok s bs \<Longrightarrow> \<exists>s'. out_run t s ops = Inr s' \<and> out_ok s' (bs @ accepted t s ops)"
proof (induction ops arbitrary: s bs)
  case (Cons op ops)
  show ?case
  proof (cases op)
    case (OSend d rs)
    obtain s1 rs1 where s1: "SendDataInLoop t s d rs = Inr (s1, rs1)"
      "out_ok s1 (if IsClosed s \<or> \<not> Writeable s then bs else bs @ d)"
      using SendDataInLoop_conserves [OF Cons.prems, of t d rs] assms by auto
    with OSend Cons.IH [OF s1(2)] show ?thesis by auto
  next
    case (OWritable rs)
    obtain ok s1 rs1 where s1: "(if \<not> IsClosed s \<and> m_writeable s then DoSend t s rs else Inr (True, s, rs))
        = Inr (ok, s1, rs1)" "out_ok s1 bs"
      using DoSend_conserves [OF Cons.prems, of t rs] Cons.prems
      by (cases "\<not> IsClosed s \<and> m_writeable s") auto
    with OWritable Cons.IH [OF s1(2)] show ?thesis by simp
  qed
qed simp

subsection \<open>Receiving\<close>

text \<open>
  What the read loop does with the buffered bytes: every read appends, the callback sees everything
  that is buffered and removes what it has consumed.
\<close>

fun feed :: "(byte list \<Rightarrow> nat) \<Rightarrow> byte list \<Rightarrow> byte list list \<Rightarrow> byte list \<times> byte list list" where
  "feed f buf [] = (buf, [])"
| "feed f buf (c # cs) =
     (let (r, args) = feed f (drop (f (buf @ c)) (buf @ c)) cs in (r, (buf @ c) # args))"

lemma deliver_ok:
  assumes inv: "fb_inv (m_inbuf s)" and cb: "onRead (m_sockcb s) = Some f" and f: "\<And>d. f d \<le> length d"
  shows "\<exists>b. deliver s = Inr ((log_call s (CB_onRead (fb_contents (m_inbuf s))))\<lparr>m_inbuf := b\<rparr>) \<and> fb_inv b \<and>
    fb_contents b = drop (f (fb_contents (m_inbuf s))) (fb_contents (m_inbuf s))"
proof -
  define d where "d = fb_contents (m_inbuf s)"
  have data: "fb_data (m_inbuf s) = Inr d" using inv by (simp add: fb_data_inv d_def)
  show ?thesis
  proof (cases "f d > 0")
    case True
    obtain b where "fb_pop_front (m_inbuf s) (f d) = Inr b" "fb_inv b" "fb_contents b = drop (f d) d"
      using fb_pop_front_law [OF inv, of "f d"] f [of d] by (auto simp: d_def)
    with data True f [of d] cb show ?thesis by (auto simp: deliver_def d_def [symmetric] Let_def)
  next
    case False
    with data cb inv show ?thesis
      by (intro exI [of _ "m_inbuf s"]) (simp add: deliver_def d_def [symmetric] Let_def)
  qed
qed

lemma ReadLoop_step:
  assumes inv: "fb_inv (m_inbuf s)" and cb: "onRead (m_sockcb s) = Some f" and f: "\<And>d. f d \<le> length d"
    and c: "c \<noteq> []" "length c \<le> m_tmp_blocksize s"
  shows "\<exists>s'. ReadLoop t s (Bytes c # rs) = ReadLoop t s' rs \<and> fb_inv (m_inbuf s') \<and>
    fb_contents (m_inbuf s') = drop (f (fb_contents (m_inbuf s) @ c)) (fb_contents (m_inbuf s) @ c) \<and>
    calls s' = calls s @ [CB_onRead (fb_contents (m_inbuf s) @ c)] \<and> m_sockcb s' = m_sockcb s \<and>
    m_tmp_blocksize s \<le> m_tmp_blocksize s'"
proof -
  obtain b1 where b1: "ensurewritable (m_inbuf s) (m_tmp_blocksize s) = Inr b1" "fb_inv b1"
    "fb_contents b1 = fb_contents (m_inbuf s)" "m_writestart b1 + m_tmp_blocksize s \<le> length (m_innerdata b1)"
    using ensurewritable_law [OF inv, of "m_tmp_blocksize s"] by blast
  have "m_writestart b1 + length c \<le> length (m_innerdata b1)" using b1(4) c(2) by simp
  from fb_direct_law [OF b1(2) this] obtain b2 b3 where b2: "fb_write_direct b1 c = Inr b2"
    "push_back_withoutdata b2 (length c) = Inr b3" "fb_inv b3"
    "fb_contents b3 = fb_contents (m_inbuf s) @ c"
    by (auto simp: cbind_eq_Inr b1(3))
  define s1 where "s1 = (if length c = m_tmp_blocksize s
      then s\<lparr>m_inbuf := b3, m_tmp_blocksize := m_tmp_blocksize s * 2\<rparr> else s\<lparr>m_inbuf := b3\<rparr>)"
  have s1: "m_inbuf s1 = b3" "m_sockcb s1 = m_sockcb s" "calls s1 = calls s"
    "m_tmp_blocksize s \<le> m_tmp_blocksize s1" by (simp_all add: s1_def)
  have "take (m_tmp_blocksize s) c = c" using c(2) by simp
  then have "ReadLoop t s (Bytes c # rs) = cbind (deliver s1) (\<lambda>s. ReadLoop t s rs)"
    using b1(1) b2(1,2) c by (simp add: s1_def Let_def) auto
  moreover obtain b where "deliver s1 = Inr ((log_call s1 (CB_onRead (fb_contents b3)))\<lparr>m_inbuf := b\<rparr>)" "fb_inv b"
    "fb_contents b = drop (f (fb_contents b3)) (fb_contents b3)"
    using deliver_ok [of s1 f] b2(3) cb f s1 by auto
  ultimately show ?thesis
    using s1 b2(4)
    by (intro exI [of _ "(log_call s1 (CB_onRead (fb_contents b3)))\<lparr>m_inbuf := b\<rparr>"]) simp
qed

lemma ReadLoop_feed:
  assumes "fb_inv (m_inbuf s)" "onRead (m_sockcb s) = Some f" "\<And>d. f d \<le> length d"
    and "list_all (\<lambda>c. c \<noteq> [] \<and> length c \<le> m_tmp_blocksize s) cs"
    and "feed f (fb_contents (m_inbuf s)) cs = (rest, args)"
  shows "\<exists>s'. ReadLoop t s (map Bytes cs) = Inr (True, s', []) \<and> fb_inv (m_inbuf s') \<and>
    fb_contents (m_inbuf s') = rest \<and> calls s' = calls s @ map CB_onRead args"
  using assms(1,2,4,5)
proof (induction cs arbitrary: s args)
  case (Cons c cs)
  obtain s1 where s1: "ReadLoop t s (Bytes c # map Bytes cs) = ReadLoop t s1 (map Bytes cs)" "fb_inv (m_inbuf s1)"
    "fb_contents (m_inbuf s1) = drop (f (fb_contents (m_inbuf s) @ c)) (fb_contents (m_inbuf s) @ c)"
    "calls s1 = calls s @ [CB_onRead (fb_contents (m_inbuf s) @ c)]" "m_sockcb s1 = m_sockcb s"
    "m_tmp_blocksize s \<le> m_tmp_blocksize s1"
    using ReadLoop_step [OF Cons.prems(1,2) assms(3), of c t "map Bytes cs"] Cons.prems(3) by auto
  obtain args' where args': "feed f (fb_contents (m_inbuf s1)) cs = (rest, args')"
    "args = (fb_contents (m_inbuf s) @ c) # args'"
    using Cons.prems(4) s1(3) by (auto split: prod.splits)
  have "list_all (\<lambda>c. c \<noteq> [] \<and> length c \<le> m_tmp_blocksize s1) cs"
    using Cons.prems(3) s1(6) by (auto simp: list_all_iff)
  with Cons.IH [OF s1(2) _ _ args'(1)] s1 args'(2) Cons.prems(2) show ?case by auto
qed simp

subsection \<open>Closed sockets\<close>

lemma IsClosed_Close: "in_loop t \<or> \<not> m_evloop s \<Longrightarrow> IsClosed (Close t s n)"
  by (auto simp: Close_def IsClosed_def Let_def)

lemma closed_inert:
  assumes "IsClosed s"
  shows "HandleEvent t s err reads writes = Inr s" "Close t s n = s" "ShutDownWrite t s = s"
    "SendData t s pd rs = Inr (False, s, rs) \<or> SendData t s pd rs = Inr (False, s\<lparr>m_errno := EPIPE\<rparr>, rs)"
  using assms
  by (auto simp: HandleEvent_def Close_def ShutDownWrite_def SendData_def IsClosed_def split: option.splits if_splits)

section \<open>Properties\<close>





text \<open>
  a closed socket stays closed and does nothing: events, a second close and shutdown leave it
  unchanged, \<open>SendData\<close> returns false and stores no byte.
\<close>

theorem tcp_closed_inert:
  assumes "IsClosed s"
  shows "HandleEvent t s err reads writes = Inr s \<and> Close t s needremove = s \<and> ShutDownWrite t s = s \<and>
    (\<exists>s'. SendData t s pdata rs = Inr (False, s', rs) \<and> IsClosed s' \<and>
       m_outbuf s' = m_outbuf s \<and> sent_bytes s' = sent_bytes s \<and> calls s' = calls s)"
  using closed_inert(1-3) [OF assms] closed_inert(4) [OF assms, of t pdata rs] assms by (auto simp: IsClosed_def)

theorem tcp_closed_inert_witness:
  "let s = Close \<lparr>in_loop = True, in_write_loop = False\<rparr> (new_TcpSock 0 False 5 (lit ''10.0.0.1'') 80) True;
       t = \<lparr>in_loop = True, in_write_loop = True\<rparr>
   in HandleEvent t s 0 [Bytes [1]] [Wrote 1] = Inr s \<and> Close t s False = s \<and> ShutDownWrite t s = s \<and>
     (\<exists>s'. SendData t s (Some [7]) [Wrote 1] = Inr (False, s', [Wrote 1]) \<and> IsClosed s' \<and>
        m_outbuf s' = m_outbuf s \<and> sent_bytes s' = sent_bytes s \<and> calls s' = calls s)"
  unfolding Let_def by (rule tcp_closed_inert, rule IsClosed_Close) simp

end
