(* ===== verification/Sock_Waiter.thy ===== *)
theory Sock_Waiter
  imports Tcp_Sock Std_Map
begin

unbundle bit_operations_syntax

text \<open>
  The event loop's waiter: \<^verbatim>\<open>src/Core/SockWaiterBase.h\<close>, \<^verbatim>\<open>src/Core/SockWaiterBase.cpp\<close>,
  \<^verbatim>\<open>src/Core/EpollWaiter.cpp\<close>, and the operations of \<^verbatim>\<open>src/Core/EventLoop.cpp\<close> that
  other components call. Sockets live in a heap addressed by pointers; the notify pipe is the number of
  bytes it holds; the kernel's epoll set is a map from descriptors to event masks. Tasks queued for the
  loop thread are values of \<open>ev_task\<close>. What \<open>epoll_wait\<close> reports is an argument of \<open>Epoll_Wait\<close>.
\<close>

section \<open>State\<close>

type_synonym sock_heap_t = "nat \<Rightarrow> TcpSock"

definition NOACTIVE :: u32 where "NOACTIVE = 0"
definition NEWADDED :: u32 where "NEWADDED = 1"
definition REMOVED :: u32 where "REMOVED = 2"
definition UPDATEEVENT :: u32 where "UPDATEEVENT = 4"
definition TERMINATE :: u32 where "TERMINATE = 8"

definition EPOLLIN :: u32 where "EPOLLIN = 1"
definition EPOLLPRI :: u32 where "EPOLLPRI = 2"
definition EPOLLOUT :: u32 where "EPOLLOUT = 4"
definition EPOLLERR :: u32 where "EPOLLERR = 8"
definition EPOLLET :: u32 where "EPOLLET = 0x80000000"

datatype ev_task = Task_UpdateTcpSock nat | Task_Close nat bool | Task_AddAndUpdateEvent nat EventResult

record SockWaiter =
  m_waiting_tcpsocks :: "(int, nat) std_map"
  m_notify_pipe0 :: int
  m_notify_pipe1 :: int
  m_newnotify :: bool
  m_running :: bool
  m_allactive :: u32
  m_epfd :: int
  has_evloop :: bool
  pipe_bytes :: nat
  epoll_set :: "int \<Rightarrow> u32 option"

record EventLoop =
  m_event_waiter :: "SockWaiter option"
  m_terminal :: bool
  m_pendings :: "ev_task list"

section \<open>Notification\<close>

definition NotifyNewActiveWithoutLock :: "'a SockWaiter_scheme \<Rightarrow> u32 \<Rightarrow> 'a SockWaiter_scheme" where
  "NotifyNewActiveWithoutLock w active =
     (if m_notify_pipe1 w \<noteq> - 1 then
        w\<lparr>pipe_bytes := (if \<not> m_newnotify w then pipe_bytes w + 1 else pipe_bytes w),
          m_allactive := m_allactive w OR active, m_newnotify := True\<rparr>
      else w)"

definition NotifyNewActive :: "'a SockWaiter_scheme \<Rightarrow> u32 \<Rightarrow> 'a SockWaiter_scheme" where
  "NotifyNewActive w active = NotifyNewActiveWithoutLock w active"

text \<open>
  \<open>GetAndClearNotify\<close> in two steps, as other threads see it: the flags are taken under the lock
  (\<open>needread\<close> and the flags are returned), the pipe is read after the lock is released. The pipe is non-blocking:
  the read takes one byte, or fails with EAGAIN on an empty pipe.
\<close>

definition notify_take :: "'a SockWaiter_scheme \<Rightarrow> (bool \<times> u32) \<times> 'a SockWaiter_scheme" where
  "notify_take w = ((m_newnotify w, m_allactive w), w\<lparr>m_newnotify := False, m_allactive := 0\<rparr>)"

definition notify_read :: "'a SockWaiter_scheme \<Rightarrow> 'a SockWaiter_scheme" where
  "notify_read w = w\<lparr>pipe_bytes := pipe_bytes w - 1\<rparr>"

definition GetAndClearNotify :: "'a SockWaiter_scheme \<Rightarrow> u32 \<times> 'a SockWaiter_scheme" where
  "GetAndClearNotify w =
     (let ((needread, allactive), w) = notify_take w in (allactive, if needread then notify_read w else w))"

section \<open>The set of waiting sockets\<close>

definition Empty :: "'a SockWaiter_scheme \<Rightarrow> bool" where
  "Empty w \<longleftrightarrow> m_waiting_tcpsocks w = []"

definition GetActiveTcpNum :: "'a SockWaiter_scheme \<Rightarrow> nat" where
  "GetActiveTcpNum w = length (m_waiting_tcpsocks w)"

text \<open>\<open>EpollWaiter::UpdateTcpSockEvent\<close>; removing a descriptor that is not in the set has no effect.\<close>

definition epoll_mask :: "SockEvent \<Rightarrow> u32" where
  "epoll_mask so_ev =
     (if hasRead so_ev then EPOLLIN OR EPOLLERR OR EPOLLPRI OR EPOLLET else 0) OR
     (if hasWrite so_ev then EPOLLOUT OR EPOLLET else 0) OR
     (if hasException so_ev then EPOLLERR OR EPOLLET else 0)"

definition UpdateTcpSockEvent :: "SockWaiter \<Rightarrow> TcpSock \<Rightarrow> SockWaiter cres" where
  "UpdateTcpSockEvent w s =
     (let fd = m_fd s; so_ev = m_caredev s in
      if fd = - 1 then Inl AssertFailed
      else Inr (w\<lparr>epoll_set := (epoll_set w)(fd := (if hasAny so_ev then Some (epoll_mask so_ev) else None))\<rparr>))"

text \<open>
  \<open>RemoveTcpSock\<close> and \<open>UpdateTcpSockInLoop\<close> of the base class call the virtual \<open>UpdateTcpSockEvent\<close>, here the
  argument \<open>upd\<close>.
\<close>

definition base_RemoveTcpSock ::
  "('a SockWaiter_scheme \<Rightarrow> TcpSock \<Rightarrow> 'a SockWaiter_scheme cres) \<Rightarrow> thread_ctx \<Rightarrow> 'a SockWaiter_scheme \<Rightarrow> sock_heap_t \<Rightarrow>
     nat \<Rightarrow> ('a SockWaiter_scheme \<times> sock_heap_t) cres" where
  "base_RemoveTcpSock upd t w heap p =
     (if \<not> m_running w then Inr (w, heap)
      else if \<not> in_loop t then Inl AssertFailed
      else
        let heap = heap(p := (heap p)\<lparr>m_caredev := EV_NOEVENT\<rparr>) in
        cbind (upd w (heap p)) (\<lambda>w. Inr (NotifyNewActive w REMOVED, heap)))"

definition base_UpdateTcpSockInLoop ::
  "('a SockWaiter_scheme \<Rightarrow> TcpSock \<Rightarrow> 'a SockWaiter_scheme cres) \<Rightarrow> thread_ctx \<Rightarrow> 'a SockWaiter_scheme \<Rightarrow> sock_heap_t \<Rightarrow>
     nat \<Rightarrow> ('a SockWaiter_scheme \<times> sock_heap_t) cres" where
  "base_UpdateTcpSockInLoop upd t w heap p =
     (if \<not> m_running w then Inr (w, heap)
      else if \<not> in_loop t then Inl AssertFailed
      else
        let ev = m_caredev (heap p) in
        cbind (upd w (heap p)) (\<lambda>w.
        if hasAny ev then
          case map_of (m_waiting_tcpsocks w) (m_fd (heap p)) of
            None \<Rightarrow> Inr (w\<lparr>m_waiting_tcpsocks := map_insert (m_fd (heap p)) p (m_waiting_tcpsocks w)\<rparr>, heap)
          | Some q \<Rightarrow>
              if m_fd (heap p) \<noteq> m_fd (heap q) then Inl AssertFailed
              else Inr (w\<lparr>m_waiting_tcpsocks := map_insert (m_fd (heap p)) p (m_waiting_tcpsocks w)\<rparr>, heap)
        else base_RemoveTcpSock upd t w heap p))"

definition waiter_RemoveTcpSock ::
  "thread_ctx \<Rightarrow> SockWaiter \<Rightarrow> sock_heap_t \<Rightarrow> nat \<Rightarrow> (SockWaiter \<times> sock_heap_t) cres" where
  "waiter_RemoveTcpSock = base_RemoveTcpSock UpdateTcpSockEvent"

definition UpdateTcpSockInLoop ::
  "thread_ctx \<Rightarrow> SockWaiter \<Rightarrow> sock_heap_t \<Rightarrow> nat \<Rightarrow> (SockWaiter \<times> sock_heap_t) cres" where
  "UpdateTcpSockInLoop = base_UpdateTcpSockInLoop UpdateTcpSockEvent"

definition ClearClosedTcpSock :: "thread_ctx \<Rightarrow> 'a SockWaiter_scheme \<Rightarrow> sock_heap_t \<Rightarrow> 'a SockWaiter_scheme cres" where
  "ClearClosedTcpSock t w heap =
     (if \<not> m_running w then Inr w
      else if \<not> in_loop t then Inl AssertFailed
      else Inr (w\<lparr>m_waiting_tcpsocks := filter (\<lambda>(fd, p). \<not> IsClosed (heap p)) (m_waiting_tcpsocks w)\<rparr>))"

definition DestroyWaiter :: "thread_ctx \<Rightarrow> 'a SockWaiter_scheme \<Rightarrow> 'a SockWaiter_scheme cres" where
  "DestroyWaiter t w =
     (if \<not> m_running w then Inr w
      else if \<not> in_loop t then Inl AssertFailed
      else Inr (w\<lparr>m_running := False, has_evloop := False, m_waiting_tcpsocks := []\<rparr>))"

section \<open>Waiting\<close>

text \<open>First the timeouts of all waiting sockets, in the order of their descriptors.\<close>

fun update_timeouts :: "thread_ctx \<Rightarrow> int \<Rightarrow> (int \<times> nat) list \<Rightarrow> sock_heap_t \<Rightarrow> sock_heap_t cres" where
  "update_timeouts t now [] heap = Inr heap"
| "update_timeouts t now ((fd, p) # ws) heap =
     cbind (UpdateTimeout t now (heap p)) (\<lambda>s. update_timeouts t now ws (heap(p := s)))"

text \<open>One reported event (lines 131 to 162); a descriptor that is not waiting yields a null pointer.\<close>

definition ready_event ::
  "thread_ctx \<Rightarrow> int \<Rightarrow> SockWaiter \<Rightarrow> int \<times> u32 \<Rightarrow> sock_heap_t \<times> (int, nat) std_map \<Rightarrow>
     (sock_heap_t \<times> (int, nat) std_map) cres" where
  "ready_event t now w ev st =
     (let (fd, events) = ev; (heap, allready) = st in
      if fd = m_notify_pipe0 w then Inr st
      else case map_of (m_waiting_tcpsocks w) fd of
        None \<Rightarrow> Inl AssertFailed
      | Some p \<Rightarrow>
          cbind (sock_ClearEvent t (heap p)) (\<lambda>s.
          cbind (if events AND EPOLLIN \<noteq> 0 \<or> events AND EPOLLPRI \<noteq> 0 then sock_AddEvent t s EV_READ else Inr s) (\<lambda>s.
          cbind (if events AND EPOLLOUT \<noteq> 0 then sock_AddEvent t s EV_WRITE else Inr s) (\<lambda>s.
          cbind (if events AND EPOLLERR \<noteq> 0 then sock_AddEvent t s EV_EXCEPTION else Inr s) (\<lambda>s.
          if events AND EPOLLIN = 0 \<and> events AND EPOLLPRI = 0 \<and> events AND EPOLLOUT = 0 \<and> events AND EPOLLERR = 0
          then Inl AssertFailed
          else cbind (RenewTimeout t now s) (\<lambda>s. Inr (heap(p := s), map_insert (m_fd s) p allready)))))))"

fun ready_events ::
  "thread_ctx \<Rightarrow> int \<Rightarrow> SockWaiter \<Rightarrow> (int \<times> u32) list \<Rightarrow> sock_heap_t \<times> (int, nat) std_map \<Rightarrow>
     (sock_heap_t \<times> (int, nat) std_map) cres" where
  "ready_events t now w [] st = Inr st"
| "ready_events t now w (ev # evs) st = cbind (ready_event t now w ev st) (ready_events t now w evs)"

text \<open>\<open>EpollWaiter::Wait\<close>; \<open>evs\<close> is \<open>None\<close> when \<open>epoll_wait\<close> fails. The result has the ready sockets by descriptor.\<close>

definition Epoll_Wait ::
  "thread_ctx \<Rightarrow> int \<Rightarrow> SockWaiter \<Rightarrow> sock_heap_t \<Rightarrow> (int \<times> u32) list option \<Rightarrow>
     (int \<times> (int, nat) std_map \<times> SockWaiter \<times> sock_heap_t) cres" where
  "Epoll_Wait t now w heap evs =
     (if m_epfd w < 0 then Inr (- 1, [], w, heap)
      else
        let (notifytype, w) = GetAndClearNotify w in
        cbind (if notifytype AND REMOVED \<noteq> 0 then ClearClosedTcpSock t w heap else Inr w) (\<lambda>w.
        case evs of
          None \<Rightarrow> Inr (- 1, [], w, heap)
        | Some evs \<Rightarrow>
            cbind (update_timeouts t now (m_waiting_tcpsocks w) heap) (\<lambda>heap.
            cbind (ready_events t now w evs (heap, [])) (\<lambda>(heap, allready).
              Inr (int (length evs), allready, w, heap)))))"

section \<open>Event loop\<close>

definition QueueTaskToLoop :: "EventLoop \<Rightarrow> ev_task \<Rightarrow> EventLoop" where
  "QueueTaskToLoop el task =
     el\<lparr>m_pendings := m_pendings el @ [task],
        m_event_waiter := map_option (\<lambda>w. NotifyNewActive w UPDATEEVENT) (m_event_waiter el)\<rparr>"

text \<open>The waiter's \<open>UpdateTcpSock\<close> and \<open>AddTcpSock\<close>; outside the loop thread the update is queued.\<close>

definition waiter_UpdateTcpSock ::
  "thread_ctx \<Rightarrow> EventLoop \<Rightarrow> SockWaiter \<Rightarrow> sock_heap_t \<Rightarrow> nat \<Rightarrow> (bool \<times> EventLoop \<times> sock_heap_t) cres" where
  "waiter_UpdateTcpSock t el w heap p =
     (if \<not> m_running w then Inr (False, el, heap)
      else if in_loop t then
        cbind (UpdateTcpSockInLoop t w heap p) (\<lambda>(w, heap). Inr (True, el\<lparr>m_event_waiter := Some w\<rparr>, heap))
      else Inr (True, QueueTaskToLoop el (Task_UpdateTcpSock p), heap))"

definition waiter_AddTcpSock ::
  "thread_ctx \<Rightarrow> EventLoop \<Rightarrow> SockWaiter \<Rightarrow> sock_heap_t \<Rightarrow> nat \<Rightarrow> (bool \<times> EventLoop \<times> sock_heap_t) cres" where
  "waiter_AddTcpSock t el w heap p =
     (if \<not> has_evloop w then Inl AssertFailed else
      let s = heap p;
          s = s\<lparr>m_caredev := ev_AddEvent (ev_AddEvent (m_caredev s) EV_READ) EV_EXCEPTION\<rparr>;
          s = SetEventLoop s True
      in waiter_UpdateTcpSock t el w (heap(p := s)) p)"

definition AddTcpSockToLoop ::
  "thread_ctx \<Rightarrow> EventLoop \<Rightarrow> sock_heap_t \<Rightarrow> nat \<Rightarrow> (bool \<times> EventLoop \<times> sock_heap_t) cres" where
  "AddTcpSockToLoop t el heap p =
     (if m_terminal el then Inr (False, el, heap)
      else case m_event_waiter el of
        None \<Rightarrow> Inr (False, el, heap)
      | Some w \<Rightarrow> cbind (waiter_AddTcpSock t el w heap p) (\<lambda>(_, el, heap). Inr (True, el, heap)))"

text \<open>\<open>EventLoop::UpdateTcpSock\<close> asserts that it runs in the loop thread.\<close>

definition loop_UpdateTcpSock ::
  "thread_ctx \<Rightarrow> EventLoop \<Rightarrow> sock_heap_t \<Rightarrow> nat \<Rightarrow> (bool \<times> EventLoop \<times> sock_heap_t) cres" where
  "loop_UpdateTcpSock t el heap p =
     (if \<not> in_loop t then Inl AssertFailed
      else case m_event_waiter el of None \<Rightarrow> Inr (False, el, heap) | Some w \<Rightarrow> waiter_UpdateTcpSock t el w heap p)"

definition loop_RemoveTcpSock ::
  "thread_ctx \<Rightarrow> EventLoop \<Rightarrow> sock_heap_t \<Rightarrow> nat \<Rightarrow> (EventLoop \<times> sock_heap_t) cres" where
  "loop_RemoveTcpSock t el heap p =
     (if \<not> in_loop t then Inl AssertFailed
      else case m_event_waiter el of
        None \<Rightarrow> Inr (el, heap)
      | Some w \<Rightarrow> cbind (waiter_RemoveTcpSock t w heap p) (\<lambda>(w, heap). Inr (el\<lparr>m_event_waiter := Some w\<rparr>, heap)))"

definition TerminateLoop :: "EventLoop \<Rightarrow> EventLoop" where
  "TerminateLoop el =
     el\<lparr>m_terminal := True, m_event_waiter := map_option (\<lambda>w. NotifyNewActive w TERMINATE) (m_event_waiter el)\<rparr>"

section \<open>Lemmas\<close>

text \<open>
  The pipe and the flags under interleaving: any thread may notify at any time, also between the two
  steps of the loop thread's \<open>GetAndClearNotify\<close>.
\<close>

datatype waiter_pc = Waiting | Reading

inductive waiter_step :: "SockWaiter \<times> waiter_pc \<Rightarrow> SockWaiter \<times> waiter_pc \<Rightarrow> bool" where
  notify: "waiter_step (w, pc) (NotifyNewActive w active, pc)"
| take: "notify_take w = ((needread, flags), w') \<Longrightarrow>
    waiter_step (w, Waiting) (w', if needread then Reading else Waiting)"
| read: "waiter_step (w, Reading) (notify_read w, Waiting)"

inductive_cases waiter_stepE: "waiter_step (w, pc) (w', pc')"

definition notify_inv :: "SockWaiter \<times> waiter_pc \<Rightarrow> bool" where
  "notify_inv st \<longleftrightarrow> (case st of (w, pc) \<Rightarrow>
     m_notify_pipe1 w \<noteq> - 1 \<and> (m_allactive w \<noteq> 0 \<longrightarrow> m_newnotify w) \<and>
     pipe_bytes w = of_bool (m_newnotify w) + of_bool (pc = Reading))"

lemma notify_inv_step: "waiter_step st st' \<Longrightarrow> notify_inv st \<Longrightarrow> notify_inv st'"
  by (induction rule: waiter_step.induct)
    (auto simp: notify_inv_def NotifyNewActive_def NotifyNewActiveWithoutLock_def notify_take_def notify_read_def
      split: if_splits)

lemma notify_inv_steps: "waiter_step\<^sup>*\<^sup>* st st' \<Longrightarrow> notify_inv st \<Longrightarrow> notify_inv st'"
  by (induction rule: rtranclp_induct) (auto intro: notify_inv_step)

subsection \<open>Waiting\<close>

definition live_in :: "(int, nat) std_map \<Rightarrow> sock_heap_t \<Rightarrow> bool" where
  "live_in ws heap \<longleftrightarrow> (\<forall>(fd, p)\<in>set ws. m_fd (heap p) = fd \<and> m_evloop (heap p))"

definition ready_mask :: "u32 \<Rightarrow> SockEvent" where
  "ready_mask e =
     (let ev = (if e AND EPOLLIN \<noteq> 0 \<or> e AND EPOLLPRI \<noteq> 0 then ev_AddEvent EV_NOEVENT EV_READ else EV_NOEVENT);
          ev = (if e AND EPOLLOUT \<noteq> 0 then ev_AddEvent ev EV_WRITE else ev)
      in if e AND EPOLLERR \<noteq> 0 then ev_AddEvent ev EV_EXCEPTION else ev)"

definition reportable :: "u32 \<Rightarrow> bool" where
  "reportable e \<longleftrightarrow> e AND EPOLLIN \<noteq> 0 \<or> e AND EPOLLPRI \<noteq> 0 \<or> e AND EPOLLOUT \<noteq> 0 \<or> e AND EPOLLERR \<noteq> 0"

lemma RenewTimeout_ok:
  "in_loop t \<Longrightarrow> m_evloop s \<Longrightarrow> \<exists>s'. RenewTimeout t now s = Inr s' \<and> m_fd s' = m_fd s \<and> m_evloop s' = m_evloop s \<and>
     m_sockev s' = m_sockev s"
  by (auto simp: RenewTimeout_def)

lemma UpdateTimeout_ok:
  "in_loop t \<Longrightarrow> m_evloop s \<Longrightarrow> \<exists>s'. UpdateTimeout t now s = Inr s' \<and> m_fd s' = m_fd s \<and> m_evloop s'"
  by (auto simp: UpdateTimeout_def RenewTimeout_def log_call_def)

lemma live_in_upd:
  "live_in ws heap \<Longrightarrow> m_fd s = m_fd (heap p) \<Longrightarrow> m_evloop s \<Longrightarrow> live_in ws (heap(p := s))"
  by (auto simp: live_in_def)

lemma update_timeouts_ok:
  assumes "in_loop t" "live_in ws heap" "set vs \<subseteq> set ws"
  shows "\<exists>heap'. update_timeouts t now vs heap = Inr heap' \<and> live_in ws heap'"
  using assms(2,3)
proof (induction vs arbitrary: heap)
  case (Cons v vs)
  obtain fd p where v: "v = (fd, p)" by (cases v)
  have "m_evloop (heap p)" using Cons.prems v by (auto simp: live_in_def)
  then obtain s where s: "UpdateTimeout t now (heap p) = Inr s" "m_fd s = m_fd (heap p)" "m_evloop s"
    using UpdateTimeout_ok [OF assms(1)] by blast
  with Cons live_in_upd [OF Cons.prems(1) s(2,3)] v show ?case by simp
qed simp

lemma ready_event_ok:
  assumes "in_loop t" "live_in (m_waiting_tcpsocks w) heap" "map_sorted (m_waiting_tcpsocks w)"
    and "(fd, p) \<in> set (m_waiting_tcpsocks w)" "reportable e" "fd \<noteq> m_notify_pipe0 w"
  shows "\<exists>s. ready_event t now w (fd, e) (heap, allready) = Inr (heap(p := s), map_insert fd p allready) \<and>
    m_fd s = fd \<and> m_evloop s \<and> m_sockev s = ready_mask e"
proof -
  define s where "s = (heap p)\<lparr>m_sockev := ready_mask e\<rparr>"
  have live: "m_fd (heap p) = fd" "m_evloop (heap p)" using assms(2,4) by (auto simp: live_in_def)
  then obtain s' where s': "RenewTimeout t now s = Inr s'" "m_fd s' = fd" "m_evloop s'" "m_sockev s' = ready_mask e"
    using RenewTimeout_ok [OF assms(1), of s now] by (auto simp: s_def)
  have "map_of (m_waiting_tcpsocks w) fd = Some p" using assms(3,4) by (simp add: map_of_in_set)
  with s' assms(1,5,6) show ?thesis
    by (auto simp: ready_event_def sock_ClearEvent_def sock_AddEvent_def reportable_def ready_mask_def s_def)
qed

lemma ready_events_ok:
  assumes "in_loop t" "map_sorted (m_waiting_tcpsocks w)"
  shows "live_in (m_waiting_tcpsocks w) heap \<Longrightarrow> map_sorted allready \<Longrightarrow> distinct (map fst evs) \<Longrightarrow>
    \<forall>(fd, e)\<in>set evs. fd \<noteq> m_notify_pipe0 w \<longrightarrow> reportable e \<and> fd \<in> dom (map_of (m_waiting_tcpsocks w)) \<Longrightarrow>
    \<exists>heap' allready'. ready_events t now w evs (heap, allready) = Inr (heap', allready') \<and> map_sorted allready' \<and>
      (\<forall>fd. map_of allready' fd = (if fd \<noteq> m_notify_pipe0 w \<and> fd \<in> fst ` set evs
         then map_of (m_waiting_tcpsocks w) fd else map_of allready fd)) \<and>
      (\<forall>fd p. map_of (m_waiting_tcpsocks w) fd = Some p \<longrightarrow> m_sockev (heap' p) =
         (case map_of evs fd of Some e \<Rightarrow> if fd = m_notify_pipe0 w then m_sockev (heap p) else ready_mask e
          | None \<Rightarrow> m_sockev (heap p)))"
proof (induction evs arbitrary: heap allready)
  case (Cons ev evs)
  obtain fd e where ev: "ev = (fd, e)" by (cases ev)
  show ?case
  proof (cases "fd = m_notify_pipe0 w")
    case True
    then have "ready_event t now w ev (heap, allready) = Inr (heap, allready)" by (simp add: ready_event_def ev)
    with Cons.IH [OF Cons.prems(1,2)] Cons.prems(3,4) True ev show ?thesis by (fastforce split: option.splits)
  next
    case False
    then obtain p where p: "(fd, p) \<in> set (m_waiting_tcpsocks w)" "reportable e"
      using Cons.prems(4) ev by (auto simp: map_of_in_set [OF assms(2)])
    then obtain s where s: "ready_event t now w ev (heap, allready) = Inr (heap(p := s), map_insert fd p allready)"
      "m_fd s = fd" "m_evloop s" "m_sockev s = ready_mask e"
      using ready_event_ok [OF assms(1) Cons.prems(1) assms(2) p False, of now allready] ev by auto
    have look: "map_of (m_waiting_tcpsocks w) fd = Some p" using p(1) assms(2) by (simp add: map_of_in_set)
    have live: "live_in (m_waiting_tcpsocks w) (heap(p := s))"
      using Cons.prems(1) p(1) s(2,3) by (intro live_in_upd) (auto simp: live_in_def)
    have key: "m_fd (heap q) = fd'" if "map_of (m_waiting_tcpsocks w) fd' = Some q" for fd' q
      using bspec [OF Cons.prems(1) [unfolded live_in_def] map_of_SomeD [OF that]] by simp
    have uniq: "q = p \<longleftrightarrow> fd' = fd" if "map_of (m_waiting_tcpsocks w) fd' = Some q" for fd' q
      by (metis that look key option.inject)
    have new: "fd \<notin> fst ` set evs" using Cons.prems(3) ev by simp
    then have none: "map_of evs fd = None" by (simp add: map_of_eq_None_iff)
    have "distinct (map fst evs)" "\<forall>(fd, e)\<in>set evs. fd \<noteq> m_notify_pipe0 w \<longrightarrow>
        reportable e \<and> fd \<in> dom (map_of (m_waiting_tcpsocks w))"
      using Cons.prems(3,4) by auto
    from Cons.IH [OF live map_sorted_insert [OF Cons.prems(2), of fd p] this]
    obtain heap' allready' where IH:
      "ready_events t now w evs (heap(p := s), map_insert fd p allready) = Inr (heap', allready')"
      "map_sorted allready'"
      "\<And>fd'. map_of allready' fd' = (if fd' \<noteq> m_notify_pipe0 w \<and> fd' \<in> fst ` set evs
         then map_of (m_waiting_tcpsocks w) fd' else map_of (map_insert fd p allready) fd')"
      "\<And>fd' q. map_of (m_waiting_tcpsocks w) fd' = Some q \<Longrightarrow> m_sockev (heap' q) =
         (case map_of evs fd' of
            Some e \<Rightarrow> if fd' = m_notify_pipe0 w then m_sockev ((heap(p := s)) q) else ready_mask e
          | None \<Rightarrow> m_sockev ((heap(p := s)) q))"
      by blast
    have "map_of allready' fd' = (if fd' \<noteq> m_notify_pipe0 w \<and> fd' \<in> fst ` set (ev # evs)
         then map_of (m_waiting_tcpsocks w) fd' else map_of allready fd')" for fd'
      using IH(3) look new ev False by (simp add: map_of_insert [OF Cons.prems(2)])
    moreover have "m_sockev (heap' q) = (case map_of (ev # evs) fd' of
         Some e \<Rightarrow> if fd' = m_notify_pipe0 w then m_sockev (heap q) else ready_mask e
       | None \<Rightarrow> m_sockev (heap q))" if "map_of (m_waiting_tcpsocks w) fd' = Some q" for fd' q
      using IH(4) [OF that] uniq [OF that] ev False s(4) none
      by (simp split: option.splits)
    ultimately show ?thesis using s(1) IH(1,2) by auto
  qed
qed simp

lemma live_after_clear:
  assumes "\<forall>(fd, p)\<in>set (m_waiting_tcpsocks w). (IsClosed (heap p) \<and> m_allactive w AND REMOVED \<noteq> 0) \<or>
      (\<not> IsClosed (heap p) \<and> m_fd (heap p) = fd \<and> m_evloop (heap p))"
    and "in_loop t" "m_running w" "GetAndClearNotify w = (notifytype, w1)"
  defines "open \<equiv> filter (\<lambda>(fd, p). \<not> IsClosed (heap p)) (m_waiting_tcpsocks w)"
  shows "\<exists>w2. (if notifytype AND REMOVED \<noteq> 0 then ClearClosedTcpSock t w1 heap else Inr w1) = Inr w2 \<and>
    m_waiting_tcpsocks w2 = open \<and> live_in open heap \<and> m_notify_pipe0 w2 = m_notify_pipe0 w \<and> m_allactive w2 = 0"
proof -
  have live: "live_in open heap" using assms(1) by (fastforce simp: live_in_def open_def)
  have n: "notifytype = m_allactive w" "m_waiting_tcpsocks w1 = m_waiting_tcpsocks w" "m_running w1 = m_running w"
    "m_notify_pipe0 w1 = m_notify_pipe0 w" "m_allactive w1 = 0"
    using assms(4) by (auto simp: GetAndClearNotify_def notify_take_def notify_read_def split: if_splits)
  show ?thesis
  proof (cases "m_allactive w AND REMOVED \<noteq> 0")
    case True
    with n live assms(2,3) show ?thesis by (simp add: ClearClosedTcpSock_def open_def)
  next
    case False
    then have "open = m_waiting_tcpsocks w"
      using assms(1) by (auto simp: open_def filter_id_conv)
    with n live False show ?thesis by simp
  qed
qed

lemma map_sorted_filter: "map_sorted m \<Longrightarrow> map_sorted (filter P m)"
  by (auto simp: map_sorted_def intro: sorted_filter distinct_map_filter)

section \<open>Properties\<close>

text \<open>
  C12: no notification is lost. Threads may notify the waiter at any time, also between the two steps in
  which the loop thread takes the flags and reads the pipe: as long as flags are pending, the pipe holds a
  byte, so the loop thread does not block; and the pipe never holds more than two bytes, so the
  notifying write never fails.
\<close>

theorem waiter_no_lost_notification:
  assumes "waiter_step\<^sup>*\<^sup>* (w, Waiting) (w', pc)"
    and "m_notify_pipe1 w \<noteq> - 1" "\<not> m_newnotify w" "m_allactive w = NOACTIVE" "pipe_bytes w = 0"
  shows "(m_allactive w' \<noteq> NOACTIVE \<longrightarrow> 0 < pipe_bytes w') \<and> pipe_bytes w' \<le> 2 \<and>
    (pc = Waiting \<longrightarrow> fst (GetAndClearNotify w') = m_allactive w' \<and> pipe_bytes (snd (GetAndClearNotify w')) = 0)"
proof -
  have "notify_inv (w, Waiting)" using assms(2-5) by (simp add: notify_inv_def NOACTIVE_def)
  from notify_inv_steps [OF assms(1) this] show ?thesis
    by (auto simp: notify_inv_def NOACTIVE_def GetAndClearNotify_def notify_take_def notify_read_def of_bool_def
        split: if_splits)
qed

definition demo_waiter :: SockWaiter where
  "demo_waiter = \<lparr>m_waiting_tcpsocks = [], m_notify_pipe0 = 3, m_notify_pipe1 = 4, m_newnotify = False,
     m_running = True, m_allactive = NOACTIVE, m_epfd = 5, has_evloop = True, pipe_bytes = 0,
     epoll_set = Map.empty\<rparr>"

theorem waiter_no_lost_notification_witness:
  "0 < pipe_bytes (NotifyNewActive demo_waiter REMOVED)"
proof -
  have "waiter_step\<^sup>*\<^sup>* (demo_waiter, Waiting) (NotifyNewActive demo_waiter REMOVED, Waiting)"
    by (rule r_into_rtranclp) (rule waiter_step.notify)
  from waiter_no_lost_notification [OF this] show ?thesis
    by (simp add: demo_waiter_def NotifyNewActive_def NotifyNewActiveWithoutLock_def REMOVED_def NOACTIVE_def)
qed

lemma epoll_wait_ok:
  assumes "in_loop t" "m_running w" "0 \<le> m_epfd w" "map_sorted (m_waiting_tcpsocks w)"
    and "\<forall>(fd, p)\<in>set (m_waiting_tcpsocks w). (IsClosed (heap p) \<and> m_allactive w AND REMOVED \<noteq> 0) \<or>
      (\<not> IsClosed (heap p) \<and> m_fd (heap p) = fd \<and> m_evloop (heap p))"
    and "distinct (map fst evs)"
    and "\<forall>(fd, e)\<in>set evs. fd \<noteq> m_notify_pipe0 w \<longrightarrow> reportable e \<and>
      (\<exists>p. (fd, p) \<in> set (m_waiting_tcpsocks w) \<and> \<not> IsClosed (heap p))"
  shows "\<exists>ready w' heap'. Epoll_Wait t now w heap (Some evs) = Inr (int (length evs), ready, w', heap') \<and>
    m_waiting_tcpsocks w' = filter (\<lambda>(fd, p). \<not> IsClosed (heap p)) (m_waiting_tcpsocks w) \<and>
    (\<forall>fd. map_of ready fd = (if fd \<in> fst ` set evs - {m_notify_pipe0 w}
       then map_of (m_waiting_tcpsocks w') fd else None)) \<and>
    (\<forall>(fd, e)\<in>set evs. \<forall>p. map_of ready fd = Some p \<longrightarrow> m_sockev (heap' p) = ready_mask e)"
proof -
  define ws where "ws = filter (\<lambda>(fd, p). \<not> IsClosed (heap p)) (m_waiting_tcpsocks w)"
  obtain notifytype w1 where n: "GetAndClearNotify w = (notifytype, w1)" by (cases "GetAndClearNotify w")
  obtain w2 where w2: "(if notifytype AND REMOVED \<noteq> 0 then ClearClosedTcpSock t w1 heap else Inr w1) = Inr w2"
    "m_waiting_tcpsocks w2 = ws" "live_in ws heap" "m_notify_pipe0 w2 = m_notify_pipe0 w"
    using live_after_clear [OF assms(5,1,2) n] by (auto simp: ws_def)
  obtain heap1 where h1: "update_timeouts t now ws heap = Inr heap1" "live_in ws heap1"
    using update_timeouts_ok [OF assms(1) w2(3), of ws now] by auto
  have sorted: "map_sorted ws" using assms(4) by (simp add: ws_def map_sorted_filter)
  have "fd \<in> dom (map_of ws)" if ev: "(fd, e) \<in> set evs" "fd \<noteq> m_notify_pipe0 w" for fd e
  proof -
    obtain p where "(fd, p) \<in> set (m_waiting_tcpsocks w)" "\<not> IsClosed (heap p)"
      using bspec [OF assms(7) ev(1)] ev(2) by auto
    then have "(fd, p) \<in> set ws" by (simp add: ws_def)
    with sorted show ?thesis by (auto simp: map_of_in_set [symmetric])
  qed
  then have evs: "\<forall>(fd, e)\<in>set evs. fd \<noteq> m_notify_pipe0 w2 \<longrightarrow> reportable e \<and> fd \<in> dom (map_of (m_waiting_tcpsocks w2))"
    using assms(7) w2(2,4) by auto
  have pre: "map_sorted (m_waiting_tcpsocks w2)" "live_in (m_waiting_tcpsocks w2) heap1" "map_sorted []"
    using sorted w2(2) h1(2) by simp_all
  from ready_events_ok [OF assms(1) pre assms(6) evs, of now]
  obtain heap2 ready where r: "ready_events t now w2 evs (heap1, []) = Inr (heap2, ready)"
    "\<forall>fd. map_of ready fd = (if fd \<noteq> m_notify_pipe0 w2 \<and> fd \<in> fst ` set evs then map_of ws fd else None)"
    "\<forall>fd p. map_of ws fd = Some p \<longrightarrow> m_sockev (heap2 p) =
       (case map_of evs fd of Some e \<Rightarrow> if fd = m_notify_pipe0 w2 then m_sockev (heap1 p) else ready_mask e
        | None \<Rightarrow> m_sockev (heap1 p))"
    by (auto simp: w2(2))
  have "m_sockev (heap2 p) = ready_mask e" if "(fd, e) \<in> set evs" "map_of ready fd = Some p" for fd e p
    using that r(2,3) map_of_is_SomeI [OF assms(6) that(1)] by (auto split: if_splits)
  moreover have "Epoll_Wait t now w heap (Some evs) = Inr (int (length evs), ready, w2, heap2)"
    using assms(3) n w2(1,2) h1(1) r(1) by (simp add: Epoll_Wait_def)
  ultimately show ?thesis
    by (intro exI [of _ ready] exI [of _ w2] exI [of _ heap2]) (use r(2) w2(2,4) in \<open>auto simp: ws_def\<close>)
qed

text \<open>
  a round of waiting. If every waiting socket is either open, under its own descriptor and
  attached to the loop, or closed with a removal notified, and the kernel reports every descriptor once
  with a readable, writable or error event, then \<open>Wait\<close> fails no assertion, drops exactly the closed
  sockets, returns exactly the reported sockets, and leaves in each the reported events and no others.
\<close>

theorem epoll_wait_ready:
  assumes "in_loop t" "m_running w" "0 \<le> m_epfd w" "map_sorted (m_waiting_tcpsocks w)"
    and "\<forall>(fd, p)\<in>set (m_waiting_tcpsocks w). (IsClosed (heap p) \<and> m_allactive w AND REMOVED \<noteq> 0) \<or>
      (\<not> IsClosed (heap p) \<and> m_fd (heap p) = fd \<and> m_evloop (heap p))"
    and "distinct (map fst evs)"
    and "\<forall>(fd, e)\<in>set evs. fd \<noteq> m_notify_pipe0 w \<longrightarrow> reportable e \<and>
      (\<exists>p. (fd, p) \<in> set (m_waiting_tcpsocks w) \<and> \<not> IsClosed (heap p))"
  shows "\<exists>ready w' heap'. Epoll_Wait t now w heap (Some evs) = Inr (int (length evs), ready, w', heap') \<and>
    m_waiting_tcpsocks w' = filter (\<lambda>(fd, p). \<not> IsClosed (heap p)) (m_waiting_tcpsocks w) \<and>
    (\<forall>fd. map_of ready fd = (if fd \<in> fst ` set evs - {m_notify_pipe0 w}
       then map_of (m_waiting_tcpsocks w') fd else None)) \<and>
    (\<forall>(fd, e)\<in>set evs. \<forall>p. map_of ready fd = Some p \<longrightarrow> m_sockev (heap' p) = ready_mask e)"
  by (rule epoll_wait_ok [OF assms])

definition demo_heap :: sock_heap_t where
  "demo_heap = (\<lambda>p. (new_TcpSock 0 False (int p) [] 0)\<lparr>m_evloop := True, m_isclosing := p = 8\<rparr>)"

theorem epoll_wait_ready_witness:
  "\<exists>ready w' heap'. Epoll_Wait \<lparr>in_loop = True, in_write_loop = False\<rparr> 0
     (demo_waiter\<lparr>m_waiting_tcpsocks := [(7, 7), (8, 8), (9, 9)], m_allactive := REMOVED\<rparr>) demo_heap
     (Some [(3, EPOLLIN), (9, EPOLLIN OR EPOLLERR)]) = Inr (2, ready, w', heap') \<and>
     m_waiting_tcpsocks w' = [(7, 7), (9, 9)] \<and> map_of ready 9 = Some 9 \<and> map_of ready 7 = None \<and>
     m_sockev (heap' 9) = ready_mask (EPOLLIN OR EPOLLERR)"
  using epoll_wait_ready [of "\<lparr>in_loop = True, in_write_loop = False\<rparr>"
      "demo_waiter\<lparr>m_waiting_tcpsocks := [(7, 7), (8, 8), (9, 9)], m_allactive := REMOVED\<rparr>" demo_heap
      "[(3, EPOLLIN), (9, EPOLLIN OR EPOLLERR)]" 0]
  by (simp add: demo_waiter_def demo_heap_def new_TcpSock_def IsClosed_def REMOVED_def reportable_def EPOLLIN_def
      EPOLLERR_def EPOLLOUT_def EPOLLPRI_def) (elim exE conjE; force)

lemma SendDataInLoop_short:
  assumes "in_write_loop t" "m_evloop s" "\<not> IsClosed s" "Writeable s" "\<not> hasEvent (m_caredev s) EV_WRITE"
    and "fb_inv (m_outbuf s)" "d \<noteq> []"
  shows "\<exists>s'. SendDataInLoop t s d [Fail EAGAIN] = Inr (s', []) \<and> calls s' = calls s @ [UpdateTcpSock]"
proof -
  obtain b where b: "fb_push_back (m_outbuf s) d = Inr b" "fb_inv b" "fb_contents b = fb_contents (m_outbuf s) @ d"
    using fb_push_back_law [OF assms(6)] by blast
  then have "\<not> fb_empty b" "fb_data b = Inr (fb_contents b)" using assms(7) by (simp_all add: fb_empty_iff fb_data_inv)
  with assms b(1) show ?thesis
    by (simp add: SendDataInLoop_def write_result_def AddAndUpdateEvent_def EAGAIN_def)
qed

text \<open>
  C40: the build with assertions aborts on a short write. A socket attached to a loop whose output
  does not fit into the kernel's buffer asks the loop, from the write thread, to wait for writability;
  \<open>EventLoop::UpdateTcpSock\<close> asserts that it is called in the loop thread.
\<close>

theorem short_write_asserts:
  assumes "in_write_loop t" "\<not> in_loop t" "m_evloop s" "\<not> IsClosed s" "Writeable s"
    and "\<not> hasEvent (m_caredev s) EV_WRITE" "fb_inv (m_outbuf s)" "d \<noteq> []"
  shows "\<exists>s'. SendDataInLoop t s d [Fail EAGAIN] = Inr (s', []) \<and> calls s' = calls s @ [UpdateTcpSock] \<and>
    loop_UpdateTcpSock t el (heap(p := s')) p = Inl AssertFailed"
  using SendDataInLoop_short [OF assms(1,3-8)] assms(2) by (auto simp: loop_UpdateTcpSock_def)

theorem short_write_asserts_witness:
  "\<exists>s'. SendDataInLoop \<lparr>in_loop = False, in_write_loop = True\<rparr> (demo_heap 7) [1] [Fail EAGAIN] = Inr (s', []) \<and>
     calls s' = [UpdateTcpSock] \<and>
     loop_UpdateTcpSock \<lparr>in_loop = False, in_write_loop = True\<rparr>
       \<lparr>m_event_waiter = Some demo_waiter, m_terminal = False, m_pendings = []\<rparr> (demo_heap(7 := s')) 7 = Inl AssertFailed"
  using short_write_asserts [of "\<lparr>in_loop = False, in_write_loop = True\<rparr>" "demo_heap 7" "[1]"
      "\<lparr>m_event_waiter = Some demo_waiter, m_terminal = False, m_pendings = []\<rparr>" demo_heap 7]
  by (simp add: demo_heap_def new_TcpSock_def IsClosed_def Writeable_def hasEvent_def EV_NOEVENT_def fb_inv_new)

end
