(* ===== verification/Client_Pool.thy ===== *)
theory Client_Pool
  imports Sock_Waiter
begin

text \<open>
  The pools a client keeps: event loops by name (\<^verbatim>\<open>src/Core/EventLoopPool.cpp\<close>) and connections by
  destination (\<^verbatim>\<open>src/Core/TcpClientPool.h\<close>, \<^verbatim>\<open>src/Core/TcpClientPool.cpp\<close>). Starting a loop's thread
  is an external effect: whether it succeeds, and the waiter of the new loop, are arguments. The outcomes of
  the system calls of a connection attempt are a record.
\<close>

section \<open>Event loops by name\<close>

record EventLoopPool =
  m_eventloop_pool :: "(byte list, EventLoop) std_map"
  m_innerloop_pool :: "(byte list, EventLoop) std_map"
  s_max_tcp_num_inloop :: nat

definition MAX_TCPNUM :: nat where "MAX_TCPNUM = 10"

definition InitEventLoopPool :: "EventLoopPool \<Rightarrow> int \<Rightarrow> EventLoopPool" where
  "InitEventLoopPool ep n = (if n > 0 then ep\<lparr>s_max_tcp_num_inloop := nat n\<rparr> else ep)"

text \<open>\<open>started\<close>: the new loop when its thread could be started.\<close>

definition CreateEventLoop :: "EventLoopPool \<Rightarrow> byte list \<Rightarrow> EventLoop option \<Rightarrow> bool \<times> EventLoopPool" where
  "CreateEventLoop ep name started =
     (if map_of (m_eventloop_pool ep) name \<noteq> None then (True, ep)
      else case started of
        Some el \<Rightarrow> (True, ep\<lparr>m_eventloop_pool := map_insert name el (m_eventloop_pool ep)\<rparr>)
      | None \<Rightarrow> (False, ep))"

definition loop_GetActiveTcpNum :: "EventLoop \<Rightarrow> nat" where
  "loop_GetActiveTcpNum el =
     (if m_terminal el then 0 else case m_event_waiter el of Some w \<Rightarrow> GetActiveTcpNum w | None \<Rightarrow> 0)"

definition pool_AddTcpSockToLoop ::
  "thread_ctx \<Rightarrow> EventLoopPool \<Rightarrow> sock_heap_t \<Rightarrow> byte list \<Rightarrow> nat \<Rightarrow> (bool \<times> EventLoopPool \<times> sock_heap_t) cres" where
  "pool_AddTcpSockToLoop t ep heap loopname p =
     (case map_of (m_eventloop_pool ep) loopname of
        None \<Rightarrow> Inr (False, ep, heap)
      | Some el \<Rightarrow> cbind (AddTcpSockToLoop t el heap p) (\<lambda>(ok, el, heap).
          Inr (ok, ep\<lparr>m_eventloop_pool := map_insert loopname el (m_eventloop_pool ep)\<rparr>, heap)))"

text \<open>The first inner loop with room; the chosen loop is added to even when a race has filled it meanwhile.\<close>

fun find_inner :: "nat \<Rightarrow> (byte list, EventLoop) std_map \<Rightarrow> (byte list \<times> EventLoop) option" where
  "find_inner mx [] = None"
| "find_inner mx ((name, el) # it) =
     (if loop_GetActiveTcpNum el < mx then Some (name, el) else find_inner mx it)"

definition inner_name :: "nat \<Rightarrow> byte list" where
  "inner_name n = lit ''innerloop_'' @ [97 + of_nat n]"

definition AddTcpSockToInnerLoop ::
  "thread_ctx \<Rightarrow> EventLoopPool \<Rightarrow> sock_heap_t \<Rightarrow> nat \<Rightarrow> EventLoop option \<Rightarrow> (bool \<times> EventLoopPool \<times> sock_heap_t) cres" where
  "AddTcpSockToInnerLoop t ep heap p started =
     (case find_inner (s_max_tcp_num_inloop ep) (m_innerloop_pool ep) of
        Some (name, el) \<Rightarrow>
          cbind (AddTcpSockToLoop t el heap p) (\<lambda>(ok, el, heap).
            Inr (ok, ep\<lparr>m_innerloop_pool := map_insert name el (m_innerloop_pool ep)\<rparr>, heap))
      | None \<Rightarrow>
          (case started of
             None \<Rightarrow> Inr (False, ep, heap)
           | Some el \<Rightarrow>
               let name = inner_name (length (m_innerloop_pool ep)) in
               cbind (AddTcpSockToLoop t el heap p) (\<lambda>(ok, el, heap).
                 Inr (ok, ep\<lparr>m_innerloop_pool := map_insert name el (m_innerloop_pool ep)\<rparr>, heap))))"

section \<open>Connections by destination\<close>

type_synonym dest = "byte list \<times> u16"

record TcpClientPool =
  m_tcpclient_pool :: "dest \<Rightarrow> nat list option"
  m_select_counter :: "dest \<Rightarrow> u32 option"

definition new_TcpClientPool :: TcpClientPool where
  "new_TcpClientPool = \<lparr>m_tcpclient_pool = Map.empty, m_select_counter = Map.empty\<rparr>"

text \<open>The counter is an \<open>int\<close>; its conversion to \<open>size_t\<close> extends the sign.\<close>

definition select_index :: "u32 \<Rightarrow> nat \<Rightarrow> nat" where
  "select_index c n = unat (scast c :: u64) mod n"

definition GetTcpSockByDestHost :: "TcpClientPool \<Rightarrow> dest \<Rightarrow> (nat option \<times> TcpClientPool) cres" where
  "GetTcpSockByDestHost pool key =
     (case m_tcpclient_pool pool key of
        Some all_conn \<Rightarrow>
          if length all_conn > 0 then
            (case m_select_counter pool key of
               None \<Rightarrow> Inl AssertFailed
             | Some c \<Rightarrow> Inr (Some (all_conn ! select_index c (length all_conn)),
                 pool\<lparr>m_select_counter := (m_select_counter pool)(key \<mapsto> c + 1)\<rparr>))
          else Inr (None, pool)
      | None \<Rightarrow> Inr (None, pool))"

text \<open>Appending a connection, the same in \<open>AddTcpSock\<close> and \<open>CreateTcpSock\<close>.\<close>

definition pool_push :: "TcpClientPool \<Rightarrow> dest \<Rightarrow> nat \<Rightarrow> TcpClientPool" where
  "pool_push pool key p =
     (case m_tcpclient_pool pool key of
        Some conns \<Rightarrow> pool\<lparr>m_tcpclient_pool := (m_tcpclient_pool pool)(key \<mapsto> conns @ [p])\<rparr>
      | None \<Rightarrow> pool\<lparr>m_tcpclient_pool := (m_tcpclient_pool pool)(key \<mapsto> [p]),
                    m_select_counter := (m_select_counter pool)(key \<mapsto> 0)\<rparr>)"

definition pool_AddTcpSock :: "TcpClientPool \<Rightarrow> sock_heap_t \<Rightarrow> nat option \<Rightarrow> bool \<times> TcpClientPool" where
  "pool_AddTcpSock pool heap sp_tcp =
     (case sp_tcp of
        None \<Rightarrow> (False, pool)
      | Some p \<Rightarrow> (case GetDestHost (heap p) of None \<Rightarrow> (False, pool) | Some key \<Rightarrow> (True, pool_push pool key p)))"

definition IsSameTcpSock :: "TcpSock \<Rightarrow> TcpSock \<Rightarrow> bool" where
  "IsSameTcpSock left right = (if IsClosed left \<or> IsClosed right then False else m_fd left = m_fd right)"

definition pool_RemoveTcpSock :: "TcpClientPool \<Rightarrow> sock_heap_t \<Rightarrow> nat option \<Rightarrow> TcpClientPool" where
  "pool_RemoveTcpSock pool heap sp_tcp =
     (case sp_tcp of
        None \<Rightarrow> pool
      | Some p \<Rightarrow>
          (case GetDestHost (heap p) of
             None \<Rightarrow> pool
           | Some key \<Rightarrow>
               (case m_tcpclient_pool pool key of
                  None \<Rightarrow> pool
                | Some conns \<Rightarrow> pool\<lparr>m_tcpclient_pool := (m_tcpclient_pool pool)
                    (key \<mapsto> filter (\<lambda>q. \<not> IsSameTcpSock (heap p) (heap q)) conns)\<rparr>)))"

section \<open>Creating connections\<close>

text \<open>The results of the system calls of one attempt, and the members a new socket leaves uninitialised.\<close>

record conn_attempt =
  ca_fd :: int
  ca_connect :: "int option"
  ca_select :: int
  ca_sockerr :: int
  ca_errno :: int
  ca_uninit :: "int \<times> bool"

record net_state =
  sock_mem :: sock_heap_t
  next_sock :: nat
  loops :: EventLoopPool

text \<open>
  The loop of \<open>CreateTcpSock\<close>; \<open>attempt k\<close> has the outcomes of the attempt with \<open>k\<close> more to follow, \<open>inner k\<close> the
  loop a new inner loop thread would be. \<open>postcb\<close> works on the sockets and on a state of its own.
\<close>

fun create_loop ::
  "thread_ctx \<Rightarrow> byte list \<Rightarrow> dest \<Rightarrow> SockHandler \<Rightarrow> (nat \<Rightarrow> net_state \<Rightarrow> 's \<Rightarrow> (bool \<times> net_state \<times> 's) cres) \<Rightarrow>
     (nat \<Rightarrow> conn_attempt) \<Rightarrow> (nat \<Rightarrow> EventLoop option) \<Rightarrow> nat \<Rightarrow> TcpClientPool \<Rightarrow> net_state \<Rightarrow> 's \<Rightarrow>
     (bool \<times> TcpClientPool \<times> net_state \<times> 's) cres" where
  "create_loop t loopname key cb postcb attempt inner 0 pool ns st = Inr (True, pool, ns, st)"
| "create_loop t loopname key cb postcb attempt inner (Suc k) pool ns st =
     (let a = attempt k;
          p = next_sock ns;
          newtcp = new_TcpSock_unconnected (fst (ca_uninit a)) (snd (ca_uninit a)) in
      cbind (Connect t newtcp (fst key) (snd key) (ca_fd a) (ca_connect a) (ca_select a) (ca_sockerr a) (ca_errno a))
        (\<lambda>(connected, newtcp).
      let ns = ns\<lparr>sock_mem := (sock_mem ns)(p := newtcp), next_sock := p + 1\<rparr> in
      if \<not> connected then Inr (False, pool, ns, st)
      else
        let ns = ns\<lparr>sock_mem := (sock_mem ns)(p := SetSockHandler newtcp cb)\<rparr> in
        cbind (if loopname \<noteq> [] then pool_AddTcpSockToLoop t (loops ns) (sock_mem ns) loopname p
               else AddTcpSockToInnerLoop t (loops ns) (sock_mem ns) p (inner k)) (\<lambda>(added, ep, heap).
        let ns = ns\<lparr>loops := ep, sock_mem := heap\<rparr> in
        if \<not> added then Inr (False, pool, ns, st)
        else
          cbind (postcb p ns st) (\<lambda>(ok, ns, st).
          if \<not> ok then Inr (False, pool, ns, st)
          else create_loop t loopname key cb postcb attempt inner k (pool_push pool key p) ns st))))"

definition CreateTcpSock ::
  "thread_ctx \<Rightarrow> byte list \<Rightarrow> dest \<Rightarrow> int \<Rightarrow> SockHandler \<Rightarrow> (nat \<Rightarrow> net_state \<Rightarrow> 's \<Rightarrow> (bool \<times> net_state \<times> 's) cres) \<Rightarrow>
     (nat \<Rightarrow> conn_attempt) \<Rightarrow> (nat \<Rightarrow> EventLoop option) \<Rightarrow> TcpClientPool \<Rightarrow> net_state \<Rightarrow> 's \<Rightarrow>
     (bool \<times> TcpClientPool \<times> net_state \<times> 's) cres" where
  "CreateTcpSock t loopname key num cb postcb attempt inner pool ns st =
     (case m_tcpclient_pool pool key of
        Some conns \<Rightarrow>
          if m_select_counter pool key = None then Inl AssertFailed
          else create_loop t loopname key cb postcb attempt inner (nat (num - int (length conns))) pool ns st
      | None \<Rightarrow> create_loop t loopname key cb postcb attempt inner (nat num) pool ns st)"

section \<open>Lemmas\<close>

definition pool_inv :: "TcpClientPool \<Rightarrow> bool" where
  "pool_inv pool \<longleftrightarrow> dom (m_tcpclient_pool pool) = dom (m_select_counter pool)"

definition conns_of :: "TcpClientPool \<Rightarrow> dest \<Rightarrow> nat list" where
  "conns_of pool key = (case m_tcpclient_pool pool key of Some conns \<Rightarrow> conns | None \<Rightarrow> [])"

lemma pool_inv_new: "pool_inv new_TcpClientPool"
  by (simp add: pool_inv_def new_TcpClientPool_def)

lemma pool_inv_push: "pool_inv pool \<Longrightarrow> pool_inv (pool_push pool key p)"
  by (auto simp: pool_inv_def pool_push_def split: option.splits)

lemma conns_of_push: "conns_of (pool_push pool key p) k = (if k = key then conns_of pool key @ [p] else conns_of pool k)"
  by (auto simp: conns_of_def pool_push_def split: option.splits)

lemma pool_inv_remove: "pool_inv pool \<Longrightarrow> pool_inv (pool_RemoveTcpSock pool heap sp)"
  by (auto simp: pool_inv_def pool_RemoveTcpSock_def split: option.splits)

lemma pool_get_ok:
  assumes "pool_inv pool"
  shows "\<exists>r pool'. GetTcpSockByDestHost pool key = Inr (r, pool') \<and> pool_inv pool' \<and>
    m_tcpclient_pool pool' = m_tcpclient_pool pool \<and> (r = None \<longleftrightarrow> conns_of pool key = []) \<and>
    (\<forall>p. r = Some p \<longrightarrow> p \<in> set (conns_of pool key))"
proof (cases "conns_of pool key = []")
  case True
  with assms show ?thesis
    by (auto simp: GetTcpSockByDestHost_def conns_of_def split: option.splits)
next
  case False
  then obtain conns where c: "m_tcpclient_pool pool key = Some conns" "conns \<noteq> []"
    by (auto simp: conns_of_def split: option.splits)
  then obtain n where "m_select_counter pool key = Some n" using assms by (auto simp: pool_inv_def)
  with c assms show ?thesis
    by (auto simp: GetTcpSockByDestHost_def conns_of_def pool_inv_def select_index_def intro!: nth_mem)
qed

lemma unat_scast_small:
  assumes "unat (c :: u32) < 2 ^ 31"
  shows "unat (scast c :: u64) = unat c"
proof -
  have u: "uint c < 2 ^ 31" using assms by (metis of_nat_less_iff of_nat_numeral of_nat_power uint_nat)
  have "- (2 ^ 31) \<le> uint c" by (rule order_trans [of _ 0]) simp_all
  then have "sint c = uint c" using u by (simp add: sint_uint signed_take_bit_int_eq_self)
  then have "scast c = (word_of_int (uint c) :: u64)" by (simp add: scast_eq)
  moreover have "uint (word_of_int (uint c) :: u64) = uint c"
    unfolding uint_word_of_int using u by (simp add: mod_pos_pos_trivial)
  ultimately show ?thesis by (simp only: unat_eq_nat_uint)
qed

fun get_many :: "TcpClientPool \<Rightarrow> dest \<Rightarrow> nat \<Rightarrow> (nat option list \<times> TcpClientPool) cres" where
  "get_many pool key 0 = Inr ([], pool)"
| "get_many pool key (Suc k) =
     cbind (GetTcpSockByDestHost pool key) (\<lambda>(r, pool). cmap (\<lambda>(rs, pool). (r # rs, pool)) (get_many pool key k))"

lemma get_many_eq:
  assumes "conns \<noteq> []"
  shows "m_tcpclient_pool pool key = Some conns \<Longrightarrow> m_select_counter pool key = Some c \<Longrightarrow> unat c + k \<le> 2 ^ 31 \<Longrightarrow>
    \<exists>pool'. get_many pool key k = Inr (map (\<lambda>i. Some (conns ! ((unat c + i) mod length conns))) [0..<k], pool')"
proof (induction k arbitrary: pool c)
  case (Suc k)
  define pool1 where "pool1 = pool\<lparr>m_select_counter := (m_select_counter pool)(key \<mapsto> c + 1)\<rparr>"
  have u: "unat (c + 1) = unat c + 1"
    using Suc.prems(3) by (simp add: unat_word_ariths)
  have i: "select_index c (length conns) = unat c mod length conns"
    using Suc.prems(3) unat_scast_small [of c] by (simp add: select_index_def)
  obtain pool' where IH: "get_many pool1 key k = Inr (map (\<lambda>i. Some (conns ! ((unat (c + 1) + i) mod length conns))) [0..<k], pool')"
    using Suc.IH [of pool1 "c + 1"] Suc.prems u by (auto simp: pool1_def)
  have "GetTcpSockByDestHost pool key = Inr (Some (conns ! (unat c mod length conns)), pool1)"
    using Suc.prems assms i by (simp add: GetTcpSockByDestHost_def pool1_def)
  moreover have "map (\<lambda>i. Some (conns ! ((unat c + i) mod length conns))) [0..<Suc k]
      = Some (conns ! (unat c mod length conns)) # map (\<lambda>i. Some (conns ! ((unat (c + 1) + i) mod length conns))) [0..<k]"
    by (simp add: upt_conv_Cons map_Suc_upt [symmetric] u del: upt_Suc)
  ultimately show ?case using IH by simp
qed simp

text \<open>The connections created by the loop, and what it leaves alone.\<close>

lemma create_loop_conns:
  assumes "create_loop t loopname key cb postcb attempt inner k pool ns st = Inr (ok, pool', ns', st')" "pool_inv pool"
  shows "pool_inv pool' \<and> (\<forall>key'. key' \<noteq> key \<longrightarrow> conns_of pool' key' = conns_of pool key') \<and>
    (\<exists>new. conns_of pool' key = conns_of pool key @ new \<and> length new \<le> k \<and> (ok \<longrightarrow> length new = k))"
  using assms
proof (induction k arbitrary: pool ns st)
  case (Suc k)
  from Suc.prems(1) consider (stop) "\<not> ok" "pool' = pool"
    | (more) ns1 st1 where "create_loop t loopname key cb postcb attempt inner k (pool_push pool key (next_sock ns)) ns1 st1
        = Inr (ok, pool', ns', st')"
    by (auto simp: Let_def cbind_eq_Inr split: if_splits)
  then show ?case
  proof cases
    case stop
    with Suc.prems(2) show ?thesis by auto
  next
    case more
    from Suc.IH [OF more pool_inv_push [OF Suc.prems(2)]] show ?thesis by (auto simp: conns_of_push)
  qed
qed auto

section \<open>Properties\<close>

text \<open>
  connections to a destination are used in turn. As long as the counter stays below 2^31, as many
  consecutive calls of \<open>GetTcpSockByDestHost\<close> as there are connections return each of them exactly once, in
  their order, starting after the one used last.
\<close>

theorem pool_round_robin:
  assumes "m_tcpclient_pool pool key = Some conns" "conns \<noteq> []" "m_select_counter pool key = Some c"
    and "unat c + length conns \<le> 2 ^ 31"
  shows "\<exists>pool'. get_many pool key (length conns) = Inr (map Some (rotate (unat c) conns), pool')"
proof -
  have "map (\<lambda>i. Some (conns ! ((unat c + i) mod length conns))) [0..<length conns] = map Some (rotate (unat c) conns)"
    by (rule nth_equalityI) (simp_all add: nth_rotate)
  with get_many_eq [OF assms(2,1,3,4)] show ?thesis by simp
qed

theorem pool_round_robin_witness:
  "\<exists>pool'. get_many \<lparr>m_tcpclient_pool = [(lit ''10.0.0.1'', 80) \<mapsto> [4, 5, 6]],
       m_select_counter = [(lit ''10.0.0.1'', 80) \<mapsto> 7]\<rparr> (lit ''10.0.0.1'', 80) 3 = Inr ([Some 5, Some 6, Some 4], pool')"
proof -
  have l: "length [4, 5, 6 :: nat] = 3" by simp
  show ?thesis
    using pool_round_robin [of "\<lparr>m_tcpclient_pool = [(lit ''10.0.0.1'', 80) \<mapsto> [4, 5, 6]],
        m_select_counter = [(lit ''10.0.0.1'', 80) \<mapsto> 7]\<rparr>" "(lit ''10.0.0.1'', 80)" "[4, 5, 6]" 7]
    unfolding l by (simp add: rotate_drop_take del: get_many.simps)
qed

text \<open>
  filling the pool. Whatever the outcomes of its connection attempts, \<open>CreateTcpSock\<close> keeps the tables of
  connections and counters in step, only appends connections of the requested destination, and when it
  succeeds the destination has the requested number of connections, or the number it had before if that is larger.
\<close>

theorem pool_create:
  assumes "pool_inv pool"
    and "CreateTcpSock t loopname key num cb postcb attempt inner pool ns st = Inr (ok, pool', ns', st')"
  shows "pool_inv pool' \<and> (\<forall>key'. key' \<noteq> key \<longrightarrow> conns_of pool' key' = conns_of pool key') \<and>
    (\<exists>new. conns_of pool' key = conns_of pool key @ new \<and>
      (ok \<longrightarrow> int (length (conns_of pool' key)) = max num (int (length (conns_of pool key)))))"
proof -
  have "create_loop t loopname key cb postcb attempt inner (nat (num - int (length (conns_of pool key)))) pool ns st
      = Inr (ok, pool', ns', st')"
    using assms by (auto simp: CreateTcpSock_def conns_of_def pool_inv_def split: option.splits if_splits)
  from create_loop_conns [OF this assms(1)] show ?thesis by (auto simp: max_def)
qed

definition demo_loops :: EventLoopPool where
  "demo_loops = \<lparr>m_eventloop_pool = [(lit ''loop'', \<lparr>m_event_waiter = Some demo_waiter, m_terminal = False, m_pendings = []\<rparr>)],
     m_innerloop_pool = [], s_max_tcp_num_inloop = MAX_TCPNUM\<rparr>"

definition demo_net :: net_state where
  "demo_net = \<lparr>sock_mem = demo_heap, next_sock = 20, loops = demo_loops\<rparr>"

definition demo_attempt :: conn_attempt where
  "demo_attempt = \<lparr>ca_fd = 33, ca_connect = Some 115, ca_select = 1, ca_sockerr = 0, ca_errno = 0, ca_uninit = (0, False)\<rparr>"

theorem pool_create_witness:
  "\<exists>pool' ns' st'. CreateTcpSock \<lparr>in_loop = False, in_write_loop = False\<rparr> (lit ''loop'') (lit ''10.0.0.1'', 80) 1
      SockHandler_clear (\<lambda>p ns st. Inr (True, ns, Suc st)) (\<lambda>_. demo_attempt) (\<lambda>_. None) new_TcpClientPool demo_net 0
      = Inr (True, pool', ns', st') \<and> length (conns_of pool' (lit ''10.0.0.1'', 80)) = 1"
proof -
  let ?r = "CreateTcpSock \<lparr>in_loop = False, in_write_loop = False\<rparr> (lit ''loop'') (lit ''10.0.0.1'', 80) 1
      SockHandler_clear (\<lambda>p ns st. Inr (True, ns, Suc st)) (\<lambda>_. demo_attempt) (\<lambda>_. None) new_TcpClientPool demo_net 0"
  have "\<exists>pool' ns' st'. ?r = Inr (True, pool', ns', st')"
    by (simp add: CreateTcpSock_def new_TcpClientPool_def demo_net_def demo_attempt_def demo_loops_def demo_waiter_def
        Connect_def new_TcpSock_unconnected_def new_TcpSock_def pool_AddTcpSockToLoop_def AddTcpSockToLoop_def
        waiter_AddTcpSock_def waiter_UpdateTcpSock_def SetEventLoop_def SetSockHandler_def lit_def)
  then obtain pool' ns' st' where r: "?r = Inr (True, pool', ns', st')" by blast
  from pool_create [OF pool_inv_new r] r show ?thesis
    by (intro exI [of _ pool'] exI [of _ ns'] exI [of _ st']) (auto simp: new_TcpClientPool_def conns_of_def)
qed

text \<open>
  removing a connection. When a connection that is still open is removed (the close and error
  callbacks run before the socket is closed), its destination keeps exactly the other connections in their order,
  none with the same descriptor, and it can no longer be selected.
\<close>

theorem pool_remove:
  assumes "pool_inv pool" "GetDestHost (heap p) = Some key" "\<not> IsClosed (heap p)"
    and "\<forall>q\<in>set (conns_of pool key). \<not> IsClosed (heap q)"
  shows "pool_inv (pool_RemoveTcpSock pool heap (Some p)) \<and>
    conns_of (pool_RemoveTcpSock pool heap (Some p)) key =
      filter (\<lambda>q. m_fd (heap q) \<noteq> m_fd (heap p)) (conns_of pool key) \<and>
    (\<forall>r pool'. GetTcpSockByDestHost (pool_RemoveTcpSock pool heap (Some p)) key = Inr (r, pool') \<longrightarrow> r \<noteq> Some p)"
proof -
  let ?pool = "pool_RemoveTcpSock pool heap (Some p)"
  have eq: "conns_of ?pool key = filter (\<lambda>q. m_fd (heap q) \<noteq> m_fd (heap p)) (conns_of pool key)"
    using assms(2-4) by (auto simp: pool_RemoveTcpSock_def conns_of_def IsSameTcpSock_def split: option.splits
        intro!: filter_cong)
  have inv: "pool_inv ?pool" using assms(1) by (rule pool_inv_remove)
  from pool_get_ok [OF this, of key] eq have
    "r \<noteq> Some p" if "GetTcpSockByDestHost ?pool key = Inr (r, pool')" for r pool' using that by auto
  with eq inv show ?thesis by simp
qed

theorem pool_remove_witness:
  "conns_of (pool_RemoveTcpSock \<lparr>m_tcpclient_pool = [(lit ''10.0.0.1'', 80) \<mapsto> [4, 5, 6]],
       m_select_counter = [(lit ''10.0.0.1'', 80) \<mapsto> 7]\<rparr> (\<lambda>p. new_TcpSock 0 False (int p) (lit ''10.0.0.1'') 80) (Some 5))
     (lit ''10.0.0.1'', 80) = [4, 6]"
  using pool_remove [of "\<lparr>m_tcpclient_pool = [(lit ''10.0.0.1'', 80) \<mapsto> [4, 5, 6]],
       m_select_counter = [(lit ''10.0.0.1'', 80) \<mapsto> 7]\<rparr>" "\<lambda>p. new_TcpSock 0 False (int p) (lit ''10.0.0.1'') 80" 5
       "(lit ''10.0.0.1'', 80)"]
  by (simp add: pool_inv_def GetDestHost_def new_TcpSock_def IsClosed_def conns_of_def lit_def)

end
