(* ===== verification/Future.thy ===== *)
theory Future
  imports Bus_Prelude
begin

text \<open>
  Futures of requests, \<^verbatim>\<open>src/Core/NetMsgBusFuture.hpp\<close>. A future is shared between the caller and
  the manager's table, so futures live in a heap and the table holds pointers: erasing a table entry leaves
  the caller's future alive. Callbacks are values of a type parameter; \<open>set_result\<close> returns the callback to be
  invoked with the future. The clock is an argument of every operation that reads it.
\<close>

section \<open>Model\<close>

record 'cb NetFuture =
  ready :: bool
  has_error :: bool
  rsp_content :: "byte list"
  generated_time :: int
  callback :: "'cb option"

definition MAX_EXIST_TIME :: int where "MAX_EXIST_TIME = 120"

definition new_NetFuture :: "int \<Rightarrow> 'cb option \<Rightarrow> 'cb NetFuture" where
  "new_NetFuture now cb =
     \<lparr>ready = False, has_error = False, rsp_content = [], generated_time = now, callback = cb\<rparr>"

definition set_result :: "'cb NetFuture \<Rightarrow> byte list \<Rightarrow> 'cb NetFuture \<times> 'cb option" where
  "set_result f pdata = (f\<lparr>rsp_content := pdata, ready := True\<rparr>, callback f)"

definition set_error :: "'cb NetFuture \<Rightarrow> byte list \<Rightarrow> 'cb NetFuture \<times> 'cb option" where
  "set_error f errinfo = set_result (f\<lparr>has_error := True\<rparr>) errinfo"

definition is_bad :: "int \<Rightarrow> 'cb NetFuture \<Rightarrow> bool" where
  "is_bad now f \<longleftrightarrow> now - generated_time f > MAX_EXIST_TIME"

definition get_now :: "'cb NetFuture \<Rightarrow> byte list option" where
  "get_now f = (if \<not> ready f then None else Some (rsp_content f))"

text \<open>
  \<open>join\<close>. Every return of \<open>waittime\<close> is one element of the list: whether it timed out, and the future as it
  is then (other threads may have set it). \<open>None\<close>: the caller is still waiting when the list ends.
\<close>

fun join :: "'cb NetFuture \<Rightarrow> (bool \<times> 'cb NetFuture) list \<Rightarrow> (bool \<times> 'cb NetFuture) option" where
  "join f [] = (if ready f then Some (True, f) else None)"
| "join f ((timedout, f') # ws) =
     (if ready f then Some (True, f)
      else if timedout then Some (False, f')
      else if ready f' then Some (True, f')
      else join f' ws)"

definition get_timeout :: "'cb NetFuture \<Rightarrow> (bool \<times> 'cb NetFuture) list \<Rightarrow> (bool \<times> byte list) option" where
  "get_timeout f ws =
     map_option (\<lambda>(ok, f). if \<not> ok then (False, lit ''wait time out.'') else (True, rsp_content f)) (join f ws)"

record 'cb FutureMgr =
  future_inc_id :: u32
  sendmsg_rsp_container :: "u32 \<Rightarrow> nat option"
  fut_heap :: "'cb NetFuture list"

definition new_FutureMgr :: "'cb FutureMgr" where
  "new_FutureMgr = \<lparr>future_inc_id = 0, sendmsg_rsp_container = Map.empty, fut_heap = []\<rparr>"

definition next_future_id :: "u32 \<Rightarrow> u32" where
  "next_future_id i = (let i = i + 1 in if i = 0 then i + 1 else i)"

definition safe_insert_future :: "int \<Rightarrow> 'cb FutureMgr \<Rightarrow> 'cb option \<Rightarrow> ((u32 \<times> nat) \<times> 'cb FutureMgr) cres" where
  "safe_insert_future now m cb =
     (let i = next_future_id (future_inc_id m);
          p = length (fut_heap m);
          m = m\<lparr>future_inc_id := i, fut_heap := fut_heap m @ [new_NetFuture now cb]\<rparr> in
      if sendmsg_rsp_container m i \<noteq> None then Inl AssertFailed
      else Inr ((i, p), m\<lparr>sendmsg_rsp_container := (sendmsg_rsp_container m)(i \<mapsto> p)\<rparr>))"

definition safe_remove_future :: "'cb FutureMgr \<Rightarrow> u32 \<Rightarrow> 'cb FutureMgr" where
  "safe_remove_future m sid = m\<lparr>sendmsg_rsp_container := (sendmsg_rsp_container m)(sid := None)\<rparr>"

definition safe_get_future :: "'cb FutureMgr \<Rightarrow> u32 \<Rightarrow> bool \<Rightarrow> nat option \<times> 'cb FutureMgr" where
  "safe_get_future m sid erase =
     (sendmsg_rsp_container m sid,
      if sendmsg_rsp_container m sid \<noteq> None \<and> erase
      then m\<lparr>sendmsg_rsp_container := (sendmsg_rsp_container m)(sid := None)\<rparr> else m)"

definition safe_clear_bad_future :: "int \<Rightarrow> 'cb FutureMgr \<Rightarrow> 'cb FutureMgr" where
  "safe_clear_bad_future now m =
     m\<lparr>sendmsg_rsp_container := (\<lambda>sid. case sendmsg_rsp_container m sid of
          Some p \<Rightarrow> if is_bad now (fut_heap m ! p) then None else Some p
        | None \<Rightarrow> None)\<rparr>"

text \<open>
  The answer to a session: the future leaves the table and gets the result (\<open>Req2Receiver_onRead\<close> and the
  answers of the server use it so). The second component is the callback to run, with the future's pointer.
\<close>

definition answer_future :: "'cb FutureMgr \<Rightarrow> u32 \<Rightarrow> byte list \<Rightarrow> ('cb \<times> nat) option \<times> 'cb FutureMgr" where
  "answer_future m sid pdata =
     (case safe_get_future m sid True of
        (None, m) \<Rightarrow> (None, m)
      | (Some p, m) \<Rightarrow>
          let (f, cb) = set_result (fut_heap m ! p) pdata
          in (map_option (\<lambda>c. (c, p)) cb, m\<lparr>fut_heap := (fut_heap m)[p := f]\<rparr>))"

section \<open>Invariant\<close>

definition future_inv :: "'cb FutureMgr \<Rightarrow> bool" where
  "future_inv m \<longleftrightarrow>
     sendmsg_rsp_container m 0 = None \<and>
     (\<forall>sid p. sendmsg_rsp_container m sid = Some p \<longrightarrow> p < length (fut_heap m) \<and> \<not> ready (fut_heap m ! p)) \<and>
     (\<forall>sid sid' p. sendmsg_rsp_container m sid = Some p \<longrightarrow> sendmsg_rsp_container m sid' = Some p \<longrightarrow> sid = sid')"

datatype 'cb fut_op = FInsert int "'cb option" | FAnswer u32 "byte list" | FRemove u32 | FClear int

fun fut_step :: "'cb FutureMgr \<Rightarrow> 'cb fut_op \<Rightarrow> (('cb \<times> nat) list \<times> 'cb FutureMgr) cres" where
  "fut_step m (FInsert now cb) = cmap (\<lambda>(_, m). ([], m)) (safe_insert_future now m cb)"
| "fut_step m (FAnswer sid d) = (case answer_future m sid d of (c, m) \<Rightarrow> Inr (case c of None \<Rightarrow> [] | Some x \<Rightarrow> [x], m))"
| "fut_step m (FRemove sid) = Inr ([], safe_remove_future m sid)"
| "fut_step m (FClear now) = Inr ([], safe_clear_bad_future now m)"

text \<open>A history of operations; the result has the callbacks that were run.\<close>

fun fut_run :: "'cb FutureMgr \<Rightarrow> 'cb fut_op list \<Rightarrow> (('cb \<times> nat) list \<times> 'cb FutureMgr) cres" where
  "fut_run m [] = Inr ([], m)"
| "fut_run m (x # xs) = cbind (fut_step m x) (\<lambda>(cs, m). cmap (\<lambda>(ds, m). (cs @ ds, m)) (fut_run m xs))"

section \<open>Lemmas\<close>

lemma next_future_id_nonzero [simp]: "next_future_id i \<noteq> 0"
  by (simp add: next_future_id_def Let_def)

lemma next_future_id_unat: "unat (next_future_id i) = (if unat i = 2 ^ 32 - 1 then 1 else unat i + 1)"
proof (cases "i + 1 = 0")
  case True
  then have "i = - 1" by (simp add: eq_neg_iff_add_eq_0)
  then show ?thesis by (simp add: next_future_id_def unsigned_minus_1_eq_mask mask_eq_exp_minus_1)
next
  case False
  have "unat (i + 1) = unat i + 1" using False unatSuc [of i] by (simp add: add.commute)
  moreover from False have "i \<noteq> - 1" by auto
  then have "unat i \<noteq> 2 ^ 32 - 1"
    by (simp add: word_unat_eq_iff unsigned_minus_1_eq_mask mask_eq_exp_minus_1)
  ultimately show ?thesis using False by (simp add: next_future_id_def)
qed

lemma safe_insert_cases:
  assumes "safe_insert_future now m cb = Inr ((i, p), m')"
  shows "i = next_future_id (future_inc_id m)" "p = length (fut_heap m)" "future_inc_id m' = i"
    "sendmsg_rsp_container m i = None" "sendmsg_rsp_container m' = (sendmsg_rsp_container m)(i \<mapsto> p)"
    "fut_heap m' = fut_heap m @ [new_NetFuture now cb]"
  using assms by (auto simp: safe_insert_future_def Let_def split: if_splits)

lemma future_inv_insert:
  assumes "future_inv m" "safe_insert_future now m cb = Inr ((i, p), m')"
  shows "future_inv m'"
  using assms(1) safe_insert_cases [OF assms(2)]
  by (fastforce simp: future_inv_def nth_append new_NetFuture_def split: if_splits)

lemma answer_future_eq:
  "answer_future m sid d = (case sendmsg_rsp_container m sid of
     None \<Rightarrow> (None, m)
   | Some p \<Rightarrow> (map_option (\<lambda>c. (c, p)) (callback (fut_heap m ! p)),
       m\<lparr>sendmsg_rsp_container := (sendmsg_rsp_container m)(sid := None),
         fut_heap := (fut_heap m)[p := (fut_heap m ! p)\<lparr>rsp_content := d, ready := True\<rparr>]\<rparr>))"
  by (simp add: answer_future_def safe_get_future_def set_result_def split: option.splits)

lemma future_inv_answer: "future_inv m \<Longrightarrow> future_inv (snd (answer_future m sid d))"
  by (auto simp: answer_future_eq future_inv_def nth_list_update split: option.splits if_splits)

lemma future_inv_remove: "future_inv m \<Longrightarrow> future_inv (safe_remove_future m sid)"
  by (auto simp: safe_remove_future_def future_inv_def split: if_splits)

lemma future_inv_clear: "future_inv m \<Longrightarrow> future_inv (safe_clear_bad_future now m)"
  by (auto simp: safe_clear_bad_future_def future_inv_def split: option.splits if_splits)

lemma fut_step_inv: "future_inv m \<Longrightarrow> fut_step m x = Inr (cs, m') \<Longrightarrow> future_inv m'"
  by (cases x) (auto simp: cmap_eq_Inr future_inv_remove future_inv_clear
      intro: future_inv_insert dest: future_inv_answer [of m "case x of FAnswer s _ \<Rightarrow> s" "case x of FAnswer _ d \<Rightarrow> d"]
      split: prod.splits)

lemma fut_run_inv: "future_inv m \<Longrightarrow> fut_run m xs = Inr (cs, m') \<Longrightarrow> future_inv m'"
  by (induction xs arbitrary: m cs) (auto simp: cbind_eq_Inr cmap_eq_Inr dest: fut_step_inv)

text \<open>Operations that do not concern session \<open>i\<close>, created at time \<open>now\<close>.\<close>

fun keeps_session :: "u32 \<Rightarrow> int \<Rightarrow> 'cb fut_op \<Rightarrow> bool" where
  "keeps_session i now (FInsert _ _) = True"
| "keeps_session i now (FAnswer sid _) = (sid \<noteq> i)"
| "keeps_session i now (FRemove sid) = (sid \<noteq> i)"
| "keeps_session i now (FClear now') = (now' \<le> now + MAX_EXIST_TIME)"

definition pending :: "'cb FutureMgr \<Rightarrow> u32 \<Rightarrow> nat \<Rightarrow> 'cb NetFuture \<Rightarrow> bool" where
  "pending m i p f \<longleftrightarrow> future_inv m \<and> sendmsg_rsp_container m i = Some p \<and> fut_heap m ! p = f"

lemma pending_step:
  assumes "pending m i p f" "keeps_session i (generated_time f) x" "fut_step m x = Inr (cs, m')"
  shows "pending m' i p f \<and> p \<notin> snd ` set cs"
proof -
  have inv: "future_inv m" and at: "sendmsg_rsp_container m i = Some p" "fut_heap m ! p = f" "p < length (fut_heap m)"
    using assms(1) by (auto simp: pending_def future_inv_def)
  have "sendmsg_rsp_container m' i = Some p \<and> fut_heap m' ! p = f \<and> p \<notin> snd ` set cs"
  proof (cases x)
    case (FInsert now cb)
    then obtain j q where ins: "safe_insert_future now m cb = Inr ((j, q), m')" "cs = []"
      using assms(3) by (auto simp: cmap_eq_Inr)
    with at safe_insert_cases [OF ins(1)] show ?thesis by (auto simp: nth_append)
  next
    case (FAnswer sid d)
    then have "sendmsg_rsp_container m sid \<noteq> Some p" using inv at(1) assms(2) by (auto simp: future_inv_def)
    with FAnswer at assms(2,3) show ?thesis
      by (auto simp: answer_future_eq split: option.splits prod.splits)
  next
    case (FClear now)
    with at assms(2,3) show ?thesis
      by (auto simp: safe_clear_bad_future_def is_bad_def)
  qed (use at assms(2,3) in \<open>auto simp: safe_remove_future_def\<close>)
  then show ?thesis using fut_step_inv [OF inv assms(3)] by (simp add: pending_def)
qed

lemma pending_run:
  "pending m i p f \<Longrightarrow> list_all (keeps_session i (generated_time f)) xs \<Longrightarrow> fut_run m xs = Inr (cs, m') \<Longrightarrow>
     pending m' i p f \<and> p \<notin> snd ` set cs"
proof (induction xs arbitrary: m cs)
  case (Cons x xs)
  then obtain c1 m1 c2 where st: "fut_step m x = Inr (c1, m1)" "fut_run m1 xs = Inr (c2, m')" "cs = c1 @ c2"
    by (auto simp: cbind_eq_Inr cmap_eq_Inr)
  from pending_step [OF Cons.prems(1) _ st(1)] Cons.prems(2) Cons.IH [OF _ _ st(2)] st(3) show ?case by auto
qed simp

text \<open>Insertions never meet a session in use before the counter has gone round.\<close>

definition inserts :: "'cb fut_op list \<Rightarrow> nat" where
  "inserts xs = length (filter (\<lambda>x. case x of FInsert _ _ \<Rightarrow> True | _ \<Rightarrow> False) xs)"

definition ids_below :: "'cb FutureMgr \<Rightarrow> nat \<Rightarrow> bool" where
  "ids_below m k \<longleftrightarrow> unat (future_inc_id m) = k \<and> (\<forall>sid. sendmsg_rsp_container m sid \<noteq> None \<longrightarrow> unat sid \<le> k)"

lemma ids_below_step:
  assumes "ids_below m k" "k + inserts [x] < 2 ^ 32"
  shows "\<exists>cs m'. fut_step m x = Inr (cs, m') \<and> ids_below m' (k + inserts [x])"
proof (cases x)
  case (FInsert now cb)
  define i where "i = next_future_id (future_inc_id m)"
  have i: "unat i = k + 1"
    using assms FInsert by (auto simp: i_def next_future_id_unat ids_below_def inserts_def)
  then have "sendmsg_rsp_container m i = None" using assms(1) by (force simp: ids_below_def)
  with FInsert assms(1) i show ?thesis
    by (simp add: safe_insert_future_def i_def [symmetric] ids_below_def inserts_def Let_def) (meson le_SucI)
qed (use assms in \<open>auto simp: ids_below_def inserts_def answer_future_eq safe_remove_future_def safe_clear_bad_future_def
    split: option.splits\<close>)

lemma ids_below_run:
  "ids_below m k \<Longrightarrow> k + inserts xs < 2 ^ 32 \<Longrightarrow> \<exists>cs m'. fut_run m xs = Inr (cs, m') \<and> ids_below m' (k + inserts xs)"
proof (induction xs arbitrary: m k)
  case (Cons x xs)
  have split: "inserts (x # xs) = inserts [x] + inserts xs" by (simp add: inserts_def)
  obtain cs m1 where m1: "fut_step m x = Inr (cs, m1)" "ids_below m1 (k + inserts [x])"
    using ids_below_step [OF Cons.prems(1), of x] Cons.prems(2) split by auto
  with Cons.IH [OF m1(2)] Cons.prems(2) split show ?case by (auto simp: add.assoc)
qed (simp add: inserts_def)

lemma join_cases:
  "join f ws = Some (ok, f') \<Longrightarrow> (ok \<longrightarrow> ready f' \<and> f' \<in> insert f (snd ` set ws)) \<and> (\<not> ok \<longrightarrow> \<not> ready f \<and> (True, f') \<in> set ws)"
  by (induction f ws rule: join.induct) (auto split: if_splits)

lemma join_returns: "ready f \<or> (\<exists>w\<in>set ws. fst w \<or> ready (snd w)) \<Longrightarrow> \<exists>r. join f ws = Some r"
  by (induction f ws rule: join.induct) auto

section \<open>Properties\<close>

text \<open>
  C17: a session gets exactly its own answer. After a future has been inserted under an id, whatever other
  sessions are opened, answered or removed and however often old futures are cleared within 120 seconds, the
  future stays pending and no callback of it runs; the answer for the id then stores its bytes in this
  future and in no other, runs its callback, and a second answer for the id has no effect.
\<close>

theorem future_session:
  assumes "future_inv m" "safe_insert_future now m cb = Inr ((i, p), m1)" "fut_run m1 ops = Inr (cs, m2)"
    and "list_all (keeps_session i now) ops"
  shows "i \<noteq> 0 \<and> get_now (fut_heap m2 ! p) = None \<and> p \<notin> snd ` set cs \<and>
    (\<exists>m3. answer_future m2 i d = (map_option (\<lambda>c. (c, p)) cb, m3) \<and> get_now (fut_heap m3 ! p) = Some d \<and>
      (\<forall>q. q \<noteq> p \<longrightarrow> fut_heap m3 ! q = fut_heap m2 ! q) \<and> answer_future m3 i d' = (None, m3))"
proof -
  note ins = safe_insert_cases [OF assms(2)]
  have "pending m1 i p (new_NetFuture now cb)"
    using ins future_inv_insert [OF assms(1,2)] by (simp add: pending_def)
  from pending_run [OF this _ assms(3)] assms(4) have
    p: "pending m2 i p (new_NetFuture now cb)" "p \<notin> snd ` set cs" by (simp_all add: new_NetFuture_def)
  have len: "p < length (fut_heap m2)" using p(1) by (auto simp: pending_def future_inv_def)
  have "i \<noteq> 0" using ins(1) by simp
  with p len show ?thesis by (simp add: pending_def answer_future_eq get_now_def new_NetFuture_def)
qed

theorem future_session_witness:
  "\<exists>m3. answer_future (\<lparr>future_inc_id = 3, sendmsg_rsp_container = [1 \<mapsto> 0, 3 \<mapsto> 2],
        fut_heap = [new_NetFuture 0 None, new_NetFuture 0 None, new_NetFuture 0 None]\<rparr> :: nat FutureMgr) 1 [5]
      = (None, m3) \<and> get_now (fut_heap m3 ! 0) = Some [5]"
proof -
  let ?ops = "[FInsert 0 None, FInsert 0 None, FRemove 2] :: nat fut_op list"
  have 1: "safe_insert_future 0 (new_FutureMgr :: nat FutureMgr) None = Inr ((1, 0),
      \<lparr>future_inc_id = 1, sendmsg_rsp_container = [1 \<mapsto> 0], fut_heap = [new_NetFuture 0 None]\<rparr>)"
    by (simp add: safe_insert_future_def new_FutureMgr_def next_future_id_def)
  have c: "[Suc 0 \<mapsto> (0::nat), 2 \<mapsto> 1, 3 \<mapsto> 2] = [1 \<mapsto> 0, 2 \<mapsto> 1, 3 \<mapsto> 2]" by simp
  have 2: "fut_run \<lparr>future_inc_id = 1, sendmsg_rsp_container = [1 \<mapsto> 0], fut_heap = [new_NetFuture 0 None]\<rparr> ?ops
      = Inr ([], \<lparr>future_inc_id = 3, sendmsg_rsp_container = [1 \<mapsto> 0, 3 \<mapsto> 2],
        fut_heap = [new_NetFuture 0 None, new_NetFuture 0 None, new_NetFuture 0 None]\<rparr>)"
    by (simp add: safe_insert_future_def next_future_id_def safe_remove_future_def fun_eq_iff)
  have "future_inv (new_FutureMgr :: nat FutureMgr)" by (simp add: future_inv_def new_FutureMgr_def)
  from future_session [OF this 1 2, of "[5]" "[]"] show ?thesis by auto
qed

text \<open>
  session ids. Starting from a new manager, any history with fewer than 2^32 insertions runs without
  failing the assertion that the id is unused, and the ids given out are 1, 2, 3, and so on, never 0.
\<close>

theorem future_ids_fresh:
  assumes "inserts ops < 2 ^ 32"
  shows "\<exists>cs m. fut_run (new_FutureMgr :: 'cb FutureMgr) ops = Inr (cs, m) \<and> unat (future_inc_id m) = inserts ops \<and>
    sendmsg_rsp_container m 0 = None"
proof -
  have "ids_below (new_FutureMgr :: 'cb FutureMgr) 0" "future_inv (new_FutureMgr :: 'cb FutureMgr)"
    by (simp_all add: ids_below_def new_FutureMgr_def future_inv_def)
  from ids_below_run [OF this(1), of ops] fut_run_inv [OF this(2), of ops] assms show ?thesis
    by (auto simp: ids_below_def future_inv_def)
qed

theorem future_ids_fresh_witness:
  "\<exists>cs m. fut_run (new_FutureMgr :: nat FutureMgr) [FInsert 0 None, FAnswer 1 [], FInsert 5 (Some 7)] = Inr (cs, m) \<and>
     unat (future_inc_id m) = 2 \<and> sendmsg_rsp_container m 0 = None"
proof -
  have n: "inserts ([FInsert 0 None, FAnswer 1 [], FInsert 5 (Some 7)] :: nat fut_op list) = 2"
    by (simp add: inserts_def)
  show ?thesis
    using future_ids_fresh [of "[FInsert 0 None, FAnswer 1 [], FInsert 5 (Some 7)] :: nat fut_op list"]
    unfolding n by (simp del: fut_run.simps)
qed

text \<open>
  waiting for a future. \<open>get\<close> returns as soon as the future is ready or a wait times out; a true
  result carries the content of a future that was ready when it was looked at, a false one the time-out
  text and only after a wait that timed out.
\<close>

theorem future_get_timeout:
  assumes "ready f \<or> (\<exists>w\<in>set ws. fst w \<or> ready (snd w))"
  shows "\<exists>ok d. get_timeout f ws = Some (ok, d) \<and>
    (if ok then \<exists>f'\<in>insert f (snd ` set ws). ready f' \<and> d = rsp_content f'
     else \<not> ready f \<and> True \<in> fst ` set ws \<and> d = lit ''wait time out.'')"
proof -
  obtain ok f' where j: "join f ws = Some (ok, f')" using join_returns [OF assms] by auto
  show ?thesis
  proof (cases ok)
    case True
    with join_cases [OF j] j show ?thesis by (auto simp: get_timeout_def)
  next
    case False
    with join_cases [OF j] have "\<not> ready f" "(True, f') \<in> set ws" by simp_all
    with False j show ?thesis by (simp add: get_timeout_def) force
  qed
qed

theorem future_get_timeout_witness:
  "\<exists>ok d. get_timeout (new_NetFuture 0 None :: nat NetFuture)
       [(False, new_NetFuture 0 None), (False, fst (set_result (new_NetFuture 0 None) [4]))] = Some (ok, d) \<and> d = [4]"
  using future_get_timeout [of "new_NetFuture 0 None :: nat NetFuture"
      "[(False, new_NetFuture 0 None), (False, fst (set_result (new_NetFuture 0 None) [4]))]"]
  by (auto simp: new_NetFuture_def set_result_def get_timeout_def split: if_splits)

end
