(* ===== verification/Req2Receiver.thy ===== *)
theory Req2Receiver
  imports Client_Pool Future Framing Net_Msg
begin

text \<open>
  Sending to other clients, \<^verbatim>\<open>src/Core/NetMsgBusReq2ReceiverMgr.hpp\<close>. A request becomes a task with a
  future; the destination's address comes from a cache filled by the bus server, tasks whose address is not known
  wait for the server's answer, and connections come from two pools (one for synchronous requests).
  Requests to the server, work given to the thread pool, messages to the local bus and callbacks that were run are
  logged in the state. While a synchronous caller waits, other threads change the futures: the state of the
  future manager at each wake-up and at the time-out, which comes after the last one, are arguments.
\<close>

section \<open>State\<close>

type_synonym LocalHostInfo = dest

definition TIMEOUT_LONG :: int where "TIMEOUT_LONG = 15"
definition CLIENT_POOL_SIZE :: int where "CLIENT_POOL_SIZE = 4"

record Req2ReceiverTask =
  clientname :: "byte list"
  sync :: bool
  future_id :: u32
  retry :: bool
  data_len :: u32
  data :: "byte list option"
  timeout :: int
  dest_client :: LocalHostInfo

text \<open>\<open>uninit\<close>: the two numbers the constructor does not initialise.\<close>

definition new_Req2ReceiverTask :: "u32 \<times> u32 \<Rightarrow> Req2ReceiverTask" where
  "new_Req2ReceiverTask uninit =
     \<lparr>clientname = [], sync = False, future_id = fst uninit, retry = False, data_len = snd uninit, data = None,
      timeout = TIMEOUT_LONG * 4, dest_client = ([], 0)\<rparr>"

record 'cb Req2ReceiverMgr =
  m_reqtoreceiver_task_container :: "Req2ReceiverTask list"
  m_wait2send_task_container :: "byte list \<Rightarrow> Req2ReceiverTask list option"
  m_cached_client_info :: "byte list \<Rightarrow> LocalHostInfo option"
  future_mgr :: "'cb FutureMgr"
  m_server_connmgr :: "byte list option"
  m_req2receiver_running :: bool
  m_req2receiver_terminate :: bool
  m_sendmsg_client_conn_pool :: TcpClientPool
  m_postmsg_client_conn_pool :: TcpClientPool
  net :: net_state
  server_requests :: "byte list list"
  local_posts :: "(byte list \<times> byte list) list"
  named_work :: "(byte list \<times> Req2ReceiverTask) list"
  callbacks_run :: "('cb \<times> nat) list"

text \<open>What the surroundings supply while a task is processed.\<close>

record 'cb req_env =
  attempts :: "nat \<Rightarrow> conn_attempt"
  inner_loops :: "nat \<Rightarrow> EventLoop option"
  wakeups :: "'cb FutureMgr list"
  at_timeout :: "'cb FutureMgr"

definition worker :: thread_ctx where
  "worker = \<lparr>in_loop = False, in_write_loop = False\<rparr>"

section \<open>Small operations\<close>

definition QueueReqTaskToReceiver :: "'cb Req2ReceiverMgr \<Rightarrow> Req2ReceiverTask \<Rightarrow> 'cb Req2ReceiverMgr" where
  "QueueReqTaskToReceiver m task =
     m\<lparr>m_reqtoreceiver_task_container := m_reqtoreceiver_task_container m @ [task]\<rparr>"

definition safe_queue_waiting_task :: "'cb Req2ReceiverMgr \<Rightarrow> Req2ReceiverTask \<Rightarrow> 'cb Req2ReceiverMgr" where
  "safe_queue_waiting_task m task =
     m\<lparr>m_wait2send_task_container := (m_wait2send_task_container m)(clientname task \<mapsto>
        (case m_wait2send_task_container m (clientname task) of Some ts \<Rightarrow> ts | None \<Rightarrow> []) @ [task])\<rparr>"

definition safe_get_cached_host_info :: "'cb Req2ReceiverMgr \<Rightarrow> byte list \<Rightarrow> LocalHostInfo option" where
  "safe_get_cached_host_info m name = m_cached_client_info m name"

definition safe_remove_cached_host_info :: "'cb Req2ReceiverMgr \<Rightarrow> byte list \<Rightarrow> 'cb Req2ReceiverMgr" where
  "safe_remove_cached_host_info m name = m\<lparr>m_cached_client_info := (m_cached_client_info m)(name := None)\<rparr>"

definition forget_future :: "'cb Req2ReceiverMgr \<Rightarrow> u32 \<Rightarrow> 'cb Req2ReceiverMgr" where
  "forget_future m sid = m\<lparr>future_mgr := safe_remove_future (future_mgr m) sid\<rparr>"

text \<open>Asking the server for an address; the answer arrives in \<open>HandleRspGetClient\<close>.\<close>

definition ReqReceiverInfo_async :: "'cb Req2ReceiverMgr \<Rightarrow> byte list \<Rightarrow> 'cb Req2ReceiverMgr" where
  "ReqReceiverInfo_async m name =
     (if m_server_connmgr m \<noteq> None then m\<lparr>server_requests := server_requests m @ [name]\<rparr> else m)"

section \<open>Writing a task\<close>

text \<open>The block built at lines 403 to 410; \<open>write_len\<close> is a 32-bit sum.\<close>

definition task_block :: "Req2ReceiverTask \<Rightarrow> byte list cres" where
  "task_block task =
     (let write_len = 1 + 4 + 4 + data_len task :: u32;
          blk = replicate (unat write_len) 0 in
      cbind (cstore blk 0 [if sync task then 1 else 0]) (\<lambda>blk.
      cbind (cstore blk 1 (mem32 (htonl (future_id task)))) (\<lambda>blk.
      cbind (cstore blk 5 (mem32 (htonl (data_len task)))) (\<lambda>blk.
      cbind (memcpy_ptr (unat (data_len task)) (data task)) (\<lambda>d.
        cstore blk 9 d)))))"

text \<open>
  \<open>NetFuture::join\<close> on the future at \<open>q\<close>: the future managers seen at the wake-ups, and the one at the time-out.
\<close>

fun future_wait :: "'cb FutureMgr \<Rightarrow> nat \<Rightarrow> 'cb FutureMgr list \<Rightarrow> 'cb FutureMgr \<Rightarrow> bool \<times> 'cb FutureMgr" where
  "future_wait fm q [] fmt = (if ready (fut_heap fm ! q) then (True, fm) else (False, fmt))"
| "future_wait fm q (fm' # ws) fmt = (if ready (fut_heap fm ! q) then (True, fm) else future_wait fm' q ws fmt)"

definition WriteTaskDataToReceiver ::
  "net_state \<Rightarrow> 'cb FutureMgr \<Rightarrow> nat \<Rightarrow> Req2ReceiverTask \<Rightarrow> byte list \<Rightarrow> 'cb FutureMgr list \<Rightarrow> 'cb FutureMgr \<Rightarrow>
     ((bool \<times> byte list) \<times> net_state \<times> 'cb FutureMgr) cres" where
  "WriteTaskDataToReceiver ns fm p task rsp0 ws fmt =
     (let cur = (if sync task then fst (safe_get_future fm (future_id task) False) else None) in
      cbind (task_block task) (\<lambda>blk.
      cbind (SendData worker (sock_mem ns p) (Some blk) []) (\<lambda>(sent, s, _).
      let ns = ns\<lparr>sock_mem := (sock_mem ns)(p := s)\<rparr> in
      if \<not> sent then Inr ((False, lit ''send data failed.''), ns, safe_remove_future fm (future_id task))
      else if sync task then
        (case cur of
           None \<Rightarrow> Inr ((False, rsp0), ns, fm)
         | Some q \<Rightarrow>
             (case future_wait fm q ws fmt of
                (True, fm) \<Rightarrow> Inr ((True, rsp_content (fut_heap fm ! q)), ns, fm)
              | (False, fm) \<Rightarrow> Inr ((False, lit ''wait time out.''), ns, fm)))
      else Inr ((True, rsp0), ns, fm))))"

definition IdentiySelfToReceiver ::
  "byte list option \<Rightarrow> nat \<Rightarrow> net_state \<Rightarrow> 'cb FutureMgr \<Rightarrow> (bool \<times> net_state \<times> 'cb FutureMgr) cres" where
  "IdentiySelfToReceiver connmgr p ns fm =
     (let sendername = (case connmgr of Some name \<Rightarrow> name | None \<Rightarrow> []) in
      cbind (GenerateNetMsgContent [] MsgBusParam_empty sendername) (\<lambda>netmsg_param.
      cmap (\<lambda>((ok, _), ns, fm). (ok, ns, fm))
        (WriteTaskDataToReceiver ns fm p
          ((new_Req2ReceiverTask (0, 0))\<lparr>sync := False, future_id := 0, data := paramdata netmsg_param,
             data_len := paramlen netmsg_param\<rparr>) [] [] fm)))"

section \<open>Processing a task\<close>

text \<open>The callbacks of a connection to a receiver; \<open>onRead\<close>'s return value is that of \<open>Req2Receiver_onRead\<close>.\<close>

definition receiver_callbacks :: "(byte list \<Rightarrow> nat) \<Rightarrow> SockHandler" where
  "receiver_callbacks consumed =
     \<lparr>onRead = Some consumed, onSend = Some True, onClose = True, onError = True, onTimeout = False\<rparr>"

definition NETMSGBUS_EVLOOP_NAME :: "byte list" where "NETMSGBUS_EVLOOP_NAME = lit ''evloop_for_netmsgbus''"
definition POSTMSG_LOOP :: "byte list" where "POSTMSG_LOOP = lit ''postmsg_event_loop''"

text \<open>The pool a task uses.\<close>

definition pool_of :: "'cb Req2ReceiverMgr \<Rightarrow> bool \<Rightarrow> TcpClientPool" where
  "pool_of m s = (if s then m_sendmsg_client_conn_pool m else m_postmsg_client_conn_pool m)"

definition set_pool :: "'cb Req2ReceiverMgr \<Rightarrow> bool \<Rightarrow> TcpClientPool \<Rightarrow> 'cb Req2ReceiverMgr" where
  "set_pool m s pool =
     (if s then m\<lparr>m_sendmsg_client_conn_pool := pool\<rparr> else m\<lparr>m_postmsg_client_conn_pool := pool\<rparr>)"

text \<open>Lines 529 to 534: write on the connection.\<close>

definition send_on ::
  "'cb req_env \<Rightarrow> 'cb Req2ReceiverMgr \<Rightarrow> Req2ReceiverTask \<Rightarrow> byte list \<Rightarrow> nat \<Rightarrow>
     ((bool \<times> byte list) \<times> 'cb Req2ReceiverMgr) cres" where
  "send_on env m task rsp0 p =
     cbind (WriteTaskDataToReceiver (net m) (future_mgr m) p task rsp0 (wakeups env) (at_timeout env)) (\<lambda>((ok, content), ns, fm).
     let m = m\<lparr>net := ns, future_mgr := fm\<rparr> in
     if ok then Inr ((True, content), m) else Inr ((False, content), forget_future m (future_id task)))"

text \<open>Lines 505 to 520: no connection could be made.\<close>

definition connect_failed ::
  "'cb Req2ReceiverMgr \<Rightarrow> Req2ReceiverTask \<Rightarrow> byte list \<Rightarrow> (bool \<times> byte list) \<times> 'cb Req2ReceiverMgr" where
  "connect_failed m task rsp0 =
     (if retry task then
        ((True, rsp0), ReqReceiverInfo_async
           (safe_remove_cached_host_info (safe_queue_waiting_task m task) (clientname task)) (clientname task))
      else
        ((False, rsp0), forget_future
           (m\<lparr>local_posts := local_posts m @ [(lit ''netmsgbus.client.connectreceiver.failed'', clientname task)]\<rparr>)
           (future_id task)))"

text \<open>Lines 469 to 534, with the destination known.\<close>

definition send_to_dest ::
  "(byte list \<Rightarrow> nat) \<Rightarrow> 'cb req_env \<Rightarrow> 'cb Req2ReceiverMgr \<Rightarrow> Req2ReceiverTask \<Rightarrow> byte list \<Rightarrow> LocalHostInfo \<Rightarrow>
     ((bool \<times> byte list) \<times> 'cb Req2ReceiverMgr) cres" where
  "send_to_dest consumed env m task rsp0 destclient =
     cbind (GetTcpSockByDestHost (pool_of m (sync task)) destclient) (\<lambda>(newtcp, pool).
     let m = set_pool m (sync task) pool in
     case newtcp of
       Some p \<Rightarrow> send_on env m task rsp0 p
     | None \<Rightarrow>
         cbind (CreateTcpSock worker (if sync task then NETMSGBUS_EVLOOP_NAME else POSTMSG_LOOP) destclient
            CLIENT_POOL_SIZE (receiver_callbacks consumed) (IdentiySelfToReceiver (m_server_connmgr m))
            (attempts env) (inner_loops env) pool (net m) (future_mgr m)) (\<lambda>(ret, pool, ns, fm).
         let m = (set_pool m (sync task) pool)\<lparr>net := ns, future_mgr := fm\<rparr> in
         if \<not> ret then Inr (connect_failed m task rsp0)
         else
           cbind (GetTcpSockByDestHost pool destclient) (\<lambda>(newtcp, pool).
           let m = set_pool m (sync task) pool in
           case newtcp of
             Some p \<Rightarrow> send_on env m task rsp0 p
           | None \<Rightarrow> Inr ((False, rsp0), forget_future m (future_id task)))))"

definition ProcessReqToReceiver ::
  "(byte list \<Rightarrow> nat) \<Rightarrow> 'cb req_env \<Rightarrow> 'cb Req2ReceiverMgr \<Rightarrow> Req2ReceiverTask \<Rightarrow> byte list \<Rightarrow>
     ((bool \<times> byte list) \<times> 'cb Req2ReceiverMgr) cres" where
  "ProcessReqToReceiver consumed env m task rsp0 =
     (if clientname task = [] then
        if fst (dest_client task) = [] then Inl AssertFailed
        else send_to_dest consumed env m task rsp0 (dest_client task)
      else case safe_get_cached_host_info m (clientname task) of
        Some destclient \<Rightarrow> send_to_dest consumed env m task rsp0 destclient
      | None \<Rightarrow>
          if retry task then
            Inr ((True, rsp0), ReqReceiverInfo_async (safe_queue_waiting_task m task) (clientname task))
          else Inr ((False, rsp0), forget_future m (future_id task)))"

section \<open>Requests of the application\<close>

text \<open>Synchronous, to an address. \<open>u\<close>: the uninitialised members of the task.\<close>

definition SendMsgDirectToClient_ip ::
  "(byte list \<Rightarrow> nat) \<Rightarrow> 'cb req_env \<Rightarrow> u32 \<times> u32 \<Rightarrow> int \<Rightarrow> 'cb Req2ReceiverMgr \<Rightarrow> LocalHostInfo \<Rightarrow> u32 \<Rightarrow> byte list option \<Rightarrow>
     byte list \<Rightarrow> int \<Rightarrow> ((bool \<times> byte list) \<times> 'cb Req2ReceiverMgr) cres" where
  "SendMsgDirectToClient_ip consumed env u now m dest dlen d rsp0 to =
     (if fst dest = [] \<or> \<not> m_req2receiver_running m then Inr ((False, rsp0), m)
      else
        cbind (safe_insert_future now (future_mgr m) None) (\<lambda>((i, _), fm).
        ProcessReqToReceiver consumed env (m\<lparr>future_mgr := fm\<rparr>)
          ((new_Req2ReceiverTask u)\<lparr>data_len := dlen, data := d, sync := True, retry := False, timeout := to,
             dest_client := dest, future_id := i\<rparr>) rsp0))"

text \<open>Synchronous, by name; \<open>answer\<close> is what the server's synchronous \<open>ReqReceiverInfo\<close> returned.\<close>

definition SendMsgDirectToClient ::
  "(byte list \<Rightarrow> nat) \<Rightarrow> 'cb req_env \<Rightarrow> u32 \<times> u32 \<Rightarrow> int \<Rightarrow> LocalHostInfo option \<Rightarrow> 'cb Req2ReceiverMgr \<Rightarrow> byte list \<Rightarrow> u32 \<Rightarrow>
     byte list option \<Rightarrow> byte list \<Rightarrow> int \<Rightarrow> ((bool \<times> byte list) \<times> 'cb Req2ReceiverMgr) cres" where
  "SendMsgDirectToClient consumed env u now answer m name dlen d rsp0 to =
     (if name = [] \<or> \<not> m_req2receiver_running m then Inr ((False, rsp0), m)
      else case safe_get_cached_host_info m name of
        Some dest \<Rightarrow> SendMsgDirectToClient_ip consumed env u now m dest dlen d rsp0 to
      | None \<Rightarrow>
          (case (if m_server_connmgr m \<noteq> None then answer else None) of
             Some dest \<Rightarrow> SendMsgDirectToClient_ip consumed env u now
               (m\<lparr>m_cached_client_info := (m_cached_client_info m)(name \<mapsto> dest)\<rparr>) dest dlen d rsp0 to
           | None \<Rightarrow> Inr ((False, rsp0), m)))"

text \<open>Asynchronous; the result is the pointer of the future.\<close>

definition PostMsgDirectToClient_ip ::
  "u32 \<times> u32 \<Rightarrow> int \<Rightarrow> 'cb Req2ReceiverMgr \<Rightarrow> LocalHostInfo \<Rightarrow> u32 \<Rightarrow> byte list option \<Rightarrow> 'cb option \<Rightarrow>
     (nat option \<times> 'cb Req2ReceiverMgr) cres" where
  "PostMsgDirectToClient_ip u now m dest dlen d cb =
     (if \<not> m_req2receiver_running m then Inr (None, m)
      else if fst dest = [] then Inr (None, m)
      else
        cbind (safe_insert_future now (future_mgr m) cb) (\<lambda>((i, q), fm).
        Inr (Some q, QueueReqTaskToReceiver (m\<lparr>future_mgr := fm\<rparr>)
          ((new_Req2ReceiverTask u)\<lparr>data := d, data_len := dlen, retry := False, dest_client := dest, future_id := i\<rparr>))))"

definition PostMsgDirectToClient ::
  "u32 \<times> u32 \<Rightarrow> int \<Rightarrow> 'cb Req2ReceiverMgr \<Rightarrow> byte list \<Rightarrow> u32 \<Rightarrow> byte list option \<Rightarrow> 'cb option \<Rightarrow>
     (nat option \<times> 'cb Req2ReceiverMgr) cres" where
  "PostMsgDirectToClient u now m name dlen d cb =
     (if \<not> m_req2receiver_running m then Inr (None, m)
      else
        cbind (safe_insert_future now (future_mgr m) cb) (\<lambda>((i, q), fm).
        Inr (Some q, QueueReqTaskToReceiver (m\<lparr>future_mgr := fm\<rparr>)
          ((new_Req2ReceiverTask u)\<lparr>clientname := name, data := d, data_len := dlen, retry := True, future_id := i\<rparr>))))"

section \<open>Answers and events\<close>

text \<open>
  The server's answer to a query for an address. \<open>UnPackBody\<close> rejects a short body with a bare \<open>throw\<close>, which
  terminates the process; the handler's \<open>catch(...)\<close> does not see it.
\<close>

definition HandleRspGetClient ::
  "u16 \<Rightarrow> byte list \<Rightarrow> 'cb Req2ReceiverMgr \<Rightarrow> 'x NetFuture \<Rightarrow> 'cb Req2ReceiverMgr cres" where
  "HandleRspGetClient garbage_code garbage m futuredata =
     (case get_now futuredata of
        None \<Rightarrow> Inr m
      | Some rspdata \<Rightarrow>
          if has_error futuredata then Inr m
          else
            cbind (GetClientRsp_UnPackBody (new_MsgBusGetClientRsp garbage_code garbage) rspdata 0 (length rspdata)) (\<lambda>(_, rsp).
            cbind (string_of_cstr (gcrsp_dest_name rsp)) (\<lambda>name.
            let pendingtasks = (case m_wait2send_task_container m name of Some ts \<Rightarrow> ts | None \<Rightarrow> []);
                m = m\<lparr>m_wait2send_task_container := (m_wait2send_task_container m)(name := None)\<rparr> in
            if gcrsp_ret_code rsp = 0 then
              let hostinfo = (host_ip (gcrsp_dest_host rsp), host_port (gcrsp_dest_host rsp)) in
              Inr (fold (\<lambda>task m. QueueReqTaskToReceiver m (task\<lparr>retry := False\<rparr>)) pendingtasks
                (m\<lparr>m_cached_client_info := (m_cached_client_info m)(name \<mapsto> hostinfo)\<rparr>))
            else Inr (fold (\<lambda>task m. forget_future m (future_id task)) pendingtasks m))))"

text \<open>The loop of \<open>Req2Receiver_onRead\<close>; the lengths are \<open>size_t\<close> and do not wrap.\<close>

function onRead_loop ::
  "byte list \<Rightarrow> nat \<Rightarrow> nat \<Rightarrow> nat \<Rightarrow> 'cb FutureMgr \<Rightarrow> ('cb \<times> nat) list \<Rightarrow> (nat \<times> 'cb FutureMgr \<times> ('cb \<times> nat) list) cres" where
  "onRead_loop blk pdata sz readedlen fm called =
     (if sz < 8 then Inr (readedlen, fm, called)
      else
        cbind (load32 blk pdata) (\<lambda>sid_n.
        cbind (load32 blk (pdata + 4)) (\<lambda>len_n.
        let future_sid = htonl sid_n; dlen = unat (htonl len_n); needlen = 8 + dlen in
        if sz < needlen then Inr (readedlen, fm, called)
        else
          cbind (cload blk (pdata + 8) dlen) (\<lambda>d.
          let (c, fm) = answer_future fm future_sid d in
          onRead_loop blk (pdata + needlen) (sz - needlen) (readedlen + needlen) fm
            (called @ (case c of Some x \<Rightarrow> [x] | None \<Rightarrow> []))))))"
  by pat_completeness auto
termination
  by (relation "measure (\<lambda>(blk, pdata, sz, readedlen, fm, called). sz)") auto

declare onRead_loop.simps [simp del]

definition Req2Receiver_onRead :: "'cb Req2ReceiverMgr \<Rightarrow> byte list \<Rightarrow> (nat \<times> 'cb Req2ReceiverMgr) cres" where
  "Req2Receiver_onRead m blk =
     cmap (\<lambda>(n, fm, called). (n, m\<lparr>future_mgr := fm, callbacks_run := callbacks_run m @ called\<rparr>))
       (onRead_loop blk 0 (length blk) 0 (future_mgr m) [])"

definition Req2Receiver_onClose :: "int \<Rightarrow> 'cb Req2ReceiverMgr \<Rightarrow> nat \<Rightarrow> 'cb Req2ReceiverMgr" where
  "Req2Receiver_onClose now m p =
     m\<lparr>m_sendmsg_client_conn_pool := pool_RemoveTcpSock (m_sendmsg_client_conn_pool m) (sock_mem (net m)) (Some p),
       m_postmsg_client_conn_pool := pool_RemoveTcpSock (m_postmsg_client_conn_pool m) (sock_mem (net m)) (Some p),
       future_mgr := safe_clear_bad_future now (future_mgr m)\<rparr>"

definition Req2Receiver_onError :: "int \<Rightarrow> 'cb Req2ReceiverMgr \<Rightarrow> nat \<Rightarrow> 'cb Req2ReceiverMgr" where
  "Req2Receiver_onError now m p = Req2Receiver_onClose now m p"

section \<open>The request thread\<close>

definition work_thread_name :: "byte list \<Rightarrow> byte list" where
  "work_thread_name name =
     lit ''ProcessReqToReceiver'' @ (if length name \<le> 2 then lit ''byip'' else drop (length name - 2) name)"

text \<open>One round: all queued tasks go to the named threads; without tasks the thread waits, or ends on termination.\<close>

definition ProcessReq2Receiver_round :: "'cb Req2ReceiverMgr \<Rightarrow> 'cb Req2ReceiverMgr" where
  "ProcessReq2Receiver_round m =
     (if m_reqtoreceiver_task_container m = [] then
        if m_req2receiver_terminate m then m\<lparr>m_req2receiver_running := False\<rparr> else m
      else m\<lparr>m_reqtoreceiver_task_container := [],
             named_work := named_work m @
               map (\<lambda>task. (work_thread_name (clientname task), task)) (m_reqtoreceiver_task_container m)\<rparr>)"

end
