(* ===== verification/Req2Receiver_Props.thy ===== *)
theory Req2Receiver_Props
  imports Req2Receiver
begin

text \<open>
  Properties of sending to other clients: the bytes on the wire, the answers of a stream of any fragmentation,
  the life of a synchronous request, and the tasks that wait for an address.
\<close>

section \<open>Lemmas\<close>

subsection \<open>The bytes of a task\<close>

definition task_bytes :: "Req2ReceiverTask \<Rightarrow> byte list \<Rightarrow> byte list" where
  "task_bytes task d = [if sync task then 1 else 0] @ be32 (future_id task) @ be32 (data_len task) @ d"

lemma task_block_bytes:
  assumes "data task = Some blk" "unat (data_len task) \<le> length blk" "unat (data_len task) + 9 < 2 ^ 32"
  shows "task_block task = Inr (task_bytes task (take (unat (data_len task)) blk))"
proof -
  have n: "unat (9 + data_len task) = 9 + unat (data_len task)"
    using assms(3) by (simp add: unat_word_ariths)
  have "overlay 0 (task_bytes task (take (unat (data_len task)) blk)) (replicate (9 + unat (data_len task)) 0)
      = task_bytes task (take (unat (data_len task)) blk)"
    using assms(2) by (simp add: overlay_def task_bytes_def)
  then show ?thesis
    using assms n
    by (simp add: task_block_def memcpy_ptr_def cload_def cstore_ok overlay_overlay task_bytes_def)
qed

lemma post_parse_task:
  assumes "unat (data_len task) = length d"
  shows "post_parse (task_bytes task d @ rest) = Some (((if sync task then 1 else 0), future_id task, d), 9 + length d)"
proof -
  have c: "task_bytes task d @ rest = (if sync task then 1 else 0) # be32 (future_id task) @ be32 (data_len task) @ d @ rest"
    by (simp add: task_bytes_def)
  show ?thesis unfolding c post_parse_def using assms by (simp add: Let_def)
qed

subsection \<open>Waiting\<close>

text \<open>\<open>future_wait\<close> is \<open>join\<close> on the future as the managers show it.\<close>

lemma future_wait_join:
  "join (fut_heap fm ! q) (map (\<lambda>fm. (False, fut_heap fm ! q)) ws @ [(True, fut_heap fmt ! q)]) =
     (case future_wait fm q ws fmt of (ok, fm') \<Rightarrow> Some (ok, fut_heap fm' ! q))"
proof (induction ws arbitrary: fm)
  case (Cons fm1 ws)
  have "future_wait fm1 q ws fmt = (True, fm1)" if "ready (fut_heap fm1 ! q)" using that by (cases ws) simp_all
  with Cons show ?case by (auto split: prod.splits)
qed simp

subsection \<open>Answers\<close>

fun answer_all :: "'cb FutureMgr \<Rightarrow> (u32 \<times> byte list) list \<Rightarrow> ('cb \<times> nat) list \<times> 'cb FutureMgr" where
  "answer_all fm [] = ([], fm)"
| "answer_all fm ((sid, d) # rs) =
     (let (c, fm) = answer_future fm sid d; (cs, fm) = answer_all fm rs
      in ((case c of Some x \<Rightarrow> [x] | None \<Rightarrow> []) @ cs, fm))"

lemma rsp_parse_at:
  assumes "p + 8 \<le> length blk"
  shows "\<exists>sid_n len_n. load32 blk p = Inr sid_n \<and> load32 blk (p + 4) = Inr len_n \<and>
    rsp_parse (drop p blk) = (let n = unat (htonl len_n) in if length blk - p < 8 + n then None
      else Some ((htonl sid_n, take n (drop (p + 8) blk)), 8 + n))"
  using assms by (auto simp: load32_def cload_def rsp_parse_def Let_def add.commute)

lemma onRead_loop_called:
  "onRead_loop blk p sz n fm called = cmap (\<lambda>(n, fm, cs). (n, fm, called @ cs)) (onRead_loop blk p sz n fm [])"
proof (induction sz arbitrary: p n fm called rule: less_induct)
  case (less sz)
  show ?case
    by (subst (1 2) onRead_loop.simps) (auto simp: Let_def less.IH [of _ _ _ _ "called @ _"] less.IH [of _ _ _ _ "case _ of Some x \<Rightarrow> [x] | None \<Rightarrow> []"]
        cbind_def cmap_def split: sum.splits prod.splits)
qed

definition answer_frame :: "'cb Req2ReceiverMgr \<Rightarrow> u32 \<times> byte list \<Rightarrow> 'cb Req2ReceiverMgr cres" where
  "answer_frame m f = (let (cs, fm) = answer_all (future_mgr m) [f] in Inr (m\<lparr>future_mgr := fm, callbacks_run := callbacks_run m @ cs\<rparr>))"

interpretation req_reader: stream_reader rsp_parse answer_frame
  "\<lambda>blk p sz n m. cmap (\<lambda>(n, fm, cs). (n, m\<lparr>future_mgr := fm, callbacks_run := callbacks_run m @ cs\<rparr>)) (onRead_loop blk p sz n (future_mgr m) [])"
proof
  fix p n k :: nat and blk :: "byte list" and m :: "'cb Req2ReceiverMgr" and f
  let ?read = "\<lambda>p n m. cmap (\<lambda>(n, fm, cs). (n, m\<lparr>future_mgr := fm, callbacks_run := callbacks_run m @ cs\<rparr>)) (onRead_loop blk p (length blk - p) n (future_mgr m) [])"
  assume p: "p \<le> length blk"
  show "?read p n m = Inr (n, m)" if none: "rsp_parse (drop p blk) = None"
  proof (cases "length blk - p < 8")
    case False
    then have "p + 8 \<le> length blk" by simp
    from rsp_parse_at [OF this] none False show ?thesis
      by (subst onRead_loop.simps) (auto simp: Let_def split: if_splits)
  qed (simp add: onRead_loop.simps)
  show "?read p n m = cbind (answer_frame m f) (?read (p + k) (n + k))" if fk: "rsp_parse (drop p blk) = Some (f, k)"
  proof -
    have long: "p + 8 \<le> length blk" using fk p by (auto simp: rsp_parse_def split: if_splits)
    from rsp_parse_at [OF this] fk obtain sid_n len_n where l: "load32 blk p = Inr sid_n" "load32 blk (p + 4) = Inr len_n"
      "k = 8 + unat (htonl len_n)" "f = (htonl sid_n, take (unat (htonl len_n)) (drop (p + 8) blk))" "k \<le> length blk - p"
      by (auto simp: Let_def split: if_splits)
    obtain c fm1 where c: "answer_future (future_mgr m) (fst f) (snd f) = (c, fm1)" by (cases "answer_future (future_mgr m) (fst f) (snd f)")
    have "onRead_loop blk p (length blk - p) n (future_mgr m) [] =
        onRead_loop blk (p + k) (length blk - (p + k)) (n + k) fm1 (case c of Some x \<Rightarrow> [x] | None \<Rightarrow> [])"
      using l c long by (subst onRead_loop.simps) (auto simp: cload_def Let_def)
    also have "\<dots> = cmap (\<lambda>(n, fm, cs). (n, fm, (case c of Some x \<Rightarrow> [x] | None \<Rightarrow> []) @ cs)) (onRead_loop blk (p + k) (length blk - (p + k)) (n + k) fm1 [])"
      by (rule onRead_loop_called)
    finally show ?thesis using c l(4)
      by (cases "onRead_loop blk (p + k) (length blk - (p + k)) (n + k) fm1 []") (auto simp: answer_frame_def)
  qed
qed

lemma run_answer_frames: "run_frames answer_frame m fs =
    (let (cs, fm) = answer_all (future_mgr m) fs in Inr (m\<lparr>future_mgr := fm, callbacks_run := callbacks_run m @ cs\<rparr>))"
  by (induction fs arbitrary: m) (auto simp: answer_frame_def split: prod.splits)

lemma req_reader_on_read: "req_reader.on_read = Req2Receiver_onRead"
  by (rule ext)+ (simp add: req_reader.on_read_def Req2Receiver_onRead_def)

text \<open>A connection: each read appends a chunk to the buffered bytes and drops what \<open>Req2Receiver_onRead\<close> consumed.\<close>

definition req_feed :: "'cb Req2ReceiverMgr \<Rightarrow> byte list \<Rightarrow> byte list list \<Rightarrow> ('cb Req2ReceiverMgr \<times> byte list) cres" where
  "req_feed m buf chunks = feed_reader Req2Receiver_onRead m buf chunks"

lemma req_feed_all:
  "\<exists>m'. req_feed m [] chunks = Inr (m', snd (frames rsp_parse (concat chunks))) \<and>
     future_mgr m' = snd (answer_all (future_mgr m) (fst (frames rsp_parse (concat chunks)))) \<and>
     callbacks_run m' = callbacks_run m @ fst (answer_all (future_mgr m) (fst (frames rsp_parse (concat chunks))))"
proof -
  obtain fs r where fr: "frames rsp_parse (concat chunks) = (fs, r)" by (cases "frames rsp_parse (concat chunks)")
  from req_reader.feed_frames [OF parse_empty(3) fr, of m] fr show ?thesis
    by (simp add: req_feed_def req_reader_on_read run_answer_frames split_beta)
qed

subsection \<open>Sending on a connection\<close>

lemma SendData_queued:
  assumes "\<not> IsClosed s" "Writeable s" "m_evloop s" "d \<noteq> []" "length d \<le> MAX_BUF_SIZE"
  shows "SendData worker s (Some d) [] = Inr (True, log_call s (QueueSend d), [])"
  using assms by (simp add: SendData_def worker_def)

lemma forget_future_none: "sendmsg_rsp_container (future_mgr (forget_future m i)) i = None"
  by (simp add: forget_future_def safe_remove_future_def)

lemma send_on_failed:
  "send_on env m task r p = Inr ((False, r'), m') \<Longrightarrow> sendmsg_rsp_container (future_mgr m') (future_id task) = None"
  by (auto simp: send_on_def cbind_eq_Inr forget_future_none Let_def split: if_splits prod.splits)

lemma connect_failed_forgets:
  "connect_failed m task r = ((False, r'), m') \<Longrightarrow> sendmsg_rsp_container (future_mgr m') (future_id task) = None"
  by (auto simp: connect_failed_def forget_future_none split: if_splits)

lemma send_to_dest_failed:
  "send_to_dest consumed env m task r dest = Inr ((False, r'), m') \<Longrightarrow>
     sendmsg_rsp_container (future_mgr m') (future_id task) = None"
  unfolding send_to_dest_def
  by (auto simp: cbind_eq_Inr forget_future_none Let_def dest: send_on_failed connect_failed_forgets
      split: option.splits if_splits prod.splits)

lemma ProcessReq_failed:
  "ProcessReqToReceiver consumed env m task r = Inr ((False, r'), m') \<Longrightarrow>
     sendmsg_rsp_container (future_mgr m') (future_id task) = None"
  by (auto simp: ProcessReqToReceiver_def forget_future_none dest: send_to_dest_failed split: if_splits option.splits)

subsection \<open>The server's answers\<close>

lemma GetClientRsp_UnPackBody_len:
  "GetClientRsp_UnPackBody m0 (GetClientRsp_body rsp) 0 (length (GetClientRsp_body rsp))
    = Inr (0, GetClientRsp_received m0 rsp)"
  by (rule GetClientRsp_UnPackBody_ok) simp_all

lemma fold_queue:
  "fold (\<lambda>task m. QueueReqTaskToReceiver m (f task)) ts m =
     m\<lparr>m_reqtoreceiver_task_container := m_reqtoreceiver_task_container m @ map f ts\<rparr>"
  by (induction ts arbitrary: m) (simp_all add: QueueReqTaskToReceiver_def)

lemma fold_forget:
  "fold (\<lambda>task m. forget_future m (future_id task)) ts m =
     m\<lparr>future_mgr := (future_mgr m)\<lparr>sendmsg_rsp_container := (\<lambda>sid. if sid \<in> future_id ` set ts then None
        else sendmsg_rsp_container (future_mgr m) sid)\<rparr>\<rparr>"
  by (induction ts arbitrary: m) (auto simp: forget_future_def safe_remove_future_def fun_eq_iff)

definition rsp_future :: "MsgBusGetClientRsp \<Rightarrow> nat NetFuture" where
  "rsp_future rsp = fst (set_result (new_NetFuture 0 None) (GetClientRsp_body rsp))"

lemma HandleRsp_unfold:
  assumes "GetClientRsp_wf rsp" "gcrsp_dest_name rsp = cpad MAX_SERVICE_NAME name" "0 \<notin> set name"
    "length name < MAX_SERVICE_NAME" "get_now f = Some (GetClientRsp_body rsp)" "\<not> has_error f"
  shows "HandleRspGetClient c g m f =
    (let ts = (case m_wait2send_task_container m name of Some ts \<Rightarrow> ts | None \<Rightarrow> []);
         m = m\<lparr>m_wait2send_task_container := (m_wait2send_task_container m)(name := None)\<rparr> in
     if gcrsp_ret_code rsp = 0 then
       Inr (m\<lparr>m_cached_client_info := (m_cached_client_info m)(name \<mapsto>
             (host_ip (gcrsp_dest_host rsp), host_port (gcrsp_dest_host rsp))),
           m_reqtoreceiver_task_container := m_reqtoreceiver_task_container m @ map (retry_update (\<lambda>_. False)) ts\<rparr>)
     else Inr (m\<lparr>future_mgr := (future_mgr m)\<lparr>sendmsg_rsp_container := (\<lambda>sid. if sid \<in> future_id ` set ts then None
        else sendmsg_rsp_container (future_mgr m) sid)\<rparr>\<rparr>))"
proof -
  have "string_of_cstr (name_bytes (gcrsp_dest_name rsp)) = Inr name"
    using assms(2-4) by (simp add: name_bytes_def cstr_cpad string_of_cpad)
  then show ?thesis
    using GetClientRsp_UnPackBody_len assms(5,6)
    by (simp add: HandleRspGetClient_def GetClientRsp_received_def fold_queue fold_forget Let_def)
qed

subsection \<open>A synchronous request\<close>

lemma sync_write:
  assumes "sync task" "data task = Some blk" "unat (data_len task) \<le> length blk" "unat (data_len task) + 9 \<le> MAX_BUF_SIZE"
    and "\<not> IsClosed (sock_mem ns p)" "Writeable (sock_mem ns p)" "m_evloop (sock_mem ns p)"
    and "sendmsg_rsp_container fm (future_id task) = Some q" "future_wait fm q ws fmt = (True, fm')"
  shows "WriteTaskDataToReceiver ns fm p task r ws fmt = Inr ((True, rsp_content (fut_heap fm' ! q)),
    ns\<lparr>sock_mem := (sock_mem ns)(p := log_call (sock_mem ns p)
         (QueueSend (task_bytes task (take (unat (data_len task)) blk))))\<rparr>, fm')"
proof -
  let ?d = "task_bytes task (take (unat (data_len task)) blk)"
  have l: "?d \<noteq> []" "length ?d \<le> MAX_BUF_SIZE" using assms(3,4) by (simp_all add: task_bytes_def)
  have "task_block task = Inr ?d"
    using assms(2-4) by (intro task_block_bytes) (simp_all add: MAX_BUF_SIZE_def BLOCK_SIZE_def)
  with SendData_queued [OF assms(5-7) l] assms(1,8,9) show ?thesis
    by (simp add: WriteTaskDataToReceiver_def safe_get_future_def)
qed

lemma answered_wait:
  assumes "future_inv fm" "safe_insert_future now fm cb = Inr ((i, q), fm1)"
    and "fut_run fm1 ops = Inr (cs, fm2)" "list_all (keeps_session i now) ops" "fm3 = snd (answer_future fm2 i rsp)"
  shows "future_wait fm1 q [fm2, fm3] fmt = (True, fm3)" "rsp_content (fut_heap fm3 ! q) = rsp"
    "sendmsg_rsp_container fm3 i = None" "sendmsg_rsp_container fm1 i = Some q"
proof -
  note ins = safe_insert_cases [OF assms(2)]
  have p1: "pending fm1 i q (new_NetFuture now cb)"
    using ins future_inv_insert [OF assms(1,2)] by (simp add: pending_def)
  have p2: "pending fm2 i q (new_NetFuture now cb)"
    using pending_run [OF p1 _ assms(3)] assms(4) by (simp add: new_NetFuture_def)
  then have "q < length (fut_heap fm2)" by (auto simp: pending_def future_inv_def)
  with p1 p2 assms(5) show "future_wait fm1 q [fm2, fm3] fmt = (True, fm3)" "rsp_content (fut_heap fm3 ! q) = rsp"
    "sendmsg_rsp_container fm3 i = None" "sendmsg_rsp_container fm1 i = Some q"
    by (simp_all add: pending_def answer_future_eq new_NetFuture_def)
qed

text \<open>When no socket can be created, a request to an unknown address fails.\<close>

lemma create_refused:
  assumes "m_tcpclient_pool pool key = None" "num > 0" "\<And>k. ca_fd (attempt k) = - 1"
  shows "\<exists>ns'. CreateTcpSock t loopname key num cb postcb attempt inner pool ns st = Inr (False, pool, ns', st)"
  using assms
  by (cases "nat num") (auto simp: CreateTcpSock_def Connect_def new_TcpSock_unconnected_def new_TcpSock_def Let_def)

lemma send_refused:
  assumes "m_tcpclient_pool (pool_of m (sync task)) dest = None" "\<And>k. ca_fd (attempts env k) = - 1" "\<not> retry task"
  shows "\<exists>m'. send_to_dest consumed env m task r dest = Inr ((False, r), m')"
proof -
  let ?pool = "pool_of m (sync task)"
  let ?m = "set_pool m (sync task) ?pool"
  have "CLIENT_POOL_SIZE > 0" by (simp add: CLIENT_POOL_SIZE_def)
  then have "\<exists>ns. CreateTcpSock worker (if sync task then NETMSGBUS_EVLOOP_NAME else POSTMSG_LOOP) dest CLIENT_POOL_SIZE
      (receiver_callbacks consumed) (IdentiySelfToReceiver (m_server_connmgr ?m)) (attempts env) (inner_loops env)
      ?pool (net ?m) (future_mgr ?m) = Inr (False, ?pool, ns, future_mgr ?m)"
    using assms(1,2) by (intro create_refused)
  then obtain ns where "CreateTcpSock worker (if sync task then NETMSGBUS_EVLOOP_NAME else POSTMSG_LOOP) dest CLIENT_POOL_SIZE
      (receiver_callbacks consumed) (IdentiySelfToReceiver (m_server_connmgr ?m)) (attempts env) (inner_loops env)
      ?pool (net ?m) (future_mgr ?m) = Inr (False, ?pool, ns, future_mgr ?m)" ..
  with assms(1,3) show ?thesis
    by (simp add: send_to_dest_def GetTcpSockByDestHost_def Let_def connect_failed_def)
qed

text \<open>A synchronous request over an open connection, completed by its answer.\<close>

lemma sync_request:
  assumes "future_inv (future_mgr m)" "m_req2receiver_running m" "fst dest \<noteq> []"
    and "safe_insert_future now (future_mgr m) None = Inr ((i, q), fm1)"
    and "GetTcpSockByDestHost (m_sendmsg_client_conn_pool m) dest = Inr (Some p, pool)"
    and "\<not> IsClosed (sock_mem (net m) p)" "Writeable (sock_mem (net m) p)" "m_evloop (sock_mem (net m) p)"
    and "unat dlen \<le> length blk" "unat dlen + 9 \<le> MAX_BUF_SIZE"
    and "fut_run fm1 ops = Inr (cs, fm2)" "list_all (keeps_session i now) ops"
    and "wakeups env = [fm2, snd (answer_future fm2 i rsp)]"
  shows "\<exists>m' pkt. SendMsgDirectToClient_ip consumed env u now m dest dlen (Some blk) r to = Inr ((True, rsp), m') \<and>
    calls (sock_mem (net m') p) = calls (sock_mem (net m) p) @ [QueueSend pkt] \<and>
    post_parse pkt = Some ((1, i, take (unat dlen) blk), length pkt) \<and>
    sendmsg_rsp_container (future_mgr m') i = None \<and>
    m_cached_client_info m' = m_cached_client_info m \<and> (\<forall>p'. p' \<noteq> p \<longrightarrow> sock_mem (net m') p' = sock_mem (net m) p')"
proof -
  define task where "task = (new_Req2ReceiverTask u)\<lparr>data_len := dlen, data := Some blk, sync := True, retry := False,
    timeout := to, dest_client := dest, future_id := i\<rparr>"
  have t: "sync task" "data task = Some blk" "data_len task = dlen" "future_id task = i" "clientname task = []"
    "dest_client task = dest" by (simp_all add: task_def new_Req2ReceiverTask_def)
  let ?pkt = "task_bytes task (take (unat dlen) blk)"
  have w: "future_wait fm1 q [fm2, snd (answer_future fm2 i rsp)] (at_timeout env) = (True, snd (answer_future fm2 i rsp))"
    "rsp_content (fut_heap (snd (answer_future fm2 i rsp)) ! q) = rsp"
    "sendmsg_rsp_container (snd (answer_future fm2 i rsp)) i = None" "sendmsg_rsp_container fm1 i = Some q"
    by (rule answered_wait [OF assms(1,4,11,12) refl])+
  have wr: "WriteTaskDataToReceiver (net m) fm1 p task r (wakeups env) (at_timeout env) = Inr ((True, rsp),
      (net m)\<lparr>sock_mem := (sock_mem (net m))(p := log_call (sock_mem (net m) p) (QueueSend ?pkt))\<rparr>, snd (answer_future fm2 i rsp))"
    using sync_write [OF t(1,2), of "net m" p fm1 q "wakeups env" "at_timeout env" "snd (answer_future fm2 i rsp)" r]
      assms(6-10,13) w t by simp
  have "SendMsgDirectToClient_ip consumed env u now m dest dlen (Some blk) r to
      = ProcessReqToReceiver consumed env (m\<lparr>future_mgr := fm1\<rparr>) task r"
    using assms(2-4) by (simp add: SendMsgDirectToClient_ip_def task_def)
  also have "\<dots> = send_to_dest consumed env (m\<lparr>future_mgr := fm1\<rparr>) task r dest"
    using assms(3) t by (simp add: ProcessReqToReceiver_def)
  also have "\<dots> = send_on env (set_pool (m\<lparr>future_mgr := fm1\<rparr>) True pool) task r p"
    using assms(5) t by (simp add: send_to_dest_def pool_of_def)
  finally have r: "SendMsgDirectToClient_ip consumed env u now m dest dlen (Some blk) r to = \<dots>" .
  have "post_parse ?pkt = Some ((1, i, take (unat dlen) blk), length ?pkt)"
    using post_parse_task [of task "take (unat dlen) blk" "[]"] t assms(9) by (simp add: task_bytes_def)
  with r wr w(3) show ?thesis by (simp add: send_on_def set_pool_def)
qed

subsection \<open>An example client\<close>

definition demo_dest :: dest where "demo_dest = (lit ''10.0.0.1'', 80)"

definition demo_task :: Req2ReceiverTask where
  "demo_task = (new_Req2ReceiverTask (9, 0))\<lparr>clientname := lit ''peer'', retry := True\<rparr>"

definition demo_req :: "nat Req2ReceiverMgr" where
  "demo_req = \<lparr>m_reqtoreceiver_task_container = [], m_wait2send_task_container = [lit ''peer'' \<mapsto> [demo_task]],
     m_cached_client_info = Map.empty, future_mgr = new_FutureMgr, m_server_connmgr = Some (lit ''me''),
     m_req2receiver_running = True, m_req2receiver_terminate = False,
     m_sendmsg_client_conn_pool = \<lparr>m_tcpclient_pool = [demo_dest \<mapsto> [7]], m_select_counter = [demo_dest \<mapsto> 0]\<rparr>,
     m_postmsg_client_conn_pool = new_TcpClientPool, net = demo_net, server_requests = [], local_posts = [],
     named_work = [], callbacks_run = []\<rparr>"

definition demo_fm :: "nat FutureMgr" where
  "demo_fm = \<lparr>future_inc_id = 1, sendmsg_rsp_container = [1 \<mapsto> 0], fut_heap = [new_NetFuture 0 None]\<rparr>"

definition demo_env :: "nat req_env" where
  "demo_env = \<lparr>attempts = (\<lambda>_. demo_attempt\<lparr>ca_fd := - 1\<rparr>), inner_loops = (\<lambda>_. None),
     wakeups = [demo_fm, snd (answer_future demo_fm 1 [5])], at_timeout = demo_fm\<rparr>"

definition demo_rsp :: "u16 \<Rightarrow> MsgBusGetClientRsp" where
  "demo_rsp code = new_MsgBusGetClientRsp code (cpad MAX_SERVICE_NAME (lit ''peer''))"

lemma demo_insert: "safe_insert_future 0 (future_mgr demo_req) None = Inr ((1, 0), demo_fm)" "future_inv (future_mgr demo_req)"
  by (simp_all add: demo_req_def demo_fm_def safe_insert_future_def new_FutureMgr_def next_future_id_def future_inv_def)

lemma demo_rsp_ok: "GetClientRsp_wf (demo_rsp code)" "gcrsp_dest_name (demo_rsp code) = cpad MAX_SERVICE_NAME (lit ''peer'')"
  "0 \<notin> set (lit ''peer'')" "length (lit ''peer'') < MAX_SERVICE_NAME" "gcrsp_ret_code (demo_rsp code) = code"
  by (simp_all add: demo_rsp_def GetClientRsp_wf_def new_MsgBusGetClientRsp_def MsgBusPackHead.defs MsgBusGetClientRsp.defs
      new_MsgBusPackHead_def lit_def MAX_SERVICE_NAME_def)

lemma demo_rsp_future: "get_now (rsp_future rsp) = Some (GetClientRsp_body rsp)" "\<not> has_error (rsp_future rsp)"
  by (simp_all add: rsp_future_def set_result_def new_NetFuture_def get_now_def)

section \<open>Properties\<close>

text \<open>
  the packet of a task (a sync flag, the session id and the content, both numbers in network
  order) fits its block exactly, and the receiver's frame format reads back exactly these three values, whatever
  follows it in the stream.
\<close>

theorem req_task_packet:
  assumes "data task = Some blk" "unat (data_len task) \<le> length blk" "unat (data_len task) + 9 < 2 ^ 32"
  shows "\<exists>pkt. task_block task = Inr pkt \<and> length pkt = 9 + unat (data_len task) \<and>
    post_parse (pkt @ rest) =
      Some (((if sync task then 1 else 0), future_id task, take (unat (data_len task)) blk), length pkt)"
  using task_block_bytes [OF assms] assms(2)
    post_parse_task [of task "take (unat (data_len task)) blk" rest]
  by (simp add: task_bytes_def)

theorem req_task_packet_witness:
  "\<exists>pkt. task_block ((new_Req2ReceiverTask (7, 3))\<lparr>data := Some [1, 2, 3, 4]\<rparr>) = Inr pkt \<and> length pkt = 12 \<and>
     post_parse (pkt @ [9]) = Some ((0, 7, [1, 2, 3]), 12)"
  using req_task_packet [of "(new_Req2ReceiverTask (7, 3))\<lparr>data := Some [1, 2, 3, 4]\<rparr>" "[1, 2, 3, 4]" "[9]"]
  by (simp add: new_Req2ReceiverTask_def) fastforce

text \<open>
  C24: answers. However the bytes of a connection are cut into reads, exactly the complete answers of the byte
  stream are delivered, in order: each completes the future of its session (and runs its callback), answers of
  unknown sessions are skipped, and the incomplete rest is kept.
\<close>

theorem req_answers_stream:
  "\<exists>m'. req_feed m [] chunks = Inr (m', snd (frames rsp_parse (concat chunks))) \<and>
     future_mgr m' = snd (answer_all (future_mgr m) (fst (frames rsp_parse (concat chunks)))) \<and>
     callbacks_run m' = callbacks_run m @ fst (answer_all (future_mgr m) (fst (frames rsp_parse (concat chunks))))"
  by (rule req_feed_all)

text \<open>
  a synchronous request to a connected receiver gets its own answer. The packet with a fresh
  session id is queued on the selected connection; whatever other requests and answers the future manager
  handles meanwhile, when the answer for this session arrives the caller gets true and its bytes, and the session is gone
  from the table.
\<close>

theorem sync_request_answered:
  assumes "future_inv (future_mgr m)" "m_req2receiver_running m" "fst dest \<noteq> []"
    and "safe_insert_future now (future_mgr m) None = Inr ((i, q), fm1)"
    and "GetTcpSockByDestHost (m_sendmsg_client_conn_pool m) dest = Inr (Some p, pool)"
    and "\<not> IsClosed (sock_mem (net m) p)" "Writeable (sock_mem (net m) p)" "m_evloop (sock_mem (net m) p)"
    and "unat dlen \<le> length blk" "unat dlen + 9 \<le> MAX_BUF_SIZE"
    and "fut_run fm1 ops = Inr (cs, fm2)" "list_all (keeps_session i now) ops"
    and "wakeups env = [fm2, snd (answer_future fm2 i rsp)]"
  shows "\<exists>m' pkt. SendMsgDirectToClient_ip consumed env u now m dest dlen (Some blk) r to = Inr ((True, rsp), m') \<and>
    calls (sock_mem (net m') p) = calls (sock_mem (net m) p) @ [QueueSend pkt] \<and>
    post_parse pkt = Some ((1, i, take (unat dlen) blk), length pkt) \<and>
    sendmsg_rsp_container (future_mgr m') i = None"
  using sync_request [OF assms, of consumed u r to] by blast

theorem sync_request_answered_witness:
  "\<exists>m' pkt. SendMsgDirectToClient_ip length demo_env (0, 0) 0 demo_req demo_dest 2 (Some [1, 2]) [] 10 = Inr ((True, [5]), m') \<and>
     post_parse pkt = Some ((1, 1, [1, 2]), length pkt) \<and> sendmsg_rsp_container (future_mgr m') 1 = None"
proof -
  have "GetTcpSockByDestHost (m_sendmsg_client_conn_pool demo_req) demo_dest = Inr (Some 7,
      \<lparr>m_tcpclient_pool = [demo_dest \<mapsto> [7]], m_select_counter = [demo_dest \<mapsto> 1]\<rparr>)"
    by (simp add: demo_req_def GetTcpSockByDestHost_def select_index_def)
  moreover have "m_req2receiver_running demo_req" "fst demo_dest \<noteq> []" "wakeups demo_env = [demo_fm, snd (answer_future demo_fm 1 [5])]"
    by (simp_all add: demo_req_def demo_dest_def lit_def demo_env_def)
  moreover have "\<not> IsClosed (sock_mem (net demo_req) 7)" "Writeable (sock_mem (net demo_req) 7)" "m_evloop (sock_mem (net demo_req) 7)"
    by (simp_all add: demo_req_def demo_net_def demo_heap_def new_TcpSock_def IsClosed_def Writeable_def)
  ultimately show ?thesis
    using sync_request_answered [OF demo_insert(2) _ _ demo_insert(1), of demo_dest 7 _ 2 "[1, 2]" "[]" "[]" demo_fm demo_env "[5]"
        length "(0, 0)" "[]" 10]
    by (simp add: MAX_BUF_SIZE_def BLOCK_SIZE_def) blast
qed

text \<open>
  a synchronous request that fails (no connection, the send refused, the wait timed out) leaves no
  session behind: its id is gone from the table and a late answer has no effect.
\<close>

theorem sync_failure_forgets:
  assumes "m_req2receiver_running m" "fst dest \<noteq> []" "safe_insert_future now (future_mgr m) None = Inr ((i, q), fm1)"
    and "SendMsgDirectToClient_ip consumed env u now m dest dlen d r to = Inr ((False, r'), m')"
  shows "sendmsg_rsp_container (future_mgr m') i = None \<and>
    answer_future (future_mgr m') i rsp = (None, future_mgr m')"
proof -
  have "sendmsg_rsp_container (future_mgr m') i = None"
    using ProcessReq_failed assms by (fastforce simp: SendMsgDirectToClient_ip_def)
  then show ?thesis by (simp add: answer_future_eq)
qed

theorem sync_failure_forgets_witness:
  "\<exists>r' m'. SendMsgDirectToClient_ip length demo_env (0, 0) 0 demo_req (lit ''10.0.0.2'', 80) 2 (Some [1, 2]) [] 10
      = Inr ((False, r'), m') \<and> sendmsg_rsp_container (future_mgr m') 1 = None"
proof -
  have "(lit ''10.0.0.2'', 80 :: u16) \<noteq> demo_dest" by (simp add: demo_dest_def lit_def)
  moreover have d: "m_req2receiver_running demo_req" "fst (lit ''10.0.0.2'', 80 :: u16) \<noteq> []"
    by (simp_all add: demo_req_def lit_def)
  ultimately have "\<exists>r' m'. SendMsgDirectToClient_ip length demo_env (0, 0) 0 demo_req (lit ''10.0.0.2'', 80) 2 (Some [1, 2]) [] 10
      = Inr ((False, r'), m')"
    using demo_insert(1) send_refused [of "demo_req\<lparr>future_mgr := demo_fm\<rparr>"
        "(new_Req2ReceiverTask (0, 0))\<lparr>data_len := 2, data := Some [1, 2], sync := True, retry := False, timeout := 10,
          dest_client := (lit ''10.0.0.2'', 80), future_id := 1\<rparr>" "(lit ''10.0.0.2'', 80)" demo_env length "[]"]
    by (simp add: SendMsgDirectToClient_ip_def ProcessReqToReceiver_def new_Req2ReceiverTask_def pool_of_def
        demo_req_def demo_env_def) blast
  then obtain r' m' where r: "SendMsgDirectToClient_ip length demo_env (0, 0) 0 demo_req (lit ''10.0.0.2'', 80) 2 (Some [1, 2]) [] 10
      = Inr ((False, r'), m')" by blast
  from sync_failure_forgets [OF d demo_insert(1) r] r show ?thesis by blast
qed

text \<open>
  C34: waiting tasks resume. When the server answers with the address of a name, the address is cached, every
  task that waited for the name is queued again in its order and will not ask again, and no other waiting task
  is touched.
\<close>

theorem getclient_resumes:
  assumes "GetClientRsp_wf rsp" "gcrsp_dest_name rsp = cpad MAX_SERVICE_NAME name" "0 \<notin> set name"
    and "length name < MAX_SERVICE_NAME" "get_now f = Some (GetClientRsp_body rsp)" "\<not> has_error f"
    and "gcrsp_ret_code rsp = 0" "m_wait2send_task_container m name = Some ts"
  shows "\<exists>m'. HandleRspGetClient c g m f = Inr m' \<and>
    m_reqtoreceiver_task_container m' = m_reqtoreceiver_task_container m @ map (\<lambda>t. t\<lparr>retry := False\<rparr>) ts \<and>
    m_wait2send_task_container m' = (m_wait2send_task_container m)(name := None) \<and>
    safe_get_cached_host_info m' name = Some (host_ip (gcrsp_dest_host rsp), host_port (gcrsp_dest_host rsp)) \<and>
    future_mgr m' = future_mgr m"
  using HandleRsp_unfold [OF assms(1-6), of c g m] assms(7,8)
  by (simp add: safe_get_cached_host_info_def Let_def)

theorem getclient_resumes_witness:
  "\<exists>m'. HandleRspGetClient 0 [] demo_req (rsp_future (demo_rsp 0)) = Inr m' \<and>
     m_reqtoreceiver_task_container m' = [demo_task\<lparr>retry := False\<rparr>]"
  using getclient_resumes [OF demo_rsp_ok(1-4) demo_rsp_future, of 0 demo_req "[demo_task]" 0 "[]"]
  by (auto simp: demo_rsp_ok demo_req_def)

text \<open>
  a name the server does not know. When the server answers with an error, the sessions of the waiting
  tasks are removed, but their futures are neither completed nor given an error: they stay pending for ever,
  their callbacks never run, and any later answer is ignored.
\<close>

theorem getclient_error_drops_futures:
  assumes "GetClientRsp_wf rsp" "gcrsp_dest_name rsp = cpad MAX_SERVICE_NAME name" "0 \<notin> set name"
    and "length name < MAX_SERVICE_NAME" "get_now f = Some (GetClientRsp_body rsp)" "\<not> has_error f"
    and "gcrsp_ret_code rsp \<noteq> 0" "m_wait2send_task_container m name = Some ts" "task \<in> set ts"
  shows "\<exists>m'. HandleRspGetClient c g m f = Inr m' \<and> fut_heap (future_mgr m') = fut_heap (future_mgr m) \<and>
    callbacks_run m' = callbacks_run m \<and>
    answer_future (future_mgr m') (future_id task) d = (None, future_mgr m')"
  using HandleRsp_unfold [OF assms(1-6), of c g m] assms(7-9) by (auto simp: answer_future_eq Let_def)

theorem getclient_error_drops_futures_witness:
  "\<exists>m'. HandleRspGetClient 0 [] demo_req (rsp_future (demo_rsp 1)) = Inr m' \<and>
     answer_future (future_mgr m') 9 [5] = (None, future_mgr m')"
  using getclient_error_drops_futures [OF demo_rsp_ok(1-4) demo_rsp_future, of 1 demo_req "[demo_task]" demo_task 0 "[]" "[5]"]
  by (auto simp: demo_rsp_ok demo_req_def demo_task_def new_Req2ReceiverTask_def)

text \<open>
  posting to an empty client name is accepted (the synchronous variant refuses it), and the worker that
  processes the task fails the assertion that a task without a name has an address.
\<close>

theorem post_empty_name_asserts:
  assumes "m_req2receiver_running m" "safe_insert_future now (future_mgr m) cb = Inr ((i, q), fm1)"
  shows "\<exists>m'. PostMsgDirectToClient u now m [] dlen d cb = Inr (Some q, m') \<and>
    m_reqtoreceiver_task_container m' \<noteq> [] \<and>
    ProcessReqToReceiver consumed env m' (last (m_reqtoreceiver_task_container m')) r = Inl AssertFailed"
  using assms
  by (simp add: PostMsgDirectToClient_def QueueReqTaskToReceiver_def ProcessReqToReceiver_def new_Req2ReceiverTask_def)

theorem post_empty_name_asserts_witness:
  "\<exists>m'. PostMsgDirectToClient (0, 0) 0 demo_req [] 2 (Some [1, 2]) None = Inr (Some 0, m') \<and>
     ProcessReqToReceiver length demo_env m' (last (m_reqtoreceiver_task_container m')) [] = Inl AssertFailed"
  using post_empty_name_asserts [OF _ demo_insert(1), of "(0, 0)" 2 "Some [1, 2]" length demo_env "[]"]
  by (auto simp: demo_req_def)

end
