(* ===== verification/Receiver.thy ===== *)
theory Receiver
  imports Client_Pool Framing Net_Msg
begin

text \<open>
  Receiving from other clients, \<^verbatim>\<open>src/Core/NetMsgBusReceiverMgr.hpp\<close>, and the functions of
  \<^verbatim>\<open>src/Core/NetMsgBusUtility.hpp\<close> that hand a message to the local bus. Work given to the thread pool is
  logged in the state. What the handlers of the local bus make of a message (\<open>SendMsg\<close>: whether it was handled,
  and the data and length they leave in the buffer) is an argument.
\<close>

section \<open>State\<close>

definition MAX_SENDMSG_CLIENT_NUM :: int where "MAX_SENDMSG_CLIENT_NUM = 1024"
definition KEEP_ALIVE_TIME :: int where "KEEP_ALIVE_TIME = 120000"
definition RECEIVER_LOOP :: "byte list" where "RECEIVER_LOOP = lit ''evloop_for_netmsgbus''"

record ReceiverMgr =
  m_receiver_running :: bool
  m_receiver_terminate :: bool
  m_sendmsg_clientnum :: int
  m_client_senders :: "int \<Rightarrow> byte list option"
  filter_mgr :: FilterMgr
  rnet :: net_state
  rsp_work :: "(nat \<times> byte list \<times> u32) list"

text \<open>The thread in which the connection's event loop runs the callbacks.\<close>

definition loop_thread :: thread_ctx where
  "loop_thread = \<lparr>in_loop = True, in_write_loop = False\<rparr>"

section \<open>Messages\<close>

text \<open>One complete message (lines 244 to 271): \<open>DisAllowSend\<close> for a connection whose sender is refused.\<close>

definition receiver_message :: "ReceiverMgr \<Rightarrow> nat \<Rightarrow> u32 \<Rightarrow> byte list \<Rightarrow> ReceiverMgr cres" where
  "receiver_message m p sync_sid msgcontent =
     (let fd = m_fd (sock_mem (rnet m) p);
          queue = (\<lambda>m. if sync_sid \<noteq> 0 then m\<lparr>rsp_work := rsp_work m @ [(p, msgcontent, sync_sid)]\<rparr> else m) in
      case m_client_senders m fd of
        Some _ \<Rightarrow> Inr (queue m)
      | None \<Rightarrow>
          cbind (CheckMsgSender (filter_mgr m) msgcontent) (\<lambda>(allowed, sendername).
          if \<not> allowed then
            Inr (m\<lparr>rnet := (rnet m)\<lparr>sock_mem := (sock_mem (rnet m))(p := DisAllowSend loop_thread (sock_mem (rnet m) p))\<rparr>\<rparr>)
          else Inr (queue (m\<lparr>m_client_senders := (m_client_senders m)(fd := sendername)\<rparr>))))"

function receiver_read_loop ::
  "ReceiverMgr \<Rightarrow> nat \<Rightarrow> byte list \<Rightarrow> nat \<Rightarrow> nat \<Rightarrow> nat \<Rightarrow> (nat \<times> ReceiverMgr) cres" where
  "receiver_read_loop m p blk pdata sz readedlen =
     (if sz < 9 then Inr (readedlen, m)
      else
        cbind (load8 blk pdata) (\<lambda>is_sync.
        cbind (load32 blk (pdata + 1)) (\<lambda>sid_n.
        cbind (load32 blk (pdata + 5)) (\<lambda>len_n.
        let sync_sid = htonl sid_n; dlen = unat (htonl len_n); needlen = 9 + dlen in
        if sz < needlen then Inr (readedlen, m)
        else
          cbind (cload blk (pdata + 9) dlen) (\<lambda>msgcontent.
          cbind (receiver_message m p sync_sid msgcontent) (\<lambda>m.
          receiver_read_loop m p blk (pdata + needlen) (sz - needlen) (readedlen + needlen)))))))"
  by pat_completeness auto
termination
  by (relation "measure (\<lambda>(m, p, blk, pdata, sz, readedlen). sz)") auto

declare receiver_read_loop.simps [simp del]

definition receiver_onRead :: "ReceiverMgr \<Rightarrow> nat \<Rightarrow> byte list \<Rightarrow> (nat \<times> ReceiverMgr) cres" where
  "receiver_onRead m p blk = receiver_read_loop m p blk 0 (length blk) 0"

definition receiver_onSend :: "ReceiverMgr \<Rightarrow> nat \<Rightarrow> bool" where
  "receiver_onSend m p = True"

definition receiver_onClose :: "ReceiverMgr \<Rightarrow> nat \<Rightarrow> ReceiverMgr" where
  "receiver_onClose m p =
     m\<lparr>m_sendmsg_clientnum := m_sendmsg_clientnum m - 1,
       m_client_senders := (m_client_senders m)(m_fd (sock_mem (rnet m) p) := None)\<rparr>"

definition receiver_onError :: "ReceiverMgr \<Rightarrow> nat \<Rightarrow> ReceiverMgr" where
  "receiver_onError m p = receiver_onClose m p"

definition receiver_onTimeout :: "ReceiverMgr \<Rightarrow> nat \<Rightarrow> ReceiverMgr" where
  "receiver_onTimeout m p =
     (let m = receiver_onClose m p in
      m\<lparr>rnet := (rnet m)\<lparr>sock_mem := (sock_mem (rnet m))(p := Close loop_thread (sock_mem (rnet m) p) True)\<rparr>\<rparr>)"

section \<open>Handing a message to the local bus\<close>

type_synonym local_bus = "byte list \<Rightarrow> byte list \<Rightarrow> u32 \<Rightarrow> bool \<times> byte list \<times> u32"

text \<open>The answer's block; the length is a 32-bit sum.\<close>

definition rsp_block :: "u32 \<Rightarrow> byte list \<Rightarrow> u32 \<Rightarrow> byte list cres" where
  "rsp_block sync_sid d dlen =
     (let write_len = 4 + 4 + dlen :: u32;
          blk = replicate (unat write_len) 0 in
      cbind (cstore blk 0 (mem32 (htonl sync_sid))) (\<lambda>blk.
      cbind (cstore blk 4 (mem32 (htonl dlen))) (\<lambda>blk.
      cbind (cload d 0 (unat dlen)) (\<lambda>d.
        cstore blk 8 d))))"

definition pool_thread :: thread_ctx where
  "pool_thread = \<lparr>in_loop = False, in_write_loop = False\<rparr>"

definition NetMsgBusRspSendMsg ::
  "FilterMgr \<Rightarrow> local_bus \<Rightarrow> TcpSock \<Rightarrow> byte list \<Rightarrow> u32 \<Rightarrow> TcpSock cres" where
  "NetMsgBusRspSendMsg f bus s content sync_sid =
     cbind (CheckMsgId f content) (\<lambda>(ok, msgid).
     if \<not> ok then Inr s
     else
       cbind (GetMsgParam content) (\<lambda>r.
       case r of
         None \<Rightarrow> Inr s
       | Some (d, dlen) \<Rightarrow>
           let (handled, d, dlen) = bus (the msgid) d dlen;
               dlen = (if \<not> handled then 0 else dlen) in
           cbind (rsp_block sync_sid d dlen) (\<lambda>blk.
           cmap (\<lambda>(_, s, _). s) (SendData pool_thread s (Some blk) []))))"

definition NetMsgBusToLocalMsgBus :: "FilterMgr \<Rightarrow> byte list \<Rightarrow> (byte list \<times> byte list \<times> u32) option cres" where
  "NetMsgBusToLocalMsgBus f content =
     cbind (CheckMsgId f content) (\<lambda>(ok, msgid).
     if \<not> ok then Inr None
     else cmap (map_option (\<lambda>(d, dlen). (the msgid, d, dlen))) (GetMsgParam content))"

section \<open>The listening thread\<close>

text \<open>
  The loop that binds the port (lines 97 to 114); \<open>free\<close> says for which ports \<open>bind\<close> succeeds. The result is the
  port, or \<open>None\<close> when the process exits. The retry counter is tested after \<open>bind\<close>, also when it succeeded.
\<close>

fun bind_loop :: "(u16 \<Rightarrow> bool) \<Rightarrow> nat \<Rightarrow> u16 \<Rightarrow> u16 option" where
  "bind_loop free 0 port = None"
| "bind_loop free (Suc retry) port = (if free port then Some port else bind_loop free retry (port + 1))"

text \<open>
  One round of the accept loop (lines 152 to 199). \<open>conn\<close>: descriptor, address and port of the accepted
  connection, and the members its socket object leaves uninitialised. The second component: whether the loop goes on.
\<close>

definition receiver_accept ::
  "int \<Rightarrow> SockHandler \<Rightarrow> ReceiverMgr \<Rightarrow> int \<Rightarrow> (int \<times> byte list \<times> u16 \<times> int \<times> bool) option \<Rightarrow> (ReceiverMgr \<times> bool) cres" where
  "receiver_accept now callback m retcode conn =
     (if retcode = - 1 then Inr (m, True)
      else if m_receiver_terminate m then Inr (m\<lparr>m_receiver_running := False\<rparr>, False)
      else if retcode = 0 then Inr (m, True)
      else case conn of
        None \<Rightarrow> Inr (m, True)
      | Some (fd, ip, port, e0, r0) \<Rightarrow>
          let m = m\<lparr>m_sendmsg_clientnum := m_sendmsg_clientnum m + 1\<rparr> in
          if m_sendmsg_clientnum m > MAX_SENDMSG_CLIENT_NUM then Inr (m, True)
          else
            let p = next_sock (rnet m);
                s = SetTimeout now (SetSockHandler (new_TcpSock e0 r0 fd ip port) callback) KEEP_ALIVE_TIME in
            cbind (pool_AddTcpSockToLoop pool_thread (loops (rnet m)) ((sock_mem (rnet m))(p := s)) RECEIVER_LOOP p)
              (\<lambda>(_, ep, heap).
              Inr (m\<lparr>rnet := (rnet m)\<lparr>sock_mem := heap, next_sock := p + 1, loops := ep\<rparr>\<rparr>, True)))"

section \<open>Lemmas\<close>

lemma CheckMsgSender_total: "\<exists>allowed name. CheckMsgSender f c = Inr (allowed, name) \<and> (allowed \<longrightarrow> name \<noteq> None)"
  using GetMsgSender_safe [of c] by (auto simp: CheckMsgSender_def is_ok_iff split: option.splits)

text \<open>Which messages identify their sender to the filter's satisfaction.\<close>

definition identifies :: "FilterMgr \<Rightarrow> byte list \<Rightarrow> bool" where
  "identifies f c \<longleftrightarrow> (\<exists>name. GetMsgSender c = Inr (Some name) \<and> FilterBySender f name)"

lemma CheckMsgSender_identifies: "CheckMsgSender f c = Inr (allowed, name) \<Longrightarrow>
    allowed = identifies f c \<and> (allowed \<longrightarrow> GetMsgSender c = Inr name \<and> name \<noteq> None)"
  by (auto simp: CheckMsgSender_def cmap_eq_Inr identifies_def split: option.splits)

lemma DisAllowSend_fd [simp]: "m_fd (DisAllowSend t s) = m_fd s"
  by (simp add: DisAllowSend_def ShutDownWrite_def AddAndUpdateEvent_def log_call_def Let_def)

lemma receiver_message_cases:
  "\<exists>m'. receiver_message m p sid c = Inr m' \<and> m_fd (sock_mem (rnet m') p) = m_fd (sock_mem (rnet m) p) \<and>
     filter_mgr m' = filter_mgr m \<and>
     (if m_client_senders m (m_fd (sock_mem (rnet m) p)) \<noteq> None \<or> identifies (filter_mgr m) c
      then m_client_senders m' (m_fd (sock_mem (rnet m) p)) \<noteq> None \<and>
        rsp_work m' = rsp_work m @ (if sid \<noteq> 0 then [(p, c, sid)] else [])
      else m_client_senders m' = m_client_senders m \<and> rsp_work m' = rsp_work m)"
proof (cases "m_client_senders m (m_fd (sock_mem (rnet m) p))")
  case None
  obtain allowed name where c: "CheckMsgSender (filter_mgr m) c = Inr (allowed, name)"
    using CheckMsgSender_total by blast
  from CheckMsgSender_identifies [OF c] None c show ?thesis
    by (cases allowed) (auto simp: receiver_message_def Let_def)
qed (auto simp: receiver_message_def Let_def)

subsection \<open>A stream of messages\<close>

text \<open>Handling the messages of a stream one after the other.\<close>

fun receive_all :: "ReceiverMgr \<Rightarrow> nat \<Rightarrow> (byte \<times> u32 \<times> byte list) list \<Rightarrow> ReceiverMgr cres" where
  "receive_all m p [] = Inr m"
| "receive_all m p ((flag, sid, c) # fs) = cbind (receiver_message m p sid c) (\<lambda>m. receive_all m p fs)"

lemma post_parse_at:
  assumes "p + 9 \<le> length blk"
  shows "\<exists>flag sid_n len_n. load8 blk p = Inr flag \<and> load32 blk (p + 1) = Inr sid_n \<and> load32 blk (p + 5) = Inr len_n \<and>
    post_parse (drop p blk) = (let n = unat (htonl len_n) in if length blk - p < 9 + n then None
      else Some ((flag, htonl sid_n, take n (drop (p + 9) blk)), 9 + n))"
  using assms by (auto simp: load8_def load32_def cload_def post_parse_def Let_def add.commute take_Suc_conv_app_nth
      hd_drop_conv_nth)

interpretation receiver_reader: stream_reader post_parse "\<lambda>m (flag, sid, c). receiver_message m p sid c"
  "\<lambda>blk k sz n m. receiver_read_loop m p blk k sz n" for p
proof
  fix q n k :: nat and blk :: "byte list" and m f
  assume q: "q \<le> length blk"
  show "receiver_read_loop m p blk q (length blk - q) n = Inr (n, m)" if none: "post_parse (drop q blk) = None"
  proof (cases "length blk - q < 9")
    case False
    then have "q + 9 \<le> length blk" by simp
    from post_parse_at [OF this] none False show ?thesis
      by (subst receiver_read_loop.simps) (auto simp: Let_def split: if_splits)
  qed (simp add: receiver_read_loop.simps)
  show "receiver_read_loop m p blk q (length blk - q) n =
      cbind (case f of (flag, sid, c) \<Rightarrow> receiver_message m p sid c) (\<lambda>m. receiver_read_loop m p blk (q + k) (length blk - (q + k)) (n + k))"
    if fk: "post_parse (drop q blk) = Some (f, k)"
  proof -
    have long: "q + 9 \<le> length blk" using fk q by (auto simp: post_parse_def split: if_splits)
    from post_parse_at [OF this] fk obtain flag sid_n len_n where l: "load8 blk q = Inr flag"
      "load32 blk (q + 1) = Inr sid_n" "load32 blk (q + 5) = Inr len_n" "k = 9 + unat (htonl len_n)"
      "f = (flag, htonl sid_n, take (unat (htonl len_n)) (drop (q + 9) blk))" "k \<le> length blk - q"
      by (auto simp: Let_def split: if_splits)
    then show ?thesis using long
      by (subst receiver_read_loop.simps) (auto simp: cload_def Let_def)
  qed
qed

lemma receive_all_frames: "run_frames (\<lambda>m (flag, sid, c). receiver_message m p sid c) m fs = receive_all m p fs"
  by (induction m p fs rule: receive_all.induct) (auto simp: cbind_def split: sum.splits)

lemma receiver_reader_on_read: "receiver_reader.on_read p = (\<lambda>m. receiver_onRead m p)"
  by (rule ext)+ (simp add: receiver_reader.on_read_def receiver_onRead_def)

text \<open>A connection: each read appends a chunk to the buffered bytes and drops what \<open>receiver_onRead\<close> consumed.\<close>

definition receiver_feed :: "ReceiverMgr \<Rightarrow> nat \<Rightarrow> byte list \<Rightarrow> byte list list \<Rightarrow> (ReceiverMgr \<times> byte list) cres" where
  "receiver_feed m p buf chunks = feed_reader (\<lambda>m. receiver_onRead m p) m buf chunks"

text \<open>The requests of a stream that reach the local bus: from the first message that identifies an allowed sender on.\<close>

definition requests_of :: "nat \<Rightarrow> (byte \<times> u32 \<times> byte list) list \<Rightarrow> (nat \<times> byte list \<times> u32) list" where
  "requests_of p fs = map (\<lambda>(flag, sid, c). (p, c, sid)) (filter (\<lambda>(flag, sid, c). sid \<noteq> 0) fs)"

lemma receive_all_work:
  "\<exists>m'. receive_all m p fs = Inr m' \<and> m_fd (sock_mem (rnet m') p) = m_fd (sock_mem (rnet m) p) \<and>
     rsp_work m' = rsp_work m @ requests_of p
       (if m_client_senders m (m_fd (sock_mem (rnet m) p)) \<noteq> None then fs
        else dropWhile (\<lambda>(flag, sid, c). \<not> identifies (filter_mgr m) c) fs)"
proof (induction fs arbitrary: m)
  case (Cons f fs)
  obtain flag sid c where f: "f = (flag, sid, c)" by (cases f) auto
  obtain m1 where m1: "receiver_message m p sid c = Inr m1" "m_fd (sock_mem (rnet m1) p) = m_fd (sock_mem (rnet m) p)"
     "filter_mgr m1 = filter_mgr m"
     "if m_client_senders m (m_fd (sock_mem (rnet m) p)) \<noteq> None \<or> identifies (filter_mgr m) c
      then m_client_senders m1 (m_fd (sock_mem (rnet m) p)) \<noteq> None \<and>
        rsp_work m1 = rsp_work m @ (if sid \<noteq> 0 then [(p, c, sid)] else [])
      else m_client_senders m1 = m_client_senders m \<and> rsp_work m1 = rsp_work m"
    using receiver_message_cases [of m p sid c] by blast
  obtain m2 where "receive_all m1 p fs = Inr m2" "m_fd (sock_mem (rnet m2) p) = m_fd (sock_mem (rnet m1) p)"
     "rsp_work m2 = rsp_work m1 @ requests_of p
       (if m_client_senders m1 (m_fd (sock_mem (rnet m1) p)) \<noteq> None then fs
        else dropWhile (\<lambda>(flag, sid, c). \<not> identifies (filter_mgr m1) c) fs)"
    using Cons.IH [of m1] by blast
  with m1 f show ?case by (auto simp: requests_of_def split: if_splits)
qed (simp add: requests_of_def)

subsection \<open>Answers\<close>

definition rsp_bytes :: "u32 \<Rightarrow> byte list \<Rightarrow> byte list" where
  "rsp_bytes sid d = be32 sid @ be32 (of_nat (length d)) @ d"

lemma rsp_block_bytes:
  assumes "unat n \<le> length d" "unat n + 8 < 2 ^ 32"
  shows "rsp_block sid d n = Inr (rsp_bytes sid (take (unat n) d))"
proof -
  have l: "unat (8 + n) = 8 + unat n" using assms(2) by (simp add: unat_word_ariths)
  have n: "of_nat (min (length d) (unat n)) = n" using assms(1) by (simp add: min_absorb2)
  have "overlay 0 (rsp_bytes sid (take (unat n) d)) (replicate (8 + unat n) 0) = rsp_bytes sid (take (unat n) d)"
    using assms(1) by (simp add: overlay_def rsp_bytes_def)
  then show ?thesis
    using assms l by (simp add: rsp_block_def cload_def cstore_ok overlay_overlay rsp_bytes_def n)
qed

lemma rsp_parse_bytes:
  assumes "length d < 2 ^ 32"
  shows "rsp_parse (rsp_bytes sid d @ rest) = Some ((sid, d), 8 + length d)"
  using assms by (simp add: rsp_parse_def rsp_bytes_def unat_of_nat Let_def)

subsection \<open>Accepting\<close>

lemma bind_loop_first:
  "bind_loop free n port = (case find (\<lambda>k. free (port + of_nat k)) [0..<n] of None \<Rightarrow> None | Some k \<Rightarrow> Some (port + of_nat k))"
proof (induction n arbitrary: port)
  case (Suc n)
  have u: "[0..<Suc n] = 0 # map Suc [0..<n]" by (simp add: upt_conv_Cons map_Suc_upt del: upt_Suc)
  have "find P (map Suc xs) = map_option Suc (find (\<lambda>k. P (Suc k)) xs)" for P :: "nat \<Rightarrow> bool" and xs
    by (induction xs) auto
  with Suc.IH [of "port + 1"] u show ?case
    by (simp add: add.assoc del: upt_Suc split: option.splits)
qed simp

lemma accept_full:
  assumes "\<not> m_receiver_terminate m" "m_sendmsg_clientnum m \<ge> MAX_SENDMSG_CLIENT_NUM"
  shows "receiver_accept now cb m 1 (Some c) = Inr (m\<lparr>m_sendmsg_clientnum := m_sendmsg_clientnum m + 1\<rparr>, True)"
  using assms by (auto simp: receiver_accept_def Let_def split: prod.splits)

fun accept_many :: "int \<Rightarrow> SockHandler \<Rightarrow> ReceiverMgr \<Rightarrow> (int \<times> byte list \<times> u16 \<times> int \<times> bool) list \<Rightarrow> ReceiverMgr cres" where
  "accept_many now cb m [] = Inr m"
| "accept_many now cb m (c # cs) = cbind (receiver_accept now cb m 1 (Some c)) (\<lambda>(m, _). accept_many now cb m cs)"

lemma accept_many_full:
  "\<not> m_receiver_terminate m \<Longrightarrow> m_sendmsg_clientnum m \<ge> MAX_SENDMSG_CLIENT_NUM \<Longrightarrow>
     accept_many now cb m cs = Inr (m\<lparr>m_sendmsg_clientnum := m_sendmsg_clientnum m + int (length cs)\<rparr>)"
  by (induction cs arbitrary: m) (simp_all add: accept_full algebra_simps)

lemma close_many: "m_sendmsg_clientnum (fold (\<lambda>p m. receiver_onClose m p) ps m) = m_sendmsg_clientnum m - int (length ps) \<and>
    m_receiver_terminate (fold (\<lambda>p m. receiver_onClose m p) ps m) = m_receiver_terminate m"
  by (induction ps arbitrary: m) (simp_all add: receiver_onClose_def)

lemma rsp_sent:
  assumes "length sender < 256" "length msgid < 256" "6 + length sender + length msgid + length d < 2 ^ 32"
    and "FilterByMsgId f msgid" "bus msgid d (of_nat (length d)) = (handled, d', n')"
    and "handled \<longrightarrow> unat n' \<le> length d'" "handled \<longrightarrow> unat n' + 8 \<le> MAX_BUF_SIZE"
    and "\<not> IsClosed s" "Writeable s" "m_evloop s"
  shows "NetMsgBusRspSendMsg f bus s (netmsg_bytes sender msgid d) sid =
    Inr (log_call s (QueueSend (rsp_bytes sid (if handled then take (unat n') d' else []))))"
proof -
  define n where "n = (if handled then n' else 0)"
  have n: "unat n \<le> length d'" "unat n + 8 \<le> MAX_BUF_SIZE" using assms(6,7) by (auto simp: n_def MAX_BUF_SIZE_def BLOCK_SIZE_def)
  have "unat n + 8 < 2 ^ 32" using n(2) by (simp add: MAX_BUF_SIZE_def BLOCK_SIZE_def)
  with n(1) have blk: "rsp_block sid d' n = Inr (rsp_bytes sid (take (unat n) d'))" by (rule rsp_block_bytes)
  have "SendData pool_thread s (Some (rsp_bytes sid (take (unat n) d'))) [] =
      Inr (True, log_call s (QueueSend (rsp_bytes sid (take (unat n) d'))), [])"
    using assms(8-10) n by (simp add: SendData_def pool_thread_def rsp_bytes_def)
  moreover have "take (unat n) d' = (if handled then take (unat n') d' else [])" by (simp add: n_def)
  ultimately show ?thesis
    using GetMsgId_bytes [OF assms(1,2), of d] GetMsgParam_bytes [OF assms(1-3)] assms(4,5) blk
    by (cases handled) (simp_all add: NetMsgBusRspSendMsg_def CheckMsgId_def n_def)
qed

lemma receive_stream:
  "\<exists>m'. receiver_feed m p [] chunks = Inr (m', snd (frames post_parse (concat chunks))) \<and>
     rsp_work m' = rsp_work m @ requests_of p
       (if m_client_senders m (m_fd (sock_mem (rnet m) p)) \<noteq> None then fst (frames post_parse (concat chunks))
        else dropWhile (\<lambda>(flag, sid, c). \<not> identifies (filter_mgr m) c) (fst (frames post_parse (concat chunks))))"
proof -
  obtain fs r where fr: "frames post_parse (concat chunks) = (fs, r)" by (cases "frames post_parse (concat chunks)")
  from receiver_reader.feed_frames [OF parse_empty(2) fr, of p m] receive_all_work [of m p fs] fr show ?thesis
    by (auto simp: receiver_feed_def receiver_reader_on_read receive_all_frames)
qed

section \<open>Properties\<close>

text \<open>
  C23: what reaches the local bus. However the bytes of a connection are cut into reads, the receiver never
  leaves its buffer, handles exactly the complete messages of the stream in order, and gives to its workers
  exactly the requests (messages with a session id) from the first message on that names an allowed sender;
  nothing an unidentified connection sends before is executed.
\<close>

theorem receiver_stream_requests:
  "\<exists>m'. receiver_feed m p [] chunks = Inr (m', snd (frames post_parse (concat chunks))) \<and>
     rsp_work m' = rsp_work m @ requests_of p
       (if m_client_senders m (m_fd (sock_mem (rnet m) p)) \<noteq> None then fst (frames post_parse (concat chunks))
        else dropWhile (\<lambda>(flag, sid, c). \<not> identifies (filter_mgr m) c) (fst (frames post_parse (concat chunks))))"
  by (rule receive_stream)

text \<open>
  an answer on the wire. For a message whose id passes the filter, the worker sends one packet back on the
  connection the request came from; the client's frame format reads the session id and the bytes the handlers
  produced, or an empty result when no handler accepted it.
\<close>

theorem rsp_packet:
  assumes "length sender < 256" "length msgid < 256" "6 + length sender + length msgid + length d < 2 ^ 32"
    and "FilterByMsgId f msgid" "bus msgid d (of_nat (length d)) = (handled, d', n')"
    and "unat n' \<le> length d'" "unat n' + 8 \<le> MAX_BUF_SIZE"
    and "\<not> IsClosed s" "Writeable s" "m_evloop s"
  shows "\<exists>pkt. NetMsgBusRspSendMsg f bus s (netmsg_bytes sender msgid d) sid = Inr (log_call s (QueueSend pkt)) \<and>
    rsp_parse (pkt @ rest) = Some ((sid, if handled then take (unat n') d' else []), length pkt)"
proof -
  let ?r = "if handled then take (unat n') d' else []"
  have "length ?r < 2 ^ 32" using assms(7) by (auto simp: MAX_BUF_SIZE_def BLOCK_SIZE_def)
  then have "rsp_parse (rsp_bytes sid ?r @ rest) = Some ((sid, ?r), length (rsp_bytes sid ?r))"
    by (simp add: rsp_parse_bytes) (simp add: rsp_bytes_def)
  moreover have "NetMsgBusRspSendMsg f bus s (netmsg_bytes sender msgid d) sid = Inr (log_call s (QueueSend (rsp_bytes sid ?r)))"
    using assms by (intro rsp_sent) auto
  ultimately show ?thesis by blast
qed

theorem rsp_packet_witness:
  "\<exists>pkt. NetMsgBusRspSendMsg FilterMgr_init (\<lambda>id d n. (True, rev d, n)) (demo_heap 7) (netmsg_bytes (lit ''a'') (lit ''get'') [1, 2]) 5
      = Inr (log_call (demo_heap 7) (QueueSend pkt)) \<and> rsp_parse (pkt @ [0]) = Some ((5, [2, 1]), length pkt)"
  using rsp_packet [of "lit ''a''" "lit ''get''" "[1, 2]" FilterMgr_init "\<lambda>id d n. (True, rev d, n)" True "[2, 1]" 2 "demo_heap 7" 5 "[0]"]
  by (simp add: lit_def FilterByMsgId_def FilterMgr_init_def MAX_BUF_SIZE_def BLOCK_SIZE_def demo_heap_def new_TcpSock_def
      IsClosed_def Writeable_def)

text \<open>
  the listening port. The receiver tries at most ten ports, starting at the configured one and wrapping
  round at 65536, and uses the first that is free; it exits when none of them is.
\<close>

theorem receiver_bind_first_free:
  "bind_loop free 10 port = map_option (\<lambda>k. port + of_nat k) (find (\<lambda>k. free (port + of_nat k)) [0..<10])"
  by (simp add: bind_loop_first del: upt_conv_Cons_Cons split: option.splits)

text \<open>
  refused connections are counted as connected. When the limit of 1024 connections is reached, every further
  attempt is closed but still increments the counter, which only a close of an accepted connection
  decrements: after as many refusals as the limit and the close of all accepted connections the receiver refuses
  every new connection although none is open.
\<close>

theorem receiver_refusals_exhaust:
  assumes "\<not> m_receiver_terminate m" "m_sendmsg_clientnum m = MAX_SENDMSG_CLIENT_NUM"
    and "int (length closed) = MAX_SENDMSG_CLIENT_NUM" "int (length refused) \<ge> MAX_SENDMSG_CLIENT_NUM"
  shows "\<exists>m1 m2. accept_many now cb m refused = Inr m1 \<and> rnet m1 = rnet m \<and>
    m2 = fold (\<lambda>p m. receiver_onClose m p) closed m1 \<and> m_sendmsg_clientnum m2 = int (length refused) \<and>
    receiver_accept now cb m2 1 (Some c) = Inr (m2\<lparr>m_sendmsg_clientnum := m_sendmsg_clientnum m2 + 1\<rparr>, True)"
proof -
  let ?m1 = "m\<lparr>m_sendmsg_clientnum := m_sendmsg_clientnum m + int (length refused)\<rparr>"
  let ?m2 = "fold (\<lambda>p m. receiver_onClose m p) closed ?m1"
  have m1: "accept_many now cb m refused = Inr ?m1" using assms by (intro accept_many_full) simp_all
  have m2: "m_sendmsg_clientnum ?m2 = int (length refused)" "\<not> m_receiver_terminate ?m2"
    using close_many [of closed ?m1] assms(1-3) by simp_all
  have "receiver_accept now cb ?m2 1 (Some c) = Inr (?m2\<lparr>m_sendmsg_clientnum := m_sendmsg_clientnum ?m2 + 1\<rparr>, True)"
    using m2 assms(4) by (intro accept_full) simp_all
  with m1 m2(1) show ?thesis by fastforce
qed

definition demo_receiver :: ReceiverMgr where
  "demo_receiver = \<lparr>m_receiver_running = True, m_receiver_terminate = False, m_sendmsg_clientnum = 0,
     m_client_senders = Map.empty, filter_mgr = FilterMgr_init, rnet = demo_net, rsp_work = []\<rparr>"

theorem receiver_refusals_exhaust_witness:
  "\<exists>m1 m2. accept_many 0 SockHandler_clear (demo_receiver\<lparr>m_sendmsg_clientnum := 1024\<rparr>) (replicate 1024 (9, [], 0, 0, False)) = Inr m1 \<and>
    m2 = fold (\<lambda>p m. receiver_onClose m p) [0..<1024] m1 \<and>
    receiver_accept 0 SockHandler_clear m2 1 (Some (9, [], 0, 0, False))
      = Inr (m2\<lparr>m_sendmsg_clientnum := m_sendmsg_clientnum m2 + 1\<rparr>, True)"
  using receiver_refusals_exhaust [of "demo_receiver\<lparr>m_sendmsg_clientnum := 1024\<rparr>" "[0..<1024]" "replicate 1024 (9, [], 0, 0, False)"
      0 SockHandler_clear "(9, [], 0, 0, False)"]
  by (auto simp: demo_receiver_def MAX_SENDMSG_CLIENT_NUM_def)

end
