(* ===== verification/Server_Conn.thy ===== *)
theory Server_Conn
  imports Req2Receiver Receiver
begin

text \<open>
  The client's connection to the message bus server, \<^verbatim>\<open>src/Core/NetMsgBusServerConnMgr.hpp\<close>: registering the own
  receiver, asking for addresses and services, relayed messages, and the handlers of what the server sends.

  The connection is a pointer into the sockets of \<open>srv_net\<close>; a request packs its message, sends it and waits for the
  future whose id it used as message id. As in \<open>Req2Receiver\<close>, the future managers a waiting caller sees at its
  wake-ups and at its time-out are arguments, and so are the clock and the bytes an uninitialised object
  holds. Posts to the local bus are logged. Parsing the answer to a service query is the protocol buffer library's,
  the argument \<open>pbparse\<close>.
\<close>

section \<open>State\<close>

record 'cb ServerConnMgr =
  m_server_tcp :: "nat option"
  m_serverip :: "byte list"
  m_serverport :: u16
  m_receiver_ip :: "byte list"
  m_receiver_name :: "byte list"
  m_receiver_port :: u16
  m_server_connecting :: bool
  m_isreceiver_registered :: bool
  srv_futures :: "'cb FutureMgr"
  srv_net :: net_state
  srv_filter :: FilterMgr
  srv_posts :: "(byte list \<times> byte list \<times> u32) list"
  srv_callbacks :: "('cb \<times> nat) list"

definition SERVER_KEEP_ALIVE_TIME :: int where "SERVER_KEEP_ALIVE_TIME = 30000"

text \<open>What an uninitialised message object on the stack holds, and when the caller looks.\<close>

record 'cb srv_env =
  clock :: int
  junk :: "byte list"
  junk_code :: u16
  junk_lens :: "u32 \<times> u32"
  wakes :: "'cb FutureMgr list"
  expired :: "'cb FutureMgr"

section \<open>Sending and waiting\<close>

text \<open>\<open>strncpy(dst, name.c_str(), 64); dst[name.size()] = 0;\<close> on an array of 64 bytes.\<close>

definition copy_name :: "byte list \<Rightarrow> byte list cres" where
  "copy_name name = cbind (strncpy_read MAX_SERVICE_NAME (name @ [0])) (\<lambda>s. cstore s (length name) [0])"

definition srv_send :: "'cb ServerConnMgr \<Rightarrow> byte list \<Rightarrow> (bool \<times> 'cb ServerConnMgr) cres" where
  "srv_send m blk =
     (case m_server_tcp m of
        None \<Rightarrow> Inl AssertFailed
      | Some p \<Rightarrow>
          cbind (SendData worker (sock_mem (srv_net m) p) (Some blk) []) (\<lambda>(sent, s, _).
            Inr (sent, m\<lparr>srv_net := (srv_net m)\<lparr>sock_mem := (sock_mem (srv_net m))(p := s)\<rparr>\<rparr>)))"

text \<open>\<open>future.second->get(SERVER_CALL_TIMEOUT, rsp)\<close>, then \<open>has_err()\<close>.\<close>

definition srv_wait :: "'cb srv_env \<Rightarrow> 'cb ServerConnMgr \<Rightarrow> nat \<Rightarrow> (bool \<times> bool \<times> byte list) \<times> 'cb ServerConnMgr" where
  "srv_wait env m q =
     (case future_wait (srv_futures m) q (wakes env) (expired env) of (ok, fm) \<Rightarrow>
        ((ok, has_error (fut_heap fm ! q), if ok then rsp_content (fut_heap fm ! q) else lit ''wait time out.''),
         m\<lparr>srv_futures := fm\<rparr>))"

section \<open>Requests\<close>

definition RegisterNetMsgBusReceiver ::
  "'cb srv_env \<Rightarrow> 'cb ServerConnMgr \<Rightarrow> byte list \<Rightarrow> u16 \<Rightarrow> byte list \<Rightarrow> u32 \<Rightarrow> (bool \<times> 'cb ServerConnMgr) cres" where
  "RegisterNetMsgBusReceiver env m clientip clientport cname busy_state =
     (let m = m\<lparr>m_receiver_ip := clientip, m_receiver_port := clientport, m_receiver_name := cname\<rparr> in
      if \<not> m_server_connecting m then Inr (False, m)
      else
        let host = (if clientip \<noteq> [] then set_ip ClientHost_default clientip else ClientHost_default);
            host = set_state (set_port host clientport) busy_state in
        cbind (safe_insert_future (clock env) (srv_futures m) None) (\<lambda>((i, q), fm).
        let m = m\<lparr>srv_futures := fm\<rparr> in
        if length cname \<ge> MAX_SERVICE_NAME then Inl AssertFailed
        else
          cbind (copy_name cname) (\<lambda>name.
          let reg_req = (new_MsgBusRegisterReq (junk env))\<lparr>msg_id := i, rreq_service_name := name, rreq_service_host := host\<rparr> in
          cbind (RegisterReq_PackData reg_req (replicate (unat (RegisterReq_Size reg_req)) 0) 0 0) (\<lambda>(outbuffer, _).
          cbind (srv_send m outbuffer) (\<lambda>(sent, m).
          if \<not> sent then Inr (False, m)
          else case srv_wait env m q of ((ok, err, rsp), m) \<Rightarrow> Inr (ok \<and> \<not> err \<and> rsp \<noteq> [], m))))))"

definition UnRegisterNetMsgBusReceiver :: "'cb srv_env \<Rightarrow> 'cb ServerConnMgr \<Rightarrow> (bool \<times> 'cb ServerConnMgr) cres" where
  "UnRegisterNetMsgBusReceiver env m =
     (if \<not> m_server_connecting m then Inr (False, m)
      else
        cbind (copy_name (m_receiver_name m)) (\<lambda>name.
        let host = (if m_receiver_ip m \<noteq> [] then set_ip ClientHost_default (m_receiver_ip m) else ClientHost_default);
            host = set_port host (m_receiver_port m);
            unreg_req = (new_MsgBusUnRegisterReq (junk env))\<lparr>ureq_service_name := name, ureq_service_host := host\<rparr> in
        cbind (UnRegisterReq_PackData unreg_req (replicate (unat (UnRegisterReq_Size unreg_req)) 0) 0 0) (\<lambda>(outbuffer, _).
        cbind (srv_send m outbuffer) (\<lambda>(success, m).
          Inr (success, if success then m\<lparr>m_isreceiver_registered := False\<rparr> else m)))))"

definition UpdateReceiverBusyState :: "'cb srv_env \<Rightarrow> 'cb ServerConnMgr \<Rightarrow> u32 \<Rightarrow> (bool \<times> 'cb ServerConnMgr) cres" where
  "UpdateReceiverBusyState env m busy_state =
     (if \<not> m_isreceiver_registered m then Inr (False, m)
      else RegisterNetMsgBusReceiver env m (m_receiver_ip m) (m_receiver_port m) (m_receiver_name m) busy_state)"

definition PostNetMsgUseServerRelay ::
  "'cb srv_env \<Rightarrow> 'cb ServerConnMgr \<Rightarrow> byte list \<Rightarrow> u32 \<Rightarrow> byte list option \<Rightarrow> (bool \<times> 'cb ServerConnMgr) cres" where
  "PostNetMsgUseServerRelay env m cname dlen pdata =
     (if \<not> m_server_connecting m then Inr (False, m)
      else if length cname \<ge> MAX_SERVICE_NAME then Inl AssertFailed
      else
        cbind (copy_name cname) (\<lambda>dest.
        cbind (copy_name (m_receiver_name m)) (\<lambda>from.
        cbind (safe_insert_future (clock env) (srv_futures m) None) (\<lambda>((i, q), fm).
        let m = m\<lparr>srv_futures := fm\<rparr>;
            sendmsg_req = (new_MsgBusSendMsgReq (junk env) (junk env))
              \<lparr>smreq_dest_name := dest, smreq_from_name := from, msg_id := i, smreq_msg_len := dlen\<rparr>;
            sendmsg_req = SendMsgReq_SetVarData sendmsg_req pdata in
        cbind (SendMsgReq_PackData sendmsg_req (replicate (unat (SendMsgReq_Size sendmsg_req)) 0) 0 0) (\<lambda>(req_data, _).
        cbind (srv_send m req_data) (\<lambda>(sent, m).
        if \<not> sent then Inr (False, m)
        else case srv_wait env m q of ((ok, err, rsp), m) \<Rightarrow> Inr (ok \<and> \<not> err, m)))))))"

text \<open>
  \<open>ReqReceiverInfo\<close>; with a callback it returns after sending, without one it waits and unpacks the
  address (\<open>None\<close>: the return value false, or no address with a callback). \<open>GetClientRsp\<close> with a host that has
  no address yields an empty ip string.
\<close>

definition ReqReceiverInfo ::
  "'cb srv_env \<Rightarrow> 'cb ServerConnMgr \<Rightarrow> byte list \<Rightarrow> 'cb option \<Rightarrow> ((bool \<times> LocalHostInfo option) \<times> 'cb ServerConnMgr) cres" where
  "ReqReceiverInfo env m cname cb =
     (if \<not> m_server_connecting m then Inr ((False, None), m)
      else
        cbind (safe_insert_future (clock env) (srv_futures m) cb) (\<lambda>((i, q), fm).
        let m = m\<lparr>srv_futures := fm\<rparr> in
        if length cname \<ge> MAX_SERVICE_NAME then Inl AssertFailed
        else
          cbind (copy_name cname) (\<lambda>name.
          let req = (new_MsgBusGetClientReq (junk env))\<lparr>msg_id := i, gcreq_dest_name := name\<rparr> in
          cbind (GetClientReq_PackData req (replicate (unat (GetClientReq_Size req)) 0) 0 0) (\<lambda>(req_data, _).
          cbind (srv_send m req_data) (\<lambda>(sent, m).
          if \<not> sent then Inr ((False, None), m)
          else case cb of
            Some _ \<Rightarrow> Inr ((True, None), m)
          | None \<Rightarrow>
              (case srv_wait env m q of ((ok, err, rspdata), m) \<Rightarrow>
                if \<not> ok \<or> err \<or> rspdata = [] then Inr ((False, None), m)
                else
                  cbind (GetClientRsp_UnPackBody (new_MsgBusGetClientRsp (junk_code env) (junk env)) rspdata 0 (length rspdata)) (\<lambda>(_, rsp).
                  cbind (string_of_cstr (gcrsp_dest_name rsp)) (\<lambda>_.
                  if gcrsp_ret_code rsp = 0
                  then Inr ((True, Some (host_ip (gcrsp_dest_host rsp), host_port (gcrsp_dest_host rsp))), m)
                  else Inr ((False, None), m)))))))))"

definition ReqReceiverInfo_cb :: "'cb srv_env \<Rightarrow> 'cb ServerConnMgr \<Rightarrow> byte list \<Rightarrow> 'cb option \<Rightarrow> (bool \<times> 'cb ServerConnMgr) cres" where
  "ReqReceiverInfo_cb env m cname cb =
     (case cb of None \<Rightarrow> Inr (False, m) | Some _ \<Rightarrow> cmap (\<lambda>((r, _), m). (r, m)) (ReqReceiverInfo env m cname cb))"

text \<open>\<open>serialize\<close> is the library's encoding of the query for a string.\<close>

definition QueryAvailableServices ::
  "'cb srv_env \<Rightarrow> (byte list \<Rightarrow> byte list) \<Rightarrow> 'cb ServerConnMgr \<Rightarrow> byte list \<Rightarrow> ((bool \<times> byte list) \<times> 'cb ServerConnMgr) cres" where
  "QueryAvailableServices env serialize m match_str =
     (if \<not> m_server_connecting m then Inr ((False, []), m)
      else
        cbind (safe_insert_future (clock env) (srv_futures m) None) (\<lambda>((i, q), fm).
        let m = m\<lparr>srv_futures := fm\<rparr>;
            pbtype = lit ''NetMsgBus.PBQueryServicesReq'' @ [0];
            pbdata = serialize match_str;
            services_query = (new_MsgBusPackPBType (fst (junk_lens env)) (snd (junk_lens env)))
              \<lparr>msg_id := i, pb_pbtype_len := of_nat (length pbtype), pb_pbdata_len := of_nat (length pbdata)\<rparr>;
            services_query = PBType_SetVarData services_query (Some pbtype) (Some pbdata) in
        cbind (PBType_PackData services_query (replicate (unat (PBType_Size services_query)) 0) 0 0) (\<lambda>(req_data, _).
        cbind (srv_send m req_data) (\<lambda>(sent, m).
        if \<not> sent then Inr ((False, []), m)
        else case srv_wait env m q of ((ok, err, rsp), m) \<Rightarrow> Inr ((ok \<and> \<not> err, rsp), m)))))"

section \<open>What the server sends\<close>

text \<open>An answer for a future, or an error for it.\<close>

definition srv_answer :: "'cb ServerConnMgr \<Rightarrow> u32 \<Rightarrow> byte list \<Rightarrow> 'cb ServerConnMgr" where
  "srv_answer m sid d =
     (case answer_future (srv_futures m) sid d of (c, fm) \<Rightarrow>
        m\<lparr>srv_futures := fm, srv_callbacks := srv_callbacks m @ (case c of None \<Rightarrow> [] | Some x \<Rightarrow> [x])\<rparr>)"

definition srv_error :: "'cb ServerConnMgr \<Rightarrow> u32 \<Rightarrow> byte list option \<Rightarrow> 'cb ServerConnMgr cres" where
  "srv_error m sid errmsg =
     (case safe_get_future (srv_futures m) sid True of
        (None, fm) \<Rightarrow> Inr (m\<lparr>srv_futures := fm\<rparr>)
      | (Some q, fm) \<Rightarrow>
          (case errmsg of None \<Rightarrow> Inl NullPointer | Some e \<Rightarrow>
            cbind (string_of_cstr e) (\<lambda>e.
            let (f, cb) = set_error (fut_heap fm ! q) e in
            Inr (m\<lparr>srv_futures := fm\<lparr>fut_heap := (fut_heap fm)[q := f]\<rparr>,
                   srv_callbacks := srv_callbacks m @ (case cb of None \<Rightarrow> [] | Some c \<Rightarrow> [(c, q)])\<rparr>))))"

text \<open>\<open>m_server_tcp->DisAllowSend()\<close>, without a check, in the thread of the connection's event loop.\<close>

definition srv_disallow :: "'cb ServerConnMgr \<Rightarrow> 'cb ServerConnMgr cres" where
  "srv_disallow m =
     (case m_server_tcp m of
        None \<Rightarrow> Inl NullPointer
      | Some p \<Rightarrow> Inr (m\<lparr>srv_net := (srv_net m)\<lparr>sock_mem := (sock_mem (srv_net m))(p := DisAllowSend loop_thread (sock_mem (srv_net m) p))\<rparr>\<rparr>))"

definition HandleRspConfirmAlive :: "'cb ServerConnMgr \<Rightarrow> u32 \<Rightarrow> byte list \<Rightarrow> 'cb ServerConnMgr cres" where
  "HandleRspConfirmAlive m mid rsp_body =
     cbind (ConfirmAliveRsp_UnPackBody new_MsgBusConfirmAliveRsp rsp_body 0 0) (\<lambda>_. Inr m)"

definition HandleRspRegister :: "'cb srv_env \<Rightarrow> 'cb ServerConnMgr \<Rightarrow> u32 \<Rightarrow> byte list \<Rightarrow> 'cb ServerConnMgr cres" where
  "HandleRspRegister env m mid rsp_body =
     cbind (RegisterRsp_UnPackBody (new_MsgBusRegisterRsp (junk_code env) (junk env)) rsp_body 0 (length rsp_body)) (\<lambda>(_, reg_rsp).
     cbind (strncpy_read MAX_SERVICE_NAME (rrsp_service_name reg_rsp)) (\<lambda>_.
     cbind (if rrsp_ret_code reg_rsp = 0 then
              cbind (string_of_cstr (rrsp_service_name reg_rsp)) (\<lambda>name.
                Inr (m\<lparr>m_isreceiver_registered := True, m_receiver_name := name\<rparr>))
            else srv_disallow (m\<lparr>m_isreceiver_registered := False\<rparr>)) (\<lambda>m.
     if m_isreceiver_registered m then
       if fst (safe_get_future (srv_futures m) mid True) = None then Inr m
       else cbind (string_of_cstr (rrsp_service_name reg_rsp)) (\<lambda>name. Inr (srv_answer m mid name))
     else srv_error m mid (rrsp_err_msg reg_rsp))))"

definition HandleRspGetClient_srv :: "'cb srv_env \<Rightarrow> 'cb ServerConnMgr \<Rightarrow> u32 \<Rightarrow> byte list \<Rightarrow> 'cb ServerConnMgr cres" where
  "HandleRspGetClient_srv env m mid rsp_body =
     cbind (GetClientRsp_UnPackBody (new_MsgBusGetClientRsp (junk_code env) (junk env)) rsp_body 0 0) (\<lambda>(_, rsp).
     if gcrsp_ret_code rsp = 0 \<and> rsp_body = [] then Inl AssertFailed
     else Inr (srv_answer m mid rsp_body))"

definition HandleRspSendMsg :: "'cb srv_env \<Rightarrow> 'cb ServerConnMgr \<Rightarrow> u32 \<Rightarrow> byte list \<Rightarrow> 'cb ServerConnMgr cres" where
  "HandleRspSendMsg env m mid rsp_body =
     cbind (SendMsgRsp_UnPackBody (new_MsgBusSendMsgRsp (junk_code env)) rsp_body 0 (length rsp_body)) (\<lambda>(_, rsp).
     if smrsp_ret_code rsp \<noteq> 0 then
       (case smrsp_err_msg rsp of
          None \<Rightarrow> Inl NullPointer
        | Some e \<Rightarrow> cbind (string_of_cstr e) (\<lambda>_. srv_error m mid (Some e)))
     else Inr (srv_answer m mid (lit ''success'')))"

text \<open>
  A message relayed by the server. \<open>std::string(GetMsgContent(), msg_len)\<close> reads from a null pointer when the body
  could not be unpacked; what passes the filters is posted to the local bus.
\<close>

definition HandleReqSendMsg :: "'cb srv_env \<Rightarrow> 'cb ServerConnMgr \<Rightarrow> u32 \<Rightarrow> byte list \<Rightarrow> 'cb ServerConnMgr cres" where
  "HandleReqSendMsg env m mid rsp_body =
     cbind (SendMsgReq_UnPackBody (new_MsgBusSendMsgReq (junk env) (junk env)) rsp_body 0 (length rsp_body)) (\<lambda>(_, req).
     cbind (string_of_cstr (smreq_from_name req)) (\<lambda>from.
     if \<not> FilterBySender (srv_filter m) from then Inr m
     else
       cbind (memcpy_ptr (unat (smreq_msg_len req)) (smreq_msg_content req)) (\<lambda>msg_str.
       cbind (NetMsgBusToLocalMsgBus (srv_filter m) msg_str) (\<lambda>r.
         Inr (case r of None \<Rightarrow> m | Some p \<Rightarrow> m\<lparr>srv_posts := srv_posts m @ [p]\<rparr>)))))"

definition HandleRspUnRegister :: "'cb ServerConnMgr \<Rightarrow> u32 \<Rightarrow> byte list \<Rightarrow> 'cb ServerConnMgr cres" where
  "HandleRspUnRegister m mid rsp_body = srv_disallow m"

definition HandleQueryServicesRsp :: "'cb ServerConnMgr \<Rightarrow> u32 \<Rightarrow> byte list list \<Rightarrow> 'cb ServerConnMgr" where
  "HandleQueryServicesRsp m mid names = srv_answer m mid (concat (map (\<lambda>n. n @ lit '','') names))"

definition HandleRspPBBody ::
  "'cb srv_env \<Rightarrow> (byte list \<Rightarrow> byte list list option) \<Rightarrow> 'cb ServerConnMgr \<Rightarrow> u32 \<Rightarrow> byte list \<Rightarrow> 'cb ServerConnMgr cres" where
  "HandleRspPBBody env pbparse m mid rsp_body =
     cbind (PBType_UnPackBody (new_MsgBusPackPBType (fst (junk_lens env)) (snd (junk_lens env))) rsp_body 0 (length rsp_body)) (\<lambda>(_, pbpack).
     case pb_pbtype pbpack of None \<Rightarrow> Inl NullPointer | Some t \<Rightarrow>
     cbind (string_of_cstr t) (\<lambda>pbtype.
     cbind (memcpy_ptr (unat (pb_pbdata_len pbpack)) (pb_pbdata pbpack)) (\<lambda>pbdata.
     if pbtype = lit ''NetMsgBus.PBQueryServicesRsp'' then
       (case pbparse pbdata of Some names \<Rightarrow> Inr (HandleQueryServicesRsp m mid names) | None \<Rightarrow> Inr m)
     else Inr m)))"

text \<open>The dispatch over the table the constructor fills; the flag is the return value.\<close>

definition ProcessRspBody ::
  "'cb srv_env \<Rightarrow> (byte list \<Rightarrow> byte list list option) \<Rightarrow> 'cb ServerConnMgr \<Rightarrow> u32 \<Rightarrow> u32 \<Rightarrow> byte list \<Rightarrow> (bool \<times> 'cb ServerConnMgr) cres" where
  "ProcessRspBody env pbparse m mid btype rsp_body =
     (if btype = RSP_REGISTER then cmap (Pair True) (HandleRspRegister env m mid rsp_body)
      else if btype = RSP_GETCLIENT then cmap (Pair True) (HandleRspGetClient_srv env m mid rsp_body)
      else if btype = RSP_SENDMSG then cmap (Pair True) (HandleRspSendMsg env m mid rsp_body)
      else if btype = RSP_UNREGISTER then cmap (Pair True) (HandleRspUnRegister m mid rsp_body)
      else if btype = REQ_SENDMSG then cmap (Pair True) (HandleReqSendMsg env m mid rsp_body)
      else if btype = RSP_CONFIRM_ALIVE then cmap (Pair True) (HandleRspConfirmAlive m mid rsp_body)
      else if btype = BODY_PBTYPE then cmap (Pair True) (HandleRspPBBody env pbparse m mid rsp_body)
      else Inr (False, m))"

function ServerRsp_loop ::
  "'cb srv_env \<Rightarrow> (byte list \<Rightarrow> byte list list option) \<Rightarrow> byte list \<Rightarrow> nat \<Rightarrow> nat \<Rightarrow> nat \<Rightarrow> 'cb ServerConnMgr \<Rightarrow> (nat \<times> 'cb ServerConnMgr) cres" where
  "ServerRsp_loop env pbparse blk pdata sz readedlen m =
     (if sz < 16 then Inr (readedlen, m)
      else
        cbind (UnPackHead (new_MsgBusPackHead_raw 0) blk pdata 0) (\<lambda>(r, head).
        if r = - 1 then Inr (sz, m)
        else
          let needlen = 16 + unat (body_len head) in
          if sz < needlen then Inr (readedlen, m)
          else
            cbind (cload blk (pdata + 16) (unat (body_len head))) (\<lambda>body.
            cbind (ProcessRspBody env pbparse m (msg_id head) (body_type head) body) (\<lambda>(_, m).
            ServerRsp_loop env pbparse blk (pdata + needlen) (sz - needlen) (readedlen + needlen) m))))"
  by pat_completeness auto
termination
  by (relation "measure (\<lambda>(env, pbparse, blk, pdata, sz, readedlen, m). sz)") auto

declare ServerRsp_loop.simps [simp del]

definition ServerRspProcess ::
  "'cb srv_env \<Rightarrow> (byte list \<Rightarrow> byte list list option) \<Rightarrow> 'cb ServerConnMgr \<Rightarrow> byte list \<Rightarrow> (nat \<times> 'cb ServerConnMgr) cres" where
  "ServerRspProcess env pbparse m blk = ServerRsp_loop env pbparse blk 0 (length blk) 0 m"

section \<open>The connection\<close>

definition onServerSendReady :: "'cb ServerConnMgr \<Rightarrow> bool \<times> 'cb ServerConnMgr" where
  "onServerSendReady m = (True, m\<lparr>srv_posts := srv_posts m @ [(lit ''netmsgbus.server.reqdata.sendfinished'', [0], 1)]\<rparr>)"

definition onServerTcpClose :: "'cb ServerConnMgr \<Rightarrow> 'cb ServerConnMgr" where
  "onServerTcpClose m = m\<lparr>m_server_connecting := False, m_server_tcp := None\<rparr>"

definition onServerTcpError :: "'cb ServerConnMgr \<Rightarrow> 'cb ServerConnMgr" where
  "onServerTcpError m = m\<lparr>m_server_connecting := False, m_server_tcp := None\<rparr>"

text \<open>The heartbeat of connection \<open>p\<close>.\<close>

definition onServerTimeout :: "'cb ServerConnMgr \<Rightarrow> nat \<Rightarrow> 'cb ServerConnMgr cres" where
  "onServerTimeout m p =
     (let req = new_MsgBusConfirmAliveReq\<lparr>careq_alive_flag := 0\<rparr> in
      cbind (ConfirmAliveReq_PackData req (replicate (unat (ConfirmAliveReq_Size req)) 0) 0 0) (\<lambda>(buf, _).
      cbind (SendData loop_thread (sock_mem (srv_net m) p) (Some buf) []) (\<lambda>(_, s, _).
        Inr (m\<lparr>srv_net := (srv_net m)\<lparr>sock_mem := (sock_mem (srv_net m))(p := s)\<rparr>\<rparr>))))"

definition server_callbacks :: "(byte list \<Rightarrow> nat) \<Rightarrow> SockHandler" where
  "server_callbacks consumed =
     \<lparr>onRead = Some consumed, onSend = Some True, onClose = True, onError = True, onTimeout = True\<rparr>"

definition StartServerCommunicateLoop ::
  "thread_ctx \<Rightarrow> int \<Rightarrow> conn_attempt \<Rightarrow> (byte list \<Rightarrow> nat) \<Rightarrow> 'cb ServerConnMgr \<Rightarrow> byte list \<Rightarrow> u16 \<Rightarrow> (bool \<times> 'cb ServerConnMgr) cres" where
  "StartServerCommunicateLoop t now a consumed m serverip serverport =
     (if m_server_connecting m then Inr (True, m)
      else
        let p = next_sock (srv_net m);
            m = m\<lparr>m_serverip := serverip, m_serverport := serverport, m_server_tcp := Some p\<rparr> in
        cbind (Connect t (new_TcpSock_unconnected (fst (ca_uninit a)) (snd (ca_uninit a))) serverip serverport
            (ca_fd a) (ca_connect a) (ca_select a) (ca_sockerr a) (ca_errno a)) (\<lambda>(connected, tcp).
        let ns = (srv_net m)\<lparr>sock_mem := (sock_mem (srv_net m))(p := tcp), next_sock := p + 1\<rparr> in
        if \<not> connected then Inr (False, m\<lparr>srv_net := ns\<rparr>)
        else
          let ns = ns\<lparr>sock_mem := (sock_mem ns)(p := SetTimeout now (SetSockHandler tcp (server_callbacks consumed)) SERVER_KEEP_ALIVE_TIME)\<rparr> in
          cbind (pool_AddTcpSockToLoop t (loops ns) (sock_mem ns) NETMSGBUS_EVLOOP_NAME p) (\<lambda>(_, ep, heap).
            Inr (True, m\<lparr>m_server_connecting := True, srv_net := ns\<lparr>loops := ep, sock_mem := heap\<rparr>\<rparr>))))"

definition StopServerConnection :: "thread_ctx \<Rightarrow> 'cb srv_env \<Rightarrow> 'cb ServerConnMgr \<Rightarrow> 'cb ServerConnMgr cres" where
  "StopServerConnection t env m =
     cbind (UnRegisterNetMsgBusReceiver env m) (\<lambda>(_, m).
     let m = (case m_server_tcp m of
                Some p \<Rightarrow> m\<lparr>srv_net := (srv_net m)\<lparr>sock_mem := (sock_mem (srv_net m))(p := DisAllowSend t (sock_mem (srv_net m) p))\<rparr>\<rparr>
              | None \<Rightarrow> m) in
     Inr (m\<lparr>m_server_connecting := False, m_server_tcp := None\<rparr>))"

end
