(* ===== verification/Server_Conn_Props.thy ===== *)
theory Server_Conn_Props
  imports Server_Conn Server_Theorems
begin

text \<open>
  The client's connection to the server: packets of the server reach the handlers as sent, and what a request does while
  it waits for the answer of its session.
\<close>

section \<open>Packets\<close>

text \<open>A packet goes to the handler of its type.\<close>

definition srv_frame :: "'cb srv_env \<Rightarrow> (byte list \<Rightarrow> byte list list option) \<Rightarrow> 'cb ServerConnMgr \<Rightarrow> MsgBusPackHead \<times> byte list \<Rightarrow> 'cb ServerConnMgr cres" where
  "srv_frame env pb m f = cmap snd (ProcessRspBody env pb m (msg_id (fst f)) (body_type (fst f)) (snd f))"

interpretation srv_reader: stream_reader bus_parse "srv_frame env pb" "ServerRsp_loop env pb" for env pb
proof
  fix p n k :: nat and blk :: "byte list" and s f
  assume p: "p \<le> length blk"
  show "ServerRsp_loop env pb blk p (length blk - p) n s = Inr (n, s)" if none: "bus_parse (drop p blk) = None"
  proof (cases "length blk - p < 16")
    case False
    from bus_parse_None [OF p none False] obtain head where
      "UnPackHead (new_MsgBusPackHead_raw 0) blk p 0 = Inr (12, head)" "length blk - p < 16 + unat (body_len head)" .
    with False show ?thesis by (subst ServerRsp_loop.simps) (simp add: Let_def)
  qed (simp add: ServerRsp_loop.simps)
  show "ServerRsp_loop env pb blk p (length blk - p) n s =
      cbind (srv_frame env pb s f) (\<lambda>s. ServerRsp_loop env pb blk (p + k) (length blk - (p + k)) (n + k) s)"
    if fk: "bus_parse (drop p blk) = Some (f, k)"
  proof -
    from bus_parse_Some [OF p fk] obtain head where "UnPackHead (new_MsgBusPackHead_raw 0) blk p 0 = Inr (12, head)" "\<not> length blk - p < 16"
      "k = 16 + unat (body_len head)" "k \<le> length blk - p" "f = (head, take (unat (body_len head)) (drop (p + 16) blk))" .
    then show ?thesis
      by (subst ServerRsp_loop.simps, cases "ProcessRspBody env pb s (msg_id head) (body_type head) (snd f)")
        (auto simp: Let_def srv_frame_def cload_def)
  qed
qed

lemma srv_reader_on_read: "srv_reader.on_read env pb = ServerRspProcess env pb"
  by (rule ext)+ (simp add: srv_reader.on_read_def ServerRspProcess_def)

text \<open>The connection's buffer over a sequence of reads.\<close>

definition srv_feed ::
  "'cb srv_env \<Rightarrow> (byte list \<Rightarrow> byte list list option) \<Rightarrow> 'cb ServerConnMgr \<Rightarrow> byte list \<Rightarrow> byte list list \<Rightarrow> ('cb ServerConnMgr \<times> byte list) cres" where
  "srv_feed env pb m buf chunks = feed_reader (ServerRspProcess env pb) m buf chunks"

text \<open>
  C25: what the server sends. However the bytes of the connection to the server are cut into reads, exactly the
  packets of the byte stream are dispatched, in order, each to the handler of its type with the body its
  head announces, and the incomplete rest is kept.
\<close>

theorem srv_stream:
  "srv_feed env pb m [] chunks =
     (let (packets, rest) = frames bus_parse (concat chunks) in cmap (\<lambda>m. (m, rest)) (run_frames (srv_frame env pb) m packets))"
  by (cases "frames bus_parse (concat chunks)") (simp add: srv_feed_def srv_reader_on_read [symmetric] srv_reader.feed_frames parse_empty)

lemma bus_parse_packet:
  fixes h :: "'a MsgBusPackHead_scheme"
  assumes "unat (body_len h) = length body"
  shows "\<exists>head. bus_parse (head_bytes h @ body @ rest) = Some ((head, body), 16 + length body) \<and>
    msg_type head = msg_type h \<and> msg_id head = msg_id h \<and> body_type head = body_type h \<and> body_len head = body_len h"
proof -
  let ?h = "\<lparr>magic = magic h, version = version h, msg_type = msg_type h, msg_id = msg_id h, body_type = body_type h, body_len = body_len h\<rparr>"
  have hb: "head_bytes h = head_bytes ?h" by (simp add: head_bytes_def)
  have "UnPackHead (new_MsgBusPackHead_raw 0) (head_bytes ?h @ body @ rest) 0 0 = Inr (12, copy_head (new_MsgBusPackHead_raw 0) ?h)"
    by (rule UnPackHead_holds) (simp_all add: holds_at_def)
  with assms show ?thesis unfolding hb by (simp add: bus_parse_def)
qed

lemma one_packet:
  fixes h :: "'a MsgBusPackHead_scheme"
  assumes "unat (body_len h) = length body"
  shows "\<exists>head. frames bus_parse (head_bytes h @ body) = ([(head, body)], []) \<and>
    msg_type head = msg_type h \<and> msg_id head = msg_id h \<and> body_type head = body_type h \<and> body_len head = body_len h"
proof -
  obtain head where p: "bus_parse (head_bytes h @ body) = Some ((head, body), 16 + length body)"
    and e: "msg_type head = msg_type h" "msg_id head = msg_id h" "body_type head = body_type h" "body_len head = body_len h"
    using bus_parse_packet [OF assms, of "[]"] by auto
  have "frames bus_parse (head_bytes h @ body) = ([(head, body)], [])"
    using bus_frames.frames_step [OF p] by (simp add: frames_def)
  with e show ?thesis by blast
qed

section \<open>Names\<close>

lemma copy_name_ok:
  assumes "length name < 64"
  shows "copy_name name = Inr (cpad 64 (cstr name))"
proof -
  have n: "64 \<le> length (name @ [0]) \<or> 0 \<in> set (name @ [0])" by simp
  have "strncpy_read MAX_SERVICE_NAME (name @ [0]) = Inr (cpad 64 (cstr (name @ [0])))"
    using n by (simp add: strncpy_read_eq MAX_SERVICE_NAME_def)
  moreover have "cstr (name @ [0]) = cstr name" by (simp add: cstr_def takeWhile_tail)
  moreover have "length (cstr name) \<le> length name" by (simp add: cstr_def length_takeWhile_le)
  then have "length name < length (cpad 64 (cstr name))" "cpad 64 (cstr name) ! length name = 0"
    using assms by (auto simp: cpad_def nth_append)
  then have "cstore (cpad 64 (cstr name)) (length name) [0] = Inr (cpad 64 (cstr name))"
    using upd_conv_take_nth_drop [of "length name" "cpad 64 (cstr name)" 0] list_update_id [of "cpad 64 (cstr name)" "length name"]
    by (simp add: cstore_def overlay_def)
  ultimately show ?thesis by (simp add: copy_name_def)
qed

lemma copy_name_long:
  assumes "64 \<le> length name"
  shows "copy_name name = Inl OutOfBounds"
proof -
  obtain s where "strncpy_read MAX_SERVICE_NAME (name @ [0]) = Inr s" "length s = 64"
    using assms by (simp add: strncpy_read_eq MAX_SERVICE_NAME_def)
  with assms show ?thesis by (simp add: copy_name_def cstore_def)
qed

section \<open>Sending a request and getting its answer\<close>

definition conn_ready :: "'cb ServerConnMgr \<Rightarrow> nat \<Rightarrow> bool" where
  "conn_ready m p \<longleftrightarrow> m_server_connecting m \<and> m_server_tcp m = Some p \<and> \<not> IsClosed (sock_mem (srv_net m) p) \<and>
     Writeable (sock_mem (srv_net m) p) \<and> m_evloop (sock_mem (srv_net m) p)"

definition queue_on :: "'cb ServerConnMgr \<Rightarrow> nat \<Rightarrow> byte list \<Rightarrow> 'cb ServerConnMgr" where
  "queue_on m p blk = m\<lparr>srv_net := (srv_net m)\<lparr>sock_mem := (sock_mem (srv_net m))(p := log_call (sock_mem (srv_net m) p) (QueueSend blk))\<rparr>\<rparr>"

lemma srv_send_ok:
  assumes "conn_ready m p" "0 < length blk" "length blk \<le> MAX_BUF_SIZE"
  shows "srv_send m blk = Inr (True, queue_on m p blk)"
  using assms by (simp add: srv_send_def conn_ready_def SendData_def worker_def queue_on_def)

lemma conn_ready_update [simp]:
  "conn_ready (m\<lparr>srv_futures := f\<rparr>) p = conn_ready m p" "conn_ready (m\<lparr>m_receiver_ip := a\<rparr>) p = conn_ready m p"
  "conn_ready (m\<lparr>m_receiver_name := b\<rparr>) p = conn_ready m p" "conn_ready (m\<lparr>m_receiver_port := d\<rparr>) p = conn_ready m p"
  by (simp_all add: conn_ready_def)

lemma queue_on_simps [simp]:
  "srv_futures (queue_on m p blk) = srv_futures m" "m_server_tcp (queue_on m p blk) = m_server_tcp m"
  "m_receiver_name (queue_on m p blk) = m_receiver_name m" "srv_filter (queue_on m p blk) = srv_filter m"
  by (simp_all add: queue_on_def)

text \<open>The session of the next request; the manager in which it is open.\<close>

definition next_id :: "'cb ServerConnMgr \<Rightarrow> u32" where
  "next_id m = next_future_id (future_inc_id (srv_futures m))"

definition id_free :: "'cb ServerConnMgr \<Rightarrow> bool" where
  "id_free m \<longleftrightarrow> sendmsg_rsp_container (srv_futures m) (next_id m) = None"

definition opened :: "int \<Rightarrow> 'cb option \<Rightarrow> 'cb ServerConnMgr \<Rightarrow> 'cb FutureMgr" where
  "opened now cb m = (srv_futures m)\<lparr>future_inc_id := next_id m, fut_heap := fut_heap (srv_futures m) @ [new_NetFuture now cb],
     sendmsg_rsp_container := (sendmsg_rsp_container (srv_futures m))(next_id m \<mapsto> length (fut_heap (srv_futures m)))\<rparr>"

lemma insert_opened:
  "id_free m \<Longrightarrow> safe_insert_future now (srv_futures m) cb = Inr ((next_id m, length (fut_heap (srv_futures m))), opened now cb m)"
  by (simp add: safe_insert_future_def Let_def id_free_def next_id_def opened_def)

text \<open>The future manager after the answer of an open session.\<close>

lemma answer_opened:
  assumes "srv_futures m1 = opened now None m"
  shows "srv_futures (srv_answer m1 (next_id m) d) = (srv_futures m1)
    \<lparr>sendmsg_rsp_container := (sendmsg_rsp_container (srv_futures m))(next_id m := None),
      fut_heap := fut_heap (srv_futures m) @ [(new_NetFuture now None)\<lparr>rsp_content := d, ready := True\<rparr>]\<rparr>"
  using assms by (simp add: srv_answer_def answer_future_eq opened_def)

lemma wait_answered:
  assumes "srv_futures m1 = opened (clock env) None m" "srv_futures m2 = srv_futures (srv_answer m1 (next_id m) d)" "wakes env = [srv_futures m2]"
  shows "srv_wait env m1 (length (fut_heap (srv_futures m))) = ((True, False, d), m1\<lparr>srv_futures := srv_futures m2\<rparr>)"
  using answer_opened [OF assms(1)] assms
  by (simp add: srv_wait_def) (simp add: opened_def new_NetFuture_def)

text \<open>What the server does with a packet from connection \<open>sp\<close>, and what the client does with the answer.\<close>

definition served :: "server_env \<Rightarrow> server \<Rightarrow> int \<Rightarrow> byte list \<Rightarrow> server \<Rightarrow> byte list \<Rightarrow> bool" where
  "served senv st sp pkt st' rsp \<longleftrightarrow> (\<exists>head body. server_onRead pkt = Inr (length pkt, [(head, body)]) \<and>
     process_data_from_client senv st sp head body = Inr st' \<and> outbox st' = outbox st @ [(sp, rsp)])"

definition answered :: "'cb srv_env \<Rightarrow> (byte list \<Rightarrow> byte list list option) \<Rightarrow> 'cb ServerConnMgr \<Rightarrow> byte list \<Rightarrow> 'cb ServerConnMgr \<Rightarrow> bool" where
  "answered env pb m rsp m' \<longleftrightarrow> ServerRspProcess env pb m rsp = Inr (length rsp, m')"

lemma served_packet:
  fixes h :: "'a MsgBusPackHead_scheme"
  assumes "unat (body_len h) = length body" "body \<noteq> []"
  obtains head where "server_onRead (head_bytes h @ body) = Inr (length (head_bytes h @ body), [(head, body)])"
    "msg_type head = msg_type h" "msg_id head = msg_id h" "body_type head = body_type h" "body_len head = body_len h"
proof -
  obtain head where h: "frames bus_parse (head_bytes h @ body) = ([(head, body)], [])"
    "msg_type head = msg_type h" "msg_id head = msg_id h" "body_type head = body_type h" "body_len head = body_len h"
    using one_packet [OF assms(1)] by blast
  from h(5) assms have "body_len head \<noteq> 0" by auto
  with server_onRead_frames [OF h(1)] h that show thesis by (simp add: nonempty_bodies_def)
qed

lemma answered_packet:
  fixes h :: "'a MsgBusPackHead_scheme"
  assumes "unat (body_len h) = length body" "ProcessRspBody env pb m (msg_id h) (body_type h) body = Inr (b, m')"
  shows "answered env pb m (head_bytes h @ body) m'"
proof -
  obtain head where h: "frames bus_parse (head_bytes h @ body) = ([(head, body)], [])"
    "msg_id head = msg_id h" "body_type head = body_type h"
    using one_packet [OF assms(1)] by blast
  with srv_reader.on_read_frames [OF h(1), of env pb m] assms(2) show ?thesis
    by (simp add: answered_def srv_reader_on_read srv_frame_def)
qed

end
