(* ===== verification/Server_Conn_Calls.thy ===== *)
theory Server_Conn_Calls
  imports Server_Conn_Props
begin

text \<open>
  Client and server together: the calls of \<^verbatim>\<open>NetMsgBusServerConnMgr.hpp\<close> composed with the handlers of
  \<^verbatim>\<open>msgbus_server.cpp\<close>. A packet one side queues is read by the other (\<open>served\<close>, \<open>answered\<close>), and the waiting call
  sees the future manager the answer leaves.
\<close>

section \<open>Registering\<close>

lemma set_host:
  assumes "ip_v h \<noteq> 0"
  shows "set_state (set_port (set_ip ClientHost_default (host_ip h)) (host_port h)) (host_state h) = h"
  using assms by (simp add: set_ip_def set_port_def set_state_def host_port_def host_state_def inet_pton_host_ip)

lemma host_ip_nonempty: "ip_v h \<noteq> 0 \<Longrightarrow> host_ip h \<noteq> []"
  using inet_pton_host_ip [of h] inet_pton_Nil by auto

definition reg_req :: "byte list \<Rightarrow> u32 \<Rightarrow> byte list \<Rightarrow> ClientHost \<Rightarrow> MsgBusRegisterReq" where
  "reg_req garbage i name host = (new_MsgBusRegisterReq garbage)\<lparr>msg_id := i, rreq_service_name := cpad 64 name, rreq_service_host := host\<rparr>"

lemmas reg_req_defs = reg_req_def new_MsgBusRegisterReq_def new_MsgBusPackHead_def MsgBusPackHead.extend_def MsgBusRegisterReq.fields_def

lemma reg_req_wf: "length name < 64 \<Longrightarrow> RegisterReq_wf (reg_req garbage i name host)"
  by (simp add: reg_req_defs RegisterReq_wf_def MAX_SERVICE_NAME_def)

lemma reg_req_body: "0 \<notin> set name \<Longrightarrow> length name < 64 \<Longrightarrow> RegisterReq_body (reg_req garbage i name host) = reg_body name host"
  by (simp add: RegisterReq_body_def reg_req_defs reg_body_def string_of_name)

text \<open>The manager while the register call waits.\<close>

definition registering :: "'cb srv_env \<Rightarrow> 'cb ServerConnMgr \<Rightarrow> nat \<Rightarrow> byte list \<Rightarrow> ClientHost \<Rightarrow> 'cb ServerConnMgr" where
  "registering env m p name host = queue_on (m\<lparr>m_receiver_ip := host_ip host, m_receiver_port := host_port host, m_receiver_name := name,
      srv_futures := opened (clock env) None m\<rparr>) p (rreq.encode (reg_req (junk env) (next_id m) name host))"

lemma register_call:
  assumes "conn_ready m p" "id_free m" "0 \<notin> set name" "length name < 64" "ip_v host \<noteq> 0"
  shows "RegisterNetMsgBusReceiver env m (host_ip host) (host_port host) name (host_state host) =
    (case srv_wait env (registering env m p name host) (length (fut_heap (srv_futures m))) of ((ok, err, rsp), m) \<Rightarrow> Inr (ok \<and> \<not> err \<and> rsp \<noteq> [], m))"
proof -
  let ?r = "reg_req (junk env) (next_id m) name host"
  have c: "copy_name name = Inr (cpad 64 name)"
    using copy_name_ok [OF assms(4)] assms(3) by (simp add: cstr_id)
  have p: "RegisterReq_PackData ?r (replicate (unat (RegisterReq_Size ?r)) 0) 0 0 = Inr (rreq.encode ?r, rreq.sent ?r)"
    unfolding RegisterReq_PackData_def by (rule rreq.packData_fresh) (rule reg_req_wf [OF assms(4)])
  have "length (rreq.encode ?r) = 90"
    using rreq.length_encode [OF reg_req_wf [OF assms(4)]] by (simp add: RegisterReq_Size_def)
  then have s: "srv_send (m\<lparr>m_receiver_ip := host_ip host, m_receiver_port := host_port host, m_receiver_name := name,
      srv_futures := opened (clock env) None m\<rparr>) (rreq.encode ?r) = Inr (True, registering env m p name host)"
    unfolding registering_def using assms(1) by (intro srv_send_ok) (simp_all add: MAX_BUF_SIZE_def BLOCK_SIZE_def)
  have "m_server_connecting m" using assms(1) by (simp add: conn_ready_def)
  with assms(4) host_ip_nonempty [OF assms(5)] show ?thesis
    unfolding RegisterNetMsgBusReceiver_def
    using insert_opened [OF assms(2), of "clock env" None] c p [unfolded reg_req_def] s [unfolded reg_req_def]
    by (simp add: Let_def set_host [OF assms(5)] MAX_SERVICE_NAME_def)
qed
text \<open>The server's side and the answer.\<close>

lemma register_served:
  assumes name: "0 \<notin> set name" "length name < 64" "name \<noteq> []"
    and host: "ip_v host \<noteq> 0" "host_port host \<noteq> 0" and st: "registry_inv st" "sp \<noteq> 0"
  shows "\<exists>head st1 hs. served senv st sp (rreq.encode (reg_req g i name host)) st1 (rrsp.encode (reg_rsp head 0 (cpad 64 name) [])) \<and>
    msg_id head = i \<and> (\<exists>body. process_register_req st sp head body = Inr st1) \<and> map_of (available_services st1) name = Some hs \<and>
    (map_of (available_services st) name = None \<longrightarrow> hs = [host])"
proof -
  let ?r = "reg_req g i name host"
  have e: "rreq.encode ?r = head_bytes (rreq.sent ?r) @ reg_body name host"
    using reg_req_body [OF name(1,2)] by (simp add: rreq.encode_def)
  have l: "unat (body_len (rreq.sent ?r)) = length (reg_body name host)" "reg_body name host \<noteq> []"
    using name(3) rreq.announced_len [OF reg_req_wf [OF name(2), of g i host]] reg_req_body [OF name(1,2)] by (simp_all add: reg_body_def cpad_def)
  obtain head where h: "server_onRead (rreq.encode ?r) = Inr (length (rreq.encode ?r), [(head, reg_body name host)])"
    "msg_type head = 0" "msg_id head = i" "body_type head = REQ_REGISTER"
    using served_packet [OF l] unfolding e [symmetric] by (auto simp: rreq.sent_def reg_req_defs)
  obtain st1 hs where s: "process_register_req st sp head (reg_body name host) = Inr (reply st1 sp (rrsp.encode (reg_rsp head 0 (cpad 64 name) [])))"
    "map_of (available_services st1) name = Some hs" "outbox st1 = outbox st" "map_of (available_services st) name = None \<longrightarrow> hs = [host]"
    using process_register_eq [OF assms, of head] by (elim exE conjE) (rule that)
  moreover have "available_services (reply st1 sp b) = available_services st1" for b by (simp add: reply_def SendData_to_def)
  ultimately show ?thesis
    using h st(2) by (intro exI [of _ head] exI [of _ "reply st1 sp _"] exI [of _ hs])
      (auto simp: served_def dispatch_register outbox_reply)
qed

lemma register_answered:
  assumes "0 \<notin> set name" "length name < 64" "msg_id head = i" "\<exists>q. sendmsg_rsp_container (srv_futures m) i = Some q"
  shows "answered env pb m (rrsp.encode (reg_rsp head 0 (cpad 64 name) [])) (srv_answer (m\<lparr>m_isreceiver_registered := True, m_receiver_name := name\<rparr>) i name)"
proof -
  let ?r = "reg_rsp head 0 (cpad 64 name) []"
  have w: "RegisterRsp_wf ?r" using assms(2) by (simp add: reg_rsp_wf)
  have "RegisterRsp_UnPackBody m0 (RegisterRsp_body ?r) 0 (length (RegisterRsp_body ?r)) = Inr (0, RegisterRsp_received m0 ?r)" for m0
    using RegisterRsp_UnPackBody_ok [OF w] by simp
  moreover have "strncpy_read MAX_SERVICE_NAME (cpad 64 name) = Inr (cpad 64 name)"
    using assms strncpy_name [of "cpad 64 name"] by (simp add: string_of_name MAX_SERVICE_NAME_def)
  ultimately have "HandleRspRegister env m i (RegisterRsp_body ?r) = Inr (srv_answer (m\<lparr>m_isreceiver_registered := True, m_receiver_name := name\<rparr>) i name)"
    using assms by (auto simp: HandleRspRegister_def RegisterRsp_received_def string_of_name safe_get_future_def)
  with answered_packet [of "rrsp.sent ?r" "RegisterRsp_body ?r" env pb m True] rrsp.announced_len [OF w] assms(3) show ?thesis
    by (simp add: rrsp.encode_def ProcessRspBody_def rrsp.sent_def rrsp.wf_type [OF w])
qed
text \<open>Looking a name up.\<close>

definition gc_req :: "byte list \<Rightarrow> u32 \<Rightarrow> byte list \<Rightarrow> MsgBusGetClientReq" where
  "gc_req garbage i name = (new_MsgBusGetClientReq garbage)\<lparr>msg_id := i, gcreq_dest_name := cpad 64 name\<rparr>"

lemmas gc_req_defs = gc_req_def new_MsgBusGetClientReq_def new_MsgBusPackHead_def MsgBusPackHead.extend_def MsgBusGetClientReq.fields_def

lemma gc_req_wf: "length name < 64 \<Longrightarrow> GetClientReq_wf (gc_req garbage i name)"
  by (simp add: gc_req_defs GetClientReq_wf_def MAX_SERVICE_NAME_def)

lemma gc_req_body: "0 \<notin> set name \<Longrightarrow> length name < 64 \<Longrightarrow> name_bytes (gcreq_dest_name (gc_req garbage i name)) = cpad 64 name"
  by (simp add: gc_req_defs string_of_name)

definition finding :: "'cb srv_env \<Rightarrow> 'cb ServerConnMgr \<Rightarrow> nat \<Rightarrow> byte list \<Rightarrow> 'cb ServerConnMgr" where
  "finding env m p name = queue_on (m\<lparr>srv_futures := opened (clock env) None m\<rparr>) p (gcreq.encode (gc_req (junk env) (next_id m) name))"

definition address_of :: "'cb srv_env \<Rightarrow> byte list \<Rightarrow> (bool \<times> LocalHostInfo option) cres" where
  "address_of env rspdata =
     cbind (GetClientRsp_UnPackBody (new_MsgBusGetClientRsp (junk_code env) (junk env)) rspdata 0 (length rspdata)) (\<lambda>(_, rsp).
     cbind (string_of_cstr (gcrsp_dest_name rsp)) (\<lambda>_.
     if gcrsp_ret_code rsp = 0 then Inr (True, Some (host_ip (gcrsp_dest_host rsp), host_port (gcrsp_dest_host rsp))) else Inr (False, None)))"

lemma find_call:
  assumes "conn_ready m p" "id_free m" "0 \<notin> set name" "length name < 64"
    and "srv_wait env (finding env m p name) (length (fut_heap (srv_futures m))) = ((True, False, d), m2)" "d \<noteq> []" "address_of env d = Inr r"
  shows "ReqReceiverInfo env m name None = Inr (r, m2)"
proof -
  let ?r = "gc_req (junk env) (next_id m) name"
  have c: "copy_name name = Inr (cpad 64 name)"
    using copy_name_ok [OF assms(4)] assms(3) by (simp add: cstr_id)
  have p: "GetClientReq_PackData ?r (replicate (unat (GetClientReq_Size ?r)) 0) 0 0 = Inr (gcreq.encode ?r, gcreq.sent ?r)"
    unfolding GetClientReq_PackData_def by (rule gcreq.packData_fresh) (rule gc_req_wf [OF assms(4)])
  have "length (gcreq.encode ?r) = 80"
    using gcreq.length_encode [OF gc_req_wf [OF assms(4)]] by (simp add: GetClientReq_Size_def)
  then have s: "srv_send (m\<lparr>srv_futures := opened (clock env) None m\<rparr>) (gcreq.encode ?r) = Inr (True, finding env m p name)"
    unfolding finding_def using assms(1) by (intro srv_send_ok) (simp_all add: MAX_BUF_SIZE_def BLOCK_SIZE_def)
  have "m_server_connecting m" using assms(1) by (simp add: conn_ready_def)
  then have "ReqReceiverInfo env m name None = cmap (\<lambda>r. (r, m2)) (address_of env d)"
    unfolding ReqReceiverInfo_def address_of_def
    using assms(4-6) insert_opened [OF assms(2), of "clock env" None] c p [unfolded gc_req_def] s [unfolded gc_req_def]
    by (auto simp: Let_def MAX_SERVICE_NAME_def cbind_def cmap_def split: sum.splits)
  with assms(7) show ?thesis by simp
qed

lemma find_served:
  assumes name: "0 \<notin> set name" "length name < 64" and st: "registry_inv st" "check_register_client st sp = Inr True"
    and r: "rnd senv (rand_calls st) \<le> RAND_MAX"
  shows "\<exists>head st1 a. served senv st sp (gcreq.encode (gc_req g i name)) st1 (gcrsp.encode (gc_rsp head (cpad 64 name) a)) \<and>
    msg_id head = i \<and> (case map_of (available_services st) name of None \<Rightarrow> a = None | Some hs \<Rightarrow> \<exists>h\<in>set hs. a = Some h)"
proof -
  let ?r = "gc_req g i name"
  have sp: "sp \<noteq> 0" using check_register_nonnull [OF st(2)] .
  have e: "gcreq.encode ?r = head_bytes (gcreq.sent ?r) @ cpad 64 name"
    using gc_req_body [OF name] by (simp add: gcreq.encode_def)
  have "length (cpad 64 name) = 64" by simp
  then have l: "unat (body_len (gcreq.sent ?r)) = length (cpad 64 name)" "cpad 64 name \<noteq> []"
    using gcreq.announced_len [OF gc_req_wf [OF name(2), of g i]] gc_req_body [OF name] by fastforce+
  obtain head where h: "server_onRead (gcreq.encode ?r) = Inr (length (gcreq.encode ?r), [(head, cpad 64 name)])"
    "msg_type head = 0" "msg_id head = i" "body_type head = REQ_GETCLIENT"
    using served_packet [OF l] unfolding e [symmetric] by (auto simp: gcreq.sent_def gc_req_defs)
  obtain st1 a where s: "process_getclient_req senv st sp head (cpad 64 name) = Inr (reply st1 sp (gcrsp.encode (gc_rsp head (cpad 64 name) a)))"
    "outbox st1 = outbox st" "case map_of (available_services st) name of None \<Rightarrow> a = None | Some hs \<Rightarrow> \<exists>h\<in>set hs. a = Some h"
    using process_getclient_eq [OF name st(1) sp r, of head] by (elim exE conjE) (rule that)
  with h st(2) sp show ?thesis
    by (intro exI [of _ head] exI [of _ "reply st1 sp _"] exI [of _ a])
      (simp add: served_def dispatch_registered outbox_reply)
qed

lemma find_answered:
  assumes "length name < 64" "msg_id head = i"
  shows "answered env pb m (gcrsp.encode (gc_rsp head (cpad 64 name) a)) (srv_answer m i (GetClientRsp_body (gc_rsp head (cpad 64 name) a)))"
proof -
  let ?r = "gc_rsp head (cpad 64 name) a"
  have w: "GetClientRsp_wf ?r" using assms(1) by (simp add: gc_rsp_wf)
  have "GetClientRsp_UnPackBody m0 (GetClientRsp_body ?r) 0 0 = Inr (0, GetClientRsp_received m0 ?r)" for m0
    using GetClientRsp_UnPackBody_ok by simp
  moreover have "GetClientRsp_body ?r \<noteq> []" using gcrsp.size_body [OF w] by (auto simp: GetClientRsp_Size_def)
  ultimately have "HandleRspGetClient_srv env m i (GetClientRsp_body ?r) = Inr (srv_answer m i (GetClientRsp_body ?r))"
    by (simp add: HandleRspGetClient_srv_def)
  moreover have "msg_id ?r = i" using assms(2) by (auto simp: gc_rsp_defs split: option.splits)
  ultimately show ?thesis
    using answered_packet [of "gcrsp.sent ?r" "GetClientRsp_body ?r" env pb m True] gcrsp.announced_len [OF w]
    by (simp add: gcrsp.encode_def ProcessRspBody_def gcrsp.sent_def gcrsp.wf_type [OF w] body_type_defs)
qed

lemma address_found:
  assumes "0 \<notin> set name" "length name < 64"
  shows "address_of env (GetClientRsp_body (gc_rsp head (cpad 64 name) (Some h))) = Inr (True, Some (host_ip h, host_port h))"
proof -
  let ?r = "gc_rsp head (cpad 64 name) (Some h)"
  have "GetClientRsp_UnPackBody m0 (GetClientRsp_body ?r) 0 (length (GetClientRsp_body ?r)) = Inr (0, GetClientRsp_received m0 ?r)" for m0
    by (rule GetClientRsp_UnPackBody_ok) simp_all
  then show ?thesis using assms
    by (simp add: address_of_def GetClientRsp_received_def) (simp add: gc_rsp_defs string_of_name)
qed

lemma gc_rsp_body_nonempty: "length name < 64 \<Longrightarrow> GetClientRsp_body (gc_rsp head (cpad 64 name) a) \<noteq> []"
  using gcrsp.size_body [OF gc_rsp_wf, of "cpad 64 name" head a] by (auto simp: GetClientRsp_Size_def)

lemma registering_simps [simp]:
  "srv_futures (registering env m p name host) = opened (clock env) None m"
  "sock_mem (srv_net (registering env m p name host)) p = log_call (sock_mem (srv_net m) p) (QueueSend (rreq.encode (reg_req (junk env) (next_id m) name host)))"
  "srv_futures (finding env' n q name) = opened (clock env') None n"
  "sock_mem (srv_net (finding env' n q name)) q = log_call (sock_mem (srv_net n) q) (QueueSend (gcreq.encode (gc_req (junk env') (next_id n) name)))"
  by (simp_all add: registering_def finding_def queue_on_def)

lemma env_irrelevant [simp]:
  "registering (env\<lparr>wakes := w\<rparr>) m p name host = registering env m p name host"
  "finding (env\<lparr>wakes := w\<rparr>) m p name = finding env m p name"
  "address_of (env\<lparr>wakes := w\<rparr>) d = address_of env d"
  by (simp_all add: registering_def finding_def address_of_def)

text \<open>A look-up of a name the server knows, from the packet to the address.\<close>

lemma find_complete:
  assumes name: "0 \<notin> set name" "length name < 64" and B: "conn_ready b pb" "id_free b"
    and server: "registry_inv st" "check_register_client st sb = Inr True" "map_of (available_services st) name = Some hs"
    and rand: "\<And>i. rnd senv i \<le> RAND_MAX"
  obtains pkt rsp st2 b2 host where "served senv st sb pkt st2 rsp" "host \<in> set hs"
    "sock_mem (srv_net (finding env b pb name)) pb = log_call (sock_mem (srv_net b) pb) (QueueSend pkt)"
    "answered env parse (finding env b pb name) rsp b2"
    "ReqReceiverInfo (env\<lparr>wakes := [srv_futures b2]\<rparr>) b name None =
       Inr ((True, Some (host_ip host, host_port host)), (finding env b pb name)\<lparr>srv_futures := srv_futures b2\<rparr>)"
proof -
  let ?b1 = "finding env b pb name"
  obtain head st2 host where f: "served senv st sb (gcreq.encode (gc_req (junk env) (next_id b) name)) st2 (gcrsp.encode (gc_rsp head (cpad 64 name) (Some host)))"
    "msg_id head = next_id b" "host \<in> set hs"
    using find_served [OF name(1,2) server(1,2), of senv "junk env" "next_id b"] rand server(3) by auto
  let ?d = "GetClientRsp_body (gc_rsp head (cpad 64 name) (Some host))"
  let ?b2 = "srv_answer ?b1 (next_id b) ?d"
  have "answered env parse ?b1 (gcrsp.encode (gc_rsp head (cpad 64 name) (Some host))) ?b2"
    using f(2) name by (intro find_answered) simp_all
  moreover have "ReqReceiverInfo (env\<lparr>wakes := [srv_futures ?b2]\<rparr>) b name None =
        Inr ((True, Some (host_ip host, host_port host)), ?b1\<lparr>srv_futures := srv_futures ?b2\<rparr>)"
    using wait_answered [of ?b1 "env\<lparr>wakes := [srv_futures ?b2]\<rparr>" b ?b2 ?d] address_found [OF name(1,2)] gc_rsp_body_nonempty [OF name(2)]
    by (intro find_call [OF B name(1,2)]) simp_all
  ultimately show thesis using that f(1,3) by simp
qed


definition demo_conn :: "nat ServerConnMgr" where
  "demo_conn = \<lparr>m_server_tcp = Some 7, m_serverip = lit ''10.0.0.9'', m_serverport = 19000, m_receiver_ip = [], m_receiver_name = lit ''a'',
     m_receiver_port = 0, m_server_connecting = True, m_isreceiver_registered = False, srv_futures = new_FutureMgr, srv_net = demo_net,
     srv_filter = FilterMgr_init, srv_posts = [], srv_callbacks = []\<rparr>"

definition demo_srv_env :: "nat srv_env" where
  "demo_srv_env = \<lparr>clock = 0, junk = replicate 64 1, junk_code = 0, junk_lens = (0, 0), wakes = [], expired = new_FutureMgr\<rparr>"

lemma demo_conn_ready: "conn_ready demo_conn 7" "id_free demo_conn" "next_id demo_conn = 1"
  by (simp_all add: conn_ready_def id_free_def next_id_def demo_conn_def demo_net_def Sock_Waiter.demo_heap_def new_TcpSock_def IsClosed_def Writeable_def
      new_FutureMgr_def next_future_id_def)


section \<open>Relaying through the server\<close>

definition relay_req :: "byte list \<Rightarrow> u32 \<Rightarrow> byte list \<Rightarrow> byte list \<Rightarrow> byte list \<Rightarrow> MsgBusSendMsgReq" where
  "relay_req garbage i dest from c = SendMsgReq_SetVarData ((new_MsgBusSendMsgReq garbage garbage)
     \<lparr>smreq_dest_name := cpad 64 dest, smreq_from_name := cpad 64 from, msg_id := i, smreq_msg_len := of_nat (length c)\<rparr>) (Some c)"

lemmas relay_req_defs = relay_req_def SendMsgReq_SetVarData_def SendMsgReq_FreeVarData_def new_MsgBusSendMsgReq_def
  new_MsgBusPackHead_def MsgBusPackHead.extend_def MsgBusSendMsgReq.fields_def

lemma relay_req_wf: "148 + length c < 2 ^ 32 \<Longrightarrow> SendMsgReq_wf (relay_req g i dest from c)"
  by (auto simp: relay_req_defs SendMsgReq_wf_def raw_ok_def MAX_SERVICE_NAME_def unat_of_nat)

lemma relay_req_body:
  assumes "148 + length c < 2 ^ 32" "0 \<notin> set dest" "length dest < 64" "0 \<notin> set from" "length from < 64"
  shows "SendMsgReq_body (relay_req g i dest from c) = sm_body dest from c"
  using assms by (simp add: SendMsgReq_body_def relay_req_defs sm_body_def string_of_name raw_bytes_def unat_of_nat)

definition relaying :: "'cb srv_env \<Rightarrow> 'cb ServerConnMgr \<Rightarrow> nat \<Rightarrow> byte list \<Rightarrow> byte list \<Rightarrow> 'cb ServerConnMgr" where
  "relaying env m p dest c = queue_on (m\<lparr>srv_futures := opened (clock env) None m\<rparr>) p
     (smreq.encode (relay_req (junk env) (next_id m) dest (m_receiver_name m) c))"

lemma relaying_simps [simp]:
  "srv_futures (relaying env m p dest c) = opened (clock env) None m"
  "sock_mem (srv_net (relaying env m p dest c)) p =
     log_call (sock_mem (srv_net m) p) (QueueSend (smreq.encode (relay_req (junk env) (next_id m) dest (m_receiver_name m) c)))"
  "relaying (env\<lparr>wakes := w\<rparr>) m p dest c = relaying env m p dest c"
  by (simp_all add: relaying_def queue_on_def)

lemma relay_call:
  assumes "conn_ready m p" "id_free m" "0 \<notin> set dest" "length dest < 64" "0 \<notin> set (m_receiver_name m)" "length (m_receiver_name m) < 64"
    and "148 + length c \<le> MAX_BUF_SIZE"
  shows "PostNetMsgUseServerRelay env m dest (of_nat (length c)) (Some c) =
    (case srv_wait env (relaying env m p dest c) (length (fut_heap (srv_futures m))) of ((ok, err, rsp), m) \<Rightarrow> Inr (ok \<and> \<not> err, m))"
proof -
  let ?r = "relay_req (junk env) (next_id m) dest (m_receiver_name m) c"
  have c32: "148 + length c < 2 ^ 32" using assms(7) by (simp add: MAX_BUF_SIZE_def BLOCK_SIZE_def)
  have n: "copy_name dest = Inr (cpad 64 dest)" "copy_name (m_receiver_name m) = Inr (cpad 64 (m_receiver_name m))"
    using copy_name_ok assms(3-6) by (simp_all add: cstr_id)
  have p: "SendMsgReq_PackData ?r (replicate (unat (SendMsgReq_Size ?r)) 0) 0 0 = Inr (smreq.encode ?r, smreq.sent ?r)"
    unfolding SendMsgReq_PackData_def by (rule smreq.packData_fresh) (rule relay_req_wf [OF c32])
  have "length (smreq.encode ?r) = 148 + length c"
    using relay_req_body [OF c32 assms(3-6)] by (simp add: smreq.encode_def sm_body_def)
  then have s: "srv_send (m\<lparr>srv_futures := opened (clock env) None m\<rparr>) (smreq.encode ?r) = Inr (True, relaying env m p dest c)"
    unfolding relaying_def using assms(1,7) by (intro srv_send_ok) simp_all
  have "m_server_connecting m" using assms(1) by (simp add: conn_ready_def)
  with assms(4) show ?thesis
    unfolding PostNetMsgUseServerRelay_def
    using insert_opened [OF assms(2), of "clock env" None] n p [unfolded relay_req_def] s [unfolded relay_req_def]
    by (simp add: Let_def MAX_SERVICE_NAME_def)
qed

lemma relay_served:
  assumes c: "148 + length c < 2 ^ 32" and names: "0 \<notin> set dest" "length dest < 64" "0 \<notin> set from" "length from < 64"
    and st: "check_register_client st sp = Inr True" "dest_exists (active_clients st) dest"
  shows "\<exists>head. served senv st sp (smreq.encode (relay_req g i dest from c))
      (reply (queue_relay st dest (smreq.encode (sm_req dest from c))) sp (smrsp.encode (sm_rsp head 0 []))) (smrsp.encode (sm_rsp head 0 [])) \<and> msg_id head = i"
proof -
  let ?r = "relay_req g i dest from c"
  have sp: "sp \<noteq> 0" using check_register_nonnull [OF st(1)] .
  have e: "smreq.encode ?r = head_bytes (smreq.sent ?r) @ sm_body dest from c"
    using relay_req_body [OF c names] by (simp add: smreq.encode_def)
  have "length (sm_body dest from c) = 132 + length c" by (simp add: sm_body_def)
  then have l: "unat (body_len (smreq.sent ?r)) = length (sm_body dest from c)" "sm_body dest from c \<noteq> []"
    using smreq.announced_len [OF relay_req_wf [OF c, of g i dest "from"]] relay_req_body [OF c names] by auto
  have t: "msg_type (smreq.sent ?r) = 0" "msg_id (smreq.sent ?r) = i" "body_type (smreq.sent ?r) = REQ_SENDMSG"
    by (simp_all add: smreq.sent_def relay_req_defs)
  obtain head where h: "server_onRead (smreq.encode ?r) = Inr (length (smreq.encode ?r), [(head, sm_body dest from c)])"
    "msg_type head = 0" "msg_id head = i" "body_type head = REQ_SENDMSG" "unat (body_len head) = length (sm_body dest from c)"
    using served_packet [OF l] l(1) t unfolding e [symmetric] by metis
  have "outbox (queue_relay st dest b) = outbox st" for b
    by (simp add: queue_relay_def msgbus_queue_broadcast_def msgbus_queue_reqtoclient_def)
  with process_sendmsg_eq [OF c names h(5) sp, of senv st] h st sp show ?thesis
    by (intro exI [of _ head]) (simp add: served_def dispatch_registered outbox_reply)
qed

lemma relay_answered:
  assumes "msg_id head = i"
  shows "answered env pb m (smrsp.encode (sm_rsp head 0 [])) (srv_answer m i (lit ''success''))"
proof -
  let ?r = "sm_rsp head 0 []"
  have w: "SendMsgRsp_wf ?r" by (simp add: sm_rsp_wf)
  have "SendMsgRsp_UnPackBody m0 (SendMsgRsp_body ?r) 0 (length (SendMsgRsp_body ?r)) = Inr (0, SendMsgRsp_received m0 ?r)" for m0
    using SendMsgRsp_UnPackBody_ok [OF w] by simp
  then have "HandleRspSendMsg env m i (SendMsgRsp_body ?r) = Inr (srv_answer m i (lit ''success''))"
    by (simp add: HandleRspSendMsg_def SendMsgRsp_received_def) (simp add: sm_rsp_defs)
  moreover have "msg_id ?r = i" using assms by (simp add: sm_rsp_defs)
  ultimately show ?thesis
    using answered_packet [of "smrsp.sent ?r" "SendMsgRsp_body ?r" env pb m True] smrsp.announced_len [OF w]
    by (simp add: smrsp.encode_def ProcessRspBody_def smrsp.sent_def smrsp.wf_type [OF w] body_type_defs)
qed

lemma relayed_posted:
  assumes c: "148 + length c < 2 ^ 32" and names: "0 \<notin> set dest" "length dest < 64" "0 \<notin> set from" "length from < 64"
    and f: "FilterBySender (srv_filter m) from" "NetMsgBusToLocalMsgBus (srv_filter m) c = Inr (Some x)"
  shows "answered env pb m (smreq.encode (sm_req dest from c)) (m\<lparr>srv_posts := srv_posts m @ [x]\<rparr>)"
proof -
  let ?r = "sm_req dest from c"
  have w: "SendMsgReq_wf ?r" using c by (rule sm_req_wf)
  have "SendMsgReq_UnPackBody (new_MsgBusSendMsgReq a b) (SendMsgReq_body ?r) 0 (length (SendMsgReq_body ?r)) = Inr (0, ?r)" for a b
    using SendMsgReq_UnPackBody_ok [OF w] sm_req_received [OF c names] by simp
  then have "HandleReqSendMsg env m i (SendMsgReq_body ?r) = Inr (m\<lparr>srv_posts := srv_posts m @ [x]\<rparr>)" for i
    using f names c by (simp add: HandleReqSendMsg_def) (simp add: sm_req_defs string_of_name memcpy_ptr_def cload_def unat_of_nat)
  then show ?thesis
    using answered_packet [of "smreq.sent ?r" "SendMsgReq_body ?r" env pb m True] smreq.announced_len [OF w]
    by (simp add: smreq.encode_def ProcessRspBody_def smreq.sent_def smreq.wf_type [OF w] body_type_defs)
qed

lemma content_posted:
  assumes "length sender < 256" "length msgid < 256" "6 + length sender + length msgid + length d < 2 ^ 32" "FilterByMsgId f msgid"
  shows "NetMsgBusToLocalMsgBus f (netmsg_bytes sender msgid d) = Inr (Some (msgid, d, of_nat (length d)))"
  using assms by (simp add: NetMsgBusToLocalMsgBus_def CheckMsgId_def GetMsgId_bytes GetMsgParam_bytes)



text \<open>
  an overlong own name. A registration stores the name before anything else, also when it returns
  false because there is no connection. With a name of 64 bytes or more, every later relayed message and the
  unregistration write behind the end of the 64-byte field.
\<close>

theorem long_name_overflow:
  assumes "64 \<le> length name" "\<not> m_server_connecting m"
  shows "\<exists>m1. RegisterNetMsgBusReceiver env m ip port name busy = Inr (False, m1) \<and> m_receiver_name m1 = name \<and>
    UnRegisterNetMsgBusReceiver env' (m1\<lparr>m_server_connecting := True\<rparr>) = Inl OutOfBounds \<and>
    (length dest < 64 \<longrightarrow> PostNetMsgUseServerRelay env' (m1\<lparr>m_server_connecting := True\<rparr>) dest n d = Inl OutOfBounds)"
proof -
  have "\<exists>x. copy_name dest = Inr x" if "length dest < 64" using copy_name_ok [OF that] by blast
  with assms show ?thesis
    by (auto simp: RegisterNetMsgBusReceiver_def UnRegisterNetMsgBusReceiver_def PostNetMsgUseServerRelay_def copy_name_long MAX_SERVICE_NAME_def Let_def)
qed

theorem long_name_overflow_witness:
  "\<exists>m1. RegisterNetMsgBusReceiver demo_srv_env (demo_conn\<lparr>m_server_connecting := False\<rparr>) (lit ''10.0.0.1'') 80 (replicate 64 97) 0 = Inr (False, m1) \<and>
    UnRegisterNetMsgBusReceiver demo_srv_env (m1\<lparr>m_server_connecting := True\<rparr>) = Inl OutOfBounds"
  using long_name_overflow [of "replicate 64 97" "demo_conn\<lparr>m_server_connecting := False\<rparr>" demo_srv_env "lit ''10.0.0.1''" 80 0 demo_srv_env]
  by force

end
