(* ===== verification/Local_Bus.thy ===== *)
theory Local_Bus
  imports Net_Msg Std_Map
begin

text \<open>
  The message bus inside a process, \<^verbatim>\<open>src/Core/msgbus_interface.cpp\<close> and \<^verbatim>\<open>src/Core/msgbus_handlerbase.hpp\<close>:
  handler objects register for message ids, \<open>SendMsg\<close> and \<open>PostMsg\<close> hand messages to them.

  The static variables of the file are the record \<open>MsgBus\<close>. A handler object is a number; \<open>strong\<close> tells for which
  objects a strong reference exists, that is for which \<open>weak_ptr::lock\<close> succeeds, and \<open>all_handlers\<close> is the
  member \<open>all_handlers_\<close> of each object. The member functions that handle messages are the program's own: they
  are an argument \<open>env\<close> and may change the whole state (register, post, send) and the extension of the record, which
  stands for their own data. Tasks given to the thread pool are kept in \<open>pool_tasks\<close>.
\<close>

section \<open>State\<close>

record MsgTask =
  msgid :: "byte list"
  msgparam :: MsgBusParam
  callertid :: nat
  ret :: bool

definition new_MsgTask :: "byte list \<Rightarrow> MsgBusParam \<Rightarrow> nat \<Rightarrow> MsgTask" where
  "new_MsgTask lmsgid lparam fromtid = \<lparr>msgid = lmsgid, msgparam = lparam, callertid = fromtid, ret = False\<rparr>"

record ReadySendMsgInfo =
  ready :: bool
  rspparam :: MsgBusParam
  rspresult :: bool

definition new_ReadySendMsgInfo :: ReadySendMsgInfo where
  "new_ReadySendMsgInfo = \<lparr>ready = False, rspparam = MsgBusParam_empty, rspresult = False\<rparr>"

record HandlerTWrapper =
  htype :: int
  handler_func :: "nat option"

type_synonym pool_task = "nat option \<times> nat \<times> byte list \<times> MsgBusParam \<times> bool"

record MsgBus =
  s_all_msghandler_objs :: "byte list \<Rightarrow> (nat \<times> bool) list option"
  s_all_msgtask :: "MsgTask list"
  s_all_sendmsgtask :: "MsgTask list"
  s_msgbus_running :: bool
  s_msgbus_terminate :: bool
  msgbus_tid :: nat
  s_ready_sendmsgs :: "nat \<Rightarrow> nat option"
  ready_infos :: "ReadySendMsgInfo list"
  strong :: "nat \<Rightarrow> bool"
  all_handlers :: "nat \<Rightarrow> (byte list, HandlerTWrapper) std_map"
  s_threadpool_running :: bool
  pool_tasks :: "pool_task list"

type_synonym 'w member_fns =
  "nat \<Rightarrow> nat \<Rightarrow> byte list \<Rightarrow> MsgBusParam \<Rightarrow> bool \<Rightarrow> 'w MsgBus_scheme \<Rightarrow> ('w MsgBus_scheme \<times> bool \<times> MsgBusParam \<times> bool) cres"

section \<open>Parameters\<close>

text \<open>\<open>BuildinType2Param(0)\<close>: the four bytes of the \<open>int\<close> zero.\<close>

definition BuildinType2Param_int :: "u32 \<Rightarrow> MsgBusParam" where
  "BuildinType2Param_int src = \<lparr>paramdata = Some (mem32 src), paramlen = 4\<rparr>"

definition Param2BuildinType_int :: "MsgBusParam \<Rightarrow> u32 cres" where
  "Param2BuildinType_int param =
     (if paramlen param \<noteq> 4 then Inl AssertFailed else cmap of_mem32 (memcpy_ptr 4 (paramdata param)))"

definition CustomType2Param :: "byte list \<Rightarrow> MsgBusParam" where
  "CustomType2Param src = \<lparr>paramdata = Some src, paramlen = of_nat (length src)\<rparr>"

definition Param2CustomType :: "MsgBusParam \<Rightarrow> byte list cres" where
  "Param2CustomType param =
     (case paramdata param of None \<Rightarrow> Inl NullPointer | Some d \<Rightarrow> cload d 0 (unat (paramlen param)))"

section \<open>Handler objects\<close>

text \<open>
  \<open>MsgHandler::OnMsg\<close> of the object \<open>this\<close>. Types 0 and 2 call the member function, type 1 queues the call to the thread
  pool (which asserts that it runs), type 3 does nothing. The results are those of the call with the
  parameter and the flag it leaves.
\<close>

definition OnMsg :: "'w member_fns \<Rightarrow> 'w MsgBus_scheme \<Rightarrow> nat \<Rightarrow> byte list \<Rightarrow> MsgBusParam \<Rightarrow> bool \<Rightarrow>
    ('w MsgBus_scheme \<times> bool \<times> MsgBusParam \<times> bool) cres" where
  "OnMsg env st this mid param is_continue =
     (case map_of (all_handlers st this) mid of
        None \<Rightarrow> Inr (st, False, param, is_continue)
      | Some hwrapper \<Rightarrow>
          if htype hwrapper = 0 \<or> htype hwrapper = 2 then
            (case handler_func hwrapper of
               None \<Rightarrow> Inr (st, False, param, True)
             | Some f \<Rightarrow> env f this mid param True st)
          else if htype hwrapper = 1 then
            (if \<not> s_threadpool_running st then Inl AssertFailed
             else Inr (st\<lparr>pool_tasks := pool_tasks st @ [(handler_func hwrapper, this, mid, param, True)]\<rparr>, True, param, True))
          else Inr (st, False, param, True))"

section \<open>Calling the handlers\<close>

text \<open>The loop over the handlers of one message (the list holds strong references, none of them null).\<close>

fun run_handlers :: "'w member_fns \<Rightarrow> byte list \<Rightarrow> MsgBusParam \<Rightarrow> nat list \<Rightarrow> 'w MsgBus_scheme \<Rightarrow> MsgBusParam \<Rightarrow> bool \<Rightarrow> bool \<Rightarrow>
    ('w MsgBus_scheme \<times> bool \<times> MsgBusParam) cres" where
  "run_handlers env mid original_param [] st param result is_continue = Inr (st, result, param)"
| "run_handlers env mid original_param (h # hs) st param result is_continue =
     cbind (DeepCopy original_param) (\<lambda>input_param.
     cbind (OnMsg env st h mid input_param is_continue) (\<lambda>(st, result, input_param, is_continue).
     let param = (if result then input_param else param) in
     if \<not> is_continue then Inr (st, result, param)
     else run_handlers env mid original_param hs st param result is_continue))"

fun ExecuteMsgBusHandlers :: "'w member_fns \<Rightarrow> byte list \<Rightarrow> MsgTask list \<Rightarrow> nat list \<Rightarrow> 'w MsgBus_scheme \<Rightarrow>
    ('w MsgBus_scheme \<times> MsgTask list) cres" where
  "ExecuteMsgBusHandlers env mid [] msg_handlers st = Inr (st, [])"
| "ExecuteMsgBusHandlers env mid (t # alltasks) msg_handlers st =
     cbind (DeepCopy (msgparam t)) (\<lambda>original_param.
     cbind (run_handlers env mid original_param msg_handlers st (msgparam t) False True) (\<lambda>(st, result, param).
     cbind (ExecuteMsgBusHandlers env mid alltasks msg_handlers st) (\<lambda>(st, ts).
       Inr (st, t\<lparr>msgparam := param, ret := result\<rparr> # ts))))"

text \<open>The live handlers of an id; expired references are erased, and the entry with the last of them.\<close>

definition set_handlers :: "'w MsgBus_scheme \<Rightarrow> byte list \<Rightarrow> (nat \<times> bool) list \<Rightarrow> 'w MsgBus_scheme" where
  "set_handlers st mid ws =
     st\<lparr>s_all_msghandler_objs := (s_all_msghandler_objs st)(mid := (if ws = [] then None else Some ws))\<rparr>"

definition lock_handlers :: "'w MsgBus_scheme \<Rightarrow> byte list \<Rightarrow> nat list \<times> 'w MsgBus_scheme" where
  "lock_handlers st mid =
     (case s_all_msghandler_objs st mid of
        None \<Rightarrow> ([], st)
      | Some ws \<Rightarrow> let ws = filter (strong st \<circ> fst) ws in (map fst ws, set_handlers st mid ws))"

definition SendMsgInMsgBusThread :: "'w member_fns \<Rightarrow> nat \<Rightarrow> 'w MsgBus_scheme \<Rightarrow> byte list \<Rightarrow> MsgTask list \<Rightarrow>
    ('w MsgBus_scheme \<times> MsgTask list) cres" where
  "SendMsgInMsgBusThread env self st mid alltasks =
     (if self \<noteq> msgbus_tid st then Inl AssertFailed
      else let (msg_handlers, st) = lock_handlers st mid in ExecuteMsgBusHandlers env mid alltasks msg_handlers st)"

section \<open>SendMsg and PostMsg\<close>

text \<open>
  The scan of another thread over the handlers of an id (lines 298 to 319): it stops at the first handler that must be
  called in the bus thread; the expired references before it are erased.
\<close>

fun direct_scan :: "(nat \<Rightarrow> bool) \<Rightarrow> (nat \<times> bool) list \<Rightarrow> bool \<times> nat list \<times> (nat \<times> bool) list" where
  "direct_scan alive [] = (True, [], [])"
| "direct_scan alive ((p, must) # ws) =
     (if must then (False, [], (p, must) # ws)
      else let (direct, hs, ws') = direct_scan alive ws in
           if alive p then (direct, p # hs, (p, must) # ws') else (direct, hs, ws'))"

text \<open>
  \<open>SendMsg\<close> up to the point where the caller waits: it has returned a result and a parameter, or it waits for the
  info structure at the given position to become ready.
\<close>

datatype send_result = Returned bool MsgBusParam | MustWait nat

definition SendMsg_register :: "'w MsgBus_scheme \<Rightarrow> nat \<Rightarrow> nat \<times> 'w MsgBus_scheme" where
  "SendMsg_register st self =
     (length (ready_infos st),
      st\<lparr>ready_infos := ready_infos st @ [new_ReadySendMsgInfo],
         s_ready_sendmsgs := (s_ready_sendmsgs st)(self \<mapsto> length (ready_infos st))\<rparr>)"

definition SendMsg_push :: "'w MsgBus_scheme \<Rightarrow> nat \<Rightarrow> byte list \<Rightarrow> MsgBusParam \<Rightarrow> 'w MsgBus_scheme" where
  "SendMsg_push st self mid param =
     st\<lparr>s_all_sendmsgtask := s_all_sendmsgtask st @ [new_MsgTask mid param self]\<rparr>"

definition SendMsg_begin :: "'w member_fns \<Rightarrow> nat \<Rightarrow> 'w MsgBus_scheme \<Rightarrow> byte list \<Rightarrow> MsgBusParam \<Rightarrow>
    ('w MsgBus_scheme \<times> send_result) cres" where
  "SendMsg_begin env self st mid param =
     (if \<not> s_msgbus_running st then Inl AssertFailed
      else if self = msgbus_tid st then
        cbind (SendMsgInMsgBusThread env self st mid [new_MsgTask mid param self]) (\<lambda>(st, task).
          Inr (st, Returned (ret (hd task)) (msgparam (hd task))))
      else
        (case s_all_msghandler_objs st mid of
           None \<Rightarrow> Inr (st, Returned False param)
         | Some ws \<Rightarrow>
             let (can_call_directly, msg_handlers, ws) = direct_scan (strong st) ws;
                 st = set_handlers st mid ws in
             if can_call_directly then
               cbind (ExecuteMsgBusHandlers env mid [new_MsgTask mid param self] msg_handlers st) (\<lambda>(st, task).
                 Inr (st, Returned (ret (last task)) (msgparam (last task))))
             else
               let (q, st) = SendMsg_register st self in
               Inr (SendMsg_push st self mid param, MustWait q)))"

text \<open>
  The wait (lines 359 to 397). \<open>SendMsg_check\<close> is what the caller sees under the lock of its structure; after a
  time-out the result is false and the parameter unchanged. Both ways the caller erases its entry.
\<close>

definition SendMsg_check :: "'w MsgBus_scheme \<Rightarrow> nat \<Rightarrow> (bool \<times> MsgBusParam) option" where
  "SendMsg_check st q =
     (let i = ready_infos st ! q in if ready i then Some (rspresult i, rspparam i) else None)"

definition SendMsg_done :: "'w MsgBus_scheme \<Rightarrow> nat \<Rightarrow> 'w MsgBus_scheme" where
  "SendMsg_done st self = st\<lparr>s_ready_sendmsgs := (s_ready_sendmsgs st)(self := None)\<rparr>"

definition PostMsg :: "'w MsgBus_scheme \<Rightarrow> byte list \<Rightarrow> MsgBusParam \<Rightarrow> ('w MsgBus_scheme \<times> bool) cres" where
  "PostMsg st mid param =
     (if \<not> s_msgbus_running st then Inl AssertFailed
      else cbind (DeepCopy param) (\<lambda>copy.
        Inr (st\<lparr>s_all_msgtask := s_all_msgtask st @ [new_MsgTask mid copy (msgbus_tid st)]\<rparr>, True)))"

text \<open>The overloads without a parameter.\<close>

definition SendMsg_id :: "'w member_fns \<Rightarrow> nat \<Rightarrow> 'w MsgBus_scheme \<Rightarrow> byte list \<Rightarrow> ('w MsgBus_scheme \<times> send_result) cres" where
  "SendMsg_id env self st mid = SendMsg_begin env self st mid (BuildinType2Param_int 0)"

definition PostMsg_id :: "'w MsgBus_scheme \<Rightarrow> byte list \<Rightarrow> ('w MsgBus_scheme \<times> bool) cres" where
  "PostMsg_id st mid = PostMsg st mid (BuildinType2Param_int 0)"

section \<open>Registration\<close>

definition RegisterMsg :: "'w MsgBus_scheme \<Rightarrow> byte list \<Rightarrow> nat option \<Rightarrow> bool \<Rightarrow> ('w MsgBus_scheme \<times> bool) cres" where
  "RegisterMsg st mid sp_handler_obj must =
     (if \<not> s_msgbus_running st then Inl AssertFailed
      else case sp_handler_obj of
        None \<Rightarrow> Inr (st, False)
      | Some p \<Rightarrow>
          (case s_all_msghandler_objs st mid of
             None \<Rightarrow> Inr (set_handlers st mid [(p, must)], True)
           | Some ws \<Rightarrow>
               if (\<exists>w\<in>set ws. strong st (fst w) \<and> fst w = p) then Inr (st, True)
               else Inr (set_handlers st mid (ws @ [(p, must)]), True)))"

text \<open>The first reference whose locked pointer is the given one: an expired reference locks to null.\<close>

fun erase_handler :: "(nat \<Rightarrow> bool) \<Rightarrow> nat option \<Rightarrow> (nat \<times> bool) list \<Rightarrow> (nat \<times> bool) list" where
  "erase_handler alive obj [] = []"
| "erase_handler alive obj (w # ws) =
     (if (if alive (fst w) then Some (fst w) else None) = obj then ws else w # erase_handler alive obj ws)"

definition UnRegisterMsg :: "'w MsgBus_scheme \<Rightarrow> byte list \<Rightarrow> nat option \<Rightarrow> 'w MsgBus_scheme cres" where
  "UnRegisterMsg st mid p_handler_obj =
     (if \<not> s_msgbus_running st then Inl AssertFailed
      else case s_all_msghandler_objs st mid of
        None \<Rightarrow> Inr st
      | Some ws \<Rightarrow> Inr (st\<lparr>s_all_msghandler_objs :=
          (s_all_msghandler_objs st)(mid \<mapsto> erase_handler (strong st) p_handler_obj ws)\<rparr>))"

definition AddHandler :: "'w MsgBus_scheme \<Rightarrow> nat \<Rightarrow> byte list \<Rightarrow> nat option \<Rightarrow> int \<Rightarrow> 'w MsgBus_scheme cres" where
  "AddHandler st this mid hfunc type =
     (let st = st\<lparr>all_handlers := (all_handlers st)(this :=
          map_insert mid \<lparr>htype = type, handler_func = hfunc\<rparr> (all_handlers st this))\<rparr> in
      cmap fst (RegisterMsg st mid (Some this) (type \<noteq> 2)))"

definition RemoveHandler :: "'w MsgBus_scheme \<Rightarrow> nat \<Rightarrow> byte list \<Rightarrow> 'w MsgBus_scheme cres" where
  "RemoveHandler st this mid =
     UnRegisterMsg (st\<lparr>all_handlers := (all_handlers st)(this := map_erase mid (all_handlers st this))\<rparr>) mid (Some this)"

fun unregister_all :: "'w MsgBus_scheme \<Rightarrow> nat \<Rightarrow> (byte list \<times> HandlerTWrapper) list \<Rightarrow> 'w MsgBus_scheme cres" where
  "unregister_all st this [] = Inr st"
| "unregister_all st this (h # hs) = cbind (UnRegisterMsg st (fst h) (Some this)) (\<lambda>st. unregister_all st this hs)"

definition RemoveAllHandlers :: "'w MsgBus_scheme \<Rightarrow> nat \<Rightarrow> 'w MsgBus_scheme cres" where
  "RemoveAllHandlers st this =
     cmap (\<lambda>st. st\<lparr>all_handlers := (all_handlers st)(this := [])\<rparr>)
       (unregister_all st this (all_handlers st this))"

text \<open>The last strong reference goes: from then on \<open>lock\<close> fails, and the destructor runs.\<close>

definition drop_last_reference :: "'w MsgBus_scheme \<Rightarrow> nat \<Rightarrow> 'w MsgBus_scheme cres" where
  "drop_last_reference st this = RemoveAllHandlers (st\<lparr>strong := (strong st)(this := False)\<rparr>) this"

section \<open>The bus thread\<close>

text \<open>What the thread takes out of the queues under the lock (lines 509 to 538): synchronous messages first.\<close>

function merge_posts :: "MsgTask list \<Rightarrow> (byte list \<times> MsgTask list) list" where
  "merge_posts [] = []"
| "merge_posts (t # ts) =
     (msgid t, t # takeWhile (\<lambda>u. msgid u = msgid t) ts) # merge_posts (dropWhile (\<lambda>u. msgid u = msgid t) ts)"
  by pat_completeness auto
termination by (relation "measure length") (auto simp: less_Suc_eq_le length_dropWhile_le)

fun collect_tasks :: "MsgTask list \<Rightarrow> MsgTask list \<Rightarrow> (byte list \<times> MsgTask list) list" where
  "collect_tasks (t # sends) posts = (msgid t, [t]) # collect_tasks sends posts"
| "collect_tasks [] posts = merge_posts posts"

text \<open>The result of a task goes to the structure its caller has entered, if it has one.\<close>

definition fill_info :: "'w MsgBus_scheme \<Rightarrow> nat \<Rightarrow> MsgTask \<Rightarrow> 'w MsgBus_scheme" where
  "fill_info st q t = st\<lparr>ready_infos := (ready_infos st)[q := \<lparr>ready = True, rspparam = msgparam t, rspresult = ret t\<rparr>]\<rparr>"

definition notify_task :: "'w MsgBus_scheme \<Rightarrow> MsgTask \<Rightarrow> 'w MsgBus_scheme" where
  "notify_task st t =
     (if callertid t = msgbus_tid st then st
      else case s_ready_sendmsgs st (callertid t) of
        None \<Rightarrow> st
      | Some q \<Rightarrow> fill_info st q t)"

definition run_group :: "'w member_fns \<Rightarrow> 'w MsgBus_scheme \<Rightarrow> byte list \<Rightarrow> MsgTask list \<Rightarrow> 'w MsgBus_scheme cres" where
  "run_group env st mid mtasks =
     cbind (SendMsgInMsgBusThread env (msgbus_tid st) st mid mtasks) (\<lambda>(st, mtasks). Inr (fold (\<lambda>t st. notify_task st t) mtasks st))"

fun run_groups :: "'w member_fns \<Rightarrow> 'w MsgBus_scheme \<Rightarrow> (byte list \<times> MsgTask list) list \<Rightarrow> 'w MsgBus_scheme cres" where
  "run_groups env st [] = Inr st"
| "run_groups env st ((mid, mtasks) # gs) = cbind (run_group env st mid mtasks) (\<lambda>st. run_groups env st gs)"

text \<open>
  One round of \<open>MsgTaskProcessProc\<close>: the flag says whether the thread goes on. \<open>term_after\<close> is the value of the
  terminate flag read again after the tasks were taken.
\<close>

definition take_tasks :: "'w MsgBus_scheme \<Rightarrow> (byte list \<times> MsgTask list) list \<times> 'w MsgBus_scheme" where
  "take_tasks st =
     (collect_tasks (s_all_sendmsgtask st) (s_all_msgtask st), st\<lparr>s_all_sendmsgtask := [], s_all_msgtask := []\<rparr>)"

definition MsgTaskProcess_round :: "'w member_fns \<Rightarrow> 'w MsgBus_scheme \<Rightarrow> bool \<Rightarrow> (bool \<times> 'w MsgBus_scheme) cres" where
  "MsgTaskProcess_round env st term_after =
     (if s_msgbus_terminate st then Inr (False, st\<lparr>s_msgbus_running := False\<rparr>)
      else let (running_task_list, st) = take_tasks st in
        if term_after then Inr (False, st\<lparr>s_msgbus_terminate := True, s_msgbus_running := False\<rparr>)
        else cmap (\<lambda>st. (True, st)) (run_groups env st running_task_list))"

text \<open>\<open>created\<close> is the thread \<open>pthread_create\<close> starts; \<open>InitMsgBus\<close> waits until it has set the running flag.\<close>

definition InitMsgBus :: "'w MsgBus_scheme \<Rightarrow> nat option \<Rightarrow> 'w MsgBus_scheme \<times> bool" where
  "InitMsgBus st created =
     (if s_msgbus_running st then (st, True)
      else case created of
        None \<Rightarrow> (st\<lparr>s_msgbus_terminate := False\<rparr>, False)
      | Some tid \<Rightarrow> (st\<lparr>s_msgbus_terminate := False, msgbus_tid := tid, s_msgbus_running := True\<rparr>, True))"

definition DestroyMsgBus :: "'w MsgBus_scheme \<Rightarrow> 'w MsgBus_scheme" where
  "DestroyMsgBus st =
     st\<lparr>s_msgbus_terminate := True, s_msgbus_running := False, s_all_msgtask := [], s_all_sendmsgtask := [],
        s_all_msghandler_objs := Map.empty\<rparr>"

text \<open>The handlers \<open>printAllMsgHandler\<close> prints; like a dispatch it erases expired references.\<close>

definition printAllMsgHandler :: "'w MsgBus_scheme \<Rightarrow> byte list \<Rightarrow> nat list \<times> 'w MsgBus_scheme" where
  "printAllMsgHandler st mid = lock_handlers st mid"

end
