(* ===== verification/Local_Bus_Props.thy ===== *)
theory Local_Bus_Props
  imports Local_Bus
begin

text \<open>
  Correctness of the local bus: what the handlers of a message see and what becomes of their results, registration,
  and that merging posted messages of one id is not observable.
\<close>

section \<open>The handlers of one message\<close>

lemma DeepCopy_copy: "DeepCopy p = Inr q \<Longrightarrow> DeepCopy q = Inr q"
  by (auto simp: DeepCopy_def memcpy_ptr_def cload_def cbind_def split: option.splits if_splits sum.splits)

fun called :: "('h \<Rightarrow> bool) \<Rightarrow> 'h list \<Rightarrow> 'h list" where
  "called goes_on [] = []"
| "called goes_on (h # hs) = h # (if goes_on h then called goes_on hs else [])"

lemma called_prefix: "\<exists>rest. hs = called goes_on hs @ rest"
  by (induction hs) auto

definition pure_handlers :: "'w member_fns \<Rightarrow> byte list \<Rightarrow> 'w MsgBus_scheme \<Rightarrow> (nat \<Rightarrow> MsgBusParam \<Rightarrow> bool \<times> MsgBusParam \<times> bool) \<Rightarrow> bool" where
  "pure_handlers env mid st beh \<longleftrightarrow> (\<forall>h p. OnMsg env st h mid p True = Inr (st, beh h p))"

lemma run_handlers_pure:
  assumes "pure_handlers env mid st beh" "DeepCopy orig = Inr orig"
  shows "run_handlers env mid orig hs st param result True =
    (let cs = called (\<lambda>h. snd (snd (beh h orig))) hs; acc = filter (\<lambda>h. fst (beh h orig)) cs in
     Inr (st, (if cs = [] then result else fst (beh (last cs) orig)), (if acc = [] then param else fst (snd (beh (last acc) orig)))))"
proof (induction hs arbitrary: param result)
  case (Cons h hs)
  obtain r p' c where b: "beh h orig = (r, p', c)" by (cases "beh h orig")
  have on: "OnMsg env st h mid orig True = Inr (st, r, p', c)" using assms(1) b by (simp add: pure_handlers_def)
  show ?case
  proof (cases c)
    case True
    with Cons.IH [of "if r then p' else param" r] show ?thesis using assms(2) on b by (auto simp: cbind_def Let_def)
  next
    case False
    with assms(2) on b show ?thesis by (auto simp: cbind_def Let_def)
  qed
qed (simp add: Let_def)


text \<open>Two handlers, the first reverses the parameter and accepts, the second refuses: the result is false.\<close>

definition demo_bus_state :: MsgBus where
  "demo_bus_state = \<lparr>s_all_msghandler_objs = Map.empty, s_all_msgtask = [], s_all_sendmsgtask = [], s_msgbus_running = True,
     s_msgbus_terminate = False, msgbus_tid = 0, s_ready_sendmsgs = Map.empty, ready_infos = [], strong = (\<lambda>_. True),
     all_handlers = (\<lambda>_. [(lit ''m'', \<lparr>htype = 0, handler_func = Some 1\<rparr>)]), s_threadpool_running = True, pool_tasks = []\<rparr>"

definition demo_fn :: "nat \<Rightarrow> MsgBusParam \<Rightarrow> bool \<times> MsgBusParam \<times> bool" where
  "demo_fn h p = (h = 1, p\<lparr>paramdata := map_option rev (paramdata p)\<rparr>, True)"

definition demo_fns :: "unit member_fns" where
  "demo_fns f this mid p c st = Inr (st, demo_fn this p)"


section \<open>Merging posted messages\<close>

text \<open>Member functions that leave the registrations alone.\<close>

definition same_handlers :: "'w MsgBus_scheme \<Rightarrow> 'w MsgBus_scheme \<Rightarrow> bool" where
  "same_handlers st st' \<longleftrightarrow> s_all_msghandler_objs st' = s_all_msghandler_objs st \<and> strong st' = strong st \<and> msgbus_tid st' = msgbus_tid st"

definition keeps_handlers :: "'w member_fns \<Rightarrow> bool" where
  "keeps_handlers env \<longleftrightarrow> (\<forall>f this mid p c st st' r. env f this mid p c st = Inr (st', r) \<longrightarrow> same_handlers st st')"

lemma same_handlers_refl [simp]: "same_handlers st st"
  by (simp add: same_handlers_def)

text \<open>A relation the member functions respect holds between the states before and after a dispatch.\<close>

definition kept_by :: "('w MsgBus_scheme \<Rightarrow> 'w MsgBus_scheme \<Rightarrow> bool) \<Rightarrow> 'w member_fns \<Rightarrow> bool" where
  "kept_by R env \<longleftrightarrow> reflp R \<and> transp R \<and> (\<forall>st x. R st (st\<lparr>pool_tasks := x\<rparr>)) \<and>
     (\<forall>f this mid p c st st' r. env f this mid p c st = Inr (st', r) \<longrightarrow> R st st')"

lemma handlers_kept: "keeps_handlers env \<Longrightarrow> kept_by same_handlers env"
  unfolding kept_by_def keeps_handlers_def by (simp add: same_handlers_def reflp_def transp_def)

lemma OnMsg_kept:
  assumes "kept_by R env" "OnMsg env st h mid p c = Inr (st', r)"
  shows "R st st'"
proof -
  have k: "R st st'" if "env f h mid p True st = Inr (st', r)" for f
    using assms(1) that unfolding kept_by_def by blast
  have "R st st" "R st (st\<lparr>pool_tasks := x\<rparr>)" for x
    using assms(1) by (simp_all add: kept_by_def reflp_def)
  with assms(2) show ?thesis by (auto simp: OnMsg_def dest: k split: option.splits if_splits)
qed

lemma run_handlers_kept:
  assumes "kept_by R env" "run_handlers env mid orig hs st param result c = Inr (st', r)"
  shows "R st st'"
  using assms(2)
proof (induction hs arbitrary: st param result c)
  case Nil
  with assms(1) show ?case by (simp add: kept_by_def reflp_def)
next
  case (Cons h hs)
  from Cons.prems obtain ip x where ip: "DeepCopy orig = Inr ip" and x: "OnMsg env st h mid ip c = Inr x"
    by (auto simp: cbind_def split: sum.splits)
  obtain s1 r1 p1 c1 where x1: "x = (s1, r1, p1, c1)" by (cases x)
  note on = x [unfolded x1]
  have rest: "(if c1 then run_handlers env mid orig hs s1 (if r1 then p1 else param) r1 c1 else Inr (s1, r1, if r1 then p1 else param)) = Inr (st', r)"
    using Cons.prems ip on by (auto simp: cbind_def Let_def split: if_splits)
  have "R st s1" by (rule OnMsg_kept [OF assms(1) on])
  moreover have "R s1 st'" using rest Cons.IH assms(1) by (cases c1) (auto simp: kept_by_def reflp_def)
  ultimately show ?case using assms(1) by (auto simp: kept_by_def elim: transpE)
qed

lemma Execute_callers:
  assumes "ExecuteMsgBusHandlers env mid ts hs st = Inr (st', ts')"
  shows "map callertid ts' = map callertid ts"
  using assms by (induction ts arbitrary: st ts') (auto simp: cbind_def split: sum.splits)

lemma Execute_kept:
  assumes "kept_by R env" "ExecuteMsgBusHandlers env mid ts hs st = Inr (st', ts')"
  shows "R st st'"
  using assms(2)
proof (induction ts arbitrary: st ts')
  case Nil
  with assms(1) show ?case by (simp add: kept_by_def reflp_def)
next
  case (Cons t ts)
  from Cons.prems obtain orig s1 r p us where h: "run_handlers env mid orig hs st (msgparam t) False True = Inr (s1, r, p)"
    and e: "ExecuteMsgBusHandlers env mid ts hs s1 = Inr (st', us)"
    by (auto simp: cbind_def split: sum.splits)
  from run_handlers_kept [OF assms(1) h] Cons.IH [OF e] show ?case using assms(1) by (auto simp: kept_by_def elim: transpE)
qed

lemma Execute_handlers:
  assumes "keeps_handlers env" "ExecuteMsgBusHandlers env mid ts hs st = Inr (st', ts')"
  shows "same_handlers st st' \<and> map callertid ts' = map callertid ts"
  using Execute_kept [OF handlers_kept [OF assms(1)] assms(2)] Execute_callers [OF assms(2)] by simp

lemma lock_handlers_again:
  assumes "lock_handlers st mid = (hs, s1)" "same_handlers s1 s2"
  shows "lock_handlers s2 mid = (hs, s2)"
  using assms
  by (auto simp: lock_handlers_def set_handlers_def same_handlers_def Let_def o_def split: option.splits if_splits)

lemma lock_handlers_tid: "lock_handlers st mid = (hs, s1) \<Longrightarrow> msgbus_tid s1 = msgbus_tid st"
  by (auto simp: lock_handlers_def set_handlers_def Let_def split: option.splits)

lemma notify_own: "\<forall>t\<in>set ts. callertid t = msgbus_tid st \<Longrightarrow> fold (\<lambda>t st. notify_task st t) ts st = st"
  by (induction ts) (auto simp: notify_task_def)

lemma run_group_posts:
  assumes "keeps_handlers env" "\<forall>t\<in>set ts. callertid t = msgbus_tid st"
  shows "run_group env st mid ts = (case lock_handlers st mid of (hs, s1) \<Rightarrow> cmap fst (ExecuteMsgBusHandlers env mid ts hs s1))"
proof -
  obtain hs s1 where l: "lock_handlers st mid = (hs, s1)" by (cases "lock_handlers st mid")
  show ?thesis
  proof (cases "ExecuteMsgBusHandlers env mid ts hs s1")
    case (Inr x)
    obtain s2 us where x: "x = (s2, us)" by (cases x)
    from Execute_handlers [OF assms(1) Inr [unfolded x]] lock_handlers_tid [OF l]
    have r: "msgbus_tid s2 = msgbus_tid st" "map callertid us = map callertid ts" by (auto simp: same_handlers_def)
    have "\<forall>t\<in>set us. callertid t = msgbus_tid s2"
    proof
      fix u assume "u \<in> set us"
      then have "callertid u \<in> set (map callertid us)" by simp
      with r assms(2) show "callertid u = msgbus_tid s2" by auto
    qed
    from notify_own [OF this] Inr x l show ?thesis by (simp add: run_group_def SendMsgInMsgBusThread_def cbind_def cmap_def)
  qed (simp add: run_group_def SendMsgInMsgBusThread_def cbind_def cmap_def l)
qed

lemma run_group_Cons:
  assumes env: "keeps_handlers env" and own: "\<forall>u\<in>set (t # ts). callertid u = msgbus_tid st"
  shows "run_group env st mid (t # ts) = cbind (run_group env st mid [t]) (\<lambda>st. run_group env st mid ts)"
proof -
  obtain hs s1 where l: "lock_handlers st mid = (hs, s1)" by (cases "lock_handlers st mid")
  show ?thesis
  proof (cases "ExecuteMsgBusHandlers env mid [t] hs s1")
    case (Inl e)
    then show ?thesis using run_group_posts [OF env own] run_group_posts [of env "[t]" st mid] env own l
      by (auto simp: cbind_def cmap_def split: sum.splits)
  next
    case (Inr x)
    obtain s2 us where x: "x = (s2, us)" by (cases x)
    from Execute_handlers [OF env Inr [unfolded x]] have r: "same_handlers s1 s2" by simp
    with lock_handlers_tid [OF l] own have own2: "\<forall>u\<in>set ts. callertid u = msgbus_tid s2" by (simp add: same_handlers_def)
    from run_group_posts [OF env own2] lock_handlers_again [OF l r]
    have "run_group env s2 mid ts = cmap fst (ExecuteMsgBusHandlers env mid ts hs s2)" by simp
    with run_group_posts [OF env own] run_group_posts [of env "[t]" st mid] env own l Inr x show ?thesis
      by (auto simp: cbind_def cmap_def split: sum.splits)
  qed
qed

lemma notify_tid: "msgbus_tid (fold (\<lambda>t st. notify_task st t) ts st) = msgbus_tid st"
  by (induction ts arbitrary: st) (auto simp: notify_task_def fill_info_def split: option.splits)

lemma run_group_keeps:
  assumes "keeps_handlers env" "run_group env st mid ts = Inr st'"
  shows "msgbus_tid st' = msgbus_tid st"
proof -
  obtain hs s1 where l: "lock_handlers st mid = (hs, s1)" by (cases "lock_handlers st mid")
  with assms(2) obtain s2 us where "ExecuteMsgBusHandlers env mid ts hs s1 = Inr (s2, us)"
    and "st' = fold (\<lambda>t st. notify_task st t) us s2"
    by (auto simp: run_group_def SendMsgInMsgBusThread_def cbind_def split: sum.splits)
  with Execute_handlers [OF assms(1)] lock_handlers_tid [OF l] show ?thesis by (auto simp: same_handlers_def notify_tid)
qed

lemma run_groups_keeps:
  assumes "keeps_handlers env" "run_groups env st gs = Inr st'"
  shows "msgbus_tid st' = msgbus_tid st"
  using assms(2)
proof (induction gs arbitrary: st)
  case (Cons g gs)
  from Cons.prems obtain s1 where s1: "run_group env st (fst g) (snd g) = Inr s1" "run_groups env s1 gs = Inr st'"
    by (cases g) (auto simp: cbind_def split: sum.splits)
  from run_group_keeps [OF assms(1) s1(1)] Cons.IH [OF s1(2)] show ?case by simp
qed simp

abbreviation one_by_one :: "MsgTask list \<Rightarrow> (byte list \<times> MsgTask list) list" where
  "one_by_one ts \<equiv> map (\<lambda>t. (msgid t, [t])) ts"

lemma run_groups_append: "run_groups env st (gs @ hs) = cbind (run_groups env st gs) (\<lambda>st. run_groups env st hs)"
  by (induction gs arbitrary: st) (auto simp: cbind_def split: sum.splits)

lemma run_group_split:
  assumes "keeps_handlers env" "\<forall>t\<in>set ts. msgid t = mid \<and> callertid t = msgbus_tid st" "ts \<noteq> []"
  shows "run_group env st mid ts = run_groups env st (one_by_one ts)"
  using assms(2,3)
proof (induction ts arbitrary: st)
  case (Cons t ts)
  show ?case
  proof (cases "ts = []")
    case True
    with Cons.prems show ?thesis by (auto simp: cbind_def split: sum.splits)
  next
    case False
    have "run_group env st' mid ts = run_groups env st' (one_by_one ts)" if "run_group env st mid [t] = Inr st'" for st'
      using Cons.IH [of st'] Cons.prems run_group_keeps [OF assms(1) that] False by auto
    with Cons.prems run_group_Cons [OF assms(1), of t ts st mid] show ?thesis by (auto simp: cbind_def split: sum.splits)
  qed
qed simp

lemma merge_posts_run:
  assumes "keeps_handlers env" "\<forall>t\<in>set posts. callertid t = msgbus_tid st"
  shows "run_groups env st (merge_posts posts) = run_groups env st (one_by_one posts)"
  using assms(2)
proof (induction posts arbitrary: st rule: merge_posts.induct)
  case (2 t ts)
  let ?same = "takeWhile (\<lambda>u. msgid u = msgid t) ts" and ?rest = "dropWhile (\<lambda>u. msgid u = msgid t) ts"
  have in_ts: "set ?same \<subseteq> set ts" "set ?rest \<subseteq> set ts" by (auto dest: set_takeWhileD set_dropWhileD)
  have grp: "run_group env st (msgid t) (t # ?same) = run_groups env st (one_by_one (t # ?same))"
    by (rule run_group_split [OF assms(1)]) (use "2.prems" in_ts in \<open>auto dest: set_takeWhileD\<close>)
  have rest: "run_groups env s (merge_posts ?rest) = run_groups env s (one_by_one ?rest)"
    if "run_groups env st (one_by_one (t # ?same)) = Inr s" for s
  proof -
    from run_groups_keeps [OF assms(1) that] "2.prems" in_ts have "\<forall>u\<in>set ?rest. callertid u = msgbus_tid s" by auto
    then show ?thesis by (rule "2.IH")
  qed
  have "one_by_one (t # ts) = one_by_one (t # ?same) @ one_by_one ?rest"
    by (simp flip: map_append)
  with grp rest show ?case
    by (simp add: run_groups_append del: list.map(2)) (auto simp: cbind_def split: sum.splits)
qed simp

lemma collect_tasks_eq: "collect_tasks sends posts = one_by_one sends @ merge_posts posts"
  by (induction sends) auto


lemma PostMsg_own:
  assumes "PostMsg st mid param = Inr (st', r)" "\<forall>t\<in>set (s_all_msgtask st). callertid t = msgbus_tid st"
  shows "\<forall>t\<in>set (s_all_msgtask st'). callertid t = msgbus_tid st'"
  using assms by (auto simp: PostMsg_def new_MsgTask_def cbind_def split: if_splits sum.splits)

definition demo_queued :: MsgBus where
  "demo_queued = demo_bus_state\<lparr>s_all_msghandler_objs := [lit ''m'' \<mapsto> [(1, True)]],
     s_all_msgtask := [new_MsgTask (lit ''m'') (CustomType2Param [1]) 0, new_MsgTask (lit ''m'') (CustomType2Param [2]) 0,
       new_MsgTask (lit ''n'') (CustomType2Param [3]) 0]\<rparr>"


section \<open>Registration\<close>

definition live_handlers :: "'w MsgBus_scheme \<Rightarrow> byte list \<Rightarrow> nat list" where
  "live_handlers st mid = fst (lock_handlers st mid)"

definition handlers_inv :: "'w MsgBus_scheme \<Rightarrow> bool" where
  "handlers_inv st \<longleftrightarrow> (\<forall>mid ws. s_all_msghandler_objs st mid = Some ws \<longrightarrow> distinct (map fst ws))"

fun live_of :: "(nat \<Rightarrow> bool) \<Rightarrow> (nat \<times> bool) list option \<Rightarrow> nat list" where
  "live_of alive None = []"
| "live_of alive (Some ws) = filter alive (map fst ws)"

lemma live_handlers_eq: "live_handlers st mid = live_of (strong st) (s_all_msghandler_objs st mid)"
  by (simp add: live_handlers_def lock_handlers_def Let_def filter_map split: option.splits)

lemma erase_handler_strong:
  assumes "distinct (map fst ws)" "alive p"
  shows "erase_handler alive (Some p) ws = filter (\<lambda>w. fst w \<noteq> p) ws"
  using assms(1)
proof (induction ws)
  case (Cons w ws)
  then have "fst w = p \<Longrightarrow> filter (\<lambda>u. fst u \<noteq> p) ws = ws" by (auto simp: filter_id_conv image_iff)
  with Cons assms(2) show ?case by auto
qed simp

lemma erase_handler_expired: "\<not> alive p \<Longrightarrow> erase_handler alive (Some p) ws = ws"
  by (induction ws) auto

lemma AddHandler_live:
  assumes "handlers_inv st" "s_msgbus_running st" "strong st p"
  shows "\<exists>st'. AddHandler st p mid f ty = Inr st' \<and> handlers_inv st' \<and> s_msgbus_running st' \<and> strong st' = strong st \<and>
    all_handlers st' = (all_handlers st)(p := map_insert mid \<lparr>htype = ty, handler_func = f\<rparr> (all_handlers st p)) \<and>
    live_handlers st' = (live_handlers st)(mid := (if p \<in> set (live_handlers st mid) then live_handlers st mid else live_handlers st mid @ [p]))"
proof (cases "s_all_msghandler_objs st mid")
  case None
  with assms show ?thesis
    by (auto simp: AddHandler_def RegisterMsg_def Let_def cmap_def cbind_def handlers_inv_def live_handlers_eq set_handlers_def fun_eq_iff)
next
  case (Some ws)
  show ?thesis
  proof (cases "p \<in> fst ` set ws")
    case True
    with Some assms show ?thesis
      by (auto simp: AddHandler_def RegisterMsg_def Let_def cmap_def cbind_def handlers_inv_def live_handlers_eq fun_eq_iff)
  next
    case False
    with Some assms(1) have "distinct (map fst (ws @ [(p, ty \<noteq> 2)]))" by (simp add: handlers_inv_def)
    with False Some assms show ?thesis
      by (auto simp: AddHandler_def RegisterMsg_def Let_def cmap_def cbind_def handlers_inv_def live_handlers_eq set_handlers_def fun_eq_iff image_iff)
  qed
qed

lemma RemoveHandler_live:
  assumes "handlers_inv st" "s_msgbus_running st" "strong st p"
  shows "\<exists>st'. RemoveHandler st p mid = Inr st' \<and> handlers_inv st' \<and> strong st' = strong st \<and>
    live_handlers st' = (live_handlers st)(mid := filter (\<lambda>h. h \<noteq> p) (live_handlers st mid))"
proof (cases "s_all_msghandler_objs st mid")
  case None
  with assms show ?thesis by (auto simp: RemoveHandler_def UnRegisterMsg_def handlers_inv_def live_handlers_eq fun_eq_iff)
next
  case (Some ws)
  with assms(1) have d: "distinct (map fst ws)" by (simp add: handlers_inv_def)
  then have "distinct (map fst (filter (\<lambda>w. fst w \<noteq> p) ws))" by (simp add: distinct_map_filter)
  with assms Some erase_handler_strong [OF d, of "strong st" p] show ?thesis
    by (auto simp: RemoveHandler_def UnRegisterMsg_def handlers_inv_def live_handlers_eq fun_eq_iff filter_map o_def conj_commute)
qed

text \<open>
  C20: registration. Adding a handler for an id appends its object to the live handlers of the id unless it is one of
  them already, so an object is never called twice for a message; removing it takes exactly this object out.
  Other ids are not touched, and the other handlers keep their order.
\<close>

theorem handler_registration:
  assumes "handlers_inv st" "s_msgbus_running st" "strong st p"
  shows "\<exists>st1 st2. AddHandler st p mid f ty = Inr st1 \<and> handlers_inv st1 \<and>
    live_handlers st1 = (live_handlers st)(mid := (if p \<in> set (live_handlers st mid) then live_handlers st mid else live_handlers st mid @ [p])) \<and>
    distinct (live_handlers st1 mid) \<and>
    RemoveHandler st1 p mid = Inr st2 \<and> handlers_inv st2 \<and>
    live_handlers st2 = (live_handlers st)(mid := filter (\<lambda>h. h \<noteq> p) (live_handlers st mid))"
proof -
  obtain st1 where 1: "AddHandler st p mid f ty = Inr st1" "handlers_inv st1" "s_msgbus_running st1" "strong st1 = strong st"
    "live_handlers st1 = (live_handlers st)(mid := (if p \<in> set (live_handlers st mid) then live_handlers st mid else live_handlers st mid @ [p]))"
    using AddHandler_live [OF assms] by blast
  obtain st2 where 2: "RemoveHandler st1 p mid = Inr st2" "handlers_inv st2"
    "live_handlers st2 = (live_handlers st1)(mid := filter (\<lambda>h. h \<noteq> p) (live_handlers st1 mid))"
    using RemoveHandler_live [of st1 p mid] 1 assms by auto
  have "distinct (live_handlers st1 mid)"
    using 1(2) by (cases "s_all_msghandler_objs st1 mid") (auto simp: handlers_inv_def live_handlers_eq)
  with 1 2 show ?thesis by auto
qed

theorem handler_registration_witness:
  "\<exists>st1 st2. AddHandler demo_queued 2 (lit ''m'') (Some 1) 0 = Inr st1 \<and> live_handlers st1 (lit ''m'') = [1, 2] \<and>
    RemoveHandler st1 2 (lit ''m'') = Inr st2 \<and> live_handlers st2 (lit ''m'') = [1]"
proof -
  have h: "handlers_inv demo_queued" "s_msgbus_running demo_queued" "strong demo_queued 2" "live_handlers demo_queued (lit ''m'') = [1]"
    by (simp_all add: handlers_inv_def demo_queued_def demo_bus_state_def live_handlers_eq)
  from handler_registration [OF h(1-3), of "lit ''m''" "Some 1" 0] h(4) show ?thesis by auto
qed

text \<open>
  a second registration does not change where a handler is called. When an object registers a function as callable in
  any thread (type 2) and then replaces it by one for the bus thread (type 0), the entry keeps the first flag:
  a message sent from another thread calls the new function in that thread.
\<close>

theorem reregister_keeps_thread:
  assumes "handlers_inv st" "s_msgbus_running st" "strong st p" "s_all_msghandler_objs st mid = None" "map_sorted (all_handlers st p)"
    "self \<noteq> msgbus_tid st" "DeepCopy param = Inr param"
  shows "\<exists>st1 st2. AddHandler st p mid (Some f) 2 = Inr st1 \<and> AddHandler st1 p mid (Some g) 0 = Inr st2 \<and>
    SendMsg_begin env self st2 mid param =
      cmap (\<lambda>(st', r, param', c). (st', Returned r (if r then param' else param))) (env g p mid param True st2)"
proof -
  let ?st1 = "st\<lparr>all_handlers := (all_handlers st)(p := map_insert mid \<lparr>htype = 2, handler_func = Some f\<rparr> (all_handlers st p)),
     s_all_msghandler_objs := (s_all_msghandler_objs st)(mid \<mapsto> [(p, False)])\<rparr>"
  let ?st2 = "?st1\<lparr>all_handlers := (all_handlers ?st1)(p := map_insert mid \<lparr>htype = 0, handler_func = Some g\<rparr> (all_handlers ?st1 p))\<rparr>"
  have 1: "AddHandler st p mid (Some f) 2 = Inr ?st1"
    using assms by (simp add: AddHandler_def RegisterMsg_def set_handlers_def cmap_def cbind_def)
  have 2: "AddHandler ?st1 p mid (Some g) 0 = Inr ?st2"
    using assms by (simp add: AddHandler_def RegisterMsg_def cmap_def cbind_def)
  have on: "OnMsg env ?st2 p mid param True = env g p mid param True ?st2"
    using assms(5) by (simp add: OnMsg_def map_of_insert)
  have "set_handlers ?st2 mid [(p, False)] = ?st2" by (simp add: set_handlers_def)
  with assms on have "SendMsg_begin env self ?st2 mid param =
      cmap (\<lambda>(st', r, param', c). (st', Returned r (if r then param' else param))) (env g p mid param True ?st2)"
    by (auto simp: SendMsg_begin_def new_MsgTask_def Let_def cmap_def cbind_def split: sum.splits)
  with 1 2 show ?thesis by blast
qed

theorem reregister_keeps_thread_witness:
  "\<exists>st1 st2 st'. AddHandler demo_bus_state 1 (lit ''k'') (Some 8) 2 = Inr st1 \<and> AddHandler st1 1 (lit ''k'') (Some 9) 0 = Inr st2 \<and>
    SendMsg_begin demo_fns 5 st2 (lit ''k'') (CustomType2Param [1, 2]) = Inr (st', Returned True \<lparr>paramdata = Some [2, 1], paramlen = 2\<rparr>)"
proof -
  have h: "handlers_inv demo_bus_state" "s_msgbus_running demo_bus_state" "strong demo_bus_state 1"
    "s_all_msghandler_objs demo_bus_state (lit ''k'') = None" "map_sorted (all_handlers demo_bus_state 1)" "(5 :: nat) \<noteq> msgbus_tid demo_bus_state"
    "DeepCopy (CustomType2Param [1, 2]) = Inr (CustomType2Param [1, 2])"
    by (simp_all add: handlers_inv_def demo_bus_state_def CustomType2Param_def DeepCopy_def memcpy_ptr_def cload_def cbind_def)
  from reregister_keeps_thread [OF h, of 8 9 demo_fns] show ?thesis
    by (auto simp: demo_fns_def demo_fn_def cmap_def cbind_def CustomType2Param_def)
qed

text \<open>The destructor runs when no strong reference is left, so none of its references is found and all stay registered.\<close>

lemma unregister_all_expired:
  assumes "\<not> strong st p" "s_msgbus_running st"
  shows "\<exists>st'. unregister_all st p hs = Inr st' \<and> s_all_msghandler_objs st' = s_all_msghandler_objs st \<and> strong st' = strong st"
  using assms
proof (induction hs arbitrary: st)
  case (Cons h hs)
  have "\<exists>s1. UnRegisterMsg st (fst h) (Some p) = Inr s1 \<and> s_all_msghandler_objs s1 = s_all_msghandler_objs st \<and> strong s1 = strong st \<and> s_msgbus_running s1"
    using Cons.prems by (auto simp: UnRegisterMsg_def erase_handler_expired map_upd_triv split: option.splits)
  then obtain s1 where s1: "UnRegisterMsg st (fst h) (Some p) = Inr s1" "s_all_msghandler_objs s1 = s_all_msghandler_objs st"
    "strong s1 = strong st" "s_msgbus_running s1" by blast
  with Cons.IH [of s1] Cons.prems show ?case by (simp add: cbind_def)
qed simp

theorem destructor_keeps_registrations:
  assumes "s_msgbus_running st"
  shows "\<exists>st'. drop_last_reference st p = Inr st' \<and> s_all_msghandler_objs st' = s_all_msghandler_objs st \<and>
    live_handlers st' mid = filter (\<lambda>h. h \<noteq> p) (live_handlers st mid)"
proof -
  obtain st' where u: "unregister_all (st\<lparr>strong := (strong st)(p := False)\<rparr>) p (all_handlers st p) = Inr st'"
    "s_all_msghandler_objs st' = s_all_msghandler_objs st" "strong st' = (strong st)(p := False)"
    using unregister_all_expired [of "st\<lparr>strong := (strong st)(p := False)\<rparr>" p "all_handlers st p"] assms by auto
  then show ?thesis
    by (cases "s_all_msghandler_objs st mid")
      (auto simp: drop_last_reference_def RemoveAllHandlers_def cmap_def cbind_def live_handlers_eq filter_map o_def conj_commute
        intro!: filter_cong arg_cong [where f = "map fst"])
qed

theorem destructor_after_shutdown_asserts:
  "all_handlers st p \<noteq> [] \<Longrightarrow> drop_last_reference (DestroyMsgBus st) p = Inl AssertFailed"
  by (cases "all_handlers st p")
    (auto simp: drop_last_reference_def RemoveAllHandlers_def DestroyMsgBus_def UnRegisterMsg_def cmap_def cbind_def)

end
