(* ===== verification/Local_Bus_Sync.thy ===== *)
theory Local_Bus_Sync
  imports Local_Bus_Props
begin

text \<open>
  Synchronous messages between threads. A thread that sends a message whose handlers belong to the bus thread enters an
  info structure in \<open>s_ready_sendmsgs\<close>, queues a task and waits; the bus thread executes the task, looks the structure
  up by the caller's thread id and marks it ready. The critical sections of both sides are the steps of the
  relation \<open>sync_step\<close>, so its runs are all interleavings of any number of callers, posting threads and the bus
  thread; the condition variables may wake spuriously. The flag of the relation allows the callers' waits to time out.
\<close>

section \<open>Interleaved runs\<close>

datatype event =
    Call nat "byte list" MsgBusParam
  | Exec nat "byte list" MsgBusParam bool MsgBusParam
  | Return nat bool MsgBusParam
  | TimedOut nat

text \<open>Where a calling thread is: before \<open>SendMsg\<close>, between its two critical sections, about to look, in
  \<open>waittime\<close>, and before it erases its entry.\<close>

datatype caller_pc =
    Idle
  | Registered "byte list" MsgBusParam nat
  | Looking "byte list" MsgBusParam nat
  | Blocked "byte list" MsgBusParam nat
  | Leaving "(bool \<times> MsgBusParam) option"

text \<open>Where the bus thread is: before the queues, in \<open>wait\<close>, before a group, before the notification of
  executed tasks, and between looking up a structure and filling it.\<close>

datatype bus_pc =
    Top
  | Sleeping
  | Running "(byte list \<times> MsgTask list) list"
  | Notifying "MsgTask list" "(byte list \<times> MsgTask list) list"
  | Found nat MsgTask "MsgTask list" "(byte list \<times> MsgTask list) list"

record 'w sync_cfg =
  bus :: "'w MsgBus_scheme"
  callers :: "nat \<Rightarrow> caller_pc"
  bpc :: bus_pc
  trace :: "event list"

definition wake_bus :: "bus_pc \<Rightarrow> bus_pc" where
  "wake_bus b = (if b = Sleeping then Top else b)"

fun wake_caller :: "nat \<Rightarrow> caller_pc \<Rightarrow> caller_pc" where
  "wake_caller q (Blocked mid p q') = (if q' = q then Looking mid p q' else Blocked mid p q')"
| "wake_caller q pc = pc"

definition exec_events :: "MsgTask list \<Rightarrow> MsgTask list \<Rightarrow> event list" where
  "exec_events ts ts' = map2 (\<lambda>t t'. Exec (callertid t) (msgid t) (msgparam t) (ret t') (msgparam t')) ts ts'"

inductive sync_step :: "'w member_fns \<Rightarrow> bool \<Rightarrow> 'w sync_cfg \<Rightarrow> 'w sync_cfg \<Rightarrow> bool" for env timeouts where
  call: "\<lbrakk>callers c t = Idle; t \<noteq> msgbus_tid (bus c); s_all_msghandler_objs (bus c) mid = Some ws;
    direct_scan (strong (bus c)) ws = (False, hs, ws'); SendMsg_register (set_handlers (bus c) mid ws') t = (q, st')\<rbrakk> \<Longrightarrow>
    sync_step env timeouts c (c\<lparr>bus := st', callers := (callers c)(t := Registered mid p q), trace := trace c @ [Call t mid p]\<rparr>)"
| push: "callers c t = Registered mid p q \<Longrightarrow>
    sync_step env timeouts c
      (c\<lparr>bus := SendMsg_push (bus c) t mid p, callers := (callers c)(t := Looking mid p q), bpc := wake_bus (bpc c)\<rparr>)"
| look: "\<lbrakk>callers c t = Looking mid p q; SendMsg_check (bus c) q = Some a\<rbrakk> \<Longrightarrow>
    sync_step env timeouts c (c\<lparr>callers := (callers c)(t := Leaving (Some a))\<rparr>)"
| block: "\<lbrakk>callers c t = Looking mid p q; SendMsg_check (bus c) q = None\<rbrakk> \<Longrightarrow>
    sync_step env timeouts c (c\<lparr>callers := (callers c)(t := Blocked mid p q)\<rparr>)"
| wake: "callers c t = Blocked mid p q \<Longrightarrow>
    sync_step env timeouts c (c\<lparr>callers := (callers c)(t := Looking mid p q)\<rparr>)"
| time_out: "\<lbrakk>timeouts; callers c t = Blocked mid p q\<rbrakk> \<Longrightarrow>
    sync_step env timeouts c (c\<lparr>callers := (callers c)(t := Leaving None)\<rparr>)"
| leave: "callers c t = Leaving a \<Longrightarrow>
    sync_step env timeouts c (c\<lparr>bus := SendMsg_done (bus c) t, callers := (callers c)(t := Idle),
      trace := trace c @ [case a of None \<Rightarrow> TimedOut t | Some (r, p') \<Rightarrow> Return t r p']\<rparr>)"
| post: "PostMsg (bus c) mid p = Inr (st', r) \<Longrightarrow>
    sync_step env timeouts c (c\<lparr>bus := st', bpc := wake_bus (bpc c)\<rparr>)"
| sleep: "\<lbrakk>bpc c = Top; s_all_sendmsgtask (bus c) = []; s_all_msgtask (bus c) = []\<rbrakk> \<Longrightarrow>
    sync_step env timeouts c (c\<lparr>bpc := Sleeping\<rparr>)"
| wake_up: "bpc c = Sleeping \<Longrightarrow> sync_step env timeouts c (c\<lparr>bpc := Top\<rparr>)"
| take: "\<lbrakk>bpc c = Top; s_all_sendmsgtask (bus c) \<noteq> [] \<or> s_all_msgtask (bus c) \<noteq> []; take_tasks (bus c) = (gs, st')\<rbrakk> \<Longrightarrow>
    sync_step env timeouts c (c\<lparr>bus := st', bpc := Running gs\<rparr>)"
| exec: "\<lbrakk>bpc c = Running ((mid, ts) # gs); SendMsgInMsgBusThread env (msgbus_tid (bus c)) (bus c) mid ts = Inr (st', ts')\<rbrakk> \<Longrightarrow>
    sync_step env timeouts c (c\<lparr>bus := st', bpc := Notifying ts' gs, trace := trace c @ exec_events ts ts'\<rparr>)"
| found: "\<lbrakk>bpc c = Notifying (t # ts) gs; callertid t \<noteq> msgbus_tid (bus c); s_ready_sendmsgs (bus c) (callertid t) = Some q\<rbrakk> \<Longrightarrow>
    sync_step env timeouts c (c\<lparr>bpc := Found q t ts gs\<rparr>)"
| skip: "\<lbrakk>bpc c = Notifying (t # ts) gs; callertid t = msgbus_tid (bus c) \<or> s_ready_sendmsgs (bus c) (callertid t) = None\<rbrakk> \<Longrightarrow>
    sync_step env timeouts c (c\<lparr>bpc := Notifying ts gs\<rparr>)"
| fill: "bpc c = Found q t ts gs \<Longrightarrow>
    sync_step env timeouts c (c\<lparr>bus := fill_info (bus c) q t, callers := (\<lambda>u. wake_caller q (callers c u)), bpc := Notifying ts gs\<rparr>)"
| next_group: "bpc c = Notifying [] gs \<Longrightarrow> sync_step env timeouts c (c\<lparr>bpc := Running gs\<rparr>)"
| round_done: "bpc c = Running [] \<Longrightarrow> sync_step env timeouts c (c\<lparr>bpc := Top\<rparr>)"

section \<open>What a thread has seen\<close>

text \<open>The history of one calling thread as an automaton: a call, its execution, its return.\<close>

datatype thread_phase = Quiet | Called "byte list" MsgBusParam | Executed "byte list" MsgBusParam bool MsgBusParam

fun phase_step :: "nat \<Rightarrow> event \<Rightarrow> thread_phase option \<Rightarrow> thread_phase option" where
  "phase_step t (Call u mid p) ph = (if u \<noteq> t then ph else if ph = Some Quiet then Some (Called mid p) else None)"
| "phase_step t (Exec u mid p r p') ph =
     (if u \<noteq> t then ph else if ph = Some (Called mid p) then Some (Executed mid p r p') else None)"
| "phase_step t (Return u r p') ph =
     (if u \<noteq> t then ph else case ph of Some (Executed mid p r0 p0) \<Rightarrow> if r0 = r \<and> p0 = p' then Some Quiet else None | _ \<Rightarrow> None)"
| "phase_step t (TimedOut u) ph = (if u \<noteq> t then ph else None)"

definition phase :: "nat \<Rightarrow> event list \<Rightarrow> thread_phase option" where
  "phase t tr = fold (phase_step t) tr (Some Quiet)"

lemma phase_snoc [simp]: "phase t (tr @ [e]) = phase_step t e (phase t tr)"
  by (simp add: phase_def)

lemma phase_append: "phase t (tr @ es) = fold (phase_step t) es (phase t tr)"
  by (simp add: phase_def)

fun ev_thread :: "event \<Rightarrow> nat" where
  "ev_thread (Call t _ _) = t" | "ev_thread (Exec t _ _ _ _) = t" | "ev_thread (Return t _ _) = t" | "ev_thread (TimedOut t) = t"

lemma phase_step_None: "phase_step t e None = None"
  by (cases e) auto

lemma phase_prefix: "phase t (tr @ es) \<noteq> None \<Longrightarrow> phase t tr \<noteq> None"
proof (induction es rule: rev_induct)
  case (snoc e es)
  then show ?case using phase_snoc [of t "tr @ es" e] phase_step_None [of t e] by (metis append_assoc)
qed simp

lemma phase_history:
  "phase t tr = Some ph \<Longrightarrow> (case ph of Quiet \<Rightarrow> True
     | Called mid p \<Rightarrow> (\<exists>h. filter (\<lambda>e. ev_thread e = t) tr = h @ [Call t mid p])
     | Executed mid p r p' \<Rightarrow> (\<exists>h. filter (\<lambda>e. ev_thread e = t) tr = h @ [Call t mid p, Exec t mid p r p']))"
proof (induction tr arbitrary: ph rule: rev_induct)
  case (snoc e tr)
  show ?case
  proof (cases "ev_thread e = t")
    case False
    with snoc.prems have "phase t tr = Some ph" by (cases e) auto
    with snoc.IH [of ph] False show ?thesis by (simp split: thread_phase.splits)
  next
    case True
    with snoc.prems snoc.IH show ?thesis
      by (cases e) (auto split: if_splits option.splits thread_phase.splits)
  qed
qed (simp add: phase_def split: thread_phase.splits)

section \<open>The invariant of runs without time-outs\<close>

fun groups_of :: "bus_pc \<Rightarrow> (byte list \<times> MsgTask list) list" where
  "groups_of (Running gs) = gs" | "groups_of (Notifying ts gs) = gs" | "groups_of (Found q t ts gs) = gs" | "groups_of b = []"

fun done_of :: "bus_pc \<Rightarrow> MsgTask list" where
  "done_of (Notifying ts gs) = ts" | "done_of (Found q t ts gs) = t # ts" | "done_of b = []"

definition of_thread :: "nat \<Rightarrow> MsgTask list \<Rightarrow> MsgTask list" where
  "of_thread t xs = filter (\<lambda>x. callertid x = t) xs"

lemma of_thread_simps [simp]: "of_thread t [] = []" "of_thread t (x # xs) = (if callertid x = t then x # of_thread t xs else of_thread t xs)"
  "of_thread t (xs @ ys) = of_thread t xs @ of_thread t ys"
  by (simp_all add: of_thread_def)

definition pending :: "'w sync_cfg \<Rightarrow> MsgTask list" where
  "pending c = s_all_sendmsgtask (bus c) @ concat (map snd (groups_of (bpc c)))"

text \<open>A waiting caller's task is queued, or executed and not yet notified, or its answer has arrived.\<close>

definition waiting_ok :: "nat \<Rightarrow> ReadySendMsgInfo \<Rightarrow> byte list \<Rightarrow> MsgBusParam \<Rightarrow> MsgTask list \<Rightarrow> MsgTask list \<Rightarrow> thread_phase option \<Rightarrow> bool" where
  "waiting_ok t i mid p ps ds ph \<longleftrightarrow>
     (ps = [new_MsgTask mid p t] \<and> ds = [] \<and> \<not> ready i \<and> ph = Some (Called mid p)) \<or>
     (\<exists>u. ps = [] \<and> ds = [u] \<and> \<not> ready i \<and> ph = Some (Executed mid p (ret u) (msgparam u))) \<or>
     (ps = [] \<and> ds = [] \<and> ready i \<and> ph = Some (Executed mid p (rspresult i) (rspparam i)))"

fun thread_ok :: "nat \<Rightarrow> nat option \<Rightarrow> ReadySendMsgInfo list \<Rightarrow> MsgTask list \<Rightarrow> MsgTask list \<Rightarrow> caller_pc \<Rightarrow> thread_phase option \<Rightarrow> bool" where
  "thread_ok t e infos ps ds Idle ph \<longleftrightarrow> e = None \<and> ps = [] \<and> ds = [] \<and> ph = Some Quiet"
| "thread_ok t e infos ps ds (Registered mid p q) ph \<longleftrightarrow>
     e = Some q \<and> q < length infos \<and> \<not> ready (infos ! q) \<and> ps = [] \<and> ds = [] \<and> ph = Some (Called mid p)"
| "thread_ok t e infos ps ds (Looking mid p q) ph \<longleftrightarrow> e = Some q \<and> q < length infos \<and> waiting_ok t (infos ! q) mid p ps ds ph"
| "thread_ok t e infos ps ds (Blocked mid p q) ph \<longleftrightarrow>
     e = Some q \<and> q < length infos \<and> waiting_ok t (infos ! q) mid p ps ds ph \<and> \<not> ready (infos ! q)"
| "thread_ok t e infos ps ds (Leaving a) ph \<longleftrightarrow>
     (\<exists>q mid p r p'. e = Some q \<and> q < length infos \<and> a = Some (r, p') \<and> ps = [] \<and> ds = [] \<and> ph = Some (Executed mid p r p'))"

definition thread_inv :: "'w sync_cfg \<Rightarrow> nat \<Rightarrow> bool" where
  "thread_inv c t \<longleftrightarrow> thread_ok t (s_ready_sendmsgs (bus c) t) (ready_infos (bus c)) (of_thread t (pending c))
     (of_thread t (done_of (bpc c))) (callers c t) (phase t (trace c))"

fun bpc_ok :: "bus_pc \<Rightarrow> 'w MsgBus_scheme \<Rightarrow> bool" where
  "bpc_ok Sleeping st \<longleftrightarrow> s_all_sendmsgtask st = [] \<and> s_all_msgtask st = []"
| "bpc_ok (Found q t ts gs) st \<longleftrightarrow> s_ready_sendmsgs st (callertid t) = Some q \<and> callertid t \<noteq> msgbus_tid st"
| "bpc_ok b st \<longleftrightarrow> True"

definition bus_inv :: "'w sync_cfg \<Rightarrow> bool" where
  "bus_inv c \<longleftrightarrow> (\<forall>u\<in>set (s_all_msgtask (bus c)). callertid u = msgbus_tid (bus c)) \<and>
     callers c (msgbus_tid (bus c)) = Idle \<and> s_ready_sendmsgs (bus c) (msgbus_tid (bus c)) = None \<and> bpc_ok (bpc c) (bus c)"

definition entries_inv :: "'w MsgBus_scheme \<Rightarrow> bool" where
  "entries_inv st \<longleftrightarrow> (\<forall>t q. s_ready_sendmsgs st t = Some q \<longrightarrow> q < length (ready_infos st) \<and>
     (\<forall>u. s_ready_sendmsgs st u = Some q \<longrightarrow> u = t))"

definition sync_inv :: "'w sync_cfg \<Rightarrow> bool" where
  "sync_inv c \<longleftrightarrow> bus_inv c \<and> entries_inv (bus c) \<and> (\<forall>t. t \<noteq> msgbus_tid (bus c) \<longrightarrow> thread_inv c t)"

text \<open>Member functions run in the bus thread, where the bus never queues a synchronous task or enters a structure.\<close>

definition same_sync :: "'w MsgBus_scheme \<Rightarrow> 'w MsgBus_scheme \<Rightarrow> bool" where
  "same_sync st st' \<longleftrightarrow> s_ready_sendmsgs st' = s_ready_sendmsgs st \<and> ready_infos st' = ready_infos st \<and>
     s_all_sendmsgtask st' = s_all_sendmsgtask st \<and> msgbus_tid st' = msgbus_tid st \<and>
     ((\<forall>u\<in>set (s_all_msgtask st). callertid u = msgbus_tid st) \<longrightarrow> (\<forall>u\<in>set (s_all_msgtask st'). callertid u = msgbus_tid st))"

definition keeps_sync :: "'w member_fns \<Rightarrow> bool" where
  "keeps_sync env \<longleftrightarrow> (\<forall>f this mid p c st st' r. env f this mid p c st = Inr (st', r) \<longrightarrow> same_sync st st')"

lemma same_sync_refl: "same_sync st st"
  by (simp add: same_sync_def)

lemma same_sync_trans: "same_sync a b \<Longrightarrow> same_sync b c \<Longrightarrow> same_sync a c"
  unfolding same_sync_def by (elim conjE, intro conjI impI) simp_all

lemma same_sync_pool: "same_sync st (st\<lparr>pool_tasks := x\<rparr>)"
  by (simp add: same_sync_def)

lemma sync_kept: "keeps_sync env \<Longrightarrow> kept_by same_sync env"
  unfolding kept_by_def keeps_sync_def
  by (intro conjI reflpI transpI allI) (blast intro: same_sync_refl same_sync_trans same_sync_pool)+

lemma dispatch_sync:
  assumes "keeps_sync env" "SendMsgInMsgBusThread env self st mid ts = Inr (st', ts')"
  shows "same_sync st st'" "map callertid ts' = map callertid ts"
proof -
  obtain hs s1 where l: "lock_handlers st mid = (hs, s1)" by (cases "lock_handlers st mid")
  then have "same_sync st s1" by (auto simp: lock_handlers_def set_handlers_def same_sync_def Let_def split: option.splits)
  moreover have e: "ExecuteMsgBusHandlers env mid ts hs s1 = Inr (st', ts')"
    using assms(2) l by (simp add: SendMsgInMsgBusThread_def split: if_splits)
  note Execute_kept [OF sync_kept [OF assms(1)] e]
  ultimately show "same_sync st st'" by (blast intro: same_sync_trans)
  from Execute_callers [OF e] show "map callertid ts' = map callertid ts" .
qed

lemma concat_merge_posts: "concat (map snd (merge_posts ts)) = ts"
  by (induction ts rule: merge_posts.induct) auto

lemma concat_collect_tasks: "concat (map snd (collect_tasks sends posts)) = sends @ posts"
  by (simp add: collect_tasks_eq concat_merge_posts o_def)

lemma of_thread_posts: "\<forall>u\<in>set xs. callertid u = b \<Longrightarrow> t \<noteq> b \<Longrightarrow> of_thread t xs = []"
  by (auto simp: of_thread_def filter_empty_conv)

lemma thread_ok_infos:
  assumes "thread_ok t e infos ps ds pc ph" "length infos \<le> length infos'" "\<And>q. e = Some q \<Longrightarrow> infos' ! q = infos ! q"
  shows "thread_ok t e infos' ps ds pc ph"
  using assms by (cases pc) auto

subsection \<open>Steps of the callers\<close>

lemma wake_bus_simps [simp]: "groups_of (wake_bus b) = groups_of b" "done_of (wake_bus b) = done_of b" "wake_bus b \<noteq> Sleeping"
  "wake_bus b = Found q t ts gs \<longleftrightarrow> b = Found q t ts gs"
  by (auto simp: wake_bus_def)

lemma bpc_ok_wake:
  assumes "bpc_ok b st" "s_ready_sendmsgs st' = s_ready_sendmsgs st" "msgbus_tid st' = msgbus_tid st"
  shows "bpc_ok (wake_bus b) st'"
  using assms by (cases b) (auto simp: wake_bus_def)

lemma bpc_ok_cong:
  assumes "bpc_ok b st" "\<And>q t ts gs. b = Found q t ts gs \<Longrightarrow> s_ready_sendmsgs st' (callertid t) = s_ready_sendmsgs st (callertid t)"
    "msgbus_tid st' = msgbus_tid st" "s_all_sendmsgtask st' = s_all_sendmsgtask st" "s_all_msgtask st' = s_all_msgtask st"
  shows "bpc_ok b st'"
  using assms by (cases b) auto

lemma inv_call:
  assumes "sync_inv c" "callers c t = Idle" "t \<noteq> msgbus_tid (bus c)" "SendMsg_register (set_handlers (bus c) mid ws') t = (q, st')"
  shows "sync_inv (c\<lparr>bus := st', callers := (callers c)(t := Registered mid p q), trace := trace c @ [Call t mid p]\<rparr>)" (is "sync_inv ?c")
proof -
  have q: "q = length (ready_infos (bus c))" and st': "ready_infos st' = ready_infos (bus c) @ [new_ReadySendMsgInfo]"
    "s_ready_sendmsgs st' = (s_ready_sendmsgs (bus c))(t \<mapsto> q)" "msgbus_tid st' = msgbus_tid (bus c)"
    "s_all_sendmsgtask st' = s_all_sendmsgtask (bus c)" "s_all_msgtask st' = s_all_msgtask (bus c)"
    using assms(4) by (auto simp: SendMsg_register_def set_handlers_def)
  have e: "s_ready_sendmsgs (bus c) u = Some j \<Longrightarrow> j < length (ready_infos (bus c))" for u j
    using assms(1) by (simp add: sync_inv_def entries_inv_def)
  have none: "s_ready_sendmsgs (bus c) t = None" "thread_inv c t"
    using assms(1-3) by (auto simp: sync_inv_def thread_inv_def)
  have "bpc_ok (bpc c) st'" using assms(1) none(1) st' by (cases "bpc c") (auto simp: sync_inv_def bus_inv_def)
  with assms(1,3) none st' have b: "bus_inv ?c" by (simp add: sync_inv_def bus_inv_def)
  have en: "entries_inv st'" using assms(1) e st' q by (fastforce simp: sync_inv_def entries_inv_def)
  have "thread_inv ?c u" if u: "u \<noteq> msgbus_tid (bus c)" for u
  proof (cases "u = t")
    case True
    with none(2) assms(2) show ?thesis by (simp add: thread_inv_def pending_def st' q new_ReadySendMsgInfo_def)
  next
    case False
    have "thread_inv c u" using assms(1) u by (simp add: sync_inv_def)
    then show ?thesis using False e by (auto simp: thread_inv_def pending_def st' nth_append elim!: thread_ok_infos)
  qed
  with b en show ?thesis by (simp add: sync_inv_def st')
qed

lemma sync_invI:
  assumes "bus_inv c" "entries_inv (bus c)" "\<And>t. t \<noteq> msgbus_tid (bus c) \<Longrightarrow> thread_inv c t"
  shows "sync_inv c"
  using assms by (simp add: sync_inv_def)

lemma sync_invD:
  assumes "sync_inv c"
  shows "bus_inv c" "entries_inv (bus c)" "t \<noteq> msgbus_tid (bus c) \<Longrightarrow> thread_inv c t"
  using assms by (simp_all add: sync_inv_def)

lemma not_bus: "sync_inv c \<Longrightarrow> callers c t \<noteq> Idle \<Longrightarrow> t \<noteq> msgbus_tid (bus c)"
  by (auto simp: sync_inv_def bus_inv_def)

lemma inv_push:
  assumes "sync_inv c" "callers c t = Registered mid p q"
  shows "sync_inv (c\<lparr>bus := SendMsg_push (bus c) t mid p, callers := (callers c)(t := Looking mid p q), bpc := wake_bus (bpc c)\<rparr>)" (is "sync_inv ?c")
proof -
  have t: "t \<noteq> msgbus_tid (bus c)" using not_bus [OF assms(1), of t] assms(2) by simp
  note inv = sync_invD [OF assms(1)]
  have st: "ready_infos (bus ?c) = ready_infos (bus c)" "s_ready_sendmsgs (bus ?c) = s_ready_sendmsgs (bus c)" "msgbus_tid (bus ?c) = msgbus_tid (bus c)"
    "s_all_msgtask (bus ?c) = s_all_msgtask (bus c)" by (simp_all add: SendMsg_push_def)
  have pend: "of_thread u (pending ?c) = (if u = t then of_thread u (s_all_sendmsgtask (bus c)) @ [new_MsgTask mid p t] @
      of_thread u (concat (map snd (groups_of (bpc c)))) else of_thread u (pending c))" for u
    by (simp add: pending_def SendMsg_push_def new_MsgTask_def)
  show ?thesis
  proof (rule sync_invI)
    show "bus_inv ?c" using inv(1) t by (auto simp: bus_inv_def SendMsg_push_def elim: bpc_ok_wake)
    show "entries_inv (bus ?c)" using inv(2) unfolding entries_inv_def st by simp
  next
    fix u assume "u \<noteq> msgbus_tid (bus ?c)"
    then have u: "thread_inv c u" using inv(3) unfolding st by simp
    show "thread_inv ?c u"
    proof (cases "u = t")
      case True
      with u assms(2) have "of_thread t (pending c) = []" by (simp add: thread_inv_def)
      then have "of_thread t (pending ?c) = [new_MsgTask mid p t]" using pend [of t] by (simp add: pending_def)
      with u True assms(2) show ?thesis unfolding thread_inv_def st by (simp add: waiting_ok_def)
    next
      case False
      with u pend [of u] show ?thesis unfolding thread_inv_def st by simp
    qed
  qed
qed

text \<open>Steps that only move one caller.\<close>

lemma inv_move:
  assumes "sync_inv c" "callers c t \<noteq> Idle"
    "\<And>e infos ps ds ph. ready_infos (bus c) = infos \<Longrightarrow> thread_ok t e infos ps ds (callers c t) ph \<Longrightarrow> thread_ok t e infos ps ds pc ph"
  shows "sync_inv (c\<lparr>callers := (callers c)(t := pc)\<rparr>)" (is "sync_inv ?c")
proof (rule sync_invI)
  have t: "t \<noteq> msgbus_tid (bus c)" by (rule not_bus [OF assms(1,2)])
  then show "bus_inv ?c" using sync_invD(1) [OF assms(1)] by (simp add: bus_inv_def)
  show "entries_inv (bus ?c)" using sync_invD(2) [OF assms(1)] by simp
  fix u assume "u \<noteq> msgbus_tid (bus ?c)"
  then have "thread_inv c u" using sync_invD(3) [OF assms(1)] by simp
  then show "thread_inv ?c u" by (auto simp: thread_inv_def pending_def intro: assms(3))
qed

lemma inv_leave:
  assumes "sync_inv c" "callers c t = Leaving a"
  shows "sync_inv (c\<lparr>bus := SendMsg_done (bus c) t, callers := (callers c)(t := Idle),
      trace := trace c @ [case a of None \<Rightarrow> TimedOut t | Some (r, p') \<Rightarrow> Return t r p']\<rparr>)" (is "sync_inv ?c")
proof -
  have t: "t \<noteq> msgbus_tid (bus c)" using not_bus [OF assms(1), of t] assms(2) by simp
  note inv = sync_invD [OF assms(1)]
  from inv(3) [OF t] assms(2) obtain q mid p r p' where l: "s_ready_sendmsgs (bus c) t = Some q" "a = Some (r, p')"
    "of_thread t (pending c) = []" "of_thread t (done_of (bpc c)) = []" "phase t (trace c) = Some (Executed mid p r p')"
    by (auto simp: thread_inv_def)
  have st: "ready_infos (bus ?c) = ready_infos (bus c)" "s_ready_sendmsgs (bus ?c) = (s_ready_sendmsgs (bus c))(t := None)"
    "msgbus_tid (bus ?c) = msgbus_tid (bus c)" "s_all_msgtask (bus ?c) = s_all_msgtask (bus c)" "pending ?c = pending c"
    by (simp_all add: SendMsg_done_def pending_def)
  have f: "callertid t0 \<noteq> t" if "bpc c = Found q0 t0 ts gs" for q0 t0 ts gs
    using l(4) that by auto
  show ?thesis
  proof (rule sync_invI)
    show "bus_inv ?c" using inv(1) t f by (auto simp: bus_inv_def SendMsg_done_def elim!: bpc_ok_cong)
    show "entries_inv (bus ?c)" using inv(2) unfolding entries_inv_def st by auto
  next
    fix u assume "u \<noteq> msgbus_tid (bus ?c)"
    then have u: "thread_inv c u" using inv(3) unfolding st by simp
    show "thread_inv ?c u"
    proof (cases "u = t")
      case True
      with l show ?thesis unfolding thread_inv_def st by simp
    next
      case False
      with u l(2) show ?thesis unfolding thread_inv_def st by simp
    qed
  qed
qed

subsection \<open>Steps of the bus thread\<close>

text \<open>Steps that keep what the callers see.\<close>

lemma inv_bus:
  assumes "sync_inv c" "same_sync (bus c) (bus c') \<or> s_all_sendmsgtask (bus c') = [] \<and> bus c' = (bus c)\<lparr>s_all_sendmsgtask := [], s_all_msgtask := []\<rparr>"
    "callers c' = callers c" "trace c' = trace c"
    "\<And>t. t \<noteq> msgbus_tid (bus c) \<Longrightarrow> of_thread t (pending c') = of_thread t (pending c) \<and> of_thread t (done_of (bpc c')) = of_thread t (done_of (bpc c))"
    "bpc_ok (bpc c') (bus c')"
  shows "sync_inv c'"
proof -
  have st: "ready_infos (bus c') = ready_infos (bus c)" "s_ready_sendmsgs (bus c') = s_ready_sendmsgs (bus c)" "msgbus_tid (bus c') = msgbus_tid (bus c)"
    using assms(2) by (auto simp: same_sync_def)
  note inv = sync_invD [OF assms(1)]
  have own: "\<forall>u\<in>set (s_all_msgtask (bus c')). callertid u = msgbus_tid (bus c)"
    using assms(2) inv(1) by (auto simp: same_sync_def bus_inv_def)
  show ?thesis
  proof (rule sync_invI)
    show "bus_inv c'" using inv(1) own assms(3,6) unfolding bus_inv_def st by simp
    show "entries_inv (bus c')" using inv(2) unfolding entries_inv_def st by simp
    show "thread_inv c' t" if "t \<noteq> msgbus_tid (bus c')" for t
      using inv(3) [of t] assms(5) [of t] that unfolding thread_inv_def st assms(3,4) by simp
  qed
qed

lemma phase_exec:
  assumes "map callertid ts' = map callertid ts"
  shows "of_thread t ts = [] \<Longrightarrow> of_thread t ts' = [] \<and> fold (phase_step t) (exec_events ts ts') ph = ph"
    and "of_thread t ts = [x] \<Longrightarrow> \<exists>u. of_thread t ts' = [u] \<and>
      fold (phase_step t) (exec_events ts ts') ph = phase_step t (Exec t (msgid x) (msgparam x) (ret u) (msgparam u)) ph"
proof -
  have none: "of_thread t ts = [] \<Longrightarrow> of_thread t ts' = [] \<and> fold (phase_step t) (exec_events ts ts') ph = ph"
    if "map callertid ts' = map callertid ts" for ts ts' ph
    using that
  proof (induction ts arbitrary: ts')
    case (Cons y ts)
    then obtain v vs where "ts' = v # vs" "callertid v = callertid y" "map callertid vs = map callertid ts" by auto
    with Cons show ?case by (auto simp: exec_events_def split: if_splits)
  qed (simp add: exec_events_def)
  from none [OF assms] show "of_thread t ts = [] \<Longrightarrow> of_thread t ts' = [] \<and> fold (phase_step t) (exec_events ts ts') ph = ph" .
  show "of_thread t ts = [x] \<Longrightarrow> \<exists>u. of_thread t ts' = [u] \<and>
      fold (phase_step t) (exec_events ts ts') ph = phase_step t (Exec t (msgid x) (msgparam x) (ret u) (msgparam u)) ph"
    using assms
  proof (induction ts arbitrary: ts')
    case (Cons y ts)
    then obtain v vs where v: "ts' = v # vs" "callertid v = callertid y" "map callertid vs = map callertid ts" by auto
    show ?case
    proof (cases "callertid y = t")
      case True
      with Cons.prems have y: "y = x" "of_thread t ts = []" by auto
      from none [OF v(3) y(2), of "phase_step t (Exec t (msgid x) (msgparam x) (ret v) (msgparam v)) ph"]
      have "of_thread t vs = []" "fold (phase_step t) (exec_events ts vs) (phase_step t (Exec t (msgid x) (msgparam x) (ret v) (msgparam v)) ph)
        = phase_step t (Exec t (msgid x) (msgparam x) (ret v) (msgparam v)) ph" by blast+
      with v True y show ?thesis by (simp add: exec_events_def del: phase_step.simps)
    next
      case False
      with Cons v show ?thesis by (simp add: exec_events_def)
    qed
  qed simp
qed

lemma inv_exec:
  assumes "sync_inv c" "bpc c = Running ((mid, ts) # gs)" "same_sync (bus c) st'" "map callertid ts' = map callertid ts"
  shows "sync_inv (c\<lparr>bus := st', bpc := Notifying ts' gs, trace := trace c @ exec_events ts ts'\<rparr>)" (is "sync_inv ?c")
proof -
  note inv = sync_invD [OF assms(1)]
  have st: "ready_infos (bus ?c) = ready_infos (bus c)" "s_ready_sendmsgs (bus ?c) = s_ready_sendmsgs (bus c)" "msgbus_tid (bus ?c) = msgbus_tid (bus c)"
    "s_all_sendmsgtask (bus ?c) = s_all_sendmsgtask (bus c)" using assms(3) by (simp_all add: same_sync_def)
  show ?thesis
  proof (rule sync_invI)
    show "bus_inv ?c" using inv(1) assms(3) by (auto simp: bus_inv_def same_sync_def)
    show "entries_inv (bus ?c)" using inv(2) unfolding entries_inv_def st by simp
  next
    fix t assume "t \<noteq> msgbus_tid (bus ?c)"
    then have t: "thread_inv c t" using inv(3) unfolding st by simp
    have p: "of_thread t (pending c) = of_thread t (s_all_sendmsgtask (bus c)) @ of_thread t ts @ of_thread t (concat (map snd gs))"
      "of_thread t (done_of (bpc c)) = []" using assms(2) by (simp_all add: pending_def)
    have p': "of_thread t (pending ?c) = of_thread t (s_all_sendmsgtask (bus c)) @ of_thread t (concat (map snd gs))"
      "of_thread t (done_of (bpc ?c)) = of_thread t ts'" "callers ?c t = callers c t"
      "phase t (trace ?c) = fold (phase_step t) (exec_events ts ts') (phase t (trace c))"
      using st(4) by (simp_all add: pending_def phase_append)
    show "thread_inv ?c t"
    proof (cases "of_thread t ts = []")
      case True
      with phase_exec(1) [OF assms(4), of t] t p p' show ?thesis unfolding thread_inv_def st p' by simp
    next
      case False
      with t p obtain m q d where d: "callers c t = Looking m d q \<or> callers c t = Blocked m d q" "s_ready_sendmsgs (bus c) t = Some q"
        "q < length (ready_infos (bus c))" "\<not> ready (ready_infos (bus c) ! q)" "phase t (trace c) = Some (Called m d)"
        "of_thread t ts = [new_MsgTask m d t]" "of_thread t (s_all_sendmsgtask (bus c)) = []" "of_thread t (concat (map snd gs)) = []"
        unfolding thread_inv_def by (cases "callers c t") (auto simp: waiting_ok_def append_eq_Cons_conv)
      from phase_exec(2) [OF assms(4) d(6), of "phase t (trace c)"] d show ?thesis
        unfolding thread_inv_def st p' by (auto simp: waiting_ok_def new_MsgTask_def)
    qed
  qed
qed

lemma done_waits:
  assumes "sync_inv c" "u \<in> set (done_of (bpc c))" "callertid u \<noteq> msgbus_tid (bus c)"
  shows "\<exists>q mid p. s_ready_sendmsgs (bus c) (callertid u) = Some q \<and> q < length (ready_infos (bus c)) \<and>
    (callers c (callertid u) = Looking mid p q \<or> callers c (callertid u) = Blocked mid p q) \<and>
    of_thread (callertid u) (pending c) = [] \<and> of_thread (callertid u) (done_of (bpc c)) = [u] \<and>
    phase (callertid u) (trace c) = Some (Executed mid p (ret u) (msgparam u))"
proof -
  let ?t = "callertid u"
  have ne: "u \<in> set (of_thread ?t (done_of (bpc c)))" using assms(2) by (simp add: of_thread_def)
  have "thread_inv c ?t" using sync_invD(3) [OF assms(1,3)] .
  with ne show ?thesis unfolding thread_inv_def by (cases "callers c ?t") (auto simp: waiting_ok_def)
qed

lemma inv_skip:
  assumes "sync_inv c" "bpc c = Notifying (t # ts) gs" "callertid t = msgbus_tid (bus c) \<or> s_ready_sendmsgs (bus c) (callertid t) = None"
  shows "sync_inv (c\<lparr>bpc := Notifying ts gs\<rparr>)"
proof (rule inv_bus [OF assms(1)])
  have "callertid t = msgbus_tid (bus c)"
  proof (rule ccontr)
    assume "callertid t \<noteq> msgbus_tid (bus c)"
    with done_waits [OF assms(1), of t] assms(2,3) show False by auto
  qed
  then show "of_thread u (pending (c\<lparr>bpc := Notifying ts gs\<rparr>)) = of_thread u (pending c) \<and>
      of_thread u (done_of (bpc (c\<lparr>bpc := Notifying ts gs\<rparr>))) = of_thread u (done_of (bpc c))"
    if "u \<noteq> msgbus_tid (bus c)" for u
    using that assms(2) by (simp add: pending_def)
qed (simp_all add: same_sync_refl)

lemma inv_fill:
  assumes "sync_inv c" "bpc c = Found q t ts gs"
  shows "sync_inv (c\<lparr>bus := fill_info (bus c) q t, callers := (\<lambda>u. wake_caller q (callers c u)), bpc := Notifying ts gs\<rparr>)" (is "sync_inv ?c")
proof -
  note inv = sync_invD [OF assms(1)]
  have q: "s_ready_sendmsgs (bus c) (callertid t) = Some q" "callertid t \<noteq> msgbus_tid (bus c)"
    using inv(1) assms(2) by (simp_all add: bus_inv_def)
  obtain mid p where w: "q < length (ready_infos (bus c))"
    "callers c (callertid t) = Looking mid p q \<or> callers c (callertid t) = Blocked mid p q"
    "of_thread (callertid t) (pending c) = []" "of_thread (callertid t) (done_of (bpc c)) = [t]"
    "phase (callertid t) (trace c) = Some (Executed mid p (ret t) (msgparam t))"
    using done_waits [OF assms(1), of t] assms(2) q by auto
  have owner: "s_ready_sendmsgs (bus c) u = Some q \<Longrightarrow> u = callertid t" for u
    using inv(2) q(1) by (simp add: entries_inv_def)
  have st: "ready_infos (bus ?c) = (ready_infos (bus c))[q := \<lparr>ready = True, rspparam = msgparam t, rspresult = ret t\<rparr>]"
    "s_ready_sendmsgs (bus ?c) = s_ready_sendmsgs (bus c)" "msgbus_tid (bus ?c) = msgbus_tid (bus c)" "pending ?c = pending c"
    "s_all_msgtask (bus ?c) = s_all_msgtask (bus c)"
    using assms(2) by (simp_all add: fill_info_def pending_def)
  show ?thesis
  proof (rule sync_invI)
    show "bus_inv ?c" using inv(1) by (auto simp: bus_inv_def fill_info_def)
    show "entries_inv (bus ?c)" using inv(2) unfolding entries_inv_def st by simp
  next
    fix u assume "u \<noteq> msgbus_tid (bus ?c)"
    then have u: "thread_inv c u" using inv(3) unfolding st by simp
    show "thread_inv ?c u"
    proof (cases "u = callertid t")
      case True
      with w q(1) assms(2) show ?thesis unfolding thread_inv_def st by (auto simp: waiting_ok_def)
    next
      case False
      have c: "wake_caller q (callers c u) = callers c u"
        using u owner False unfolding thread_inv_def by (cases "callers c u") auto
      have d: "of_thread u (done_of (bpc ?c)) = of_thread u (done_of (bpc c))" using False assms(2) by simp
      have "thread_ok u (s_ready_sendmsgs (bus c) u) (ready_infos (bus ?c)) (of_thread u (pending c))
          (of_thread u (done_of (bpc c))) (callers c u) (phase u (trace c))"
        using u [unfolded thread_inv_def]
      proof (rule thread_ok_infos)
        fix j assume "s_ready_sendmsgs (bus c) u = Some j"
        with owner [of u] False have "j \<noteq> q" by auto
        then show "ready_infos (bus ?c) ! j = ready_infos (bus c) ! j" unfolding st by simp
      qed (simp add: fill_info_def)
      with c d show ?thesis unfolding thread_inv_def st(2,4) by simp
    qed
  qed
qed

subsection \<open>All steps\<close>

lemma sync_inv_step:
  assumes "keeps_sync env" "sync_step env False c c'" "sync_inv c"
  shows "sync_inv c'"
  using assms(2,3)
proof (cases rule: sync_step.cases)
  case (call t mid ws hs ws' q st' p)
  then show ?thesis using inv_call [OF assms(3)] by simp
next
  case (push t mid p q)
  then show ?thesis using inv_push [OF assms(3)] by simp
next
  case (look t mid p q a)
  then show ?thesis by (auto simp: SendMsg_check_def waiting_ok_def Let_def split: if_splits intro!: inv_move [OF assms(3)])
next
  case (block t mid p q)
  then show ?thesis by (auto simp: SendMsg_check_def Let_def split: if_splits intro!: inv_move [OF assms(3)])
next
  case (wake t mid p q)
  then show ?thesis by (auto intro!: inv_move [OF assms(3)])
next
  case (leave t a)
  then show ?thesis using inv_leave [OF assms(3)] by simp
next
  case (post mid p st' r)
  have b: "bpc_ok (bpc c) (bus c)" using sync_invD(1) [OF assms(3)] by (simp add: bus_inv_def)
  from post(2) have st': "same_sync (bus c) st'"
    by (auto simp: PostMsg_def same_sync_def new_MsgTask_def cbind_def split: if_splits sum.splits)
  with post b show ?thesis
    by (intro inv_bus [OF assms(3)]) (auto simp: pending_def same_sync_def intro: bpc_ok_wake)
next
  case sleep
  then show ?thesis by (intro inv_bus [OF assms(3)]) (auto simp: pending_def same_sync_refl)
next
  case wake_up
  then show ?thesis by (intro inv_bus [OF assms(3)]) (auto simp: pending_def same_sync_refl)
next
  case (take gs st')
  have own: "\<forall>u\<in>set (s_all_msgtask (bus c)). callertid u = msgbus_tid (bus c)" using sync_invD(1) [OF assms(3)] by (simp add: bus_inv_def)
  from of_thread_posts [OF own] take show ?thesis
    by (intro inv_bus [OF assms(3)]) (auto simp: take_tasks_def pending_def concat_collect_tasks)
next
  case (exec mid ts gs st' ts')
  then show ?thesis using inv_exec [OF assms(3)] dispatch_sync [OF assms(1)] by blast
next
  case (found t ts gs q)
  then show ?thesis by (intro inv_bus [OF assms(3)]) (auto simp: pending_def same_sync_refl)
next
  case (skip t ts gs)
  then show ?thesis using inv_skip [OF assms(3)] by blast
next
  case (fill q t ts gs)
  then show ?thesis using inv_fill [OF assms(3)] by blast
next
  case (next_group gs)
  then show ?thesis by (intro inv_bus [OF assms(3)]) (auto simp: pending_def same_sync_refl)
next
  case round_done
  then show ?thesis by (intro inv_bus [OF assms(3)]) (auto simp: pending_def same_sync_refl)
qed simp

definition sync_start :: "'w sync_cfg \<Rightarrow> bool" where
  "sync_start c \<longleftrightarrow> bpc c = Top \<and> trace c = [] \<and> (\<forall>t. callers c t = Idle \<and> s_ready_sendmsgs (bus c) t = None) \<and>
     s_all_sendmsgtask (bus c) = [] \<and> (\<forall>u\<in>set (s_all_msgtask (bus c)). callertid u = msgbus_tid (bus c))"

lemma sync_inv_start: "sync_start c \<Longrightarrow> sync_inv c"
  by (auto simp: sync_start_def sync_inv_def bus_inv_def entries_inv_def thread_inv_def pending_def phase_def)

lemma sync_inv_run:
  assumes "(sync_step env False)\<^sup>*\<^sup>* c0 c" "keeps_sync env" "sync_inv c0"
  shows "sync_inv c"
  using assms by (induction rule: rtranclp_induct) (auto intro: sync_inv_step)

lemma same_tid_step:
  assumes "keeps_sync env" "sync_step env b c c'"
  shows "msgbus_tid (bus c') = msgbus_tid (bus c)"
  using assms(2)
proof (cases rule: sync_step.cases)
  case (exec mid ts gs st' ts')
  then show ?thesis using dispatch_sync(1) [OF assms(1)] by (simp add: same_sync_def)
qed (auto simp: SendMsg_register_def set_handlers_def SendMsg_push_def SendMsg_done_def PostMsg_def take_tasks_def fill_info_def cbind_def
    split: if_splits sum.splits)

lemma same_tid_run:
  assumes "(sync_step env b)\<^sup>*\<^sup>* c0 c" "keeps_sync env"
  shows "msgbus_tid (bus c) = msgbus_tid (bus c0)"
  using assms by (induction rule: rtranclp_induct) (auto dest: same_tid_step)

text \<open>
  C5: a synchronous message gets its own answer. In every interleaving of calling threads, posting threads and
  the bus thread in which no wait times out, when \<open>SendMsg\<close> returns a result and a parameter to a thread, they
  are what the handlers produced when they were run, exactly once since the call, on the message and parameter of
  exactly this call.
\<close>

theorem sendmsg_own_answer:
  assumes "keeps_sync env" "sync_start c0" "(sync_step env False)\<^sup>*\<^sup>* c0 c"
    and "trace c = before @ Return t r p' # later" "t \<noteq> msgbus_tid (bus c0)"
  shows "\<exists>mid p h. filter (\<lambda>e. ev_thread e = t) before = h @ [Call t mid p, Exec t mid p r p']"
proof -
  have "sync_inv c" by (rule sync_inv_run [OF assms(3,1) sync_inv_start [OF assms(2)]])
  then have "thread_inv c t" using same_tid_run [OF assms(3,1)] assms(5) by (simp add: sync_invD)
  then have "phase t (trace c) \<noteq> None" unfolding thread_inv_def by (cases "callers c t") (auto simp: waiting_ok_def)
  with assms(4) have "phase t (before @ [Return t r p']) \<noteq> None" using phase_prefix [of t "before @ [Return t r p']" later] by simp
  then obtain mid p where "phase t before = Some (Executed mid p r p')"
    by (auto split: option.splits thread_phase.splits if_splits)
  from phase_history [OF this] show ?thesis by auto
qed

section \<open>Every call is answered\<close>

definition task_valid :: "MsgTask \<Rightarrow> bool" where
  "task_valid u \<longleftrightarrow> is_ok (DeepCopy (msgparam u))"

definition tasks_valid :: "'w sync_cfg \<Rightarrow> bool" where
  "tasks_valid c \<longleftrightarrow> (\<forall>u\<in>set (pending c) \<union> set (s_all_msgtask (bus c)). task_valid u)"

text \<open>Handlers that return, leave the thread pool running and post only valid parameters (as \<open>PostMsg\<close> ensures).\<close>

definition same_pool :: "'w MsgBus_scheme \<Rightarrow> 'w MsgBus_scheme \<Rightarrow> bool" where
  "same_pool st st' \<longleftrightarrow> s_threadpool_running st' = s_threadpool_running st \<and>
     ((\<forall>u\<in>set (s_all_msgtask st). task_valid u) \<longrightarrow> (\<forall>u\<in>set (s_all_msgtask st'). task_valid u))"

definition handlers_return :: "'w member_fns \<Rightarrow> bool" where
  "handlers_return env \<longleftrightarrow> (\<forall>f this mid p c st. \<exists>st' r. env f this mid p c st = Inr (st', r) \<and> same_pool st st')"

lemma same_pool_trans: "same_pool a b \<Longrightarrow> same_pool b c \<Longrightarrow> same_pool a c"
  unfolding same_pool_def by (elim conjE, intro conjI impI) simp_all

lemma pool_kept:
  assumes "handlers_return env"
  shows "kept_by same_pool env"
proof -
  have "same_pool st st'" if "env f this mid p c st = Inr (st', r)" for f this mid p c st st' r
  proof -
    obtain s1 r1 where "env f this mid p c st = Inr (s1, r1)" "same_pool st s1" using assms unfolding handlers_return_def by blast
    with that show ?thesis by simp
  qed
  moreover have "same_pool st st" "same_pool st (st\<lparr>pool_tasks := x\<rparr>)" for st :: "'w MsgBus_scheme" and x
    by (simp_all add: same_pool_def)
  ultimately show ?thesis unfolding kept_by_def
    by (intro conjI reflpI transpI allI impI) (auto intro: same_pool_trans)
qed

lemma OnMsg_returns:
  assumes "handlers_return env" "s_threadpool_running st"
  shows "\<exists>x. OnMsg env st h mid p c = Inr x"
proof -
  have "\<exists>x. env f h mid p True st = Inr x" for f using assms(1) unfolding handlers_return_def by blast
  with assms(2) show ?thesis by (auto simp: OnMsg_def split: option.splits)
qed

lemma run_handlers_returns:
  assumes "handlers_return env" "DeepCopy orig = Inr orig" "s_threadpool_running st"
  shows "\<exists>x. run_handlers env mid orig hs st param result c = Inr x"
  using assms(3)
proof (induction hs arbitrary: st param result c)
  case (Cons h hs)
  obtain s1 r1 p1 c1 where on: "OnMsg env st h mid orig c = Inr (s1, r1, p1, c1)"
    using OnMsg_returns [OF assms(1) Cons.prems] by (metis prod_cases4)
  from OnMsg_kept [OF pool_kept [OF assms(1)] on] Cons.prems have "s_threadpool_running s1" by (simp add: same_pool_def)
  from Cons.IH [OF this] on assms(2) show ?case by (simp add: cbind_def Let_def)
qed simp

lemma Execute_returns:
  assumes "handlers_return env" "\<forall>u\<in>set ts. task_valid u" "s_threadpool_running st"
  shows "\<exists>x. ExecuteMsgBusHandlers env mid ts hs st = Inr x"
  using assms(2,3)
proof (induction ts arbitrary: st)
  case (Cons t ts)
  then obtain orig where o: "DeepCopy (msgparam t) = Inr orig" by (auto simp: task_valid_def is_ok_def split: sum.splits)
  obtain s1 r p where h: "run_handlers env mid orig hs st (msgparam t) False True = Inr (s1, r, p)"
    using run_handlers_returns [OF assms(1) DeepCopy_copy [OF o] Cons.prems(2)] by (metis prod_cases3)
  from run_handlers_kept [OF pool_kept [OF assms(1)] h] Cons.prems have "s_threadpool_running s1" by (simp add: same_pool_def)
  from Cons.IH [OF _ this] Cons.prems(1) o h show ?case by (auto simp: cbind_def)
qed simp

lemma dispatch_returns:
  assumes "handlers_return env" "\<forall>u\<in>set ts. task_valid u" "s_threadpool_running st"
  shows "\<exists>st' ts'. SendMsgInMsgBusThread env (msgbus_tid st) st mid ts = Inr (st', ts') \<and> length ts' = length ts \<and> same_pool st st'"
proof -
  obtain hs s1 where l: "lock_handlers st mid = (hs, s1)" by (cases "lock_handlers st mid")
  then have s1: "same_pool st s1" by (auto simp: lock_handlers_def set_handlers_def same_pool_def Let_def split: option.splits)
  with assms(3) have "s_threadpool_running s1" by (simp add: same_pool_def)
  then obtain st' ts' where e: "ExecuteMsgBusHandlers env mid ts hs s1 = Inr (st', ts')" using Execute_returns [OF assms(1,2)] by (metis prod.exhaust)
  from Execute_kept [OF pool_kept [OF assms(1)] e] s1 have "same_pool st st'" by (blast intro: same_pool_trans)
  moreover have "length ts' = length ts" using Execute_callers [OF e] by (metis length_map)
  ultimately show ?thesis using e l by (simp add: SendMsgInMsgBusThread_def)
qed

text \<open>The number of steps the bus thread needs to get back to its queues.\<close>

definition groups_size :: "(byte list \<times> MsgTask list) list \<Rightarrow> nat" where
  "groups_size gs = sum_list (map (\<lambda>g. 2 * length (snd g) + 2) gs)"

fun bus_size :: "bus_pc \<Rightarrow> nat" where
  "bus_size Top = 0"
| "bus_size Sleeping = 1"
| "bus_size (Running gs) = groups_size gs + 1"
| "bus_size (Notifying ts gs) = 2 * length ts + groups_size gs + 2"
| "bus_size (Found q t ts gs) = 2 * length ts + groups_size gs + 3"

definition woken :: "(nat \<Rightarrow> caller_pc) \<Rightarrow> (nat \<Rightarrow> caller_pc) \<Rightarrow> bool" where
  "woken cs cs' \<longleftrightarrow> (\<forall>t. cs' t = cs t \<or> (\<exists>mid p q. cs t = Blocked mid p q \<and> cs' t = Looking mid p q))"

definition bus_ready :: "'w sync_cfg \<Rightarrow> bool" where
  "bus_ready c \<longleftrightarrow> sync_inv c \<and> tasks_valid c \<and> s_threadpool_running (bus c)"

lemma woken_trans:
  assumes "woken a b" "woken b c"
  shows "woken a c"
  unfolding woken_def
proof
  fix t
  from assms(1) have "b t = a t \<or> (\<exists>mid p q. a t = Blocked mid p q \<and> b t = Looking mid p q)" unfolding woken_def by blast
  moreover from assms(2) have "c t = b t \<or> (\<exists>mid p q. b t = Blocked mid p q \<and> c t = Looking mid p q)" unfolding woken_def by blast
  ultimately show "c t = a t \<or> (\<exists>mid p q. a t = Blocked mid p q \<and> c t = Looking mid p q)" by auto
qed

lemma woken_wake_caller: "woken cs (\<lambda>u. wake_caller q (cs u))"
  unfolding woken_def
proof
  fix t show "wake_caller q (cs t) = cs t \<or> (\<exists>mid p q'. cs t = Blocked mid p q' \<and> wake_caller q (cs t) = Looking mid p q')"
    by (cases "cs t") auto
qed

lemma bus_progress:
  assumes env: "keeps_sync env" "handlers_return env" and c: "bus_ready c" "bpc c \<noteq> Top"
  shows "\<exists>c'. sync_step env False c c' \<and> bus_size (bpc c') < bus_size (bpc c) \<and> tasks_valid c' \<and> s_threadpool_running (bus c') \<and>
    s_all_sendmsgtask (bus c') = s_all_sendmsgtask (bus c) \<and> woken (callers c) (callers c')"
proof (cases "bpc c")
  case Sleeping
  show ?thesis
    by (intro exI conjI, rule sync_step.wake_up [OF Sleeping]) (use c Sleeping in \<open>auto simp: bus_ready_def tasks_valid_def pending_def woken_def\<close>)
next
  case (Running gs)
  show ?thesis
  proof (cases gs)
    case Nil
    show ?thesis
      by (intro exI conjI, rule sync_step.round_done [OF Running [unfolded Nil]]) (use c Running in \<open>auto simp: bus_ready_def tasks_valid_def pending_def woken_def\<close>)
  next
    case (Cons g gs')
    obtain mid ts where g: "g = (mid, ts)" by (cases g)
    have v: "\<forall>u\<in>set ts. task_valid u" using c(1) Running Cons g by (auto simp: bus_ready_def tasks_valid_def pending_def)
    obtain st' ts' where d: "SendMsgInMsgBusThread env (msgbus_tid (bus c)) (bus c) mid ts = Inr (st', ts')" "length ts' = length ts" "same_pool (bus c) st'"
      using dispatch_returns [OF env(2) v, of "bus c" mid] c(1) unfolding bus_ready_def by blast
    have s: "s_all_sendmsgtask st' = s_all_sendmsgtask (bus c)" using dispatch_sync(1) [OF env(1) d(1)] by (simp add: same_sync_def)
    show ?thesis
      by (intro exI conjI, rule sync_step.exec [OF _ d(1)])
        (use c(1) Running Cons g d s in \<open>auto simp: bus_ready_def tasks_valid_def pending_def woken_def same_pool_def groups_size_def\<close>)
  qed
next
  case (Notifying ts gs)
  show ?thesis
  proof (cases ts)
    case Nil
    show ?thesis
      by (intro exI conjI, rule sync_step.next_group [OF Notifying [unfolded Nil]]) (use c Notifying in \<open>auto simp: bus_ready_def tasks_valid_def pending_def woken_def\<close>)
  next
    case (Cons t ts')
    show ?thesis
    proof (cases "callertid t = msgbus_tid (bus c) \<or> s_ready_sendmsgs (bus c) (callertid t) = None")
      case True
      show ?thesis
        by (intro exI conjI, rule sync_step.skip [OF Notifying [unfolded Cons] True]) (use c Notifying Cons in \<open>auto simp: bus_ready_def tasks_valid_def pending_def woken_def\<close>)
    next
      case False
      then obtain q where q: "callertid t \<noteq> msgbus_tid (bus c)" "s_ready_sendmsgs (bus c) (callertid t) = Some q" by auto
      show ?thesis
        by (intro exI conjI, rule sync_step.found [OF Notifying [unfolded Cons] q]) (use c Notifying Cons in \<open>auto simp: bus_ready_def tasks_valid_def pending_def woken_def\<close>)
    qed
  qed
next
  case (Found q t ts gs)
  show ?thesis
    by (intro exI conjI, rule sync_step.fill [OF Found]) (use c Found woken_wake_caller [of "callers c" q] in \<open>auto simp: bus_ready_def tasks_valid_def pending_def fill_info_def\<close>)
qed (use c in simp)

lemma bus_returns_to_top:
  assumes env: "keeps_sync env" "handlers_return env" and "bus_ready c"
  shows "\<exists>c'. (sync_step env False)\<^sup>*\<^sup>* c c' \<and> bpc c' = Top \<and> bus_ready c' \<and>
    s_all_sendmsgtask (bus c') = s_all_sendmsgtask (bus c) \<and> woken (callers c) (callers c')"
  using assms(3)
proof (induction "bus_size (bpc c)" arbitrary: c rule: less_induct)
  case less
  show ?case
  proof (cases "bpc c = Top")
    case True
    with less.prems show ?thesis by (intro exI [of _ c]) (auto simp: woken_def)
  next
    case False
    obtain c1 where c1: "sync_step env False c c1" "bus_size (bpc c1) < bus_size (bpc c)" "tasks_valid c1" "s_threadpool_running (bus c1)"
      "s_all_sendmsgtask (bus c1) = s_all_sendmsgtask (bus c)" "woken (callers c) (callers c1)"
      using bus_progress [OF env less.prems False] by blast
    have "bus_ready c1" using c1 less.prems sync_inv_step [OF env(1) c1(1)] by (simp add: bus_ready_def)
    from less.hyps [OF c1(2) this] c1 show ?thesis by (metis converse_rtranclp_into_rtranclp woken_trans)
  qed
qed

lemma bus_empties_queue:
  assumes env: "keeps_sync env" "handlers_return env" and "bus_ready c"
  shows "\<exists>c'. (sync_step env False)\<^sup>*\<^sup>* c c' \<and> bpc c' = Top \<and> bus_ready c' \<and>
    s_all_sendmsgtask (bus c') = [] \<and> woken (callers c) (callers c')"
proof -
  obtain c1 where c1: "(sync_step env False)\<^sup>*\<^sup>* c c1" "bpc c1 = Top" "bus_ready c1" "woken (callers c) (callers c1)"
    using bus_returns_to_top [OF assms] by blast
  show ?thesis
  proof (cases "s_all_sendmsgtask (bus c1) = []")
    case False
    obtain gs st' where t: "take_tasks (bus c1) = (gs, st')" by (cases "take_tasks (bus c1)")
    let ?c2 = "c1\<lparr>bus := st', bpc := Running gs\<rparr>"
    have s: "sync_step env False c1 ?c2" by (rule sync_step.take [OF c1(2) _ t]) (use False in simp)
    have "pending ?c2 = s_all_sendmsgtask (bus c1) @ s_all_msgtask (bus c1)" "s_all_msgtask st' = []" "s_threadpool_running st' = s_threadpool_running (bus c1)"
      using t by (auto simp: pending_def take_tasks_def concat_collect_tasks)
    then have "bus_ready ?c2" using c1(3) sync_inv_step [OF env(1) s] unfolding bus_ready_def tasks_valid_def by (auto simp: pending_def)
    from bus_returns_to_top [OF env this] obtain c' where "(sync_step env False)\<^sup>*\<^sup>* ?c2 c'" "bpc c' = Top" "bus_ready c'"
      "s_all_sendmsgtask (bus c') = s_all_sendmsgtask (bus ?c2)" "woken (callers ?c2) (callers c')" by blast
    moreover have "s_all_sendmsgtask (bus ?c2) = []" using t by (auto simp: take_tasks_def)
    ultimately show ?thesis using c1 s
      by (intro exI [of _ c']) (auto intro: woken_trans elim: rtranclp_trans [OF rtranclp.rtrancl_into_rtrancl])
  qed (use c1 in auto)
qed


section \<open>Examples\<close>

text \<open>The handler object 1 answers \<open>m\<close> and \<open>k\<close> in the bus thread (thread 0) by reversing the parameter.\<close>

definition demo_sync :: "unit sync_cfg" where
  "demo_sync = \<lparr>bus = demo_bus_state\<lparr>s_all_msghandler_objs := [lit ''m'' \<mapsto> [(1, True)], lit ''k'' \<mapsto> [(1, True)]],
     all_handlers := (\<lambda>_. [(lit ''k'', \<lparr>htype = 0, handler_func = Some 1\<rparr>), (lit ''m'', \<lparr>htype = 0, handler_func = Some 1\<rparr>)])\<rparr>,
     callers = (\<lambda>_. Idle), bpc = Top, trace = []\<rparr>"

lemma demo_sync_env: "keeps_sync demo_fns" "handlers_return demo_fns" "sync_start demo_sync"
  by (auto simp: keeps_sync_def handlers_return_def demo_fns_def demo_fn_def same_sync_refl same_pool_def sync_start_def demo_sync_def demo_bus_state_def)

abbreviation demo_param :: "byte list \<Rightarrow> MsgBusParam" where
  "demo_param bs \<equiv> \<lparr>paramdata = Some bs, paramlen = of_nat (length bs)\<rparr>"

lemma demo_lits [simp]: "lit ''m'' \<noteq> lit ''k''" "lit ''k'' \<noteq> lit ''m''"
  by (simp_all add: lit_def)

lemma demo_call:
  assumes "callers c t = Idle" "t \<noteq> msgbus_tid (bus c)" "s_all_msghandler_objs (bus c) mid = Some [(1, True)]"
  shows "sync_step env b c (c\<lparr>bus := snd (SendMsg_register (bus c) t), callers := (callers c)(t := Registered mid p (length (ready_infos (bus c)))),
    trace := trace c @ [Call t mid p]\<rparr>)"
proof -
  have "set_handlers (bus c) mid [(1, True)] = bus c" using assms(3) by (simp add: set_handlers_def map_upd_triv)
  with sync_step.call [OF assms, where hs = "[]" and ws' = "[(1, True)]" and p = p and env = env and timeouts = b,
      of "length (ready_infos (bus c))" "snd (SendMsg_register (bus c) t)"]
  show ?thesis by (simp add: SendMsg_register_def)
qed

text \<open>Thread 5 calls \<open>m\<close>; the bus thread has taken the task.\<close>

definition demo_taken :: "unit sync_cfg" where
  "demo_taken = demo_sync\<lparr>bus := (bus demo_sync)\<lparr>ready_infos := [new_ReadySendMsgInfo], s_ready_sendmsgs := [5 \<mapsto> 0]\<rparr>,
     callers := (\<lambda>_. Idle)(5 := Blocked (lit ''m'') (demo_param [1, 2]) 0),
     bpc := Running [(lit ''m'', [new_MsgTask (lit ''m'') (demo_param [1, 2]) 5])], trace := [Call 5 (lit ''m'') (demo_param [1, 2])]\<rparr>"

lemma demo_taken_run: "(sync_step demo_fns b)\<^sup>*\<^sup>* demo_sync demo_taken"
proof -
  let ?p = "demo_param [1, 2]"
  define c1 where "c1 = demo_sync\<lparr>bus := snd (SendMsg_register (bus demo_sync) 5), callers := (callers demo_sync)(5 := Registered (lit ''m'') ?p 0),
    trace := [Call 5 (lit ''m'') ?p]\<rparr>"
  define c2 where "c2 = c1\<lparr>bus := SendMsg_push (bus c1) 5 (lit ''m'') ?p, callers := (callers c1)(5 := Looking (lit ''m'') ?p 0), bpc := wake_bus (bpc c1)\<rparr>"
  define c3 where "c3 = c2\<lparr>bus := snd (take_tasks (bus c2)), bpc := Running (fst (take_tasks (bus c2)))\<rparr>"
  have b1: "bus c1 = (bus demo_sync)\<lparr>ready_infos := [new_ReadySendMsgInfo], s_ready_sendmsgs := [5 \<mapsto> 0]\<rparr>" "bpc c1 = Top"
    by (simp_all add: c1_def demo_sync_def demo_bus_state_def SendMsg_register_def)
  have b2: "bus c2 = (bus c1)\<lparr>s_all_sendmsgtask := [new_MsgTask (lit ''m'') ?p 5]\<rparr>" "bpc c2 = Top"
    by (simp_all add: c2_def b1 SendMsg_push_def wake_bus_def demo_sync_def demo_bus_state_def)
  have b3: "bus c3 = bus c1" "bpc c3 = Running [(lit ''m'', [new_MsgTask (lit ''m'') ?p 5])]"
    by (simp_all add: c3_def b2 take_tasks_def b1 demo_sync_def demo_bus_state_def new_MsgTask_def)
  have "sync_step demo_fns b demo_sync c1"
    using demo_call [of demo_sync 5 "lit ''m''" demo_fns b ?p] unfolding c1_def by (simp add: demo_sync_def demo_bus_state_def)
  moreover have "sync_step demo_fns b c1 c2" unfolding c2_def by (rule sync_step.push) (simp add: c1_def)
  moreover have "sync_step demo_fns b c2 c3" unfolding c3_def by (rule sync_step.take) (simp_all add: b2)
  moreover have "sync_step demo_fns b c3 demo_taken"
  proof -
    have taken: "demo_taken = c3\<lparr>callers := (callers c3)(5 := Blocked (lit ''m'') ?p 0)\<rparr>"
      by (simp add: demo_taken_def c3_def b2 b1 take_tasks_def new_MsgTask_def) (simp add: c2_def c1_def demo_sync_def demo_bus_state_def)
    show ?thesis unfolding taken
      by (rule sync_step.block) (simp_all add: b3 b1 SendMsg_check_def new_ReadySendMsgInfo_def, simp add: c3_def c2_def)
  qed
  ultimately show ?thesis by (meson converse_rtranclp_into_rtranclp rtranclp.rtrancl_refl)
qed


lemma demo_exec:
  assumes "s_all_msghandler_objs st mid = Some [(1, True)]" "strong st 1" "map_of (all_handlers st 1) mid = Some \<lparr>htype = 0, handler_func = Some 1\<rparr>"
  shows "SendMsgInMsgBusThread demo_fns (msgbus_tid st) st mid [new_MsgTask mid (demo_param [1, 2]) t] =
    Inr (st, [(new_MsgTask mid (demo_param [2, 1]) t)\<lparr>ret := True\<rparr>])"
proof -
  have "lock_handlers st mid = ([1], st)" using assms(1,2) by (simp add: lock_handlers_def set_handlers_def map_upd_triv)
  with assms(3) show ?thesis
    by (simp add: SendMsgInMsgBusThread_def OnMsg_def demo_fns_def demo_fn_def new_MsgTask_def DeepCopy_def memcpy_ptr_def cload_def cbind_def Let_def)
qed

text \<open>The bus thread executes a task of thread 5 and answers whatever call the thread is in then.\<close>

lemma demo_deliver:
  assumes c: "bpc c = Running [(mid, [u])]" "SendMsgInMsgBusThread env (msgbus_tid (bus c)) (bus c) mid [u] = Inr (bus c, [u'])"
    "callertid u' = t" "t \<noteq> msgbus_tid (bus c)" "s_ready_sendmsgs (bus c) t = Some q" "q < length (ready_infos (bus c))"
    "callers c t = Looking k p q \<or> callers c t = Blocked k p q"
  shows "\<exists>c'. (sync_step env b)\<^sup>*\<^sup>* c c' \<and>
    trace c' = trace c @ [Exec (callertid u) (msgid u) (msgparam u) (ret u') (msgparam u'), Return t (ret u') (msgparam u')]"
proof -
  define c1 where "c1 = c\<lparr>bus := bus c, bpc := Notifying [u'] [], trace := trace c @ exec_events [u] [u']\<rparr>"
  define c2 where "c2 = c1\<lparr>bpc := Found q u' [] []\<rparr>"
  define c3 where "c3 = c2\<lparr>bus := fill_info (bus c2) q u', callers := (\<lambda>u. wake_caller q (callers c2 u)), bpc := Notifying [] []\<rparr>"
  define c4 where "c4 = c3\<lparr>callers := (callers c3)(t := Leaving (Some (ret u', msgparam u')))\<rparr>"
  define c5 where "c5 = c4\<lparr>bus := SendMsg_done (bus c4) t, callers := (callers c4)(t := Idle),
    trace := trace c4 @ [case Some (ret u', msgparam u') of None \<Rightarrow> TimedOut t | Some (r, p') \<Rightarrow> Return t r p']\<rparr>"
  have "sync_step env b c c1" unfolding c1_def by (rule sync_step.exec [OF c(1,2)])
  moreover have "sync_step env b c1 c2" unfolding c2_def by (rule sync_step.found) (use c in \<open>simp_all add: c1_def\<close>)
  moreover have "sync_step env b c2 c3" unfolding c3_def by (rule sync_step.fill) (simp add: c2_def)
  moreover have l: "callers c3 t = Looking k p q" using c(7) by (auto simp: c3_def c2_def c1_def)
  moreover have "SendMsg_check (bus c3) q = Some (ret u', msgparam u')"
    using c(6) by (simp add: c3_def c2_def c1_def fill_info_def SendMsg_check_def)
  then have "sync_step env b c3 c4" unfolding c4_def by (rule sync_step.look [OF l])
  moreover have "sync_step env b c4 c5" unfolding c5_def by (rule sync_step.leave) (simp add: c4_def)
  ultimately have "(sync_step env b)\<^sup>*\<^sup>* c c5" by (meson converse_rtranclp_into_rtranclp rtranclp.rtrancl_refl)
  moreover have "trace c5 = trace c @ [Exec (callertid u) (msgid u) (msgparam u) (ret u') (msgparam u'), Return t (ret u') (msgparam u')]"
    by (simp add: c5_def c4_def c3_def c2_def c1_def exec_events_def)
  ultimately show ?thesis by blast
qed

lemma demo_taken_answered:
  "\<exists>c. (sync_step demo_fns False)\<^sup>*\<^sup>* demo_sync c \<and> trace c = [Call 5 (lit ''m'') (demo_param [1, 2]),
     Exec 5 (lit ''m'') (demo_param [1, 2]) True (demo_param [2, 1]), Return 5 True (demo_param [2, 1])]"
proof -
  let ?u = "new_MsgTask (lit ''m'') (demo_param [1, 2]) 5" and ?u' = "(new_MsgTask (lit ''m'') (demo_param [2, 1]) 5)\<lparr>ret := True\<rparr>"
  have e: "SendMsgInMsgBusThread demo_fns (msgbus_tid (bus demo_taken)) (bus demo_taken) (lit ''m'') [?u] = Inr (bus demo_taken, [?u'])"
    by (rule demo_exec) (simp_all add: demo_taken_def demo_sync_def demo_bus_state_def)
  have "\<exists>c'. (sync_step demo_fns False)\<^sup>*\<^sup>* demo_taken c' \<and>
    trace c' = trace demo_taken @ [Exec (callertid ?u) (msgid ?u) (msgparam ?u) (ret ?u') (msgparam ?u'), Return 5 (ret ?u') (msgparam ?u')]"
    by (rule demo_deliver [OF _ e, where k = "lit ''m''" and p = "demo_param [1, 2]" and q = 0])
      (simp_all add: demo_taken_def demo_sync_def demo_bus_state_def new_MsgTask_def)
  with demo_taken_run [of False] show ?thesis by (auto simp: demo_taken_def new_MsgTask_def intro: rtranclp_trans)
qed

theorem sendmsg_own_answer_witness:
  "\<exists>c before mid p h. (sync_step demo_fns False)\<^sup>*\<^sup>* demo_sync c \<and> trace c = before @ [Return 5 True (demo_param [2, 1])] \<and>
     filter (\<lambda>e. ev_thread e = 5) before = h @ [Call 5 mid p, Exec 5 mid p True (demo_param [2, 1])]"
proof -
  let ?before = "[Call 5 (lit ''m'') (demo_param [1, 2]), Exec 5 (lit ''m'') (demo_param [1, 2]) True (demo_param [2, 1])]"
  obtain c where c: "(sync_step demo_fns False)\<^sup>*\<^sup>* demo_sync c" and t: "trace c = ?before @ Return 5 True (demo_param [2, 1]) # []"
    using demo_taken_answered by auto
  have "(5 :: nat) \<noteq> msgbus_tid (bus demo_sync)" by (simp add: demo_sync_def demo_bus_state_def)
  from sendmsg_own_answer [OF demo_sync_env(1,3) c t this] c t show ?thesis by blast
qed

text \<open>
  C39: a call can return the answer to an earlier call. The bus thread finds the structure to fill by the caller's thread
  id alone: thread 5 sends \<open>m\<close>, the wait times out while the handlers still run, the thread sends \<open>k\<close>, the bus
  thread finishes \<open>m\<close>, and \<open>SendMsg\<close> for \<open>k\<close> returns true with the result of \<open>m\<close>, before any handler of \<open>k\<close> has run.
\<close>

theorem sendmsg_stale_answer:
  "sync_start demo_sync \<and> (\<exists>c. (sync_step demo_fns True)\<^sup>*\<^sup>* demo_sync c \<and>
     trace c = [Call 5 (lit ''m'') (demo_param [1, 2]), TimedOut 5, Call 5 (lit ''k'') (demo_param [7]),
       Exec 5 (lit ''m'') (demo_param [1, 2]) True (demo_param [2, 1]), Return 5 True (demo_param [2, 1])])"
proof -
  let ?u = "new_MsgTask (lit ''m'') (demo_param [1, 2]) 5" and ?u' = "(new_MsgTask (lit ''m'') (demo_param [2, 1]) 5)\<lparr>ret := True\<rparr>"
  define c1 where "c1 = demo_taken\<lparr>callers := (callers demo_taken)(5 := Leaving None)\<rparr>"
  define c2 where "c2 = c1\<lparr>bus := SendMsg_done (bus c1) 5, callers := (callers c1)(5 := Idle),
    trace := trace c1 @ [case None of None \<Rightarrow> TimedOut 5 | Some (r, p') \<Rightarrow> Return 5 r p']\<rparr>"
  define c3 where "c3 = c2\<lparr>bus := snd (SendMsg_register (bus c2) 5), callers := (callers c2)(5 := Registered (lit ''k'') (demo_param [7]) (length (ready_infos (bus c2)))),
    trace := trace c2 @ [Call 5 (lit ''k'') (demo_param [7])]\<rparr>"
  define c4 where "c4 = c3\<lparr>bus := SendMsg_push (bus c3) 5 (lit ''k'') (demo_param [7]), callers := (callers c3)(5 := Looking (lit ''k'') (demo_param [7]) (length (ready_infos (bus c2)))), bpc := wake_bus (bpc c3)\<rparr>"
  note defs = c4_def c3_def c2_def c1_def demo_taken_def demo_sync_def demo_bus_state_def SendMsg_done_def SendMsg_register_def SendMsg_push_def wake_bus_def
  have "sync_step demo_fns True demo_taken c1" unfolding c1_def by (rule sync_step.time_out) (simp_all add: demo_taken_def)
  moreover have "sync_step demo_fns True c1 c2" unfolding c2_def by (rule sync_step.leave) (simp add: c1_def)
  moreover have "sync_step demo_fns True c2 c3" unfolding c3_def by (rule demo_call) (simp_all add: defs)
  moreover have "sync_step demo_fns True c3 c4" unfolding c4_def by (rule sync_step.push) (simp add: c3_def)
  ultimately have r: "(sync_step demo_fns True)\<^sup>*\<^sup>* demo_sync c4" using demo_taken_run [of True] by (meson rtranclp.rtrancl_into_rtrancl)
  have e: "SendMsgInMsgBusThread demo_fns (msgbus_tid (bus c4)) (bus c4) (lit ''m'') [?u] = Inr (bus c4, [?u'])"
    by (rule demo_exec) (simp_all add: defs)
  have "\<exists>c'. (sync_step demo_fns True)\<^sup>*\<^sup>* c4 c' \<and>
    trace c' = trace c4 @ [Exec (callertid ?u) (msgid ?u) (msgparam ?u) (ret ?u') (msgparam ?u'), Return 5 (ret ?u') (msgparam ?u')]"
    by (rule demo_deliver [OF _ e, where k = "lit ''k''" and p = "demo_param [7]" and q = 1]) (simp_all add: defs new_MsgTask_def)
  moreover have "trace c4 = [Call 5 (lit ''m'') (demo_param [1, 2]), TimedOut 5, Call 5 (lit ''k'') (demo_param [7])]"
    by (simp add: defs)
  ultimately show ?thesis using r demo_sync_env(3) by (auto simp: new_MsgTask_def intro: rtranclp_trans)
qed

end
