(* ===== verification/Thread_Pool.thy ===== *)
theory Thread_Pool
  imports Bus_Prelude Std_Map
begin

text \<open>
  The thread pool, \<^verbatim>\<open>src/Core/threadpool.cpp\<close>, \<^verbatim>\<open>threadpoolimp.*\<close>, \<^verbatim>\<open>worker_thread.hpp\<close>, \<^verbatim>\<open>named_worker_thread.*\<close>,
  \<^verbatim>\<open>multitimer.*\<close> and \<^verbatim>\<open>timer_thread.hpp\<close>: worker threads with one queue, named threads with a queue each, threads of
  their own for long tasks, and timers.

  A task is a value \<open>'k\<close>, \<open>None\<close> is the empty \<open>boost::function\<close>. Every function here is what runs under one lock; waiting
  on a condition and waking up are in \<open>Thread_Pool_Props\<close>. What \<open>pthread_create\<close> returns is an argument (\<open>Some pid\<close>, \<open>None\<close>
  on failure), and so are the results of \<open>select\<close> and the clock. Named workers live in a heap, as the
  threads and the pool share them. Thread ids are not zero.
\<close>

section \<open>Timers\<close>

record 'k multitimer =
  m_timertask :: "'k option"
  m_delaysec :: int
  m_elapse :: int
  m_inuse :: bool
  m_repeat :: bool
  m_timerid :: int

text \<open>The constructor; \<open>timer_counter\<close> is the static counter of ids.\<close>

definition new_multitimer :: "int \<Rightarrow> 'k option \<Rightarrow> int \<Rightarrow> bool \<Rightarrow> 'k multitimer \<times> int" where
  "new_multitimer timer_counter task delaysec repeat =
     (\<lparr>m_timertask = task, m_delaysec = delaysec, m_elapse = 0, m_inuse = task \<noteq> None, m_repeat = repeat,
       m_timerid = timer_counter + 1\<rparr>, timer_counter + 1)"

definition add_elapse :: "'k multitimer \<Rightarrow> int \<Rightarrow> 'k multitimer" where
  "add_elapse t elapse =
     (if \<not> m_inuse t then t else if m_elapse t > m_delaysec t then t else t\<lparr>m_elapse := m_elapse t + elapse\<rparr>)"

definition isready :: "'k multitimer \<Rightarrow> bool \<times> 'k multitimer" where
  "isready t =
     (if \<not> m_inuse t then (False, t)
      else if m_elapse t \<ge> m_delaysec t then
        if m_timertask t \<noteq> None then (True, t) else (False, t\<lparr>m_inuse := False\<rparr>)
      else (False, t))"

definition get_timertask_and_reset :: "'k multitimer \<Rightarrow> 'k option \<times> 'k multitimer" where
  "get_timertask_and_reset t =
     (m_timertask t, if m_repeat t then t\<lparr>m_elapse := 0\<rparr> else t\<lparr>m_elapse := 0, m_inuse := False\<rparr>)"

definition deletetimer :: "'k multitimer \<Rightarrow> 'k multitimer" where
  "deletetimer t = t\<lparr>m_elapse := 0, m_timertask := None, m_inuse := False\<rparr>"

section \<open>The pool\<close>

record 'k named_worker =
  nw_threadname :: "byte list"
  nw_terminate :: bool
  nw_task_container :: "'k option list"

record 'k threadpoolimp =
  m_terminateall :: bool
  m_task_container :: "'k option list"
  m_pids :: "nat list"
  m_alone_pids :: "nat list"
  m_timertask_container :: "'k multitimer list"
  m_named_threads :: "(byte list, nat option \<times> nat) std_map"
  named_mem :: "nat \<Rightarrow> 'k named_worker"
  next_named :: nat
  timer_counter :: int
  pool_running :: bool

definition THREAD_POOL_MAX_TIMER :: nat where "THREAD_POOL_MAX_TIMER = 16"
definition THREAD_POOL_MAX_THREAD :: nat where "THREAD_POOL_MAX_THREAD = 32"

text \<open>
  The static pool. \<open>m_timertask_container(THREAD_POOL_MAX_TIMER)\<close> copies one default timer before C++11 and makes a new
  one for every place since; \<open>own_ids\<close> says which.
\<close>

definition new_threadpoolimp :: "bool \<Rightarrow> (nat \<Rightarrow> 'k named_worker) \<Rightarrow> 'k threadpoolimp" where
  "new_threadpoolimp own_ids mem =
     \<lparr>m_terminateall = False, m_task_container = [], m_pids = [], m_alone_pids = [],
      m_timertask_container = map (\<lambda>i. fst (new_multitimer (if own_ids then int i else 0) None 0 False)) [0..<THREAD_POOL_MAX_TIMER],
      m_named_threads = [], named_mem = mem, next_named = 0,
      timer_counter = (if own_ids then int THREAD_POOL_MAX_TIMER else 1), pool_running = False\<rparr>"

definition terminateall :: "'k threadpoolimp \<Rightarrow> 'k threadpoolimp" where
  "terminateall p = p\<lparr>m_terminateall := True, m_task_container := [], m_timertask_container := []\<rparr>"

definition push_task :: "'k threadpoolimp \<Rightarrow> 'k option \<Rightarrow> 'k threadpoolimp" where
  "push_task p task = p\<lparr>m_task_container := m_task_container p @ [task]\<rparr>"

definition push_thread :: "'k threadpoolimp \<Rightarrow> nat \<Rightarrow> 'k threadpoolimp" where
  "push_thread p pid = (if m_terminateall p then p else if pid \<noteq> 0 then p\<lparr>m_pids := m_pids p @ [pid]\<rparr> else p)"

definition threadempty :: "'k threadpoolimp \<Rightarrow> bool" where "threadempty p \<longleftrightarrow> m_pids p = []"

definition push_alonethread :: "'k threadpoolimp \<Rightarrow> nat \<Rightarrow> 'k threadpoolimp" where
  "push_alonethread p pid =
     (if m_terminateall p then p
      else if pid \<noteq> 0 \<and> pid \<notin> set (m_alone_pids p) then p\<lparr>m_alone_pids := m_alone_pids p @ [pid]\<rparr> else p)"

definition erase_alonethread :: "'k threadpoolimp \<Rightarrow> nat \<Rightarrow> 'k threadpoolimp" where
  "erase_alonethread p pid = (if m_terminateall p then p else p\<lparr>m_alone_pids := remove1 pid (m_alone_pids p)\<rparr>)"

section \<open>Worker threads\<close>

text \<open>
  The locked part of \<open>worker_thread::execute_task\<close>, from entering it and from every return of the wait: the flag is
  tested before the queue at the start and after it in the loop, with one result. \<open>Quit\<close> is the return value false.
\<close>

datatype 'k worker_result = Quit | Wait | Take "'k option"

definition execute_task :: "'k threadpoolimp \<Rightarrow> 'k worker_result \<times> 'k threadpoolimp" where
  "execute_task p =
     (if m_terminateall p then (Quit, p)
      else case m_task_container p of
        [] \<Rightarrow> (Wait, p)
      | task # tasks \<Rightarrow> (Take task, p\<lparr>m_task_container := tasks\<rparr>))"

definition worker_create_and_attach :: "'k threadpoolimp \<Rightarrow> nat option \<Rightarrow> bool \<times> 'k threadpoolimp" where
  "worker_create_and_attach p created =
     (case created of Some pid \<Rightarrow> (True, push_thread p pid) | None \<Rightarrow> (False, p))"

section \<open>Named threads\<close>

definition queue_task :: "'k threadpoolimp \<Rightarrow> nat \<Rightarrow> 'k option \<Rightarrow> 'k threadpoolimp" where
  "queue_task p w task =
     p\<lparr>named_mem := (named_mem p)(w := (named_mem p w)\<lparr>nw_task_container := nw_task_container (named_mem p w) @ [task]\<rparr>)\<rparr>"

definition terminate_thread :: "'k threadpoolimp \<Rightarrow> nat \<Rightarrow> 'k threadpoolimp" where
  "terminate_thread p w = p\<lparr>named_mem := (named_mem p)(w := (named_mem p w)\<lparr>nw_terminate := True\<rparr>)\<rparr>"

definition add_named_thread :: "'k threadpoolimp \<Rightarrow> nat \<Rightarrow> byte list \<Rightarrow> nat \<Rightarrow> 'k threadpoolimp" where
  "add_named_thread p pid threadname w = p\<lparr>m_named_threads := map_insert threadname (Some w, pid) (m_named_threads p)\<rparr>"

definition named_create_and_attach :: "'k threadpoolimp \<Rightarrow> byte list \<Rightarrow> nat option \<Rightarrow> bool \<times> 'k threadpoolimp" where
  "named_create_and_attach p threadname created =
     (let w = next_named p;
          p = p\<lparr>named_mem := (named_mem p)(w := \<lparr>nw_threadname = threadname, nw_terminate = False, nw_task_container = []\<rparr>),
                next_named := w + 1\<rparr> in
      case created of Some pid \<Rightarrow> (True, add_named_thread p pid threadname w) | None \<Rightarrow> (False, p))"

definition has_worker :: "'k threadpoolimp \<Rightarrow> byte list \<Rightarrow> bool" where
  "has_worker p threadname \<longleftrightarrow> (case map_of (m_named_threads p) threadname of Some (Some _, _) \<Rightarrow> True | _ \<Rightarrow> False)"

definition push_task_to_named_thread ::
  "'k threadpoolimp \<Rightarrow> 'k option \<Rightarrow> byte list \<Rightarrow> nat option \<Rightarrow> bool \<times> 'k threadpoolimp" where
  "push_task_to_named_thread p task threadname created =
     (if m_terminateall p then (False, p)
      else
        let (ok, p) = (if \<not> has_worker p threadname then named_create_and_attach p threadname created else (True, p)) in
        if \<not> ok then (False, p)
        else case map_of (m_named_threads p) threadname of
            Some (Some w, _) \<Rightarrow> (True, queue_task p w task)
          | _ \<Rightarrow> (False, p))"

definition pool_terminate_named_thread :: "'k threadpoolimp \<Rightarrow> byte list \<Rightarrow> 'k threadpoolimp" where
  "pool_terminate_named_thread p threadname =
     (case map_of (m_named_threads p) threadname of Some (Some w, _) \<Rightarrow> terminate_thread p w | _ \<Rightarrow> p)"

definition pool_get_named_thread :: "'k threadpoolimp \<Rightarrow> byte list \<Rightarrow> nat option" where
  "pool_get_named_thread p threadname =
     (case map_of (m_named_threads p) threadname of Some (Some _, pid) \<Rightarrow> Some pid | _ \<Rightarrow> None)"

definition remove_named_thread :: "'k threadpoolimp \<Rightarrow> byte list \<Rightarrow> 'k threadpoolimp" where
  "remove_named_thread p threadname = p\<lparr>m_named_threads := map_erase threadname (m_named_threads p)\<rparr>"

text \<open>The locked part of \<open>named_worker_thread::execute_task\<close>: it takes the whole queue.\<close>

datatype 'k named_result = NQuit | NWait | NTake "'k option list"

definition named_execute_task :: "'k named_worker \<Rightarrow> 'k named_result \<times> 'k named_worker" where
  "named_execute_task w =
     (if nw_task_container w = [] then (if nw_terminate w then NQuit else NWait, w)
      else if nw_terminate w then (NQuit, w)
      else (NTake (nw_task_container w), w\<lparr>nw_task_container := []\<rparr>))"

definition remove_self_from_threadpool :: "'k threadpoolimp \<Rightarrow> nat \<Rightarrow> 'k threadpoolimp" where
  "remove_self_from_threadpool p w = remove_named_thread (terminate_thread p w) (nw_threadname (named_mem p w))"

text \<open>\<open>died_unexpect\<close> of a named thread fails its assertion.\<close>

definition named_died_unexpect :: "'k threadpoolimp \<Rightarrow> nat \<Rightarrow> 'k threadpoolimp cres" where
  "named_died_unexpect p w = Inl AssertFailed"

section \<open>The timer thread\<close>

text \<open>
  \<open>wait(msec)\<close>: \<open>n\<close> is the result of \<open>select\<close>, \<open>sec\<close> and \<open>usec\<close> the time that passed. The result is what is left to wait.
\<close>

definition timer_wait :: "int \<Rightarrow> nat \<Rightarrow> nat \<Rightarrow> nat \<Rightarrow> nat" where
  "timer_wait n sec usec msec =
     (if n = 0 then 0 else let waitmsec = sec * 1000 + usec div 1000 in if waitmsec < msec then msec - waitmsec else 0)"

text \<open>The loop in \<open>timer_proc\<close> over the returns of \<open>select\<close>; \<open>None\<close>: it still waits.\<close>

fun timer_wait_loop :: "nat \<Rightarrow> (int \<times> nat \<times> nat) list \<Rightarrow> (int \<times> nat \<times> nat) list option" where
  "timer_wait_loop waitms [] = (if waitms > 0 then None else Some [])"
| "timer_wait_loop waitms ((n, sec, usec) # rs) =
     (if waitms > 0 then timer_wait_loop (timer_wait n sec usec waitms) rs else Some ((n, sec, usec) # rs))"

text \<open>
  One timer of the loop in \<open>timer_proc\<close>. The loop holds no lock and took the size before, so the access is
  checked against the container as it is now.
\<close>

definition timer_visit :: "'k threadpoolimp \<Rightarrow> nat \<Rightarrow> 'k threadpoolimp cres" where
  "timer_visit p i =
     (if i \<ge> length (m_timertask_container p) then Inl OutOfBounds
      else
        let (r, t) = isready (add_elapse (m_timertask_container p ! i) 1) in
        if r then
          let (task, t) = get_timertask_and_reset t in
          Inr (push_task (p\<lparr>m_timertask_container := (m_timertask_container p)[i := t]\<rparr>) task)
        else Inr (p\<lparr>m_timertask_container := (m_timertask_container p)[i := t]\<rparr>))"

fun timer_loop :: "'k threadpoolimp \<Rightarrow> nat list \<Rightarrow> 'k threadpoolimp cres" where
  "timer_loop p [] = Inr p"
| "timer_loop p (i # is) = cbind (timer_visit p i) (\<lambda>p. timer_loop p is)"

text \<open>\<open>timer_proc\<close> after its wait, when no other thread runs in between; the flag is its result.\<close>

definition timer_proc :: "'k threadpoolimp \<Rightarrow> (bool \<times> 'k threadpoolimp) cres" where
  "timer_proc p =
     (if m_terminateall p then Inr (False, p)
      else cmap (Pair True) (timer_loop p [0..<length (m_timertask_container p)]))"

section \<open>The interface\<close>

definition queue_work_task_to_named_thread ::
  "'k threadpoolimp \<Rightarrow> 'k option \<Rightarrow> byte list \<Rightarrow> nat option \<Rightarrow> bool \<times> 'k threadpoolimp" where
  "queue_work_task_to_named_thread p task threadname created =
     (if \<not> pool_running p then (False, p) else push_task_to_named_thread p task threadname created)"

text \<open>
  \<open>queue_work_task\<close>; with flag 1 the new thread gets the address of the caller's task object (\<open>Some pid\<close>: it was
  started and has to be handed the address).
\<close>

definition queue_work_task :: "'k threadpoolimp \<Rightarrow> 'k option \<Rightarrow> int \<Rightarrow> nat option \<Rightarrow> (bool \<times> 'k threadpoolimp) cres" where
  "queue_work_task p task flag created =
     (if \<not> pool_running p then Inl AssertFailed
      else if flag = 1 then
        Inr (case created of Some pid \<Rightarrow> (True, push_alonethread p pid) | None \<Rightarrow> (False, p))
      else Inr (True, push_task p task))"

text \<open>
  The start of \<open>longrunproc\<close>: it copies the task through the pointer. \<open>object\<close> is what the caller's object is when the
  thread gets there, \<open>None\<close> once its lifetime has ended. The end of the thread is \<open>longrun_end\<close>.
\<close>

definition longrunproc :: "'k option option \<Rightarrow> 'k option cres" where
  "longrunproc object = (case object of None \<Rightarrow> Inl OutOfBounds | Some task \<Rightarrow> Inr task)"

definition longrun_end :: "'k threadpoolimp \<Rightarrow> nat \<Rightarrow> 'k threadpoolimp" where
  "longrun_end p self = erase_alonethread p self"

fun first_free :: "'k multitimer list \<Rightarrow> nat" where
  "first_free [] = 0"
| "first_free (t # ts) = (if m_inuse t then Suc (first_free ts) else 0)"

definition queue_timer_task :: "'k threadpoolimp \<Rightarrow> 'k option \<Rightarrow> int \<Rightarrow> bool \<Rightarrow> int \<times> 'k threadpoolimp" where
  "queue_timer_task p task delaysec repeatflag =
     (if task = None then (0, p)
      else if \<not> pool_running p then (0, p)
      else
        let i = first_free (m_timertask_container p) in
        if i = length (m_timertask_container p) then (0, p)
        else
          let (t, c) = new_multitimer (timer_counter p) task delaysec repeatflag in
          (m_timerid t, p\<lparr>m_timertask_container := (m_timertask_container p)[i := t], timer_counter := c\<rparr>))"

fun delete_first :: "int \<Rightarrow> 'k multitimer list \<Rightarrow> 'k multitimer list" where
  "delete_first timerid [] = []"
| "delete_first timerid (t # ts) = (if m_timerid t = timerid then deletetimer t # ts else t # delete_first timerid ts)"

definition deletetimerbyid :: "'k threadpoolimp \<Rightarrow> int \<Rightarrow> 'k threadpoolimp" where
  "deletetimerbyid p timerid = p\<lparr>m_timertask_container := delete_first timerid (m_timertask_container p)\<rparr>"

fun create_workers :: "'k threadpoolimp \<Rightarrow> nat option list \<Rightarrow> 'k threadpoolimp" where
  "create_workers p [] = p"
| "create_workers p (c # cs) = create_workers (snd (worker_create_and_attach p c)) cs"

text \<open>\<open>created k\<close>: the \<open>k\<close>-th call of \<open>pthread_create\<close>, the timer thread's first.\<close>

definition init_thread_pool :: "'k threadpoolimp \<Rightarrow> int \<Rightarrow> (nat \<Rightarrow> nat option) \<Rightarrow> bool \<times> 'k threadpoolimp" where
  "init_thread_pool p thread_num created =
     (if pool_running p then (True, p)
      else
        let p = (case created 0 of Some pid \<Rightarrow> push_thread p pid | None \<Rightarrow> p);
            n = (if thread_num \<le> 0 then THREAD_POOL_MAX_THREAD else nat thread_num);
            p = create_workers p (map created [1..<Suc n]) in
        if threadempty p then (False, p) else (True, p\<lparr>pool_running := True\<rparr>))"

fun terminate_each :: "(byte list, nat option \<times> nat) std_map \<Rightarrow> 'k threadpoolimp \<Rightarrow> 'k threadpoolimp" where
  "terminate_each [] p = p"
| "terminate_each ((_, Some w, _) # ns) p = terminate_each ns (terminate_thread p w)"
| "terminate_each ((_, None, _) # ns) p = terminate_each ns p"

text \<open>
  \<open>destroy_thread_pool\<close> with \<open>waittoterminate\<close>: the threads it joins, in order, with the named threads as they are after the
  workers ended (\<open>later\<close>), and those it kills.
\<close>

definition destroy_thread_pool ::
  "'k threadpoolimp \<Rightarrow> ('k threadpoolimp \<Rightarrow> 'k threadpoolimp) \<Rightarrow> nat list \<times> nat list \<times> 'k threadpoolimp" where
  "destroy_thread_pool p later =
     (let p = later (terminateall (terminateall p));
          named = m_named_threads p;
          p = terminate_each named p in
      (m_pids p @ map (\<lambda>(_, _, pid). pid) named, m_alone_pids p, p\<lparr>pool_running := False\<rparr>))"

end
