(* ===== verification/Thread_Pool_Props.thy ===== *)
theory Thread_Pool_Props
  imports Thread_Pool
begin

text \<open>
  The thread pool in any interleaving of its worker threads, its users and the timer thread: no task is lost or
  reordered, no wake-up is lost, the queue drains, the pool ends; and how often timers fire.
\<close>

section \<open>Worker threads in any interleaving\<close>

text \<open>
  A worker thread is before the locked part of \<open>execute_task\<close>, in the wait, woken from it, running a task, or has
  ended. \<open>pushed\<close> and \<open>started\<close> record the tasks in the order they were queued and taken.
\<close>

datatype 'k worker_pc = NoThread | AtTop | Asleep | Woken | Running "'k option" | Ended

record 'k pool_cfg =
  tpool :: "'k threadpoolimp"
  workers :: "nat \<Rightarrow> 'k worker_pc"
  pushed :: "'k option list"
  started :: "'k option list"

text \<open>\<open>notify_one\<close> wakes one of the waiting threads, if there is one; \<open>notify_all\<close> wakes them all.\<close>

definition notified_one :: "(nat \<Rightarrow> 'k worker_pc) \<Rightarrow> (nat \<Rightarrow> 'k worker_pc) \<Rightarrow> bool" where
  "notified_one ws ws' \<longleftrightarrow> (\<exists>t. ws t = Asleep \<and> ws' = ws(t := Woken)) \<or> (\<forall>t. ws t \<noteq> Asleep) \<and> ws' = ws"

definition notified_all :: "(nat \<Rightarrow> 'k worker_pc) \<Rightarrow> nat \<Rightarrow> 'k worker_pc" where
  "notified_all ws = (\<lambda>t. if ws t = Asleep then Woken else ws t)"

fun after_look :: "'k worker_result \<Rightarrow> 'k worker_pc" where
  "after_look Quit = Ended"
| "after_look Wait = Asleep"
| "after_look (Take k) = Running k"

fun taken :: "'k worker_result \<Rightarrow> 'k option list" where
  "taken (Take k) = [k]"
| "taken _ = []"

text \<open>What the worker threads do: look for a task, finish it, or die in it and be replaced.\<close>

inductive worker_step :: "'k pool_cfg \<Rightarrow> 'k pool_cfg \<Rightarrow> bool" where
  look: "workers c t = AtTop \<or> workers c t = Woken \<Longrightarrow> execute_task (tpool c) = (r, p) \<Longrightarrow>
    worker_step c (c\<lparr>tpool := p, workers := (workers c)(t := after_look r), started := started c @ taken r\<rparr>)"
| finish: "workers c t = Running k \<Longrightarrow> worker_step c (c\<lparr>workers := (workers c)(t := AtTop)\<rparr>)"
| died: "workers c t = Running k \<Longrightarrow> created = None \<or> (\<exists>u. created = Some u \<and> workers c u = NoThread \<and> u \<noteq> 0) \<Longrightarrow>
    worker_step c (c\<lparr>tpool := snd (worker_create_and_attach (tpool c) created),
      workers := (case created of None \<Rightarrow> (workers c)(t := Ended) | Some u \<Rightarrow> (workers c)(t := Ended, u := AtTop))\<rparr>)"

text \<open>What happens around them: a task is queued, a timer has its turn, the pool is ended, a wait returns for no reason.\<close>

inductive client_step :: "'k pool_cfg \<Rightarrow> 'k pool_cfg \<Rightarrow> bool" where
  push: "notified_one (workers c) ws \<Longrightarrow> client_step c (c\<lparr>tpool := push_task (tpool c) k, workers := ws, pushed := pushed c @ [k]\<rparr>)"
| timer_idle: "timer_visit (tpool c) i = Inr p \<Longrightarrow> m_task_container p = m_task_container (tpool c) \<Longrightarrow> client_step c (c\<lparr>tpool := p\<rparr>)"
| timer_fires: "timer_visit (tpool c) i = Inr p \<Longrightarrow> m_task_container p = m_task_container (tpool c) @ [k] \<Longrightarrow>
    notified_one (workers c) ws \<Longrightarrow> notified_one ws ws' \<Longrightarrow> client_step c (c\<lparr>tpool := p, workers := ws', pushed := pushed c @ [k]\<rparr>)"
| shutdown: "client_step c (c\<lparr>tpool := terminateall (tpool c), workers := notified_all (workers c)\<rparr>)"
| spurious: "workers c t = Asleep \<Longrightarrow> client_step c (c\<lparr>workers := (workers c)(t := Woken)\<rparr>)"

definition pool_step :: "'k pool_cfg \<Rightarrow> 'k pool_cfg \<Rightarrow> bool" where
  "pool_step c c' \<longleftrightarrow> worker_step c c' \<or> client_step c c'"

text \<open>After \<open>init_thread_pool\<close>: the threads are about to look, nothing is queued.\<close>

definition pool_start :: "'k pool_cfg \<Rightarrow> bool" where
  "pool_start c \<longleftrightarrow> \<not> m_terminateall (tpool c) \<and> m_task_container (tpool c) = [] \<and> pushed c = [] \<and> started c = [] \<and>
     finite {t. workers c t \<noteq> NoThread} \<and> (\<forall>t. workers c t = NoThread \<or> workers c t = AtTop)"

text \<open>The threads about to look.\<close>

definition lookers :: "'k pool_cfg \<Rightarrow> nat set" where
  "lookers c = {t. workers c t = AtTop \<or> workers c t = Woken}"

definition workers_inv :: "'k pool_cfg \<Rightarrow> bool" where
  "workers_inv c \<longleftrightarrow> finite {t. workers c t \<noteq> NoThread} \<and>
     (if m_terminateall (tpool c) then (\<exists>rest. pushed c = started c @ rest) \<and> (\<forall>t. workers c t \<noteq> Asleep)
      else pushed c = started c @ m_task_container (tpool c) \<and>
        ((\<exists>t. workers c t = Asleep) \<longrightarrow> length (m_task_container (tpool c)) \<le> card (lookers c)))"

lemma finite_lookers: "finite {t. workers c t \<noteq> NoThread} \<Longrightarrow> finite (lookers c)"
  by (rule finite_subset [of _ "{t. workers c t \<noteq> NoThread}"]) (auto simp: lookers_def)

lemma push_task_simps [simp]:
  "m_terminateall (push_task p k) = m_terminateall p" "m_task_container (push_task p k) = m_task_container p @ [k]"
  by (simp_all add: push_task_def)

lemma timer_visit_terminate: "timer_visit p i = Inr p' \<Longrightarrow> m_terminateall p' = m_terminateall p"
  by (auto simp: timer_visit_def Let_def split: if_splits prod.splits)

lemma notified_one_threads: "notified_one ws ws' \<Longrightarrow> {t. ws' t \<noteq> NoThread} = {t. ws t \<noteq> NoThread}"
  by (auto simp: notified_one_def split: if_splits)

lemma lookers_wake:
  assumes "workers c t = Asleep" "finite (lookers c)"
  shows "card (lookers (c\<lparr>workers := (workers c)(t := Woken)\<rparr>)) = Suc (card (lookers c))"
proof -
  have "lookers (c\<lparr>workers := (workers c)(t := Woken)\<rparr>) = insert t (lookers c)" "t \<notin> lookers c"
    using assms(1) by (auto simp: lookers_def)
  with assms(2) show ?thesis by simp
qed

text \<open>A notification with a new task keeps as many threads about to look as there are tasks.\<close>

lemma inv_notified:
  assumes "workers_inv c" "notified_one (workers c) ws" "m_task_container p = m_task_container (tpool c) @ [k]"
    "m_terminateall p = m_terminateall (tpool c)"
  shows "workers_inv (c\<lparr>tpool := p, workers := ws, pushed := pushed c @ [k]\<rparr>)"
proof -
  have f: "finite (lookers c)" using assms(1) finite_lookers by (auto simp: workers_inv_def)
  from assms(2) consider (none) "\<forall>t. workers c t \<noteq> Asleep" "ws = workers c"
    | (one) t where "workers c t = Asleep" "ws = (workers c)(t := Woken)"
    by (auto simp: notified_one_def)
  then show ?thesis
  proof cases
    case none
    with assms show ?thesis by (auto simp: workers_inv_def)
  next
    case one
    have "lookers (c\<lparr>tpool := p, workers := ws, pushed := pushed c @ [k]\<rparr>) = lookers (c\<lparr>workers := (workers c)(t := Woken)\<rparr>)"
      by (simp add: lookers_def one(2))
    with lookers_wake [OF one(1) f] have "card (lookers (c\<lparr>tpool := p, workers := ws, pushed := pushed c @ [k]\<rparr>)) = Suc (card (lookers c))" by simp
    moreover have "{u. ws u \<noteq> NoThread} = {u. workers c u \<noteq> NoThread}" using notified_one_threads [OF assms(2)] .
    ultimately show ?thesis using assms(1,3,4) one by (auto simp: workers_inv_def split: if_splits)
  qed
qed

text \<open>Waking one more never hurts.\<close>

lemma inv_woken:
  assumes "workers_inv c" "workers c t = Asleep"
  shows "workers_inv (c\<lparr>workers := (workers c)(t := Woken)\<rparr>)"
proof -
  have f: "finite (lookers c)" using assms(1) finite_lookers by (auto simp: workers_inv_def)
  have "{u. ((workers c)(t := Woken)) u \<noteq> NoThread} = {u. workers c u \<noteq> NoThread}" using assms(2) by auto
  with assms lookers_wake [OF assms(2) f] show ?thesis by (auto simp: workers_inv_def split: if_splits)
qed

lemma inv_notified_again:
  assumes "workers_inv c" "notified_one (workers c) ws"
  shows "workers_inv (c\<lparr>workers := ws\<rparr>)"
  using assms inv_woken [OF assms(1)] by (auto simp: notified_one_def)

lemma inv_look:
  assumes "workers_inv c" "workers c t = AtTop \<or> workers c t = Woken" "execute_task (tpool c) = (r, p)"
  shows "workers_inv (c\<lparr>tpool := p, workers := (workers c)(t := after_look r), started := started c @ taken r\<rparr>)"
proof -
  let ?c = "c\<lparr>tpool := p, workers := (workers c)(t := after_look r), started := started c @ taken r\<rparr>"
  have f: "finite (lookers c)" using assms(1) finite_lookers by (auto simp: workers_inv_def)
  have t: "t \<in> lookers c" using assms(2) by (auto simp: lookers_def)
  have ne: "after_look r \<noteq> NoThread" "after_look r \<noteq> AtTop" "after_look r \<noteq> Woken" by (cases r; simp)+
  then have "lookers ?c = lookers c - {t}" by (auto simp: lookers_def)
  then have card: "card (lookers ?c) = card (lookers c) - 1" using t f by simp
  have threads: "{u. workers ?c u \<noteq> NoThread} = {u. workers c u \<noteq> NoThread}" using assms(2) ne(1) by auto
  show ?thesis
  proof (cases "m_terminateall (tpool c)")
    case True
    with assms threads show ?thesis by (auto simp: workers_inv_def execute_task_def)
  next
    case False
    show ?thesis
    proof (cases "m_task_container (tpool c)")
      case Nil
      with False assms threads show ?thesis by (auto simp: workers_inv_def execute_task_def)
    next
      case (Cons k ks)
      with False assms(3) have r: "r = Take k" "p = (tpool c)\<lparr>m_task_container := ks\<rparr>" by (auto simp: execute_task_def)
      from assms(1) False Cons threads card show ?thesis
        by (auto simp: workers_inv_def r split: if_splits)
    qed
  qed
qed

lemma attach_simps [simp]:
  "m_terminateall (snd (worker_create_and_attach p cr)) = m_terminateall p"
  "m_task_container (snd (worker_create_and_attach p cr)) = m_task_container p"
  by (auto simp: worker_create_and_attach_def push_thread_def split: option.splits)

lemma inv_died:
  assumes "workers_inv c" "workers c t = Running k"
    "created = None \<or> (\<exists>u. created = Some u \<and> workers c u = NoThread \<and> u \<noteq> 0)"
  shows "workers_inv (c\<lparr>tpool := snd (worker_create_and_attach (tpool c) created),
      workers := (case created of None \<Rightarrow> (workers c)(t := Ended) | Some u \<Rightarrow> (workers c)(t := Ended, u := AtTop))\<rparr>)"
    (is "workers_inv ?c")
proof -
  have f: "finite (lookers c)" using assms(1) finite_lookers by (auto simp: workers_inv_def)
  have "{u. workers ?c u \<noteq> NoThread} \<subseteq> {u. workers c u \<noteq> NoThread} \<union> set_option created"
    using assms(2) by (auto split: option.splits if_splits)
  then have fin: "finite {u. workers ?c u \<noteq> NoThread}"
    using assms(1) by (auto simp: workers_inv_def intro: finite_subset)
  have "lookers c \<subseteq> lookers ?c" using assms(2,3) by (auto simp: lookers_def split: option.splits)
  then have card: "card (lookers c) \<le> card (lookers ?c)" using finite_lookers [OF fin] by (rule card_mono [rotated])
  have "workers ?c u = Asleep \<Longrightarrow> workers c u = Asleep" for u by (auto split: option.splits if_splits)
  with assms(1) fin card show ?thesis unfolding workers_inv_def
    by (auto split: if_splits simp del: option.case) 
qed

lemma worker_step_inv: "worker_step c c' \<Longrightarrow> workers_inv c \<Longrightarrow> workers_inv c'"
proof (induction rule: worker_step.induct)
  case (look c t r p)
  then show ?case by (auto intro: inv_look)
next
  case (finish c t k)
  let ?c = "c\<lparr>workers := (workers c)(t := AtTop)\<rparr>"
  have f: "finite (lookers c)" using finish(2) finite_lookers by (auto simp: workers_inv_def)
  have "lookers ?c = insert t (lookers c)" "t \<notin> lookers c" using finish(1) by (auto simp: lookers_def)
  moreover have "{u. workers ?c u \<noteq> NoThread} = {u. workers c u \<noteq> NoThread}" using finish(1) by auto
  ultimately show ?case using finish f by (auto simp: workers_inv_def split: if_splits)
next
  case (died c t k created)
  then show ?case by (auto intro: inv_died)
qed

lemma shutdown_inv:
  assumes "workers_inv c"
  shows "workers_inv (c\<lparr>tpool := terminateall (tpool c), workers := notified_all (workers c)\<rparr>)"
proof -
  have "{t. notified_all (workers c) t \<noteq> NoThread} = {t. workers c t \<noteq> NoThread}" by (auto simp: notified_all_def)
  with assms show ?thesis by (auto simp: workers_inv_def terminateall_def notified_all_def split: if_splits)
qed

lemma client_step_inv: "client_step c c' \<Longrightarrow> workers_inv c \<Longrightarrow> workers_inv c'"
proof (induction rule: client_step.induct)
  case (push c ws k)
  then show ?case by (auto intro: inv_notified)
next
  case (timer_idle c i p)
  then show ?case using timer_visit_terminate [OF timer_idle(1)] by (auto simp: workers_inv_def lookers_def)
next
  case (timer_fires c i p k ws ws')
  have "workers_inv (c\<lparr>tpool := p, workers := ws, pushed := pushed c @ [k]\<rparr>)"
    using timer_fires timer_visit_terminate by (blast intro: inv_notified)
  from inv_notified_again [OF this, of ws'] timer_fires(4) show ?case by (simp add: workers_inv_def lookers_def split: if_splits)
next
  case (shutdown c)
  then show ?case by (rule shutdown_inv)
next
  case (spurious c t)
  then show ?case by (auto intro: inv_woken)
qed

lemma pool_start_inv: "pool_start c \<Longrightarrow> workers_inv c"
  by (auto simp: pool_start_def workers_inv_def)

lemma pool_reachable_inv: "pool_step\<^sup>*\<^sup>* c c' \<Longrightarrow> workers_inv c \<Longrightarrow> workers_inv c'"
  by (induction rule: rtranclp_induct) (auto simp: pool_step_def intro: worker_step_inv client_step_inv)

text \<open>What \<open>init_thread_pool\<close> leaves is such a start.\<close>

lemma create_workers_simps [simp]:
  "m_terminateall (create_workers p cs) = m_terminateall p" "m_task_container (create_workers p cs) = m_task_container p"
  by (induction p cs rule: create_workers.induct) simp_all

lemma init_thread_pool_start:
  assumes "init_thread_pool (new_threadpoolimp own mem) n created = (True, p)"
  shows "pool_start \<lparr>tpool = p, workers = (\<lambda>t. if t \<in> {t. \<exists>k \<in> {1..nat n}. created k = Some t} then AtTop else NoThread),
    pushed = [], started = []\<rparr>"
proof -
  have "{t. \<exists>k \<in> {1..nat n}. created k = Some t} \<subseteq> (\<lambda>k. the (created k)) ` {1..nat n}" by force
  then have "finite {t. \<exists>k \<in> {1..nat n}. created k = Some t}" by (rule finite_subset) simp
  moreover have "\<not> m_terminateall p" "m_task_container p = []"
    using assms by (auto simp: init_thread_pool_def new_threadpoolimp_def Let_def push_thread_def split: if_splits option.splits)
  ultimately show ?thesis by (auto simp: pool_start_def)
qed

section \<open>Progress\<close>

fun pc_work :: "'k worker_pc \<Rightarrow> nat" where
  "pc_work AtTop = 1" | "pc_work Woken = 1" | "pc_work (Running _) = 2" | "pc_work _ = 0"

definition pool_work :: "'k pool_cfg \<Rightarrow> nat" where
  "pool_work c = 3 * length (m_task_container (tpool c)) + (\<Sum>t | workers c t \<noteq> NoThread. pc_work (workers c t))"

lemma pool_work_on:
  assumes "finite S" "{t. workers c t \<noteq> NoThread} \<subseteq> S"
  shows "pool_work c = 3 * length (m_task_container (tpool c)) + (\<Sum>t \<in> S. pc_work (workers c t))"
  using sum.mono_neutral_left [OF assms, of "\<lambda>t. pc_work (workers c t)"] by (simp add: pool_work_def)

lemma sum_upd:
  fixes f :: "nat \<Rightarrow> 'a" and w :: "'a \<Rightarrow> nat"
  assumes "finite S" "t \<in> S"
  shows "(\<Sum>x \<in> S. w ((f(t := v)) x)) + w (f t) = (\<Sum>x \<in> S. w (f x)) + w v"
proof -
  have "(\<Sum>x \<in> S - {t}. w ((f(t := v)) x)) = (\<Sum>x \<in> S - {t}. w (f x))" by (rule sum.cong) auto
  with assms show ?thesis by (simp add: sum.remove [of S t])
qed

lemma work_upd:
  assumes "finite S" "{t. workers c t \<noteq> NoThread} \<subseteq> S" "t \<in> S" "workers c' = (workers c)(t := v)"
  shows "pool_work c' + 3 * length (m_task_container (tpool c)) + pc_work (workers c t) =
    pool_work c + 3 * length (m_task_container (tpool c')) + pc_work v"
proof -
  have "{t. workers c' t \<noteq> NoThread} \<subseteq> S" using assms(2,3,4) by auto
  with sum_upd [OF assms(1,3), of pc_work "workers c" v] show ?thesis
    using pool_work_on [OF assms(1,2)] pool_work_on [OF assms(1), of c'] assms(4) by simp
qed

lemma worker_step_work:
  assumes "worker_step c c'" "finite {t. workers c t \<noteq> NoThread}"
  shows "pool_work c' < pool_work c"
  using assms
proof (induction rule: worker_step.induct)
  case (look c t r p)
  have "3 * length (m_task_container p) + pc_work (after_look r) < 3 * length (m_task_container (tpool c)) + 1"
    using look(2) by (auto simp: execute_task_def split: if_splits list.splits)
  moreover have "pc_work (workers c t) = 1" "t \<in> {t. workers c t \<noteq> NoThread}" using look(1) by auto
  ultimately show ?case
    using work_upd [OF look(3) subset_refl, of t "c\<lparr>tpool := p, workers := (workers c)(t := after_look r), started := started c @ taken r\<rparr>" "after_look r"]
    by simp
next
  case (finish c t k)
  then show ?case using work_upd [OF finish(2) subset_refl, of t "c\<lparr>workers := (workers c)(t := AtTop)\<rparr>" AtTop] by simp
next
  case (died c t k created)
  let ?p = "snd (worker_create_and_attach (tpool c) created)"
  let ?d = "c\<lparr>tpool := ?p, workers := (workers c)(t := Ended)\<rparr>"
  have d: "pool_work ?d + 2 = pool_work c" using work_upd [OF died(3) subset_refl, of t ?d Ended] died(1) by simp
  show ?case
  proof (cases created)
    case None
    with d show ?thesis by simp
  next
    case (Some u)
    let ?e = "c\<lparr>tpool := ?p, workers := (workers c)(t := Ended, u := AtTop)\<rparr>"
    have "u \<noteq> t" "workers c u = NoThread" using Some died(1,2) by auto
    moreover have "finite (insert u {t. workers ?d t \<noteq> NoThread})" 
      by (rule finite_subset [of _ "insert u (insert t {t. workers c t \<noteq> NoThread})"]) (use died(3) in auto)
    ultimately have "pool_work ?e = pool_work ?d + 1"
      using work_upd [of "insert u {t. workers ?d t \<noteq> NoThread}" ?d u ?e AtTop] by auto
    with d Some show ?thesis by simp
  qed
qed

lemma worker_run_bounded: "(worker_step ^^ n) c c' \<Longrightarrow> workers_inv c \<Longrightarrow> workers_inv c' \<and> n + pool_work c' \<le> pool_work c"
proof (induction n arbitrary: c')
  case (Suc n)
  then obtain d where d: "(worker_step ^^ n) c d" "worker_step d c'" by auto
  with Suc have inv: "workers_inv d" "n + pool_work d \<le> pool_work c" by auto
  then have "finite {t. workers d t \<noteq> NoThread}" by (simp add: workers_inv_def)
  from worker_step_work [OF d(2) this] worker_step_inv [OF d(2) inv(1)] inv(2) show ?case by simp
qed auto

lemma worker_step_keeps: "worker_step c c' \<Longrightarrow> m_terminateall (tpool c') = m_terminateall (tpool c) \<and> pushed c' = pushed c \<and>
   (m_terminateall (tpool c) \<longrightarrow> started c' = started c)"
  by (induction rule: worker_step.induct) (auto simp: execute_task_def split: if_splits list.splits)

lemma worker_run_keeps: "(worker_step ^^ n) c c' \<Longrightarrow> m_terminateall (tpool c') = m_terminateall (tpool c) \<and> pushed c' = pushed c \<and>
   (m_terminateall (tpool c) \<longrightarrow> started c' = started c)"
proof (induction n arbitrary: c')
  case (Suc n)
  then obtain d where "(worker_step ^^ n) c d" "worker_step d c'" by auto
  with Suc.IH worker_step_keeps show ?case by metis
qed auto

text \<open>No worker can go on: each has ended or is asleep.\<close>

lemma no_worker_step:
  assumes "\<not> (\<exists>c'. worker_step c c')"
  shows "workers c t \<in> {NoThread, Ended, Asleep}"
proof (rule ccontr)
  assume "workers c t \<notin> {NoThread, Ended, Asleep}"
  then consider "workers c t = AtTop \<or> workers c t = Woken" | k where "workers c t = Running k" by (cases "workers c t") auto
  then show False
  proof cases
    case 1
    obtain r p where "execute_task (tpool c) = (r, p)" by (cases "execute_task (tpool c)")
    from worker_step.look [OF 1 this] assms show False by blast
  next
    case 2
    from worker_step.finish [OF this] assms show False by blast
  qed
qed

text \<open>C15: In every interleaving the tasks are taken in the order they were queued, each once; those not taken are still queued, until the pool is ended, which drops them.\<close>

theorem pool_fifo:
  assumes "pool_start c\<^sub>0" "pool_step\<^sup>*\<^sup>* c\<^sub>0 c"
  shows "\<exists>rest. pushed c = started c @ rest \<and> (\<not> m_terminateall (tpool c) \<longrightarrow> rest = m_task_container (tpool c))"
  using pool_reachable_inv [OF assms(2) pool_start_inv [OF assms(1)]] by (auto simp: workers_inv_def split: if_splits)

text \<open>While a worker sleeps, every queued task has a worker that is about to look.\<close>

lemma pool_no_lost_wakeup:
  assumes "pool_start c\<^sub>0" "pool_step\<^sup>*\<^sup>* c\<^sub>0 c" "workers c t = Asleep"
  shows "\<not> m_terminateall (tpool c) \<and>
    length (m_task_container (tpool c)) \<le> card {u. workers c u = AtTop \<or> workers c u = Woken}"
  using pool_reachable_inv [OF assms(2) pool_start_inv [OF assms(1)]] assms(3) by (auto simp: workers_inv_def lookers_def split: if_splits)

text \<open>No wake-up is lost: from every reachable state of a running pool the workers stop after a bounded number of steps, and then every task queued so far was started, unless no worker is left alive.\<close>

theorem pool_drains:
  assumes "pool_start c\<^sub>0" "pool_step\<^sup>*\<^sup>* c\<^sub>0 c" "\<not> m_terminateall (tpool c)" "(worker_step ^^ n) c c'"
  shows "n \<le> pool_work c \<and> ((\<exists>d. worker_step c' d) \<or> (\<forall>t. workers c' t \<in> {NoThread, Ended}) \<or> started c' = pushed c)"
proof -
  have inv: "workers_inv c'" "n \<le> pool_work c"
    using worker_run_bounded [OF assms(4) pool_reachable_inv [OF assms(2) pool_start_inv [OF assms(1)]]] by auto
  have keep: "\<not> m_terminateall (tpool c')" "pushed c' = pushed c" using worker_run_keeps [OF assms(4)] assms(3) by auto
  have "started c' = pushed c" if stuck: "\<not> (\<exists>d. worker_step c' d)" and "workers c' t \<notin> {NoThread, Ended}" for t
  proof -
    have "lookers c' = {}" "workers c' t = Asleep" using no_worker_step [OF stuck] that(2) by (auto simp: lookers_def) (metis worker_pc.distinct)+
    with inv(1) keep show ?thesis by (auto simp: workers_inv_def)
  qed
  with inv(2) show ?thesis by blast
qed

text \<open>C32: Once the pool is told to end, the workers start no further task and every run of them is bounded; when none can go on, all have ended, so that joining them returns.\<close>

theorem pool_shutdown:
  assumes "pool_start c\<^sub>0" "pool_step\<^sup>*\<^sup>* c\<^sub>0 c" "m_terminateall (tpool c)" "(worker_step ^^ n) c c'"
  shows "n \<le> pool_work c \<and> started c' = started c \<and> ((\<exists>d. worker_step c' d) \<or> (\<forall>t. workers c' t \<in> {NoThread, Ended}))"
proof -
  have inv: "workers_inv c'" "n \<le> pool_work c"
    using worker_run_bounded [OF assms(4) pool_reachable_inv [OF assms(2) pool_start_inv [OF assms(1)]]] by auto
  have keep: "m_terminateall (tpool c')" "started c' = started c" using worker_run_keeps [OF assms(4)] assms(3) by auto
  have "workers c' t \<in> {NoThread, Ended}" if "\<not> (\<exists>d. worker_step c' d)" for t
    using no_worker_step [OF that, of t] inv(1) keep(1) by (auto simp: workers_inv_def)
  with inv(2) keep(2) show ?thesis by blast
qed

section \<open>Timers\<close>

text \<open>One second for one timer: the task it fires, if any, and the timer afterwards.\<close>

definition tick :: "'k multitimer \<Rightarrow> 'k option list \<times> 'k multitimer" where
  "tick t = (if \<not> m_inuse t then ([], t)
     else let e = (if m_elapse t > m_delaysec t then m_elapse t else m_elapse t + 1) in
       if e < m_delaysec t then ([], t\<lparr>m_elapse := e\<rparr>)
       else if m_timertask t = None then ([], t\<lparr>m_elapse := e, m_inuse := False\<rparr>)
       else ([m_timertask t], if m_repeat t then t\<lparr>m_elapse := 0\<rparr> else t\<lparr>m_elapse := 0, m_inuse := False\<rparr>))"

lemma timer_visit_tick:
  assumes "i < length (m_timertask_container p)"
  shows "timer_visit p i = Inr (p\<lparr>m_task_container := m_task_container p @ fst (tick (m_timertask_container p ! i)),
    m_timertask_container := (m_timertask_container p)[i := snd (tick (m_timertask_container p ! i))]\<rparr>)"
  using assms
  by (auto simp: timer_visit_def tick_def add_elapse_def isready_def get_timertask_and_reset_def push_task_def Let_def)

lemma timer_loop_ticks:
  assumes "m_timertask_container p = us @ ts"
  shows "timer_loop p [length us..<length us + length ts] = Inr (p\<lparr>m_task_container := m_task_container p @ concat (map (fst \<circ> tick) ts),
    m_timertask_container := us @ map (snd \<circ> tick) ts\<rparr>)"
  using assms
proof (induction ts arbitrary: us p)
  case (Cons t ts)
  let ?p = "p\<lparr>m_task_container := m_task_container p @ fst (tick t), m_timertask_container := us @ snd (tick t) # ts\<rparr>"
  have v: "timer_visit p (length us) = Inr ?p" using Cons.prems by (simp add: timer_visit_tick)
  have "[length us..<length us + length (t # ts)] = length us # [length (us @ [snd (tick t)])..<length (us @ [snd (tick t)]) + length ts]"
    by (simp add: upt_rec)
  with v Cons.IH [of ?p "us @ [snd (tick t)]"] show ?case by simp
qed simp

lemma timer_proc_ticks:
  "timer_proc p = (if m_terminateall p then Inr (False, p)
     else Inr (True, p\<lparr>m_task_container := m_task_container p @ concat (map (fst \<circ> tick) (m_timertask_container p)),
       m_timertask_container := map (snd \<circ> tick) (m_timertask_container p)\<rparr>))"
  using timer_loop_ticks [of p "[]"] by (simp add: timer_proc_def)

text \<open>\<open>n\<close> rounds of the timer thread.\<close>

fun timer_rounds :: "nat \<Rightarrow> 'k threadpoolimp \<Rightarrow> 'k threadpoolimp cres" where
  "timer_rounds 0 p = Inr p"
| "timer_rounds (Suc n) p = cbind (timer_rounds n p) (\<lambda>p. cmap snd (timer_proc p))"

text \<open>A timer that was just set fires every \<open>max 1 delaysec\<close> rounds, or once.\<close>

definition timer_fired :: "int \<Rightarrow> bool \<Rightarrow> nat \<Rightarrow> nat" where
  "timer_fired delaysec repeatflag n =
     (if repeatflag then n div nat (max 1 delaysec) else if nat (max 1 delaysec) \<le> n then 1 else 0)"

definition timer_after :: "int \<Rightarrow> bool \<Rightarrow> nat \<Rightarrow> 'k multitimer \<Rightarrow> 'k multitimer" where
  "timer_after delaysec repeatflag n t =
     (if repeatflag then t\<lparr>m_elapse := int (n mod nat (max 1 delaysec))\<rparr>
      else if nat (max 1 delaysec) \<le> n then t\<lparr>m_elapse := 0, m_inuse := False\<rparr> 
      else t\<lparr>m_elapse := int n\<rparr>)"

lemma tick_after:
  assumes t: "m_inuse t" "m_repeat t = r" "m_delaysec t = d" "m_timertask t = Some k"
  shows "tick (timer_after d r n t) =
    (replicate (timer_fired d r (Suc n) - timer_fired d r n) (Some k), timer_after d r (Suc n) t)"
proof -
  obtain P where P: "nat (max 1 d) = Suc P" by (metis Suc_pred max.cobounded1 zero_less_nat_eq less_le_trans zero_less_one)
  then have d: "d \<le> int (Suc P)" "d > int P \<or> P = 0" by linarith+
  show ?thesis
  proof (cases r)
    case True
    show ?thesis
    proof (cases "n mod Suc P = P")
      case eq: True
      then have "Suc n mod Suc P = 0" "Suc n div Suc P = Suc (n div Suc P)" by (simp_all add: mod_Suc div_Suc)
      with t True d show ?thesis unfolding tick_def timer_after_def timer_fired_def P by (simp add: eq)
    next
      case False
      then have m: "Suc n mod Suc P = Suc (n mod Suc P)" "Suc n div Suc P = n div Suc P" by (simp_all add: mod_Suc div_Suc)
      have "n mod Suc P < P" using False mod_less_divisor [of "Suc P" n] by linarith
      with t True d m show ?thesis unfolding tick_def timer_after_def timer_fired_def P by simp
    qed
  next
    case False
    consider "n < P" | "n = P" | "P < n" by linarith
    then show ?thesis using t False d unfolding tick_def timer_after_def timer_fired_def P by cases simp_all
  qed
qed

lemma fired_mono: "timer_fired d r n \<le> timer_fired d r (Suc n)"
  by (auto simp: timer_fired_def intro: div_le_mono)

lemma tick_task: "m_timertask (snd (tick t)) = m_timertask t" "set (fst (tick t)) \<subseteq> {m_timertask t}"
  by (auto simp: tick_def Let_def)

lemma count_list_replicate: "count_list (replicate n x) x = n"
  by (induction n) simp_all

lemma count_concat_one:
  assumes "i < length ts" "\<forall>j < length ts. j \<noteq> i \<longrightarrow> x \<notin> set (f (ts ! j))"
  shows "count_list (concat (map f ts)) x = count_list (f (ts ! i)) x"
proof -
  have "x \<notin> set (concat (map f (take i ts)))" "x \<notin> set (concat (map f (drop (Suc i) ts)))"
    using assms by (force simp: set_conv_nth [of "take i ts"] set_conv_nth [of "drop (Suc i) ts"])+
  then have "count_list (concat (map f (take i ts))) x = 0" "count_list (concat (map f (drop (Suc i) ts))) x = 0" by (auto intro: count_notin)
  then show ?thesis by (subst id_take_nth_drop [OF assms(1)]) (simp add: count_list_append)
qed

text \<open>What holds after \<open>n\<close> rounds of a timer set at place \<open>i\<close>.\<close>

definition timer_at :: "nat \<Rightarrow> nat \<Rightarrow> 'k multitimer \<Rightarrow> 'k \<Rightarrow> nat \<Rightarrow> 'k threadpoolimp \<Rightarrow> bool" where
  "timer_at n i t k before p \<longleftrightarrow> \<not> m_terminateall p \<and> i < length (m_timertask_container p) \<and>
     m_timertask_container p ! i = timer_after (m_delaysec t) (m_repeat t) n t \<and>
     (\<forall>j < length (m_timertask_container p). j \<noteq> i \<longrightarrow> m_timertask (m_timertask_container p ! j) \<noteq> Some k) \<and>
     count_list (m_task_container p) (Some k) = before + timer_fired (m_delaysec t) (m_repeat t) n"

lemma timer_at_round:
  assumes "timer_at n i t k before p" "m_inuse t" "m_timertask t = Some k"
  shows "\<exists>p'. timer_proc p = Inr (True, p') \<and> timer_at (Suc n) i t k before p'"
proof -
  let ?ts = "m_timertask_container p"
  have i: "i < length ?ts" and a: "?ts ! i = timer_after (m_delaysec t) (m_repeat t) n t" using assms(1) by (auto simp: timer_at_def)
  have "\<forall>j < length ?ts. j \<noteq> i \<longrightarrow> Some k \<notin> set ((fst \<circ> tick) (?ts ! j))"
    using assms(1) tick_task(2) by (fastforce simp: timer_at_def)
  from count_concat_one [OF i this] have "count_list (concat (map (fst \<circ> tick) ?ts)) (Some k) =
      timer_fired (m_delaysec t) (m_repeat t) (Suc n) - timer_fired (m_delaysec t) (m_repeat t) n"
    using tick_after [OF assms(2) refl refl assms(3)] by (simp add: a count_list_replicate comp_def)
  with assms(1) fired_mono [of "m_delaysec t" "m_repeat t" n] tick_after [OF assms(2) refl refl assms(3), of n] show ?thesis
    by (auto simp: timer_proc_ticks timer_at_def tick_task count_list_append comp_def)
qed

lemma timer_at_rounds:
  assumes "timer_at 0 i t k before p" "m_inuse t" "m_timertask t = Some k"
  shows "\<exists>p'. timer_rounds n p = Inr p' \<and> timer_at n i t k before p'"
proof (induction n)
  case (Suc n)
  then obtain q where q: "timer_rounds n p = Inr q" "timer_at n i t k before q" by blast
  from timer_at_round [OF q(2) assms(2,3)] obtain p' where "timer_proc q = Inr (True, p')" "timer_at (Suc n) i t k before p'" by blast
  with q(1) show ?case by simp
qed (use assms in simp)

lemma first_free_less: "\<exists>t \<in> set ts. \<not> m_inuse t \<Longrightarrow> first_free ts < length ts"
  by (induction ts) auto

text \<open>C33: A timer set in a running pool fires, when it repeats, once in every \<open>max 1 delaysec\<close> rounds of the timer thread and otherwise once, whatever the other timers do: this many times the task is queued after \<open>n\<close> rounds.\<close>

theorem timer_period:
  assumes "pool_running p" "\<not> m_terminateall p" "\<exists>t \<in> set (m_timertask_container p). \<not> m_inuse t"
    "\<forall>t \<in> set (m_timertask_container p). m_timertask t \<noteq> Some k"
  shows "\<exists>q p'. queue_timer_task p (Some k) delaysec repeatflag = (timer_counter p + 1, q) \<and> timer_rounds n q = Inr p' \<and>
    count_list (m_task_container p') (Some k) = count_list (m_task_container p) (Some k) +
      (if repeatflag then n div nat (max 1 delaysec) else if nat (max 1 delaysec) \<le> n then 1 else 0)"
proof -
  let ?i = "first_free (m_timertask_container p)"
  let ?t = "fst (new_multitimer (timer_counter p) (Some k) delaysec repeatflag)"
  let ?q = "p\<lparr>m_timertask_container := (m_timertask_container p)[?i := ?t], timer_counter := timer_counter p + 1\<rparr>"
  have i: "?i < length (m_timertask_container p)" using assms(3) by (rule first_free_less)
  with assms(1) have q: "queue_timer_task p (Some k) delaysec repeatflag = (timer_counter p + 1, ?q)"
    by (simp add: queue_timer_task_def new_multitimer_def)
  have t: "m_delaysec ?t = delaysec" "m_repeat ?t = repeatflag" "m_inuse ?t" "m_timertask ?t = Some k" "m_elapse ?t = 0"
    by (simp_all add: new_multitimer_def)
  then have z: "timer_after delaysec repeatflag 0 ?t = ?t" "timer_fired delaysec repeatflag 0 = 0" 
    by (simp_all add: timer_after_def timer_fired_def new_multitimer_def)
  have "timer_at 0 ?i ?t k (count_list (m_task_container p) (Some k)) ?q"
    using assms(2,4) i t z by (simp add: timer_at_def)
  from timer_at_rounds [OF this t(3,4), of n] obtain p' where "timer_rounds n ?q = Inr p'" "timer_at n ?i ?t k (count_list (m_task_container p) (Some k)) p'"
    by blast
  with q t show ?thesis by (auto simp: timer_at_def timer_fired_def)
qed

text \<open>The wait ends when \<open>select\<close> timed out or the time it was interrupted after adds up.\<close>

lemma timer_wait_total:
  "timer_wait_loop waitms rs = Some rest \<Longrightarrow> \<exists>us. rs = us @ rest \<and>
     ((\<exists>sec usec. (0, sec, usec) \<in> set us) \<or> waitms \<le> (\<Sum>(n, sec, usec) \<leftarrow> us. sec * 1000 + usec div 1000))"
proof (induction waitms rs rule: timer_wait_loop.induct)
  case (1 waitms)
  then show ?case by (auto split: if_splits)
next
  case (2 waitms n sec usec rs)
  show ?case
  proof (cases "waitms > 0")
    case True
    with 2 obtain us where us: "rs = us @ rest"
      "(\<exists>sec usec. (0, sec, usec) \<in> set us) \<or> timer_wait n sec usec waitms \<le> (\<Sum>(n, sec, usec) \<leftarrow> us. sec * 1000 + usec div 1000)"
      by auto
    show ?thesis
      by (rule exI [of _ "(n, sec, usec) # us"]) (use us in \<open>auto simp: timer_wait_def Let_def split: if_splits\<close>)
  qed (use 2(2) in auto)
qed

section \<open>Starting the pool again\<close>

lemma create_workers_terminated: "m_terminateall p \<Longrightarrow> create_workers p cs = p"
  by (induction p cs rule: create_workers.induct) (auto simp: worker_create_and_attach_def push_thread_def split: option.splits)

lemma terminate_each_keeps [simp]:
  "m_terminateall (terminate_each ns p) = m_terminateall p" "m_pids (terminate_each ns p) = m_pids p"
  by (induction ns p rule: terminate_each.induct) (simp_all add: terminate_thread_def)

text \<open>A pool that was destroyed and is initialised again reports success and accepts tasks, but has no worker: the flag \<open>m_terminateall\<close> is never reset and the old thread ids are still in the table.\<close>

theorem reinit_after_destroy:
  assumes "m_pids p \<noteq> []" "\<And>q. m_terminateall (later q) = m_terminateall q \<and> m_pids (later q) = m_pids q"
    "destroy_thread_pool p later = (joined, killed, q)"
  shows "\<exists>q'. init_thread_pool q thread_num created = (True, q') \<and> m_pids q' = m_pids p \<and>
    queue_work_task q' task 0 None = Inr (True, push_task q' task) \<and> fst (execute_task (push_task q' task)) = Quit"
proof -
  have q: "m_terminateall q" "m_pids q = m_pids p" "\<not> pool_running q"
    using assms(2) assms(3) [symmetric] by (simp_all add: destroy_thread_pool_def Let_def terminateall_def)
  have "push_thread q pid = q" for pid using q(1) by (simp add: push_thread_def)
  then have "init_thread_pool q thread_num created = (True, q\<lparr>pool_running := True\<rparr>)"
    using q assms(1) create_workers_terminated [OF q(1)]
    by (auto simp: init_thread_pool_def Let_def threadempty_def split: option.splits)
  with q show ?thesis by (simp add: queue_work_task_def execute_task_def)
qed

section \<open>Concrete runs\<close>

definition demo_pool :: "nat pool_cfg" where
  "demo_pool = \<lparr>tpool = snd (init_thread_pool (new_threadpoolimp True (\<lambda>_. \<lparr>nw_threadname = [], nw_terminate = False, nw_task_container = []\<rparr>)) 1 (\<lambda>k. Some (Suc k))),
     workers = (\<lambda>t. if t \<in> {t. \<exists>k \<in> {1..nat 1}. Some (Suc k) = Some t} then AtTop else NoThread), pushed = [], started = []\<rparr>"

definition demo_pushed :: "nat pool_cfg" where
  "demo_pushed = demo_pool\<lparr>tpool := push_task (tpool demo_pool) (Some 7), workers := workers demo_pool, pushed := pushed demo_pool @ [Some 7]\<rparr>"

definition demo_ending :: "nat pool_cfg" where
  "demo_ending = demo_pushed\<lparr>tpool := terminateall (tpool demo_pushed), workers := notified_all (workers demo_pushed)\<rparr>"

lemma demo_pool_start: "pool_start demo_pool"
  unfolding demo_pool_def
  by (rule init_thread_pool_start [of True "\<lambda>_. \<lparr>nw_threadname = [], nw_terminate = False, nw_task_container = []\<rparr>"])
    (simp add: init_thread_pool_def new_threadpoolimp_def Let_def push_thread_def threadempty_def worker_create_and_attach_def)

lemma demo_pushed_reachable: "pool_step\<^sup>*\<^sup>* demo_pool demo_pushed"
proof -
  have "notified_one (workers demo_pool) (workers demo_pool)" by (simp add: notified_one_def demo_pool_def)
  from client_step.push [OF this, of "Some 7"] show ?thesis unfolding demo_pushed_def by (blast intro: r_into_rtranclp pool_step_def [THEN iffD2])
qed

lemma demo_ending_reachable: "pool_step\<^sup>*\<^sup>* demo_pool demo_ending"
  using demo_pushed_reachable client_step.shutdown [of demo_pushed]
  by (auto simp: demo_ending_def pool_step_def intro: rtranclp.rtrancl_into_rtrancl)

lemma demo_look: "workers c 2 = AtTop \<Longrightarrow> \<exists>c'. (worker_step ^^ 1) c c'"
  using worker_step.look [of c 2] by (cases "execute_task (tpool c)") auto

lemma demo_running: "\<not> m_terminateall (tpool demo_pushed)" "workers demo_pushed 2 = AtTop"
  by (simp_all add: demo_pushed_def demo_pool_def init_thread_pool_def new_threadpoolimp_def Let_def push_thread_def threadempty_def)

lemma demo_stopping: "m_terminateall (tpool demo_ending)" "workers demo_ending 2 = AtTop"
  using demo_running by (simp_all add: demo_ending_def terminateall_def notified_all_def)

theorem pool_fifo_witness: "\<exists>rest. pushed demo_pushed = started demo_pushed @ rest \<and>
    (\<not> m_terminateall (tpool demo_pushed) \<longrightarrow> rest = m_task_container (tpool demo_pushed))"
  by (rule pool_fifo [OF demo_pool_start demo_pushed_reachable])

theorem pool_drains_witness: "\<exists>c'. 1 \<le> pool_work demo_pushed \<and>
    ((\<exists>d. worker_step c' d) \<or> (\<forall>t. workers c' t \<in> {NoThread, Ended}) \<or> started c' = pushed demo_pushed)"
  using demo_look [OF demo_running(2)] pool_drains [OF demo_pool_start demo_pushed_reachable demo_running(1)] by blast

theorem pool_shutdown_witness: "\<exists>c'. 1 \<le> pool_work demo_ending \<and> started c' = started demo_ending \<and>
    ((\<exists>d. worker_step c' d) \<or> (\<forall>t. workers c' t \<in> {NoThread, Ended}))"
  using demo_look [OF demo_stopping(2)] pool_shutdown [OF demo_pool_start demo_ending_reachable demo_stopping(1)] by blast

theorem timer_period_witness: "\<exists>q p'. queue_timer_task (tpool demo_pool) (Some 7) 3 True = (timer_counter (tpool demo_pool) + 1, q) \<and>
    timer_rounds 7 q = Inr p' \<and> count_list (m_task_container p') (Some 7) = 2"
proof -
  have "pool_running (tpool demo_pool)" "\<not> m_terminateall (tpool demo_pool)"
    by (simp_all add: demo_pool_def init_thread_pool_def new_threadpoolimp_def Let_def push_thread_def threadempty_def worker_create_and_attach_def)
  moreover have "m_timertask_container (tpool demo_pool) = map (\<lambda>i. fst (new_multitimer (int i) None 0 False)) [0..<16]"
    by (simp add: demo_pool_def init_thread_pool_def new_threadpoolimp_def Let_def push_thread_def threadempty_def
      worker_create_and_attach_def THREAD_POOL_MAX_TIMER_def)
  moreover have "\<exists>t \<in> set (map (\<lambda>i. fst (new_multitimer (int i) None 0 False)) [0..<16]). \<not> m_inuse t"
    "\<forall>t \<in> set (map (\<lambda>i. fst (new_multitimer (int i) None 0 False)) [0..<16]). m_timertask t \<noteq> Some (7 :: nat)"
    by (auto simp: new_multitimer_def intro: exI [of _ 0])
  moreover have "m_task_container (tpool demo_pool) = []"
    by (simp add: demo_pool_def init_thread_pool_def new_threadpoolimp_def Let_def push_thread_def threadempty_def worker_create_and_attach_def)
  ultimately show ?thesis using timer_period [of "tpool demo_pool" 7 3 True 7] by (simp add: numeral_2_eq_2)
qed

theorem reinit_after_destroy_witness: "\<exists>q q'. destroy_thread_pool (tpool demo_pool) id = ([1, 2], [], q) \<and>
    init_thread_pool q 4 (\<lambda>k. Some (Suc k)) = (True, q') \<and> fst (execute_task (push_task q' (Some 7))) = Quit"
proof -
  have p: "m_pids (tpool demo_pool) = [1, 2]" "m_named_threads (tpool demo_pool) = []" "m_alone_pids (tpool demo_pool) = []"
    by (simp_all add: demo_pool_def init_thread_pool_def new_threadpoolimp_def Let_def push_thread_def threadempty_def worker_create_and_attach_def)
  then obtain q where q: "destroy_thread_pool (tpool demo_pool) id = ([1, 2], [], q)"
    by (simp add: destroy_thread_pool_def terminateall_def Let_def)
  from reinit_after_destroy [OF _ _ q, of 4 "\<lambda>k. Some (Suc k)" "Some 7"] p q show ?thesis by auto
qed

end
