(* ===== verification/Named_Threads.thy ===== *)
theory Named_Threads
  imports Thread_Pool
begin

text \<open>
  Named threads in any interleaving of the threads with the callers: a task queued under a name runs once and in order,
  in the only thread of that name.
\<close>

section \<open>Named threads in any interleaving\<close>

datatype 'k named_pc = NNone | NTop | NAsleep | NWoken | NRunning "'k option list" | NLeaving | NGone

record 'k named_cfg =
  npool :: "'k threadpoolimp"
  npc :: "nat \<Rightarrow> 'k named_pc"
  queued :: "nat \<Rightarrow> 'k option list"
  executed :: "nat \<Rightarrow> 'k option list"

fun after_named_look :: "'k named_result \<Rightarrow> 'k named_pc" where
  "after_named_look NQuit = NLeaving"
| "after_named_look NWait = NAsleep"
| "after_named_look (NTake ks) = NRunning ks"

fun notified :: "'k named_pc \<Rightarrow> 'k named_pc" where
  "notified NNone = NTop"
| "notified NAsleep = NWoken"
| "notified s = s"

text \<open>The thread of worker \<open>w\<close>: \<open>execute_task\<close> until it returns false, then \<open>remove_self_from_threadpool\<close>.\<close>

inductive named_step :: "nat \<Rightarrow> 'k named_cfg \<Rightarrow> 'k named_cfg \<Rightarrow> bool" for w where
  nlook: "npc c w = NTop \<or> npc c w = NWoken \<Longrightarrow> named_execute_task (named_mem (npool c) w) = (r, m) \<Longrightarrow>
    named_step w c (c\<lparr>npool := (npool c)\<lparr>named_mem := (named_mem (npool c))(w := m)\<rparr>, npc := (npc c)(w := after_named_look r)\<rparr>)"
| nrun: "npc c w = NRunning (k # ks) \<Longrightarrow>
    named_step w c (c\<lparr>npc := (npc c)(w := NRunning ks), executed := (executed c)(w := executed c w @ [k])\<rparr>)"
| nend: "npc c w = NRunning [] \<Longrightarrow> named_step w c (c\<lparr>npc := (npc c)(w := NTop)\<rparr>)"
| nleave: "npc c w = NLeaving \<Longrightarrow> named_step w c (c\<lparr>npool := remove_self_from_threadpool (npool c) w, npc := (npc c)(w := NGone)\<rparr>)"

text \<open>The callers: queueing, which may start the thread, \<open>terminate_named_thread\<close>, anything that leaves the named threads alone.\<close>

inductive named_client :: "'k named_cfg \<Rightarrow> 'k named_cfg \<Rightarrow> bool" where
  npush: "queue_work_task_to_named_thread (npool c) task threadname created = (True, p) \<Longrightarrow>
    map_of (m_named_threads p) threadname = Some (Some w, pid) \<Longrightarrow>
    named_client c (c\<lparr>npool := p, npc := (npc c)(w := notified (npc c w)), queued := (queued c)(w := queued c w @ [task])\<rparr>)"
| nrefused: "queue_work_task_to_named_thread (npool c) task threadname created = (False, p) \<Longrightarrow> named_client c (c\<lparr>npool := p\<rparr>)"
| nterminate: "map_of (m_named_threads (npool c)) threadname = Some (Some w, pid) \<Longrightarrow>
    named_client c (c\<lparr>npool := pool_terminate_named_thread (npool c) threadname, npc := (npc c)(w := notified (npc c w))\<rparr>)"
| nspurious: "npc c w = NAsleep \<Longrightarrow> named_client c (c\<lparr>npc := (npc c)(w := NWoken)\<rparr>)"
| nother: "m_named_threads p = m_named_threads (npool c) \<Longrightarrow> named_mem p = named_mem (npool c) \<Longrightarrow> next_named p = next_named (npool c) \<Longrightarrow>
    named_client c (c\<lparr>npool := p\<rparr>)"

definition named_any :: "'k named_cfg \<Rightarrow> 'k named_cfg \<Rightarrow> bool" where
  "named_any c c' \<longleftrightarrow> (\<exists>w. named_step w c c') \<or> named_client c c'"

definition named_start :: "'k named_cfg \<Rightarrow> bool" where
  "named_start c \<longleftrightarrow> m_named_threads (npool c) = [] \<and> next_named (npool c) = 0 \<and>
     (\<forall>w. npc c w = NNone \<and> queued c w = [] \<and> executed c w = [])"

fun running :: "'k named_pc \<Rightarrow> 'k option list" where
  "running (NRunning ks) = ks"
| "running _ = []"

abbreviation live :: "'k named_pc \<Rightarrow> bool" where "live s \<equiv> s \<noteq> NNone \<and> s \<noteq> NGone"

text \<open>What is true of one worker.\<close>

definition worker_ok :: "'k named_worker \<Rightarrow> 'k named_pc \<Rightarrow> 'k option list \<Rightarrow> 'k option list \<Rightarrow> bool" where
  "worker_ok m s q r \<longleftrightarrow> q = r @ running s @ nw_task_container m \<and>
     (s = NAsleep \<longrightarrow> nw_task_container m = [] \<and> \<not> nw_terminate m) \<and>
     (s = NLeaving \<or> s = NGone \<longrightarrow> nw_terminate m)"

text \<open>The workers, their threads and the names in the pool.\<close>

definition named_ok :: "(byte list \<rightharpoonup> nat option \<times> nat) \<Rightarrow> (nat \<Rightarrow> 'k named_worker) \<Rightarrow> nat \<Rightarrow> (nat \<Rightarrow> 'k named_pc) \<Rightarrow>
    (nat \<Rightarrow> 'k option list) \<Rightarrow> (nat \<Rightarrow> 'k option list) \<Rightarrow> bool" where
  "named_ok names mem next pc q r \<longleftrightarrow>
     (\<forall>w < next. worker_ok (mem w) (pc w) (q w) (r w)) \<and>
     (\<forall>w \<ge> next. pc w = NNone \<and> q w = [] \<and> r w = []) \<and>
     (\<forall>w. live (pc w) \<longrightarrow> (\<exists>pid. names (nw_threadname (mem w)) = Some (Some w, pid))) \<and>
     (\<forall>n x. names n = Some x \<longrightarrow> (\<exists>w pid. x = (Some w, pid) \<and> live (pc w) \<and> nw_threadname (mem w) = n))"

definition named_inv :: "'k named_cfg \<Rightarrow> bool" where
  "named_inv c \<longleftrightarrow> map_sorted (m_named_threads (npool c)) \<and>
     named_ok (map_of (m_named_threads (npool c))) (named_mem (npool c)) (next_named (npool c)) (npc c) (queued c) (executed c)"

lemma named_start_inv: "named_start c \<Longrightarrow> named_inv c"
  by (simp add: named_start_def named_inv_def named_ok_def)

lemma ok_below: "named_ok names mem next pc q r \<Longrightarrow> pc w \<noteq> NNone \<Longrightarrow> w < next"
  by (meson named_ok_def not_le)

lemma ok_worker: "named_ok names mem next pc q r \<Longrightarrow> pc w \<noteq> NNone \<Longrightarrow> worker_ok (mem w) (pc w) (q w) (r w)"
  by (frule (1) ok_below) (simp add: named_ok_def)

lemma ok_name: "named_ok names mem next pc q r \<Longrightarrow> live (pc w) \<Longrightarrow> \<exists>pid. names (nw_threadname (mem w)) = Some (Some w, pid)"
  by (simp add: named_ok_def)

lemma ok_named: "named_ok names mem next pc q r \<Longrightarrow> names n = Some (Some w, pid) \<Longrightarrow> live (pc w) \<and> nw_threadname (mem w) = n"
  by (fastforce simp: named_ok_def)

lemma ok_some: "named_ok names mem next pc q r \<Longrightarrow> names n = Some x \<Longrightarrow> \<exists>w pid. x = (Some w, pid)"
  unfolding named_ok_def by blast

lemma ok_upd:
  assumes "named_ok names mem next pc q r" "live (pc w)" "live s" "worker_ok m s q' r'" "nw_threadname m = nw_threadname (mem w)"
  shows "named_ok names (mem(w := m)) next (pc(w := s)) (q(w := q')) (r(w := r'))"
proof -
  have w: "w < next" using ok_below assms(1,2) by blast
  show ?thesis unfolding named_ok_def
  proof (intro conjI allI impI)
    fix n x
    assume "names n = Some x"
    with assms(1) obtain v pid where "x = (Some v, pid)" "live (pc v)" "nw_threadname (mem v) = n" unfolding named_ok_def by blast
    with assms(3,5) show "\<exists>w' pid. x = (Some w', pid) \<and> live ((pc(w := s)) w') \<and> nw_threadname ((mem(w := m)) w') = n"
      by (intro exI [of _ v] exI [of _ pid]) auto
  qed (use assms w in \<open>auto simp: named_ok_def\<close>)
qed

lemma ok_leave:
  assumes "named_ok names mem next pc q r" "pc w = NLeaving"
  shows "named_ok (names(nw_threadname (mem w) := None)) (mem(w := (mem w)\<lparr>nw_terminate := True\<rparr>)) next (pc(w := NGone)) q r"
proof -
  have w: "w < next" using ok_below [OF assms(1), of w] assms(2) by simp
  obtain pid where pid: "names (nw_threadname (mem w)) = Some (Some w, pid)" using ok_name [OF assms(1), of w] assms(2) by auto
  have other: "nw_threadname (mem v) \<noteq> nw_threadname (mem w)" if "live (pc v)" "v \<noteq> w" for v
    using ok_name [OF assms(1) that(1)] pid that(2) by auto
  show ?thesis unfolding named_ok_def
  proof (intro conjI allI impI)
    fix v
    assume "v < next"
    then have "worker_ok (mem v) (pc v) (q v) (r v)" using assms(1) by (simp add: named_ok_def)
    then show "worker_ok ((mem(w := (mem w)\<lparr>nw_terminate := True\<rparr>)) v) ((pc(w := NGone)) v) (q v) (r v)"
      using assms(2) by (auto simp: worker_ok_def)
  next
    fix n x
    assume "(names(nw_threadname (mem w) := None)) n = Some x"
    then have "names n = Some x" "n \<noteq> nw_threadname (mem w)" by (auto split: if_splits)
    with assms(1) obtain v pid where "x = (Some v, pid)" "live (pc v)" "nw_threadname (mem v) = n" unfolding named_ok_def by blast
    with \<open>n \<noteq> nw_threadname (mem w)\<close> show "\<exists>v pid. x = (Some v, pid) \<and> live ((pc(w := NGone)) v) \<and>
        nw_threadname ((mem(w := (mem w)\<lparr>nw_terminate := True\<rparr>)) v) = n"
      by (intro exI [of _ v] exI [of _ pid]) auto
  qed (use assms w other in \<open>auto simp: named_ok_def\<close>)
qed

abbreviation "fresh_worker n \<equiv> \<lparr>nw_threadname = n, nw_terminate = False, nw_task_container = []\<rparr>"

lemma ok_alloc:
  assumes "named_ok names mem next pc q r"
  shows "named_ok names (mem(next := fresh_worker n)) (Suc next) pc q r"
proof -
  have n: "pc next = NNone" "q next = []" "r next = []" using assms by (auto simp: named_ok_def)
  show ?thesis unfolding named_ok_def
  proof (intro conjI allI impI)
    fix w
    assume "w < Suc next"
    then show "worker_ok ((mem(next := fresh_worker n)) w) (pc w) (q w) (r w)"
      using assms n by (cases "w = next") (auto simp: named_ok_def worker_ok_def)
  next
    fix m x
    assume "names m = Some x"
    with assms obtain v pid where v: "x = (Some v, pid)" "live (pc v)" "nw_threadname (mem v) = m" unfolding named_ok_def by blast
    then have "v \<noteq> next" using n(1) by auto
    with v show "\<exists>w pid. x = (Some w, pid) \<and> live (pc w) \<and> nw_threadname ((mem(next := fresh_worker n)) w) = m"
      by (intro exI [of _ v] exI [of _ pid]) auto
  qed (use assms n in \<open>auto simp: named_ok_def\<close>)
qed

lemma ok_new:
  assumes "named_ok names mem next pc q r" "names n = None"
  shows "named_ok (names(n \<mapsto> (Some next, pid))) (mem(next := fresh_worker n)) (Suc next) (pc(next := NTop)) q r"
proof -
  have nn: "pc next = NNone" "q next = []" "r next = []" using assms by (auto simp: named_ok_def)
  have other: "nw_threadname (mem v) \<noteq> n" if "live (pc v)" for v using ok_name [OF assms(1) that] assms(2) by auto
  show ?thesis unfolding named_ok_def
  proof (intro conjI allI impI)
    fix w
    assume "w < Suc next"
    then show "worker_ok ((mem(next := fresh_worker n)) w) ((pc(next := NTop)) w) (q w) (r w)"
      using assms nn by (cases "w = next") (auto simp: named_ok_def worker_ok_def)
  next
    fix m x
    assume "(names(n \<mapsto> (Some next, pid))) m = Some x"
    then consider "m = n" "x = (Some next, pid)" | "m \<noteq> n" "names m = Some x" by (auto split: if_splits)
    then show "\<exists>w pid. x = (Some w, pid) \<and> live ((pc(next := NTop)) w) \<and> nw_threadname ((mem(next := fresh_worker n)) w) = m"
    proof cases
      case 2
      with assms(1) obtain v pid where v: "x = (Some v, pid)" "live (pc v)" "nw_threadname (mem v) = m" unfolding named_ok_def by blast
      then have "v \<noteq> next" using nn(1) by auto
      with v show ?thesis by (intro exI [of _ v] exI [of _ pid]) auto
    qed auto
  qed (use assms nn other in \<open>auto simp: named_ok_def\<close>)
qed

lemma look_ok:
  assumes "named_execute_task m = (r, m')" "worker_ok m s q d" "s = NTop \<or> s = NWoken"
  shows "worker_ok m' (after_named_look r) q d" "nw_threadname m' = nw_threadname m" "live (after_named_look r)"
  using assms by (auto simp: named_execute_task_def worker_ok_def split: if_splits)

lemma named_step_inv: "named_step w c c' \<Longrightarrow> named_inv c \<Longrightarrow> named_inv c'"
proof (induction rule: named_step.induct)
  case (nlook c r m)
  let ?mem = "named_mem (npool c)"
  have ok: "named_ok (map_of (m_named_threads (npool c))) ?mem (next_named (npool c)) (npc c) (queued c) (executed c)"
    using nlook(3) by (simp add: named_inv_def)
  have l: "live (npc c w)" using nlook(1) by auto
  then have "worker_ok (?mem w) (npc c w) (queued c w) (executed c w)" using ok_worker [OF ok] by blast
  from look_ok [OF nlook(2) this nlook(1)] ok_upd [OF ok l]
  have "named_ok (map_of (m_named_threads (npool c))) (?mem(w := m)) (next_named (npool c)) ((npc c)(w := after_named_look r))
      ((queued c)(w := queued c w)) ((executed c)(w := executed c w))" by blast
  with nlook(3) show ?case by (simp add: named_inv_def)
next
  case (nrun c k ks)
  let ?mem = "named_mem (npool c)"
  have ok: "named_ok (map_of (m_named_threads (npool c))) ?mem (next_named (npool c)) (npc c) (queued c) (executed c)"
    using nrun(2) by (simp add: named_inv_def)
  have "worker_ok (?mem w) (npc c w) (queued c w) (executed c w)" using ok_worker [OF ok, of w] nrun(1) by simp
  then have "worker_ok (?mem w) (NRunning ks) (queued c w) (executed c w @ [k])" using nrun(1) by (simp add: worker_ok_def)
  from ok_upd [OF ok, of w, OF _ _ this] nrun show ?case by (simp add: named_inv_def)
next
  case (nend c)
  let ?mem = "named_mem (npool c)"
  have ok: "named_ok (map_of (m_named_threads (npool c))) ?mem (next_named (npool c)) (npc c) (queued c) (executed c)"
    using nend(2) by (simp add: named_inv_def)
  have "worker_ok (?mem w) (npc c w) (queued c w) (executed c w)" using ok_worker [OF ok, of w] nend(1) by simp
  then have "worker_ok (?mem w) NTop (queued c w) (executed c w)" using nend(1) by (simp add: worker_ok_def)
  from ok_upd [OF ok, of w, OF _ _ this] nend show ?case by (simp add: named_inv_def)
next
  case (nleave c)
  then show ?case using ok_leave [of "map_of (m_named_threads (npool c))" "named_mem (npool c)"]
    by (simp add: named_inv_def remove_self_from_threadpool_def remove_named_thread_def terminate_thread_def map_of_erase)
qed

lemma ok_notified:
  assumes "named_ok names mem next pc q r" "live (pc w)" "nw_threadname m = nw_threadname (mem w)"
    "nw_task_container m = nw_task_container (mem w) @ ts" "nw_terminate (mem w) \<longrightarrow> nw_terminate m"
  shows "named_ok names (mem(w := m)) next (pc(w := notified (pc w))) (q(w := q w @ ts)) r"
proof -
  have "worker_ok (mem w) (pc w) (q w) (r w)" using ok_worker assms(1,2) by blast
  then have "worker_ok m (notified (pc w)) (q w @ ts) (r w)" using assms(2,4,5) by (cases "pc w") (auto simp: worker_ok_def)
  moreover have "live (notified (pc w))" using assms(2) by (cases "pc w") auto
  ultimately show ?thesis using ok_upd [OF assms(1,2), of _ m "q w @ ts" "r w"] assms(3) by auto
qed

lemma has_worker_iff:
  assumes "named_ok (map_of (m_named_threads p)) mem next pc q r"
  shows "has_worker p n \<longleftrightarrow> map_of (m_named_threads p) n \<noteq> None"
  using ok_some [OF assms, of n] by (auto simp: has_worker_def split: option.splits)

text \<open>What queueing to a named thread does: it queues to the thread of that name, or to a new one.\<close>

lemma queue_named_cases [consumes 3, case_names refused old failed new]:
  assumes "queue_work_task_to_named_thread p task n created = (b, p')" "named_ok (map_of (m_named_threads p)) mem next pc q r"
    "map_sorted (m_named_threads p)"
  obtains (refused) "\<not> b" "p' = p"
  | (old) w pid where "b" "map_of (m_named_threads p) n = Some (Some w, pid)" "p' = queue_task p w task"
  | (failed) "\<not> b" "map_of (m_named_threads p) n = None" "created = None"
     "p' = p\<lparr>named_mem := (named_mem p)(next_named p := fresh_worker n), next_named := Suc (next_named p)\<rparr>"
  | (new) pid where "b" "map_of (m_named_threads p) n = None" "created = Some pid"
     "p' = queue_task (p\<lparr>named_mem := (named_mem p)(next_named p := fresh_worker n), next_named := Suc (next_named p),
        m_named_threads := map_insert n (Some (next_named p), pid) (m_named_threads p)\<rparr>) (next_named p) task"
proof (cases "map_of (m_named_threads p) n")
  case None
  with assms(1,3) show ?thesis using that(1,3,4)
    by (auto simp: queue_work_task_to_named_thread_def push_task_to_named_thread_def has_worker_def named_create_and_attach_def
        add_named_thread_def map_of_insert Let_def split: if_splits option.splits)
next
  case (Some x)
  then obtain w pid where "x = (Some w, pid)" using ok_some [OF assms(2)] by blast
  with Some assms(1) show ?thesis using that(1,2)
    by (auto simp: queue_work_task_to_named_thread_def push_task_to_named_thread_def has_worker_def split: if_splits)
qed

lemma npush_inv:
  assumes inv: "named_inv c" and q: "queue_work_task_to_named_thread (npool c) task n created = (True, p)"
    and w: "map_of (m_named_threads p) n = Some (Some w, pid)"
  shows "named_inv (c\<lparr>npool := p, npc := (npc c)(w := notified (npc c w)), queued := (queued c)(w := queued c w @ [task])\<rparr>)"
proof -
  let ?p = "npool c"
  have sorted: "map_sorted (m_named_threads ?p)" and
    ok: "named_ok (map_of (m_named_threads ?p)) (named_mem ?p) (next_named ?p) (npc c) (queued c) (executed c)"
    using inv by (simp_all add: named_inv_def)
  from q ok sorted show ?thesis
  proof (cases rule: queue_named_cases)
    case (old w' pid')
    then have "w' = w" using w by (simp add: queue_task_def)
    with old ok_named [OF ok] w
    have "named_ok (map_of (m_named_threads ?p)) ((named_mem ?p)(w := (named_mem ?p w)\<lparr>nw_task_container := nw_task_container (named_mem ?p w) @ [task]\<rparr>))
      (next_named ?p) ((npc c)(w := notified (npc c w))) ((queued c)(w := queued c w @ [task])) (executed c)"
      by (intro ok_notified [OF ok]) auto
    with old sorted show ?thesis by (simp add: named_inv_def queue_task_def \<open>w' = w\<close>)
  next
    case (new pid')
    then have w_new: "w = next_named ?p" using w sorted by (simp add: queue_task_def map_of_insert)
    have none: "npc c w = NNone" using ok w_new by (simp add: named_ok_def)
    let ?mem = "(named_mem ?p)(w := fresh_worker n)"
    have "named_ok ((map_of (m_named_threads ?p))(n \<mapsto> (Some w, pid'))) ?mem (Suc w) ((npc c)(w := NTop)) (queued c) (executed c)"
      using ok_new [OF ok new(2)] w_new by simp
    from ok_notified [OF this, of w "(fresh_worker n)\<lparr>nw_task_container := [task]\<rparr>" "[task]"]
    have "named_ok ((map_of (m_named_threads ?p))(n \<mapsto> (Some w, pid'))) ((named_mem ?p)(w := (fresh_worker n)\<lparr>nw_task_container := [task]\<rparr>)) (Suc w)
      ((npc c)(w := NTop)) ((queued c)(w := queued c w @ [task])) (executed c)" by simp
    with new(4) sorted none show ?thesis by (simp add: named_inv_def queue_task_def w_new [symmetric] map_of_insert)
  qed auto
qed

lemma named_client_inv: "named_client c c' \<Longrightarrow> named_inv c \<Longrightarrow> named_inv c'"
proof (induction rule: named_client.induct)
  case (npush c task n created p w pid)
  then show ?case by (blast intro: npush_inv)
next
  case (nrefused c task n created p)
  have ok: "named_ok (map_of (m_named_threads (npool c))) (named_mem (npool c)) (next_named (npool c)) (npc c) (queued c) (executed c)"
    and sorted: "map_sorted (m_named_threads (npool c))" using nrefused(2) by (simp_all add: named_inv_def)
  from nrefused(1) ok sorted show ?case
    by (cases rule: queue_named_cases) (use nrefused(2) ok_alloc [OF ok] in \<open>auto simp: named_inv_def\<close>)
next
  case (nterminate c n w pid)
  have ok: "named_ok (map_of (m_named_threads (npool c))) (named_mem (npool c)) (next_named (npool c)) (npc c) (queued c) (executed c)"
    using nterminate(2) by (simp add: named_inv_def)
  from ok_notified [OF ok, of w "(named_mem (npool c) w)\<lparr>nw_terminate := True\<rparr>" "[]"] ok_named [OF ok nterminate(1)] nterminate
  show ?case by (simp add: named_inv_def pool_terminate_named_thread_def terminate_thread_def)
next
  case (nspurious c w)
  have ok: "named_ok (map_of (m_named_threads (npool c))) (named_mem (npool c)) (next_named (npool c)) (npc c) (queued c) (executed c)"
    using nspurious(2) by (simp add: named_inv_def)
  from ok_notified [OF ok, of w "named_mem (npool c) w" "[]"] nspurious show ?case by (simp add: named_inv_def)
next
  case (nother p c)
  then show ?case by (simp add: named_inv_def)
qed

lemma named_reachable_inv: "named_any\<^sup>*\<^sup>* c c' \<Longrightarrow> named_inv c \<Longrightarrow> named_inv c'"
  by (induction rule: rtranclp_induct) (auto simp: named_any_def intro: named_step_inv named_client_inv)

text \<open>C14: In every interleaving the tasks queued to a named thread are those it has executed, those it is about to execute and those still queued, in the order they were queued.\<close>

theorem named_fifo:
  assumes "named_start c\<^sub>0" "named_any\<^sup>*\<^sup>* c\<^sub>0 c" "w < next_named (npool c)"
  shows "queued c w = executed c w @ running (npc c w) @ nw_task_container (named_mem (npool c) w)"
  using named_reachable_inv [OF assms(2) named_start_inv [OF assms(1)]] assms(3) by (simp add: named_inv_def named_ok_def worker_ok_def)

text \<open>No two threads of one name are alive.\<close>

lemma named_one_thread:
  assumes "named_start c\<^sub>0" "named_any\<^sup>*\<^sup>* c\<^sub>0 c" "live (npc c v)" "live (npc c w)"
    "nw_threadname (named_mem (npool c) v) = nw_threadname (named_mem (npool c) w)"
  shows "v = w"
proof -
  have "named_ok (map_of (m_named_threads (npool c))) (named_mem (npool c)) (next_named (npool c)) (npc c) (queued c) (executed c)"
    using named_reachable_inv [OF assms(2) named_start_inv [OF assms(1)]] by (simp add: named_inv_def)
  from ok_name [OF this assms(3)] ok_name [OF this assms(4)] show ?thesis unfolding assms(5) by (elim exE) simp
qed

text \<open>How much the thread of a worker still does by itself.\<close>

fun npc_work :: "'k named_pc \<Rightarrow> nat" where
  "npc_work (NRunning ks) = length ks + 3"
| "npc_work NTop = 2" | "npc_work NWoken = 2" | "npc_work NLeaving = 1" | "npc_work _ = 0"

definition named_work :: "nat \<Rightarrow> 'k named_cfg \<Rightarrow> nat" where
  "named_work w c = 3 * length (nw_task_container (named_mem (npool c) w)) + npc_work (npc c w)"

lemma named_step_work: "named_step w c c' \<Longrightarrow> named_work w c' < named_work w c"
proof (induction rule: named_step.induct)
  case (nlook c r m)
  then show ?case
    by (cases "nw_task_container (named_mem (npool c) w)") (auto simp: named_work_def named_execute_task_def split: if_splits)
qed (auto simp: named_work_def remove_self_from_threadpool_def remove_named_thread_def terminate_thread_def)

lemma named_step_keeps: "named_step w c c' \<Longrightarrow> queued c' w = queued c w \<and>
  (npc c w \<noteq> NLeaving \<longrightarrow> nw_terminate (named_mem (npool c') w) = nw_terminate (named_mem (npool c) w))"
  by (induction rule: named_step.induct) (auto simp: named_execute_task_def split: if_splits)

lemma named_run:
  assumes "(named_step w ^^ n) c c'" "named_inv c" "live (npc c w)" "\<not> nw_terminate (named_mem (npool c) w)"
  shows "named_inv c' \<and> n + named_work w c' \<le> named_work w c \<and> queued c' w = queued c w \<and>
    live (npc c' w) \<and> \<not> nw_terminate (named_mem (npool c') w)"
  using assms(1)
proof (induction n arbitrary: c')
  case 0
  then show ?case using assms by auto
next
  case (Suc n)
  then obtain d where d: "(named_step w ^^ n) c d" "named_step w d c'" by auto
  note IH = Suc.IH [OF d(1)]
  have inv: "named_inv c'" using named_step_inv [OF d(2)] IH by blast
  have "worker_ok (named_mem (npool d) w) (npc d w) (queued d w) (executed d w)" using IH ok_worker unfolding named_inv_def by blast
  then have "npc d w \<noteq> NLeaving" using IH by (auto simp: worker_ok_def)
  then have t: "\<not> nw_terminate (named_mem (npool c') w)" "queued c' w = queued d w" using named_step_keeps [OF d(2)] IH by auto
  moreover have "npc c' w \<noteq> NNone" using d(2) by (cases rule: named_step.cases) (auto simp: named_execute_task_def split: if_splits)
  moreover have "npc c' w \<noteq> NGone" using ok_worker [of _ _ _ "npc c'" _ _ w] inv t(1) by (auto simp: named_inv_def worker_ok_def)
  ultimately show ?case using inv IH named_step_work [OF d(2)] by auto
qed

text \<open>From every reachable state a named thread that was not told to end stops by itself after a bounded number of steps, and then every task queued to it was executed.\<close>

theorem named_drains:
  assumes "named_start c\<^sub>0" "named_any\<^sup>*\<^sup>* c\<^sub>0 c" "live (npc c w)" "\<not> nw_terminate (named_mem (npool c) w)" "(named_step w ^^ n) c c'"
  shows "n \<le> named_work w c \<and> ((\<exists>d. named_step w c' d) \<or> executed c' w = queued c w)"
proof -
  note run = named_run [OF assms(5) named_reachable_inv [OF assms(2) named_start_inv [OF assms(1)]] assms(3,4)]
  have ok: "worker_ok (named_mem (npool c') w) (npc c' w) (queued c' w) (executed c' w)" using run ok_worker unfolding named_inv_def by blast
  have "executed c' w = queued c w" if "\<not> (\<exists>d. named_step w c' d)"
  proof -
    obtain r m where rm: "named_execute_task (named_mem (npool c') w) = (r, m)" by (cases "named_execute_task (named_mem (npool c') w)")
    have "npc c' w \<noteq> NTop" "npc c' w \<noteq> NWoken" using named_step.nlook [OF _ rm] that by blast+
    moreover have "npc c' w \<noteq> NRunning ks" for ks using named_step.nrun [of c' w] named_step.nend [of c' w] that by (cases ks) blast+
    moreover have "npc c' w \<noteq> NLeaving" using named_step.nleave that by blast
    ultimately have "npc c' w = NAsleep" using run by (cases "npc c' w") auto
    with ok run show ?thesis by (simp add: worker_ok_def)
  qed
  with run show ?thesis by auto
qed

text \<open>A task queued to a thread that was told to end is accepted and never runs.\<close>

lemma terminated_thread_accepts:
  assumes "pool_running p" "\<not> m_terminateall p" "map_of (m_named_threads p) n = Some (Some w, pid)"
  shows "\<exists>p'. queue_work_task_to_named_thread (pool_terminate_named_thread p n) task n created = (True, p') \<and>
    nw_task_container (named_mem p' w) = nw_task_container (named_mem p w) @ [task] \<and>
    named_execute_task (named_mem p' w) = (NQuit, named_mem p' w)"
  using assms by (simp add: queue_work_task_to_named_thread_def push_task_to_named_thread_def pool_terminate_named_thread_def
    terminate_thread_def has_worker_def queue_task_def named_execute_task_def)

definition demo_named :: "nat named_cfg" where
  "demo_named = \<lparr>npool = (new_threadpoolimp True (\<lambda>_. fresh_worker []))\<lparr>pool_running := True\<rparr>,
     npc = (\<lambda>_. NNone), queued = (\<lambda>_. []), executed = (\<lambda>_. [])\<rparr>"

definition demo_nqueued :: "nat named_cfg" where
  "demo_nqueued = demo_named\<lparr>npool := snd (queue_work_task_to_named_thread (npool demo_named) (Some 7) [1] (Some 5)),
     npc := (npc demo_named)(0 := NTop), queued := (queued demo_named)(0 := [Some 7])\<rparr>"

lemma demo_named_start: "named_start demo_named"
  by (simp add: named_start_def demo_named_def new_threadpoolimp_def)

lemmas demo_named_defs = demo_named_def new_threadpoolimp_def queue_work_task_to_named_thread_def push_task_to_named_thread_def has_worker_def
  named_create_and_attach_def add_named_thread_def queue_task_def Let_def

lemma demo_nqueued_reachable: "named_any\<^sup>*\<^sup>* demo_named demo_nqueued"
proof -
  have "queue_work_task_to_named_thread (npool demo_named) (Some 7) [1] (Some 5) = (True, npool demo_nqueued)"
    by (simp add: demo_nqueued_def demo_named_defs)
  moreover have "map_of (m_named_threads (npool demo_nqueued)) [1] = Some (Some 0, 5)"
    by (simp add: demo_nqueued_def demo_named_defs)
  ultimately have "named_any demo_named demo_nqueued"
    using named_client.npush [of demo_named "Some 7" "[1]" "Some 5" "npool demo_nqueued" 0 5]
    by (simp add: named_any_def demo_nqueued_def demo_named_def)
  then show ?thesis by blast
qed

theorem named_drains_witness:
  "1 \<le> named_work 0 demo_nqueued \<and> (\<exists>c'. (\<exists>d. named_step 0 c' d) \<or> executed c' 0 = queued demo_nqueued 0)"
proof -
  have "npc demo_nqueued 0 = NTop" by (simp add: demo_nqueued_def)
  moreover obtain r m where "named_execute_task (named_mem (npool demo_nqueued) 0) = (r, m)" by (cases "named_execute_task (named_mem (npool demo_nqueued) 0)")
  ultimately obtain c' where "named_step 0 demo_nqueued c'" using named_step.nlook by blast
  then have "(named_step 0 ^^ 1) demo_nqueued c'" by auto
  moreover have "\<not> nw_terminate (named_mem (npool demo_nqueued) 0)" by (simp add: demo_nqueued_def demo_named_defs)
  ultimately have "1 \<le> named_work 0 demo_nqueued \<and> ((\<exists>d. named_step 0 c' d) \<or> executed c' 0 = queued demo_nqueued 0)"
    using named_drains [OF demo_named_start demo_nqueued_reachable, of 0 1 c'] \<open>npc demo_nqueued 0 = NTop\<close> by simp
  then show ?thesis by blast
qed

theorem named_fifo_witness: "queued demo_nqueued 0 = executed demo_nqueued 0 @ running (npc demo_nqueued 0) @ nw_task_container (named_mem (npool demo_nqueued) 0)"
  by (rule named_fifo [OF demo_named_start demo_nqueued_reachable]) (simp add: demo_nqueued_def demo_named_defs)

end
