(* ===== verification/Event_Loop.thy ===== *)
theory Event_Loop
  imports Client_Pool Thread_Pool
begin

text \<open>
  The thread of an event loop, \<^verbatim>\<open>src/Core/EventLoop.cpp\<close>: its start with the write thread beside it, the rounds
  of \<open>Loop\<close> and its end; and the rest of \<^verbatim>\<open>src/Core/EventLoopPool.cpp\<close>.

  A socket operation notes what it asks of the loop in \<open>calls\<close>; \<open>on_sock\<close> runs the operation in the loop thread and then
  these requests, which reach the waiter as the code's calls do. The descriptor they see is the one before the
  operation: \<open>Close\<close> forgets it after its call of \<open>RemoveTcpSock\<close>, and no other operation changes it.
\<close>

section \<open>Socket operations in the loop thread\<close>

definition loop_ctx :: thread_ctx where
  "loop_ctx = \<lparr>in_loop = True, in_write_loop = False\<rparr>"

fun loop_call :: "sock_call \<Rightarrow> nat \<Rightarrow> EventLoop \<times> sock_heap_t \<Rightarrow> (EventLoop \<times> sock_heap_t) cres" where
  "loop_call UpdateTcpSock p (el, heap) = cmap snd (loop_UpdateTcpSock loop_ctx el heap p)"
| "loop_call RemoveTcpSock p (el, heap) = loop_RemoveTcpSock loop_ctx el heap p"
| "loop_call _ p st = Inr st"

fun loop_calls :: "sock_call list \<Rightarrow> nat \<Rightarrow> EventLoop \<times> sock_heap_t \<Rightarrow> (EventLoop \<times> sock_heap_t) cres" where
  "loop_calls [] p st = Inr st"
| "loop_calls (c # cs) p st = cbind (loop_call c p st) (loop_calls cs p)"

definition on_sock ::
  "(TcpSock \<Rightarrow> TcpSock cres) \<Rightarrow> nat \<Rightarrow> EventLoop \<times> sock_heap_t \<Rightarrow> (EventLoop \<times> sock_heap_t) cres" where
  "on_sock f p st =
     (let (el, heap) = st in
      cbind (f (heap p)) (\<lambda>s.
      let asked = drop (length (calls (heap p))) (calls s) in
      cbind (loop_calls asked p (el, heap(p := s\<lparr>m_fd := m_fd (heap p)\<rparr>))) (\<lambda>(el, heap').
        Inr (el, heap'(p := (heap' p)\<lparr>m_fd := m_fd s\<rparr>)))))"

fun on_socks :: "(TcpSock \<Rightarrow> TcpSock cres) \<Rightarrow> nat list \<Rightarrow> EventLoop \<times> sock_heap_t \<Rightarrow> (EventLoop \<times> sock_heap_t) cres" where
  "on_socks f [] st = Inr st"
| "on_socks f (p # ps) st = cbind (on_sock f p st) (on_socks f ps)"

text \<open>\<open>CloseAllClient\<close> with the waiter's \<open>DisAllowAllTcpSend\<close>.\<close>

definition DisAllowAllTcpSend :: "SockWaiter \<Rightarrow> EventLoop \<times> sock_heap_t \<Rightarrow> (EventLoop \<times> sock_heap_t) cres" where
  "DisAllowAllTcpSend w st =
     (if \<not> m_running w then Inr st
      else on_socks (\<lambda>s. Inr (DisAllowSend loop_ctx s)) (map snd (m_waiting_tcpsocks w)) st)"

definition CloseAllClient :: "EventLoop \<times> sock_heap_t \<Rightarrow> (EventLoop \<times> sock_heap_t) cres" where
  "CloseAllClient st =
     (case m_event_waiter (fst st) of None \<Rightarrow> Inr st | Some w \<Rightarrow> DisAllowAllTcpSend w st)"

section \<open>The loop\<close>

text \<open>
  The members the loop's own thread needs, and the tasks of the write thread. \<open>m_cur_looptid\<close> and \<open>m_write_thread_pid\<close> are
  \<open>None\<close> until they are assigned.
\<close>

datatype write_task = WriteLoopStartedNotify | WT_HandleEvent nat

record LoopThread =
  m_loop :: EventLoop
  m_islooprunning :: bool
  m_cur_looptid :: "nat option"
  m_write_thread_name :: "byte list"
  m_write_thread_pid :: "nat option"

definition new_EventLoop :: LoopThread where
  "new_EventLoop = \<lparr>m_loop = \<lparr>m_event_waiter = None, m_terminal = False, m_pendings = []\<rparr>, m_islooprunning = False,
     m_cur_looptid = None, m_write_thread_name = [], m_write_thread_pid = None\<rparr>"

definition SetSockWaiter :: "LoopThread \<Rightarrow> SockWaiter option \<Rightarrow> LoopThread" where
  "SetSockWaiter lt spwaiter =
     (case spwaiter of
        None \<Rightarrow> lt
      | Some w \<Rightarrow> lt\<lparr>m_loop := (m_loop lt)\<lparr>m_event_waiter := Some (w\<lparr>has_evloop := True\<rparr>)\<rparr>\<rparr>)"

text \<open>\<open>lexical_cast<std::string>\<close> of a thread id.\<close>

fun dec_nat :: "nat \<Rightarrow> byte list" where
  "dec_nat n = (if n < 10 then [digit n] else dec_nat (n div 10) @ [digit (n mod 10)])"

text \<open>
  \<open>StartLoop\<close>: \<open>created\<close> is the loop thread's id when \<open>pthread_create\<close> succeeds, \<open>named\<close> the write thread's. The result has the
  thread id for the caller.
\<close>

definition StartLoop ::
  "LoopThread \<Rightarrow> write_task threadpoolimp \<Rightarrow> nat option \<Rightarrow> nat option \<Rightarrow>
     (bool \<times> nat option \<times> LoopThread \<times> write_task threadpoolimp) cres" where
  "StartLoop lt pool created named =
     (if m_islooprunning lt then Inr (True, None, lt, pool)
      else
        let lt = lt\<lparr>m_loop := (m_loop lt)\<lparr>m_terminal := False\<rparr>\<rparr> in
        if m_event_waiter (m_loop lt) = None then Inl AssertFailed
        else case created of
          None \<Rightarrow> Inr (False, None, lt\<lparr>m_loop := (m_loop lt)\<lparr>m_terminal := True\<rparr>\<rparr>, pool)
        | Some tid \<Rightarrow>
            let lt = lt\<lparr>m_cur_looptid := Some tid, m_write_thread_name := dec_nat tid\<rparr>;
                pool = snd (queue_work_task_to_named_thread pool (Some WriteLoopStartedNotify) (m_write_thread_name lt) named) in
            case pool_get_named_thread pool (m_write_thread_name lt) of
              Some pid \<Rightarrow> Inr (True, Some tid, lt\<lparr>m_write_thread_pid := Some pid\<rparr>, pool)
            | None \<Rightarrow> Inr (False, Some tid, lt\<lparr>m_loop := (m_loop lt)\<lparr>m_terminal := True\<rparr>\<rparr>, pool))"

definition QueueTaskToWriteLoop ::
  "LoopThread \<Rightarrow> write_task threadpoolimp \<Rightarrow> write_task \<Rightarrow> nat option \<Rightarrow> bool \<times> write_task threadpoolimp" where
  "QueueTaskToWriteLoop lt pool task named = queue_work_task_to_named_thread pool (Some task) (m_write_thread_name lt) named"

text \<open>The queued tasks (lines 190 to 200).\<close>

fun run_task :: "ev_task \<Rightarrow> EventLoop \<times> sock_heap_t \<Rightarrow> (EventLoop \<times> sock_heap_t) cres" where
  "run_task (Task_UpdateTcpSock p) (el, heap) =
     (case m_event_waiter el of
        None \<Rightarrow> Inr (el, heap)
      | Some w \<Rightarrow> cmap snd (waiter_UpdateTcpSock loop_ctx el w heap p))"
| "run_task (Task_Close p needremove) st = on_sock (\<lambda>s. Inr (Close loop_ctx s needremove)) p st"
| "run_task (Task_AddAndUpdateEvent p ev) st = on_sock (\<lambda>s. Inr (AddAndUpdateEvent s ev)) p st"

fun run_tasks :: "ev_task list \<Rightarrow> EventLoop \<times> sock_heap_t \<Rightarrow> (EventLoop \<times> sock_heap_t) cres" where
  "run_tasks [] st = Inr st"
| "run_tasks (task # tasks) st = cbind (run_task task st) (run_tasks tasks)"

text \<open>What a round gets from outside: the clock, the events, the results of \<open>read\<close> and the pending error of each socket.\<close>

record loop_input =
  now :: int
  reported :: "(int \<times> u32) list option"
  reads :: "nat \<Rightarrow> io_result list"
  sock_err :: "nat \<Rightarrow> int"
  named_thread :: "nat option"

text \<open>The ready sockets (lines 219 to 231); writable ones are handed to the write thread as well.\<close>

fun handle_ready ::
  "loop_input \<Rightarrow> byte list \<Rightarrow> (int \<times> nat) list \<Rightarrow> EventLoop \<times> sock_heap_t \<Rightarrow> write_task threadpoolimp \<Rightarrow>
     ((EventLoop \<times> sock_heap_t) \<times> write_task threadpoolimp) cres" where
  "handle_ready inp wname [] st pool = Inr (st, pool)"
| "handle_ready inp wname ((fd, p) # rs) st pool =
     (let pool = (if hasWrite (m_sockev (snd st p))
                  then snd (queue_work_task_to_named_thread pool (Some (WT_HandleEvent p)) wname (named_thread inp)) else pool) in
      cbind (on_sock (\<lambda>s. HandleEvent loop_ctx s (sock_err inp p) (reads inp p) []) p st) (\<lambda>st.
        handle_ready inp wname rs st pool))"

text \<open>
  At the top of a round and after the tasks: a loop that was told to end leaves when nothing waits, and otherwise
  shuts the connections down. The flag says that the loop is left.
\<close>

definition terminal_check :: "EventLoop \<times> sock_heap_t \<Rightarrow> (bool \<times> EventLoop \<times> sock_heap_t) cres" where
  "terminal_check st =
     (if \<not> m_terminal (fst st) then Inr (False, st)
      else case m_event_waiter (fst st) of
        None \<Rightarrow> Inl NullPointer
      | Some w \<Rightarrow> if Empty w then Inr (True, st) else cmap (Pair False) (CloseAllClient st))"

text \<open>One round (lines 167 to 234); the flag says that the loop goes on.\<close>

definition loop_round ::
  "loop_input \<Rightarrow> byte list \<Rightarrow> EventLoop \<times> sock_heap_t \<Rightarrow> write_task threadpoolimp \<Rightarrow>
     (bool \<times> (EventLoop \<times> sock_heap_t) \<times> write_task threadpoolimp) cres" where
  "loop_round inp wname st pool =
     cbind (terminal_check st) (\<lambda>(leave, st).
     if leave then Inr (False, st, pool)
     else case m_event_waiter (fst st) of
       None \<Rightarrow> Inl NullPointer
     | Some w \<Rightarrow>
         cbind (Epoll_Wait loop_ctx (now inp) w (snd st) (reported inp)) (\<lambda>(retcode, ready, w, heap).
         let el = (fst st)\<lparr>m_event_waiter := Some w\<rparr> in
         if retcode = - 1 then Inr (\<not> m_terminal el, (el, heap), pool)
         else
           cbind (run_tasks (m_pendings el) (el\<lparr>m_pendings := []\<rparr>, heap)) (\<lambda>st.
           cbind (terminal_check st) (\<lambda>(leave, st).
           if leave then Inr (False, st, pool)
           else if retcode = 0 then Inr (\<not> m_terminal (fst st), st, pool)
           else cmap (\<lambda>(st, pool). (True, st, pool)) (handle_ready inp wname ready st pool)))))"

text \<open>The rounds for a list of inputs; the flag says that the loop goes on.\<close>

fun loop_rounds ::
  "loop_input list \<Rightarrow> byte list \<Rightarrow> EventLoop \<times> sock_heap_t \<Rightarrow> write_task threadpoolimp \<Rightarrow>
     (bool \<times> (EventLoop \<times> sock_heap_t) \<times> write_task threadpoolimp) cres" where
  "loop_rounds [] wname st pool = Inr (True, st, pool)"
| "loop_rounds (inp # inps) wname st pool =
     cbind (loop_round inp wname st pool) (\<lambda>(go_on, st, pool).
       if go_on then loop_rounds inps wname st pool else Inr (False, st, pool))"

text \<open>What follows the rounds (lines 235 to 239).\<close>

definition loop_exit :: "LoopThread \<Rightarrow> write_task threadpoolimp \<Rightarrow> (LoopThread \<times> write_task threadpoolimp) cres" where
  "loop_exit lt pool =
     (case m_event_waiter (m_loop lt) of
        None \<Rightarrow> Inl NullPointer
      | Some w \<Rightarrow> cbind (DestroyWaiter loop_ctx w) (\<lambda>w.
          Inr (lt\<lparr>m_loop := (m_loop lt)\<lparr>m_event_waiter := Some w\<rparr>, m_islooprunning := False\<rparr>,
               pool_terminate_named_thread pool (m_write_thread_name lt))))"

section \<open>The pool of loops\<close>

definition GetEventLoop :: "EventLoopPool \<Rightarrow> byte list \<Rightarrow> EventLoop option" where
  "GetEventLoop ep name = map_of (m_eventloop_pool ep) name"

text \<open>\<open>TerminateLoop\<close> of the pool: the loop that is told to end, for the caller to join.\<close>

definition pool_TerminateLoop :: "EventLoopPool \<Rightarrow> byte list \<Rightarrow> EventLoop option \<times> EventLoopPool" where
  "pool_TerminateLoop ep name =
     (case map_of (m_eventloop_pool ep) name of
        None \<Rightarrow> (None, ep)
      | Some el \<Rightarrow> (Some (TerminateLoop el), ep\<lparr>m_eventloop_pool := map_erase name (m_eventloop_pool ep)\<rparr>))"

text \<open>\<open>DestroyEventLoopPool\<close>: the loops that are told to end and joined. The table of inner loops keeps its entries.\<close>

definition DestroyEventLoopPool :: "EventLoopPool \<Rightarrow> EventLoop list \<times> EventLoopPool" where
  "DestroyEventLoopPool ep =
     (map (TerminateLoop \<circ> snd) (m_eventloop_pool ep) @ map (TerminateLoop \<circ> snd) (m_innerloop_pool ep),
      ep\<lparr>m_eventloop_pool := [],
         m_innerloop_pool := map (\<lambda>(n, el). (n, TerminateLoop el)) (m_innerloop_pool ep)\<rparr>)"

end
