(* ===== verification/Event_Loop_Ops.thy ===== *)
theory Event_Loop_Ops
  imports Event_Loop
begin

text \<open>
  What the operations of the loop thread do to a socket, whatever the system calls return: the input buffer stays sound,
  the descriptor and the loop stay, or the socket is closed and its removal is asked for.
\<close>

section \<open>What the operations do to a socket\<close>

text \<open>Same descriptor, loop and input; nothing new is asked of the loop.\<close>

definition sock_same :: "TcpSock \<Rightarrow> TcpSock \<Rightarrow> bool" where
  "sock_same s s' \<longleftrightarrow> m_fd s' = m_fd s \<and> m_evloop s' = m_evloop s \<and> m_isclosing s' = m_isclosing s \<and> m_inbuf s' = m_inbuf s \<and>
     m_caredev s' = m_caredev s"

lemma sock_same_refl [simp]: "sock_same s s" by (simp add: sock_same_def)

lemma sock_same_trans: "sock_same s s' \<Longrightarrow> sock_same s' s'' \<Longrightarrow> sock_same s s''" by (simp add: sock_same_def)

lemma sock_same_closed: "sock_same s s' \<Longrightarrow> IsClosed s' = IsClosed s" by (simp add: sock_same_def IsClosed_def)

lemma UpdateTimeout_same: "UpdateTimeout t n s = Inr s' \<Longrightarrow> sock_same s s'"
  by (auto simp: UpdateTimeout_def RenewTimeout_def log_call_def sock_same_def split: if_splits)

lemma update_timeouts_same:
  "update_timeouts t n ws heap = Inr heap' \<Longrightarrow> sock_same (heap p) (heap' p)"
proof (induction ws arbitrary: heap)
  case (Cons w ws)
  obtain fd q where w: "w = (fd, q)" by (cases w)
  with Cons.prems obtain s where s: "UpdateTimeout t n (heap q) = Inr s" "update_timeouts t n ws (heap(q := s)) = Inr heap'"
    by (auto elim: cbindE)
  from Cons.IH [OF s(2)] UpdateTimeout_same [OF s(1)] show ?case by (cases "p = q") (auto intro: sock_same_trans)
qed simp

lemma event_same:
  "sock_ClearEvent t s = Inr s' \<Longrightarrow> sock_same s s'" "sock_AddEvent t s er = Inr s' \<Longrightarrow> sock_same s s'"
  "RenewTimeout t n s = Inr s' \<Longrightarrow> sock_same s s'"
  "(if b then sock_AddEvent t s er else Inr s) = Inr s' \<Longrightarrow> sock_same s s'"
  by (auto simp: sock_same_def sock_ClearEvent_def sock_AddEvent_def RenewTimeout_def split: if_splits)

lemma ready_event_same:
  assumes "ready_event t n w (fd, e) (heap, allready) = Inr (heap', allready')"
  shows "sock_same (heap p) (heap' p)"
proof (cases "fd = m_notify_pipe0 w")
  case True
  with assms show ?thesis by (simp add: ready_event_def)
next
  case False
  with assms obtain q where q: "map_of (m_waiting_tcpsocks w) fd = Some q" by (auto simp: ready_event_def split: option.splits)
  obtain s1 s2 s3 s4 s5 where s: "sock_ClearEvent t (heap q) = Inr s1"
    "(if e AND EPOLLIN \<noteq> 0 \<or> e AND EPOLLPRI \<noteq> 0 then sock_AddEvent t s1 EV_READ else Inr s1) = Inr s2"
    "(if e AND EPOLLOUT \<noteq> 0 then sock_AddEvent t s2 EV_WRITE else Inr s2) = Inr s3"
    "(if e AND EPOLLERR \<noteq> 0 then sock_AddEvent t s3 EV_EXCEPTION else Inr s3) = Inr s4"
    "RenewTimeout t n s4 = Inr s5" "heap' = heap(q := s5)"
    using assms unfolding ready_event_def Let_def prod.case if_not_P [OF False] q option.case
    by (elim cbindE) (auto elim!: cbindE split: if_split_asm)
  have "sock_same (heap q) s5" using event_same(1) [OF s(1)] event_same(4) [OF s(2)] event_same(4) [OF s(3)] event_same(4) [OF s(4)] event_same(3) [OF s(5)]
    by (blast intro: sock_same_trans)
  then show ?thesis by (simp add: s(6))
qed

lemma ready_events_same:
  "ready_events t n w evs (heap, allready) = Inr (heap', allready') \<Longrightarrow> sock_same (heap p) (heap' p)"
proof (induction evs arbitrary: heap allready)
  case (Cons ev evs)
  moreover obtain fd e where "ev = (fd, e)" by (cases ev)
  ultimately obtain h a where "ready_event t n w (fd, e) (heap, allready) = Inr (h, a)" "ready_events t n w evs (h, a) = Inr (heap', allready')"
    by (auto elim!: cbindE)
  with Cons.IH ready_event_same show ?case by (blast intro: sock_same_trans)
qed simp

text \<open>
  An operation of the loop thread on a socket: it stays open, asking at most for updates of its events, or it is closed and
  its removal is asked for when it was attached.
\<close>

definition sock_ok :: "TcpSock \<Rightarrow> bool" where
  "sock_ok s \<longleftrightarrow> fb_inv (m_inbuf s) \<and> (IsClosed s \<longrightarrow> m_fd s = - 1 \<and> \<not> m_evloop s) \<and>
     (m_evloop s \<longrightarrow> hasAny (m_caredev s))"

definition op_eff :: "sock_call list \<Rightarrow> TcpSock \<Rightarrow> TcpSock \<Rightarrow> bool" where
  "op_eff c s s' \<longleftrightarrow> calls s' = calls s @ c \<and> sock_ok s' \<and>
     (RemoveTcpSock \<in> set c \<longleftrightarrow> IsClosed s' \<and> \<not> IsClosed s \<and> m_evloop s) \<and>
     (IsClosed s \<longrightarrow> IsClosed s') \<and>
     (\<not> IsClosed s' \<longrightarrow> m_fd s' = m_fd s \<and> m_evloop s' = m_evloop s) \<and>
     (UpdateTcpSock \<in> set c \<longrightarrow> \<not> IsClosed s' \<and> m_evloop s \<and> hasAny (m_caredev s'))"

definition op_ok :: "TcpSock \<Rightarrow> TcpSock \<Rightarrow> bool" where
  "op_ok s s' \<longleftrightarrow> (\<exists>c. op_eff c s s')"

text \<open>The part of an operation before its requests.\<close>

definition keeps :: "TcpSock \<Rightarrow> TcpSock \<Rightarrow> bool" where
  "keeps s s' \<longleftrightarrow> (\<exists>c. calls s' = calls s @ c \<and> RemoveTcpSock \<notin> set c \<and> UpdateTcpSock \<notin> set c) \<and> fb_inv (m_inbuf s') \<and>
     m_fd s' = m_fd s \<and> m_evloop s' = m_evloop s \<and> m_isclosing s' = m_isclosing s \<and> m_caredev s' = m_caredev s"

lemma keeps_closed: "keeps s s' \<Longrightarrow> IsClosed s' = IsClosed s"
  by (simp add: keeps_def IsClosed_def)

lemma keeps_ok: "keeps s s' \<Longrightarrow> sock_ok s \<Longrightarrow> sock_ok s'"
  by (frule keeps_closed) (simp add: keeps_def sock_ok_def)

lemma keeps_refl: "fb_inv (m_inbuf s) \<Longrightarrow> keeps s s"
  by (simp add: keeps_def)

lemma keeps_trans:
  assumes "keeps s s'" "keeps s' s''"
  shows "keeps s s''"
proof -
  obtain c where c: "calls s' = calls s @ c" "RemoveTcpSock \<notin> set c" "UpdateTcpSock \<notin> set c" using assms(1) by (auto simp: keeps_def)
  obtain d where d: "calls s'' = calls s' @ d" "RemoveTcpSock \<notin> set d" "UpdateTcpSock \<notin> set d" using assms(2) by (auto simp: keeps_def)
  show ?thesis unfolding keeps_def
    by (intro conjI exI [of _ "c @ d"]) (use c d assms in \<open>simp_all add: keeps_def\<close>)
qed

lemma keeps_op_ok:
  assumes "keeps s s'" "op_ok s' s''"
  shows "op_ok s s''"
proof -
  obtain c where c: "calls s' = calls s @ c" "RemoveTcpSock \<notin> set c" "UpdateTcpSock \<notin> set c" using assms(1) by (auto simp: keeps_def)
  obtain d where d: "op_eff d s' s''" using assms(2) by (auto simp: op_ok_def)
  have "op_eff (c @ d) s s''" using c d assms(1) keeps_closed [OF assms(1)] by (simp add: op_eff_def keeps_def)
  then show ?thesis by (auto simp: op_ok_def)
qed

lemma op_ok_refl: "sock_ok s \<Longrightarrow> op_ok s s"
  unfolding op_ok_def by (rule exI [of _ "[]"]) (simp add: op_eff_def)

lemma keeps_imp_op_ok: "keeps s s' \<Longrightarrow> sock_ok s \<Longrightarrow> op_ok s s'"
  using keeps_op_ok keeps_ok op_ok_refl by blast

lemma Close_open:
  assumes "\<not> IsClosed s"
  shows "IsClosed (Close loop_ctx s True)" "m_fd (Close loop_ctx s True) = - 1" "\<not> m_evloop (Close loop_ctx s True)"
    "m_inbuf (Close loop_ctx s True) = fb_clear (m_inbuf s)"
    "calls (Close loop_ctx s True) = calls s @ (if m_evloop s then [RemoveTcpSock] else [])"
  using assms by (simp_all add: Close_def IsClosed_def Let_def loop_ctx_def log_call_def split: if_splits)

lemma Close_op_ok:
  assumes "sock_ok s"
  shows "op_ok s (Close loop_ctx s True)"
proof (cases "IsClosed s")
  case True
  then show ?thesis using assms closed_inert(2) op_ok_refl by simp
next
  case False
  note c = Close_open [OF False]
  have "op_eff (if m_evloop s then [RemoveTcpSock] else []) s (Close loop_ctx s True)"
    using c False fb_clear_law by (simp add: op_eff_def sock_ok_def)
  then show ?thesis by (auto simp: op_ok_def)
qed

lemma hasAny_add: "hasAny er \<Longrightarrow> hasAny (ev_AddEvent ev er)"
  by (simp add: hasAny_def ev_AddEvent_def EV_NOEVENT_def or_eq_0_iff)

lemma AddAndUpdateEvent_fields:
  "m_fd (AddAndUpdateEvent s ev) = m_fd s" "m_evloop (AddAndUpdateEvent s ev) = m_evloop s" "IsClosed (AddAndUpdateEvent s ev) = IsClosed s"
  "m_inbuf (AddAndUpdateEvent s ev) = m_inbuf s"
  "calls (AddAndUpdateEvent s ev) = calls s @ (if m_evloop s \<and> \<not> hasEvent (m_caredev s) ev then [UpdateTcpSock] else [])"
  "m_caredev (AddAndUpdateEvent s ev) = (if m_evloop s \<and> \<not> hasEvent (m_caredev s) ev then ev_AddEvent (m_caredev s) ev else m_caredev s)"
  by (simp_all add: AddAndUpdateEvent_def IsClosed_def log_call_def)

lemma AddAndUpdateEvent_op_ok:
  assumes "sock_ok s" "hasAny ev"
  shows "op_ok s (AddAndUpdateEvent s ev)"
proof -
  have "op_eff (if m_evloop s \<and> \<not> hasEvent (m_caredev s) ev then [UpdateTcpSock] else []) s (AddAndUpdateEvent s ev)"
    unfolding op_eff_def sock_ok_def AddAndUpdateEvent_fields using assms by (auto simp: sock_ok_def hasAny_add)
  then show ?thesis by (auto simp: op_ok_def)
qed

lemma DisAllowSend_op_ok:
  assumes "sock_ok s"
  shows "op_ok s (DisAllowSend loop_ctx s)"
proof -
  let ?s = "s\<lparr>m_allow_more_send := False\<rparr>"
  have k: "keeps s ?s" using assms by (simp add: keeps_def sock_ok_def)
  then have ok: "sock_ok ?s" using keeps_ok assms by blast
  consider "\<not> m_evloop s" | "m_evloop s" "fb_empty (m_outbuf s)" | "m_evloop s" "\<not> fb_empty (m_outbuf s)" by blast
  then show ?thesis
  proof cases
    case 1
    then have "DisAllowSend loop_ctx s = ?s" by (simp add: DisAllowSend_def)
    with k assms show ?thesis using keeps_imp_op_ok by simp
  next
    case 2
    then have "DisAllowSend loop_ctx s = (if IsClosed ?s then ?s else log_call ?s QueueShutDown)"
      by (simp add: DisAllowSend_def ShutDownWrite_def loop_ctx_def)
    moreover have "keeps ?s (log_call ?s QueueShutDown)" using assms by (simp add: keeps_def sock_ok_def log_call_def)
    then have "op_ok s (log_call ?s QueueShutDown)" "op_ok s ?s" using k assms keeps_imp_op_ok keeps_trans by blast+
    ultimately show ?thesis by simp
  next
    case 3
    then have eq: "DisAllowSend loop_ctx s = AddAndUpdateEvent ?s EV_WRITE" by (simp add: DisAllowSend_def loop_ctx_def)
    have "hasAny EV_WRITE" by (simp add: hasAny_def EV_WRITE_def EV_NOEVENT_def)
    then show ?thesis unfolding eq using keeps_op_ok [OF k AddAndUpdateEvent_op_ok [OF ok]] by blast
  qed
qed

text \<open>Reading, whatever \<open>read\<close> returns: the buffer stays sound, and the socket is left as it was or closed.\<close>

lemma deliver_any:
  assumes "fb_inv (m_inbuf s)"
  shows "\<exists>s'. deliver s = Inr s' \<and> keeps s s'"
proof -
  define d where "d = fb_contents (m_inbuf s)"
  define n where "n = (case onRead (m_sockcb s) of Some f \<Rightarrow> f d | None \<Rightarrow> length d)"
  have data: "fb_data (m_inbuf s) = Inr d" using assms by (simp add: fb_data_inv d_def)
  have "\<exists>b. (if n > 0 then if n > length d then Inr (fb_clear (m_inbuf s)) else fb_pop_front (m_inbuf s) n else Inr (m_inbuf s)) = Inr b \<and> fb_inv b"
    using assms fb_clear_law fb_pop_front_law [OF assms, of n] by (auto simp: d_def)
  then obtain b where b: "(if n > 0 then if n > length d then Inr (fb_clear (m_inbuf s)) else fb_pop_front (m_inbuf s) n else Inr (m_inbuf s)) = Inr b" "fb_inv b"
    by blast
  define s1 where "s1 = (if onRead (m_sockcb s) \<noteq> None then log_call s (CB_onRead d) else s)"
  have s1: "m_inbuf s1 = m_inbuf s" "keeps s (s1\<lparr>m_inbuf := b\<rparr>)" using b(2) by (simp_all add: keeps_def s1_def log_call_def)
  have "deliver s = Inr (s1\<lparr>m_inbuf := b\<rparr>)"
    by (simp only: deliver_def data cbind_Inr Let_def n_def [symmetric] s1_def [symmetric] s1(1) b(1))
  with s1(2) show ?thesis by blast
qed

text \<open>One successful read.\<close>

lemma read_chunk:
  assumes "fb_inv (m_inbuf s)" "got = take (m_tmp_blocksize s) bs" "got \<noteq> []"
  shows "\<exists>s'. keeps s s' \<and> ReadLoop t s (Bytes bs # rs) = ReadLoop t s' rs"
proof -
  obtain b1 where b1: "ensurewritable (m_inbuf s) (m_tmp_blocksize s) = Inr b1" "fb_inv b1"
    "m_writestart b1 + m_tmp_blocksize s \<le> length (m_innerdata b1)"
    using ensurewritable_law [OF assms(1), of "m_tmp_blocksize s"] by blast
  have "m_writestart b1 + length got \<le> length (m_innerdata b1)" using b1(3) assms(2) by simp
  from fb_direct_law [OF b1(2) this] obtain b2 b3 where b2: "fb_write_direct b1 got = Inr b2"
    "push_back_withoutdata b2 (length got) = Inr b3" "fb_inv b3"
    by (auto simp: cbind_eq_Inr)
  define s1 where "s1 = (if length got = m_tmp_blocksize s
      then s\<lparr>m_inbuf := b3, m_tmp_blocksize := m_tmp_blocksize s * 2\<rparr> else s\<lparr>m_inbuf := b3\<rparr>)"
  have k: "keeps s s1" using b2(3) by (simp add: keeps_def s1_def)
  obtain s2 where s2: "deliver s1 = Inr s2" "keeps s1 s2" using deliver_any [of s1] k by (auto simp: keeps_def)
  have "ReadLoop t s (Bytes bs # rs) = cbind (deliver s1) (\<lambda>s. ReadLoop t s rs)"
    using b1(1) b2(1,2) assms(2,3) by (simp add: s1_def Let_def)
  with k s2 keeps_trans show ?thesis by auto
qed

lemma ReadLoop_any:
  assumes "sock_ok s" "\<not> IsClosed s"
  shows "\<exists>ok s' rs'. ReadLoop loop_ctx s rs = Inr (ok, s', rs') \<and> (if ok then keeps s s' else op_ok s s')"
  using assms
proof (induction rs arbitrary: s)
  case Nil
  then show ?case by (intro exI [of _ True] exI [of _ s] exI [of _ "[]"]) (simp add: keeps_refl sock_ok_def)
next
  case (Cons r rs)
  have inv: "fb_inv (m_inbuf s)" using Cons.prems by (simp add: sock_ok_def)
  obtain b where b: "ensurewritable (m_inbuf s) (m_tmp_blocksize s) = Inr b" "fb_inv b"
    using ensurewritable_law [OF inv, of "m_tmp_blocksize s"] by blast
  have kb: "keeps s (s\<lparr>m_inbuf := b\<rparr>)" using b(2) by (simp add: keeps_def)
  have again: ?case if "keeps s s1" "ReadLoop loop_ctx s (r # rs) = ReadLoop loop_ctx s1 rs" for s1
  proof -
    have "sock_ok s1" "\<not> IsClosed s1" using that(1) Cons.prems keeps_ok keeps_closed by blast+
    from Cons.IH [OF this] that show ?thesis using keeps_trans keeps_op_ok by (metis (full_types))
  qed
  have closes: "op_ok s (Close loop_ctx s1 True)" if "keeps s s1" for s1
    using keeps_op_ok [OF that Close_op_ok [OF keeps_ok [OF that Cons.prems(1)]]] .
  have ends: ?case if "take (m_tmp_blocksize s) bs = []" "r = Bytes bs \<or> (\<exists>n. r = Wrote n)" for bs
  proof -
    let ?s = "if onClose (m_sockcb s) then log_call (s\<lparr>m_inbuf := b\<rparr>) CB_onClose else s\<lparr>m_inbuf := b\<rparr>"
    have "keeps s ?s" using b(2) by (simp add: keeps_def log_call_def)
    moreover have "ReadLoop loop_ctx s (r # rs) = Inr (False, Close loop_ctx ?s True, rs)"
      using b(1) that by (auto simp: Let_def split: io_result.splits)
    ultimately show ?thesis using closes by fastforce
  qed
  show ?case
  proof (cases r)
    case (Bytes bs)
    show ?thesis
    proof (cases "take (m_tmp_blocksize s) bs = []")
      case True
      then show ?thesis using ends Bytes by blast
    next
      case False
      then show ?thesis using read_chunk [OF inv refl False, of loop_ctx rs] again Bytes by blast
    qed
  next
    case (Wrote n)
    then show ?thesis using ends [of "[]"] by simp
  next
    case (Fail e)
    let ?s = "if onError (m_sockcb s) then log_call (s\<lparr>m_inbuf := b, m_errno := e\<rparr>) CB_onError else s\<lparr>m_inbuf := b, m_errno := e\<rparr>"
    have k: "keeps s ?s" using b(2) by (simp add: keeps_def log_call_def)
    consider "e = EAGAIN" | "e = EINTR" "e \<noteq> EAGAIN" | "e \<noteq> EAGAIN" "e \<noteq> EINTR" by blast
    then show ?thesis
    proof cases
      case 1
      then show ?thesis using Fail b(1) kb
        by (intro exI [of _ True] exI [of _ "s\<lparr>m_inbuf := b\<rparr>"] exI [of _ rs]) (simp add: Let_def)
    next
      case 2
      then show ?thesis using again [OF kb] Fail b(1) by (simp add: Let_def)
    next
      case 3
      then have "ReadLoop loop_ctx s (r # rs) = Inr (False, Close loop_ctx ?s True, rs)"
        using Fail b(1) by (simp add: Let_def)
      with closes [OF k] show ?thesis by fastforce
    qed
  qed
qed

lemma HandleEvent_op_ok:
  assumes "sock_ok s" "IsClosed s \<or> m_evloop s"
  shows "\<exists>s'. HandleEvent loop_ctx s err rds wrs = Inr s' \<and> op_ok s s'"
proof (cases "IsClosed s")
  case True
  then show ?thesis using assms(1) closed_inert(1) op_ok_refl by simp
next
  case False
  have ctx: "in_loop loop_ctx" "\<not> in_write_loop loop_ctx" by (simp_all add: loop_ctx_def)
  obtain ok s1 rs where r: "(if hasRead (m_sockev s) then ReadLoop loop_ctx s rds else Inr (True, s, rds)) = Inr (ok, s1, rs)"
    "if ok then keeps s s1 else op_ok s s1"
  proof (cases "hasRead (m_sockev s)")
    case True
    with ReadLoop_any [OF assms(1) False, of rds] show ?thesis using that by auto
  next
    case False
    with that [of True s rds] assms(1) keeps_refl show ?thesis by (simp add: sock_ok_def)
  qed
  show ?thesis
  proof (cases ok)
    case False
    with r assms(2) \<open>\<not> IsClosed s\<close> ctx show ?thesis by (auto simp: HandleEvent_def)
  next
    case True
    then have k: "keeps s s1" using r(2) by simp
    let ?s = "if onError (m_sockcb s1) then log_call (s1\<lparr>m_errno := err\<rparr>) CB_onError else s1\<lparr>m_errno := err\<rparr>"
    have "keeps s1 ?s" using k by (simp add: keeps_def log_call_def)
    then have "op_ok s (Close loop_ctx ?s True)"
      using k assms(1) by (blast intro: keeps_op_ok keeps_trans Close_op_ok keeps_ok)
    moreover have "m_evloop s1" using k assms(2) \<open>\<not> IsClosed s\<close> by (simp add: keeps_def)
    moreover have "op_ok s s1" using k assms(1) keeps_imp_op_ok by blast
    ultimately show ?thesis using r(1) True assms(2) \<open>\<not> IsClosed s\<close> ctx by (auto simp: HandleEvent_def Let_def)
  qed
qed

end
