(* ===== verification/Event_Loop_Inv.thy ===== *)
theory Event_Loop_Inv
  imports Event_Loop_Ops
begin

text \<open>
  The invariant of the loop thread: what it waits for, what the kernel watches and the sockets agree. Every operation of a
  socket in the loop thread, with the requests it makes, keeps it and fails no assertion.
\<close>

section \<open>The invariant of the loop thread\<close>

definition removal_pending :: "SockWaiter \<Rightarrow> bool" where
  "removal_pending w \<longleftrightarrow> m_allactive w AND REMOVED \<noteq> 0"

lemma removal_pending_notify [simp]:
  "m_notify_pipe1 w \<noteq> - 1 \<Longrightarrow> removal_pending (NotifyNewActive w REMOVED)"
  "removal_pending w \<Longrightarrow> removal_pending (NotifyNewActive w a)"
proof -
  have or: "x AND REMOVED \<noteq> 0 \<Longrightarrow> (x OR y) AND REMOVED \<noteq> 0" for x y :: u32
    by (metis bit.conj_disj_distrib2 or_eq_0_iff)
  have "(x OR REMOVED) AND REMOVED = REMOVED" for x :: u32 by (rule bit_word_eqI) (auto simp: bit_simps)
  then show "m_notify_pipe1 w \<noteq> - 1 \<Longrightarrow> removal_pending (NotifyNewActive w REMOVED)"
    by (simp add: removal_pending_def NotifyNewActive_def NotifyNewActiveWithoutLock_def REMOVED_def)
  show "removal_pending w \<Longrightarrow> removal_pending (NotifyNewActive w a)"
    using or by (simp add: removal_pending_def NotifyNewActive_def NotifyNewActiveWithoutLock_def)
qed

lemma notify_fields [simp]:
  "m_waiting_tcpsocks (NotifyNewActive w a) = m_waiting_tcpsocks w" "m_running (NotifyNewActive w a) = m_running w"
  "m_epfd (NotifyNewActive w a) = m_epfd w" "m_notify_pipe0 (NotifyNewActive w a) = m_notify_pipe0 w"
  "m_notify_pipe1 (NotifyNewActive w a) = m_notify_pipe1 w" "epoll_set (NotifyNewActive w a) = epoll_set w"
  "has_evloop (NotifyNewActive w a) = has_evloop w"
  by (simp_all add: NotifyNewActive_def NotifyNewActiveWithoutLock_def)

text \<open>The waiter runs, with its pipe and its epoll descriptor.\<close>

definition waiter_up :: "SockWaiter \<Rightarrow> bool" where
  "waiter_up w \<longleftrightarrow> m_running w \<and> 0 \<le> m_epfd w \<and> m_notify_pipe1 w \<noteq> - 1 \<and> has_evloop w"

text \<open>Descriptors: no two sockets share one, and one that is waited for belongs to the socket it is waited for.\<close>

definition fds_ok :: "SockWaiter \<Rightarrow> sock_heap_t \<Rightarrow> bool" where
  "fds_ok w heap \<longleftrightarrow> (\<forall>p. m_fd (heap p) \<noteq> - 1 \<longrightarrow> m_fd (heap p) \<noteq> m_notify_pipe0 w \<and>
     (\<forall>q. m_fd (heap q) = m_fd (heap p) \<longrightarrow> q = p) \<and> (\<forall>q. map_of (m_waiting_tcpsocks w) (m_fd (heap p)) = Some q \<longrightarrow> q = p))"

text \<open>A waiting socket is open and attached, or its removal is pending and the kernel does not watch it any more.\<close>

definition sock_waiting_ok :: "SockWaiter \<Rightarrow> sock_heap_t \<Rightarrow> bool" where
  "sock_waiting_ok w heap \<longleftrightarrow> map_sorted (m_waiting_tcpsocks w) \<and>
     (\<forall>fd p. map_of (m_waiting_tcpsocks w) fd = Some p \<longrightarrow>
        (if IsClosed (heap p) then removal_pending w \<and> epoll_set w fd = None else m_fd (heap p) = fd \<and> m_evloop (heap p))) \<and>
     (\<forall>fd. epoll_set w fd \<noteq> None \<longrightarrow> fd = m_notify_pipe0 w \<or> map_of (m_waiting_tcpsocks w) fd \<noteq> None)"

definition waiter_ok :: "SockWaiter \<Rightarrow> sock_heap_t \<Rightarrow> bool" where
  "waiter_ok w heap \<longleftrightarrow> waiter_up w \<and> sock_waiting_ok w heap \<and> fds_ok w heap \<and> (\<forall>p. sock_ok (heap p))"

lemma open_fd: "\<not> IsClosed s \<Longrightarrow> m_fd s \<noteq> - 1" by (auto simp: IsClosed_def)

lemma waiter_ok_sock:
  assumes "waiter_ok w heap" "sock_ok s" "IsClosed s = IsClosed (heap p)" "m_fd s = m_fd (heap p)" "m_evloop s = m_evloop (heap p)"
  shows "waiter_ok w (heap(p := s))"
proof -
  have same: "IsClosed ((heap(p := s)) q) = IsClosed (heap q)" "m_evloop ((heap(p := s)) q) = m_evloop (heap q)"
    "m_fd ((heap(p := s)) q) = m_fd (heap q)" for q using assms(3-5) by simp_all
  have "sock_waiting_ok w (heap(p := s))" "fds_ok w (heap(p := s))"
    using assms(1) unfolding waiter_ok_def sock_waiting_ok_def fds_ok_def same by blast+
  then show ?thesis using assms(1,2) by (simp add: waiter_ok_def)
qed

text \<open>Updating the events of an open socket.\<close>

lemma update_ok:
  assumes "waiter_ok w heap" "\<not> IsClosed (heap p)" "m_evloop (heap p)" "hasAny (m_caredev (heap p))"
  shows "\<exists>w'. UpdateTcpSockInLoop loop_ctx w heap p = Inr (w', heap) \<and> waiter_ok w' heap"
proof -
  let ?fd = "m_fd (heap p)" and ?ws = "m_waiting_tcpsocks w"
  let ?w = "w\<lparr>epoll_set := (epoll_set w)(?fd := Some (epoll_mask (m_caredev (heap p)))), m_waiting_tcpsocks := map_insert ?fd p ?ws\<rparr>"
  have fd: "?fd \<noteq> - 1" using assms(2) by (rule open_fd)
  have sorted: "map_sorted ?ws" using assms(1) by (simp add: waiter_ok_def sock_waiting_ok_def)
  have q: "q = p" if "map_of ?ws ?fd = Some q" for q using assms(1) fd that by (auto simp: waiter_ok_def fds_ok_def)
  then have "UpdateTcpSockInLoop loop_ctx w heap p = Inr (?w, heap)"
    using assms fd by (auto simp: UpdateTcpSockInLoop_def base_UpdateTcpSockInLoop_def UpdateTcpSockEvent_def waiter_ok_def waiter_up_def
        loop_ctx_def Let_def split: option.splits)
  moreover have "removal_pending ?w = removal_pending w" by (simp add: removal_pending_def)
  then have "sock_waiting_ok ?w heap"
    using assms fd sorted by (auto simp: waiter_ok_def sock_waiting_ok_def map_of_insert)
  moreover have "fds_ok ?w heap"
    using assms(1) fd sorted by (auto simp: waiter_ok_def fds_ok_def map_of_insert)
  ultimately show ?thesis using assms(1) by (auto simp: waiter_ok_def waiter_up_def)
qed

text \<open>The requests of an operation that leaves the socket open.\<close>

lemma loop_calls_open:
  assumes "waiter_ok w heap" "\<not> IsClosed (heap p)" "RemoveTcpSock \<notin> set c"
    "UpdateTcpSock \<in> set c \<longrightarrow> m_evloop (heap p) \<and> hasAny (m_caredev (heap p))" "m_event_waiter el = Some w"
  shows "\<exists>w'. loop_calls c p (el, heap) = Inr (el\<lparr>m_event_waiter := Some w'\<rparr>, heap) \<and> waiter_ok w' heap"
  using assms
proof (induction c arbitrary: el w)
  case Nil
  then show ?case by (intro exI [of _ w]) simp
next
  case (Cons x c)
  show ?case
  proof (cases "x = UpdateTcpSock")
    case True
    then obtain w' where w': "UpdateTcpSockInLoop loop_ctx w heap p = Inr (w', heap)" "waiter_ok w' heap"
      using update_ok [OF Cons.prems(1,2)] Cons.prems(4) by auto
    have "m_running w" using Cons.prems(1) by (simp add: waiter_ok_def waiter_up_def)
    then have "loop_call x p (el, heap) = Inr (el\<lparr>m_event_waiter := Some w'\<rparr>, heap)"
      using True w'(1) Cons.prems(5) by (simp add: loop_UpdateTcpSock_def waiter_UpdateTcpSock_def loop_ctx_def)
    with Cons.IH [OF w'(2) Cons.prems(2), of "el\<lparr>m_event_waiter := Some w'\<rparr>"] Cons.prems(3,4) show ?thesis by simp
  next
    case False
    then have "loop_call x p (el, heap) = Inr (el, heap)" using Cons.prems(3) by (cases x) auto
    with Cons.IH [OF Cons.prems(1,2) _ _ Cons.prems(5)] Cons.prems(3,4) show ?thesis by simp
  qed
qed

text \<open>The requests of an operation that closes the socket; it still has its descriptor.\<close>

definition forget :: "nat \<Rightarrow> sock_heap_t \<Rightarrow> sock_heap_t" where
  "forget p heap = heap(p := (heap p)\<lparr>m_caredev := EV_NOEVENT\<rparr>)"

lemma forget_simps [simp]: "forget p (forget p heap) = forget p heap" "m_fd (forget p heap q) = m_fd (heap q)"
  by (simp_all add: forget_def)

definition released :: "int \<Rightarrow> SockWaiter \<Rightarrow> SockWaiter \<Rightarrow> bool" where
  "released fd w w' \<longleftrightarrow> waiter_up w' \<and> m_notify_pipe0 w' = m_notify_pipe0 w \<and> m_waiting_tcpsocks w' = m_waiting_tcpsocks w \<and>
     removal_pending w' \<and> epoll_set w' = (epoll_set w)(fd := None)"

lemma RemoveTcpSock_released:
  assumes "waiter_up w" "m_fd (heap p) \<noteq> - 1" "m_event_waiter el = Some w"
  shows "\<exists>w'. loop_call RemoveTcpSock p (el, heap) = Inr (el\<lparr>m_event_waiter := Some w'\<rparr>, forget p heap) \<and>
    released (m_fd (heap p)) w w'"
proof -
  let ?w = "w\<lparr>epoll_set := (epoll_set w)(m_fd (heap p) := None)\<rparr>"
  have "waiter_up (NotifyNewActive ?w REMOVED)" using assms(1) by (simp add: waiter_up_def)
  then have "released (m_fd (heap p)) w (NotifyNewActive ?w REMOVED)" using assms(1) by (simp add: released_def waiter_up_def)
  moreover have "loop_call RemoveTcpSock p (el, heap) =
      Inr (el\<lparr>m_event_waiter := Some (NotifyNewActive ?w REMOVED)\<rparr>, forget p heap)"
    using assms by (simp add: loop_RemoveTcpSock_def waiter_RemoveTcpSock_def base_RemoveTcpSock_def UpdateTcpSockEvent_def waiter_up_def
        loop_ctx_def hasAny_def Let_def forget_def)
  ultimately show ?thesis by blast
qed

lemma loop_calls_quiet:
  "RemoveTcpSock \<notin> set c \<Longrightarrow> UpdateTcpSock \<notin> set c \<Longrightarrow> loop_calls c p st = Inr st"
proof (induction c)
  case (Cons x c)
  then have "loop_call x p st = Inr st" by (cases st; cases x) auto
  with Cons show ?case by simp
qed simp

lemma loop_calls_closing:
  assumes "waiter_up w" "m_fd (heap p) \<noteq> - 1" "m_event_waiter el = Some w" "RemoveTcpSock \<in> set c" "UpdateTcpSock \<notin> set c"
  shows "\<exists>w'. loop_calls c p (el, heap) = Inr (el\<lparr>m_event_waiter := Some w'\<rparr>, forget p heap) \<and>
    released (m_fd (heap p)) w w'"
  using assms
proof (induction c arbitrary: el w heap)
  case (Cons x c)
  show ?case
  proof (cases "x = RemoveTcpSock")
    case True
    from RemoveTcpSock_released [of w heap p el, OF Cons.prems(1-3)] obtain w' where
      w': "loop_call x p (el, heap) = Inr (el\<lparr>m_event_waiter := Some w'\<rparr>, forget p heap)"
      "released (m_fd (heap p)) w w'" using True by blast
    show ?thesis
    proof (cases "RemoveTcpSock \<in> set c")
      case False
      have "loop_calls c p st = Inr st" for st using loop_calls_quiet [OF False] Cons.prems(5) by simp
      with w' show ?thesis by (intro exI [of _ w']) simp
    next
      case again: True
      have "waiter_up w'" using w'(2) by (simp add: released_def)
      from Cons.IH [OF this _ _ again, of "forget p heap" "el\<lparr>m_event_waiter := Some w'\<rparr>"] w' Cons.prems(2,5)
      show ?thesis by (auto simp: released_def)
    qed
  next
    case False
    then have "loop_call x p (el, heap) = Inr (el, heap)" using Cons.prems(5) by (cases x) auto
    with Cons.IH [of w heap el, OF Cons.prems(1-3)] Cons.prems(4,5) False show ?thesis by simp
  qed
qed simp

lemma waiter_ok_closing:
  assumes "waiter_ok w heap" "\<not> IsClosed (heap p)" "IsClosed s" "sock_ok s" "released (m_fd (heap p)) w w'"
  shows "waiter_ok w' (heap(p := s))"
proof -
  have ws: "m_waiting_tcpsocks w' = m_waiting_tcpsocks w" "removal_pending w'" "epoll_set w' = (epoll_set w)(m_fd (heap p) := None)"
    "m_notify_pipe0 w' = m_notify_pipe0 w" "waiter_up w'" using assms(5) by (simp_all add: released_def)
  have s: "m_fd s = - 1" using assms(3,4) by (simp add: sock_ok_def)
  have fds: "fds_ok w' (heap(p := s))" using assms(1) s by (auto simp: waiter_ok_def fds_ok_def ws)
  have "sock_waiting_ok w' (heap(p := s))" unfolding sock_waiting_ok_def ws
  proof (intro conjI allI impI)
    show "map_sorted (m_waiting_tcpsocks w)" using assms(1) by (simp add: waiter_ok_def sock_waiting_ok_def)
  next
    fix fd q
    assume q: "map_of (m_waiting_tcpsocks w) fd = Some q"
    then have old: "if IsClosed (heap q) then removal_pending w \<and> epoll_set w fd = None else m_fd (heap q) = fd \<and> m_evloop (heap q)"
      using assms(1) by (simp add: waiter_ok_def sock_waiting_ok_def)
    show "if IsClosed ((heap(p := s)) q) then removal_pending w' \<and> ((epoll_set w)(m_fd (heap p) := None)) fd = None
      else m_fd ((heap(p := s)) q) = fd \<and> m_evloop ((heap(p := s)) q)"
      using old assms(2,3) ws(2) by (cases "q = p") auto
  next
    fix fd
    assume "((epoll_set w)(m_fd (heap p) := None)) fd \<noteq> None"
    then show "fd = m_notify_pipe0 w \<or> map_of (m_waiting_tcpsocks w) fd \<noteq> None"
      using assms(1) by (auto simp: waiter_ok_def sock_waiting_ok_def split: if_splits)
  qed
  with fds ws(5) assms(1,4) show ?thesis by (simp add: waiter_ok_def)
qed

lemma waiter_ok_detached:
  assumes "waiter_ok w heap" "\<not> IsClosed (heap p)" "\<not> m_evloop (heap p)" "IsClosed s" "sock_ok s"
  shows "waiter_ok w (heap(p := s))"
proof -
  have p: "map_of (m_waiting_tcpsocks w) fd \<noteq> Some p" for fd
    using assms(1-3) unfolding waiter_ok_def sock_waiting_ok_def by (metis (full_types))
  have s: "m_fd s = - 1" using assms(4,5) by (simp add: sock_ok_def)
  have "fds_ok w (heap(p := s))" using assms(1) s by (auto simp: waiter_ok_def fds_ok_def)
  moreover have "(heap(p := s)) q = heap q" if "map_of (m_waiting_tcpsocks w) fd = Some q" for fd q using p that by auto
  then have "sock_waiting_ok w (heap(p := s))" using assms(1) unfolding waiter_ok_def sock_waiting_ok_def by simp
  ultimately show ?thesis using assms(1,5) by (simp add: waiter_ok_def)
qed

text \<open>Any such operation runs without a failed assertion and keeps the invariant.\<close>

lemma on_sock_ok:
  assumes "waiter_ok w heap" "m_event_waiter el = Some w" "f (heap p) = Inr s" "op_ok (heap p) s"
  shows "\<exists>w' s'. on_sock f p (el, heap) = Inr (el\<lparr>m_event_waiter := Some w'\<rparr>, heap(p := s')) \<and> waiter_ok w' (heap(p := s')) \<and>
    IsClosed s' = IsClosed s \<and> m_evloop s' = m_evloop s"
proof -
  obtain c where c: "op_eff c (heap p) s" using assms(4) by (auto simp: op_ok_def)
  let ?s = "s\<lparr>m_fd := m_fd (heap p)\<rparr>"
  let ?h = "heap(p := ?s)"
  have on: "on_sock f p (el, heap) = cbind (loop_calls c p (el, ?h)) (\<lambda>(el, h). Inr (el, h(p := (h p)\<lparr>m_fd := m_fd s\<rparr>)))"
    using assms(3) c by (simp add: on_sock_def op_eff_def)
  have same: "heap(p := ?s\<lparr>m_fd := m_fd s\<rparr>) = heap(p := s)" by simp
  have el: "el\<lparr>m_event_waiter := Some w\<rparr> = el" using assms(2) by simp
  consider (kept) "\<not> IsClosed s" | (was) "IsClosed s" "IsClosed (heap p)"
    | (closed) "IsClosed s" "\<not> IsClosed (heap p)" "m_evloop (heap p)" | (detached) "IsClosed s" "\<not> IsClosed (heap p)" "\<not> m_evloop (heap p)"
    by blast
  then show ?thesis
  proof cases
    case kept
    then have o: "\<not> IsClosed (heap p)" "m_fd s = m_fd (heap p)" "m_evloop s = m_evloop (heap p)" "sock_ok s" "RemoveTcpSock \<notin> set c"
      "UpdateTcpSock \<in> set c \<longrightarrow> m_evloop s \<and> hasAny (m_caredev s)" using c by (auto simp: op_eff_def)
    have h: "?h = heap(p := s)" unfolding o(2) [symmetric] by simp
    have "waiter_ok w (heap(p := s))" using waiter_ok_sock [OF assms(1) o(4) _ o(2,3)] kept o(1) by simp
    from loop_calls_open [where p = p, OF this _ o(5) _ assms(2)] kept o(6)
    obtain w' where "loop_calls c p (el, heap(p := s)) = Inr (el\<lparr>m_event_waiter := Some w'\<rparr>, heap(p := s))" "waiter_ok w' (heap(p := s))" by auto
    with on h same show ?thesis by (intro exI [of _ w'] exI [of _ s]) simp
  next
    case was
    then have q: "RemoveTcpSock \<notin> set c" "UpdateTcpSock \<notin> set c" "sock_ok s" using c by (auto simp: op_eff_def)
    have f: "m_fd s = m_fd (heap p)" "m_evloop s = m_evloop (heap p)" using q(3) was assms(1) by (auto simp: sock_ok_def waiter_ok_def)
    have "waiter_ok w (heap(p := s))" using waiter_ok_sock [OF assms(1) q(3) _ f] was by simp
    with on loop_calls_quiet [OF q(1,2)] same el show ?thesis by (intro exI [of _ w] exI [of _ s]) simp
  next
    case closed
    then have q: "RemoveTcpSock \<in> set c" "UpdateTcpSock \<notin> set c" "sock_ok s" using c by (auto simp: op_eff_def)
    have "m_fd (?h p) \<noteq> - 1" "waiter_up w" using open_fd [OF closed(2)] assms(1) by (simp_all add: waiter_ok_def)
    from loop_calls_closing [of w ?h p el c, OF this(2,1) assms(2) q(1,2)] obtain w' where
      w': "loop_calls c p (el, ?h) = Inr (el\<lparr>m_event_waiter := Some w'\<rparr>, forget p ?h)"
      "released (m_fd (heap p)) w w'" by auto
    let ?t = "s\<lparr>m_caredev := EV_NOEVENT\<rparr>"
    have "IsClosed ?t" using closed(1) by (simp add: IsClosed_def)
    then have t: "sock_ok ?t" "IsClosed ?t" using q(3) closed(1) by (simp_all add: sock_ok_def)
    have "on_sock f p (el, heap) = Inr (el\<lparr>m_event_waiter := Some w'\<rparr>, heap(p := ?t))" using on w'(1) by (simp add: forget_def)
    with waiter_ok_closing [OF assms(1) closed(2) t(2,1) w'(2)] t(2) closed(1) show ?thesis
      by (intro exI [of _ w'] exI [of _ ?t]) simp
  next
    case detached
    then have q: "RemoveTcpSock \<notin> set c" "UpdateTcpSock \<notin> set c" "sock_ok s" using c by (auto simp: op_eff_def)
    from waiter_ok_detached [OF assms(1) detached(2,3,1) q(3)] on loop_calls_quiet [OF q(1,2)] same el
    show ?thesis by (intro exI [of _ w] exI [of _ s]) simp
  qed
qed

lemma waiter_ok_cong:
  assumes "waiter_ok w heap" "waiter_up w'" "m_notify_pipe0 w' = m_notify_pipe0 w" "m_waiting_tcpsocks w' = m_waiting_tcpsocks w"
    "removal_pending w \<longrightarrow> removal_pending w'" "epoll_set w' = epoll_set w"
  shows "waiter_ok w' heap"
  using assms unfolding waiter_ok_def sock_waiting_ok_def fds_ok_def by auto

text \<open>The sockets that are open and attached to the loop.\<close>

definition attached :: "sock_heap_t \<Rightarrow> nat set" where
  "attached heap = {p. \<not> IsClosed (heap p) \<and> m_evloop (heap p)}"

text \<open>The queued tasks: a socket that is to be waited for was not closed before, events are not empty.\<close>

fun tasks_ok :: "nat set \<Rightarrow> ev_task list \<Rightarrow> bool" where
  "tasks_ok A [] = True"
| "tasks_ok A (Task_UpdateTcpSock p # ts) = (p \<in> A \<and> tasks_ok A ts)"
| "tasks_ok A (Task_Close p needremove # ts) = (needremove \<and> tasks_ok (A - {p}) ts)"
| "tasks_ok A (Task_AddAndUpdateEvent p ev # ts) = (hasAny ev \<and> tasks_ok A ts)"

lemma tasks_ok_mono: "tasks_ok A ts \<Longrightarrow> A \<subseteq> B \<Longrightarrow> tasks_ok B ts"
proof (induction A ts arbitrary: B rule: tasks_ok.induct)
  case (3 A p n ts)
  then show ?case using Diff_mono [of A B "{p}" "{p}"] by simp
qed auto

text \<open>What the parts of a round keep: the invariant, the queued tasks, the flag, and that sockets are closed or attached.\<close>

definition loop_ok :: "EventLoop \<times> sock_heap_t \<Rightarrow> bool" where
  "loop_ok st \<longleftrightarrow> (\<exists>w. m_event_waiter (fst st) = Some w \<and> waiter_ok w (snd st))"

definition settled :: "sock_heap_t \<Rightarrow> nat set" where
  "settled heap = {p. IsClosed (heap p) \<or> m_evloop (heap p)}"

definition loop_next :: "EventLoop \<times> sock_heap_t \<Rightarrow> EventLoop \<times> sock_heap_t \<Rightarrow> bool" where
  "loop_next st st' \<longleftrightarrow> loop_ok st' \<and> m_pendings (fst st') = m_pendings (fst st) \<and> m_terminal (fst st') = m_terminal (fst st) \<and>
     settled (snd st) \<subseteq> settled (snd st')"

lemma loop_next_refl: "loop_ok st \<Longrightarrow> loop_next st st" by (simp add: loop_next_def)

lemma loop_next_trans: "loop_next st st' \<Longrightarrow> loop_next st' st'' \<Longrightarrow> loop_next st st''" by (auto simp: loop_next_def)

lemma loop_next_ok: "loop_next st st' \<Longrightarrow> loop_ok st'" by (simp add: loop_next_def)

lemma loop_ok_sock: "loop_ok st \<Longrightarrow> sock_ok (snd st p)"
  by (auto simp: loop_ok_def waiter_ok_def)

lemma on_sock_next:
  assumes "loop_ok st" "f (snd st p) = Inr s" "op_ok (snd st p) s"
  shows "\<exists>st'. on_sock f p st = Inr st' \<and> loop_next st st' \<and> (\<forall>q. q \<noteq> p \<longrightarrow> snd st' q = snd st q) \<and>
    IsClosed (snd st' p) = IsClosed s \<and> m_evloop (snd st' p) = m_evloop s"
proof -
  obtain el heap where st: "st = (el, heap)" by (cases st)
  obtain w where w: "m_event_waiter el = Some w" "waiter_ok w heap" using assms(1) by (auto simp: loop_ok_def st)
  from on_sock_ok [of w heap el f p s, OF w(2,1)] assms(2,3) obtain w' s' where
    r: "on_sock f p (el, heap) = Inr (el\<lparr>m_event_waiter := Some w'\<rparr>, heap(p := s'))" "waiter_ok w' (heap(p := s'))"
      "IsClosed s' = IsClosed s" "m_evloop s' = m_evloop s" unfolding st by auto
  have "IsClosed s \<or> m_evloop s" if "IsClosed (heap p) \<or> m_evloop (heap p)" using that assms(3) by (auto simp: op_ok_def op_eff_def st)
  then have "settled heap \<subseteq> settled (heap(p := s'))" using r(3,4) by (auto simp: settled_def)
  with r show ?thesis unfolding st
    by (intro exI [of _ "(el\<lparr>m_event_waiter := Some w'\<rparr>, heap(p := s'))"]) (simp add: loop_ok_def loop_next_def)
qed

lemma run_task_ok:
  assumes "loop_ok st" "tasks_ok (attached (snd st)) (task # tasks)"
  shows "\<exists>st'. run_task task st = Inr st' \<and> loop_next st st' \<and> tasks_ok (attached (snd st')) tasks"
proof (cases task)
  case (Task_UpdateTcpSock p)
  obtain el heap w where st: "st = (el, heap)" "m_event_waiter el = Some w" "waiter_ok w heap" using assms(1) by (cases st) (auto simp: loop_ok_def)
  have p: "\<not> IsClosed (heap p)" "m_evloop (heap p)" "tasks_ok (attached heap) tasks" using assms(2) by (auto simp: Task_UpdateTcpSock st attached_def)
  then have "hasAny (m_caredev (heap p))" using st(3) by (auto simp: waiter_ok_def sock_ok_def)
  from update_ok [OF st(3) p(1,2) this] obtain w' where w': "UpdateTcpSockInLoop loop_ctx w heap p = Inr (w', heap)" "waiter_ok w' heap" by blast
  have "m_running w" "in_loop loop_ctx" using st(3) by (simp_all add: waiter_ok_def waiter_up_def loop_ctx_def)
  with w' st p(3) Task_UpdateTcpSock show ?thesis
    by (intro exI [of _ "(el\<lparr>m_event_waiter := Some w'\<rparr>, heap)"]) (simp add: waiter_UpdateTcpSock_def loop_ok_def loop_next_def)
next
  case (Task_Close p n)
  then have n: n "tasks_ok (attached (snd st) - {p}) tasks" using assms(2) by auto
  have "op_ok (snd st p) (Close loop_ctx (snd st p) n)" using Close_op_ok [OF loop_ok_sock [OF assms(1)]] n(1) by simp
  from on_sock_next [OF assms(1), of "\<lambda>s. Inr (Close loop_ctx s n)" p, OF refl this] obtain st' where
    r: "on_sock (\<lambda>s. Inr (Close loop_ctx s n)) p st = Inr st'" "loop_next st st'" "\<forall>q. q \<noteq> p \<longrightarrow> snd st' q = snd st q"
    by (elim exE conjE) (rule that)
  have "attached (snd st) - {p} \<subseteq> attached (snd st')" using r(3) by (auto simp: attached_def)
  then have "tasks_ok (attached (snd st')) tasks" using n(2) tasks_ok_mono by blast
  with r Task_Close show ?thesis by (intro exI [of _ st']) simp
next
  case (Task_AddAndUpdateEvent p ev)
  then have n: "hasAny ev" "tasks_ok (attached (snd st)) tasks" using assms(2) by auto
  have op: "op_ok (snd st p) (AddAndUpdateEvent (snd st p) ev)" using AddAndUpdateEvent_op_ok [OF loop_ok_sock [OF assms(1)] n(1)] .
  from on_sock_next [OF assms(1), of "\<lambda>s. Inr (AddAndUpdateEvent s ev)" p, OF refl op] obtain st' where
    r: "on_sock (\<lambda>s. Inr (AddAndUpdateEvent s ev)) p st = Inr st'" "loop_next st st'" "\<forall>q. q \<noteq> p \<longrightarrow> snd st' q = snd st q"
    "IsClosed (snd st' p) = IsClosed (snd st p)" "m_evloop (snd st' p) = m_evloop (snd st p)"
    unfolding AddAndUpdateEvent_fields by (elim exE conjE) (rule that)
  have "q \<in> attached (snd st')" if "q \<in> attached (snd st)" for q
    using that r(3-5) by (cases "q = p") (auto simp: attached_def)
  then have "tasks_ok (attached (snd st')) tasks" using n(2) tasks_ok_mono by blast
  with r Task_AddAndUpdateEvent show ?thesis by (intro exI [of _ st']) simp
qed

lemma run_tasks_ok:
  "loop_ok st \<Longrightarrow> tasks_ok (attached (snd st)) tasks \<Longrightarrow> \<exists>st'. run_tasks tasks st = Inr st' \<and> loop_next st st'"
proof (induction tasks arbitrary: st)
  case (Cons task tasks)
  from run_task_ok [OF Cons.prems] obtain st1 where st1: "run_task task st = Inr st1" "loop_next st st1" "tasks_ok (attached (snd st1)) tasks"
    by (elim exE conjE) (rule that)
  from Cons.IH [OF loop_next_ok [OF st1(2)] st1(3)] obtain st2 where "run_tasks tasks st1 = Inr st2" "loop_next st1 st2" by blast
  with st1(1) loop_next_trans [OF st1(2)] show ?case by (intro exI [of _ st2]) simp
qed (simp add: loop_next_refl)

text \<open>Ending the loop shuts the connections down; none of them is closed by it.\<close>

lemma on_socks_ok:
  assumes "\<And>s. sock_ok s \<Longrightarrow> \<exists>s'. f s = Inr s' \<and> op_ok s s' \<and> IsClosed s' = IsClosed s \<and> m_evloop s' = m_evloop s"
  shows "loop_ok st \<Longrightarrow> \<exists>st'. on_socks f ps st = Inr st' \<and> loop_next st st' \<and> attached (snd st') = attached (snd st)"
proof (induction ps arbitrary: st)
  case (Cons p ps)
  obtain s' where s': "f (snd st p) = Inr s'" "op_ok (snd st p) s'" "IsClosed s' = IsClosed (snd st p)" "m_evloop s' = m_evloop (snd st p)"
    using assms [OF loop_ok_sock [OF Cons.prems]] by blast
  from on_sock_next [of st f p s', OF Cons.prems s'(1,2)] obtain st1 where
    st1: "on_sock f p st = Inr st1" "loop_next st st1"
    "\<forall>q. q \<noteq> p \<longrightarrow> snd st1 q = snd st q" "IsClosed (snd st1 p) = IsClosed s'" "m_evloop (snd st1 p) = m_evloop s'"
    by (elim exE conjE) (rule that)
  have "q \<in> attached (snd st1) \<longleftrightarrow> q \<in> attached (snd st)" for q
    using st1(3-5) s'(3,4) by (cases "q = p") (simp_all add: attached_def)
  then have "attached (snd st1) = attached (snd st)" by blast
  with Cons.IH [OF loop_next_ok [OF st1(2)]] st1(1,2) loop_next_trans show ?case by fastforce
qed (simp add: loop_next_refl)

lemma DisAllowSend_fields:
  "IsClosed (DisAllowSend loop_ctx s) = IsClosed s" "m_evloop (DisAllowSend loop_ctx s) = m_evloop s"
  by (simp_all add: DisAllowSend_def ShutDownWrite_def AddAndUpdateEvent_def log_call_def IsClosed_def loop_ctx_def Let_def)

lemma terminal_check_ok:
  assumes "loop_ok st"
  shows "\<exists>leave st'. terminal_check st = Inr (leave, st') \<and> loop_next st st' \<and> attached (snd st') = attached (snd st) \<and>
    (leave \<longrightarrow> m_terminal (fst st))"
proof -
  obtain w where w: "m_event_waiter (fst st) = Some w" "waiter_ok w (snd st)" using assms by (auto simp: loop_ok_def)
  have "sock_ok s \<Longrightarrow> \<exists>s'. (\<lambda>s. Inr (DisAllowSend loop_ctx s)) s = Inr s' \<and> op_ok s s' \<and> IsClosed s' = IsClosed s \<and> m_evloop s' = m_evloop s" for s
    using DisAllowSend_op_ok [of s] DisAllowSend_fields [of s] by blast
  from on_socks_ok [of "\<lambda>s. Inr (DisAllowSend loop_ctx s)" st "map snd (m_waiting_tcpsocks w)", OF this assms] obtain st' where st':
    "on_socks (\<lambda>s. Inr (DisAllowSend loop_ctx s)) (map snd (m_waiting_tcpsocks w)) st = Inr st'" "loop_next st st'"
    "attached (snd st') = attached (snd st)" by blast
  have "CloseAllClient st = Inr st'" using w st'(1) by (simp add: CloseAllClient_def DisAllowAllTcpSend_def waiter_ok_def waiter_up_def)
  with st' loop_next_refl [OF assms] w(1) show ?thesis
    by (cases "m_terminal (fst st)"; cases "Empty w") (auto simp: terminal_check_def)
qed

lemma handle_ready_ok:
  assumes "snd ` set rs \<subseteq> settled (snd st)" "loop_ok st"
  shows "\<exists>st' pool'. handle_ready inp wname rs st pool = Inr (st', pool') \<and> loop_next st st'"
  using assms
proof (induction rs arbitrary: st pool)
  case (Cons r rs)
  obtain fd p where r: "r = (fd, p)" by (cases r)
  have p: "IsClosed (snd st p) \<or> m_evloop (snd st p)" using Cons.prems(1) r by (auto simp: settled_def)
  let ?f = "\<lambda>s. HandleEvent loop_ctx s (sock_err inp p) (reads inp p) []"
  from HandleEvent_op_ok [OF loop_ok_sock [OF Cons.prems(2)] p] obtain s' where
    s': "?f (snd st p) = Inr s'" "op_ok (snd st p) s'" by blast
  from on_sock_next [OF Cons.prems(2), of ?f p, OF s'] obtain st1 where st1: "on_sock ?f p st = Inr st1" "loop_next st st1"
    by (elim exE conjE) (rule that)
  have "snd ` set rs \<subseteq> settled (snd st1)" using Cons.prems(1) st1(2) by (auto simp: loop_next_def)
  define pool1 where "pool1 = (if hasWrite (m_sockev (snd st p))
     then snd (queue_work_task_to_named_thread pool (Some (WT_HandleEvent p)) wname (named_thread inp)) else pool)"
  from Cons.IH [OF \<open>snd ` set rs \<subseteq> settled (snd st1)\<close> loop_next_ok [OF st1(2)], of pool1] obtain st2 pool2 where
    "handle_ready inp wname rs st1 pool1 = Inr (st2, pool2)" "loop_next st1 st2" by blast
  with st1(1) loop_next_trans [OF st1(2)] show ?case
    by (intro exI [of _ st2] exI [of _ pool2]) (simp add: r pool1_def [symmetric] del: if_split)
qed (simp add: loop_next_refl)

end
