(* ===== verification/Event_Loop_Props.thy ===== *)
theory Event_Loop_Props
  imports Event_Loop_Inv
begin

text \<open>
  The loop thread among the threads that use it: in every reachable state a round runs without a failed assertion, whatever
  the kernel reports and the sockets deliver, and a loop that was told to end leaves.
\<close>

section \<open>A round of waiting\<close>

lemma GetAndClearNotify_fields:
  assumes "GetAndClearNotify w = (notifytype, w1)"
  shows "notifytype = m_allactive w" "m_waiting_tcpsocks w1 = m_waiting_tcpsocks w" "m_notify_pipe0 w1 = m_notify_pipe0 w"
    "epoll_set w1 = epoll_set w" "waiter_up w1 = waiter_up w" "m_running w1 = m_running w" "m_epfd w1 = m_epfd w"
  using assms by (auto simp: GetAndClearNotify_def notify_take_def notify_read_def waiter_up_def split: if_splits)

lemma map_of_filter_open:
  assumes "map_sorted ws"
  shows "map_of (filter (\<lambda>(fd, p). \<not> IsClosed (heap p)) ws) fd =
    (case map_of ws fd of Some p \<Rightarrow> if IsClosed (heap p) then None else Some p | None \<Rightarrow> None)"
proof -
  let ?P = "\<lambda>(fd, p). \<not> IsClosed (heap p)"
  have iff: "map_of (filter ?P ws) fd = Some p \<longleftrightarrow> map_of ws fd = Some p \<and> \<not> IsClosed (heap p)" for p
    using map_of_in_set [OF map_sorted_filter [OF assms]] map_of_in_set [OF assms] by auto
  show ?thesis
  proof (cases "map_of ws fd")
    case None
    then have "map_of (filter ?P ws) fd \<noteq> Some p" for p using iff by simp
    with None show ?thesis by (cases "map_of (filter ?P ws) fd") auto
  next
    case (Some p)
    then have "map_of (filter ?P ws) fd = Some q \<longleftrightarrow> q = p \<and> \<not> IsClosed (heap p)" for q using iff by auto
    with Some show ?thesis by (cases "map_of (filter ?P ws) fd") auto
  qed
qed

text \<open>After the flags were taken and the closed sockets dropped.\<close>

lemma clear_ok:
  assumes "waiter_ok w heap" "GetAndClearNotify w = (notifytype, w1)"
  shows "\<exists>w2. (if notifytype AND REMOVED \<noteq> 0 then ClearClosedTcpSock loop_ctx w1 heap else Inr w1) = Inr w2 \<and> waiter_ok w2 heap \<and>
    m_notify_pipe0 w2 = m_notify_pipe0 w \<and> live_in (m_waiting_tcpsocks w2) heap \<and> map_sorted (m_waiting_tcpsocks w2) \<and>
    (\<forall>fd p. map_of (m_waiting_tcpsocks w2) fd = Some p \<longleftrightarrow> map_of (m_waiting_tcpsocks w) fd = Some p \<and> \<not> IsClosed (heap p))"
proof -
  note f = GetAndClearNotify_fields [OF assms(2)]
  let ?ws = "m_waiting_tcpsocks w"
  let ?open = "filter (\<lambda>(fd, p). \<not> IsClosed (heap p)) ?ws"
  have wok: "sock_waiting_ok w heap" "fds_ok w heap" "waiter_up w" "map_sorted ?ws" using assms(1) by (simp_all add: waiter_ok_def sock_waiting_ok_def)
  have w: "if IsClosed (heap p) then removal_pending w \<and> epoll_set w fd = None else m_fd (heap p) = fd \<and> m_evloop (heap p)"
    if "map_of ?ws fd = Some p" for fd p using wok(1) that by (simp add: sock_waiting_ok_def)
  have e: "fd = m_notify_pipe0 w \<or> map_of ?ws fd \<noteq> None" if "epoll_set w fd \<noteq> None" for fd using wok(1) that by (simp add: sock_waiting_ok_def)
  have iff: "map_of ?open fd = Some p \<longleftrightarrow> map_of ?ws fd = Some p \<and> \<not> IsClosed (heap p)" for fd p
    using map_of_filter_open [OF wok(4), of heap fd] by (auto split: option.splits if_splits)
  have open_or: "map_of ?open fd \<noteq> None \<or> fd = m_notify_pipe0 w" if watched: "epoll_set w fd \<noteq> None" for fd
  proof (cases "fd = m_notify_pipe0 w")
    case False
    then obtain p where p: "map_of ?ws fd = Some p" using e [OF watched] by auto
    with w [OF p] watched have "\<not> IsClosed (heap p)" by auto
    with iff p have "map_of ?open fd = Some p" by simp
    then show ?thesis by simp
  qed simp
  obtain w2 where w2: "(if notifytype AND REMOVED \<noteq> 0 then ClearClosedTcpSock loop_ctx w1 heap else Inr w1) = Inr w2"
    "m_waiting_tcpsocks w2 = ?open" "m_notify_pipe0 w2 = m_notify_pipe0 w" "epoll_set w2 = epoll_set w" "waiter_up w2"
  proof (cases "removal_pending w")
    case True
    with that [of "w1\<lparr>m_waiting_tcpsocks := ?open\<rparr>"] f wok(3) show ?thesis
      by (simp add: removal_pending_def ClearClosedTcpSock_def loop_ctx_def waiter_up_def)
  next
    case False
    then have "?open = ?ws" using w map_of_in_set [OF wok(4)] by (fastforce simp: filter_id_conv)
    with that [of w1] f wok(3) False show ?thesis by (simp add: removal_pending_def)
  qed
  have "sock_waiting_ok w2 heap" unfolding sock_waiting_ok_def w2
  proof (intro conjI allI impI)
    show "map_sorted ?open" using wok(4) by (rule map_sorted_filter)
  next
    fix fd p
    assume "map_of ?open fd = Some p"
    with iff w show "if IsClosed (heap p) then removal_pending w2 \<and> epoll_set w fd = None else m_fd (heap p) = fd \<and> m_evloop (heap p)"
      by (metis (full_types))
  next
    fix fd
    assume "epoll_set w fd \<noteq> None"
    then show "fd = m_notify_pipe0 w \<or> map_of ?open fd \<noteq> None" using open_or by blast
  qed
  moreover have "fds_ok w2 heap" using wok(2) iff unfolding fds_ok_def w2 by auto
  ultimately have "waiter_ok w2 heap" using w2(5) assms(1) by (simp add: waiter_ok_def)
  moreover have "live_in (m_waiting_tcpsocks w2) heap"
    using iff w map_of_in_set [OF map_sorted_filter [OF wok(4)]] unfolding live_in_def w2(2) by fastforce
  moreover have "map_sorted (m_waiting_tcpsocks w2)" unfolding w2(2) by (rule map_sorted_filter [OF wok(4)])
  ultimately show ?thesis using w2(1,3) iff [folded w2(2)] by (intro exI [of _ w2]) simp
qed

text \<open>The kernel reports watched descriptors, each once, with one of the events that were asked for.\<close>

definition report_ok :: "SockWaiter \<Rightarrow> (int \<times> u32) list option \<Rightarrow> bool" where
  "report_ok w evs \<longleftrightarrow> (case evs of None \<Rightarrow> True | Some evs \<Rightarrow> distinct (map fst evs) \<and>
     (\<forall>(fd, e) \<in> set evs. epoll_set w fd \<noteq> None \<and> (fd \<noteq> m_notify_pipe0 w \<longrightarrow> reportable e)))"

lemma waiter_ok_same:
  assumes "waiter_ok w heap" "\<And>p. sock_same (heap p) (heap' p)"
  shows "waiter_ok w heap'" "attached heap' = attached heap"
proof -
  have same: "IsClosed (heap' q) = IsClosed (heap q)" "m_evloop (heap' q) = m_evloop (heap q)" "m_fd (heap' q) = m_fd (heap q)"
    "m_inbuf (heap' q) = m_inbuf (heap q)" "m_caredev (heap' q) = m_caredev (heap q)" for q
    using sock_same_closed [OF assms(2) [of q]] assms(2) [of q] by (simp_all add: sock_same_def)
  show "waiter_ok w heap'" using assms(1) unfolding waiter_ok_def sock_waiting_ok_def fds_ok_def sock_ok_def same .
  show "attached heap' = attached heap" unfolding attached_def same ..
qed

lemma Epoll_Wait_ok:
  assumes "waiter_ok w heap" "report_ok w evs"
  shows "\<exists>retcode ready w' heap'. Epoll_Wait loop_ctx n w heap evs = Inr (retcode, ready, w', heap') \<and> waiter_ok w' heap' \<and>
    attached heap' = attached heap \<and> (\<forall>(fd, p) \<in> set ready. p \<in> attached heap) \<and> (evs = Some [] \<longrightarrow> retcode = 0)"
proof -
  have ep: "\<not> m_epfd w < 0" using assms(1) by (simp add: waiter_ok_def waiter_up_def)
  obtain notifytype w1 where n: "GetAndClearNotify w = (notifytype, w1)" by (cases "GetAndClearNotify w")
  from clear_ok [OF assms(1) n] obtain w2 where
    w2: "(if notifytype AND REMOVED \<noteq> 0 then ClearClosedTcpSock loop_ctx w1 heap else Inr w1) = Inr w2" "waiter_ok w2 heap"
    "m_notify_pipe0 w2 = m_notify_pipe0 w" "live_in (m_waiting_tcpsocks w2) heap" "map_sorted (m_waiting_tcpsocks w2)"
    "\<forall>fd p. map_of (m_waiting_tcpsocks w2) fd = Some p \<longleftrightarrow> map_of (m_waiting_tcpsocks w) fd = Some p \<and> \<not> IsClosed (heap p)"
    by (elim exE conjE) (rule that)
  show ?thesis
  proof (cases evs)
    case None
    with ep n w2(1,2) show ?thesis by (simp add: Epoll_Wait_def)
  next
    case (Some es)
    have ctx: "in_loop loop_ctx" by (simp add: loop_ctx_def)
    obtain heap1 where h1: "update_timeouts loop_ctx n (m_waiting_tcpsocks w2) heap = Inr heap1" "live_in (m_waiting_tcpsocks w2) heap1"
      using update_timeouts_ok [OF ctx w2(4), of "m_waiting_tcpsocks w2" n] by auto
    have rep: "reportable e \<and> fd \<in> dom (map_of (m_waiting_tcpsocks w2))" if es: "(fd, e) \<in> set es" "fd \<noteq> m_notify_pipe0 w2" for fd e
    proof -
      have ev: "epoll_set w fd \<noteq> None" "reportable e" using assms(2) es w2(3) by (auto simp: report_ok_def Some)
      obtain p where p: "map_of (m_waiting_tcpsocks w) fd = Some p" using assms(1) ev(1) es(2) w2(3) by (auto simp: waiter_ok_def sock_waiting_ok_def)
      have "\<not> IsClosed (heap p)" using assms(1) p ev(1) unfolding waiter_ok_def sock_waiting_ok_def by metis
      with p w2(6) ev(2) show ?thesis by blast
    qed
    then have "\<forall>(fd, e) \<in> set es. fd \<noteq> m_notify_pipe0 w2 \<longrightarrow> reportable e \<and> fd \<in> dom (map_of (m_waiting_tcpsocks w2))" by blast
    moreover have "distinct (map fst es)" using assms(2) by (simp add: report_ok_def Some)
    ultimately obtain heap2 ready where r: "ready_events loop_ctx n w2 es (heap1, []) = Inr (heap2, ready)" "map_sorted ready"
      "\<forall>fd. map_of ready fd = (if fd \<noteq> m_notify_pipe0 w2 \<and> fd \<in> fst ` set es then map_of (m_waiting_tcpsocks w2) fd else map_of [] fd)"
      using ready_events_ok [OF ctx w2(5) h1(2), of "[]" es n] by auto
    have same: "sock_same (heap p) (heap2 p)" for p
      using update_timeouts_same [OF h1(1)] ready_events_same [OF r(1)] by (rule sock_same_trans)
    have "p \<in> attached heap" if "(fd, p) \<in> set ready" for fd p
    proof -
      have "map_of (m_waiting_tcpsocks w2) fd = Some p" using that r(3) map_of_in_set [OF r(2)] by (metis map_of.simps(1) option.distinct(1))
      with w2(2,6) show ?thesis unfolding attached_def waiter_ok_def sock_waiting_ok_def by (metis (mono_tags, lifting) mem_Collect_eq)
    qed
    moreover have "Epoll_Wait loop_ctx n w heap evs = Inr (int (length es), ready, w2, heap2)"
      using ep n w2(1) h1(1) r(1) by (simp add: Epoll_Wait_def Some)
    ultimately show ?thesis using waiter_ok_same [OF w2(2) same] Some by (intro exI) auto
  qed
qed

text \<open>The kernel's report at the wait of a round.\<close>

definition round_report_ok :: "loop_input \<Rightarrow> EventLoop \<times> sock_heap_t \<Rightarrow> bool" where
  "round_report_ok inp st \<longleftrightarrow>
     (\<forall>st' w. terminal_check st = Inr (False, st') \<and> m_event_waiter (fst st') = Some w \<longrightarrow> report_ok w (reported inp))"

definition world_ok :: "EventLoop \<times> sock_heap_t \<Rightarrow> bool" where
  "world_ok st \<longleftrightarrow> loop_ok st \<and> tasks_ok (attached (snd st)) (m_pendings (fst st))"

lemma world_ok_next: "loop_next st st' \<Longrightarrow> attached (snd st') = attached (snd st) \<Longrightarrow> world_ok st \<Longrightarrow> world_ok st'"
  by (simp add: world_ok_def loop_next_def)

lemma world_ok_idle: "loop_ok st \<Longrightarrow> m_pendings (fst st) = [] \<Longrightarrow> world_ok st"
  by (simp add: world_ok_def)

text \<open>The part of a round after the wait.\<close>

lemma after_wait_ok:
  assumes "loop_ok st" "m_pendings (fst st) = []" "tasks_ok (attached (snd st)) tasks" "snd ` set ready \<subseteq> settled (snd st)"
  shows "\<exists>go_on st' pool'. cbind (run_tasks tasks st) (\<lambda>st. cbind (terminal_check st) (\<lambda>(leave, st).
      if leave then Inr (False, st, pool)
      else if retcode = (0 :: int) then Inr (\<not> m_terminal (fst st), st, pool)
      else cmap (\<lambda>(st, pool). (True, st, pool)) (handle_ready inp wname ready st pool))) = Inr (go_on, st', pool') \<and>
    world_ok st' \<and> (\<not> go_on \<longrightarrow> m_terminal (fst st)) \<and> (retcode = 0 \<longrightarrow> go_on = (\<not> m_terminal (fst st)))"
proof -
  obtain st1 where st1: "run_tasks tasks st = Inr st1" "loop_next st st1" using run_tasks_ok [OF assms(1,3)] by blast
  from terminal_check_ok [OF loop_next_ok [OF st1(2)]] obtain leave st2 where
    st2: "terminal_check st1 = Inr (leave, st2)" "loop_next st1 st2" "leave \<longrightarrow> m_terminal (fst st1)" by (elim exE conjE) (rule that)
  have n2: "loop_next st st2" using loop_next_trans [OF st1(2) st2(2)] .
  have t: "m_terminal (fst st1) = m_terminal (fst st)" "m_terminal (fst st2) = m_terminal (fst st)" using st1(2) n2 by (simp_all add: loop_next_def)
  have w2: "world_ok st2" using n2 assms(2) world_ok_idle by (simp add: loop_next_def)
  have "snd ` set ready \<subseteq> settled (snd st2)" using assms(4) n2 by (auto simp: loop_next_def)
  from handle_ready_ok [OF this loop_next_ok [OF n2], of inp wname pool] obtain st3 pool3 where
    st3: "handle_ready inp wname ready st2 pool = Inr (st3, pool3)" "loop_next st2 st3" by blast
  have w3: "world_ok st3" using loop_next_trans [OF n2 st3(2)] assms(2) world_ok_idle by (simp add: loop_next_def)
  consider leave | "\<not> leave" "retcode = 0" | "\<not> leave" "retcode \<noteq> 0" by blast
  then show ?thesis
  proof cases
    case 1
    with st1(1) st2(1,3) w2 t show ?thesis by (intro exI [of _ False] exI [of _ st2] exI [of _ pool]) simp
  next
    case 2
    with st1(1) st2(1) w2 t show ?thesis by (intro exI [of _ "\<not> m_terminal (fst st2)"] exI [of _ st2] exI [of _ pool]) simp
  next
    case 3
    with st1(1) st2(1) st3(1) w3 show ?thesis by (intro exI [of _ True] exI [of _ st3] exI [of _ pool3]) simp
  qed
qed

lemma loop_round_ok:
  assumes "world_ok st" "round_report_ok inp st"
  shows "\<exists>go_on st' pool'. loop_round inp wname st pool = Inr (go_on, st', pool') \<and> world_ok st' \<and> (\<not> go_on \<longrightarrow> m_terminal (fst st)) \<and>
    (reported inp = Some [] \<longrightarrow> go_on = (\<not> m_terminal (fst st)))"
proof -
  have ok: "loop_ok st" using assms(1) by (simp add: world_ok_def)
  from terminal_check_ok [OF ok] obtain leave st1 where
    st1: "terminal_check st = Inr (leave, st1)" "loop_next st st1" "attached (snd st1) = attached (snd st)" "leave \<longrightarrow> m_terminal (fst st)"
    by (elim exE conjE) (rule that)
  have world1: "world_ok st1" using world_ok_next [OF st1(2,3) assms(1)] .
  have t: "m_terminal (fst st1) = m_terminal (fst st)" using st1(2) by (simp add: loop_next_def)
  show ?thesis
  proof (cases leave)
    case True
    with st1 world1 show ?thesis by (intro exI [of _ False] exI [of _ st1] exI [of _ pool]) (simp add: loop_round_def)
  next
    case False
    obtain w where w: "m_event_waiter (fst st1) = Some w" "waiter_ok w (snd st1)" using world1 by (auto simp: world_ok_def loop_ok_def)
    have "report_ok w (reported inp)" using assms(2) st1(1) False w(1) by (cases st1) (simp add: round_report_ok_def)
    from Epoll_Wait_ok [OF w(2) this, of "now inp"] obtain retcode ready w2 heap2 where
      ew: "Epoll_Wait loop_ctx (now inp) w (snd st1) (reported inp) = Inr (retcode, ready, w2, heap2)" "waiter_ok w2 heap2"
      "attached heap2 = attached (snd st1)" "\<forall>(fd, p) \<in> set ready. p \<in> attached (snd st1)" "reported inp = Some [] \<longrightarrow> retcode = 0" by (elim exE conjE) (rule that)
    let ?el = "(fst st1)\<lparr>m_event_waiter := Some w2\<rparr>"
    have unf: "loop_round inp wname st pool = (if retcode = - 1 then Inr (\<not> m_terminal ?el, (?el, heap2), pool)
        else cbind (run_tasks (m_pendings ?el) (?el\<lparr>m_pendings := []\<rparr>, heap2)) (\<lambda>st. cbind (terminal_check st) (\<lambda>(leave, st).
          if leave then Inr (False, st, pool) else if retcode = 0 then Inr (\<not> m_terminal (fst st), st, pool)
          else cmap (\<lambda>(st, pool). (True, st, pool)) (handle_ready inp wname ready st pool))))"
      using st1(1) False w(1) ew(1) by (simp add: loop_round_def Let_def)
    show ?thesis
    proof (cases "retcode = - 1")
      case True
      have "world_ok (?el, heap2)" using ew(2,3) world1 by (simp add: world_ok_def loop_ok_def)
      with True t unf ew(5) show ?thesis by (intro exI [of _ "\<not> m_terminal ?el"] exI [of _ "(?el, heap2)"] exI [of _ pool]) simp
    next
      case no_err: False
      have l2: "loop_ok (?el\<lparr>m_pendings := []\<rparr>, heap2)" "tasks_ok (attached heap2) (m_pendings ?el)"
        using ew(2,3) world1 by (simp_all add: world_ok_def loop_ok_def)
      have "snd ` set ready \<subseteq> settled heap2" using ew(3,4) by (fastforce simp: attached_def settled_def)
      with after_wait_ok [of "(?el\<lparr>m_pendings := []\<rparr>, heap2)" "m_pendings ?el" ready pool retcode inp wname, OF l2(1)] l2(2) no_err unf t ew(5) show ?thesis
        by auto
    qed
  qed
qed

section \<open>The loop thread among the others\<close>

text \<open>
  The loop thread runs its rounds. Other threads add connected sockets with descriptors of their own (closed descriptors are
  not used again, as \<open>Close\<close> never closes them), ask for a close or for further events, end the loop, and work
  on sockets without touching what the loop relies on (\<open>sock_same\<close>). A socket that a queued task refers to is not reused.
\<close>

definition other_thread :: thread_ctx where
  "other_thread = \<lparr>in_loop = False, in_write_loop = False\<rparr>"

definition fresh_sock :: "EventLoop \<times> sock_heap_t \<Rightarrow> nat \<Rightarrow> TcpSock \<Rightarrow> bool" where
  "fresh_sock st p s \<longleftrightarrow> sock_ok s \<and> \<not> IsClosed s \<and> \<not> m_evloop s \<and> IsClosed (snd st p) \<and>
     (\<forall>n. Task_Close p n \<notin> set (m_pendings (fst st))) \<and> (\<forall>q. m_fd (snd st q) \<noteq> m_fd s) \<and>
     (\<forall>w. m_event_waiter (fst st) = Some w \<longrightarrow> m_fd s \<noteq> m_notify_pipe0 w \<and> map_of (m_waiting_tcpsocks w) (m_fd s) = None \<and>
        p \<notin> snd ` set (m_waiting_tcpsocks w))"

inductive world_step :: "byte list \<Rightarrow> (EventLoop \<times> sock_heap_t) \<times> write_task threadpoolimp \<Rightarrow> (EventLoop \<times> sock_heap_t) \<times> write_task threadpoolimp \<Rightarrow> bool"
  for wname where
  w_round: "round_report_ok inp st \<Longrightarrow> loop_round inp wname st pool = Inr (go_on, st', pool') \<Longrightarrow> world_step wname (st, pool) (st', pool')"
| w_add: "fresh_sock (el, heap) p s \<Longrightarrow> AddTcpSockToLoop other_thread el (heap(p := s)) p = Inr (ok, el', heap') \<Longrightarrow>
    world_step wname ((el, heap), pool) ((el', heap'), pool)"
| w_close: "world_step wname ((el, heap), pool) ((QueueTaskToLoop el (Task_Close p True), heap), pool)"
| w_event: "hasAny ev \<Longrightarrow> world_step wname ((el, heap), pool) ((QueueTaskToLoop el (Task_AddAndUpdateEvent p ev), heap), pool)"
| w_terminate: "world_step wname ((el, heap), pool) ((TerminateLoop el, heap), pool)"
| w_other: "sock_same (heap p) s \<Longrightarrow> world_step wname ((el, heap), pool) ((el, heap(p := s)), pool')"

text \<open>The start: nothing waits and nothing is queued; only the pipe is watched.\<close>

definition world_start :: "EventLoop \<times> sock_heap_t \<Rightarrow> bool" where
  "world_start st \<longleftrightarrow> (\<exists>w. m_event_waiter (fst st) = Some w \<and> waiter_up w \<and> m_waiting_tcpsocks w = [] \<and>
     (\<forall>fd. epoll_set w fd \<noteq> None \<longrightarrow> fd = m_notify_pipe0 w)) \<and> m_pendings (fst st) = [] \<and>
     (\<forall>p. snd st p = new_TcpSock_unconnected 0 False)"

lemma unconnected_fields:
  "IsClosed (new_TcpSock_unconnected e r)" "m_fd (new_TcpSock_unconnected e r) = - 1" "\<not> m_evloop (new_TcpSock_unconnected e r)"
  "fb_inv (m_inbuf (new_TcpSock_unconnected e r))"
  by (simp_all add: new_TcpSock_unconnected_def new_TcpSock_def IsClosed_def fb_inv_new)

lemma world_start_ok: "world_start st \<Longrightarrow> world_ok st"
  by (auto simp: world_start_def world_ok_def loop_ok_def waiter_ok_def sock_waiting_ok_def fds_ok_def sock_ok_def unconnected_fields)

lemma tasks_ok_snoc:
  "tasks_ok A ts \<Longrightarrow> tasks_ok A (ts @ [Task_Close p True])"
  "tasks_ok A ts \<Longrightarrow> hasAny ev \<Longrightarrow> tasks_ok A (ts @ [Task_AddAndUpdateEvent p ev])"
  "tasks_ok A ts \<Longrightarrow> p \<in> A \<Longrightarrow> \<forall>n. Task_Close p n \<notin> set ts \<Longrightarrow> tasks_ok A (ts @ [Task_UpdateTcpSock p])"
  by (induction A ts rule: tasks_ok.induct) auto

lemma waiter_ok_notify: "waiter_ok w heap \<Longrightarrow> waiter_ok (NotifyNewActive w a) heap"
  by (rule waiter_ok_cong) (simp_all add: waiter_ok_def waiter_up_def)

lemma queue_task_ok:
  assumes "world_ok (el, heap)" "tasks_ok (attached heap) (m_pendings el @ [task])"
  shows "world_ok (QueueTaskToLoop el task, heap)"
  using assms waiter_ok_notify by (auto simp: world_ok_def loop_ok_def QueueTaskToLoop_def)

lemma fresh_attached: "IsClosed (heap p) \<Longrightarrow> attached heap \<subseteq> attached (heap(p := s))"
  by (auto simp: attached_def)

lemma waiter_ok_fresh:
  assumes "waiter_ok w heap" "sock_ok s" "\<not> IsClosed s" "\<forall>q. m_fd (heap q) \<noteq> m_fd s" "m_fd s \<noteq> m_notify_pipe0 w"
    "map_of (m_waiting_tcpsocks w) (m_fd s) = None" "p \<notin> snd ` set (m_waiting_tcpsocks w)"
  shows "waiter_ok w (heap(p := s))"
proof -
  have "(heap(p := s)) q = heap q" if "map_of (m_waiting_tcpsocks w) fd = Some q" for fd q
    using assms(7) map_of_SomeD [OF that] by force
  then have "sock_waiting_ok w (heap(p := s))" using assms(1) unfolding waiter_ok_def sock_waiting_ok_def by simp
  moreover have "fds_ok w (heap(p := s))" unfolding fds_ok_def
  proof (intro allI impI)
    fix q
    assume q: "m_fd ((heap(p := s)) q) \<noteq> - 1"
    show "m_fd ((heap(p := s)) q) \<noteq> m_notify_pipe0 w \<and> (\<forall>r. m_fd ((heap(p := s)) r) = m_fd ((heap(p := s)) q) \<longrightarrow> r = q) \<and>
      (\<forall>r. map_of (m_waiting_tcpsocks w) (m_fd ((heap(p := s)) q)) = Some r \<longrightarrow> r = q)"
    proof (cases "q = p")
      case True
      with assms(4-6) show ?thesis by auto
    next
      case False
      then have "m_fd (heap q) \<noteq> - 1" using q by simp
      then have "m_fd (heap q) \<noteq> m_notify_pipe0 w" "\<forall>r. m_fd (heap r) = m_fd (heap q) \<longrightarrow> r = q"
        "\<forall>r. map_of (m_waiting_tcpsocks w) (m_fd (heap q)) = Some r \<longrightarrow> r = q" using assms(1) by (simp_all add: waiter_ok_def fds_ok_def)
      with False assms(4) show ?thesis by auto
    qed
  qed
  ultimately show ?thesis using assms(1,2) by (simp add: waiter_ok_def)
qed

lemma w_add_ok:
  assumes "world_ok (el, heap)" "fresh_sock (el, heap) p s" "AddTcpSockToLoop other_thread el (heap(p := s)) p = Inr (ok, el', heap')"
  shows "world_ok (el', heap')"
proof -
  obtain w where w: "m_event_waiter el = Some w" "waiter_ok w heap" and ts: "tasks_ok (attached heap) (m_pendings el)"
    using assms(1) by (auto simp: world_ok_def loop_ok_def)
  have f: "sock_ok s" "\<not> IsClosed s" "IsClosed (heap p)" "\<forall>n. Task_Close p n \<notin> set (m_pendings el)" "\<forall>q. m_fd (heap q) \<noteq> m_fd s"
    "m_fd s \<noteq> m_notify_pipe0 w" "map_of (m_waiting_tcpsocks w) (m_fd s) = None" "p \<notin> snd ` set (m_waiting_tcpsocks w)" "\<not> m_evloop s"
    using assms(2) w(1) by (auto simp: fresh_sock_def)
  define s' where "s' = (if m_terminal el then s
    else SetEventLoop (s\<lparr>m_caredev := ev_AddEvent (ev_AddEvent (m_caredev s) EV_READ) EV_EXCEPTION\<rparr>) True)"
  have fields: "m_fd s' = m_fd s" "m_isclosing s' = m_isclosing s" "m_inbuf s' = m_inbuf s" "m_evloop s' \<longleftrightarrow> \<not> m_terminal el"
    using f(9) by (simp_all add: s'_def SetEventLoop_def)
  have "hasAny (m_caredev s')" if "m_evloop s'"
    using that fields(4) hasAny_add [of EV_EXCEPTION] by (simp add: s'_def SetEventLoop_def hasAny_def EV_EXCEPTION_def EV_NOEVENT_def)
  moreover have "\<not> IsClosed s'" using f(2) unfolding IsClosed_def fields .
  ultimately have s': "sock_ok s'" "\<not> IsClosed s'" "m_fd s' = m_fd s" "m_evloop s' \<longleftrightarrow> \<not> m_terminal el"
    using f(1) fields by (simp_all add: sock_ok_def)
  have ok: "waiter_ok w (heap(p := s'))" using waiter_ok_fresh [OF w(2) s'(1,2)] f s'(3) by simp
  have at: "tasks_ok (attached (heap(p := s'))) (m_pendings el)" using ts tasks_ok_mono fresh_attached f(3) by blast
  have r: "(el', heap') = (if m_terminal el then (el, heap(p := s')) else (QueueTaskToLoop el (Task_UpdateTcpSock p), heap(p := s')))"
    using assms(3) w by (auto simp: AddTcpSockToLoop_def waiter_AddTcpSock_def waiter_UpdateTcpSock_def other_thread_def waiter_ok_def waiter_up_def
        s'_def Let_def split: if_splits)
  have base: "world_ok (el, heap(p := s'))" using ok at w(1) by (simp add: world_ok_def loop_ok_def)
  show ?thesis
  proof (cases "m_terminal el")
    case True
    with r base show ?thesis by simp
  next
    case False
    then have "p \<in> attached (heap(p := s'))" using s' by (simp add: attached_def)
    with tasks_ok_snoc(3) [OF at] f(4) queue_task_ok [OF base] r False show ?thesis by simp
  qed
qed

lemma TerminateLoop_ok: "world_ok (el, heap) \<Longrightarrow> world_ok (TerminateLoop el, heap)"
  using waiter_ok_notify by (auto simp: world_ok_def loop_ok_def TerminateLoop_def)

lemma w_other_ok:
  assumes "world_ok (el, heap)" "sock_same (heap p) s"
  shows "world_ok (el, heap(p := s))"
proof -
  have "sock_same (heap q) ((heap(p := s)) q)" for q using assms(2) by simp
  from waiter_ok_same [where heap = heap and heap' = "heap(p := s)", OF _ this] assms(1) show ?thesis by (auto simp: world_ok_def loop_ok_def)
qed

lemma world_step_ok: "world_step wname c c' \<Longrightarrow> world_ok (fst c) \<Longrightarrow> world_ok (fst c')"
proof (induction rule: world_step.induct)
  case (w_round inp st pool go_on st' pool')
  with loop_round_ok [of st inp wname pool] show ?case by auto
next
  case (w_close el heap pool p)
  then show ?case using queue_task_ok tasks_ok_snoc(1) by (simp add: world_ok_def)
next
  case (w_event ev el heap pool p)
  then show ?case using queue_task_ok tasks_ok_snoc(2) by (simp add: world_ok_def)
qed (auto intro: w_add_ok TerminateLoop_ok w_other_ok)

lemma world_reachable_ok: "(world_step wname)\<^sup>*\<^sup>* c c' \<Longrightarrow> world_ok (fst c) \<Longrightarrow> world_ok (fst c')"
  by (induction rule: rtranclp_induct) (auto intro: world_step_ok)


text \<open>C31: A loop that was told to end leaves at the latest at the first wait without events, in every reachable state.\<close>

theorem event_loop_ends:
  assumes "world_start st\<^sub>0" "(world_step wname)\<^sup>*\<^sup>* (st\<^sub>0, pool\<^sub>0) (st, pool)" "m_terminal (fst st)" "reported inp = Some []"
  shows "\<exists>st' pool'. loop_round inp wname st pool = Inr (False, st', pool')"
proof -
  have "world_ok st" using world_reachable_ok [OF assms(2)] world_start_ok [OF assms(1)] by simp
  moreover have "round_report_ok inp st" using assms(4) by (simp add: round_report_ok_def report_ok_def)
  ultimately show ?thesis using loop_round_ok [of st inp wname pool] assms(3,4) by auto
qed

definition demo_loop :: "EventLoop \<times> sock_heap_t" where
  "demo_loop = (\<lparr>m_event_waiter = Some demo_waiter, m_terminal = False, m_pendings = []\<rparr>, \<lambda>_. new_TcpSock_unconnected 0 False)"

definition demo_input :: loop_input where
  "demo_input = \<lparr>now = 0, reported = Some [], reads = (\<lambda>_. []), sock_err = (\<lambda>_. 0), named_thread = None\<rparr>"

definition demo_wpool :: "write_task threadpoolimp" where
  "demo_wpool = new_threadpoolimp True (\<lambda>_. \<lparr>nw_threadname = [], nw_terminate = False, nw_task_container = []\<rparr>)"

lemma demo_loop_start: "world_start demo_loop"
  by (simp add: world_start_def demo_loop_def demo_waiter_def waiter_up_def)

lemma demo_loop_added: "\<exists>st. (world_step wname)\<^sup>*\<^sup>* (demo_loop, demo_wpool) (st, demo_wpool) \<and> m_pendings (fst st) = [Task_UpdateTcpSock 7]"
proof -
  have fresh: "fresh_sock demo_loop 7 (new_TcpSock 0 False 7 [] 0)"
    by (simp add: fresh_sock_def demo_loop_def demo_waiter_def unconnected_fields new_TcpSock_def sock_ok_def IsClosed_def fb_inv_new)
  obtain el' heap' where r: "AddTcpSockToLoop other_thread (fst demo_loop) ((snd demo_loop)(7 := new_TcpSock 0 False 7 [] 0)) 7 = Inr (True, el', heap')"
    "m_pendings el' = [Task_UpdateTcpSock 7]"
    by (simp add: AddTcpSockToLoop_def waiter_AddTcpSock_def waiter_UpdateTcpSock_def other_thread_def demo_loop_def demo_waiter_def QueueTaskToLoop_def
        Let_def)
  from w_add [OF fresh [unfolded demo_loop_def] r(1) [unfolded demo_loop_def fst_conv snd_conv]] r(2) show ?thesis
    by (intro exI [of _ "(el', heap')"]) (auto simp: demo_loop_def)
qed


theorem event_loop_ends_witness:
  "\<exists>st' pool'. loop_round demo_input [49] (TerminateLoop (fst demo_loop), snd demo_loop) demo_wpool = Inr (False, st', pool')"
proof -
  have "(world_step [49])\<^sup>*\<^sup>* (demo_loop, demo_wpool) ((TerminateLoop (fst demo_loop), snd demo_loop), demo_wpool)"
    using w_terminate [of "[49]" "fst demo_loop" "snd demo_loop" demo_wpool] by simp
  from event_loop_ends [OF demo_loop_start this] show ?thesis by (simp add: TerminateLoop_def demo_input_def)
qed

end
