(* ===== verification/Select_Waiter.thy ===== *)
theory Select_Waiter
  imports Sock_Waiter
begin

unbundle bit_operations_syntax

text \<open>
  The waiter for systems without epoll, \<^verbatim>\<open>src/Core/SelectWaiter.h\<close> and \<^verbatim>\<open>src/Core/SelectWaiter.cpp\<close>, on the same base class
  as the epoll waiter. An \<open>fd_set\<close> is a set of descriptors below \<open>FD_SETSIZE\<close>; the macros access an array, so a descriptor
  outside this range is an access out of bounds. What the two waiters promise the base class is the locale
  \<open>event_waiter\<close>, interpreted for both.
\<close>

section \<open>State\<close>

record SelectWaiter = SockWaiter +
  m_readfds :: "int set"
  m_writefds :: "int set"
  m_exceptfds :: "int set"
  maxfd :: int

definition FD_SETSIZE :: int where "FD_SETSIZE = 1024"

definition FD_SET :: "int \<Rightarrow> int set \<Rightarrow> int set cres" where
  "FD_SET fd fds = (if 0 \<le> fd \<and> fd < FD_SETSIZE then Inr (insert fd fds) else Inl OutOfBounds)"

definition FD_CLR :: "int \<Rightarrow> int set \<Rightarrow> int set cres" where
  "FD_CLR fd fds = (if 0 \<le> fd \<and> fd < FD_SETSIZE then Inr (fds - {fd}) else Inl OutOfBounds)"

definition FD_ISSET :: "int \<Rightarrow> int set \<Rightarrow> bool cres" where
  "FD_ISSET fd fds = (if 0 \<le> fd \<and> fd < FD_SETSIZE then Inr (fd \<in> fds) else Inl OutOfBounds)"

text \<open>The constructor, on what the constructor of the base class left.\<close>

definition new_SelectWaiter :: "SockWaiter \<Rightarrow> SelectWaiter cres" where
  "new_SelectWaiter base =
     cbind (FD_SET (m_notify_pipe0 base) {}) (\<lambda>r.
       Inr (SockWaiter.extend base (SelectWaiter.fields r {} {} (if m_notify_pipe0 base > 0 then m_notify_pipe0 base else 0))))"

definition Select_DestroyWaiter :: "thread_ctx \<Rightarrow> SelectWaiter \<Rightarrow> SelectWaiter cres" where
  "Select_DestroyWaiter t w =
     cbind (if m_notify_pipe0 w \<noteq> - 1 then cmap (\<lambda>r. w\<lparr>m_readfds := r\<rparr>) (FD_CLR (m_notify_pipe0 w) (m_readfds w)) else Inr w)
       (DestroyWaiter t)"

section \<open>Operations\<close>

definition Select_UpdateTcpSockEvent :: "SelectWaiter \<Rightarrow> TcpSock \<Rightarrow> SelectWaiter cres" where
  "Select_UpdateTcpSockEvent w s =
     (let fd = m_fd s; so_ev = m_caredev s in
      if fd = - 1 then Inl AssertFailed
      else
        cbind (FD_CLR fd (m_readfds w)) (\<lambda>r.
        cbind (FD_CLR fd (m_exceptfds w)) (\<lambda>e.
        cbind (FD_CLR fd (m_writefds w)) (\<lambda>wr.
        cbind (if hasRead so_ev then FD_SET fd r else Inr r) (\<lambda>r.
        cbind (if hasWrite so_ev then FD_SET fd wr else Inr wr) (\<lambda>wr.
        cbind (if hasException so_ev then FD_SET fd e else Inr e) (\<lambda>e.
          Inr (w\<lparr>m_readfds := r, m_writefds := wr, m_exceptfds := e, maxfd := (if fd > maxfd w then fd else maxfd w)\<rparr>))))))))"

definition Select_RemoveTcpSock ::
  "thread_ctx \<Rightarrow> SelectWaiter \<Rightarrow> sock_heap_t \<Rightarrow> nat \<Rightarrow> (SelectWaiter \<times> sock_heap_t) cres" where
  "Select_RemoveTcpSock = base_RemoveTcpSock Select_UpdateTcpSockEvent"

definition Select_UpdateTcpSockInLoop ::
  "thread_ctx \<Rightarrow> SelectWaiter \<Rightarrow> sock_heap_t \<Rightarrow> nat \<Rightarrow> (SelectWaiter \<times> sock_heap_t) cres" where
  "Select_UpdateTcpSockInLoop = base_UpdateTcpSockInLoop Select_UpdateTcpSockEvent"

text \<open>The result of \<open>select\<close>: the number and the three sets it leaves, or an error (which leaves the sets unchanged).\<close>

datatype select_result = Selected nat "int set" "int set" "int set" | SelectFailed int

definition EBADF :: int where "EBADF = 9"

text \<open>One waiting socket (lines 119 to 149).\<close>

definition select_one ::
  "thread_ctx \<Rightarrow> int \<Rightarrow> int set \<times> int set \<times> int set \<Rightarrow> nat \<Rightarrow> sock_heap_t \<times> (int, nat) std_map \<Rightarrow>
     (sock_heap_t \<times> (int, nat) std_map) cres" where
  "select_one t now fds p st =
     (let (readfds, writefds, exceptfds) = fds; (heap, allready) = st; fd = m_fd (heap p) in
      if fd = - 1 then Inl AssertFailed
      else
        cbind (sock_ClearEvent t (heap p)) (\<lambda>s.
        cbind (FD_ISSET fd readfds) (\<lambda>rd.
        cbind (if rd then sock_AddEvent t s EV_READ else Inr s) (\<lambda>s.
        cbind (FD_ISSET fd writefds) (\<lambda>wr.
        cbind (if wr then sock_AddEvent t s EV_WRITE else Inr s) (\<lambda>s.
        cbind (FD_ISSET fd exceptfds) (\<lambda>ex.
        cbind (if ex then sock_AddEvent t s EV_EXCEPTION else Inr s) (\<lambda>s.
        if rd \<or> wr \<or> ex then cbind (RenewTimeout t now s) (\<lambda>s. Inr (heap(p := s), map_insert (m_fd s) p allready))
        else cbind (UpdateTimeout t now s) (\<lambda>s. Inr (heap(p := s), allready))))))))))"

fun select_scan ::
  "thread_ctx \<Rightarrow> int \<Rightarrow> int set \<times> int set \<times> int set \<Rightarrow> (int \<times> nat) list \<Rightarrow> sock_heap_t \<times> (int, nat) std_map \<Rightarrow>
     (sock_heap_t \<times> (int, nat) std_map) cres" where
  "select_scan t now fds [] st = Inr st"
| "select_scan t now fds ((_, p) # ws) st = cbind (select_one t now fds p st) (select_scan t now fds ws)"

text \<open>\<open>Wait\<close>. The extra \<open>select\<close> for an empty set only delays; a bad descriptor fails the assertion.\<close>

definition Select_Wait ::
  "thread_ctx \<Rightarrow> int \<Rightarrow> SelectWaiter \<Rightarrow> sock_heap_t \<Rightarrow> select_result \<Rightarrow>
     (int \<times> (int, nat) std_map \<times> SelectWaiter \<times> sock_heap_t) cres" where
  "Select_Wait t now w heap res =
     (let (retcode, fds) = (case res of
        Selected n r wr e \<Rightarrow> (int n, (r, wr, e))
      | SelectFailed _ \<Rightarrow> (- 1, (m_readfds w, m_writefds w, m_exceptfds w)));
      (notifytype, w) = GetAndClearNotify w in
      cbind (if notifytype AND REMOVED \<noteq> 0 then ClearClosedTcpSock t w heap else Inr w) (\<lambda>w.
      if res = SelectFailed EBADF then Inl AssertFailed
      else cbind (select_scan t now fds (m_waiting_tcpsocks w) (heap, [])) (\<lambda>(heap, allready).
        Inr (retcode, allready, w, heap))))"

section \<open>What a waiter promises the base class\<close>

text \<open>
  Changing the events of a socket whose descriptor is in range succeeds, changes nothing of the base class and
  nothing about other descriptors. A waiter may watch for errors more often than it is asked to.
\<close>

definition watch_ok :: "SockEvent \<Rightarrow> bool \<times> bool \<times> bool \<Rightarrow> bool" where
  "watch_ok ev x \<longleftrightarrow> (case x of (r, wr, e) \<Rightarrow> r = hasRead ev \<and> wr = hasWrite ev \<and> (hasException ev \<longrightarrow> e) \<and> (ev = EV_NOEVENT \<longrightarrow> \<not> e))"

locale event_waiter =
  fixes upd :: "'a SockWaiter_scheme \<Rightarrow> TcpSock \<Rightarrow> 'a SockWaiter_scheme cres"
    and watches :: "'a SockWaiter_scheme \<Rightarrow> int \<Rightarrow> bool \<times> bool \<times> bool"
    and in_range :: "int \<Rightarrow> bool"
  assumes upd_ok: "in_range (m_fd s) \<Longrightarrow> \<exists>w'. upd w s = Inr w' \<and> watch_ok (m_caredev s) (watches w' (m_fd s)) \<and>
      (\<forall>fd. fd \<noteq> m_fd s \<longrightarrow> watches w' fd = watches w fd) \<and> m_waiting_tcpsocks w' = m_waiting_tcpsocks w \<and>
      m_running w' = m_running w \<and> m_notify_pipe1 w' = m_notify_pipe1 w"
    and watches_base: "watches (w\<lparr>m_waiting_tcpsocks := ws\<rparr>) = watches w"
    and watches_notify: "watches (NotifyNewActive w a) = watches w"
begin

text \<open>A socket with events is waited for and watched for them.\<close>

lemma update_watches:
  assumes "m_running w" "in_loop t" "in_range (m_fd (heap p))" "hasAny (m_caredev (heap p))" "map_sorted (m_waiting_tcpsocks w)"
    "\<And>q. map_of (m_waiting_tcpsocks w) (m_fd (heap p)) = Some q \<Longrightarrow> m_fd (heap q) = m_fd (heap p)"
  shows "\<exists>w'. base_UpdateTcpSockInLoop upd t w heap p = Inr (w', heap) \<and> map_of (m_waiting_tcpsocks w') (m_fd (heap p)) = Some p \<and>
    watch_ok (m_caredev (heap p)) (watches w' (m_fd (heap p))) \<and>
    (\<forall>fd. fd \<noteq> m_fd (heap p) \<longrightarrow> watches w' fd = watches w fd \<and> map_of (m_waiting_tcpsocks w') fd = map_of (m_waiting_tcpsocks w) fd)"
proof -
  from upd_ok [OF assms(3), of w] obtain w1 where w1: "upd w (heap p) = Inr w1" "watch_ok (m_caredev (heap p)) (watches w1 (m_fd (heap p)))"
    "\<forall>fd. fd \<noteq> m_fd (heap p) \<longrightarrow> watches w1 fd = watches w fd" "m_waiting_tcpsocks w1 = m_waiting_tcpsocks w" by blast
  let ?w = "w1\<lparr>m_waiting_tcpsocks := map_insert (m_fd (heap p)) p (m_waiting_tcpsocks w)\<rparr>"
  have "base_UpdateTcpSockInLoop upd t w heap p = Inr (?w, heap)"
    using assms(1,2,4,6) w1(1,4) by (auto simp: base_UpdateTcpSockInLoop_def Let_def split: option.splits)
  with w1(2,3) watches_base assms(5) show ?thesis by (intro exI [of _ ?w]) (simp add: map_of_insert)
qed

text \<open>A removed socket is not watched any more, and its removal is pending.\<close>

lemma remove_unwatches:
  assumes "m_running w" "in_loop t" "in_range (m_fd (heap p))" "m_notify_pipe1 w \<noteq> - 1"
  shows "\<exists>w' heap'. base_RemoveTcpSock upd t w heap p = Inr (w', heap') \<and> watches w' (m_fd (heap p)) = (False, False, False) \<and>
    m_allactive w' AND REMOVED \<noteq> 0 \<and> (\<forall>fd. fd \<noteq> m_fd (heap p) \<longrightarrow> watches w' fd = watches w fd)"
proof -
  let ?s = "(heap p)\<lparr>m_caredev := EV_NOEVENT\<rparr>"
  have "in_range (m_fd ?s)" using assms(3) by simp
  from upd_ok [OF this, of w] obtain w1 where w1: "upd w ?s = Inr w1" "watch_ok EV_NOEVENT (watches w1 (m_fd (heap p)))"
    "\<forall>fd. fd \<noteq> m_fd (heap p) \<longrightarrow> watches w1 fd = watches w fd" "m_notify_pipe1 w1 = m_notify_pipe1 w" by auto
  have "watches w1 (m_fd (heap p)) = (False, False, False)"
    using w1(2) by (auto simp: watch_ok_def hasRead_def hasWrite_def EV_NOEVENT_def split: prod.splits)
  moreover have "(x OR REMOVED) AND REMOVED = REMOVED" for x :: u32 by (rule bit_word_eqI) (auto simp: bit_simps)
  then have "m_allactive (NotifyNewActive w1 REMOVED) AND REMOVED \<noteq> 0"
    using assms(4) w1(4) by (simp add: NotifyNewActive_def NotifyNewActiveWithoutLock_def REMOVED_def)
  ultimately show ?thesis using assms(1,2) w1(1,3) watches_notify by (simp add: base_RemoveTcpSock_def Let_def)
qed

end

definition epoll_watches :: "SockWaiter \<Rightarrow> int \<Rightarrow> bool \<times> bool \<times> bool" where
  "epoll_watches w fd = (case epoll_set w fd of None \<Rightarrow> (False, False, False)
     | Some m \<Rightarrow> (m AND EPOLLIN \<noteq> 0, m AND EPOLLOUT \<noteq> 0, m AND EPOLLERR \<noteq> 0))"

definition select_watches :: "SelectWaiter \<Rightarrow> int \<Rightarrow> bool \<times> bool \<times> bool" where
  "select_watches w fd = (fd \<in> m_readfds w, fd \<in> m_writefds w, fd \<in> m_exceptfds w)"

lemma epoll_mask_bits:
  "epoll_mask ev AND EPOLLIN \<noteq> 0 \<longleftrightarrow> hasRead ev" "epoll_mask ev AND EPOLLOUT \<noteq> 0 \<longleftrightarrow> hasWrite ev"
  "epoll_mask ev AND EPOLLERR \<noteq> 0 \<longleftrightarrow> hasRead ev \<or> hasException ev"
  by (simp_all add: epoll_mask_def EPOLLIN_def EPOLLOUT_def EPOLLERR_def EPOLLPRI_def EPOLLET_def)

lemma hasAny_split: "hasRead ev \<or> hasWrite ev \<or> hasException ev \<Longrightarrow> hasAny ev"
  by (auto simp: hasRead_def hasWrite_def hasException_def hasAny_def EV_NOEVENT_def)

interpretation epoll_waiter: event_waiter UpdateTcpSockEvent epoll_watches "\<lambda>fd. fd \<noteq> - 1"
proof
  fix s :: TcpSock and w :: SockWaiter
  assume fd: "m_fd s \<noteq> - 1"
  let ?w = "w\<lparr>epoll_set := (epoll_set w)(m_fd s := (if hasAny (m_caredev s) then Some (epoll_mask (m_caredev s)) else None))\<rparr>"
  have "watch_ok (m_caredev s) (epoll_watches ?w (m_fd s))"
    using hasAny_split [of "m_caredev s"] by (auto simp: watch_ok_def epoll_watches_def epoll_mask_bits hasAny_def)
  moreover have "UpdateTcpSockEvent w s = Inr ?w" using fd by (simp add: UpdateTcpSockEvent_def)
  ultimately show "\<exists>w'. UpdateTcpSockEvent w s = Inr w' \<and> watch_ok (m_caredev s) (epoll_watches w' (m_fd s)) \<and>
      (\<forall>fd. fd \<noteq> m_fd s \<longrightarrow> epoll_watches w' fd = epoll_watches w fd) \<and> m_waiting_tcpsocks w' = m_waiting_tcpsocks w \<and>
      m_running w' = m_running w \<and> m_notify_pipe1 w' = m_notify_pipe1 w"
    by (intro exI [of _ ?w]) (simp add: epoll_watches_def)
qed (auto simp: epoll_watches_def NotifyNewActive_def NotifyNewActiveWithoutLock_def)

interpretation select_waiter: event_waiter Select_UpdateTcpSockEvent select_watches "\<lambda>fd. 0 \<le> fd \<and> fd < FD_SETSIZE"
proof
  fix s :: TcpSock and w :: SelectWaiter
  assume fd: "0 \<le> m_fd s \<and> m_fd s < FD_SETSIZE"
  let ?f = "\<lambda>b fds. if b then insert (m_fd s) (fds - {m_fd s}) else fds - {m_fd s}"
  let ?w = "w\<lparr>m_readfds := ?f (hasRead (m_caredev s)) (m_readfds w), m_writefds := ?f (hasWrite (m_caredev s)) (m_writefds w),
    m_exceptfds := ?f (hasException (m_caredev s)) (m_exceptfds w), maxfd := (if m_fd s > maxfd w then m_fd s else maxfd w)\<rparr>"
  have "Select_UpdateTcpSockEvent w s = Inr ?w"
    using fd by (simp add: Select_UpdateTcpSockEvent_def FD_SET_def FD_CLR_def Let_def)
  moreover have "\<not> hasException EV_NOEVENT" by (simp add: hasException_def EV_NOEVENT_def)
  then have "watch_ok (m_caredev s) (select_watches ?w (m_fd s))" by (auto simp: watch_ok_def select_watches_def)
  ultimately show "\<exists>w'. Select_UpdateTcpSockEvent w s = Inr w' \<and> watch_ok (m_caredev s) (select_watches w' (m_fd s)) \<and>
      (\<forall>fd. fd \<noteq> m_fd s \<longrightarrow> select_watches w' fd = select_watches w fd) \<and> m_waiting_tcpsocks w' = m_waiting_tcpsocks w \<and>
      m_running w' = m_running w \<and> m_notify_pipe1 w' = m_notify_pipe1 w"
    by (intro exI [of _ ?w]) (simp add: select_watches_def)
qed (auto simp: select_watches_def NotifyNewActive_def NotifyNewActiveWithoutLock_def)

section \<open>A round of waiting\<close>

text \<open>The events of a socket after a round.\<close>

definition selected :: "int set \<times> int set \<times> int set \<Rightarrow> int \<Rightarrow> SockEvent" where
  "selected fds fd = (case fds of (r, wr, e) \<Rightarrow>
     (if fd \<in> r then EV_READ else 0) OR (if fd \<in> wr then EV_WRITE else 0) OR (if fd \<in> e then EV_EXCEPTION else 0))"

definition is_selected :: "int set \<times> int set \<times> int set \<Rightarrow> int \<Rightarrow> bool" where
  "is_selected fds fd \<longleftrightarrow> (case fds of (r, wr, e) \<Rightarrow> fd \<in> r \<union> wr \<union> e)"

lemma UpdateTimeout_sockev: "UpdateTimeout t n s = Inr s' \<Longrightarrow> m_sockev s' = m_sockev s"
  by (auto simp: UpdateTimeout_def RenewTimeout_def log_call_def split: if_splits)

lemma select_one_ok:
  assumes "in_loop t" "m_fd (heap p) = fd" "m_evloop (heap p)" "0 \<le> fd" "fd < FD_SETSIZE"
  shows "\<exists>s. select_one t n fds p (heap, allready) = Inr (heap(p := s), if is_selected fds fd then map_insert fd p allready else allready) \<and>
    m_fd s = fd \<and> m_evloop s \<and> m_sockev s = selected fds fd"
proof -
  obtain r wr e where fds: "fds = (r, wr, e)" by (cases fds)
  define s0 where "s0 = (heap p)\<lparr>m_sockev := selected fds fd\<rparr>"
  have s0: "m_fd s0 = fd" "m_evloop s0" "m_sockev s0 = selected fds fd" using assms(2,3) by (simp_all add: s0_def)
  obtain s1 where s1: "RenewTimeout t n s0 = Inr s1" "m_fd s1 = fd" "m_evloop s1" "m_sockev s1 = selected fds fd"
    using RenewTimeout_ok [OF assms(1) s0(2), of n] s0 by auto
  obtain s2 where s2: "UpdateTimeout t n s0 = Inr s2" "m_fd s2 = fd" "m_evloop s2"
    using UpdateTimeout_ok [OF assms(1) s0(2), of n] s0 by auto
  have s2e: "m_sockev s2 = selected fds fd" using UpdateTimeout_sockev [OF s2(1)] s0(3) by simp
  have fd: "fd \<noteq> - 1" using assms(4) by simp
  have "select_one t n fds p (heap, allready) = (if is_selected fds fd
      then cbind (RenewTimeout t n s0) (\<lambda>s. Inr (heap(p := s), map_insert (m_fd s) p allready))
      else cbind (UpdateTimeout t n s0) (\<lambda>s. Inr (heap(p := s), allready)))"
    using assms fd by (simp add: select_one_def fds sock_ClearEvent_def sock_AddEvent_def FD_ISSET_def ev_AddEvent_def is_selected_def
        selected_def s0_def EV_NOEVENT_def Let_def or.assoc)
  with s1 s2 s2e show ?thesis by auto
qed

lemma select_scan_ok:
  assumes "in_loop t" "map_sorted ws" "live_in ws heap" "\<forall>(fd, p) \<in> set ws. 0 \<le> fd \<and> fd < FD_SETSIZE" "map_sorted allready"
  shows "\<exists>heap' allready'. select_scan t n fds ws (heap, allready) = Inr (heap', allready') \<and> map_sorted allready' \<and>
    (\<forall>fd. map_of allready' fd = (if is_selected fds fd \<and> fd \<in> fst ` set ws then map_of ws fd else map_of allready fd)) \<and>
    (\<forall>p. p \<notin> snd ` set ws \<longrightarrow> heap' p = heap p) \<and> (\<forall>(fd, p) \<in> set ws. m_sockev (heap' p) = selected fds fd)"
  using assms
proof (induction ws arbitrary: heap allready)
  case (Cons v ws)
  obtain fd p where v: "v = (fd, p)" by (cases v)
  have p: "m_fd (heap p) = fd" "m_evloop (heap p)" "0 \<le> fd" "fd < FD_SETSIZE" using Cons.prems(3,4) v by (auto simp: live_in_def)
  let ?a = "if is_selected fds fd then map_insert fd p allready else allready"
  obtain s where s: "select_one t n fds p (heap, allready) = Inr (heap(p := s), ?a)" "m_fd s = fd" "m_evloop s" "m_sockev s = selected fds fd"
    using select_one_ok [of t heap p fd, OF Cons.prems(1) p] by blast
  have keys: "fd \<notin> fst ` set ws" "map_sorted ws" using Cons.prems(2) v by (auto simp: image_iff)
  have fresh: "p \<notin> snd ` set ws"
  proof
    assume "p \<in> snd ` set ws"
    then obtain fd' where "(fd', p) \<in> set ws" by force
    with Cons.prems(3) p(1) have "fd' = fd" by (auto simp: live_in_def)
    with \<open>(fd', p) \<in> set ws\<close> keys(1) show False by force
  qed
  have "live_in ws heap" using Cons.prems(3) by (simp add: live_in_def v)
  then have live: "live_in ws (heap(p := s))" using live_in_upd s(2,3) p(1) by simp
  have "\<forall>(fd, p) \<in> set ws. 0 \<le> fd \<and> fd < FD_SETSIZE" "map_sorted ?a" using Cons.prems(4,5) by (auto simp: v)
  from Cons.IH [OF Cons.prems(1) keys(2) live this] obtain heap' allready' where
    r: "select_scan t n fds ws (heap(p := s), ?a) = Inr (heap', allready')" "map_sorted allready'"
    "\<forall>fd'. map_of allready' fd' = (if is_selected fds fd' \<and> fd' \<in> fst ` set ws then map_of ws fd' else map_of ?a fd')"
    "\<forall>q. q \<notin> snd ` set ws \<longrightarrow> heap' q = (heap(p := s)) q" "\<forall>(fd, p) \<in> set ws. m_sockev (heap' p) = selected fds fd"
    by (elim exE conjE) (rule that)
  have "map_of allready' fd' = (if is_selected fds fd' \<and> fd' \<in> fst ` set (v # ws) then map_of (v # ws) fd' else map_of allready fd')" for fd'
    using r(3) keys(1) Cons.prems(5) by (auto simp: v map_of_insert)
  moreover have "heap' p = s" using r(4) fresh by simp
  ultimately show ?case using s(1,4) r by (intro exI [of _ heap'] exI [of _ allready']) (auto simp: v)
qed simp

lemma select_wait_ok:
  assumes "in_loop t" "m_running w" "map_sorted (m_waiting_tcpsocks w)"
    and "\<forall>(fd, p)\<in>set (m_waiting_tcpsocks w). (IsClosed (heap p) \<and> m_allactive w AND REMOVED \<noteq> 0) \<or>
      (\<not> IsClosed (heap p) \<and> m_fd (heap p) = fd \<and> m_evloop (heap p))"
    and "\<forall>(fd, p)\<in>set (m_waiting_tcpsocks w). 0 \<le> fd \<and> fd < FD_SETSIZE"
  shows "\<exists>ready w' heap'. Select_Wait t n w heap (Selected k r wr e) = Inr (int k, ready, w', heap') \<and>
    m_waiting_tcpsocks w' = filter (\<lambda>(fd, p). \<not> IsClosed (heap p)) (m_waiting_tcpsocks w) \<and>
    (\<forall>fd. map_of ready fd = (if is_selected (r, wr, e) fd then map_of (m_waiting_tcpsocks w') fd else None)) \<and>
    (\<forall>fd p. map_of (m_waiting_tcpsocks w') fd = Some p \<longrightarrow> m_sockev (heap' p) = selected (r, wr, e) fd)"
proof -
  define ws where "ws = filter (\<lambda>(fd, p). \<not> IsClosed (heap p)) (m_waiting_tcpsocks w)"
  obtain notifytype w1 where nt: "GetAndClearNotify w = (notifytype, w1)" by (cases "GetAndClearNotify w")
  obtain w2 where w2: "(if notifytype AND REMOVED \<noteq> 0 then ClearClosedTcpSock t w1 heap else Inr w1) = Inr w2"
    "m_waiting_tcpsocks w2 = ws" "live_in ws heap"
    using live_after_clear [OF assms(4,1,2) nt] by (auto simp: ws_def)
  have sorted: "map_sorted ws" using assms(3) by (simp add: ws_def map_sorted_filter)
  have "\<forall>(fd, p)\<in>set ws. 0 \<le> fd \<and> fd < FD_SETSIZE" using assms(5) by (auto simp: ws_def)
  from select_scan_ok [OF assms(1) sorted w2(3) this, of "[]" n "(r, wr, e)"] obtain heap' ready where
    sc: "select_scan t n (r, wr, e) ws (heap, []) = Inr (heap', ready)"
    "\<forall>fd. map_of ready fd = (if is_selected (r, wr, e) fd \<and> fd \<in> fst ` set ws then map_of ws fd else map_of [] fd)"
    "\<forall>(fd, p) \<in> set ws. m_sockev (heap' p) = selected (r, wr, e) fd" by auto
  have "map_of ws fd = None" if "fd \<notin> fst ` set ws" for fd using that by (simp add: map_of_eq_None_iff)
  then have ready: "map_of ready fd = (if is_selected (r, wr, e) fd then map_of ws fd else None)" for fd using sc(2) by auto
  have "Select_Wait t n w heap (Selected k r wr e) = Inr (int k, ready, w2, heap')"
    using nt w2(1,2) sc(1) by (simp add: Select_Wait_def Let_def)
  with ready sc(3) w2(2) map_of_in_set [OF sorted] show ?thesis
    by (intro exI [of _ ready] exI [of _ w2] exI [of _ heap']) (auto simp: ws_def)
qed


definition demo_select :: SelectWaiter where
  "demo_select = SockWaiter.extend (demo_waiter\<lparr>m_waiting_tcpsocks := [(7, 7), (8, 8), (9, 9)], m_allactive := REMOVED\<rparr>)
     (SelectWaiter.fields {3, 7, 9} {} {} 9)"

abbreviation demo_epoll :: SockWaiter where
  "demo_epoll \<equiv> demo_waiter\<lparr>m_waiting_tcpsocks := [(7, 7), (8, 8), (9, 9)], m_allactive := REMOVED\<rparr>"


end
