(* ===== verification/Handler_Mgr.thy ===== *)
theory Handler_Mgr
  imports Bus_Prelude
begin

text \<open>
  The manager of handler objects, \<^verbatim>\<open>src/Core/MsgHandlerMgr.h\<close>: one shared object per class name, made on first use. The C++ classes
  are the type \<open>'t\<close>, with their static \<open>ClassName()\<close> and the inheritance that \<open>dynamic_pointer_cast\<close> tests
  as arguments. Objects are numbered; calls of the virtual \<open>InitMsgHandler\<close> are logged.
\<close>

section \<open>Model\<close>

record 't HandlerMgr =
  m_all_handlers :: "byte list \<Rightarrow> nat option option"
  obj_class :: "nat \<Rightarrow> 't"
  next_obj :: nat
  init_calls :: "nat list"

text \<open>\<open>new T()\<close>\<close>

definition new_object :: "'t \<Rightarrow> 't HandlerMgr \<Rightarrow> 't HandlerMgr" where
  "new_object T st = st\<lparr>obj_class := (obj_class st)(next_obj st := T), next_obj := next_obj st + 1\<rparr>"

definition GetInstance ::
  "('t \<Rightarrow> byte list) \<Rightarrow> ('t \<Rightarrow> 't \<Rightarrow> bool) \<Rightarrow> 't \<Rightarrow> bool \<Rightarrow> 't HandlerMgr \<Rightarrow> nat option \<times> 't HandlerMgr" where
  "GetInstance ClassName derives T registerhandler st =
     (let classname = ClassName T;
          (it, needreg, st) =
            (case m_all_handlers st classname of
               Some (Some a) \<Rightarrow> (a, False, st)
             | _ \<Rightarrow> (next_obj st, True, (new_object T st)\<lparr>m_all_handlers := (m_all_handlers st)(classname \<mapsto> Some (next_obj st))\<rparr>));
          realsp = (if derives (obj_class st it) T then Some it else None) in
      (realsp, if realsp \<noteq> None \<and> registerhandler \<and> needreg then st\<lparr>init_calls := init_calls st @ [it]\<rparr> else st))"

definition CreateInstance :: "'t \<Rightarrow> bool \<Rightarrow> 't HandlerMgr \<Rightarrow> nat \<times> 't HandlerMgr" where
  "CreateInstance T registerhandler st =
     (let sp = next_obj st; st = new_object T st in
      (sp, if registerhandler then st\<lparr>init_calls := init_calls st @ [sp]\<rparr> else st))"

definition DropInstance :: "byte list \<Rightarrow> 't HandlerMgr \<Rightarrow> 't HandlerMgr" where
  "DropInstance classname st = st\<lparr>m_all_handlers := (m_all_handlers st)(classname := None)\<rparr>"

definition DropAllInstance :: "'t HandlerMgr \<Rightarrow> 't HandlerMgr" where
  "DropAllInstance st = st\<lparr>m_all_handlers := (\<lambda>_. None)\<rparr>"

text \<open>Any sequence of calls.\<close>

datatype 't mgr_call = Get 't bool | Create 't bool | DropOne "byte list" | DropAll

fun mgr_op :: "('t \<Rightarrow> byte list) \<Rightarrow> ('t \<Rightarrow> 't \<Rightarrow> bool) \<Rightarrow> 't mgr_call \<Rightarrow> 't HandlerMgr \<Rightarrow> 't HandlerMgr" where
  "mgr_op cn der (Get T r) st = snd (GetInstance cn der T r st)"
| "mgr_op cn der (Create T r) st = snd (CreateInstance T r st)"
| "mgr_op cn der (DropOne c) st = DropInstance c st"
| "mgr_op cn der DropAll st = DropAllInstance st"

definition empty_mgr :: "'t \<Rightarrow> 't HandlerMgr" where
  "empty_mgr T = \<lparr>m_all_handlers = (\<lambda>_. None), obj_class = (\<lambda>_. T), next_obj = 0, init_calls = []\<rparr>"

fun keeps_class :: "byte list \<Rightarrow> 't mgr_call \<Rightarrow> bool" where
  "keeps_class c (DropOne c') \<longleftrightarrow> c \<noteq> c'"
| "keeps_class c DropAll \<longleftrightarrow> False"
| "keeps_class c _ \<longleftrightarrow> True"

section \<open>Lemmas\<close>

lemmas mgr_defs = GetInstance_def CreateInstance_def DropInstance_def DropAllInstance_def new_object_def Let_def

text \<open>Every object in the table or initialised was created, and none was initialised twice.\<close>

definition mgr_inv :: "'t HandlerMgr \<Rightarrow> bool" where
  "mgr_inv st \<longleftrightarrow> distinct (init_calls st) \<and> (\<forall>a\<in>set (init_calls st). a < next_obj st) \<and>
     (\<forall>c a. m_all_handlers st c = Some (Some a) \<longrightarrow> a < next_obj st)"

lemma mgr_inv_op: "mgr_inv st \<Longrightarrow> mgr_inv (mgr_op cn der op st)"
  by (cases op) (auto simp: mgr_inv_def mgr_defs less_Suc_eq split: option.splits if_splits)

lemma mgr_inv_run: "mgr_inv st \<Longrightarrow> mgr_inv (fold (mgr_op cn der) ops st)"
  by (induction ops arbitrary: st) (auto intro: mgr_inv_op)

lemma mgr_op_keeps:
  assumes "mgr_inv st" "m_all_handlers st c = Some (Some a)" "keeps_class c op"
  shows "m_all_handlers (mgr_op cn der op st) c = Some (Some a) \<and> obj_class (mgr_op cn der op st) a = obj_class st a"
proof -
  have "a < next_obj st" using assms by (auto simp: mgr_inv_def)
  then show ?thesis using assms by (cases op) (auto simp: mgr_defs split: option.splits)
qed

lemma mgr_run_keeps:
  assumes "mgr_inv st" "m_all_handlers st c = Some (Some a)" "list_all (keeps_class c) ops"
  shows "m_all_handlers (fold (mgr_op cn der) ops st) c = Some (Some a) \<and> obj_class (fold (mgr_op cn der) ops st) a = obj_class st a"
  using assms
proof (induction ops arbitrary: st)
  case (Cons op ops)
  then show ?case using mgr_op_keeps [of st c a op cn der] mgr_inv_op [of st cn der op] by simp
qed simp

lemma GetInstance_entry:
  "GetInstance cn der T r st = (Some a, st') \<Longrightarrow> m_all_handlers st' (cn T) = Some (Some a) \<and> der (obj_class st' a) T"
  by (auto simp: mgr_defs split: option.splits if_splits)

lemma GetInstance_present:
  "m_all_handlers st (cn T) = Some (Some a) \<Longrightarrow> der (obj_class st a) T \<Longrightarrow> GetInstance cn der T r st = (Some a, st)"
  by (simp add: mgr_defs)

section \<open>Properties\<close>

text \<open>
  Objects got from the handler manager are shared: after \<open>GetInstance\<close> returned an object, every later call for the same class
  returns that object, and neither makes nor initialises another, whatever other calls come between that do not
  drop this class. Over every history no object is initialised twice.
\<close>

theorem handler_singleton:
  assumes "st = fold (mgr_op ClassName derives) ops0 (empty_mgr T0)"
    and "GetInstance ClassName derives T r st = (Some a, st1)"
    and "list_all (keeps_class (ClassName T)) ops"
  shows "GetInstance ClassName derives T r' (fold (mgr_op ClassName derives) ops st1) = (Some a, fold (mgr_op ClassName derives) ops st1) \<and>
    distinct (init_calls (fold (mgr_op ClassName derives) ops st1))"
proof -
  have "mgr_inv (empty_mgr T0)" by (simp add: mgr_inv_def empty_mgr_def)
  then have "mgr_inv st" unfolding assms(1) by (rule mgr_inv_run)
  then have inv: "mgr_inv st1" using mgr_inv_op [of st ClassName derives "Get T r"] assms(2) by simp
  have "mgr_inv (fold (mgr_op ClassName derives) ops st1)" using inv by (rule mgr_inv_run)
  then show ?thesis
    using GetInstance_entry [OF assms(2)] mgr_run_keeps [OF inv _ assms(3)]
    by (auto simp: mgr_inv_def intro!: GetInstance_present)
qed

theorem handler_singleton_witness:
  "GetInstance (\<lambda>c. [c]) (=) (1 :: byte) True (fold (mgr_op (\<lambda>c. [c]) (=)) [Get 2 True, DropOne [2]] (snd (GetInstance (\<lambda>c. [c]) (=) 1 True (empty_mgr 0))))
     = (Some 0, fold (mgr_op (\<lambda>c. [c]) (=)) [Get 2 True, DropOne [2]] (snd (GetInstance (\<lambda>c. [c]) (=) 1 True (empty_mgr 0))))"
  using handler_singleton [of "empty_mgr 0" "\<lambda>c. [c]" "(=)" "[]" "0 :: byte" 1 True 0
      "snd (GetInstance (\<lambda>c. [c]) (=) 1 True (empty_mgr 0))" "[Get 2 True, DropOne [2]]" True]
  by (simp add: mgr_defs empty_mgr_def)

text \<open>
  The first call decides: when it does not register the handlers, no later \<open>GetInstance\<close> does. And a class that
  shares its \<open>ClassName()\<close> with an unrelated one gets a null pointer.
\<close>

lemma unregistered_stays:
  "GetInstance cn der T False st = (Some a, st1) \<Longrightarrow> snd (GetInstance cn der T True st1) = st1"
  using GetInstance_entry [of cn der T False st a st1] GetInstance_present [of st1 cn T a der True] by simp

lemma shared_name_null:
  "GetInstance cn der T r st = (Some a, st1) \<Longrightarrow> cn T' = cn T \<Longrightarrow> \<not> der (obj_class st1 a) T' \<Longrightarrow>
   GetInstance cn der T' r' st1 = (None, st1)"
  using GetInstance_entry [of cn der T r st a st1] by (simp add: mgr_defs)

end
