(* ===== verification/Client_Api.thy ===== *)
theory Client_Api
  imports Server_Conn Event_Loop Handler_Mgr
begin

text \<open>
  The entry points of a client of the network bus: \<^verbatim>\<open>src/Core/msgbus_client.cpp\<close>, the \<open>NetMsgBus...\<close> functions of
  \<^verbatim>\<open>src/Core/msgbus_interface.cpp\<close>, and the start and stop of the request thread and of the receiver's thread.

  The state has the three static objects of \<^verbatim>\<open>msgbus_client.cpp\<close>, the table of handler objects and the request
  managers, which are objects of that table. The event loops and sockets are those of the whole process:
  \<open>on_srv\<close>, \<open>on_req\<close> and \<open>on_recv\<close> hand them to the component that runs, with the receiver's name, which the request manager
  reads through its pointer. What a call gets from the system and from other threads is the record \<open>client_env\<close>. A call that never
  returns (the process exits, or a wait has no end) has the result \<open>None\<close>.
\<close>

section \<open>State\<close>

datatype handler_class = Req2ReceiverClass | UserClass nat

fun class_name :: "(nat \<Rightarrow> byte list) \<Rightarrow> handler_class \<Rightarrow> byte list" where
  "class_name users Req2ReceiverClass = lit ''Req2ReceiverMgr''"
| "class_name users (UserClass n) = users n"

text \<open>A request manager with the id of its thread; 0 stands for no thread.\<close>

record 'r ReqObject =
  req_mgr :: "'r Req2ReceiverMgr"
  m_req2receiver_tid :: nat

record ('s, 'r) msgbus_client =
  s_server_connmgr :: "'s ServerConnMgr"
  s_receiver_mgr :: ReceiverMgr
  m_localport :: u16
  sp_req2receiver_mgr :: "nat option"
  req_objects :: "nat \<Rightarrow> 'r ReqObject"
  handler_objects :: "handler_class HandlerMgr"
  cnet :: net_state

record ('s, 'r) client_env =
  srv_env :: "'s srv_env"
  again_env :: "'s srv_env"
  req_env :: "'r req_env"
  consumed :: "byte list \<Rightarrow> nat"
  raw_task :: "u32 \<times> u32"
  raw_tid :: nat
  time_now :: int
  serialize :: "byte list \<Rightarrow> byte list"
  attempt :: conn_attempt
  main_loop :: "EventLoop option"
  post_loop :: "EventLoop option"
  req_thread :: "nat option"
  recv_thread :: bool
  free_port :: "u16 \<Rightarrow> bool"
  fd_flags_ok :: bool
  selects :: "int list"
  recv_handler :: SockHandler
  user_class :: "nat \<Rightarrow> byte list"

definition on_srv ::
  "('s ServerConnMgr \<Rightarrow> ('a \<times> 's ServerConnMgr) cres) \<Rightarrow> ('s, 'r) msgbus_client \<Rightarrow> ('a \<times> ('s, 'r) msgbus_client) cres" where
  "on_srv f c =
     cbind (f ((s_server_connmgr c)\<lparr>srv_net := cnet c\<rparr>)) (\<lambda>(r, m).
       Inr (r, c\<lparr>s_server_connmgr := m, cnet := srv_net m\<rparr>))"

definition on_req ::
  "nat \<Rightarrow> ('r Req2ReceiverMgr \<Rightarrow> ('a \<times> 'r Req2ReceiverMgr) cres) \<Rightarrow> ('s, 'r) msgbus_client \<Rightarrow> ('a \<times> ('s, 'r) msgbus_client) cres" where
  "on_req a f c =
     (let ob = req_objects c a; m = req_mgr ob in
      cbind (f (m\<lparr>net := cnet c, m_server_connmgr := map_option (\<lambda>_. m_receiver_name (s_server_connmgr c)) (m_server_connmgr m)\<rparr>)) (\<lambda>(r, m).
        Inr (r, c\<lparr>req_objects := (req_objects c)(a := ob\<lparr>req_mgr := m\<rparr>), cnet := net m\<rparr>)))"

section \<open>The request thread\<close>

text \<open>The constructor leaves the thread id uninitialised.\<close>

definition new_Req2ReceiverMgr :: "net_state \<Rightarrow> nat \<Rightarrow> 'r ReqObject" where
  "new_Req2ReceiverMgr ns raw =
     \<lparr>req_mgr = \<lparr>m_reqtoreceiver_task_container = [], m_wait2send_task_container = Map.empty, m_cached_client_info = Map.empty,
        future_mgr = new_FutureMgr, m_server_connmgr = None, m_req2receiver_running = False, m_req2receiver_terminate = False,
        m_sendmsg_client_conn_pool = new_TcpClientPool, m_postmsg_client_conn_pool = new_TcpClientPool, net = ns,
        server_requests = [], local_posts = [], named_work = [], callbacks_run = []\<rparr>,
      m_req2receiver_tid = raw\<rparr>"

text \<open>
  \<open>Start\<close> returns when the new thread has set its flag; the thread's first act is to create the loop for posted
  messages (\<open>started\<close>, when its own thread could be started).
\<close>

definition Req2Receiver_Start :: "nat option \<Rightarrow> EventLoop option \<Rightarrow> 'r ReqObject \<Rightarrow> EventLoopPool \<Rightarrow> bool \<times> 'r ReqObject \<times> EventLoopPool" where
  "Req2Receiver_Start created started ob ep =
     (if m_req2receiver_running (req_mgr ob) then (True, ob, ep)
      else
        let ob = ob\<lparr>req_mgr := (req_mgr ob)\<lparr>m_req2receiver_terminate := False\<rparr>, m_req2receiver_tid := 0\<rparr> in
        case created of
          None \<Rightarrow> (False, ob, ep)
        | Some tid \<Rightarrow>
            (True, ob\<lparr>req_mgr := (req_mgr ob)\<lparr>m_req2receiver_running := True\<rparr>, m_req2receiver_tid := tid\<rparr>,
             snd (CreateEventLoop ep POSTMSG_LOOP started)))"

text \<open>
  \<open>pthread_join\<close> on the request thread, whose rounds go on until it finds its queue empty; joining a thread that is not
  there is undefined. \<open>RemoveAllHandlers\<close> has nothing to do: this class registers no handler.
\<close>

definition join_request_thread :: "'r Req2ReceiverMgr \<Rightarrow> 'r Req2ReceiverMgr cres" where
  "join_request_thread m =
     (if \<not> m_req2receiver_running m then Inl OutOfBounds
      else
        let m = ProcessReq2Receiver_round m in
        Inr (if m_req2receiver_running m then ProcessReq2Receiver_round m else m))"

definition Req2Receiver_Stop :: "int \<Rightarrow> 'r ReqObject \<Rightarrow> EventLoopPool \<Rightarrow> ('r ReqObject \<times> EventLoopPool) cres" where
  "Req2Receiver_Stop t ob ep =
     (let m = (req_mgr ob)\<lparr>future_mgr := safe_clear_bad_future t (future_mgr (req_mgr ob)), m_req2receiver_terminate := True\<rparr> in
      cbind (if m_req2receiver_tid ob \<noteq> 0 then join_request_thread m else Inr m) (\<lambda>m.
        Inr (ob\<lparr>req_mgr := m\<rparr>, snd (pool_TerminateLoop ep POSTMSG_LOOP))))"

section \<open>The receiver's thread\<close>

text \<open>
  \<open>StartReceiver\<close>: the thread looks for a free port and exits the process when it finds none; when the flags of the listening
  socket cannot be set it returns without setting \<open>m_receiver_running\<close>, and the caller waits for ever.
\<close>

definition StartReceiver :: "('s, 'r) client_env \<Rightarrow> ReceiverMgr \<Rightarrow> u16 \<Rightarrow> (bool \<times> u16 \<times> ReceiverMgr) option" where
  "StartReceiver env m clientport =
     (if m_receiver_running m then Some (False, clientport, m)
      else
        let m = m\<lparr>m_receiver_terminate := False\<rparr> in
        if \<not> recv_thread env then Some (False, clientport, m)
        else case bind_loop (free_port env) 10 clientport of
          None \<Rightarrow> None
        | Some port \<Rightarrow>
            if \<not> fd_flags_ok env then None
            else Some (True, port, m\<lparr>m_receiver_running := True, m_sendmsg_clientnum := 0\<rparr>))"

text \<open>Joining the thread: its rounds with the results of \<open>select\<close>, until it sees the flag.\<close>

fun join_receiver_thread :: "int \<Rightarrow> SockHandler \<Rightarrow> int list \<Rightarrow> ReceiverMgr \<Rightarrow> ReceiverMgr option cres" where
  "join_receiver_thread t cb [] m = Inr None"
| "join_receiver_thread t cb (retcode # rs) m =
     cbind (receiver_accept t cb m retcode None) (\<lambda>(m, go_on).
       if go_on then join_receiver_thread t cb rs m else Inr (Some m))"

definition StopReceiver :: "('s, 'r) client_env \<Rightarrow> ReceiverMgr \<Rightarrow> ReceiverMgr option cres" where
  "StopReceiver env m =
     (let m = m\<lparr>m_receiver_terminate := True\<rparr> in
      if m_receiver_running m then join_receiver_thread (time_now env) (recv_handler env) (selects env) m
      else Inr (Some m))"

section \<open>Sending\<close>

text \<open>The request manager's synchronous question to the server, when it has no address for the name.\<close>

definition asks_server :: "'r Req2ReceiverMgr \<Rightarrow> byte list \<Rightarrow> bool" where
  "asks_server m name \<longleftrightarrow>
     name \<noteq> [] \<and> m_req2receiver_running m \<and> safe_get_cached_host_info m name = None \<and> m_server_connmgr m \<noteq> None"

definition msgbus_sendmsg_direct_to_client ::
  "('s, 'r) client_env \<Rightarrow> ('s, 'r) msgbus_client \<Rightarrow> byte list \<Rightarrow> u32 \<Rightarrow> byte list option \<Rightarrow> byte list \<Rightarrow> int \<Rightarrow>
     ((bool \<times> byte list) \<times> ('s, 'r) msgbus_client) cres" where
  "msgbus_sendmsg_direct_to_client env c name dlen d rsp0 timeout_sec =
     (if name = [] then Inr ((False, rsp0), c)
      else case sp_req2receiver_mgr c of
        None \<Rightarrow> Inr ((False, rsp0), c)
      | Some a \<Rightarrow>
          cbind (if asks_server (req_mgr (req_objects c a)) name
                 then on_srv (\<lambda>m. ReqReceiverInfo (srv_env env) m name None) c else Inr ((False, None), c)) (\<lambda>((ok, host), c).
          on_req a (\<lambda>m. SendMsgDirectToClient (consumed env) (req_env env) (raw_task env) (time_now env)
            (if ok then host else None) m name dlen d rsp0 timeout_sec) c))"

definition msgbus_sendmsg_direct_to_client_ip ::
  "('s, 'r) client_env \<Rightarrow> ('s, 'r) msgbus_client \<Rightarrow> LocalHostInfo \<Rightarrow> u32 \<Rightarrow> byte list option \<Rightarrow> byte list \<Rightarrow> int \<Rightarrow>
     ((bool \<times> byte list) \<times> ('s, 'r) msgbus_client) cres" where
  "msgbus_sendmsg_direct_to_client_ip env c dest dlen d rsp0 timeout_sec =
     (if fst dest = [] then Inr ((False, rsp0), c)
      else case sp_req2receiver_mgr c of
        None \<Rightarrow> Inr ((False, rsp0), c)
      | Some a \<Rightarrow>
          on_req a (\<lambda>m. SendMsgDirectToClient_ip (consumed env) (req_env env) (raw_task env) (time_now env)
            m dest dlen d rsp0 timeout_sec) c)"

text \<open>The port is passed by reference: the receiver's thread may have chosen another one.\<close>

definition msgbus_register_client_receiver ::
  "('s, 'r) client_env \<Rightarrow> ('s, 'r) msgbus_client \<Rightarrow> byte list \<Rightarrow> u16 \<Rightarrow> byte list \<Rightarrow> u32 \<Rightarrow>
     ((bool \<times> u16) \<times> ('s, 'r) msgbus_client) option cres" where
  "msgbus_register_client_receiver env c clientip clientport cname busy_state =
     (let register = (\<lambda>c port. cmap (\<lambda>(r, c). Some ((r, port), c))
            (on_srv (\<lambda>m. RegisterNetMsgBusReceiver (srv_env env) m clientip port cname busy_state) c)) in
      if clientport = 0 then register c clientport
      else case StartReceiver env (s_receiver_mgr c) clientport of
        None \<Rightarrow> Inr None
      | Some (started, port, m) \<Rightarrow>
          let c = c\<lparr>s_receiver_mgr := m, m_localport := (if m_receiver_running (s_receiver_mgr c) then m_localport c else port)\<rparr> in
          if \<not> started then Inr (Some ((False, port), c)) else register c port)"

definition msgbus_unregister_client_receiver ::
  "('s, 'r) client_env \<Rightarrow> ('s, 'r) msgbus_client \<Rightarrow> (bool \<times> ('s, 'r) msgbus_client) cres" where
  "msgbus_unregister_client_receiver env c = on_srv (UnRegisterNetMsgBusReceiver (srv_env env)) c"

definition msgbus_update_receiver_busystate ::
  "('s, 'r) client_env \<Rightarrow> ('s, 'r) msgbus_client \<Rightarrow> u32 \<Rightarrow> (bool \<times> ('s, 'r) msgbus_client) cres" where
  "msgbus_update_receiver_busystate env c busy_state = on_srv (\<lambda>m. UpdateReceiverBusyState (srv_env env) m busy_state) c"

definition msgbus_postmsg_use_server_relay ::
  "('s, 'r) client_env \<Rightarrow> ('s, 'r) msgbus_client \<Rightarrow> byte list \<Rightarrow> u32 \<Rightarrow> byte list option \<Rightarrow> (bool \<times> ('s, 'r) msgbus_client) cres" where
  "msgbus_postmsg_use_server_relay env c name dlen d = on_srv (\<lambda>m. PostNetMsgUseServerRelay (srv_env env) m name dlen d) c"

definition msgbus_postmsg_broadcast ::
  "('s, 'r) client_env \<Rightarrow> ('s, 'r) msgbus_client \<Rightarrow> u32 \<Rightarrow> byte list option \<Rightarrow> (bool \<times> ('s, 'r) msgbus_client) cres" where
  "msgbus_postmsg_broadcast env c dlen d = msgbus_postmsg_use_server_relay env c [] dlen d"

definition msgbus_postmsg_direct_to_client ::
  "('s, 'r) client_env \<Rightarrow> ('s, 'r) msgbus_client \<Rightarrow> byte list \<Rightarrow> u32 \<Rightarrow> byte list option \<Rightarrow> 'r option \<Rightarrow>
     (nat option \<times> ('s, 'r) msgbus_client) cres" where
  "msgbus_postmsg_direct_to_client env c name dlen d cb =
     (case sp_req2receiver_mgr c of
        None \<Rightarrow> Inr (None, c)
      | Some a \<Rightarrow> on_req a (\<lambda>m. PostMsgDirectToClient (raw_task env) (time_now env) m name dlen d cb) c)"

definition msgbus_postmsg_direct_to_client_ip ::
  "('s, 'r) client_env \<Rightarrow> ('s, 'r) msgbus_client \<Rightarrow> LocalHostInfo \<Rightarrow> u32 \<Rightarrow> byte list option \<Rightarrow> 'r option \<Rightarrow>
     (nat option \<times> ('s, 'r) msgbus_client) cres" where
  "msgbus_postmsg_direct_to_client_ip env c dest dlen d cb =
     (if fst dest = [] then Inr (None, c)
      else case sp_req2receiver_mgr c of
        None \<Rightarrow> Inr (None, c)
      | Some a \<Rightarrow> on_req a (\<lambda>m. PostMsgDirectToClient_ip (raw_task env) (time_now env) m dest dlen d cb) c)"

definition msgbus_req_receiver_info ::
  "('s, 'r) client_env \<Rightarrow> ('s, 'r) msgbus_client \<Rightarrow> byte list \<Rightarrow> ((bool \<times> LocalHostInfo option) \<times> ('s, 'r) msgbus_client) cres" where
  "msgbus_req_receiver_info env c name = on_srv (\<lambda>m. ReqReceiverInfo (srv_env env) m name None) c"

definition msgbus_query_available_services ::
  "('s, 'r) client_env \<Rightarrow> ('s, 'r) msgbus_client \<Rightarrow> byte list \<Rightarrow> ((bool \<times> byte list) \<times> ('s, 'r) msgbus_client) cres" where
  "msgbus_query_available_services env c match_str =
     on_srv (\<lambda>m. QueryAvailableServices (srv_env env) (serialize env) m match_str) c"

section \<open>Start and end of a client\<close>

text \<open>\<open>MsgHandlerMgr::GetInstance(sp_req2receiver_mgr, false)\<close>; a new object is constructed.\<close>

definition get_req2receiver_mgr :: "('s, 'r) client_env \<Rightarrow> ('s, 'r) msgbus_client \<Rightarrow> ('s, 'r) msgbus_client" where
  "get_req2receiver_mgr env c =
     (case GetInstance (class_name (user_class env)) (=) Req2ReceiverClass False (handler_objects c) of (sp, hs) \<Rightarrow>
        c\<lparr>sp_req2receiver_mgr := sp, handler_objects := hs,
          req_objects := (if next_obj hs \<noteq> next_obj (handler_objects c)
            then (req_objects c)(next_obj (handler_objects c) := new_Req2ReceiverMgr (cnet c) (raw_tid env)) else req_objects c)\<rparr>)"

definition SetServerConnMgr :: "byte list option \<Rightarrow> 'r ReqObject \<Rightarrow> 'r ReqObject" where
  "SetServerConnMgr pmgr ob = ob\<lparr>req_mgr := (req_mgr ob)\<lparr>m_server_connmgr := pmgr\<rparr>\<rparr>"

definition init_netmsgbus_client ::
  "('s, 'r) client_env \<Rightarrow> ('s, 'r) msgbus_client \<Rightarrow> byte list \<Rightarrow> u16 \<Rightarrow> (bool \<times> ('s, 'r) msgbus_client) cres" where
  "init_netmsgbus_client env c serverip serverport =
     (case CreateEventLoop (loops (cnet c)) NETMSGBUS_EVLOOP_NAME (main_loop env) of (created, ep) \<Rightarrow>
      let c = c\<lparr>cnet := (cnet c)\<lparr>loops := ep\<rparr>\<rparr> in
      if \<not> created then Inr (False, c)
      else
        cbind (on_srv (\<lambda>m. StartServerCommunicateLoop worker (time_now env) (attempt env) (consumed env) m serverip serverport) c) (\<lambda>(_, c).
        let c = get_req2receiver_mgr env c in
        case sp_req2receiver_mgr c of
          None \<Rightarrow> Inr (False, c)
        | Some a \<Rightarrow>
            let ob = SetServerConnMgr (Some (m_receiver_name (s_server_connmgr c))) (req_objects c a);
                (ok, ob, ep) = Req2Receiver_Start (req_thread env) (post_loop env) ob (loops (cnet c)) in
            Inr (ok, c\<lparr>req_objects := (req_objects c)(a := ob), cnet := (cnet c)\<lparr>loops := ep\<rparr>\<rparr>)))"

definition disconnect_from_server :: "('s, 'r) client_env \<Rightarrow> ('s, 'r) msgbus_client \<Rightarrow> ('s, 'r) msgbus_client cres" where
  "disconnect_from_server env c =
     cbind (msgbus_unregister_client_receiver env c) (\<lambda>(_, c).
     cmap snd (on_srv (\<lambda>m. cmap (Pair ()) (StopServerConnection worker (again_env env) m)) c))"

text \<open>The parts of \<open>destroy_netmsgbus_client\<close> that test the pointer, and the whole.\<close>

definition stop_requests :: "('s, 'r) client_env \<Rightarrow> ('s, 'r) msgbus_client \<Rightarrow> ('s, 'r) msgbus_client cres" where
  "stop_requests env c =
     (case sp_req2receiver_mgr c of
        None \<Rightarrow> Inr c
      | Some a \<Rightarrow>
          cbind (Req2Receiver_Stop (time_now env) (req_objects c a) (loops (cnet c))) (\<lambda>(ob, ep).
            Inr (c\<lparr>req_objects := (req_objects c)(a := ob), cnet := (cnet c)\<lparr>loops := ep\<rparr>\<rparr>)))"

definition forget_server :: "('s, 'r) msgbus_client \<Rightarrow> ('s, 'r) msgbus_client" where
  "forget_server c =
     (case sp_req2receiver_mgr c of
        None \<Rightarrow> c
      | Some a \<Rightarrow> c\<lparr>req_objects := (req_objects c)(a := SetServerConnMgr None (req_objects c a))\<rparr>)"

definition destroy_netmsgbus_client :: "('s, 'r) client_env \<Rightarrow> ('s, 'r) msgbus_client \<Rightarrow> ('s, 'r) msgbus_client option cres" where
  "destroy_netmsgbus_client env c =
     cbind (StopReceiver env (s_receiver_mgr c)) (\<lambda>r.
     case r of None \<Rightarrow> Inr None | Some rm \<Rightarrow>
       cbind (stop_requests env (c\<lparr>s_receiver_mgr := rm\<rparr>)) (\<lambda>c.
       cbind (disconnect_from_server env c) (\<lambda>c.
       let c = forget_server c;
           c = c\<lparr>cnet := (cnet c)\<lparr>loops := snd (pool_TerminateLoop (loops (cnet c)) NETMSGBUS_EVLOOP_NAME)\<rparr>\<rparr> in
       if sp_req2receiver_mgr c = None then Inl AssertFailed
       else Inr (Some (c\<lparr>handler_objects := DropInstance (class_name (user_class env) Req2ReceiverClass) (handler_objects c),
              sp_req2receiver_mgr := None\<rparr>)))))"

section \<open>The functions of the application\<close>

definition SendDirectToClient :: int where "SendDirectToClient = 1"
definition SendUseServerRelay :: int where "SendUseServerRelay = 2"

definition NetMsgBusConnectServer ::
  "('s, 'r) client_env \<Rightarrow> ('s, 'r) msgbus_client \<Rightarrow> byte list \<Rightarrow> u16 \<Rightarrow> (int \<times> ('s, 'r) msgbus_client) cres" where
  "NetMsgBusConnectServer env c serverip serverport =
     cmap (\<lambda>(ok, c). (if ok then 0 else 1, c)) (init_netmsgbus_client env c serverip serverport)"

definition NetMsgBusRegReceiver ::
  "('s, 'r) client_env \<Rightarrow> ('s, 'r) msgbus_client \<Rightarrow> byte list \<Rightarrow> byte list \<Rightarrow> u16 \<Rightarrow> ((int \<times> u16) \<times> ('s, 'r) msgbus_client) option cres" where
  "NetMsgBusRegReceiver env c name hostip hostport =
     cmap (map_option (\<lambda>((ok, port), c). ((if ok then 0 else 2, port), c)))
       (msgbus_register_client_receiver env c hostip hostport name 0)"

definition NetMsgBusDisConnectFromServer :: "('s, 'r) client_env \<Rightarrow> ('s, 'r) msgbus_client \<Rightarrow> ('s, 'r) msgbus_client cres" where
  "NetMsgBusDisConnectFromServer env c = disconnect_from_server env c"

definition NetMsgBusDisConnectAll :: "('s, 'r) client_env \<Rightarrow> ('s, 'r) msgbus_client \<Rightarrow> ('s, 'r) msgbus_client option cres" where
  "NetMsgBusDisConnectAll env c = destroy_netmsgbus_client env c"

definition NetMsgBusSendMsg ::
  "('s, 'r) client_env \<Rightarrow> ('s, 'r) msgbus_client \<Rightarrow> byte list \<Rightarrow> byte list \<Rightarrow> MsgBusParam \<Rightarrow> int \<Rightarrow> (bool \<times> ('s, 'r) msgbus_client) cres" where
  "NetMsgBusSendMsg env c dest_name mid param sendtype =
     cbind (GenerateNetMsgContent mid param dest_name) (\<lambda>netmsg_param.
     if dest_name = [] then msgbus_postmsg_broadcast env c (paramlen netmsg_param) (paramdata netmsg_param)
     else if sendtype = SendDirectToClient then
       cmap (\<lambda>(f, c). (f \<noteq> None, c))
         (msgbus_postmsg_direct_to_client env c dest_name (paramlen netmsg_param) (paramdata netmsg_param) None)
     else if sendtype = SendUseServerRelay then
       msgbus_postmsg_use_server_relay env c dest_name (paramlen netmsg_param) (paramdata netmsg_param)
     else Inr (False, c))"

definition NetMsgBusSendMsg_ip ::
  "('s, 'r) client_env \<Rightarrow> ('s, 'r) msgbus_client \<Rightarrow> LocalHostInfo \<Rightarrow> byte list \<Rightarrow> MsgBusParam \<Rightarrow> (bool \<times> ('s, 'r) msgbus_client) cres" where
  "NetMsgBusSendMsg_ip env c dest mid param =
     cbind (GenerateNetMsgContent mid param []) (\<lambda>netmsg_param.
     cmap (\<lambda>(f, c). (f \<noteq> None, c))
       (msgbus_postmsg_direct_to_client_ip env c dest (paramlen netmsg_param) (paramdata netmsg_param) None))"

definition NetMsgBusQueryHostInfo ::
  "('s, 'r) client_env \<Rightarrow> ('s, 'r) msgbus_client \<Rightarrow> byte list \<Rightarrow> ((bool \<times> LocalHostInfo option) \<times> ('s, 'r) msgbus_client) cres" where
  "NetMsgBusQueryHostInfo env c name = msgbus_req_receiver_info env c name"

definition NetMsgBusAsyncGetData ::
  "('s, 'r) client_env \<Rightarrow> ('s, 'r) msgbus_client \<Rightarrow> byte list \<Rightarrow> byte list \<Rightarrow> MsgBusParam \<Rightarrow> 'r option \<Rightarrow>
     (nat option \<times> ('s, 'r) msgbus_client) cres" where
  "NetMsgBusAsyncGetData env c name mid param cb =
     cbind (GenerateNetMsgContent mid param name) (\<lambda>netmsg_param.
     msgbus_postmsg_direct_to_client env c name (paramlen netmsg_param) (paramdata netmsg_param) cb)"

definition NetMsgBusAsyncGetData_ip ::
  "('s, 'r) client_env \<Rightarrow> ('s, 'r) msgbus_client \<Rightarrow> LocalHostInfo \<Rightarrow> byte list \<Rightarrow> MsgBusParam \<Rightarrow> 'r option \<Rightarrow>
     (nat option \<times> ('s, 'r) msgbus_client) cres" where
  "NetMsgBusAsyncGetData_ip env c dest mid param cb =
     cbind (GenerateNetMsgContent mid param []) (\<lambda>netmsg_param.
     msgbus_postmsg_direct_to_client_ip env c dest (paramlen netmsg_param) (paramdata netmsg_param) cb)"

definition NetMsgBusGetData ::
  "('s, 'r) client_env \<Rightarrow> ('s, 'r) msgbus_client \<Rightarrow> byte list \<Rightarrow> byte list \<Rightarrow> MsgBusParam \<Rightarrow> byte list \<Rightarrow> int \<Rightarrow>
     ((bool \<times> byte list) \<times> ('s, 'r) msgbus_client) cres" where
  "NetMsgBusGetData env c name mid param rsp_data timeout_sec =
     cbind (GenerateNetMsgContent mid param name) (\<lambda>netmsg_param.
     msgbus_sendmsg_direct_to_client env c name (paramlen netmsg_param) (paramdata netmsg_param) rsp_data timeout_sec)"

definition NetMsgBusGetData_ip ::
  "('s, 'r) client_env \<Rightarrow> ('s, 'r) msgbus_client \<Rightarrow> LocalHostInfo \<Rightarrow> byte list \<Rightarrow> MsgBusParam \<Rightarrow> byte list \<Rightarrow> int \<Rightarrow>
     ((bool \<times> byte list) \<times> ('s, 'r) msgbus_client) cres" where
  "NetMsgBusGetData_ip env c dest mid param rsp_data timeout_sec =
     cbind (GenerateNetMsgContent mid param []) (\<lambda>netmsg_param.
     msgbus_sendmsg_direct_to_client_ip env c dest (paramlen netmsg_param) (paramdata netmsg_param) rsp_data timeout_sec)"

definition NetMsgBusQueryServices ::
  "('s, 'r) client_env \<Rightarrow> ('s, 'r) msgbus_client \<Rightarrow> byte list \<Rightarrow> ((int \<times> byte list) \<times> ('s, 'r) msgbus_client) cres" where
  "NetMsgBusQueryServices env c match_str =
     cmap (\<lambda>((ok, rsp), c). ((if ok then 1 else 0, rsp), c)) (msgbus_query_available_services env c match_str)"

end
