(* ===== verification/Client_Lifecycle.thy ===== *)
theory Client_Lifecycle
  imports Client_Api Server_Conn_Calls
begin

text \<open>
  The life of a client: an invariant of every history of its calls, of the rounds of its request thread, of the tasks the worker
  threads run and of the answers that arrive; and the end of a client.
\<close>

section \<open>Every history of calls\<close>

datatype 'r client_op =
    ConnectServer "byte list" u16
  | RegReceiver "byte list" "byte list" u16
  | DisConnectFromServer
  | DisConnectAll
  | SendByName "byte list" "byte list" MsgBusParam int
  | SendByAddr LocalHostInfo "byte list" MsgBusParam
  | QueryHostInfo "byte list"
  | AsyncByName "byte list" "byte list" MsgBusParam "'r option"
  | AsyncByAddr LocalHostInfo "byte list" MsgBusParam "'r option"
  | GetByName "byte list" "byte list" MsgBusParam int
  | GetByAddr LocalHostInfo "byte list" MsgBusParam int
  | QueryServices "byte list"
  | UpdateBusyState u32
  | RequestRound nat
  | RunTask nat Req2ReceiverTask
  | Answers nat "byte list"

definition returned :: "('a \<times> ('s, 'r) msgbus_client) cres \<Rightarrow> ('s, 'r) msgbus_client option cres" where
  "returned r = cmap (\<lambda>(_, c). Some c) r"

fun client_call :: "('s, 'r) client_env \<Rightarrow> 'r client_op \<Rightarrow> ('s, 'r) msgbus_client \<Rightarrow> ('s, 'r) msgbus_client option cres" where
  "client_call env (ConnectServer ip port) c = returned (NetMsgBusConnectServer env c ip port)"
| "client_call env (RegReceiver name ip port) c = cmap (map_option snd) (NetMsgBusRegReceiver env c name ip port)"
| "client_call env DisConnectFromServer c = cmap Some (NetMsgBusDisConnectFromServer env c)"
| "client_call env DisConnectAll c = NetMsgBusDisConnectAll env c"
| "client_call env (SendByName name mid param ty) c = returned (NetMsgBusSendMsg env c name mid param ty)"
| "client_call env (SendByAddr dest mid param) c = returned (NetMsgBusSendMsg_ip env c dest mid param)"
| "client_call env (QueryHostInfo name) c = returned (NetMsgBusQueryHostInfo env c name)"
| "client_call env (AsyncByName name mid param cb) c = returned (NetMsgBusAsyncGetData env c name mid param cb)"
| "client_call env (AsyncByAddr dest mid param cb) c = returned (NetMsgBusAsyncGetData_ip env c dest mid param cb)"
| "client_call env (GetByName name mid param to) c = returned (NetMsgBusGetData env c name mid param [] to)"
| "client_call env (GetByAddr dest mid param to) c = returned (NetMsgBusGetData_ip env c dest mid param [] to)"
| "client_call env (QueryServices s) c = returned (NetMsgBusQueryServices env c s)"
| "client_call env (UpdateBusyState b) c = returned (msgbus_update_receiver_busystate env c b)"
| "client_call env (RequestRound a) c = returned (on_req a (\<lambda>m. Inr ((), ProcessReq2Receiver_round m)) c)"
| "client_call env (RunTask a task) c = returned (on_req a (\<lambda>m. ProcessReqToReceiver (consumed env) (req_env env) m task []) c)"
| "client_call env (Answers a blk) c = returned (on_req a (\<lambda>m. Req2Receiver_onRead m blk) c)"

definition valid_env :: "('s, 'r) client_env \<Rightarrow> bool" where
  "valid_env env \<longleftrightarrow> req_thread env \<noteq> Some 0"

inductive client_reach :: "('s, 'r) msgbus_client \<Rightarrow> bool" where
  start: "sp_req2receiver_mgr c = None \<Longrightarrow> m_all_handlers (handler_objects c) = (\<lambda>_. None) \<Longrightarrow> client_reach c"
| step: "client_reach c \<Longrightarrow> valid_env env \<Longrightarrow> client_call env op c = Inr (Some c') \<Longrightarrow> client_reach c'"

definition request_thread_ok :: "'r ReqObject \<Rightarrow> bool" where
  "request_thread_ok ob \<longleftrightarrow> (m_req2receiver_running (req_mgr ob) \<longleftrightarrow> m_req2receiver_tid ob \<noteq> 0) \<and>
     (m_req2receiver_running (req_mgr ob) \<longrightarrow> \<not> m_req2receiver_terminate (req_mgr ob)) \<and>
     (\<not> m_req2receiver_running (req_mgr ob) \<longrightarrow> m_reqtoreceiver_task_container (req_mgr ob) = [])"

definition client_ok :: "('s, 'r) msgbus_client \<Rightarrow> bool" where
  "client_ok c \<longleftrightarrow>
     (case sp_req2receiver_mgr c of
        None \<Rightarrow> m_all_handlers (handler_objects c) (lit ''Req2ReceiverMgr'') = None
      | Some a \<Rightarrow> m_all_handlers (handler_objects c) (lit ''Req2ReceiverMgr'') = Some (Some a) \<and>
          obj_class (handler_objects c) a = Req2ReceiverClass \<and> request_thread_ok (req_objects c a))"

section \<open>What a request leaves alone\<close>

definition keeps_thread :: "'r Req2ReceiverMgr \<Rightarrow> 'r Req2ReceiverMgr \<Rightarrow> bool" where
  "keeps_thread m m' \<longleftrightarrow> m_req2receiver_running m' = m_req2receiver_running m \<and> m_req2receiver_terminate m' = m_req2receiver_terminate m \<and>
     (\<not> m_req2receiver_running m \<longrightarrow> m_reqtoreceiver_task_container m' = m_reqtoreceiver_task_container m)"

lemmas small_op_defs = forget_future_def ReqReceiverInfo_async_def safe_remove_cached_host_info_def safe_queue_waiting_task_def

lemma keeps_thread_simps [simp]:
  "keeps_thread m m" "keeps_thread m (forget_future m' i) = keeps_thread m m'" "keeps_thread m (set_pool m' s pool) = keeps_thread m m'"
  "keeps_thread m (ReqReceiverInfo_async m' name) = keeps_thread m m'" "keeps_thread m (safe_remove_cached_host_info m' name) = keeps_thread m m'"
  "keeps_thread m (safe_queue_waiting_task m' task) = keeps_thread m m'" "keeps_thread m (m'\<lparr>net := ns\<rparr>) = keeps_thread m m'"
  "keeps_thread m (m'\<lparr>future_mgr := fm\<rparr>) = keeps_thread m m'" "keeps_thread m (m'\<lparr>local_posts := l\<rparr>) = keeps_thread m m'"
  "keeps_thread m (m'\<lparr>callbacks_run := k\<rparr>) = keeps_thread m m'" "keeps_thread m (m'\<lparr>m_cached_client_info := ci\<rparr>) = keeps_thread m m'"
  by (simp_all add: keeps_thread_def small_op_defs set_pool_def)

lemma keeps_thread_upd:
  "keeps_thread (m\<lparr>net := ns, m_server_connmgr := sv\<rparr>) m' = keeps_thread m m'" "keeps_thread (m\<lparr>future_mgr := fm\<rparr>) m' = keeps_thread m m'"
  "keeps_thread (m\<lparr>m_cached_client_info := ci\<rparr>) m' = keeps_thread m m'" "keeps_thread (set_pool m s pool) m' = keeps_thread m m'"
  by (simp_all add: keeps_thread_def set_pool_def)

lemma send_on_keeps: "send_on env m task r p = Inr (x, m') \<Longrightarrow> keeps_thread m m'"
  by (auto simp: send_on_def cbind_eq_Inr Let_def split: if_splits)

lemma connect_failed_keeps: "connect_failed m task r = (x, m') \<Longrightarrow> keeps_thread m m'"
  by (auto simp: connect_failed_def split: if_splits)

lemma send_to_dest_keeps:
  assumes "send_to_dest cons env m task r dest = Inr (x, m')"
  shows "keeps_thread m m'"
proof -
  obtain newtcp pool where 1: "GetTcpSockByDestHost (pool_of m (sync task)) dest = Inr (newtcp, pool)"
    using assms by (auto simp: send_to_dest_def cbind_eq_Inr)
  show ?thesis
  proof (cases newtcp)
    case (Some p)
    then have "keeps_thread (set_pool m (sync task) pool) m'"
      using assms 1 by (intro send_on_keeps) (simp add: send_to_dest_def Let_def)
    then show ?thesis by (simp add: keeps_thread_upd)
  next
    case None
    from None assms 1 show ?thesis
      by (auto simp: send_to_dest_def Let_def cbind_eq_Inr split: if_splits option.splits
          dest!: send_on_keeps connect_failed_keeps) (auto simp: keeps_thread_def set_pool_def)
  qed
qed

lemma ProcessReq_keeps: "ProcessReqToReceiver cons env m task r = Inr (x, m') \<Longrightarrow> keeps_thread m m'"
  by (auto simp: ProcessReqToReceiver_def split: if_splits option.splits intro: send_to_dest_keeps)

lemma Send_ip_keeps: "SendMsgDirectToClient_ip cons env u t m dest dlen d r to = Inr (x, m') \<Longrightarrow> keeps_thread m m'"
  by (auto simp: SendMsgDirectToClient_ip_def cbind_eq_Inr keeps_thread_upd split: if_splits dest!: ProcessReq_keeps)

lemma Send_keeps: "SendMsgDirectToClient cons env u t ans m name dlen d r to = Inr (x, m') \<Longrightarrow> keeps_thread m m'"
  by (auto simp: SendMsgDirectToClient_def keeps_thread_upd split: if_splits option.splits dest!: Send_ip_keeps)

lemma Post_keeps:
  "PostMsgDirectToClient u t m name dlen d cb = Inr (x, m') \<Longrightarrow> keeps_thread m m'"
  "PostMsgDirectToClient_ip u t m dest dlen d cb = Inr (x, m') \<Longrightarrow> keeps_thread m m'"
  by (auto simp: PostMsgDirectToClient_def PostMsgDirectToClient_ip_def QueueReqTaskToReceiver_def keeps_thread_def cbind_eq_Inr split: if_splits)

lemma onRead_keeps: "Req2Receiver_onRead m blk = Inr (n, m') \<Longrightarrow> keeps_thread m m'"
  by (auto simp: Req2Receiver_onRead_def cmap_def cbind_eq_Inr)

lemma thread_ok_keeps: "request_thread_ok ob \<Longrightarrow> keeps_thread (req_mgr ob) m \<Longrightarrow> request_thread_ok (ob\<lparr>req_mgr := m\<rparr>)"
  by (auto simp: request_thread_ok_def keeps_thread_def)

section \<open>The invariant\<close>

lemma on_srv_ok: "client_ok c \<Longrightarrow> on_srv f c = Inr (x, c') \<Longrightarrow> client_ok c'"
  by (auto simp: on_srv_def cbind_eq_Inr client_ok_def split: option.splits)

lemma on_req_ok:
  assumes "client_ok c" "on_req a f c = Inr (x, c')"
    and "\<And>m y m'. request_thread_ok ((req_objects c a)\<lparr>req_mgr := m\<rparr>) \<Longrightarrow> f m = Inr (y, m') \<Longrightarrow> request_thread_ok ((req_objects c a)\<lparr>req_mgr := m'\<rparr>)"
  shows "client_ok c'"
proof -
  let ?ob = "req_objects c a"
  obtain m' where m: "f ((req_mgr ?ob)\<lparr>net := cnet c, m_server_connmgr := map_option (\<lambda>_. m_receiver_name (s_server_connmgr c)) (m_server_connmgr (req_mgr ?ob))\<rparr>) = Inr (x, m')"
    "c' = c\<lparr>req_objects := (req_objects c)(a := ?ob\<lparr>req_mgr := m'\<rparr>), cnet := net m'\<rparr>"
    using assms(2) by (auto simp: on_req_def Let_def cbind_eq_Inr)
  have "request_thread_ok (?ob\<lparr>req_mgr := m'\<rparr>)" if "request_thread_ok ?ob"
    using that by (intro assms(3) [OF _ m(1)]) (simp add: request_thread_ok_def)
  with assms(1) m(2) show ?thesis by (auto simp: client_ok_def split: option.splits)
qed

lemma on_req_keeps_ok:
  assumes "client_ok c" "on_req a f c = Inr (x, c')" "\<And>m y m'. f m = Inr (y, m') \<Longrightarrow> keeps_thread m m'"
  shows "client_ok c'"
  using assms(1,2) by (rule on_req_ok) (use assms(3) thread_ok_keeps in fastforce)

lemma round_thread_ok: "request_thread_ok (ob\<lparr>req_mgr := m\<rparr>) \<Longrightarrow> request_thread_ok (ob\<lparr>req_mgr := ProcessReq2Receiver_round m\<rparr>)"
  by (auto simp: request_thread_ok_def ProcessReq2Receiver_round_def)

lemma client_ok_upd [simp]:
  "client_ok (c\<lparr>s_receiver_mgr := m\<rparr>) = client_ok c" "client_ok (c\<lparr>cnet := ns\<rparr>) = client_ok c"
  "client_ok (c\<lparr>s_receiver_mgr := m, m_localport := l\<rparr>) = client_ok c" "client_ok (c\<lparr>s_server_connmgr := sm\<rparr>) = client_ok c"
  by (simp_all add: client_ok_def cong: option.case_cong)

lemma on_srv_same: "on_srv f c = Inr (x, c') \<Longrightarrow> client_ok c' = client_ok c"
  by (auto simp: on_srv_def cbind_eq_Inr)

lemma sendmsg_ok:
  assumes "client_ok c" "msgbus_sendmsg_direct_to_client env c name dlen d r to = Inr (x, c')"
  shows "client_ok c'"
proof (cases "name = [] \<or> sp_req2receiver_mgr c = None")
  case False
  then obtain a y c1 where "client_ok c1" "on_req a (\<lambda>m. SendMsgDirectToClient (consumed env) (req_env env) (raw_task env) (time_now env) y m name dlen d r to) c1 = Inr (x, c')"
    using assms by (auto simp: msgbus_sendmsg_direct_to_client_def cbind_eq_Inr split: if_splits dest!: on_srv_same)
  then show ?thesis by (rule on_req_keeps_ok) (rule Send_keeps)
qed (use assms in \<open>auto simp: msgbus_sendmsg_direct_to_client_def split: if_splits\<close>)

lemma sendmsg_ip_ok: "client_ok c \<Longrightarrow> msgbus_sendmsg_direct_to_client_ip env c dest dlen d r to = Inr (x, c') \<Longrightarrow> client_ok c'"
  by (auto simp: msgbus_sendmsg_direct_to_client_ip_def split: if_splits option.splits elim!: on_req_keeps_ok Send_ip_keeps)

lemma postmsg_ok:
  "client_ok c \<Longrightarrow> msgbus_postmsg_direct_to_client env c name dlen d cb = Inr (x, c') \<Longrightarrow> client_ok c'"
  "client_ok c \<Longrightarrow> msgbus_postmsg_direct_to_client_ip env c dest dlen d cb = Inr (x, c') \<Longrightarrow> client_ok c'"
  by (auto simp: msgbus_postmsg_direct_to_client_def msgbus_postmsg_direct_to_client_ip_def split: if_splits option.splits
      elim!: on_req_keeps_ok Post_keeps)

lemma relay_ok: "client_ok c \<Longrightarrow> msgbus_postmsg_use_server_relay env c name dlen d = Inr (x, c') \<Longrightarrow> client_ok c'"
  unfolding msgbus_postmsg_use_server_relay_def by (rule on_srv_ok)

lemma register_ok:
  "client_ok c \<Longrightarrow> msgbus_register_client_receiver env c ip port name b = Inr (Some (x, c')) \<Longrightarrow> client_ok c'"
  by (auto simp: msgbus_register_client_receiver_def Let_def cmap_def cbind_eq_Inr split: if_splits option.splits dest!: on_srv_same)

lemma disconnect_ok: "client_ok c \<Longrightarrow> disconnect_from_server env c = Inr c' \<Longrightarrow> client_ok c'"
  by (auto simp: disconnect_from_server_def msgbus_unregister_client_receiver_def cmap_def cbind_eq_Inr dest!: on_srv_same)

lemma Start_thread_ok:
  assumes "request_thread_ok ob \<or> ob = SetServerConnMgr sv (new_Req2ReceiverMgr ns raw)" "tid \<noteq> Some 0"
    and "Req2Receiver_Start tid el ob ep = (ok, ob', ep')"
  shows "request_thread_ok ob'"
  using assms by (auto simp: Req2Receiver_Start_def Let_def request_thread_ok_def new_Req2ReceiverMgr_def SetServerConnMgr_def split: if_splits option.splits)

lemma SetServerConnMgr_ok: "request_thread_ok ob \<Longrightarrow> request_thread_ok (SetServerConnMgr sv ob)"
  by (simp add: request_thread_ok_def SetServerConnMgr_def)

text \<open>The instance: a new object, or the one already there.\<close>

lemma get_req2receiver_mgr_ok:
  assumes "client_ok c"
  obtains a where "sp_req2receiver_mgr (get_req2receiver_mgr env c) = Some a"
    "m_all_handlers (handler_objects (get_req2receiver_mgr env c)) (lit ''Req2ReceiverMgr'') = Some (Some a)"
    "obj_class (handler_objects (get_req2receiver_mgr env c)) a = Req2ReceiverClass"
    "request_thread_ok (req_objects (get_req2receiver_mgr env c) a) \<or> req_objects (get_req2receiver_mgr env c) a = new_Req2ReceiverMgr (cnet c) (raw_tid env)"
    "cnet (get_req2receiver_mgr env c) = cnet c" "s_server_connmgr (get_req2receiver_mgr env c) = s_server_connmgr c"
  using assms by (auto simp: get_req2receiver_mgr_def client_ok_def GetInstance_def Let_def new_object_def split: option.splits)

lemma init_ok:
  assumes "client_ok c" "valid_env env" "init_netmsgbus_client env c ip port = Inr (x, c')"
  shows "client_ok c'"
proof -
  obtain created ep where ep: "CreateEventLoop (loops (cnet c)) NETMSGBUS_EVLOOP_NAME (main_loop env) = (created, ep)" by fastforce
  show ?thesis
  proof (cases created)
    case True
    obtain y c1 where 1: "on_srv (\<lambda>m. StartServerCommunicateLoop worker (time_now env) (attempt env) (consumed env) m ip port) (c\<lparr>cnet := (cnet c)\<lparr>loops := ep\<rparr>\<rparr>) = Inr (y, c1)"
      using assms(3) ep True by (auto simp: init_netmsgbus_client_def Let_def cbind_eq_Inr)
    have "client_ok c1" using on_srv_ok [OF _ 1] assms(1) by simp
    then obtain a where a: "sp_req2receiver_mgr (get_req2receiver_mgr env c1) = Some a"
      "m_all_handlers (handler_objects (get_req2receiver_mgr env c1)) (lit ''Req2ReceiverMgr'') = Some (Some a)"
      "obj_class (handler_objects (get_req2receiver_mgr env c1)) a = Req2ReceiverClass"
      "request_thread_ok (req_objects (get_req2receiver_mgr env c1) a) \<or> req_objects (get_req2receiver_mgr env c1) a = new_Req2ReceiverMgr (cnet c1) (raw_tid env)"
      by (rule get_req2receiver_mgr_ok)
    let ?c = "get_req2receiver_mgr env c1"
    let ?ob = "SetServerConnMgr (Some (m_receiver_name (s_server_connmgr ?c))) (req_objects ?c a)"
    obtain ok ob ep2 where 2: "Req2Receiver_Start (req_thread env) (post_loop env) ?ob (loops (cnet ?c)) = (ok, ob, ep2)" by (metis prod_cases3)
    have "request_thread_ok ob" using a(4) assms(2) 2 SetServerConnMgr_ok by (intro Start_thread_ok [OF _ _ 2]) (auto simp: valid_env_def)
    moreover have "c' = ?c\<lparr>req_objects := (req_objects ?c)(a := ob), cnet := (cnet ?c)\<lparr>loops := ep2\<rparr>\<rparr>"
      using assms(3) ep True 1 a(1) 2 by (simp add: init_netmsgbus_client_def Let_def)
    ultimately show ?thesis using a(1-3) by (simp add: client_ok_def)
  qed (use assms ep in \<open>simp add: init_netmsgbus_client_def Let_def\<close>, use assms in force)
qed

lemma destroy_ok:
  assumes "client_ok c" "destroy_netmsgbus_client env c = Inr (Some c')"
  shows "client_ok c'"
  using assms(2) by (auto simp: destroy_netmsgbus_client_def cbind_eq_Inr Let_def client_ok_def DropInstance_def split: option.splits if_splits)

lemmas wrapper_defs = NetMsgBusConnectServer_def NetMsgBusRegReceiver_def NetMsgBusDisConnectFromServer_def NetMsgBusDisConnectAll_def
  NetMsgBusSendMsg_def NetMsgBusSendMsg_ip_def NetMsgBusQueryHostInfo_def NetMsgBusAsyncGetData_def NetMsgBusAsyncGetData_ip_def
  NetMsgBusGetData_def NetMsgBusGetData_ip_def NetMsgBusQueryServices_def

lemma client_call_ok:
  assumes "client_ok c" "valid_env env" "client_call env op c = Inr (Some c')"
  shows "client_ok c'"
proof (cases op)
  case (RequestRound a)
  then show ?thesis using assms by (auto simp: returned_def cmap_def cbind_eq_Inr intro: round_thread_ok elim!: on_req_ok)
next
  case (RunTask a task)
  then show ?thesis using assms by (auto simp: returned_def cmap_def cbind_eq_Inr elim!: on_req_keeps_ok ProcessReq_keeps)
next
  case (Answers a blk)
  then show ?thesis using assms by (auto simp: returned_def cmap_def cbind_eq_Inr elim!: on_req_keeps_ok onRead_keeps)
qed (use assms in \<open>auto simp: returned_def cmap_def cbind_eq_Inr wrapper_defs msgbus_postmsg_broadcast_def
    msgbus_req_receiver_info_def msgbus_query_available_services_def msgbus_update_receiver_busystate_def split: if_splits
    dest: init_ok register_ok disconnect_ok destroy_ok sendmsg_ok sendmsg_ip_ok postmsg_ok relay_ok on_srv_ok\<close>)

lemma client_reach_ok: "client_reach c \<Longrightarrow> client_ok c"
proof (induction rule: client_reach.induct)
  case (step c env op c')
  from client_call_ok [OF step.IH step.hyps(2,3)] show ?case .
qed (simp add: client_ok_def)

section \<open>Stopping\<close>

definition unreg_req :: "byte list \<Rightarrow> byte list \<Rightarrow> ClientHost \<Rightarrow> MsgBusUnRegisterReq" where
  "unreg_req garbage name host = (new_MsgBusUnRegisterReq garbage)\<lparr>ureq_service_name := cpad 64 name, ureq_service_host := host\<rparr>"

lemma unreg_req_wf: "length name < 64 \<Longrightarrow> UnRegisterReq_wf (unreg_req garbage name host)"
  by (simp add: unreg_req_def UnRegisterReq_wf_def new_MsgBusUnRegisterReq_def new_MsgBusPackHead_def MsgBusPackHead.extend_def
      MsgBusUnRegisterReq.fields_def MAX_SERVICE_NAME_def)

text \<open>A connection that a request can use, and a name that fits its field.\<close>

definition conn_usable :: "'s ServerConnMgr \<Rightarrow> bool" where
  "conn_usable m \<longleftrightarrow> (m_server_connecting m \<longrightarrow> (\<exists>p. conn_ready m p)) \<and> 0 \<notin> set (m_receiver_name m) \<and> length (m_receiver_name m) < 64"

lemma unregister_total:
  assumes "conn_usable m"
  shows "\<exists>r m'. UnRegisterNetMsgBusReceiver env m = Inr (r, m') \<and> conn_usable m' \<and> loops (srv_net m') = loops (srv_net m)"
proof (cases "m_server_connecting m")
  case True
  then obtain p where p: "conn_ready m p" using assms by (auto simp: conn_usable_def)
  let ?h = "set_port (if m_receiver_ip m \<noteq> [] then set_ip ClientHost_default (m_receiver_ip m) else ClientHost_default) (m_receiver_port m)"
  let ?r = "unreg_req (junk env) (m_receiver_name m) ?h"
  have n: "copy_name (m_receiver_name m) = Inr (cpad 64 (m_receiver_name m))"
    using copy_name_ok assms by (simp add: conn_usable_def cstr_id)
  have w: "UnRegisterReq_wf ?r" using assms by (intro unreg_req_wf) (simp add: conn_usable_def)
  have k: "UnRegisterReq_PackData ?r (replicate (unat (UnRegisterReq_Size ?r)) 0) 0 0 = Inr (ureq.encode ?r, ureq.sent ?r)"
    unfolding UnRegisterReq_PackData_def by (rule ureq.packData_fresh) (rule w)
  have "length (ureq.encode ?r) = 90" using ureq.length_encode [OF w] by (simp add: UnRegisterReq_Size_def)
  then have s: "srv_send m (ureq.encode ?r) = Inr (True, queue_on m p (ureq.encode ?r))"
    using p by (intro srv_send_ok) (simp_all add: MAX_BUF_SIZE_def BLOCK_SIZE_def)
  have e: "UnRegisterNetMsgBusReceiver env m = Inr (True, (queue_on m p (ureq.encode ?r))\<lparr>m_isreceiver_registered := False\<rparr>)"
    using True n k [unfolded unreg_req_def] s [unfolded unreg_req_def] by (simp add: UnRegisterNetMsgBusReceiver_def Let_def unreg_req_def)
  have "conn_ready ((queue_on m p (ureq.encode ?r))\<lparr>m_isreceiver_registered := False\<rparr>) p"
    using p by (auto simp: conn_ready_def queue_on_def log_call_def IsClosed_def Writeable_def split: if_splits)
  with e assms show ?thesis by (auto simp: conn_usable_def queue_on_def)
qed (use assms in \<open>auto simp: UnRegisterNetMsgBusReceiver_def\<close>)

lemma stop_connection_total:
  assumes "conn_usable m"
  shows "\<exists>m'. StopServerConnection worker env m = Inr m' \<and> \<not> m_server_connecting m' \<and> m_server_tcp m' = None \<and> loops (srv_net m') = loops (srv_net m)"
proof -
  obtain r m' where "UnRegisterNetMsgBusReceiver env m = Inr (r, m')" "loops (srv_net m') = loops (srv_net m)"
    using unregister_total [OF assms, of env] by (elim exE conjE) (rule that)
  then show ?thesis by (simp add: StopServerConnection_def Let_def split: option.splits)
qed

definition usable :: "('s, 'r) msgbus_client \<Rightarrow> bool" where
  "usable c \<longleftrightarrow> conn_usable ((s_server_connmgr c)\<lparr>srv_net := cnet c\<rparr>)"

lemma disconnect_total:
  assumes "usable c"
  obtains m ns where "disconnect_from_server env c = Inr (c\<lparr>s_server_connmgr := m, cnet := ns\<rparr>)"
    "\<not> m_server_connecting m" "m_server_tcp m = None" "loops ns = loops (cnet c)"
proof -
  obtain r m1 where 1: "UnRegisterNetMsgBusReceiver (srv_env env) ((s_server_connmgr c)\<lparr>srv_net := cnet c\<rparr>) = Inr (r, m1)" "conn_usable m1"
    "loops (srv_net m1) = loops (cnet c)"
    using unregister_total [OF assms [unfolded usable_def], of "srv_env env"] by auto
  obtain m2 where 2: "StopServerConnection worker (again_env env) m1 = Inr m2" "\<not> m_server_connecting m2" "m_server_tcp m2 = None"
    "loops (srv_net m2) = loops (srv_net m1)"
    using stop_connection_total [OF 1(2), of "again_env env"] by auto
  have "m1\<lparr>srv_net := srv_net m1\<rparr> = m1" by simp
  with 1 2 have "disconnect_from_server env c = Inr (c\<lparr>s_server_connmgr := m2, cnet := srv_net m2\<rparr>)"
    by (simp add: disconnect_from_server_def msgbus_unregister_client_receiver_def on_srv_def)
  with 1(3) 2 that show thesis by simp
qed

text \<open>The two threads end.\<close>

lemma receiver_joined:
  "m_receiver_terminate m \<Longrightarrow> join_receiver_thread t cb rs m =
     Inr (if \<exists>x\<in>set rs. x \<noteq> - 1 then Some (m\<lparr>m_receiver_running := False\<rparr>) else None)"
  by (induction rs) (auto simp: receiver_accept_def)

lemma StopReceiver_eq:
  "StopReceiver env m = Inr (if m_receiver_running m \<longrightarrow> (\<exists>x\<in>set (selects env). x \<noteq> - 1)
     then Some (m\<lparr>m_receiver_running := False, m_receiver_terminate := True\<rparr>) else None)"
  by (cases "m_receiver_running m") (auto simp: StopReceiver_def receiver_joined)

lemma join_request_thread_eq:
  "m_req2receiver_running m \<Longrightarrow> m_req2receiver_terminate m \<Longrightarrow> join_request_thread m =
     Inr (m\<lparr>m_reqtoreceiver_task_container := [], m_req2receiver_running := False, named_work := named_work m @
       map (\<lambda>task. (work_thread_name (clientname task), task)) (m_reqtoreceiver_task_container m)\<rparr>)"
  by (simp add: join_request_thread_def ProcessReq2Receiver_round_def Let_def)

lemma Stop_total:
  assumes "request_thread_ok ob"
  obtains ob' where "Req2Receiver_Stop t ob ep = Inr (ob', snd (pool_TerminateLoop ep POSTMSG_LOOP))"
    "\<not> m_req2receiver_running (req_mgr ob')" "m_reqtoreceiver_task_container (req_mgr ob') = []"
    "named_work (req_mgr ob') = named_work (req_mgr ob) @
       map (\<lambda>task. (work_thread_name (clientname task), task)) (m_reqtoreceiver_task_container (req_mgr ob))"
  using assms by (cases "m_req2receiver_running (req_mgr ob)") (auto simp: Req2Receiver_Stop_def request_thread_ok_def Let_def join_request_thread_eq)

lemma terminated_gone:
  assumes "map_sorted (m_eventloop_pool ep)"
  shows "map_sorted (m_eventloop_pool (snd (pool_TerminateLoop ep n)))"
    "GetEventLoop (snd (pool_TerminateLoop ep n)) n' = (if n' = n then None else GetEventLoop ep n')"
  using assms by (auto simp: pool_TerminateLoop_def GetEventLoop_def map_of_erase split: option.splits)

section \<open>Properties\<close>


text \<open>
  A client that never connected, or has already disconnected from all, must not disconnect again: \<open>destroy_netmsgbus_client\<close> tests the pointer to the
  request manager twice but then asks it for its class name without a test, which fails the pointer's assertion.
\<close>

theorem disconnect_unconnected:
  assumes "sp_req2receiver_mgr c = None" "usable c" "\<not> m_receiver_running (s_receiver_mgr c)"
  shows "NetMsgBusDisConnectAll env c = Inl AssertFailed"
proof -
  let ?rm = "(s_receiver_mgr c)\<lparr>m_receiver_running := False, m_receiver_terminate := True\<rparr>"
  have r: "StopReceiver env (s_receiver_mgr c) = Inr (Some ?rm)" using assms(3) by (simp add: StopReceiver_eq)
  have "usable (c\<lparr>s_receiver_mgr := ?rm\<rparr>)" using assms(2) by (simp add: usable_def)
  then obtain m ns where "disconnect_from_server env (c\<lparr>s_receiver_mgr := ?rm\<rparr>) = Inr (c\<lparr>s_receiver_mgr := ?rm, s_server_connmgr := m, cnet := ns\<rparr>)"
    by (rule disconnect_total)
  with r assms(1) show ?thesis
    by (simp add: NetMsgBusDisConnectAll_def destroy_netmsgbus_client_def stop_requests_def forget_server_def Let_def)
qed

section \<open>An example client\<close>

definition demo_req_env :: "nat req_env" where
  "demo_req_env = \<lparr>attempts = (\<lambda>_. demo_attempt), inner_loops = (\<lambda>_. None), wakeups = [], at_timeout = new_FutureMgr\<rparr>"

text \<open>The server cannot be reached; everything else succeeds.\<close>

definition demo_client_env :: "(nat, nat) client_env" where
  "demo_client_env = \<lparr>srv_env = demo_srv_env, again_env = demo_srv_env, req_env = demo_req_env, consumed = length,
     raw_task = (0, 0), raw_tid = 99, time_now = 0, serialize = (\<lambda>s. s), attempt = demo_attempt\<lparr>ca_fd := - 1\<rparr>,
     main_loop = Some \<lparr>m_event_waiter = None, m_terminal = False, m_pendings = []\<rparr>, post_loop = None, req_thread = Some 5,
     recv_thread = True, free_port = (\<lambda>p. p = 9002), fd_flags_ok = True, selects = [- 1, 0], recv_handler = SockHandler_clear,
     user_class = (\<lambda>_. lit ''user'')\<rparr>"

definition demo_client :: "(nat, nat) msgbus_client" where
  "demo_client = \<lparr>s_server_connmgr = demo_conn\<lparr>m_server_tcp := None, m_server_connecting := False\<rparr>, s_receiver_mgr = demo_receiver,
     m_localport = 0, sp_req2receiver_mgr = None, req_objects = (\<lambda>_. new_Req2ReceiverMgr demo_net 99), handler_objects = empty_mgr Req2ReceiverClass,
     cnet = demo_net\<lparr>loops := \<lparr>m_eventloop_pool = [], m_innerloop_pool = [], s_max_tcp_num_inloop = MAX_TCPNUM\<rparr>\<rparr>\<rparr>"

lemma demo_connected:
  "\<exists>c. client_call demo_client_env (ConnectServer (lit ''10.0.0.9'') 19000) demo_client = Inr (Some c) \<and>
    sp_req2receiver_mgr c = Some 0 \<and> usable c \<and> map_sorted (m_eventloop_pool (loops (cnet c))) \<and>
    m_req2receiver_running (req_mgr (req_objects c 0))"
  by (simp add: returned_def NetMsgBusConnectServer_def init_netmsgbus_client_def demo_client_def demo_client_env_def CreateEventLoop_def
      on_srv_def StartServerCommunicateLoop_def demo_conn_def Let_def Connect_def new_TcpSock_unconnected_def new_TcpSock_def get_req2receiver_mgr_def
      GetInstance_def empty_mgr_def new_object_def Req2Receiver_Start_def new_Req2ReceiverMgr_def SetServerConnMgr_def
      usable_def conn_usable_def lit_def demo_attempt_def demo_net_def)

lemma demo_reach: "client_call demo_client_env op demo_client = Inr (Some c) \<Longrightarrow> client_reach c"
  by (rule client_reach.step [OF client_reach.start, of demo_client demo_client_env op])
    (simp_all add: demo_client_def empty_mgr_def valid_env_def demo_client_env_def)


theorem disconnect_unconnected_witness:
  "NetMsgBusDisConnectAll demo_client_env (demo_client\<lparr>s_receiver_mgr := demo_receiver\<lparr>m_receiver_running := False\<rparr>\<rparr>) = Inl AssertFailed"
  by (rule disconnect_unconnected)
    (simp_all add: demo_client_def usable_def conn_usable_def demo_conn_def lit_def demo_receiver_def)

end
