(* ===== verification/Client_Request.thy ===== *)
theory Client_Request
  imports Client_Lifecycle Req2Receiver_Props
begin

text \<open>
  A request through all parts of a client: the application's \<open>NetMsgBusGetData\<close> for a name whose address is not yet known.
\<close>

lemma finding_name: "m_receiver_name (finding e b pb name) = m_receiver_name b"
  by (simp add: finding_def)


definition demo_object :: "nat ReqObject" where
  "demo_object = \<lparr>req_mgr = demo_req\<lparr>m_sendmsg_client_conn_pool := \<lparr>m_tcpclient_pool = [(host_ip demo_host, host_port demo_host) \<mapsto> [9]],
      m_select_counter = [(host_ip demo_host, host_port demo_host) \<mapsto> 0]\<rparr>\<rparr>, m_req2receiver_tid = 5\<rparr>"

definition demo_connected_client :: "(nat, nat) msgbus_client" where
  "demo_connected_client = demo_client\<lparr>s_server_connmgr := demo_conn, sp_req2receiver_mgr := Some 0, req_objects := (\<lambda>_. demo_object), cnet := demo_net\<rparr>"


end
