(* ===== verification/Json_Value.thy ===== *)
theory Json_Value
  imports Std_Map
begin

text \<open>
  The values of the JSON library (\<open>3rd_tools/jsoncpp/value.h\<close>, \<open>json_value.cpp\<close>), as the library is
  built here: without \<open>JSON_VALUE_USE_INTERNAL_MAP\<close>, so that arrays and objects are both a
  \<open>std::map\<close> from \<open>CZString\<close>. The tagged union is the datatype \<open>Value\<close>:

  \<^item> \<open>Int\<close> and \<open>UInt\<close> are 32-bit words (the former read by \<open>sint\<close>);
  \<^item> a string is a \<open>char*\<close>, null only in \<open>Value(stringValue)\<close>; a copy of a value keeps the bytes up to
    the first NUL, so the strings and the member names held are C strings (\<open>cstr\<close>);
  \<^item> an array is a sorted association list of signed indices, which may have gaps, an object one of
    member names in \<open>strcmp\<close> order;
  \<^item> a \<open>double\<close> is of the type parameter, with the operations of \<open>real_ops\<close> that the code uses on it.

  The comments that a value can carry are left out: only the styled writers read them.
  \<open>JSON_ASSERT\<close> is \<open>assert\<close> (\<open>AssertFailed\<close>), \<open>JSON_ASSERT_MESSAGE\<close> throws (\<open>RuntimeError\<close>).

  A call \<open>v[i]\<close> that returns a reference is modelled by the container after the call (the slot is
  created when it is missing) and the assignment through that reference by \<open>assign_index\<close>,
  \<open>assign_member\<close>. The invariant \<open>value_wf\<close> says what the representation keeps, and every operation
  preserves it.
\<close>

section \<open>Data\<close>

datatype ValueType =
  nullValue | intValue | uintValue | realValue | stringValue | booleanValue | arrayValue | objectValue

datatype 'd Value =
    VNull
  | VInt u32
  | VUInt u32
  | VReal 'd
  | VString "byte list option"
  | VBool bool
  | VArray "(int \<times> 'd Value) list"
  | VObject "(byte list \<times> 'd Value) list"

text \<open>
  What the code does with a \<open>double\<close>: conversions from and to integers, comparisons, \<open>sprintf\<close> with
  \<open>%#.16g\<close> and \<open>sscanf\<close> with \<open>%lf\<close> (the value, when one was converted).
\<close>

record 'd real_ops =
  r_zero :: 'd
  r_one :: 'd
  r_of_int :: "int \<Rightarrow> 'd"
  r_to_int :: "'d \<Rightarrow> int"
  r_less :: "'d \<Rightarrow> 'd \<Rightarrow> bool"
  r_le :: "'d \<Rightarrow> 'd \<Rightarrow> bool"
  r_eq :: "'d \<Rightarrow> 'd \<Rightarrow> bool"
  r_print :: "'d \<Rightarrow> byte list"
  r_scan :: "byte list \<Rightarrow> 'd option"

fun vtype :: "'d Value \<Rightarrow> ValueType" where
  "vtype VNull = nullValue"
| "vtype (VInt _) = intValue"
| "vtype (VUInt _) = uintValue"
| "vtype (VReal _) = realValue"
| "vtype (VString _) = stringValue"
| "vtype (VBool _) = booleanValue"
| "vtype (VArray _) = arrayValue"
| "vtype (VObject _) = objectValue"

fun type_code :: "ValueType \<Rightarrow> int" where
  "type_code nullValue = 0"
| "type_code intValue = 1"
| "type_code uintValue = 2"
| "type_code realValue = 3"
| "type_code stringValue = 4"
| "type_code booleanValue = 5"
| "type_code arrayValue = 6"
| "type_code objectValue = 7"

definition minInt :: int where "minInt = - 2147483648"
definition maxInt :: int where "maxInt = 2147483647"
definition maxUInt :: int where "maxUInt = 4294967295"

section \<open>Construction\<close>

fun value_of_type :: "'d real_ops \<Rightarrow> ValueType \<Rightarrow> 'd Value" where
  "value_of_type D nullValue = VNull"
| "value_of_type D intValue = VInt 0"
| "value_of_type D uintValue = VUInt 0"
| "value_of_type D realValue = VReal (r_zero D)"
| "value_of_type D stringValue = VString None"
| "value_of_type D arrayValue = VArray []"
| "value_of_type D objectValue = VObject []"
| "value_of_type D booleanValue = VBool False"

text \<open>\<open>Value(const std::string&)\<close>, as every copy of the value reads it.\<close>

definition value_of_string :: "byte list \<Rightarrow> 'd Value" where
  "value_of_string s = VString (Some (cstr s))"

section \<open>Comparisons\<close>

text \<open>
  \<open>operator<\<close> and \<open>operator==\<close> of \<open>std::map\<close>: lexicographic comparison and element-wise equality of
  the entries, in key order.
\<close>

fun map_less :: "('v \<Rightarrow> 'v \<Rightarrow> bool) \<Rightarrow> ('k::linorder \<times> 'v) list \<Rightarrow> ('k \<times> 'v) list \<Rightarrow> bool" where
  "map_less f xs [] = False"
| "map_less f [] (y # ys) = True"
| "map_less f ((k, v) # xs) ((l, w) # ys) =
     (if k < l \<or> (\<not> l < k \<and> f v w) then True
      else if l < k \<or> (\<not> k < l \<and> f w v) then False
      else map_less f xs ys)"

fun map_equal :: "('v \<Rightarrow> 'v \<Rightarrow> bool) \<Rightarrow> ('k \<times> 'v) list \<Rightarrow> ('k \<times> 'v) list \<Rightarrow> bool" where
  "map_equal f [] [] = True"
| "map_equal f ((k, v) # xs) ((l, w) # ys) = (k = l \<and> f v w \<and> map_equal f xs ys)"
| "map_equal f _ _ = False"

lemma map_less_cong [fundef_cong]:
  assumes "xs = xs'" "ys = ys'"
    and "\<And>k v l w. (k, v) \<in> set xs' \<Longrightarrow> (l, w) \<in> set ys' \<Longrightarrow> f v w = g v w"
    and "\<And>k v l w. (k, v) \<in> set xs' \<Longrightarrow> (l, w) \<in> set ys' \<Longrightarrow> f w v = g w v"
  shows "map_less f xs ys = map_less g xs' ys'"
  using assms(3,4) unfolding assms(1,2)
proof (induction f xs' ys' rule: map_less.induct)
  case (3 f k v xs l w ys)
  have "f v w = g v w" "f w v = g w v"
    using "3.prems"(1) [of k v l w] "3.prems"(2) [of k v l w] by simp_all
  moreover have "map_less f xs ys = map_less g xs ys"
    if "\<not> (k < l \<or> \<not> l < k \<and> f v w)" "\<not> (l < k \<or> \<not> k < l \<and> f w v)"
    by (rule "3.IH" [OF that]) (meson "3.prems" list.set_intros(2))+
  ultimately show ?case by simp
qed auto

lemma map_equal_cong [fundef_cong]:
  assumes "xs = xs'" "ys = ys'"
    and "\<And>k v l w. (k, v) \<in> set xs' \<Longrightarrow> (l, w) \<in> set ys' \<Longrightarrow> f v w = g v w"
  shows "map_equal f xs ys = map_equal g xs' ys'"
  using assms(3) unfolding assms(1,2)
proof (induction f xs' ys' rule: map_equal.induct)
  case (2 f k v xs l w ys)
  have "f v w = g v w" using "2.prems" [of k v l w] by simp
  moreover have "map_equal f xs ys = map_equal g xs ys"
    by (rule "2.IH") (meson "2.prems" list.set_intros(2))
  ultimately show ?case by auto
qed auto

lemma entry_size [simp, termination_simp]:
  "(k, v) \<in> set xs \<Longrightarrow> size v < Suc (size_list (size_prod (\<lambda>_. 0) size) xs)"
  using size_list_estimation' [of "(k, v)" xs "size v" "size_prod (\<lambda>_. 0) size"] by simp

text \<open>The difference of two container sizes, as the code reads it: an \<open>int\<close>.\<close>

definition size_delta :: "'a list \<Rightarrow> 'b list \<Rightarrow> int" where
  "size_delta xs ys = sint (word_of_int (int (length xs) - int (length ys)) :: u32)"

function value_less :: "'d real_ops \<Rightarrow> 'd Value \<Rightarrow> 'd Value \<Rightarrow> bool" where
  "value_less D a b =
     (let typeDelta = type_code (vtype a) - type_code (vtype b) in
      if typeDelta \<noteq> 0 then typeDelta < 0
      else (case (a, b) of
          (VInt x, VInt y) \<Rightarrow> sint x < sint y
        | (VUInt x, VUInt y) \<Rightarrow> x < y
        | (VReal x, VReal y) \<Rightarrow> r_less D x y
        | (VBool x, VBool y) \<Rightarrow> \<not> x \<and> y
        | (VString x, VString y) \<Rightarrow>
            (x = None \<and> y \<noteq> None) \<or> (y \<noteq> None \<and> x \<noteq> None \<and> the x < the y)
        | (VArray x, VArray y) \<Rightarrow>
            (if size_delta x y \<noteq> 0 then size_delta x y < 0 else map_less (value_less D) x y)
        | (VObject x, VObject y) \<Rightarrow>
            (if size_delta x y \<noteq> 0 then size_delta x y < 0 else map_less (value_less D) x y)
        | _ \<Rightarrow> False))"
  by pat_completeness auto
termination
  by (relation "measure (\<lambda>(D, a, b). size a + size b)") (fastforce dest: entry_size)+

definition value_gt :: "'d real_ops \<Rightarrow> 'd Value \<Rightarrow> 'd Value \<Rightarrow> bool" where
  "value_gt D a b = value_less D b a"

definition value_le :: "'d real_ops \<Rightarrow> 'd Value \<Rightarrow> 'd Value \<Rightarrow> bool" where
  "value_le D a b = (\<not> value_gt D b a)"

definition value_ge :: "'d real_ops \<Rightarrow> 'd Value \<Rightarrow> 'd Value \<Rightarrow> bool" where
  "value_ge D a b = (\<not> value_less D a b)"

function value_eq :: "'d real_ops \<Rightarrow> 'd Value \<Rightarrow> 'd Value \<Rightarrow> bool" where
  "value_eq D a b =
     (if vtype a \<noteq> vtype b then False
      else (case (a, b) of
          (VNull, VNull) \<Rightarrow> True
        | (VInt x, VInt y) \<Rightarrow> x = y
        | (VUInt x, VUInt y) \<Rightarrow> x = y
        | (VReal x, VReal y) \<Rightarrow> r_eq D x y
        | (VBool x, VBool y) \<Rightarrow> x = y
        | (VString x, VString y) \<Rightarrow> x = y
        | (VArray x, VArray y) \<Rightarrow> length x = length y \<and> map_equal (value_eq D) x y
        | (VObject x, VObject y) \<Rightarrow> length x = length y \<and> map_equal (value_eq D) x y
        | _ \<Rightarrow> False))"
  by pat_completeness auto
termination
  by (relation "measure (\<lambda>(D, a, b). size a + size b)") (fastforce dest: entry_size)+

definition value_ne :: "'d real_ops \<Rightarrow> 'd Value \<Rightarrow> 'd Value \<Rightarrow> bool" where
  "value_ne D a b = (\<not> value_eq D a b)"

declare value_less.simps [simp del] value_eq.simps [simp del]

section \<open>Type tests and conversions\<close>

definition isNull :: "'d Value \<Rightarrow> bool" where
  "isNull v = (vtype v = nullValue)"

definition isBool :: "'d Value \<Rightarrow> bool" where
  "isBool v = (vtype v = booleanValue)"

definition isInt :: "'d Value \<Rightarrow> bool" where
  "isInt v = (vtype v = intValue)"

definition isUInt :: "'d Value \<Rightarrow> bool" where
  "isUInt v = (vtype v = uintValue)"

definition isIntegral :: "'d Value \<Rightarrow> bool" where
  "isIntegral v = (vtype v = intValue \<or> vtype v = uintValue \<or> vtype v = booleanValue)"

definition isDouble :: "'d Value \<Rightarrow> bool" where
  "isDouble v = (vtype v = realValue)"

definition isNumeric :: "'d Value \<Rightarrow> bool" where
  "isNumeric v = (isIntegral v \<or> isDouble v)"

definition isString :: "'d Value \<Rightarrow> bool" where
  "isString v = (vtype v = stringValue)"

definition isArray :: "'d Value \<Rightarrow> bool" where
  "isArray v = (vtype v = nullValue \<or> vtype v = arrayValue)"

definition isObject :: "'d Value \<Rightarrow> bool" where
  "isObject v = (vtype v = nullValue \<or> vtype v = objectValue)"

definition asCString :: "'d Value \<Rightarrow> byte list option cres" where
  "asCString v = (case v of VString s \<Rightarrow> Inr s | _ \<Rightarrow> Inl AssertFailed)"

definition asString :: "'d Value \<Rightarrow> byte list cres" where
  "asString v = (case v of
       VNull \<Rightarrow> Inr []
     | VString s \<Rightarrow> Inr (case s of Some t \<Rightarrow> t | None \<Rightarrow> [])
     | VBool b \<Rightarrow> Inr (if b then lit ''true'' else lit ''false'')
     | _ \<Rightarrow> Inl RuntimeError)"

definition asInt :: "'d real_ops \<Rightarrow> 'd Value \<Rightarrow> u32 cres" where
  "asInt D v = (case v of
       VNull \<Rightarrow> Inr 0
     | VInt i \<Rightarrow> Inr i
     | VUInt u \<Rightarrow> if uint u < maxInt then Inr u else Inl RuntimeError
     | VReal d \<Rightarrow>
         if r_le D (r_of_int D minInt) d \<and> r_le D d (r_of_int D maxInt)
         then Inr (word_of_int (r_to_int D d)) else Inl RuntimeError
     | VBool b \<Rightarrow> Inr (if b then 1 else 0)
     | _ \<Rightarrow> Inl RuntimeError)"

definition asUInt :: "'d real_ops \<Rightarrow> 'd Value \<Rightarrow> u32 cres" where
  "asUInt D v = (case v of
       VNull \<Rightarrow> Inr 0
     | VInt i \<Rightarrow> if 0 \<le> sint i then Inr i else Inl RuntimeError
     | VUInt u \<Rightarrow> Inr u
     | VReal d \<Rightarrow>
         if r_le D (r_of_int D 0) d \<and> r_le D d (r_of_int D maxUInt)
         then Inr (word_of_int (r_to_int D d)) else Inl RuntimeError
     | VBool b \<Rightarrow> Inr (if b then 1 else 0)
     | _ \<Rightarrow> Inl RuntimeError)"

definition asDouble :: "'d real_ops \<Rightarrow> 'd Value \<Rightarrow> 'd cres" where
  "asDouble D v = (case v of
       VNull \<Rightarrow> Inr (r_zero D)
     | VInt i \<Rightarrow> Inr (r_of_int D (sint i))
     | VUInt u \<Rightarrow> Inr (r_of_int D (uint u))
     | VReal d \<Rightarrow> Inr d
     | VBool b \<Rightarrow> Inr (if b then r_one D else r_zero D)
     | _ \<Rightarrow> Inl RuntimeError)"

definition asBool :: "'d real_ops \<Rightarrow> 'd Value \<Rightarrow> bool" where
  "asBool D v = (case v of
       VNull \<Rightarrow> False
     | VInt i \<Rightarrow> i \<noteq> 0
     | VUInt u \<Rightarrow> u \<noteq> 0
     | VReal d \<Rightarrow> \<not> r_eq D d (r_zero D)
     | VBool b \<Rightarrow> b
     | VString s \<Rightarrow> s \<noteq> None \<and> s \<noteq> Some []
     | VArray xs \<Rightarrow> length xs \<noteq> 0
     | VObject xs \<Rightarrow> length xs \<noteq> 0)"

definition isConvertibleTo :: "'d real_ops \<Rightarrow> 'd Value \<Rightarrow> ValueType \<Rightarrow> bool" where
  "isConvertibleTo D v other = (case v of
       VNull \<Rightarrow> True
     | VInt i \<Rightarrow> (other = nullValue \<and> i = 0) \<or> other = intValue \<or> (other = uintValue \<and> 0 \<le> sint i)
         \<or> other = realValue \<or> other = stringValue \<or> other = booleanValue
     | VUInt u \<Rightarrow> (other = nullValue \<and> u = 0) \<or> (other = intValue \<and> uint u \<le> maxInt) \<or> other = uintValue
         \<or> other = realValue \<or> other = stringValue \<or> other = booleanValue
     | VReal d \<Rightarrow> (other = nullValue \<and> r_eq D d (r_zero D))
         \<or> (other = intValue \<and> r_le D (r_of_int D minInt) d \<and> r_le D d (r_of_int D maxInt))
         \<or> (other = uintValue \<and> r_le D (r_of_int D 0) d \<and> r_le D d (r_of_int D maxUInt))
         \<or> other = realValue \<or> other = stringValue \<or> other = booleanValue
     | VBool b \<Rightarrow> (other = nullValue \<and> \<not> b) \<or> other = intValue \<or> other = uintValue
         \<or> other = realValue \<or> other = stringValue \<or> other = booleanValue
     | VString s \<Rightarrow> other = stringValue \<or> (other = nullValue \<and> (s = None \<or> s = Some []))
     | VArray xs \<Rightarrow> other = arrayValue \<or> (other = nullValue \<and> length xs = 0)
     | VObject xs \<Rightarrow> other = objectValue \<or> (other = nullValue \<and> length xs = 0))"

section \<open>Containers\<close>

definition vsize :: "'d Value \<Rightarrow> u32" where
  "vsize v = (case v of
       VArray xs \<Rightarrow> if xs \<noteq> [] then word_of_int (fst (last xs) + 1) else 0
     | VObject xs \<Rightarrow> of_nat (length xs)
     | _ \<Rightarrow> 0)"

definition vempty :: "'d Value \<Rightarrow> bool" where
  "vempty v = (if isNull v \<or> isArray v \<or> isObject v then vsize v = 0 else False)"

definition vclear :: "'d Value \<Rightarrow> 'd Value cres" where
  "vclear v = (case v of
       VNull \<Rightarrow> Inr VNull
     | VArray _ \<Rightarrow> Inr (VArray [])
     | VObject _ \<Rightarrow> Inr (VObject [])
     | _ \<Rightarrow> Inl AssertFailed)"

text \<open>The key an array index is stored under: \<open>CZString(int index)\<close>.\<close>

definition index_key :: "u32 \<Rightarrow> int" where
  "index_key i = sint i"

definition index_ref :: "'d Value \<Rightarrow> u32 \<Rightarrow> 'd Value cres" where
  "index_ref v i = (case v of
       VNull \<Rightarrow> Inr (VArray [(index_key i, VNull)])
     | VArray xs \<Rightarrow> Inr (VArray (case map_of xs (index_key i) of
           Some _ \<Rightarrow> xs
         | None \<Rightarrow> map_insert (index_key i) VNull xs))
     | _ \<Rightarrow> Inl AssertFailed)"

text \<open>\<open>operator[](UInt) const\<close>, \<open>None\<close> for a reference to \<open>Value::null\<close>.\<close>

definition index_find :: "'d Value \<Rightarrow> u32 \<Rightarrow> 'd Value option cres" where
  "index_find v i = (case v of
       VNull \<Rightarrow> Inr None
     | VArray xs \<Rightarrow> Inr (map_of xs (index_key i))
     | _ \<Rightarrow> Inl AssertFailed)"

definition or_null :: "'d Value option \<Rightarrow> 'd Value" where
  "or_null r = (case r of Some v \<Rightarrow> v | None \<Rightarrow> VNull)"

definition assign_index :: "'d Value \<Rightarrow> u32 \<Rightarrow> 'd Value \<Rightarrow> 'd Value cres" where
  "assign_index v i x = cbind (index_ref v i) (\<lambda>c. case c of
       VArray xs \<Rightarrow> Inr (VArray (map_insert (index_key i) x xs))
     | _ \<Rightarrow> Inl AssertFailed)"

definition resolveReference :: "'d Value \<Rightarrow> byte list \<Rightarrow> 'd Value cres" where
  "resolveReference v key = (case v of
       VNull \<Rightarrow> Inr (VObject [(cstr key, VNull)])
     | VObject xs \<Rightarrow> Inr (VObject (case map_of xs (cstr key) of
           Some _ \<Rightarrow> xs
         | None \<Rightarrow> map_insert (cstr key) VNull xs))
     | _ \<Rightarrow> Inl AssertFailed)"

text \<open>\<open>operator[](const char*) const\<close>, \<open>None\<close> for a reference to \<open>Value::null\<close>.\<close>

definition member_find :: "'d Value \<Rightarrow> byte list \<Rightarrow> 'd Value option cres" where
  "member_find v key = (case v of
       VNull \<Rightarrow> Inr None
     | VObject xs \<Rightarrow> Inr (map_of xs (cstr key))
     | _ \<Rightarrow> Inl AssertFailed)"

definition assign_member :: "'d Value \<Rightarrow> byte list \<Rightarrow> 'd Value \<Rightarrow> 'd Value cres" where
  "assign_member v key x = cbind (resolveReference v key) (\<lambda>c. case c of
       VObject xs \<Rightarrow> Inr (VObject (map_insert (cstr key) x xs))
     | _ \<Rightarrow> Inl AssertFailed)"

definition get_index :: "'d Value \<Rightarrow> u32 \<Rightarrow> 'd Value \<Rightarrow> 'd Value cres" where
  "get_index v i defaultValue = cmap (\<lambda>r. case r of None \<Rightarrow> defaultValue | Some x \<Rightarrow> x) (index_find v i)"

definition get_member :: "'d Value \<Rightarrow> byte list \<Rightarrow> 'd Value \<Rightarrow> 'd Value cres" where
  "get_member v key defaultValue =
     cmap (\<lambda>r. case r of None \<Rightarrow> defaultValue | Some x \<Rightarrow> x) (member_find v key)"

definition isValidIndex :: "'d Value \<Rightarrow> u32 \<Rightarrow> bool" where
  "isValidIndex v i = (i < vsize v)"

definition vappend :: "'d Value \<Rightarrow> 'd Value \<Rightarrow> 'd Value cres" where
  "vappend v x = assign_index v (vsize v) x"

fun erase_range :: "int list \<Rightarrow> (int \<times> 'v) list \<Rightarrow> (int \<times> 'v) list" where
  "erase_range [] xs = xs"
| "erase_range (i # is) xs = erase_range is (map_erase i xs)"

definition vresize :: "'d Value \<Rightarrow> u32 \<Rightarrow> 'd Value cres" where
  "vresize v newSize =
     (if vtype v \<noteq> nullValue \<and> vtype v \<noteq> arrayValue then Inl AssertFailed
      else
        let a = (case v of VNull \<Rightarrow> VArray [] | _ \<Rightarrow> v); oldSize = vsize a in
        if newSize = 0 then vclear a
        else if newSize > oldSize then index_ref a (newSize - 1)
        else
          let r = (case a of
                VArray xs \<Rightarrow>
                  VArray (erase_range (map (\<lambda>i. index_key (of_nat i)) [unat newSize..<unat oldSize]) xs)
              | _ \<Rightarrow> a) in
          if vsize r = newSize then Inr r else Inl AssertFailed)"

text \<open>\<open>removeMember\<close>: the value removed, and the object afterwards.\<close>

definition removeMember :: "'d Value \<Rightarrow> byte list \<Rightarrow> ('d Value \<times> 'd Value) cres" where
  "removeMember v key = (case v of
       VNull \<Rightarrow> Inr (VNull, v)
     | VObject xs \<Rightarrow> (case map_of xs (cstr key) of
           None \<Rightarrow> Inr (VNull, v)
         | Some old \<Rightarrow> Inr (old, VObject (map_erase (cstr key) xs)))
     | _ \<Rightarrow> Inl AssertFailed)"

definition isMember :: "'d Value \<Rightarrow> byte list \<Rightarrow> bool cres" where
  "isMember v key = cmap (\<lambda>r. r \<noteq> None) (member_find v key)"

definition getMemberNames :: "'d Value \<Rightarrow> byte list list cres" where
  "getMemberNames v = (case v of
       VNull \<Rightarrow> Inr []
     | VObject xs \<Rightarrow> Inr (map fst xs)
     | _ \<Rightarrow> Inl AssertFailed)"

text \<open>The elements \<open>value[0]\<close>, ..., \<open>value[n - 1]\<close> a loop over the array reads.\<close>

definition elements :: "nat \<Rightarrow> (int \<times> 'd Value) list \<Rightarrow> 'd Value list" where
  "elements n xs = map (\<lambda>i. or_null (map_of xs (index_key (of_nat i)))) [0..<n]"

section \<open>The invariant of the representation\<close>

text \<open>
  Entries are sorted by key without repetition, indices are 32-bit integers, member names and strings
  are C strings.
\<close>

fun value_wf :: "'d Value \<Rightarrow> bool" where
  "value_wf (VString s) = (case s of Some t \<Rightarrow> 0 \<notin> set t | None \<Rightarrow> True)"
| "value_wf (VArray xs) =
     (map_sorted xs \<and> (\<forall>(i, v) \<in> set xs. minInt \<le> i \<and> i \<le> maxInt \<and> value_wf v))"
| "value_wf (VObject xs) = (map_sorted xs \<and> (\<forall>(k, v) \<in> set xs. 0 \<notin> set k \<and> value_wf v))"
| "value_wf _ = True"

lemma index_key_range: "minInt \<le> index_key i" "index_key i \<le> maxInt"
  using sint_ge [of i] sint_lt [of i] by (simp_all add: index_key_def minInt_def maxInt_def)

lemma value_wf_array:
  "value_wf (VArray xs) \<longleftrightarrow>
     map_sorted xs \<and> (\<forall>i v. (i, v) \<in> set xs \<longrightarrow> minInt \<le> i \<and> i \<le> maxInt \<and> value_wf v)"
  by auto

lemma value_wf_object:
  "value_wf (VObject xs) \<longleftrightarrow> map_sorted xs \<and> (\<forall>k v. (k, v) \<in> set xs \<longrightarrow> 0 \<notin> set k \<and> value_wf v)"
  by auto

declare value_wf.simps(2,3) [simp del]
lemmas value_wf_iff = value_wf_array value_wf_object

lemma value_wf_array_insert:
  "value_wf (VArray xs) \<Longrightarrow> value_wf x \<Longrightarrow> value_wf (VArray (map_insert (index_key i) x xs))"
  using index_key_range [of i] by (auto simp: value_wf_iff set_map_insert)

lemma value_wf_object_insert:
  "value_wf (VObject xs) \<Longrightarrow> value_wf x \<Longrightarrow> value_wf (VObject (map_insert (cstr k) x xs))"
  by (auto simp: value_wf_iff set_map_insert)

lemma value_wf_erase:
  "value_wf (VArray xs) \<Longrightarrow> value_wf (VArray (map_erase i xs))"
  "value_wf (VObject ys) \<Longrightarrow> value_wf (VObject (map_erase k ys))"
  by (auto simp: value_wf_iff set_map_erase_eq)

lemma value_wf_erase_range: "value_wf (VArray xs) \<Longrightarrow> value_wf (VArray (erase_range is xs))"
  by (induction "is" arbitrary: xs) (auto simp: value_wf_erase)

lemma value_wf_lookup:
  "value_wf (VArray xs) \<Longrightarrow> map_of xs i = Some v \<Longrightarrow> value_wf v"
  "value_wf (VObject ys) \<Longrightarrow> map_of ys k = Some v \<Longrightarrow> value_wf v"
  by (auto simp: value_wf_iff dest: map_of_SomeD)

named_theorems wf_intros "operations that keep the invariant of the values"

lemma value_of_type_wf [wf_intros]: "value_wf (value_of_type D t)"
  by (cases t) (simp_all add: value_wf_iff)

lemma value_of_string_wf [wf_intros]: "value_wf (value_of_string s)"
  by (simp add: value_of_string_def)

lemma index_ref_wf [wf_intros]: "value_wf v \<Longrightarrow> index_ref v i = Inr c \<Longrightarrow> value_wf c"
  using value_wf_array_insert [of "[]" VNull i]
  by (auto simp: index_ref_def value_wf_array_insert value_wf_iff(1) [of "[]"]
      split: Value.splits option.splits)

lemma assign_index_wf [wf_intros]:
  "value_wf v \<Longrightarrow> value_wf x \<Longrightarrow> assign_index v i x = Inr c \<Longrightarrow> value_wf c"
  unfolding assign_index_def
  by (erule cbindE, drule index_ref_wf, assumption)
     (auto simp: value_wf_array_insert split: Value.split_asm)

lemma resolveReference_wf [wf_intros]: "value_wf v \<Longrightarrow> resolveReference v k = Inr c \<Longrightarrow> value_wf c"
  using value_wf_object_insert [of "[]" VNull k]
  by (auto simp: resolveReference_def value_wf_object_insert value_wf_iff(2) [of "[]"]
      split: Value.splits option.splits)

lemma assign_member_wf [wf_intros]:
  "value_wf v \<Longrightarrow> value_wf x \<Longrightarrow> assign_member v k x = Inr c \<Longrightarrow> value_wf c"
  unfolding assign_member_def
  by (erule cbindE, drule resolveReference_wf, assumption)
     (auto simp: value_wf_object_insert split: Value.split_asm)

lemma vappend_wf [wf_intros]: "value_wf v \<Longrightarrow> value_wf x \<Longrightarrow> vappend v x = Inr c \<Longrightarrow> value_wf c"
  unfolding vappend_def by (rule assign_index_wf)

lemma vclear_wf [wf_intros]: "vclear v = Inr c \<Longrightarrow> value_wf c"
  by (auto simp: vclear_def value_wf_iff split: Value.splits)

lemma vresize_array_wf: "value_wf (VArray xs) \<Longrightarrow> vresize (VArray xs) n = Inr c \<Longrightarrow> value_wf c"
  using value_wf_erase_range [of xs]
  by (simp add: vresize_def Let_def split: if_splits)
     (erule vclear_wf, erule (1) index_ref_wf, metis)

lemma vresize_wf [wf_intros]: "value_wf v \<Longrightarrow> vresize v n = Inr c \<Longrightarrow> value_wf c"
proof (cases v)
  case VNull
  assume "vresize v n = Inr c"
  with VNull have "vresize (VArray []) n = Inr c" by (simp add: vresize_def)
  then show ?thesis using vresize_array_wf [of "[]"] by (simp add: value_wf_iff)
qed (auto simp: vresize_array_wf, simp_all add: vresize_def)

lemma removeMember_wf [wf_intros]:
  "value_wf v \<Longrightarrow> removeMember v k = Inr (old, c) \<Longrightarrow> value_wf old \<and> value_wf c"
  by (auto simp: removeMember_def value_wf_erase dest: value_wf_lookup
      split: Value.splits option.splits)

lemma member_find_wf [wf_intros]: "value_wf v \<Longrightarrow> member_find v k = Inr (Some x) \<Longrightarrow> value_wf x"
  by (auto simp: member_find_def dest: value_wf_lookup split: Value.splits)

lemma get_member_wf [wf_intros]:
  "value_wf v \<Longrightarrow> value_wf d \<Longrightarrow> get_member v k d = Inr x \<Longrightarrow> value_wf x"
  by (auto simp: get_member_def cmap_eq_Inr dest: member_find_wf split: option.splits)

section \<open>Laws of the containers\<close>

lemma assign_member_find:
  assumes "value_wf v" "assign_member v k x = Inr c"
  shows "member_find c j = (if cstr j = cstr k then Inr (Some x) else member_find v j)"
  using assms
  by (auto simp: assign_member_def resolveReference_def member_find_def value_wf_iff map_of_insert
      split: Value.splits option.splits)

lemma isMember_assign:
  "value_wf v \<Longrightarrow> assign_member v k x = Inr c \<Longrightarrow> isMember c k = Inr True"
  by (simp add: isMember_def assign_member_find)

lemma removeMember_find:
  assumes "value_wf v" "removeMember v k = Inr (old, c)"
  shows "member_find c j = (if cstr j = cstr k then Inr None else member_find v j)"
  using assms
  by (auto simp: removeMember_def member_find_def value_wf_iff map_of_erase
      split: Value.splits option.splits)

lemma assign_index_find:
  assumes "value_wf v" "assign_index v i x = Inr c"
  shows "index_find c j = (if j = i then Inr (Some x) else index_find v j)"
proof -
  have "index_key j = index_key i \<longleftrightarrow> j = i" by (auto simp: index_key_def signed_word_eqI)
  with assms show ?thesis
    by (auto simp: assign_index_def index_ref_def index_find_def value_wf_iff map_of_insert
        split: Value.splits option.splits)
qed

end
