(* ===== verification/Json_Writer.thy ===== *)
theory Json_Writer
  imports Json_Value
begin

text \<open>
  The writers of the JSON library (\<open>json_writer.cpp\<close>): the texts of scalar values, \<open>FastWriter\<close> (one
  line, what \<open>XParam::ToJsonStr\<close> puts into a message) and the two styled writers, which the source
  spells out twice: \<open>StyledWriter\<close> (\<open>toStyledString\<close>) and \<open>StyledStreamWriter\<close> (\<open>XParam::ToJsonFile\<close>)
  differ in how they indent, the parameter \<open>style\<close> of the common definitions.

  A writer that appends to \<open>document_\<close> returns the bytes it appends; the styled writers keep the state
  \<open>styled\<close>, since they look at what they have written. Each loop over an array reads \<open>value[index]\<close>,
  so a gap in the array is written as \<open>null\<close>. Values carry no comments here.
\<close>

section \<open>Sequences of fallible calls\<close>

fun cmapM :: "('a \<Rightarrow> 'b cres) \<Rightarrow> 'a list \<Rightarrow> 'b list cres" where
  "cmapM f [] = Inr []"
| "cmapM f (x # xs) = cbind (f x) (\<lambda>y. cmap ((#) y) (cmapM f xs))"

lemma cmapM_cong [fundef_cong]:
  "xs = ys \<Longrightarrow> (\<And>x. x \<in> set ys \<Longrightarrow> f x = g x) \<Longrightarrow> cmapM f xs = cmapM g ys"
  by (induction xs arbitrary: ys) auto

lemma cmapM_ok: "(\<And>x. x \<in> set xs \<Longrightarrow> f x = Inr (g x)) \<Longrightarrow> cmapM f xs = Inr (map g xs)"
  by (induction xs) auto

fun join_texts :: "byte list \<Rightarrow> byte list list \<Rightarrow> byte list" where
  "join_texts sep [] = []"
| "join_texts sep [t] = t"
| "join_texts sep (t # ts) = t @ sep @ join_texts sep ts"

section \<open>Scalars\<close>

abbreviation ch :: "char \<Rightarrow> byte" where
  "ch c \<equiv> of_char c"

definition isControlCharacter :: "byte \<Rightarrow> bool" where
  "isControlCharacter c = (0 < sint c \<and> sint c \<le> 31)"

definition containsControlCharacter :: "byte list \<Rightarrow> bool" where
  "containsControlCharacter s = list_ex isControlCharacter s"

text \<open>The digits a loop of divisions leaves in front of \<open>acc\<close>.\<close>

function uintToString :: "u32 \<Rightarrow> byte list \<Rightarrow> byte list" where
  "uintToString value acc =
     (let acc' = (ucast (value mod 10) + ch CHR ''0'') # acc; value' = value div 10 in
      if value' \<noteq> 0 then uintToString value' acc' else acc')"
  by pat_completeness auto
termination
proof (relation "measure (\<lambda>(v, _). unat v)")
  fix v v' :: u32 and acc x :: "byte list"
  assume "v' = v div 10" "v' \<noteq> 0"
  then have "v \<noteq> 0" by auto
  then have "unat v div 10 < unat v" by (simp add: unat_gt_0)
  with \<open>v' = v div 10\<close> show "((v', x), (v, acc)) \<in> measure (\<lambda>(v, _). unat v)"
    by (simp add: unat_div)
qed simp

declare uintToString.simps [simp del]

text \<open>The text written backwards into a buffer of 32 bytes, with its NUL.\<close>

definition in_buffer :: "byte list \<Rightarrow> byte list cres" where
  "in_buffer t = (if length t + 1 \<le> 32 then Inr t else Inl OutOfBounds)"

definition valueToString_Int :: "u32 \<Rightarrow> byte list cres" where
  "valueToString_Int value =
     (let isNegative = sint value < 0; v = (if isNegative then - value else value);
          t = uintToString v [] in
      in_buffer (if isNegative then ch CHR ''-'' # t else t))"

definition valueToString_UInt :: "u32 \<Rightarrow> byte list cres" where
  "valueToString_UInt value = in_buffer (uintToString value [])"

definition is_digit :: "byte \<Rightarrow> bool" where
  "is_digit c = (ch CHR ''0'' \<le> c \<and> c \<le> ch CHR ''9'')"

fun last_nonzero :: "byte list \<Rightarrow> nat \<Rightarrow> nat" where
  "last_nonzero t 0 = 0"
| "last_nonzero t (Suc i) = (if t ! Suc i = ch CHR ''0'' then last_nonzero t i else Suc i)"

fun digits_to_point :: "byte list \<Rightarrow> nat \<Rightarrow> bool" where
  "digits_to_point t i =
     (if is_digit (t ! i) then (case i of 0 \<Rightarrow> False | Suc j \<Rightarrow> digits_to_point t j)
      else t ! i = ch CHR ''.'')"

definition valueToString_double :: "'d real_ops \<Rightarrow> 'd \<Rightarrow> byte list cres" where
  "valueToString_double D value =
     cbind (in_buffer (r_print D value)) (\<lambda>t.
       if t = [] then Inl OutOfBounds
       else
         let l = length t - 1 in
         if t ! l \<noteq> ch CHR ''0'' then Inr t
         else
           let n = last_nonzero t l in
           if digits_to_point t n then Inr (take (n + 2) t) else Inr t)"

definition valueToString_bool :: "bool \<Rightarrow> byte list" where
  "valueToString_bool value = (if value then lit ''true'' else lit ''false'')"

definition hex_digit :: "bool \<Rightarrow> nat \<Rightarrow> byte" where
  "hex_digit upper d =
     (if d < 10 then of_nat d + ch CHR ''0''
      else of_nat (d - 10) + (if upper then ch CHR ''A'' else ch CHR ''a''))"

fun hex_text :: "bool \<Rightarrow> nat \<Rightarrow> byte list" where
  "hex_text upper n =
     (if n < 16 then [hex_digit upper n] else hex_text upper (n div 16) @ [hex_digit upper (n mod 16)])"

declare hex_text.simps [simp del] digits_to_point.simps [simp del]

definition special_characters :: "byte list" where
  "special_characters = [34, 92, 8, 12, 10, 13, 9]"

definition escape :: "byte \<Rightarrow> byte list" where
  "escape c =
     (if c = 34 then lit [CHR 0x5C, CHR 0x22]
      else if c = 92 then lit [CHR 0x5C, CHR 0x5C]
      else if c = 8 then lit [CHR 0x5C, CHR ''b'']
      else if c = 12 then lit [CHR 0x5C, CHR ''f'']
      else if c = 10 then lit [CHR 0x5C, CHR ''n'']
      else if c = 13 then lit [CHR 0x5C, CHR ''r'']
      else if c = 9 then lit [CHR 0x5C, CHR ''t'']
      else if isControlCharacter c then
        (let h = hex_text True (unat c) in
         lit [CHR 0x5C, CHR ''u''] @ replicate (4 - length h) (ch CHR ''0'') @ h)
      else [c])"

definition valueToQuotedString :: "byte list option \<Rightarrow> byte list cres" where
  "valueToQuotedString value = (case value of
       None \<Rightarrow> Inl NullPointer
     | Some s \<Rightarrow>
         if \<not> list_ex (\<lambda>c. c \<in> set special_characters) s \<and> \<not> containsControlCharacter s
         then Inr ([34] @ s @ [34])
         else Inr ([34] @ concat (map escape s) @ [34]))"

section \<open>FastWriter\<close>

lemma lookup_size [termination_simp]:
  assumes "(l, w) \<in> set xs"
  shows "size (or_null (map_of xs k)) < Suc (size_list (\<lambda>x. Suc (size (snd x))) xs)"
proof (cases "map_of xs k")
  case None
  have "Suc (size w) \<le> size_list (\<lambda>x. Suc (size (snd x))) xs"
    using size_list_estimation' [OF assms, of "Suc (size w)" "\<lambda>x. Suc (size (snd x))"] by simp
  with None show ?thesis by (simp add: or_null_def)
next
  case (Some v)
  then have "(k, v) \<in> set xs" by (rule map_of_SomeD)
  then have "Suc (size v) \<le> size_list (\<lambda>x. Suc (size (snd x))) xs"
    using size_list_estimation' [of "(k, v)" xs "Suc (size v)" "\<lambda>x. Suc (size (snd x))"] by simp
  with Some show ?thesis by (simp add: or_null_def)
qed

lemma elements_size [termination_simp]:
  assumes "v \<in> set (elements n xs)" "n = nat (sint (vsize (VArray xs))) \<or> n = unat (vsize (VArray xs))"
  shows "size v < Suc (size_list (\<lambda>x. Suc (size (snd x))) xs)"
proof (cases xs)
  case Nil
  with assms show ?thesis by (auto simp: vsize_def elements_def)
next
  case (Cons e es)
  with assms show ?thesis using lookup_size [of "fst e" "snd e" xs] by (auto simp: elements_def)
qed

fun fast_writeValue :: "'d real_ops \<Rightarrow> bool \<Rightarrow> 'd Value \<Rightarrow> byte list cres" where
  "fast_writeValue D yaml VNull = Inr (lit ''null'')"
| "fast_writeValue D yaml (VInt i) = cbind (asInt D (VInt i)) valueToString_Int"
| "fast_writeValue D yaml (VUInt u) = cbind (asUInt D (VUInt u)) valueToString_UInt"
| "fast_writeValue D yaml (VReal d) = cbind (asDouble D (VReal d)) (valueToString_double D)"
| "fast_writeValue D yaml (VString s) = valueToQuotedString s"
| "fast_writeValue D yaml (VBool b) = Inr (valueToString_bool b)"
| "fast_writeValue D yaml (VArray xs) =
     cmap (\<lambda>ts. lit ''['' @ join_texts (lit '','') ts @ lit '']'')
       (cmapM (fast_writeValue D yaml) (elements (nat (sint (vsize (VArray xs)))) xs))"
| "fast_writeValue D yaml (VObject xs) =
     cmap (\<lambda>ts. lit ''{'' @ join_texts (lit '','') ts @ lit ''}'')
       (cmapM (\<lambda>name.
          cbind (valueToQuotedString (Some (cstr name))) (\<lambda>q.
            cmap (\<lambda>t. q @ (if yaml then lit '': '' else lit '':'') @ t)
              (fast_writeValue D yaml (or_null (map_of xs (cstr name)))))) (map fst xs))"

definition fast_write :: "'d real_ops \<Rightarrow> bool \<Rightarrow> 'd Value \<Rightarrow> byte list cres" where
  "fast_write D yaml root = cmap (\<lambda>t. t @ [10]) (fast_writeValue D yaml root)"

section \<open>The styled writers\<close>

record styled =
  sdoc :: "byte list"
  sindent :: "byte list"
  sadd :: bool
  schildren :: "byte list list"

record style =
  writeIndent :: "styled \<Rightarrow> styled"
  indentation :: "byte list"

definition rightMargin :: int where "rightMargin = 74"

definition emit :: "byte list \<Rightarrow> styled \<Rightarrow> styled" where
  "emit t s = s\<lparr>sdoc := sdoc s @ t\<rparr>"

definition pushValue :: "byte list \<Rightarrow> styled \<Rightarrow> styled" where
  "pushValue value s = (if sadd s then s\<lparr>schildren := schildren s @ [value]\<rparr> else emit value s)"

definition StyledWriter_writeIndent :: "styled \<Rightarrow> styled" where
  "StyledWriter_writeIndent s =
     (if sdoc s \<noteq> [] then
        if last (sdoc s) = ch CHR '' '' then s
        else emit ((if last (sdoc s) \<noteq> 10 then [10] else []) @ sindent s) s
      else emit (sindent s) s)"

definition StyledStreamWriter_writeIndent :: "styled \<Rightarrow> styled" where
  "StyledStreamWriter_writeIndent s = emit ([10] @ sindent s) s"

definition StyledWriter :: style where
  "StyledWriter = \<lparr>writeIndent = StyledWriter_writeIndent, indentation = replicate 3 (ch CHR '' '')\<rparr>"

definition StyledStreamWriter :: "byte list \<Rightarrow> style" where
  "StyledStreamWriter ind = \<lparr>writeIndent = StyledStreamWriter_writeIndent, indentation = ind\<rparr>"

definition writeWithIndent :: "style \<Rightarrow> byte list \<Rightarrow> styled \<Rightarrow> styled" where
  "writeWithIndent C value s = emit value (writeIndent C s)"

definition indent :: "style \<Rightarrow> styled \<Rightarrow> styled" where
  "indent C s = s\<lparr>sindent := sindent s @ indentation C\<rparr>"

definition unindent :: "style \<Rightarrow> styled \<Rightarrow> styled cres" where
  "unindent C s =
     (if length (sindent s) \<ge> length (indentation C)
      then Inr (s\<lparr>sindent := take (length (sindent s) - length (indentation C)) (sindent s)\<rparr>)
      else Inl AssertFailed)"

text \<open>
  The functions below take the recursive call \<open>wv\<close> of \<open>writeValue\<close> as an argument. \<open>line_loop\<close> is the
  loop that measures a one-line array, \<open>array_lines\<close> and \<open>member_lines\<close> write one entry per line.
\<close>

fun line_loop :: "('d Value \<Rightarrow> styled \<Rightarrow> styled cres) \<Rightarrow> nat \<Rightarrow> 'd Value list \<Rightarrow> int \<Rightarrow> styled \<Rightarrow> (int \<times> styled) cres" where
  "line_loop wv index [] lineLength s = Inr (lineLength, s)"
| "line_loop wv index (v # vs) lineLength s = cbind (wv v s) (\<lambda>s.
     if index < length (schildren s)
     then line_loop wv (Suc index) vs (lineLength + int (length (schildren s ! index))) s
     else Inl OutOfBounds)"

definition isMultineArray :: "('d Value \<Rightarrow> styled \<Rightarrow> styled cres) \<Rightarrow> (int \<times> 'd Value) list \<Rightarrow> styled \<Rightarrow> (bool \<times> styled) cres" where
  "isMultineArray wv xs s =
     (let w = vsize (VArray xs); size = sint w; vs = elements (nat size) xs;
          isMultiLine = rightMargin \<le> sint (w * 3) \<or>
            list_ex (\<lambda>v. (isArray v \<or> isObject v) \<and> vsize v > 0) vs;
          s = s\<lparr>schildren := []\<rparr> in
      if isMultiLine then Inr (True, s)
      else cmap (\<lambda>(lineLength, s). (rightMargin \<le> lineLength, s\<lparr>sadd := False\<rparr>))
             (line_loop wv 0 vs (4 + (size - 1) * 2) (s\<lparr>sadd := True\<rparr>)))"

fun array_lines :: "style \<Rightarrow> ('d Value \<Rightarrow> styled \<Rightarrow> styled cres) \<Rightarrow> bool \<Rightarrow> nat \<Rightarrow> 'd Value list \<Rightarrow> styled \<Rightarrow> styled cres" where
  "array_lines C wv hasChildValue index [] s = Inr s"
| "array_lines C wv hasChildValue index (v # vs) s =
     cbind
       (if hasChildValue then
          if index < length (schildren s) then Inr (writeWithIndent C (schildren s ! index) s)
          else Inl OutOfBounds
        else wv v (writeIndent C s))
       (\<lambda>s. if vs = [] then Inr s
            else array_lines C wv hasChildValue (Suc index) vs (emit (lit '','') s))"

definition writeArrayValue :: "style \<Rightarrow> ('d Value \<Rightarrow> styled \<Rightarrow> styled cres) \<Rightarrow> (int \<times> 'd Value) list \<Rightarrow> styled \<Rightarrow> styled cres" where
  "writeArrayValue C wv xs s =
     (let size = vsize (VArray xs) in
      if size = 0 then Inr (pushValue (lit ''[]'') s)
      else cbind (isMultineArray wv xs s) (\<lambda>(isArrayMultiLine, s).
        if isArrayMultiLine then
          cbind (array_lines C wv (schildren s \<noteq> []) 0 (elements (unat size) xs)
                   (indent C (writeWithIndent C (lit ''['') s)))
            (\<lambda>s. cmap (writeWithIndent C (lit '']'')) (unindent C s))
        else if length (schildren s) = unat size then
          Inr (emit (lit ''[ '' @ join_texts (lit '', '') (schildren s) @ lit '' ]'') s)
        else Inl AssertFailed))"

fun member_lines :: "style \<Rightarrow> ('d Value \<Rightarrow> styled \<Rightarrow> styled cres) \<Rightarrow> (byte list \<Rightarrow> 'd Value) \<Rightarrow> byte list list \<Rightarrow> styled \<Rightarrow> styled cres" where
  "member_lines C wv look [] s = Inr s"
| "member_lines C wv look (name # names) s =
     cbind (valueToQuotedString (Some (cstr name))) (\<lambda>q.
       cbind (wv (look name) (emit (lit '' : '') (writeWithIndent C q s))) (\<lambda>s.
         if names = [] then Inr s
         else member_lines C wv look names (emit (lit '','') s)))"

section \<open>Congruence of the loops in the recursive call\<close>

lemma line_loop_cong [fundef_cong]:
  assumes "vs = vs'" "\<And>v s. v \<in> set vs' \<Longrightarrow> f v s = g v s"
    "i = i'" "l = l'" "s = s'"
  shows "line_loop f i vs l s = line_loop g i' vs' l' s'"
  using assms(2) unfolding assms(1,3-5)
proof (induction vs' arbitrary: i' l' s')
  case (Cons v vs)
  then show ?case by (cases "g v s'") auto
qed simp

lemma isMultineArray_cong [fundef_cong]:
  assumes "xs = xs'" "s = s'" "\<And>v s. v \<in> set (elements (nat (sint (vsize (VArray xs')))) xs') \<Longrightarrow> f v s = g v s"
  shows "isMultineArray f xs s = isMultineArray g xs' s'"
proof -
  have "line_loop f i (elements (nat (sint (vsize (VArray xs')))) xs') l t =
      line_loop g i (elements (nat (sint (vsize (VArray xs')))) xs') l t" for i l t
    by (rule line_loop_cong) (simp_all add: assms(3))
  then show ?thesis by (simp add: isMultineArray_def assms(1,2) Let_def)
qed

lemma array_lines_cong [fundef_cong]:
  assumes "vs = vs'" "\<And>v s. v \<in> set vs' \<Longrightarrow> f v s = g v s"
    "C = C'" "h = h'" "i = i'" "s = s'"
  shows "array_lines C f h i vs s = array_lines C' g h' i' vs' s'"
  using assms(2) unfolding assms(1,3-6)
proof (induction vs' arbitrary: i' s')
  case (Cons v vs)
  then have "f v s = g v s" for s by simp
  moreover have "array_lines C' f h' i vs s = array_lines C' g h' i vs s" for i s
    by (rule Cons.IH) (simp add: Cons.prems)
  ultimately show ?case by (simp cong: if_cong)
qed simp

lemma writeArrayValue_cong [fundef_cong]:
  assumes "xs = xs'" "s = s'"
    "\<And>v s. v \<in> set (elements (nat (sint (vsize (VArray xs')))) xs') \<union> set (elements (unat (vsize (VArray xs'))) xs')
       \<Longrightarrow> f v s = g v s" "C = C'"
  shows "writeArrayValue C f xs s = writeArrayValue C' g xs' s'"
proof -
  have "isMultineArray f xs' s' = isMultineArray g xs' s'"
    by (rule isMultineArray_cong) (simp_all add: assms(3))
  moreover have "array_lines C' f h 0 (elements (unat (vsize (VArray xs'))) xs') s =
      array_lines C' g h 0 (elements (unat (vsize (VArray xs'))) xs') s" for h s
    by (rule array_lines_cong) (simp_all add: assms(3))
  ultimately show ?thesis 
    by (simp add: writeArrayValue_def Let_def split_beta assms(1,2,4) cong: if_cong)
qed

lemma member_lines_cong [fundef_cong]:
  assumes "names = names'" "\<And>n s. n \<in> set names' \<Longrightarrow> f (look n) s = g (look' n) s"
    "C = C'" "s = s'"
  shows "member_lines C f look names s = member_lines C' g look' names' s'"
  using assms(2) unfolding assms(1,3,4)
proof (induction names' arbitrary: s')
  case (Cons n ns)
  then have "f (look n) s = g (look' n) s" for s by simp
  moreover have "member_lines C' f look ns s = member_lines C' g look' ns s" for s
    by (rule Cons.IH) (simp add: Cons.prems)
  ultimately show ?case by (simp cong: if_cong)
qed simp

section \<open>writeValue and write\<close>

fun styled_writeValue :: "style \<Rightarrow> 'd real_ops \<Rightarrow> 'd Value \<Rightarrow> styled \<Rightarrow> styled cres" where
  "styled_writeValue C D VNull s = Inr (pushValue (lit ''null'') s)"
| "styled_writeValue C D (VInt i) s =
     cbind (asInt D (VInt i)) (\<lambda>i. cmap (\<lambda>t. pushValue t s) (valueToString_Int i))"
| "styled_writeValue C D (VUInt u) s =
     cbind (asUInt D (VUInt u)) (\<lambda>u. cmap (\<lambda>t. pushValue t s) (valueToString_UInt u))"
| "styled_writeValue C D (VReal d) s =
     cbind (asDouble D (VReal d)) (\<lambda>d. cmap (\<lambda>t. pushValue t s) (valueToString_double D d))"
| "styled_writeValue C D (VString c) s = cmap (\<lambda>t. pushValue t s) (valueToQuotedString c)"
| "styled_writeValue C D (VBool b) s = Inr (pushValue (valueToString_bool b) s)"
| "styled_writeValue C D (VArray xs) s = writeArrayValue C (\<lambda>v s. styled_writeValue C D v s) xs s"
| "styled_writeValue C D (VObject xs) s =
     (if xs = [] then Inr (pushValue (lit ''{}'') s)
      else cbind (member_lines C (\<lambda>v s. styled_writeValue C D v s) (\<lambda>name. or_null (map_of xs (cstr name)))
               (map fst xs) (indent C (writeWithIndent C (lit ''{'') s)))
             (\<lambda>s. cmap (writeWithIndent C (lit ''}'')) (unindent C s)))"

definition styled_start :: "byte list \<Rightarrow> styled" where
  "styled_start doc = \<lparr>sdoc = doc, sindent = [], sadd = False, schildren = []\<rparr>"

definition StyledWriter_write :: "'d real_ops \<Rightarrow> 'd Value \<Rightarrow> byte list cres" where
  "StyledWriter_write D root =
     cmap (\<lambda>s. sdoc (emit [10] s)) (styled_writeValue StyledWriter D root (styled_start []))"

text \<open>The stream writer differs only in its indentation.\<close>

definition StyledStreamWriter_writeValue ::
  "byte list \<Rightarrow> 'd real_ops \<Rightarrow> 'd Value \<Rightarrow> styled \<Rightarrow> styled cres" where
  "StyledStreamWriter_writeValue ind D v s = styled_writeValue (StyledStreamWriter ind) D v s"

definition StyledStreamWriter_writeArrayValue ::
  "byte list \<Rightarrow> 'd real_ops \<Rightarrow> (int \<times> 'd Value) list \<Rightarrow> styled \<Rightarrow> styled cres" where
  "StyledStreamWriter_writeArrayValue ind D xs s =
     writeArrayValue (StyledStreamWriter ind) (StyledStreamWriter_writeValue ind D) xs s"

lemma StyledStreamWriter_writeValue_array:
  "StyledStreamWriter_writeValue ind D (VArray xs) s = StyledStreamWriter_writeArrayValue ind D xs s"
  by (simp add: StyledStreamWriter_writeValue_def [abs_def] StyledStreamWriter_writeArrayValue_def)

text \<open>\<open>StyledStreamWriter::write\<close> appends to the stream \<open>out\<close>.\<close>

definition StyledStreamWriter_write :: "'d real_ops \<Rightarrow> byte list \<Rightarrow> byte list \<Rightarrow> 'd Value \<Rightarrow> byte list cres" where
  "StyledStreamWriter_write D ind out root =
     cmap (\<lambda>s. sdoc (emit [10] s))
       (StyledStreamWriter_writeValue ind D root (styled_start out))"

definition toStyledString :: "'d real_ops \<Rightarrow> 'd Value \<Rightarrow> byte list cres" where
  "toStyledString D v = StyledWriter_write D v"

end
