(* ===== verification/Json_Reader.thy ===== *)
theory Json_Reader
  imports Json_Writer
begin

text \<open>
  The reader of the JSON library (\<open>json_reader.cpp\<close>), a recursive-descent parser over a character
  pointer \<open>current_\<close>: the model passes the bytes from \<open>current_\<close> to \<open>end_\<close>, and a \<open>Location\<close> is the
  number of bytes of the document from it to \<open>end_\<close>. The byte at \<open>end_\<close> is the NUL of \<open>c_str()\<close>
  (\<open>peek\<close>). \<open>currentValue()\<close> is the value being read, passed in and returned; \<open>errors_\<close> is threaded.

  \<open>readValue\<close>, \<open>readObject\<close> and \<open>readArray\<close> call each other and loop; they take fuel, \<open>None\<close> is
  running out of it, and \<open>Json_Reader_Props\<close> proves that \<open>parse\<close> gives enough for every document.
  Comments are skipped like the code does, their text is not kept (the values carry none).
\<close>

section \<open>Data\<close>

datatype TokenType =
  tokenEndOfStream | tokenObjectBegin | tokenObjectEnd | tokenArrayBegin | tokenArrayEnd | tokenString
  | tokenNumber | tokenTrue | tokenFalse | tokenNull | tokenArraySeparator | tokenMemberSeparator
  | tokenComment | tokenError

type_synonym Location = nat

record Token =
  ttype :: TokenType
  ttext :: "byte list"   \<comment> \<open>\<open>start_\<close> to \<open>end_\<close>\<close>
  tstart :: Location

record ErrorInfo =
  error_token :: Token
  error_message :: "byte list"
  error_extra :: "Location option"

record Features =
  allowComments :: bool
  strictRoot :: bool

definition Features_all :: Features where
  "Features_all = \<lparr>allowComments = True, strictRoot = False\<rparr>"

definition Features_strictMode :: Features where
  "Features_strictMode = \<lparr>allowComments = False, strictRoot = True\<rparr>"

section \<open>Characters and tokens\<close>

definition peek :: "byte list \<Rightarrow> byte" where
  "peek s = (case s of [] \<Rightarrow> 0 | c # _ \<Rightarrow> c)"

definition getNextChar :: "byte list \<Rightarrow> byte \<times> byte list" where
  "getNextChar s = (case s of [] \<Rightarrow> (0, []) | c # r \<Rightarrow> (c, r))"

lemma getNextChar_snd [simp, termination_simp]: "snd (getNextChar s) = tl s"
  by (cases s) (simp_all add: getNextChar_def)

definition is_space :: "byte \<Rightarrow> bool" where
  "is_space c = (c = ch CHR '' '' \<or> c = 9 \<or> c = 13 \<or> c = 10)"

fun skipSpaces :: "byte list \<Rightarrow> byte list" where
  "skipSpaces [] = []"
| "skipSpaces (c # s) = (if is_space c then skipSpaces s else c # s)"

definition match_ahead :: "byte list \<Rightarrow> byte list \<Rightarrow> bool \<times> byte list" where
  "match_ahead pat s =
     (if length s < length pat then (False, s)
      else if take (length pat) s \<noteq> pat then (False, s)
      else (True, drop (length pat) s))"

fun cstyle_loop :: "byte list \<Rightarrow> byte list" where
  "cstyle_loop [] = []"
| "cstyle_loop (c # s) = (if c = ch CHR ''*'' \<and> peek s = ch CHR ''/'' then s else cstyle_loop s)"

definition readCStyleComment :: "byte list \<Rightarrow> bool \<times> byte list" where
  "readCStyleComment s = (let (c, r) = getNextChar (cstyle_loop s) in (c = ch CHR ''/'', r))"

fun readCppStyleComment :: "byte list \<Rightarrow> bool \<times> byte list" where
  "readCppStyleComment [] = (True, [])"
| "readCppStyleComment (c # s) = (if c = 13 \<or> c = 10 then (True, s) else readCppStyleComment s)"

definition readComment :: "byte list \<Rightarrow> bool \<times> byte list" where
  "readComment s =
     (let (c, r) = getNextChar s in
      if c = ch CHR ''*'' then readCStyleComment r
      else if c = ch CHR ''/'' then readCppStyleComment r
      else (False, r))"

definition number_char :: "byte \<Rightarrow> bool" where
  "number_char c = (is_digit c \<or>
     c = ch CHR ''.'' \<or> c = ch CHR ''e'' \<or> c = ch CHR ''E'' \<or> c = ch CHR ''+'' \<or> c = ch CHR ''-'')"

fun readNumber :: "byte list \<Rightarrow> byte list" where
  "readNumber [] = []"
| "readNumber (c # s) = (if number_char c then readNumber s else c # s)"

text \<open>\<open>readString\<close> with the last character read.\<close>

fun readString :: "byte \<Rightarrow> byte list \<Rightarrow> bool \<times> byte list" where
  "readString c [] = (c = 34, [])"
| "readString c (d # s) =
     (if d = 92 then readString d (snd (getNextChar s))
      else if d = 34 then (True, s)
      else readString d s)"

definition readToken :: "byte list \<Rightarrow> Token \<times> byte list" where
  "readToken s =
     (let s1 = skipSpaces s; (c, s2) = getNextChar s1;
          (ty, ok, s3) =
            (if c = ch CHR ''{'' then (tokenObjectBegin, True, s2)
             else if c = ch CHR ''}'' then (tokenObjectEnd, True, s2)
             else if c = ch CHR ''['' then (tokenArrayBegin, True, s2)
             else if c = ch CHR '']'' then (tokenArrayEnd, True, s2)
             else if c = 34 then (tokenString, readString 0 s2)
             else if c = ch CHR ''/'' then (tokenComment, readComment s2)
             else if is_digit c \<or> c = ch CHR ''-'' then (tokenNumber, True, readNumber s2)
             else if c = ch CHR ''t'' then (tokenTrue, match_ahead (lit ''rue'') s2)
             else if c = ch CHR ''f'' then (tokenFalse, match_ahead (lit ''alse'') s2)
             else if c = ch CHR ''n'' then (tokenNull, match_ahead (lit ''ull'') s2)
             else if c = ch CHR '','' then (tokenArraySeparator, True, s2)
             else if c = ch CHR '':'' then (tokenMemberSeparator, True, s2)
             else if c = 0 then (tokenEndOfStream, True, s2)
             else (tokenError, False, s2)) in
      (\<lparr>ttype = if ok then ty else tokenError, ttext = take (length s1 - length s3) s1, tstart = length s1\<rparr>, s3))"

section \<open>A token consumes its characters\<close>

lemma skipSpaces_length: "length (skipSpaces s) \<le> length s"
  by (induction s) auto

lemma getNextChar_length: "getNextChar s = (c, r) \<Longrightarrow> length r \<le> length s - 1"
  by (auto simp: getNextChar_def split: list.splits)

lemma match_ahead_length: "match_ahead p s = (ok, r) \<Longrightarrow> length r \<le> length s"
  by (auto simp: match_ahead_def split: if_splits)

lemma cstyle_loop_length: "length (cstyle_loop s) \<le> length s"
  by (induction s) auto

lemma readCStyleComment_length: "readCStyleComment s = (ok, r) \<Longrightarrow> length r \<le> length s"
  using cstyle_loop_length [of s]
  by (auto simp: readCStyleComment_def split: prod.splits dest!: getNextChar_length)

lemma readCppStyleComment_length: "readCppStyleComment s = (ok, r) \<Longrightarrow> length r \<le> length s"
  by (induction s) (auto split: if_splits)

lemma readComment_length: "readComment s = (ok, r) \<Longrightarrow> length r \<le> length s"
  by (fastforce simp: readComment_def split: prod.splits if_splits
      dest!: getNextChar_length dest: readCStyleComment_length readCppStyleComment_length)

lemma readNumber_length: "length (readNumber s) \<le> length s"
  by (induction s) auto

lemma readString_length: "readString c s = (ok, r) \<Longrightarrow> length r \<le> length s"
proof (induction c s rule: readString.induct)
  case (2 c d s)
  have "length (snd (getNextChar s)) \<le> length s"
    by (auto simp: getNextChar_def split: list.splits)
  with 2 show ?case by (fastforce split: if_splits)
qed simp

lemmas scan_lengths = match_ahead_length readComment_length readString_length

text \<open>\<open>readToken\<close> after its case distinction: the kinds of token, and the bytes each leaves.\<close>

lemma readToken_at:
  assumes "skipSpaces s = c # r" "readToken s = (t, s')"
  shows "length s' \<le> length r"
  using assms readNumber_length [of r]
  by (auto simp: readToken_def getNextChar_def Let_def dest!: scan_lengths
      split: prod.splits if_splits)

lemma readToken_end: "skipSpaces s = [] \<Longrightarrow>
    readToken s = (\<lparr>ttype = tokenEndOfStream, ttext = [], tstart = 0\<rparr>, [])"
  by (simp add: readToken_def getNextChar_def is_digit_def)

lemma readToken_length: "readToken s = (t, s') \<Longrightarrow> length s' \<le> length s"
  using readToken_at [of s] readToken_end [of s] skipSpaces_length [of s]
  by (cases "skipSpaces s") (auto, fastforce)

lemma readToken_consumes:
  "readToken s = (t, s') \<Longrightarrow> ttype t \<noteq> tokenEndOfStream \<Longrightarrow> length s' < length s"
  using readToken_at [of s] readToken_end [of s] skipSpaces_length [of s]
  by (cases "skipSpaces s") (auto, fastforce)

section \<open>Skipping\<close>

text \<open>Tokens up to the first that is no comment: the loops over \<open>tokenComment\<close>.\<close>

function skip_comments :: "byte list \<Rightarrow> Token \<times> byte list" where
  "skip_comments s =
     (let (t, s') = readToken s in if ttype t = tokenComment then skip_comments s' else (t, s'))"
  by pat_completeness auto
termination
  by (relation "measure length") (auto dest!: sym [THEN readToken_consumes])

definition skipCommentTokens :: "Features \<Rightarrow> byte list \<Rightarrow> Token \<times> byte list" where
  "skipCommentTokens F s = (if allowComments F then skip_comments s else readToken s)"

function recover_loop :: "TokenType \<Rightarrow> byte list \<Rightarrow> byte list" where
  "recover_loop skipUntilToken s =
     (let (skip, s') = readToken s in
      if ttype skip = skipUntilToken \<or> ttype skip = tokenEndOfStream then s'
      else recover_loop skipUntilToken s')"
  by pat_completeness auto
termination
  by (relation "measure (\<lambda>(_, s). length s)") (auto dest!: sym [THEN readToken_consumes])

declare skip_comments.simps [simp del] recover_loop.simps [simp del]

definition addError :: "byte list \<Rightarrow> Token \<Rightarrow> Location option \<Rightarrow> ErrorInfo list \<Rightarrow> ErrorInfo list" where
  "addError message token extra errors =
     errors @ [\<lparr>error_token = token, error_message = message, error_extra = extra\<rparr>]"

definition recoverFromError :: "TokenType \<Rightarrow> byte list \<Rightarrow> ErrorInfo list \<Rightarrow> byte list \<times> ErrorInfo list" where
  "recoverFromError skipUntilToken s errors =
     (recover_loop skipUntilToken s, take (length errors) errors)"

definition addErrorAndRecover :: "byte list \<Rightarrow> Token \<Rightarrow> TokenType \<Rightarrow> byte list \<Rightarrow> ErrorInfo list \<Rightarrow> byte list \<times> ErrorInfo list" where
  "addErrorAndRecover message token skipUntilToken s errors =
     recoverFromError skipUntilToken s (addError message token None errors)"

section \<open>Numbers\<close>

definition quote :: "byte list \<Rightarrow> byte list" where
  "quote t = [ch CHR 0x27] @ t @ [ch CHR 0x27]"

definition decodeDouble :: "'d real_ops \<Rightarrow> Token \<Rightarrow> 'd Value \<Rightarrow> ErrorInfo list \<Rightarrow> (bool \<times> 'd Value \<times> ErrorInfo list) cres" where
  "decodeDouble D token cur errors =
     (let text = ttext token in
      if length text = 32 then Inl OutOfBounds
      else (case r_scan D text of
          Some value \<Rightarrow> Inr (True, VReal value, errors)
        | None \<Rightarrow> Inr (False, cur, addError (quote text @ lit '' is not a number.'')
            token None errors)))"

datatype number_scan = NotANumber | TooLarge | Number u32

fun scan_digits :: "u32 \<Rightarrow> u32 \<Rightarrow> byte list \<Rightarrow> number_scan" where
  "scan_digits threshold value [] = Number value"
| "scan_digits threshold value (c # s) =
     (if \<not> is_digit c then NotANumber
      else if threshold \<le> value then TooLarge
      else scan_digits threshold (value * 10 + ucast (c - ch CHR ''0'')) s)"

definition looks_double :: "byte list \<Rightarrow> bool" where
  "looks_double text =
     (list_ex (\<lambda>c. c = ch CHR ''.'' \<or> c = ch CHR ''e'' \<or> c = ch CHR ''E'' \<or> c = ch CHR ''+'') text
      \<or> ch CHR ''-'' \<in> set (tl text))"

definition decodeNumber :: "'d real_ops \<Rightarrow> Token \<Rightarrow> 'd Value \<Rightarrow> ErrorInfo list \<Rightarrow> (bool \<times> 'd Value \<times> ErrorInfo list) cres" where
  "decodeNumber D token cur errors =
     (let text = ttext token in
      if looks_double text then decodeDouble D token cur errors
      else
        let isNegative = peek text = ch CHR ''-'';
            threshold = (if isNegative then word_of_int (- minInt) else word_of_int maxUInt) div 10 in
        (case scan_digits threshold 0 (if isNegative then tl text else text) of
          NotANumber \<Rightarrow> Inr (False, cur, addError (quote text @ lit '' is not a number.'')
            token None errors)
        | TooLarge \<Rightarrow> decodeDouble D token cur errors
        | Number value \<Rightarrow>
            if isNegative then Inr (True, VInt (- value), errors)
            else if value \<le> word_of_int maxInt then Inr (True, VInt value, errors)
            else Inr (True, VUInt value, errors)))"

section \<open>Strings\<close>

definition codePointToUTF8 :: "u32 \<Rightarrow> byte list" where
  "codePointToUTF8 cp =
     (if cp \<le> 0x7F then [ucast cp]
      else if cp \<le> 0x7FF then
        [ucast (0xC0 OR (0x1F AND drop_bit 6 cp)), ucast (0x80 OR (0x3F AND cp))]
      else if cp \<le> 0xFFFF then
        [0xE0 OR ucast (0xF AND drop_bit 12 cp), 0x80 OR ucast (0x3F AND drop_bit 6 cp),
         ucast (0x80 OR (0x3F AND cp))]
      else if cp \<le> 0x10FFFF then
        [ucast (0xF0 OR (0x7 AND drop_bit 18 cp)), ucast (0x80 OR (0x3F AND drop_bit 12 cp)),
         ucast (0x80 OR (0x3F AND drop_bit 6 cp)), ucast (0x80 OR (0x3F AND cp))]
      else [])"

text \<open>
  A failed decoding is its message and the location \<open>extra_\<close>; \<open>base\<close> is the location of the closing
  quote, so that \<open>base + length cur\<close> is the location of \<open>current\<close>.
\<close>

type_synonym decode_error = "byte list \<times> Location"

fun unicode_digits :: "nat \<Rightarrow> nat \<Rightarrow> byte list \<Rightarrow> u32 \<Rightarrow> decode_error + (u32 \<times> byte list)" where
  "unicode_digits base 0 cur unicode = Inr (unicode, cur)"
| "unicode_digits base (Suc n) cur unicode =
     (let (c, cur) = getNextChar cur; unicode = unicode * 16 in
      if is_digit c then unicode_digits base n cur (unicode + ucast (c - ch CHR ''0''))
      else if ch CHR ''a'' \<le> c \<and> c \<le> ch CHR ''f'' then
        unicode_digits base n cur (unicode + ucast (c - ch CHR ''a'') + 10)
      else if ch CHR ''A'' \<le> c \<and> c \<le> ch CHR ''F'' then
        unicode_digits base n cur (unicode + ucast (c - ch CHR ''A'') + 10)
      else Inl (lit ''Bad unicode escape sequence in string: hexadecimal digit expected.'', base + length cur))"

definition decodeUnicodeEscapeSequence :: "nat \<Rightarrow> byte list \<Rightarrow> decode_error + (u32 \<times> byte list)" where
  "decodeUnicodeEscapeSequence base cur =
     (if length cur < 4
      then Inl (lit ''Bad unicode escape sequence in string: four digits expected.'', base + length cur)
      else unicode_digits base 4 cur 0)"

definition decodeUnicodeCodePoint :: "nat \<Rightarrow> byte list \<Rightarrow> decode_error + (u32 \<times> byte list)" where
  "decodeUnicodeCodePoint base cur =
     (case decodeUnicodeEscapeSequence base cur of
       Inl e \<Rightarrow> Inl e
     | Inr (unicode, cur) \<Rightarrow>
         if 0xD800 \<le> unicode \<and> unicode \<le> 0xDBFF then
           if length cur < 6
           then Inl (lit ''additional six characters expected to parse unicode surrogate pair.'', base + length cur)
           else
             let (c1, cur1) = getNextChar cur; (c2, cur2) = getNextChar cur1 in
             if c1 = 92 \<and> c2 = ch CHR ''u'' then
               (case decodeUnicodeEscapeSequence base cur2 of
                 Inl e \<Rightarrow> Inl e
               | Inr (surrogatePair, cur) \<Rightarrow>
                   Inr (0x10000 + push_bit 10 (unicode AND 0x3FF) + (surrogatePair AND 0x3FF), cur))
             else Inl (lit ''expecting another '' @ lit [CHR 0x5C] @
                 lit ''u token to begin the second half of a unicode surrogate pair'',
               base + length (if c1 = 92 then cur2 else cur1))
         else Inr (unicode, cur))"

lemma unicode_digits_length:
  "unicode_digits base n cur u = Inr (u', r) \<Longrightarrow> length r \<le> length cur"
  by (induction base n cur u rule: unicode_digits.induct)
     (fastforce simp: Let_def split: prod.splits if_splits dest!: getNextChar_length)+

lemma decodeUnicodeEscapeSequence_length:
  "decodeUnicodeEscapeSequence base cur = Inr (u, r) \<Longrightarrow> length r \<le> length cur"
  by (auto simp: decodeUnicodeEscapeSequence_def dest: unicode_digits_length split: if_splits)

lemma decodeUnicodeCodePoint_length:
  "decodeUnicodeCodePoint base cur = Inr (u, r) \<Longrightarrow> length r \<le> length cur"
  by (fastforce simp: decodeUnicodeCodePoint_def Let_def split: sum.splits prod.splits if_splits
      dest!: decodeUnicodeEscapeSequence_length getNextChar_length)

text \<open>The simple escapes.\<close>

definition simple_escape :: "byte \<Rightarrow> byte option" where
  "simple_escape e =
     (if e = 34 then Some 34 else if e = ch CHR ''/'' then Some (ch CHR ''/'')
      else if e = 92 then Some 92 else if e = ch CHR ''b'' then Some 8
      else if e = ch CHR ''f'' then Some 12 else if e = ch CHR ''n'' then Some 10
      else if e = ch CHR ''r'' then Some 13 else if e = ch CHR ''t'' then Some 9 else None)"

function decode_loop :: "nat \<Rightarrow> byte list \<Rightarrow> byte list \<Rightarrow> decode_error + byte list" where
  "decode_loop base [] decoded = Inr decoded"
| "decode_loop base (c # cur) decoded =
     (if c = 34 then Inr decoded
      else if c = 92 then
        (case cur of
          [] \<Rightarrow> Inl (lit ''Empty escape sequence in string'', base)
        | e # cur \<Rightarrow>
            (case simple_escape e of
              Some d \<Rightarrow> decode_loop base cur (decoded @ [d])
            | None \<Rightarrow>
                if e = ch CHR ''u'' then
                  (case decodeUnicodeCodePoint base cur of
                    Inl err \<Rightarrow> Inl err
                  | Inr (unicode, r) \<Rightarrow> decode_loop base r (decoded @ codePointToUTF8 unicode))
                else Inl (lit ''Bad escape sequence in string'', base + length cur)))
      else decode_loop base cur (decoded @ [c]))"
  by pat_completeness auto
termination
  by (relation "measure (\<lambda>(_, cur, _). length cur)") (auto dest: decodeUnicodeCodePoint_length)

text \<open>\<open>decodeString(Token&, std::string&)\<close>: the characters between the quotes of the token.\<close>

definition decodeString :: "Token \<Rightarrow> ErrorInfo list \<Rightarrow> byte list option \<times> ErrorInfo list" where
  "decodeString token errors =
     (case decode_loop (tstart token - (length (ttext token) - 1)) (butlast (tl (ttext token))) [] of
       Inl (message, extra) \<Rightarrow> (None, addError message token (Some extra) errors)
     | Inr decoded \<Rightarrow> (Some decoded, errors))"

definition decodeString_value :: "Token \<Rightarrow> 'd Value \<Rightarrow> ErrorInfo list \<Rightarrow> bool \<times> 'd Value \<times> ErrorInfo list" where
  "decodeString_value token cur errors =
     (case decodeString token errors of
       (None, errors) \<Rightarrow> (False, cur, errors)
     | (Some decoded, errors) \<Rightarrow> (True, value_of_string decoded, errors))"

section \<open>Values\<close>

type_synonym 'd read_result = "(bool \<times> 'd Value \<times> byte list \<times> ErrorInfo list) cres option"

definition rbind :: "'a cres option \<Rightarrow> ('a \<Rightarrow> 'b cres option) \<Rightarrow> 'b cres option" where
  "rbind m f = (case m of None \<Rightarrow> None | Some (Inl e) \<Rightarrow> Some (Inl e) | Some (Inr x) \<Rightarrow> f x)"

definition failed :: "'d Value \<Rightarrow> byte list \<times> ErrorInfo list \<Rightarrow> 'd read_result" where
  "failed v r = Some (Inr (False, v, r))"

text \<open>
  The part of \<open>readValue\<close> for the tokens that are no container. The loops of \<open>readObject\<close> and
  \<open>readArray\<close> are cut at the call of \<open>readValue\<close>: \<open>object_name\<close> is what comes before it, \<open>object_comma\<close>
  and \<open>array_comma\<close> what comes after it, each with either the result that ends the loop (\<open>Inl\<close>) or
  how it goes on.
\<close>

definition read_scalar :: "'d real_ops \<Rightarrow> Token \<Rightarrow> 'd Value \<Rightarrow> byte list \<Rightarrow> ErrorInfo list \<Rightarrow> 'd read_result" where
  "read_scalar D token cur s errors =
     (case ttype token of
        tokenNumber \<Rightarrow>
          Some (cmap (\<lambda>(ok, v, errors). (ok, v, s, errors)) (decodeNumber D token cur errors))
      | tokenString \<Rightarrow>
          let (ok, v, errors) = decodeString_value token cur errors in Some (Inr (ok, v, s, errors))
      | tokenTrue \<Rightarrow> Some (Inr (True, VBool True, s, errors))
      | tokenFalse \<Rightarrow> Some (Inr (True, VBool False, s, errors))
      | tokenNull \<Rightarrow> Some (Inr (True, VNull, s, errors))
      | _ \<Rightarrow> failed cur (s, addError (lit ''Syntax error: value, object or array expected.'') token None errors))"

definition object_name :: "byte list \<Rightarrow> 'd Value \<Rightarrow> byte list \<Rightarrow> ErrorInfo list \<Rightarrow>
    'd read_result + (byte list \<times> byte list \<times> ErrorInfo list)" where
  "object_name name v s errors =
     (let (tokenName, s) = skip_comments s in
      if ttype tokenName = tokenObjectEnd \<and> name = [] then Inl (Some (Inr (True, v, s, errors)))
      else if ttype tokenName \<noteq> tokenString then
        Inl (failed v (addErrorAndRecover (lit ''Missing '' @ quote (lit ''}'') @
          lit '' or object member name'') tokenName tokenObjectEnd s errors))
      else (case decodeString tokenName errors of
          (None, errors) \<Rightarrow> Inl (failed v (recoverFromError tokenObjectEnd s errors))
        | (Some name, errors) \<Rightarrow>
            let (colon, s) = readToken s in
            if ttype colon \<noteq> tokenMemberSeparator then
              Inl (failed v (addErrorAndRecover (lit ''Missing '' @ quote (lit '':'') @
                lit '' after object member name'') colon tokenObjectEnd s errors))
            else Inr (name, s, errors)))"

definition object_comma :: "'d Value \<Rightarrow> byte list \<Rightarrow> ErrorInfo list \<Rightarrow> 'd read_result + byte list" where
  "object_comma v s errors =
     (let (comma, s) = readToken s in
      if ttype comma \<noteq> tokenObjectEnd \<and> ttype comma \<noteq> tokenArraySeparator
         \<and> ttype comma \<noteq> tokenComment then
        Inl (failed v (addErrorAndRecover (lit ''Missing '' @ quote (lit '','') @
          lit '' or '' @ quote (lit ''}'') @ lit '' in object declaration'') comma tokenObjectEnd s errors))
      else
        let (comma, s) = (if ttype comma = tokenComment then skip_comments s else (comma, s)) in
        if ttype comma = tokenObjectEnd then Inl (Some (Inr (True, v, s, errors))) else Inr s)"

definition array_comma :: "'d Value \<Rightarrow> byte list \<Rightarrow> ErrorInfo list \<Rightarrow> 'd read_result + byte list" where
  "array_comma v s errors =
     (let (token, s) = skip_comments s;
          badTokenType = (ttype token = tokenArraySeparator \<and> ttype token = tokenArrayEnd) in
      if badTokenType then
        Inl (failed v (addErrorAndRecover (lit ''Missing '' @ quote (lit '','') @
          lit '' or '' @ quote (lit '']'') @ lit '' in array declaration'') token tokenArrayEnd s errors))
      else if ttype token = tokenArrayEnd then Inl (Some (Inr (True, v, s, errors)))
      else Inr s)"

text \<open>
  One activation of each of the three functions, with the functions it calls as arguments; the
  definitions after them tie the knot.
\<close>

type_synonym 'd reader = "'d Value \<Rightarrow> byte list \<Rightarrow> ErrorInfo list \<Rightarrow> 'd read_result"

definition readValue_body :: "(byte list \<Rightarrow> 'd reader) \<Rightarrow> (u32 \<Rightarrow> 'd reader) \<Rightarrow> Features \<Rightarrow> 'd real_ops \<Rightarrow> 'd reader" where
  "readValue_body read_object read_array F D cur s errors =
     (let (token, s) = skipCommentTokens F s in
      if ttype token = tokenObjectBegin then read_object [] (value_of_type D objectValue) s errors
      else if ttype token = tokenArrayBegin then
        let s = skipSpaces s; v = value_of_type D arrayValue in
        if peek s = ch CHR '']'' then Some (Inr (True, v, snd (readToken s), errors))
        else read_array 0 v s errors
      else read_scalar D token cur s errors)"

definition readObject_body :: "'d reader \<Rightarrow> (byte list \<Rightarrow> 'd reader) \<Rightarrow> byte list \<Rightarrow> 'd reader" where
  "readObject_body read_value read_object name v s errors =
     (case object_name name v s errors of
        Inl r \<Rightarrow> r
      | Inr (name, s, errors) \<Rightarrow>
          rbind (Some (resolveReference v name)) (\<lambda>v.
          rbind (Some (member_find v name)) (\<lambda>child.
          rbind (read_value (or_null child) s errors) (\<lambda>(ok, child, s, errors).
          rbind (Some (assign_member v name child)) (\<lambda>v.
            if \<not> ok then failed v (recoverFromError tokenObjectEnd s errors)
            else (case object_comma v s errors of
                Inl r \<Rightarrow> r
              | Inr s \<Rightarrow> read_object name v s errors))))))"

definition readArray_body :: "'d reader \<Rightarrow> (u32 \<Rightarrow> 'd reader) \<Rightarrow> u32 \<Rightarrow> 'd reader" where
  "readArray_body read_value read_array index v s errors =
     rbind (Some (index_ref v index)) (\<lambda>v.
     rbind (Some (index_find v index)) (\<lambda>child.
     rbind (read_value (or_null child) s errors) (\<lambda>(ok, child, s, errors).
     rbind (Some (assign_index v index child)) (\<lambda>v.
       if \<not> ok then failed v (recoverFromError tokenArrayEnd s errors)
       else (case array_comma v s errors of
           Inl r \<Rightarrow> r
         | Inr s \<Rightarrow> read_array (index + 1) v s errors)))))"

fun readValue :: "nat \<Rightarrow> Features \<Rightarrow> 'd real_ops \<Rightarrow> 'd reader"
  and readObject :: "nat \<Rightarrow> Features \<Rightarrow> 'd real_ops \<Rightarrow> byte list \<Rightarrow> 'd reader"
  and readArray :: "nat \<Rightarrow> Features \<Rightarrow> 'd real_ops \<Rightarrow> u32 \<Rightarrow> 'd reader"
where
  "readValue 0 F D cur s errors = None"
| "readValue (Suc n) F D cur s errors =
     readValue_body (readObject n F D) (readArray n F D) F D cur s errors"
| "readObject 0 F D name v s errors = None"
| "readObject (Suc n) F D name v s errors =
     readObject_body (readValue n F D) (readObject n F D) name v s errors"
| "readArray 0 F D index v s errors = None"
| "readArray (Suc n) F D index v s errors =
     readArray_body (readValue n F D) (readArray n F D) index v s errors"

section \<open>parse\<close>

text \<open>\<open>parse\<close>: whether it was successful, the root afterwards and the errors.\<close>

definition parse :: "Features \<Rightarrow> 'd real_ops \<Rightarrow> byte list \<Rightarrow> 'd Value \<Rightarrow> (bool \<times> 'd Value \<times> ErrorInfo list) cres option" where
  "parse F D document root =
     rbind (readValue (2 * length document + 2) F D root document []) (\<lambda>(successful, root, s, errors).
       let (token, s) = skipCommentTokens F s in
       if strictRoot F \<and> \<not> isArray root \<and> \<not> isObject root then
         Some (Inr (False, root,
           addError (lit ''A valid JSON document must be either an array or an object value.'')
             (token\<lparr>ttype := tokenError, ttext := document, tstart := length document\<rparr>) None errors))
       else Some (Inr (successful, root, errors)))"

text \<open>\<open>parse\<close> of a stream: \<open>std::getline\<close> up to the byte \<open>(char)EOF\<close>.\<close>

definition parse_stream :: "Features \<Rightarrow> 'd real_ops \<Rightarrow> byte list \<Rightarrow> 'd Value \<Rightarrow> (bool \<times> 'd Value \<times> ErrorInfo list) cres option" where
  "parse_stream F D sin root = parse F D (takeWhile (\<lambda>c. c \<noteq> 255) sin) root"

section \<open>Error messages\<close>

text \<open>The loop over the document up to \<open>location\<close>: the line, and where it starts.\<close>

fun line_start :: "Location \<Rightarrow> byte list \<Rightarrow> Location \<Rightarrow> nat \<Rightarrow> nat \<times> Location" where
  "line_start location [] lastLineStart line = (line, lastLineStart)"
| "line_start location (c # s) lastLineStart line =
     (if location < length (c # s) then
        if c = 13 then
          (case s of
            d # r \<Rightarrow> if d = 10 then line_start location r (length r) (line + 1)
                    else line_start location s (length s) (line + 1)
          | [] \<Rightarrow> line_start location s (length s) (line + 1))
        else if c = 10 then line_start location s (length s) (line + 1)
        else line_start location s lastLineStart line
      else (line, lastLineStart))"

definition getLocationLineAndColumn :: "byte list \<Rightarrow> Location \<Rightarrow> nat \<times> int" where
  "getLocationLineAndColumn doc location =
     (let (line, lastLineStart) = line_start location doc (length doc) 0 in
      (line + 1, int lastLineStart - int location + 1))"

definition dec_int :: "int \<Rightarrow> byte list" where
  "dec_int i = (if i < 0 then ch CHR ''-'' # uintToString (word_of_int (- i)) []
     else uintToString (word_of_int i) [])"

definition location_text :: "byte list \<Rightarrow> Location \<Rightarrow> byte list" where
  "location_text doc location =
     (let (line, column) = getLocationLineAndColumn doc location in
      lit ''Line '' @ dec_int (int line) @ lit '', Column '' @ dec_int column)"

definition getFormatedErrorMessages :: "byte list \<Rightarrow> ErrorInfo list \<Rightarrow> byte list" where
  "getFormatedErrorMessages doc errors =
     concat (map (\<lambda>e.
       lit ''* '' @ location_text doc (tstart (error_token e)) @ [10] @
       lit ''  '' @ error_message e @ [10] @
       (case error_extra e of
          Some extra \<Rightarrow> lit ''See '' @ location_text doc extra @ lit '' for detail.'' @ [10]
        | None \<Rightarrow> [])) errors)"

text \<open>\<open>operator>>\<close>, which throws the messages.\<close>

definition read_from_stream :: "'d real_ops \<Rightarrow> byte list \<Rightarrow> 'd Value \<Rightarrow> 'd Value cres option" where
  "read_from_stream D sin root =
     rbind (parse_stream Features_all D sin root) (\<lambda>(ok, root, errors).
       Some (if ok then Inr root else Inl RuntimeError))"

end
