(* ===== verification/Json_Reader_Props.thy ===== *)
theory Json_Reader_Props
  imports Json_Reader
begin

text \<open>
  The reader ends on every document and what it returns is well formed: \<open>parse\<close> gives
  \<open>readValue\<close> enough fuel (two units for each byte of the document), its only failure besides a
  rejected document is the overflow of the number buffer, the value read satisfies \<open>value_wf\<close>, and an
  error is recorded exactly when the document is rejected.
\<close>

section \<open>What the scanning functions leave\<close>

lemma skip_comments_shortens:
  "skip_comments s = (t, s') \<Longrightarrow>
     length s' \<le> length s \<and> (ttype t \<noteq> tokenEndOfStream \<longrightarrow> length s' < length s)"
proof (induction s arbitrary: t s' rule: skip_comments.induct)
  case (1 s)
  obtain u r where u: "readToken s = (u, r)" by fastforce
  note len = readToken_length [OF u] readToken_consumes [OF u]
  show ?case
  proof (cases "ttype u = tokenComment")
    case True
    with "1.prems" u have "skip_comments r = (t, s')" by (simp add: skip_comments.simps [of s])
    with "1.IH" [OF u [symmetric] refl True] len True show ?thesis by fastforce
  next
    case False
    with "1.prems" u len show ?thesis by (simp add: skip_comments.simps [of s])
  qed
qed

lemma skipCommentTokens_shortens:
  "skipCommentTokens F s = (t, s') \<Longrightarrow>
     length s' \<le> length s \<and> (ttype t \<noteq> tokenEndOfStream \<longrightarrow> length s' < length s)"
  by (auto simp: skipCommentTokens_def split: if_splits
      dest: skip_comments_shortens readToken_length readToken_consumes)

lemma recover_loop_length: "length (recover_loop ty s) \<le> length s"
proof (induction ty s rule: recover_loop.induct)
  case (1 ty s)
  obtain u r where u: "readToken s = (u, r)" by fastforce
  show ?case
    using "1.IH" [OF u [symmetric] refl] readToken_length [OF u] u
    by (auto simp: recover_loop.simps [of ty s])
qed

section \<open>Results of a read\<close>

text \<open>
  \<open>reported ok e e'\<close>: a successful read adds no error to \<open>errors_\<close>, a failed one adds at least one.
  \<open>ends\<close> and \<open>reads\<close> are what a part of a read and a whole read return.
\<close>

definition reported :: "bool \<Rightarrow> ErrorInfo list \<Rightarrow> ErrorInfo list \<Rightarrow> bool" where
  "reported ok e e' = (if ok then e' = e else length e < length e')"

definition ends :: "'d Value \<Rightarrow> byte list \<Rightarrow> ErrorInfo list \<Rightarrow> 'd read_result \<Rightarrow> bool" where
  "ends v s e r = (case r of
       Some (Inr (ok, v', s', e')) \<Rightarrow> v' = v \<and> length s' \<le> length s \<and> reported ok e e'
     | _ \<Rightarrow> False)"

definition reads :: "byte list \<Rightarrow> ErrorInfo list \<Rightarrow> 'd read_result \<Rightarrow> bool" where
  "reads s e r = (case r of
       None \<Rightarrow> False
     | Some (Inl c) \<Rightarrow> c = OutOfBounds
     | Some (Inr (ok, v, s', e')) \<Rightarrow>
         value_wf v \<and> length s' \<le> length s \<and> (ok \<longrightarrow> length s' < length s) \<and> reported ok e e')"

lemma reported_simps [simp]:
  "reported True e e' \<longleftrightarrow> e' = e"
  "reported False e e' \<longleftrightarrow> length e < length e'"
  by (simp_all add: reported_def)

lemma reads_simps [simp]:
  "\<not> reads s e None"
  "reads s e (Some (Inl c)) \<longleftrightarrow> c = OutOfBounds"
  "reads s e (Some (Inr (ok, v, s', e'))) \<longleftrightarrow>
     value_wf v \<and> length s' \<le> length s \<and> (ok \<longrightarrow> length s' < length s) \<and> reported ok e e'"
  by (simp_all add: reads_def)

lemma ends_simps [simp]:
  "ends v s e (Some (Inr (ok, v', s', e'))) \<longleftrightarrow> v' = v \<and> length s' \<le> length s \<and> reported ok e e'"
  by (simp add: ends_def)

lemma readsE:
  assumes "reads s e r"
  obtains "r = Some (Inl OutOfBounds)"
  | ok v s' e' where "r = Some (Inr (ok, v, s', e'))" "value_wf v" "length s' \<le> length s"
      "ok \<longrightarrow> length s' < length s" "reported ok e e'"
  using assms by (auto simp: reads_def split: option.splits sum.splits)

lemma reads_weaken: "reads s' e r \<Longrightarrow> length s' < length s \<Longrightarrow> reads s e r"
  by (erule readsE) auto

lemma rbind_simps [simp]:
  "rbind None f = None"
  "rbind (Some (Inl e)) f = Some (Inl e)"
  "rbind (Some (Inr x)) f = f x"
  by (simp_all add: rbind_def)

lemma ends_failed:
  "length e < length errors \<Longrightarrow> ends v s e (failed v (recoverFromError ty s errors))"
  "length e \<le> length errors \<Longrightarrow> ends v s e (failed v (addErrorAndRecover m t ty s errors))"
  by (simp_all add: failed_def recoverFromError_def addErrorAndRecover_def addError_def recover_loop_length)

lemma ends_shorter: "ends v s e r \<Longrightarrow> length s \<le> length s' \<Longrightarrow> ends v s' e r"
  by (auto simp: ends_def split: option.splits sum.splits)

lemma ends_reads: "ends v s e r \<Longrightarrow> value_wf v \<Longrightarrow> length s < length s' \<Longrightarrow> reads s' e r"
  by (auto simp: ends_def split: option.splits sum.splits)

lemma failed_reads:
  assumes "value_wf v" "length s \<le> length s'" "length e < length errors"
  shows "reads s' e (failed v (recoverFromError ty s errors))"
  using assms recover_loop_length [of ty s]
  by (simp add: failed_def recoverFromError_def)

lemma decodeString_cases:
  "(\<exists>d. decodeString t e = (Some d, e)) \<or> (\<exists>e'. decodeString t e = (None, e') \<and> length e < length e')"
  by (auto simp: decodeString_def addError_def split: sum.splits)

lemma object_name_Inl:
  assumes "object_name name v s e = Inl r" "value_wf v"
  shows "reads s e r"
proof -
  obtain t s1 where t: "skip_comments s = (t, s1)" by fastforce
  note len = skip_comments_shortens [OF t]
  show ?thesis
  proof (cases "ttype t = tokenString")
    case True
    obtain c s2 where c: "readToken s1 = (c, s2)" by fastforce
    have "ends v s1 e r"
      using decodeString_cases [of t e]
    proof (elim disjE exE conjE)
      fix d assume "decodeString t e = (Some d, e)"
      then show ?thesis
        using assms(1) t True c readToken_length [OF c]
        by (auto simp: object_name_def split: if_splits intro: ends_shorter [OF ends_failed(2)])
    next
      fix e' assume "decodeString t e = (None, e')" "length e < length e'"
      then show ?thesis
        using assms(1) t True by (auto simp: object_name_def intro: ends_failed)
    qed
    then show ?thesis by (rule ends_reads) (use assms(2) len True in auto)
  next
    case False
    then show ?thesis
      using assms t len recover_loop_length [of tokenObjectEnd s1]
      by (auto simp: object_name_def failed_def recoverFromError_def
          addErrorAndRecover_def addError_def split: if_splits)
  qed
qed

lemma object_name_Inr:
  assumes "object_name name v s e = Inr (name', s', e')"
  shows "length s' < length s \<and> e' = e"
proof -
  obtain t s1 where t: "skip_comments s = (t, s1)" by fastforce
  obtain c s2 where c: "readToken s1 = (c, s2)" by fastforce
  show ?thesis
    using decodeString_cases [of t e] assms t c readToken_length [OF c] skip_comments_shortens [OF t]
    by (auto simp: object_name_def split: if_splits)
qed

lemma object_comma_cases:
  "case object_comma v s e of Inl r \<Rightarrow> ends v s e r | Inr s' \<Rightarrow> length s' \<le> length s"
proof -
  obtain c s1 where c: "readToken s = (c, s1)" by fastforce
  obtain c' s2 where c': "skip_comments s1 = (c', s2)" by fastforce
  show ?thesis
    using c c' readToken_length [OF c] skip_comments_shortens [OF c'] recover_loop_length [of tokenObjectEnd s1]
    by (auto simp: object_comma_def failed_def recoverFromError_def addErrorAndRecover_def addError_def)
qed

lemma array_comma_cases:
  "case array_comma v s e of Inl r \<Rightarrow> ends v s e r | Inr s' \<Rightarrow> length s' \<le> length s"
proof -
  obtain c s1 where c: "skip_comments s = (c, s1)" by fastforce
  show ?thesis using c skip_comments_shortens [OF c]
    by (auto simp: array_comma_def)
qed

text \<open>The results of decoding a number: \<open>decoded\<close> is what \<open>decodeNumber\<close> and \<open>decodeDouble\<close> return.\<close>

definition decoded :: "ErrorInfo list \<Rightarrow> (bool \<times> 'd Value \<times> ErrorInfo list) cres \<Rightarrow> bool" where
  "decoded e r = (case r of Inl c \<Rightarrow> c = OutOfBounds | Inr (ok, v, e') \<Rightarrow> value_wf v \<and> reported ok e e')"

lemma decoded_simps [simp]:
  "decoded e (Inl c) \<longleftrightarrow> c = OutOfBounds"
  "decoded e (Inr (ok, v, e')) \<longleftrightarrow> value_wf v \<and> reported ok e e'"
  by (simp_all add: decoded_def)

lemma decodeDouble_cases: "value_wf cur \<Longrightarrow> decoded e (decodeDouble D t cur e)"
  by (cases "r_scan D (ttext t)") (simp_all add: decodeDouble_def Let_def addError_def)

lemma decodeNumber_cases: "value_wf cur \<Longrightarrow> decoded e (decodeNumber D t cur e)"
  using decodeDouble_cases [of cur e D t]
  by (simp add: decodeNumber_def Let_def addError_def split: number_scan.split)

lemma decodeString_value_cases:
  assumes "value_wf cur" "decodeString_value t cur e = (ok, v, e')"
  shows "value_wf v \<and> reported ok e e'"
  using decodeString_cases [of t e] assms
  by (auto simp: decodeString_value_def value_of_string_wf)

lemma read_scalar_reads:
  assumes "value_wf cur" "length s \<le> length s'"
    and "ttype t \<noteq> tokenEndOfStream \<longrightarrow> length s < length s'"
  shows "reads s' e (read_scalar D t cur s e)"
proof -
  obtain ok v e' where d: "decodeString_value t cur e = (ok, v, e')"
    by (cases "decodeString_value t cur e")
  show ?thesis
    using assms d decodeNumber_cases [OF assms(1), of e D t] decodeString_value_cases [OF assms(1) d]
    by (cases "ttype t"; cases "decodeNumber D t cur e")
       (auto simp: read_scalar_def failed_def addError_def)
qed

section \<open>Enough fuel\<close>

lemma resolveReference_object:
  "\<exists>ys. resolveReference (VObject xs) k = Inr (VObject ys)"
  by (auto simp: resolveReference_def)

lemma assign_member_object: "\<exists>ys. assign_member (VObject xs) k x = Inr (VObject ys)"
  by (auto simp: assign_member_def resolveReference_def split: option.splits)

lemma index_ref_array: "\<exists>ys. index_ref (VArray xs) i = Inr (VArray ys)"
  by (auto simp: index_ref_def)

lemma assign_index_array: "\<exists>ys. assign_index (VArray xs) i x = Inr (VArray ys)"
  by (auto simp: assign_index_def index_ref_def split: option.splits)

lemma or_null_wf: "(\<And>x. r = Some x \<Longrightarrow> value_wf x) \<Longrightarrow> value_wf (or_null r)"
  by (cases r) (auto simp: or_null_def)

lemma child_wf:
  "value_wf (VObject xs) \<Longrightarrow> value_wf (or_null (map_of xs k))"
  "value_wf (VArray ys) \<Longrightarrow> value_wf (or_null (map_of ys i))"
  by (auto intro!: or_null_wf dest: value_wf_lookup)

lemma readValue_step:
  assumes O: "\<And>s' xs. length s' < length s \<Longrightarrow> value_wf (VObject xs) \<Longrightarrow>
      reads s' errors (ro [] (VObject xs) s' errors)"
    and A: "\<And>s' xs. length s' < length s \<Longrightarrow> value_wf (VArray xs) \<Longrightarrow>
      reads s' errors (ra 0 (VArray xs) s' errors)"
    and wf: "value_wf cur"
  shows "reads s errors (readValue_body ro ra F D cur s errors)"
proof -
  obtain t s1 where t: "skipCommentTokens F s = (t, s1)" by fastforce
  note len = skipCommentTokens_shortens [OF t]
  consider "ttype t = tokenObjectBegin" | "ttype t = tokenArrayBegin"
    | "ttype t \<noteq> tokenObjectBegin" "ttype t \<noteq> tokenArrayBegin" by blast
  then show ?thesis
  proof cases
    case 1
    with len have "length s1 < length s" by simp
    with reads_weaken [OF O [OF this]] 1 t show ?thesis
      by (simp add: readValue_body_def value_wf_iff)
  next
    case 2
    with len have l: "length s1 < length s" by simp
    obtain u s2 where u: "readToken (skipSpaces s1) = (u, s2)" by fastforce
    have s: "length (skipSpaces s1) < length s" "length s2 < length s"
      using l skipSpaces_length [of s1] readToken_length [OF u] by simp_all
    with reads_weaken [OF A [OF s(1)]] 2 t u show ?thesis
      by (auto simp: readValue_body_def Let_def value_wf_iff)
  next
    case 3
    then show ?thesis
      using t len read_scalar_reads [OF wf, of s1 s t errors D] by (simp add: readValue_body_def)
  qed
qed

lemma readObject_step:
  assumes V: "\<And>cur s' e. length s' < length s \<Longrightarrow> value_wf cur \<Longrightarrow> reads s' e (rv cur s' e)"
    and O: "\<And>n s' xs e. length s' < length s \<Longrightarrow> value_wf (VObject xs) \<Longrightarrow>
      reads s' e (ro n (VObject xs) s' e)"
    and wf: "value_wf (VObject xs)"
  shows "reads s errors (readObject_body rv ro name (VObject xs) s errors)"
proof (cases "object_name name (VObject xs) s errors")
  case (Inl r)
  then show ?thesis using object_name_Inl wf by (auto simp: readObject_body_def)
next
  case (Inr r)
  then obtain n s1 e where r: "object_name name (VObject xs) s errors = Inr (n, s1, e)"
    by (cases r) auto
  have len: "length s1 < length s" and e: "e = errors" using object_name_Inr [OF r] by simp_all
  obtain ys where ys: "resolveReference (VObject xs) n = Inr (VObject ys)"
    using resolveReference_object by blast
  note wf1 = resolveReference_wf [OF wf ys]
  define child where "child = or_null (map_of ys (cstr n))"
  have "reads s1 e (rv child s1 e)" using V [OF len] child_wf(1) [OF wf1] by (simp add: child_def)
  then show ?thesis
  proof (cases rule: readsE)
    case 1
    with r ys show ?thesis by (simp add: readObject_body_def member_find_def child_def)
  next
    case (2 ok v s2 e2)
    obtain zs where zs: "assign_member (VObject ys) n v = Inr (VObject zs)"
      using assign_member_object by blast
    note wf2 = assign_member_wf [OF wf1 2(2) zs]
    have s2: "length s2 < length s" using 2(3) len by simp
    have "reads s e (case object_comma (VObject zs) s2 e2 of Inl r \<Rightarrow> r | Inr s' \<Rightarrow> ro n (VObject zs) s' e2)"
      if ok: ok
    proof (cases "object_comma (VObject zs) s2 e2")
      case (Inl r)
      then show ?thesis
        using object_comma_cases [of "VObject zs" s2 e2] ends_reads [OF _ wf2 s2] 2(5) ok by simp
    next
      case (Inr s3)
      then have "length s3 < length s" using object_comma_cases [of "VObject zs" s2 e2] s2 by simp
      from reads_weaken [OF O [OF this wf2] this] Inr 2(5) ok show ?thesis by simp
    qed
    with r ys zs 2(1,5) e failed_reads [OF wf2 less_imp_le [OF s2], of errors e2] show ?thesis
      by (cases ok) (simp_all add: readObject_body_def member_find_def child_def cong: sum.case_cong)
  qed
qed

lemma readArray_step:
  assumes V: "\<And>cur. value_wf cur \<Longrightarrow> reads s errors (rv cur s errors)"
    and A: "\<And>i s' xs e. length s' < length s \<Longrightarrow> value_wf (VArray xs) \<Longrightarrow>
      reads s' e (ra i (VArray xs) s' e)"
    and wf: "value_wf (VArray xs)"
  shows "reads s errors (readArray_body rv ra index (VArray xs) s errors)"
proof -
  obtain ys where ys: "index_ref (VArray xs) index = Inr (VArray ys)"
    using index_ref_array by blast
  note wf1 = index_ref_wf [OF wf ys]
  define child where "child = or_null (map_of ys (index_key index))"
  have "reads s errors (rv child s errors)" using V child_wf(2) [OF wf1] by (simp add: child_def)
  then show ?thesis
  proof (cases rule: readsE)
    case 1
    with ys show ?thesis by (simp add: readArray_body_def index_find_def child_def)
  next
    case (2 ok v s2 e2)
    obtain zs where zs: "assign_index (VArray ys) index v = Inr (VArray zs)"
      using assign_index_array by blast
    note wf2 = assign_index_wf [OF wf1 2(2) zs]
    have "reads s errors (case array_comma (VArray zs) s2 e2 of Inl r \<Rightarrow> r | Inr s' \<Rightarrow> ra (index + 1) (VArray zs) s' e2)"
      if ok: ok
    proof (cases "array_comma (VArray zs) s2 e2")
      case (Inl r)
      then show ?thesis
        using array_comma_cases [of "VArray zs" s2 e2] ends_reads [OF _ wf2] 2(4,5) ok by simp
    next
      case (Inr s3)
      then have "length s3 < length s" using array_comma_cases [of "VArray zs" s2 e2] 2(4) ok by simp
      from reads_weaken [OF A [OF this wf2] this] Inr 2(5) ok show ?thesis by simp
    qed
    with ys zs 2(1,5) failed_reads [OF wf2 2(3), of errors e2] show ?thesis
      by (cases ok) (simp_all add: readArray_body_def index_find_def child_def cong: sum.case_cong)
  qed
qed

lemma read_enough:
  shows "\<And>cur s errors. 2 * length s < n \<Longrightarrow> value_wf cur \<Longrightarrow> reads s errors (readValue n F D cur s errors)"
    and "\<And>name xs s errors. 2 * length s < n \<Longrightarrow> value_wf (VObject xs) \<Longrightarrow>
      reads s errors (readObject n F D name (VObject xs) s errors)"
    and "\<And>i xs s errors. 2 * length s + 1 < n \<Longrightarrow> value_wf (VArray xs) \<Longrightarrow>
      reads s errors (readArray n F D i (VArray xs) s errors)"
proof (induction n)
  case (Suc n)
  {
    case 1
    show ?case unfolding readValue.simps
      by (rule readValue_step) (use 1 Suc.IH(2,3) in auto)
  next
    case 2
    show ?case unfolding readObject.simps
      by (rule readObject_step) (use 2 Suc.IH(1,2) in auto)
  next
    case 3
    show ?case unfolding readArray.simps
      by (rule readArray_step) (use 3 Suc.IH(1,3) in auto)
  }
qed simp_all

text \<open>\<open>parse\<close> ends on every document.\<close>

lemma parse_cases:
  assumes "value_wf root"
  shows "parse F D doc root = Some (Inl OutOfBounds) \<or>
    (\<exists>ok v errors. parse F D doc root = Some (Inr (ok, v, errors)) \<and> value_wf v \<and> (ok \<longleftrightarrow> errors = []))"
proof -
  have "reads doc [] (readValue (2 * length doc + 2) F D root doc [])"
    by (rule read_enough(1)) (use assms in auto)
  then show ?thesis
    by (cases rule: readsE)
       (auto simp: parse_def split_beta Let_def addError_def reported_def simp del: readValue.simps split: if_splits)
qed

end
