(* ===== verification/Json_Tokens.thy ===== *)
theory Json_Tokens
  imports Json_Reader_Props
begin

text \<open>
  How the reader scans what the writers write: the texts of numbers and strings are single tokens,
  whatever white space precedes them, and decoding gives back the number and the string.
\<close>

section \<open>Tokens after white space\<close>

definition spaces :: "byte list \<Rightarrow> bool" where
  "spaces w = list_all is_space w"

definition token_at :: "byte list \<Rightarrow> TokenType \<Rightarrow> byte list \<Rightarrow> byte list \<Rightarrow> bool" where
  "token_at s ty text rest \<longleftrightarrow>
     (\<exists>p. readToken s = (\<lparr>ttype = ty, ttext = text, tstart = p\<rparr>, rest))"

lemma spaces_append [simp]: "spaces (v @ w) \<longleftrightarrow> spaces v \<and> spaces w"
  by (simp add: spaces_def)

lemma spaces_Nil [simp]: "spaces []"
  by (simp add: spaces_def)

lemma spaces_Cons [simp]: "spaces (c # w) \<longleftrightarrow> is_space c \<and> spaces w"
  by (simp add: spaces_def)

lemma skipSpaces_spaces: "spaces w \<Longrightarrow> skipSpaces (w @ s) = skipSpaces s"
  by (induction w) (auto simp: spaces_def)

lemma skipSpaces_idem [simp]: "skipSpaces (skipSpaces s) = skipSpaces s"
  by (induction s) auto

lemma readToken_skipSpaces [simp]: "readToken (skipSpaces s) = readToken s"
  by (simp add: readToken_def)

lemma readToken_spaces: "spaces w \<Longrightarrow> readToken (w @ s) = readToken s"
  by (simp add: readToken_def skipSpaces_spaces)

lemma token_at_spaces: "spaces w \<Longrightarrow> token_at (w @ s) ty text rest = token_at s ty text rest"
  by (simp add: token_at_def readToken_spaces)

lemma skip_comments_token: "token_at s ty text rest \<Longrightarrow> ty \<noteq> tokenComment \<Longrightarrow>
    \<exists>p. skip_comments s = (\<lparr>ttype = ty, ttext = text, tstart = p\<rparr>, rest) \<and>
        readToken s = (\<lparr>ttype = ty, ttext = text, tstart = p\<rparr>, rest)"
  by (auto simp: token_at_def skip_comments.simps [of s])

lemma skipCommentTokens_token: "token_at s ty text rest \<Longrightarrow> ty \<noteq> tokenComment \<Longrightarrow>
    \<exists>p. skipCommentTokens F s = (\<lparr>ttype = ty, ttext = text, tstart = p\<rparr>, rest)"
  by (auto simp: skipCommentTokens_def dest: skip_comments_token)

lemma is_digit_range: "is_digit c \<longleftrightarrow> 48 \<le> c \<and> c \<le> 57"
  by (simp add: is_digit_def)

lemma punctuation_tokens:
  "token_at (123 # s) tokenObjectBegin [123] s"
  "token_at (125 # s) tokenObjectEnd [125] s"
  "token_at (91 # s) tokenArrayBegin [91] s"
  "token_at (93 # s) tokenArrayEnd [93] s"
  "token_at (44 # s) tokenArraySeparator [44] s"
  "token_at (58 # s) tokenMemberSeparator [58] s"
  by (simp_all add: token_at_def readToken_def is_space_def getNextChar_def is_digit_def)

lemma word_tokens:
  "token_at (lit ''null'' @ s) tokenNull (lit ''null'') s"
  "token_at (lit ''true'' @ s) tokenTrue (lit ''true'') s"
  "token_at (lit ''false'' @ s) tokenFalse (lit ''false'') s"
  by (simp_all add: token_at_def readToken_def is_space_def getNextChar_def is_digit_def match_ahead_def lit_def)

section \<open>Numbers\<close>

definition number_text :: "byte list \<Rightarrow> bool" where
  "number_text t \<longleftrightarrow> t \<noteq> [] \<and> (is_digit (hd t) \<or> hd t = ch CHR ''-'') \<and> list_all number_char (tl t)"

definition after_number :: "byte list \<Rightarrow> bool" where
  "after_number s \<longleftrightarrow> \<not> number_char (peek s)"

lemma readNumber_text:
  "list_all number_char t \<Longrightarrow> after_number s \<Longrightarrow> readNumber (t @ s) = s"
proof (induction t)
  case Nil
  then show ?case by (cases s) (auto simp: after_number_def peek_def)
qed simp

lemma digit_or_minus_cases:
  assumes "is_digit c \<or> c = (45::byte)"
  shows "\<not> is_space c" "c \<noteq> 123" "c \<noteq> 125" "c \<noteq> 91" "c \<noteq> 93" "c \<noteq> 34" "c \<noteq> 47"
  using assms by (auto simp: is_digit_def is_space_def)

lemma number_token:
  assumes "number_text t" "after_number s"
  shows "token_at (t @ s) tokenNumber t s"
proof -
  obtain c r where t: "t = c # r" and c: "is_digit c \<or> c = 45" and r: "list_all number_char r"
    using assms(1) by (cases t) (auto simp: number_text_def)
  show ?thesis
    using t c readNumber_text [OF r assms(2)] digit_or_minus_cases [OF c]
    by (simp add: token_at_def readToken_def getNextChar_def)
qed

text \<open>\<open>uintToString\<close> without its accumulator.\<close>

definition digits :: "u32 \<Rightarrow> byte list" where
  "digits v = uintToString v []"

lemma uintToString_append: "uintToString v (acc @ r) = uintToString v acc @ r"
proof (induction v acc rule: uintToString.induct)
  case (1 v acc)
  then show ?case
    by (simp add: uintToString.simps [of v] Let_def)
qed

lemma digits_simps: "digits v =
    (if v div 10 = 0 then [] else digits (v div 10)) @ [ucast (v mod 10) + ch CHR ''0'']"
  using uintToString_append [of "v div 10" "[]" "[ucast (v mod 10) + ch CHR ''0'']"]
  by (simp add: digits_def uintToString.simps [of v] Let_def)

lemma digit_byte_less:
  assumes "x < (10 :: u32)"
  shows "is_digit (ucast x + 48) \<and> ucast (ucast x + 48 - ch CHR ''0'' :: byte) = x"
proof -
  define n where "n = unat x"
  have x: "x = word_of_nat n" by (simp add: n_def)
  have "n < 10" using assms by (simp add: n_def word_less_nat_alt)
  then have "n = 0 \<or> n = 1 \<or> n = 2 \<or> n = 3 \<or> n = 4 \<or> n = 5 \<or> n = 6 \<or> n = 7 \<or> n = 8 \<or> n = 9"
    by arith
  then show ?thesis unfolding x by (elim disjE) (simp_all add: is_digit_def)
qed

lemma mod_10_less: "(v :: u32) mod 10 < 10"
  by (simp add: word_less_nat_alt unat_mod)

lemma digit_byte:
  fixes v :: u32
  shows "is_digit (ucast (v mod 10) + 48)" "ucast (ucast (v mod 10) :: byte) = v mod 10"
  using digit_byte_less [OF mod_10_less [of v]] by simp_all

lemma digits_digits: "list_all is_digit (digits v)"
proof (induction "unat v" arbitrary: v rule: less_induct)
  case less
  show ?case
  proof (cases "v div 10 = 0")
    case True
    then show ?thesis by (simp add: digits_simps [of v] digit_byte)
  next
    case False
    then have "v \<noteq> 0" by auto
    then have "unat (v div 10) < unat v" by (simp add: unat_div unat_gt_0)
    from less [OF this] show ?thesis by (simp add: digits_simps [of v] digit_byte)
  qed
qed

lemma digits_not_Nil [simp]: "digits v \<noteq> []"
  by (simp add: digits_simps [of v])

lemma scan_digits_append:
  "scan_digits thr v (xs @ ys) = (case scan_digits thr v xs of Number u \<Rightarrow> scan_digits thr u ys | r \<Rightarrow> r)"
  by (induction xs arbitrary: v) auto

lemma scan_digits_digits:
  "0 < thr \<Longrightarrow> v div 10 < thr \<Longrightarrow> scan_digits thr 0 (digits v) = Number v"
proof (induction "unat v" arbitrary: v rule: less_induct)
  case less
  have v: "v div 10 * 10 + v mod 10 = v" by (rule word_mod_div_equality)
  show ?case
  proof (cases "v div 10 = 0")
    case True
    then have "v mod 10 = v" using v by simp
    with True show ?thesis using less.prems digit_byte [of v]
      by (auto simp: digits_simps [of v] not_le)
  next
    case False
    then have "v \<noteq> 0" by auto
    then have l: "unat (v div 10) < unat v" by (simp add: unat_div unat_gt_0)
    have "v div 10 div 10 < thr" using less.prems(2)
      by (simp add: word_less_nat_alt unat_div) 
    from less.hyps [OF l less.prems(1) this] False show ?thesis
      using less.prems v by (simp add: digits_simps [of v] scan_digits_append digit_byte not_le)
  qed
qed

lemma scan_digits_large:
  "0 < thr \<Longrightarrow> thr \<le> v div 10 \<Longrightarrow> scan_digits thr 0 (digits v) = TooLarge"
proof (induction "unat v" arbitrary: v rule: less_induct)
  case less
  have nz: "v div 10 \<noteq> 0" using less.prems by auto
  then have "v \<noteq> 0" by auto
  then have l: "unat (v div 10) < unat v" by (simp add: unat_div unat_gt_0)
  have d: "digits v = digits (v div 10) @ [ucast (v mod 10) + ch CHR ''0'']"
    using nz digits_simps [of v] by simp
  show ?case
  proof (cases "thr \<le> v div 10 div 10")
    case True
    from less.hyps [OF l less.prems(1) this] show ?thesis unfolding d by (simp add: scan_digits_append)
  next
    case False
    then have "scan_digits thr 0 (digits (v div 10)) = Number (v div 10)"
      using scan_digits_digits [OF less.prems(1), of "v div 10"] by simp
    then show ?thesis unfolding d using less.prems(2) digit_byte(1) [of v] by (simp add: scan_digits_append)
  qed
qed

text \<open>The number texts, and what \<open>decodeNumber\<close> makes of them.\<close>

definition number_value :: "'d real_ops \<Rightarrow> byte list \<Rightarrow> 'd Value \<Rightarrow> bool" where
  "number_value D t v \<longleftrightarrow> number_text t \<and>
     (\<forall>p cur errors. decodeNumber D \<lparr>ttype = tokenNumber, ttext = t, tstart = p\<rparr> cur errors = Inr (True, v, errors))"

lemma digit_number_char: "list_all is_digit t \<Longrightarrow> list_all number_char t"
  by (auto simp: list_all_iff number_char_def)

lemma digit_not_special:
  "is_digit c \<Longrightarrow> c \<noteq> 46 \<and> c \<noteq> 101 \<and> c \<noteq> 69 \<and> c \<noteq> 43 \<and> c \<noteq> 45"
  by (auto simp: is_digit_def)

lemma digits_not_double:
  assumes "list_all is_digit t"
  shows "\<not> looks_double t" "\<not> looks_double (45 # t)"
proof -
  have "45 \<notin> set t" "45 \<notin> set (tl t)"
    using assms by (cases t; auto simp: list_all_iff is_digit_def)+
  moreover have "\<not> list_ex (\<lambda>c. c = 46 \<or> c = 101 \<or> c = 69 \<or> c = 43) t"
    using assms by (auto simp: list_all_iff list_ex_iff dest: digit_not_special)
  ultimately show "\<not> looks_double t" "\<not> looks_double (45 # t)"
    by (simp_all add: looks_double_def)
qed

lemma peek_digits: "peek (digits v) \<noteq> 45"
  using digits_digits [of v] digits_not_Nil [of v]
  by (cases "digits v") (auto simp: peek_def dest: digit_not_special)

lemma number_text_digits: "number_text (digits v)" "number_text (45 # digits v)"
proof -
  obtain c r where d: "digits v = c # r" by (cases "digits v") simp_all
  with digits_digits [of v] have "is_digit c" "list_all is_digit r" by simp_all
  with d show "number_text (digits v)" "number_text (45 # digits v)"
    using digit_number_char [of r] digit_number_char [of "c # r"] by (simp_all add: number_text_def)
qed

lemma decode_digits:
  assumes "unat v < 4294967290"
  shows "number_value D (digits v) (if v \<le> word_of_int maxInt then VInt v else VUInt v)"
proof -
  have "v div 10 < word_of_int maxUInt div 10"
    using assms by (simp add: word_less_nat_alt unat_div maxUInt_def)
  from scan_digits_digits [OF _ this] show ?thesis
    by (simp add: number_value_def number_text_digits decodeNumber_def digits_not_double digits_digits
        peek_digits Let_def maxUInt_def word_less_nat_alt unat_div)
qed

lemma decode_minus_digits:
  assumes "unat v < 2147483640"
  shows "number_value D (45 # digits v) (VInt (- v))"
proof -
  have "v div 10 < word_of_int (- minInt) div 10"
    using assms by (simp add: word_less_nat_alt unat_div minInt_def)
  from scan_digits_digits [OF _ this] show ?thesis
    by (simp add: number_value_def number_text_digits decodeNumber_def digits_not_double digits_digits
        peek_def Let_def minInt_def word_less_nat_alt unat_div)
qed

text \<open>Beyond the threshold the number is decoded as a double.\<close>

lemma length_digits: "unat v < 10 ^ n \<Longrightarrow> 0 < n \<Longrightarrow> length (digits v) \<le> n"
proof (induction n arbitrary: v)
  case (Suc n)
  show ?case
  proof (cases "v div 10 = 0")
    case True
    then show ?thesis by (simp add: digits_simps [of v])
  next
    case False
    have "unat (v div 10) < 10 ^ n" using Suc.prems(1) by (simp add: unat_div)
    moreover have "0 < n" using False calculation by (cases n) (simp_all add: unat_eq_0)
    ultimately show ?thesis using Suc.IH [of "v div 10"] False by (simp add: digits_simps [of v])
  qed
qed simp

lemma digits_bound: "length (digits v) \<le> 10"
proof -
  have "unat v < 2 ^ 32" by (rule order.strict_trans2 [OF unsigned_less]) simp
  then show ?thesis by (intro length_digits) simp_all
qed

lemma decode_digits_large:
  assumes "4294967290 \<le> unat v" "r_scan D (digits v) = Some d"
  shows "number_value D (digits v) (VReal d)"
proof -
  have "word_of_int maxUInt div 10 \<le> v div 10"
    using assms by (simp add: word_le_nat_alt unat_div maxUInt_def)
  from scan_digits_large [OF _ this] show ?thesis
    using assms(2) digits_bound [of v]
    by (simp add: number_value_def number_text_digits decodeNumber_def digits_not_double digits_digits
        peek_digits Let_def maxUInt_def word_less_nat_alt unat_div decodeDouble_def)
qed

lemma decode_minus_digits_large:
  assumes "2147483640 \<le> unat v" "r_scan D (45 # digits v) = Some d"
  shows "number_value D (45 # digits v) (VReal d)"
proof -
  have "word_of_int (- minInt) div 10 \<le> v div 10"
    using assms by (simp add: word_le_nat_alt unat_div minInt_def)
  from scan_digits_large [OF _ this] show ?thesis
    using assms(2) digits_bound [of v]
    by (simp add: number_value_def number_text_digits decodeNumber_def digits_not_double digits_digits
        peek_def Let_def minInt_def word_less_nat_alt unat_div decodeDouble_def)
qed

text \<open>No integer text is longer than the buffer it is written to.\<close>

lemma valueToString_UInt_digits: "valueToString_UInt u = Inr (digits u)"
  using digits_bound [of u] by (simp add: valueToString_UInt_def in_buffer_def digits_def)

lemma valueToString_Int_digits:
  "valueToString_Int i = Inr (if sint i < 0 then 45 # digits (- i) else digits i)"
  using digits_bound [of i] digits_bound [of "- i"]
  by (simp add: valueToString_Int_def in_buffer_def digits_def Let_def)

text \<open>
  Values the text format can hold, and what the reader makes of them. An unsigned value that fits is
  read as \<open>Int\<close>; close to the limits of the integer types (\<open>decodeNumber\<close> compares with
  \<open>value >= threshold\<close>) an integer is read as a double. A double has to survive its own text, a string
  must not be null, an array must have no gaps; the sizes of containers fit into an \<open>int\<close>.
\<close>

definition real_storable :: "'d real_ops \<Rightarrow> 'd \<Rightarrow> bool" where
  "real_storable D d = (case valueToString_double D d of
       Inl _ \<Rightarrow> False
     | Inr t \<Rightarrow> number_text t \<and> looks_double t \<and> r_scan D t = Some d)"

fun storable :: "'d real_ops \<Rightarrow> 'd Value \<Rightarrow> bool" where
  "storable D (VInt i) = (- 2147483640 < sint i \<or> r_scan D (45 # digits (- i)) \<noteq> None)"
| "storable D (VUInt u) = (unat u < 4294967290 \<or> r_scan D (digits u) \<noteq> None)"
| "storable D (VReal d) = real_storable D d"
| "storable D (VString s) = (s \<noteq> None)"
| "storable D (VArray xs) =
     (map fst xs = map int [0..<length xs] \<and> length xs < 2147483648 \<and> (\<forall>(i, v) \<in> set xs. storable D v))"
| "storable D (VObject xs) = (length xs < 2147483648 \<and> (\<forall>(k, v) \<in> set xs. storable D v))"
| "storable D _ = True"

fun reread :: "'d real_ops \<Rightarrow> 'd Value \<Rightarrow> 'd Value" where
  "reread D (VInt i) =
     (if - 2147483640 < sint i then VInt i else VReal (the (r_scan D (45 # digits (- i)))))"
| "reread D (VUInt u) =
     (if u \<le> word_of_int maxInt then VInt u
      else if unat u < 4294967290 then VUInt u else VReal (the (r_scan D (digits u))))"
| "reread D (VArray xs) = VArray (map (\<lambda>(i, v). (i, reread D v)) xs)"
| "reread D (VObject xs) = VObject (map (\<lambda>(k, v). (k, reread D v)) xs)"
| "reread D v = v"

lemma decode_UInt:
  assumes "storable D (VUInt u)"
  shows "\<exists>t. valueToString_UInt u = Inr t \<and> number_value D t (reread D (VUInt u))"
proof (cases "unat u < 4294967290")
  case True
  from decode_digits [OF this, of D] True show ?thesis
    by (simp add: valueToString_UInt_digits split: if_splits)
next
  case False
  then have "\<not> u \<le> word_of_int maxInt" by (simp add: word_le_nat_alt maxInt_def)
  with False assms decode_digits_large [of u D] show ?thesis by (auto simp: valueToString_UInt_digits)
qed

lemma uint_sint:
  fixes w :: "'a::len word"
  assumes "0 \<le> sint w"
  shows "uint w = sint w"
proof -
  have "sint w < 2 ^ LENGTH('a)"
    using sint_lt [of w] by (rule order.strict_trans2) (simp add: power_increasing)
  then have "take_bit LENGTH('a) (sint w) = sint w" using assms by (simp add: take_bit_int_eq_self)
  then show ?thesis using uint_word_of_int_eq [of "sint w", where 'a = 'a] by simp
qed

lemma unat_uminus_neg:
  assumes "sint (i :: u32) < 0"
  shows "int (unat (- i)) = - sint i"
proof -
  have "- i = word_of_int (- sint i)" by simp
  then have "uint (- i) = take_bit LENGTH(32) (- sint i)" by (metis uint_word_of_int_eq)
  moreover have "- sint i \<le> 2147483648" using sint_ge [of i] by simp
  ultimately show ?thesis using assms by (simp add: take_bit_int_eq_self)
qed

lemma decode_Int:
  assumes "storable D (VInt i)"
  shows "\<exists>t. valueToString_Int i = Inr t \<and> number_value D t (reread D (VInt i))"
proof (cases "sint i < 0")
  case neg: True
  note u = unat_uminus_neg [OF neg]
  show ?thesis
  proof (cases "- 2147483640 < sint i")
    case True
    then have "unat (- i) < 2147483640" using u by linarith
    from decode_minus_digits [OF this, of D] True neg show ?thesis by (simp add: valueToString_Int_digits)
  next
    case False
    then have "2147483640 \<le> unat (- i)" using u by linarith
    with decode_minus_digits_large [of "- i" D] False neg assms show ?thesis
      by (auto simp: valueToString_Int_digits)
  qed
next
  case False
  then have "uint i = sint i" by (simp add: uint_sint not_less)
  moreover have "sint i < 2147483648" using sint_lt [of i] by simp
  ultimately have "unat i < 2147483648" "i \<le> word_of_int maxInt"
    by (simp_all add: word_le_def maxInt_def unat_eq_nat_uint)
  with decode_digits [of i D] False show ?thesis by (simp add: valueToString_Int_digits)
qed

section \<open>Strings\<close>

lemma control_cases:
  assumes "isControlCharacter c"
  shows "c < 32 \<and> c \<noteq> 0"
proof -
  have "0 < sint c" "sint c \<le> 31" using assms by (simp_all add: isControlCharacter_def)
  moreover have "uint c = sint c" using \<open>0 < sint c\<close> by (simp add: uint_sint)
  ultimately show ?thesis by (auto simp: word_less_def)
qed

text \<open>The escape of a control character is a backslash, a \<open>u\<close> and four digits that denote it.\<close>

lemma hex_digit_cases:
  assumes "d < 16" "P 0" "P 1" "P 2" "P 3" "P 4" "P 5" "P 6" "P 7" "P 8" "P 9" "P 10" "P 11" "P 12"
    "P 13" "P 14" "P (15 :: nat)"
  shows "P d"
proof -
  have "d = 0 \<or> d = 1 \<or> d = 2 \<or> d = 3 \<or> d = 4 \<or> d = 5 \<or> d = 6 \<or> d = 7 \<or> d = 8 \<or> d = 9 \<or> d = 10
      \<or> d = 11 \<or> d = 12 \<or> d = 13 \<or> d = 14 \<or> d = 15"
    using assms(1) by arith
  then show ?thesis using assms by (elim disjE) simp_all
qed

lemma unicode_digit:
  "d < 16 \<Longrightarrow> unicode_digits base (Suc n) (hex_digit True d # s) u = unicode_digits base n s (u * 16 + of_nat d)"
  by (erule hex_digit_cases) (simp_all add: getNextChar_def hex_digit_def is_digit_def add.assoc)

lemma hex_digit_plain: "d < 16 \<Longrightarrow> hex_digit up d \<noteq> 34 \<and> hex_digit up d \<noteq> 92 \<and> hex_digit up d \<noteq> 0"
  by (erule hex_digit_cases) (cases up; simp add: hex_digit_def)+

definition hex_quad :: "byte \<Rightarrow> byte list" where
  "hex_quad c = (let h = hex_text True (unat c) in replicate (4 - length h) 48 @ h)"

lemma hex_quad_eq:
  assumes "c < (32::byte)"
  shows "hex_quad c = map (hex_digit True) [0, 0, unat c div 16, unat c mod 16]"
proof -
  have c: "unat c < 32" using assms by (simp add: word_less_nat_alt)
  have z: "hex_digit True 0 = 48" by (simp add: hex_digit_def)
  have pad: "replicate (4 - length [x]) 48 @ [x] = [48, 48, 48, x]"
    "replicate (4 - length [x, y]) 48 @ [x, y] = [48, 48, x, y]" for x y :: byte
    by (simp_all add: eval_nat_numeral)
  show ?thesis
  proof (cases "unat c < 16")
    case True
    then have "hex_text True (unat c) = [hex_digit True (unat c)]" by (simp add: hex_text.simps [of True "unat c"])
    with True pad(1) z show ?thesis by (simp only: hex_quad_def Let_def) simp
  next
    case False
    have "unat c div 16 < 16" using c by simp
    with False have "hex_text True (unat c) = [hex_digit True (unat c div 16), hex_digit True (unat c mod 16)]"
      by (simp add: hex_text.simps [of True "unat c"] hex_text.simps [of True "unat c div 16"])
    with pad(2) z show ?thesis by (simp only: hex_quad_def Let_def) simp
  qed
qed

lemma unicode_quad:
  assumes "a < 16" "b < 16" "c < 16" "d < 16"
  shows "unicode_digits base 4 (map (hex_digit True) [a, b, c, d] @ s) 0 =
    Inr (of_nat (((a * 16 + b) * 16 + c) * 16 + d), s)"
proof -
  have four: "(4 :: nat) = Suc (Suc (Suc (Suc 0)))" by simp
  show ?thesis unfolding four using assms by (simp add: unicode_digit del: unicode_digits.simps(2))
qed

lemma hex_quad:
  assumes "c < (32::byte)"
  shows "\<forall>d \<in> set (hex_quad c). d \<noteq> 34 \<and> d \<noteq> 92"
    and "decodeUnicodeCodePoint base (hex_quad c @ r) = Inr (ucast c, r)"
    and "codePointToUTF8 (ucast c) = [c]"
proof -
  have c: "unat c < 32" using assms by (simp add: word_less_nat_alt)
  then have d: "unat c div 16 < 16" "unat c mod 16 < 16" by simp_all
  show "\<forall>d \<in> set (hex_quad c). d \<noteq> 34 \<and> d \<noteq> 92"
    unfolding hex_quad_eq [OF assms] using hex_digit_plain [of _ True] d by auto
  have "unicode_digits base 4 (hex_quad c @ r) 0 = Inr (of_nat (unat c), r)"
    unfolding hex_quad_eq [OF assms] using unicode_quad [OF _ _ d, of 0 0 base r] by simp
  then have "unicode_digits base 4 (hex_quad c @ r) 0 = Inr (ucast c, r)" by simp
  moreover have "length (hex_quad c @ r) \<ge> 4" by (simp add: hex_quad_eq [OF assms])
  moreover have u: "(ucast c :: u32) < 32" 
    using c by (simp add: word_less_nat_alt unsigned_ucast_eq take_bit_nat_eq_self)
  moreover have "\<not> (0xD800 :: u32) \<le> ucast c"
    using u by (simp add: word_le_nat_alt word_less_nat_alt)
  ultimately show "decodeUnicodeCodePoint base (hex_quad c @ r) = Inr (ucast c, r)"
    by (simp add: decodeUnicodeCodePoint_def decodeUnicodeEscapeSequence_def)
  show "codePointToUTF8 (ucast c) = [c]"
    using u by (simp add: codePointToUTF8_def word_less_nat_alt word_le_nat_alt ucast_up_ucast_id is_up_def
        source_size_def target_size_def word_size)
qed

text \<open>The escaped text of a string: \<open>readString\<close> runs over it, \<open>decode_loop\<close> undoes it.\<close>

lemma escape_cases:
  obtains "escape c = [c]" "c \<noteq> 34" "c \<noteq> 92"
  | e where "escape c = [92, e]" "simple_escape e = Some c"
  | "escape c = [92, ch CHR ''u''] @ hex_quad c" "c < 32" "simple_escape (ch CHR ''u'') = None"
proof -
  consider "c = 34 \<or> c = 92 \<or> c = 8 \<or> c = 12 \<or> c = 10 \<or> c = 13 \<or> c = 9"
    | "c \<noteq> 34" "c \<noteq> 92" "c \<noteq> 8" "c \<noteq> 12" "c \<noteq> 10" "c \<noteq> 13" "c \<noteq> 9" "isControlCharacter c"
    | "c \<noteq> 34" "c \<noteq> 92" "c \<noteq> 8" "c \<noteq> 12" "c \<noteq> 10" "c \<noteq> 13" "c \<noteq> 9" "\<not> isControlCharacter c"
    by blast
  then show ?thesis
  proof cases
    case 1
    then have "\<exists>e. escape c = [92, e] \<and> simple_escape e = Some c"
      by (elim disjE) (simp_all add: escape_def simple_escape_def lit_def)
    then show ?thesis using that(2) by blast
  next
    case 2
    with control_cases [OF 2(8)] show ?thesis
      by (intro that(3)) (simp_all add: escape_def lit_def hex_quad_def Let_def simple_escape_def)
  next
    case 3
    then show ?thesis by (intro that(1)) (simp_all add: escape_def)
  qed
qed

lemma readString_plain:
  "\<forall>d \<in> set t. d \<noteq> 34 \<and> d \<noteq> 92 \<Longrightarrow> \<exists>c'. readString c (t @ r) = readString c' r"
  by (induction t arbitrary: c) auto

lemma readString_escaped: "readString c (concat (map escape s) @ 34 # r) = (True, r)"
proof (induction s arbitrary: c)
  case (Cons d s)
  show ?case
  proof (cases d rule: escape_cases)
    case 3
    then show ?thesis
      using Cons.IH readString_plain [of "hex_quad d" 92 "concat (map escape s) @ 34 # r"] hex_quad(1) [OF 3(2)]
      by auto
  qed (use Cons.IH in auto)
qed simp

lemma decode_escaped: "decode_loop base (concat (map escape s) @ r) d = decode_loop base r (d @ s)"
proof (induction s arbitrary: d)
  case (Cons c s)
  show ?case
  proof (cases c rule: escape_cases)
    case 3
    then show ?thesis using Cons.IH hex_quad(2,3) [OF 3(2)] by simp
  qed (use Cons.IH in auto)
qed simp

lemma quoted_text:
  "valueToQuotedString (Some s) = Inr ([34] @ concat (map escape s) @ [34])"
proof (cases "\<not> list_ex (\<lambda>c. c \<in> set special_characters) s \<and> \<not> containsControlCharacter s")
  case True
  then have "\<forall>c \<in> set s. escape c = [c]"
    by (auto simp: special_characters_def containsControlCharacter_def list_ex_iff escape_def)
  then have "concat (map escape s) = s" by (induction s) simp_all
  with True show ?thesis by (simp add: valueToQuotedString_def)
qed (auto simp: valueToQuotedString_def)

lemma string_token:
  "valueToQuotedString (Some s) = Inr q \<Longrightarrow> token_at (q @ r) tokenString q r"
  by (auto simp: quoted_text token_at_def readToken_def is_space_def getNextChar_def readString_escaped)

lemma decode_string_token:
  "valueToQuotedString (Some s) = Inr q \<Longrightarrow>
     decodeString \<lparr>ttype = ty, ttext = q, tstart = p\<rparr> errors = (Some s, errors)"
  using decode_escaped [of _ s "[]" "[]"] by (auto simp: quoted_text decodeString_def)

end
