(* ===== verification/Json_Layout.thy ===== *)
theory Json_Layout
  imports Json_Tokens
begin

text \<open>
  \<open>layout D v t\<close>: the text \<open>t\<close> spells the value \<open>v\<close> with the scalar texts of the writers and any
  white space between the tokens. Every layout of a value that the format can hold is read back by
  \<open>readValue\<close> as \<open>reread D v\<close>, whatever follows it. The writers only have to produce layouts.
\<close>

section \<open>Layouts\<close>

inductive layout :: "'d real_ops \<Rightarrow> 'd Value \<Rightarrow> byte list \<Rightarrow> bool"
  and layout_elements :: "'d real_ops \<Rightarrow> 'd Value list \<Rightarrow> byte list \<Rightarrow> bool"
  and layout_members :: "'d real_ops \<Rightarrow> (byte list \<times> 'd Value) list \<Rightarrow> byte list \<Rightarrow> bool"
  for D :: "'d real_ops"
where
  l_null: "layout D VNull (lit ''null'')"
| l_bool: "layout D (VBool b) (valueToString_bool b)"
| l_int: "valueToString_Int i = Inr t \<Longrightarrow> layout D (VInt i) t"
| l_uint: "valueToString_UInt u = Inr t \<Longrightarrow> layout D (VUInt u) t"
| l_real: "valueToString_double D d = Inr t \<Longrightarrow> layout D (VReal d) t"
| l_string: "valueToQuotedString s = Inr t \<Longrightarrow> layout D (VString s) t"
| l_array_empty: "spaces w \<Longrightarrow> layout D (VArray []) ([91] @ w @ [93])"
| l_array: "layout_elements D (map snd xs) t \<Longrightarrow> layout D (VArray xs) ([91] @ t @ [93])"
| l_object_empty: "spaces w \<Longrightarrow> layout D (VObject []) ([123] @ w @ [125])"
| l_object: "layout_members D xs t \<Longrightarrow> layout D (VObject xs) ([123] @ t @ [125])"
| l_element: "spaces w \<Longrightarrow> layout D v t \<Longrightarrow> spaces w' \<Longrightarrow> layout_elements D [v] (w @ t @ w')"
| l_elements: "spaces w \<Longrightarrow> layout D v t \<Longrightarrow> spaces w' \<Longrightarrow> layout_elements D vs ts \<Longrightarrow>
    layout_elements D (v # vs) (w @ t @ w' @ [44] @ ts)"
| l_member: "spaces w \<Longrightarrow> valueToQuotedString (Some k) = Inr q \<Longrightarrow> spaces w1 \<Longrightarrow> spaces w2 \<Longrightarrow>
    layout D v t \<Longrightarrow> spaces w' \<Longrightarrow> layout_members D [(k, v)] (w @ q @ w1 @ [58] @ w2 @ t @ w')"
| l_members: "spaces w \<Longrightarrow> valueToQuotedString (Some k) = Inr q \<Longrightarrow> spaces w1 \<Longrightarrow> spaces w2 \<Longrightarrow>
    layout D v t \<Longrightarrow> spaces w' \<Longrightarrow> layout_members D ms ts \<Longrightarrow>
    layout_members D ((k, v) # ms) (w @ q @ w1 @ [58] @ w2 @ t @ w' @ [44] @ ts)"

section \<open>Reading a scalar\<close>

lemma number_value_read:
  assumes "number_value D t v" "after_number rest" "spaces w"
  shows "readValue (Suc n) F D cur (w @ t @ rest) errors = Some (Inr (True, v, rest, errors))"
proof -
  have "token_at (w @ t @ rest) tokenNumber t rest"
    using assms by (simp add: token_at_spaces number_token number_value_def)
  from skipCommentTokens_token [OF this, where F = F] assms(1) show ?thesis
    by (auto simp: readValue_body_def read_scalar_def number_value_def)
qed

lemma string_read:
  assumes "valueToQuotedString (Some s) = Inr q" "spaces w" "0 \<notin> set s"
  shows "readValue (Suc n) F D cur (w @ q @ rest) errors = Some (Inr (True, VString (Some s), rest, errors))"
proof -
  have "token_at (w @ q @ rest) tokenString q rest"
    using assms by (simp add: token_at_spaces string_token)
  from skipCommentTokens_token [OF this, where F = F] assms(3) decode_string_token [OF assms(1)] show ?thesis
    by (auto simp: readValue_body_def read_scalar_def decodeString_value_def value_of_string_def cstr_id)
qed

lemma word_read:
  assumes "spaces w"
  shows "readValue (Suc n) F D cur (w @ lit ''null'' @ rest) errors = Some (Inr (True, VNull, rest, errors))"
    and "readValue (Suc n) F D cur (w @ valueToString_bool b @ rest) errors =
      Some (Inr (True, VBool b, rest, errors))"
proof -
  note t = word_tokens [of rest, THEN token_at_spaces [OF assms, THEN iffD2]]
  show "readValue (Suc n) F D cur (w @ lit ''null'' @ rest) errors = Some (Inr (True, VNull, rest, errors))"
    using skipCommentTokens_token [OF t(1), where F = F] by (auto simp: readValue_body_def read_scalar_def)
  show "readValue (Suc n) F D cur (w @ valueToString_bool b @ rest) errors =
      Some (Inr (True, VBool b, rest, errors))"
    using skipCommentTokens_token [OF t(2), where F = F] skipCommentTokens_token [OF t(3), where F = F]
    by (auto simp: readValue_body_def read_scalar_def valueToString_bool_def)
qed

lemma real_value:
  assumes "real_storable D d" "valueToString_double D d = Inr t"
  shows "number_value D t (VReal d)"
proof -
  have "length t < 32"
    using assms(2)
    by (auto simp: valueToString_double_def cbind_eq_Inr in_buffer_def Let_def split: if_splits)
  then show ?thesis
    using assms by (simp add: real_storable_def number_value_def decodeNumber_def decodeDouble_def Let_def)
qed

section \<open>Reading a layout\<close>

lemma readToken_cong_skip: "readToken s = readToken s' \<Longrightarrow> skipCommentTokens F s = skipCommentTokens F s'"
  by (simp add: skipCommentTokens_def skip_comments.simps [of s] skip_comments.simps [of s'])

lemma readValue_skipSpaces [simp]:
  "readValue n F D cur (skipSpaces s) errors = readValue n F D cur s errors"
  using readToken_cong_skip [of "skipSpaces s" s F] by (cases n) (simp_all add: readValue_body_def)

lemma readArray_skipSpaces [simp]:
  "readArray n F D i v (skipSpaces s) errors = readArray n F D i v s errors"
  by (cases n) (simp_all add: readArray_body_def)

text \<open>No layout of an element starts with the bracket that ends an empty array.\<close>

lemma number_value_starts: "number_value D t v \<Longrightarrow> t \<noteq> [] \<and> \<not> is_space (hd t) \<and> hd t \<noteq> 93"
  using digit_or_minus_cases [of "hd t"] by (simp add: number_value_def number_text_def)

lemma Int_text:
  assumes "storable D (VInt i)" "valueToString_Int i = Inr t"
  shows "number_value D t (reread D (VInt i))"
  using decode_Int [OF assms(1)] assms(2) by auto

lemma UInt_text:
  assumes "storable D (VUInt u)" "valueToString_UInt u = Inr t"
  shows "number_value D t (reread D (VUInt u))"
  using decode_UInt [OF assms(1)] assms(2) by auto

lemma layout_starts:
  assumes "layout D v t" "storable D v"
  shows "t \<noteq> [] \<and> \<not> is_space (hd t) \<and> hd t \<noteq> 93"
  using assms(1)
proof (cases rule: layout.cases)
  case (l_int i)
  with assms(2) show ?thesis using number_value_starts [OF Int_text] by blast
next
  case (l_uint u)
  with assms(2) show ?thesis using number_value_starts [OF UInt_text] by blast
next
  case (l_real d)
  with assms(2) show ?thesis using number_value_starts [OF real_value [of D d t]] by simp
next
  case (l_string s)
  with assms(2) show ?thesis by (cases s) (auto simp: quoted_text is_space_def)
qed (auto simp: is_space_def lit_def valueToString_bool_def)

lemma layout_elements_start:
  assumes "layout_elements D vs t" "\<forall>v \<in> set vs. storable D v"
  shows "peek (skipSpaces (t @ r)) \<noteq> 93"
  using assms(1)
proof (cases rule: layout_elements.cases)
  case (l_element w v t' w')
  with assms(2) show ?thesis using layout_starts [of D v t']
    by (cases t') (auto simp: skipSpaces_spaces peek_def)
next
  case (l_elements w v t' w' vs' ts)
  with assms(2) show ?thesis using layout_starts [of D v t']
    by (cases t') (auto simp: skipSpaces_spaces peek_def)
qed

text \<open>
  The three readers on a layout: \<open>value\<close> is a whole value after white space, \<open>elements\<close> the rest of an
  array of which \<open>ys\<close> was read, \<open>members\<close> the rest of an object.
\<close>

definition reads_value :: "'d real_ops \<Rightarrow> 'd Value \<Rightarrow> byte list \<Rightarrow> bool" where
  "reads_value D v t \<longleftrightarrow> (value_wf v \<longrightarrow> storable D v \<longrightarrow> (\<forall>n F cur w rest errors.
     spaces w \<longrightarrow> after_number rest \<longrightarrow> 2 * length (w @ t @ rest) < n \<longrightarrow>
     readValue n F D cur (w @ t @ rest) errors = Some (Inr (True, reread D v, rest, errors))))"

definition array_from :: "nat \<Rightarrow> 'd Value list \<Rightarrow> (int \<times> 'd Value) list" where
  "array_from i vs = zip (map int [i..<i + length vs]) vs"

definition reads_elements :: "'d real_ops \<Rightarrow> 'd Value list \<Rightarrow> byte list \<Rightarrow> bool" where
  "reads_elements D vs t \<longleftrightarrow> ((\<forall>v \<in> set vs. value_wf v \<and> storable D v) \<longrightarrow> (\<forall>n F i ys rest errors.
     i + length vs < 2147483649 \<longrightarrow> map fst ys = map int [0..<i] \<longrightarrow>
     2 * length (t @ [93] @ rest) + 1 < n \<longrightarrow>
     readArray n F D (of_nat i) (VArray ys) (t @ [93] @ rest) errors =
       Some (Inr (True, VArray (ys @ array_from i (map (reread D) vs)), rest, errors))))"

definition reads_members :: "'d real_ops \<Rightarrow> (byte list \<times> 'd Value) list \<Rightarrow> byte list \<Rightarrow> bool" where
  "reads_members D ms t \<longleftrightarrow>
    ((\<forall>(k, v) \<in> set ms. 0 \<notin> set k \<and> value_wf v \<and> storable D v) \<longrightarrow> (\<forall>n F name ys rest errors.
     map_sorted (ys @ ms) \<longrightarrow> 2 * length (t @ [125] @ rest) < n \<longrightarrow>
     readObject n F D name (VObject ys) (t @ [125] @ rest) errors =
       Some (Inr (True, VObject (ys @ map (\<lambda>(k, v). (k, reread D v)) ms), rest, errors))))"

text \<open>Appending to a sorted map.\<close>

lemma map_insert_replace:
  "\<forall>k' \<in> fst ` set ys. k' < k \<Longrightarrow> map_insert k v (ys @ [(k, w)]) = ys @ [(k, v)]"
  by (induction ys) (auto simp: order_less_not_sym less_imp_neq)

lemma map_of_last:
  "\<forall>k' \<in> fst ` set ys. k' < (k :: 'k :: linorder) \<Longrightarrow> map_of (ys @ [(k, w)]) k = Some w"
  by (induction ys) auto

lemma map_of_fresh:
  "\<forall>k' \<in> fst ` set ys. k' < (k :: 'k :: linorder) \<Longrightarrow> map_of ys k = None"
  by (force simp: map_of_eq_None_iff)

lemma element_slot:
  assumes "map fst ys = map int [0..<i]" "i < 2147483648"
  shows "index_ref (VArray ys) (of_nat i) = Inr (VArray (ys @ [(int i, VNull)]))"
    and "index_find (VArray (ys @ [(int i, w)])) (of_nat i) = Inr (Some w)"
    and "assign_index (VArray (ys @ [(int i, w)])) (of_nat i) x = Inr (VArray (ys @ [(int i, x)]))"
proof -
  have k: "index_key (of_nat i) = int i"
    using assms(2) signed_take_bit_int_eq_self [of 31 "int i"] by (simp add: index_key_def signed_of_nat)
  have "fst ` set ys = set (map fst ys)" by simp
  then have l: "\<forall>k' \<in> fst ` set ys. k' < int i" using assms(1) by auto
  show "index_ref (VArray ys) (of_nat i) = Inr (VArray (ys @ [(int i, VNull)]))"
    using map_of_fresh [OF l] map_insert_last [OF l] by (simp add: index_ref_def k)
  show "index_find (VArray (ys @ [(int i, w)])) (of_nat i) = Inr (Some w)"
    using map_of_last [OF l] by (simp add: index_find_def k)
  show "assign_index (VArray (ys @ [(int i, w)])) (of_nat i) x = Inr (VArray (ys @ [(int i, x)]))"
    using map_of_last [OF l] map_insert_replace [OF l] by (simp add: assign_index_def index_ref_def k)
qed

lemma member_slot:
  assumes "map_sorted (ys @ (k, v) # ms)" "0 \<notin> set k"
  shows "resolveReference (VObject ys) k = Inr (VObject (ys @ [(k, VNull)]))"
    and "member_find (VObject (ys @ [(k, w)])) k = Inr (Some w)"
    and "assign_member (VObject (ys @ [(k, w)])) k x = Inr (VObject (ys @ [(k, x)]))"
proof -
  have l: "\<forall>k' \<in> fst ` set ys. k' < k"
    using assms(1) by (auto simp: map_sorted_def sorted_append order_less_le)
  show "resolveReference (VObject ys) k = Inr (VObject (ys @ [(k, VNull)]))"
    using map_of_fresh [OF l] map_insert_last [OF l] by (simp add: resolveReference_def cstr_id assms(2))
  show "member_find (VObject (ys @ [(k, w)])) k = Inr (Some w)"
    using map_of_last [OF l] by (simp add: member_find_def cstr_id assms(2))
  show "assign_member (VObject (ys @ [(k, w)])) k x = Inr (VObject (ys @ [(k, x)]))"
    using map_of_last [OF l] map_insert_replace [OF l]
    by (simp add: assign_member_def resolveReference_def cstr_id assms(2))
qed

lemma after_number_simps [simp]:
  "after_number (93 # r)" "after_number (125 # r)" "after_number (44 # r)" "after_number (10 # r)"
  by (simp_all add: after_number_def peek_def number_char_def is_digit_def)

lemma after_number_spaces: "spaces w \<Longrightarrow> after_number r \<Longrightarrow> after_number (w @ r)"
  by (cases w) (auto simp: after_number_def peek_def number_char_def is_digit_def is_space_def)

lemma array_comma_end:
  "spaces w \<Longrightarrow> array_comma v (w @ 93 # r) e = Inl (Some (Inr (True, v, r, e)))"
  using skip_comments_token [of "w @ 93 # r"] punctuation_tokens(4) [of r]
  by (fastforce simp: array_comma_def token_at_spaces)

lemma array_comma_more: "spaces w \<Longrightarrow> array_comma v (w @ 44 # r) e = Inr r"
  using skip_comments_token [of "w @ 44 # r"] punctuation_tokens(5) [of r]
  by (fastforce simp: array_comma_def token_at_spaces)

lemma object_comma_end:
  "spaces w \<Longrightarrow> object_comma v (w @ 125 # r) e = Inl (Some (Inr (True, v, r, e)))"
  using punctuation_tokens(2) [of r]
  by (auto simp: object_comma_def readToken_spaces token_at_def)

lemma object_comma_more: "spaces w \<Longrightarrow> object_comma v (w @ 44 # r) e = Inr r"
  using punctuation_tokens(5) [of r]
  by (auto simp: object_comma_def readToken_spaces token_at_def)

lemma object_name_reads:
  assumes "spaces w" "valueToQuotedString (Some k) = Inr q" "spaces w1"
  shows "object_name name v (w @ q @ w1 @ 58 # r) e = Inr (k, r, e)"
proof -
  have "token_at (w @ q @ w1 @ 58 # r) tokenString q (w1 @ 58 # r)"
    using assms by (simp add: token_at_spaces string_token)
  from skip_comments_token [OF this] obtain p where
    p: "skip_comments (w @ q @ w1 @ 58 # r) = (\<lparr>ttype = tokenString, ttext = q, tstart = p\<rparr>, w1 @ 58 # r)"
    by auto
  show ?thesis
    using p punctuation_tokens(6) [of r] assms(3)
    by (auto simp: object_name_def decode_string_token [OF assms(2)] readToken_spaces token_at_def)
qed

lemma read_element:
  assumes "reads_value D v t" "value_wf v" "storable D v" "spaces w" "spaces w'" "after_number r"
    and "i < 2147483648" "map fst ys = map int [0..<i]" "2 * length (w @ t @ w' @ r) + 1 < Suc n"
  shows "readArray (Suc n) F D (of_nat i) (VArray ys) (w @ t @ w' @ r) e =
    (case array_comma (VArray (ys @ [(int i, reread D v)])) (w' @ r) e of
       Inl r \<Rightarrow> r
     | Inr s \<Rightarrow> readArray n F D (of_nat (Suc i)) (VArray (ys @ [(int i, reread D v)])) s e)"
proof -
  have "readValue n F D VNull (w @ t @ (w' @ r)) e = Some (Inr (True, reread D v, w' @ r, e))"
    using assms by (auto simp: reads_value_def after_number_spaces)
  moreover have "(of_nat i + 1 :: u32) = of_nat (Suc i)" by simp
  ultimately show ?thesis
    using element_slot [OF assms(8,7)]
    by (simp add: readArray_body_def or_null_def del: of_nat_Suc cong: sum.case_cong)
qed

lemma read_member:
  assumes "reads_value D v t" "value_wf v" "storable D v" "spaces w" "valueToQuotedString (Some k) = Inr q"
    and "spaces w1" "spaces w2" "spaces w'" "after_number r"
    and "map_sorted (ys @ (k, v) # ms)" "0 \<notin> set k" "2 * length (w @ q @ w1 @ [58] @ w2 @ t @ w' @ r) < Suc n"
  shows "readObject (Suc n) F D name (VObject ys) (w @ q @ w1 @ [58] @ w2 @ t @ w' @ r) e =
    (case object_comma (VObject (ys @ [(k, reread D v)])) (w' @ r) e of
       Inl r \<Rightarrow> r
     | Inr s \<Rightarrow> readObject n F D k (VObject (ys @ [(k, reread D v)])) s e)"
proof -
  have "readValue n F D VNull (w2 @ t @ (w' @ r)) e = Some (Inr (True, reread D v, w' @ r, e))"
    using assms by (auto simp: reads_value_def after_number_spaces)
  then show ?thesis
    by (simp add: readObject_body_def or_null_def member_slot [OF assms(10,11)]
        object_name_reads [OF assms(4-6)])
qed

section \<open>Every layout is read back\<close>

declare readValue.simps [simp del] readObject.simps [simp del] readArray.simps [simp del]

lemma array_from_Nil [simp]: "array_from i [] = []"
  by (simp add: array_from_def)

lemma array_from_Cons [simp]: "array_from i (v # vs) = (int i, v) # array_from (Suc i) vs"
  by (simp add: array_from_def upt_conv_Cons del: upt_Suc)

lemma array_from_entries:
  "map fst xs = map int [i..<i + length xs] \<Longrightarrow> array_from i (map f (map snd xs)) = map (\<lambda>(k, v). (k, f v)) xs"
proof (induction xs arbitrary: i)
  case (Cons e xs)
  then show ?case using Cons.IH [of "Suc i"] by (cases e) (auto simp: upt_conv_Cons simp del: upt_Suc)
qed simp

lemma less_fuel: "m < (n :: nat) \<Longrightarrow> \<exists>k. n = Suc k"
  by (cases n) auto

lemma reads_valueI:
  assumes "\<And>n F cur w rest errors. value_wf v \<Longrightarrow> storable D v \<Longrightarrow> spaces w \<Longrightarrow> after_number rest \<Longrightarrow>
    readValue (Suc n) F D cur (w @ t @ rest) errors = Some (Inr (True, reread D v, rest, errors))"
  shows "reads_value D v t"
  unfolding reads_value_def using assms by (blast dest: less_fuel)

lemma reads_elementsD:
  "reads_elements D vs t \<Longrightarrow> \<forall>v \<in> set vs. value_wf v \<and> storable D v \<Longrightarrow> i + length vs < 2147483649 \<Longrightarrow>
     map fst ys = map int [0..<i] \<Longrightarrow> 2 * length (t @ [93] @ rest) + 1 < n \<Longrightarrow>
   readArray n F D (of_nat i) (VArray ys) (t @ [93] @ rest) e =
     Some (Inr (True, VArray (ys @ array_from i (map (reread D) vs)), rest, e))"
  unfolding reads_elements_def by blast

lemma reads_membersD:
  "reads_members D ms t \<Longrightarrow> \<forall>(k, v) \<in> set ms. 0 \<notin> set k \<and> value_wf v \<and> storable D v \<Longrightarrow>
     map_sorted (ys @ ms) \<Longrightarrow> 2 * length (t @ [125] @ rest) < n \<Longrightarrow>
   readObject n F D name (VObject ys) (t @ [125] @ rest) e =
     Some (Inr (True, VObject (ys @ map (\<lambda>(k, v). (k, reread D v)) ms), rest, e))"
  unfolding reads_members_def by blast

lemma layout_reads:
  "layout (D :: 'd real_ops) v t \<Longrightarrow> reads_value D v t"
  "layout_elements D vs ts \<Longrightarrow> reads_elements D vs ts"
  "layout_members D ms us \<Longrightarrow> reads_members D ms us"
proof (induction rule: layout_layout_elements_layout_members.inducts)
  case l_null
  show ?case by (rule reads_valueI) (simp add: word_read)
next
  case (l_bool b)
  show ?case by (rule reads_valueI) (simp add: word_read)
next
  case (l_int i t)
  then show ?case by (intro reads_valueI number_value_read Int_text)
next
  case (l_uint u t)
  then show ?case by (intro reads_valueI number_value_read UInt_text)
next
  case (l_real d t)
  then show ?case using real_value [of D d t] by (intro reads_valueI) (simp add: number_value_read)
next
  case (l_string s t)
  then show ?case by (cases s) (auto intro!: reads_valueI simp: string_read valueToQuotedString_def)
next
  case (l_array_empty w')
  have "readValue (Suc n) F D cur (w @ ([91] @ w' @ [93]) @ rest) e = Some (Inr (True, VArray [], rest, e))"
    if "spaces w" for n F cur w rest e
  proof -
    from punctuation_tokens(3) [of "w' @ 93 # rest"]
    have "token_at (w @ 91 # w' @ 93 # rest) tokenArrayBegin [91] (w' @ 93 # rest)"
      using that by (simp add: token_at_spaces)
    from skipCommentTokens_token [OF this, where F = F] punctuation_tokens(4) [of rest]
    show ?thesis
      using l_array_empty by (auto simp: readValue.simps readValue_body_def Let_def skipSpaces_spaces peek_def
          is_space_def token_at_def)
  qed
  then show ?case by (intro reads_valueI) simp
next
  case (l_array xs t)
  show ?case unfolding reads_value_def
  proof (intro impI allI)
    fix n F cur w rest e
    assume wf: "value_wf (VArray xs)" and st: "storable D (VArray xs)" and w: "spaces w"
      and n: "2 * length (w @ ([91] @ t @ [93]) @ rest) < n"
    obtain k where k: "n = Suc k" using less_fuel [OF n] by blast
    have el: "\<forall>v \<in> set (map snd xs). value_wf v \<and> storable D v"
      using wf st by (auto simp: value_wf_iff)
    from punctuation_tokens(3) [of "t @ 93 # rest"] w
    have "token_at (w @ 91 # t @ 93 # rest) tokenArrayBegin [91] (t @ 93 # rest)"
      by (simp add: token_at_spaces)
    from skipCommentTokens_token [OF this, where F = F]
    have "readValue n F D cur (w @ ([91] @ t @ [93]) @ rest) e = readArray k F D (of_nat 0) (VArray []) (t @ [93] @ rest) e"
      using layout_elements_start [OF l_array(1), of "93 # rest"] el k
      by (auto simp: readValue.simps readValue_body_def Let_def)
    also have "\<dots> = Some (Inr (True, VArray ([] @ array_from 0 (map (reread D) (map snd xs))), rest, e))"
      by (rule reads_elementsD [OF l_array(2) el]) (use st n k in auto)
    finally show "readValue n F D cur (w @ ([91] @ t @ [93]) @ rest) e =
        Some (Inr (True, reread D (VArray xs), rest, e))"
      using st array_from_entries [of xs 0 "reread D"] by simp
  qed
next
  case (l_object_empty w')
  have "readValue (Suc (Suc n)) F D cur (w @ ([123] @ w' @ [125]) @ rest) e = Some (Inr (True, VObject [], rest, e))"
    if "spaces w" for n F cur w rest e
  proof -
    from punctuation_tokens(1) [of "w' @ 125 # rest"]
    have "token_at (w @ 123 # w' @ 125 # rest) tokenObjectBegin [123] (w' @ 125 # rest)"
      using that by (simp add: token_at_spaces)
    from skipCommentTokens_token [OF this, where F = F]
      skip_comments_token [of "w' @ 125 # rest"] punctuation_tokens(2) [of rest]
    show ?thesis
      using l_object_empty
      by (fastforce simp: readValue.simps readValue_body_def readObject.simps readObject_body_def object_name_def
          token_at_spaces)
  qed
  moreover have "n = Suc (Suc (n - 2))" if "2 * length (w @ ([123] @ w' @ [125]) @ rest) < n" for n w rest
    using that by simp
  ultimately show ?case unfolding reads_value_def by (metis list.simps(8) reread.simps(4))
next
  case (l_object xs t)
  show ?case unfolding reads_value_def
  proof (intro impI allI)
    fix n F cur w rest e
    assume wf: "value_wf (VObject xs)" and st: "storable D (VObject xs)" and w: "spaces w"
      and n: "2 * length (w @ ([123] @ t @ [125]) @ rest) < n"
    obtain k where k: "n = Suc k" using less_fuel [OF n] by blast
    have el: "\<forall>(k, v) \<in> set xs. 0 \<notin> set k \<and> value_wf v \<and> storable D v" "map_sorted ([] @ xs)"
      using wf st by (auto simp: value_wf_iff)
    from punctuation_tokens(1) [of "t @ 125 # rest"] w
    have "token_at (w @ 123 # t @ 125 # rest) tokenObjectBegin [123] (t @ 125 # rest)"
      by (simp add: token_at_spaces)
    from skipCommentTokens_token [OF this, where F = F]
    have "readValue n F D cur (w @ ([123] @ t @ [125]) @ rest) e = readObject k F D [] (VObject []) (t @ [125] @ rest) e"
      using k by (auto simp: readValue.simps readValue_body_def)
    also have "\<dots> = Some (Inr (True, VObject ([] @ map (\<lambda>(k, v). (k, reread D v)) xs), rest, e))"
      by (rule reads_membersD [OF l_object(2) el]) (use n k in simp)
    finally show "readValue n F D cur (w @ ([123] @ t @ [125]) @ rest) e =
        Some (Inr (True, reread D (VObject xs), rest, e))"
      by simp
  qed
next
  case (l_element w v t w')
  show ?case unfolding reads_elements_def
  proof (intro impI allI)
    fix n F i rest e and ys :: "(int \<times> 'd Value) list"
    assume el: "\<forall>v \<in> set [v]. value_wf v \<and> storable D v" and i: "i + length [v] < 2147483649"
      and ys: "map fst ys = map int [0..<i]" and n: "2 * length ((w @ t @ w') @ [93] @ rest) + 1 < n"
    obtain k where k: "n = Suc k" using less_fuel [OF n] by blast
    show "readArray n F D (of_nat i) (VArray ys) ((w @ t @ w') @ [93] @ rest) e =
        Some (Inr (True, VArray (ys @ array_from i (map (reread D) [v])), rest, e))"
      using read_element [OF l_element(4) _ _ l_element(1,2), of "93 # rest" i ys k F e] el i ys n k
      by (simp add: array_comma_end l_element(2))
  qed
next
  case (l_elements w v t w' vs ts)
  show ?case unfolding reads_elements_def
  proof (intro impI allI)
    fix n F i rest e and ys :: "(int \<times> 'd Value) list"
    assume el: "\<forall>v \<in> set (v # vs). value_wf v \<and> storable D v" and i: "i + length (v # vs) < 2147483649"
      and ys: "map fst ys = map int [0..<i]"
      and n: "2 * length ((w @ t @ w' @ [44] @ ts) @ [93] @ rest) + 1 < n"
    obtain k where k: "n = Suc k" using less_fuel [OF n] by blast
    have "readArray k F D (of_nat (Suc i)) (VArray (ys @ [(int i, reread D v)])) (ts @ [93] @ rest) e =
        Some (Inr (True, VArray ((ys @ [(int i, reread D v)]) @ array_from (Suc i) (map (reread D) vs)), rest, e))"
      by (rule reads_elementsD [OF l_elements(6)]) (use el i ys n k in auto)
    then show "readArray n F D (of_nat i) (VArray ys) ((w @ t @ w' @ [44] @ ts) @ [93] @ rest) e =
        Some (Inr (True, VArray (ys @ array_from i (map (reread D) (v # vs))), rest, e))"
      using read_element [OF l_elements(4) _ _ l_elements(1,2), of "44 # ts @ 93 # rest" i ys k F e] el i ys n k
      by (simp add: array_comma_more l_elements(2) del: of_nat_Suc)
  qed
next
  case (l_member w k q w1 w2 v t w')
  show ?case unfolding reads_members_def
  proof (intro impI allI)
    fix n F name rest e and ys :: "(byte list \<times> 'd Value) list"
    assume el: "\<forall>(k, v) \<in> set [(k, v)]. 0 \<notin> set k \<and> value_wf v \<and> storable D v"
      and ys: "map_sorted (ys @ [(k, v)])"
      and n: "2 * length ((w @ q @ w1 @ [58] @ w2 @ t @ w') @ [125] @ rest) < n"
    obtain m where m: "n = Suc m" using less_fuel [OF n] by blast
    show "readObject n F D name (VObject ys) ((w @ q @ w1 @ [58] @ w2 @ t @ w') @ [125] @ rest) e =
        Some (Inr (True, VObject (ys @ map (\<lambda>(k, v). (k, reread D v)) [(k, v)]), rest, e))"
      using read_member [OF l_member(7) _ _ l_member(1-5) _ ys, of "125 # rest" m F name e] el n m
      by (simp add: object_comma_end l_member(5))
  qed
next
  case (l_members w k q w1 w2 v t w' ms ts)
  show ?case unfolding reads_members_def
  proof (intro impI allI)
    fix n F name rest e and ys :: "(byte list \<times> 'd Value) list"
    assume el: "\<forall>(k, v) \<in> set ((k, v) # ms). 0 \<notin> set k \<and> value_wf v \<and> storable D v"
      and ys: "map_sorted (ys @ (k, v) # ms)"
      and n: "2 * length ((w @ q @ w1 @ [58] @ w2 @ t @ w' @ [44] @ ts) @ [125] @ rest) < n"
    obtain m where m: "n = Suc m" using less_fuel [OF n] by blast
    have "map_sorted ((ys @ [(k, reread D v)]) @ ms)" using ys by (simp add: map_sorted_def)
    then have "readObject m F D k (VObject (ys @ [(k, reread D v)])) (ts @ [125] @ rest) e =
        Some (Inr (True, VObject ((ys @ [(k, reread D v)]) @ map (\<lambda>(k, v). (k, reread D v)) ms), rest, e))"
      by (intro reads_membersD [OF l_members(9)]) (use el n m in auto)
    then show "readObject n F D name (VObject ys) ((w @ q @ w1 @ [58] @ w2 @ t @ w' @ [44] @ ts) @ [125] @ rest) e =
        Some (Inr (True, VObject (ys @ map (\<lambda>(k, v). (k, reread D v)) ((k, v) # ms)), rest, e))"
      using read_member [OF l_members(7) _ _ l_members(1-5) _ ys, of "44 # ts @ 125 # rest" m F name e] el n m
      by (simp add: object_comma_more l_members(5))
  qed
qed

end
