(* ===== verification/Json_Roundtrip.thy ===== *)
theory Json_Roundtrip
  imports Json_Layout
begin

text \<open>
  The writers produce layouts, so what they write is read back. \<open>FastWriter\<close> is done directly; the two
  styled writers share the proof in the locale \<open>indenter\<close>, whose only law is that indenting writes
  white space, and which is interpreted on both of them.
\<close>

section \<open>Composing layouts\<close>

lemma layout_elements_before: "layout_elements D vs t \<Longrightarrow> spaces w \<Longrightarrow> layout_elements D vs (w @ t)"
proof (induction rule: layout_elements.cases)
  case (l_element w1 v t1 w')
  then show ?case using layout_layout_elements_layout_members.l_element [of "w @ w1" D v t1 w'] by simp
next
  case (l_elements w1 v t1 w' vs' ts)
  then show ?case using layout_layout_elements_layout_members.l_elements [of "w @ w1" D v t1 w' vs' ts] by simp
qed

lemma layout_after:
  "layout D v t \<Longrightarrow> True"
  "layout_elements D vs ts \<Longrightarrow> spaces w \<Longrightarrow> layout_elements D vs (ts @ w)"
  "layout_members D ms us \<Longrightarrow> spaces w \<Longrightarrow> layout_members D ms (us @ w)"
proof (induction rule: layout_layout_elements_layout_members.inducts)
  case (l_element w1 v t w')
  then show ?case using layout_layout_elements_layout_members.l_element [of w1 D v t "w' @ w"] by simp
next
  case (l_elements w1 v t w' vs ts)
  then show ?case using layout_layout_elements_layout_members.l_elements [of w1 D v t w' vs "ts @ w"] by simp
next
  case (l_member w0 k q w1 w2 v t w')
  then show ?case
    using layout_layout_elements_layout_members.l_member [of w0 k q w1 w2 D v t "w' @ w"] by simp
next
  case (l_members w0 k q w1 w2 v t w' ms ts)
  then show ?case
    using layout_layout_elements_layout_members.l_members [of w0 k q w1 w2 D v t w' ms "ts @ w"] by simp
qed simp_all

lemma layout_join:
  assumes "list_all2 (layout D) vs ts" "vs \<noteq> []" "spaces w"
  shows "layout_elements D vs (join_texts (44 # w) ts)"
  using assms(1,2)
proof (induction vs ts rule: list_all2_induct)
  case (Cons v vs t ts)
  show ?case
  proof (cases vs)
    case Nil
    with Cons show ?thesis using l_element [of "[]" D v t "[]"] by simp
  next
    case (Cons v' vs')
    then obtain t' ts' where ts: "ts = t' # ts'" using Cons.hyps by (cases ts) auto
    have "layout_elements D vs (w @ join_texts (44 # w) ts)"
      using Cons Cons.IH assms(3) by (simp add: layout_elements_before)
    from l_elements [OF _ Cons.hyps(1) _ this, of "[]" "[]"] ts show ?thesis by simp
  qed
qed simp

lemma value_induct [case_names scalar array object]:
  assumes "\<And>v. (\<And>xs. v \<noteq> VArray xs) \<Longrightarrow> (\<And>xs. v \<noteq> VObject xs) \<Longrightarrow> P v"
    and "\<And>xs. (\<And>i v. (i, v) \<in> set xs \<Longrightarrow> P v) \<Longrightarrow> P (VArray xs)"
    and "\<And>xs. (\<And>k v. (k, v) \<in> set xs \<Longrightarrow> P v) \<Longrightarrow> P (VObject xs)"
  shows "P v"
proof (induction "size v" arbitrary: v rule: less_induct)
  case less
  show ?case
  proof (cases v)
    case (VArray xs)
    then show ?thesis using assms(2) [of xs] less by (auto dest: entry_size)
  next
    case (VObject xs)
    then show ?thesis using assms(3) [of xs] less by (auto dest: entry_size)
  qed (auto intro: assms(1))
qed

section \<open>Dense arrays and sorted objects\<close>

lemma dense_entries:
  assumes k: "map fst xs = map int [0..<length xs]" and n: "length xs < 2147483648"
  shows "vsize (VArray xs) = of_nat (length xs)"
    and "sint (vsize (VArray xs)) = int (length xs)"
    and "unat (vsize (VArray xs)) = length xs"
    and "elements (length xs) xs = map snd xs"
proof -
  have "fst (last xs) = int (length xs - 1)" if "xs \<noteq> []"
  proof -
    have "fst (last xs) = last (map fst xs)" using that by (simp add: last_map)
    also have "\<dots> = int (length xs - 1)" using that by (simp add: k last_map last_upt)
    finally show ?thesis .
  qed
  then show v: "vsize (VArray xs) = of_nat (length xs)"
    by (cases xs) (auto simp: vsize_def)
  show "sint (vsize (VArray xs)) = int (length xs)"
    using n by (simp add: v signed_of_nat signed_take_bit_int_eq_self)
  show "unat (vsize (VArray xs)) = length xs"
    using n by (simp add: v unsigned_of_nat take_bit_nat_eq_self)
  have d: "distinct (map fst xs)" by (simp add: k distinct_map)
  have "or_null (map_of xs (index_key (of_nat i))) = snd (xs ! i)" if "i < length xs" for i
  proof -
    have "index_key (of_nat i) = int i"
      using n that by (simp add: index_key_def signed_of_nat signed_take_bit_int_eq_self)
    moreover have "fst (xs ! i) = int i" using that k by (metis add_0 length_map nth_map nth_upt)
    ultimately have "map_of xs (index_key (of_nat i)) = Some (snd (xs ! i))"
      using d that by (metis map_of_eq_Some_iff nth_mem prod.collapse)
    then show ?thesis by (simp add: or_null_def)
  qed
  then show "elements (length xs) xs = map snd xs"
    by (auto simp: elements_def intro: nth_equalityI)
qed

lemma dense_array:
  assumes "storable D (VArray xs)"
  shows "vsize (VArray xs) = of_nat (length xs)"
    and "sint (vsize (VArray xs)) = int (length xs)"
    and "unat (vsize (VArray xs)) = length xs"
    and "elements (length xs) xs = map snd xs"
  using assms dense_entries [of xs] by simp_all

lemma object_lookup:
  assumes "value_wf (VObject xs)" "(k, v) \<in> set xs"
  shows "cstr k = k" "or_null (map_of xs (cstr k)) = v"
proof -
  show k: "cstr k = k" using assms by (auto simp: value_wf_iff cstr_id)
  have "map_of xs k = Some v" using assms by (simp add: value_wf_iff map_of_in_set)
  with k show "or_null (map_of xs (cstr k)) = v" by (simp add: or_null_def)
qed

section \<open>FastWriter\<close>

lemma cmapM_layouts:
  "(\<And>v. v \<in> set vs \<Longrightarrow> \<exists>t. f v = Inr t \<and> layout D v t) \<Longrightarrow>
     \<exists>ts. cmapM f vs = Inr ts \<and> list_all2 (layout D) vs ts"
proof (induction vs)
  case (Cons v vs)
  then obtain t ts where "f v = Inr t" "layout D v t" "cmapM f vs = Inr ts" "list_all2 (layout D) vs ts"
    by (metis list.set_intros)
  then show ?case by simp
qed simp

lemma quoted_ok: "\<exists>q. valueToQuotedString (Some k) = Inr q"
  by (simp add: quoted_text)

lemma scalar_layout:
  assumes "storable D v" "\<And>xs. v \<noteq> VArray xs" "\<And>xs. v \<noteq> VObject xs"
  shows "\<exists>t. fast_writeValue D yaml v = Inr t \<and> layout D v t"
proof (cases v)
  case (VInt i)
  with assms(1) obtain t where "valueToString_Int i = Inr t" using decode_Int [of D i] by blast
  with VInt l_int show ?thesis by (fastforce simp: asInt_def)
next
  case (VUInt u)
  with assms(1) obtain t where "valueToString_UInt u = Inr t" using decode_UInt [of D u] by blast
  with VUInt l_uint show ?thesis by (fastforce simp: asUInt_def)
next
  case (VReal d)
  then obtain t where "valueToString_double D d = Inr t"
    using assms(1) by (auto simp: real_storable_def split: sum.splits)
  with VReal l_real show ?thesis by (fastforce simp: asDouble_def)
next
  case (VString s)
  then obtain c where "s = Some c" using assms(1) by auto
  then show ?thesis using VString quoted_ok [of c] l_string by fastforce
qed (use assms l_null l_bool in auto)

definition member_text :: "'d real_ops \<Rightarrow> byte list \<Rightarrow> byte list \<Rightarrow> 'd Value \<Rightarrow> byte list \<Rightarrow> bool" where
  "member_text D sep k v m \<longleftrightarrow>
     (\<exists>q t. valueToQuotedString (Some k) = Inr q \<and> layout D v t \<and> m = q @ sep @ t)"

lemma layout_join_members:
  assumes "list_all2 (\<lambda>(k, v). member_text D (58 # w) k v) ms ts" "ms \<noteq> []" "spaces w"
  shows "layout_members D ms (join_texts [44] ts)"
  using assms(1,2)
proof (induction ms ts rule: list_all2_induct)
  case (Cons e ms m ts)
  obtain k v q t where e: "e = (k, v)" "valueToQuotedString (Some k) = Inr q" "layout D v t"
      "m = q @ 58 # w @ t"
    using Cons.hyps(1) by (cases e) (auto simp: member_text_def)
  show ?case
  proof (cases ms)
    case Nil
    with Cons.hyps(2) e show ?thesis using l_member [of "[]" k q "[]" w D v t "[]"] assms(3) by simp
  next
    case (Cons e' ms')
    then obtain t' ts' where ts: "ts = t' # ts'" using Cons.hyps by (cases ts) auto
    from l_members [OF _ e(2) _ assms(3) e(3) _ Cons.IH, of "[]" "[]" "[]"] ts e Cons show ?thesis by simp
  qed
qed simp

lemma fast_layout:
  assumes "value_wf v" "storable D v"
  shows "\<exists>t. fast_writeValue D yaml v = Inr t \<and> layout D v t"
  using assms
proof (induction v rule: value_induct)
  case (scalar v)
  then show ?case by (intro scalar_layout) auto
next
  case (array xs)
  have "\<exists>t. fast_writeValue D yaml v = Inr t \<and> layout D v t" if "v \<in> set (map snd xs)" for v
    using that array by (auto simp: value_wf_iff)
  from cmapM_layouts [OF this] obtain ts where
    ts: "cmapM (fast_writeValue D yaml) (map snd xs) = Inr ts" "list_all2 (layout D) (map snd xs) ts" by blast
  then have "fast_writeValue D yaml (VArray xs) = Inr ([91] @ join_texts [44] ts @ [93])"
    using dense_array [OF array.prems(2)] by (simp add: lit_def)
  moreover have "layout D (VArray xs) ([91] @ join_texts [44] ts @ [93])"
  proof (cases "xs = []")
    case True
    then show ?thesis using ts(2) l_array_empty [of "[]" D] by simp
  next
    case False
    then show ?thesis using layout_join [OF ts(2), of "[]"] by (intro l_array) simp
  qed
  ultimately show ?case by blast
next
  case (object xs)
  let ?sep = "if yaml then lit '': '' else lit '':''"
  let ?f = "\<lambda>name. cbind (valueToQuotedString (Some (cstr name))) (\<lambda>q. cmap (\<lambda>t. q @ ?sep @ t)
      (fast_writeValue D yaml (or_null (map_of xs (cstr name)))))"
  obtain w where w: "?sep = 58 # w" "spaces w" by (cases yaml) (auto simp: lit_def is_space_def)
  have one: "\<exists>m. ?f k = Inr m \<and> member_text D (58 # w) k v m" if e: "(k, v) \<in> set xs" for k v
  proof -
    obtain q where q: "valueToQuotedString (Some k) = Inr q" using quoted_ok by blast
    moreover obtain t where "fast_writeValue D yaml v = Inr t" "layout D v t"
      using object.IH [OF e] object.prems e by (fastforce simp: value_wf_iff)
    ultimately show ?thesis
      using object_lookup [OF object.prems(1) e] w(1) by (auto simp: member_text_def)
  qed
  have "\<exists>ts. cmapM ?f (map fst ms) = Inr ts \<and> list_all2 (\<lambda>(k, v). member_text D (58 # w) k v) ms ts"
    if "set ms \<subseteq> set xs" for ms
    using that
  proof (induction ms)
    case (Cons e ms)
    then show ?case using one [of "fst e" "snd e"] by (cases e) auto
  qed simp
  then obtain ts where
    ts: "cmapM ?f (map fst xs) = Inr ts" "list_all2 (\<lambda>(k, v). member_text D (58 # w) k v) xs ts" by blast
  then have "fast_writeValue D yaml (VObject xs) = Inr ([123] @ join_texts [44] ts @ [125])"
    by (simp add: lit_def)
  moreover have "layout D (VObject xs) ([123] @ join_texts [44] ts @ [125])"
  proof (cases "xs = []")
    case True
    then show ?thesis using ts(2) l_object_empty [of "[]" D] by simp
  next
    case False
    then show ?thesis using layout_join_members [OF ts(2) _ w(2)] by (intro l_object) simp
  qed
  ultimately show ?case by blast
qed

section \<open>The styled writers\<close>

definition writes :: "('d Value \<Rightarrow> styled \<Rightarrow> styled cres) \<Rightarrow> 'd real_ops \<Rightarrow> 'd Value \<Rightarrow> bool" where
  "writes wv D v \<longleftrightarrow> (\<forall>s. spaces (sindent s) \<longrightarrow> \<not> sadd s \<longrightarrow>
     (\<exists>w t s'. wv v s = Inr s' \<and> sdoc s' = sdoc s @ w @ t \<and> spaces w \<and> layout D v t \<and>
        sindent s' = sindent s \<and> \<not> sadd s'))"

definition pushes :: "('d Value \<Rightarrow> styled \<Rightarrow> styled cres) \<Rightarrow> 'd real_ops \<Rightarrow> 'd Value \<Rightarrow> bool" where
  "pushes wv D v \<longleftrightarrow> (\<forall>s. sadd s \<longrightarrow>
     (\<exists>t. wv v s = Inr (s\<lparr>schildren := schildren s @ [t]\<rparr>) \<and> layout D v t))"

text \<open>Values that are written without line breaks.\<close>

definition one_line :: "'d Value \<Rightarrow> bool" where
  "one_line v \<longleftrightarrow> \<not> ((isArray v \<or> isObject v) \<and> 0 < vsize v)"

lemma line_loop_pushes:
  assumes "\<forall>v \<in> set vs. pushes wv D v" "sadd s"
  shows "\<exists>ts l. line_loop wv (length (schildren s)) vs len s =
      Inr (l, s\<lparr>schildren := schildren s @ ts\<rparr>) \<and> list_all2 (layout D) vs ts"
  using assms
proof (induction vs arbitrary: s len)
  case (Cons v vs)
  then obtain t where t: "wv v s = Inr (s\<lparr>schildren := schildren s @ [t]\<rparr>)" "layout D v t"
    by (auto simp: pushes_def)
  let ?s = "s\<lparr>schildren := schildren s @ [t]\<rparr>"
  obtain ts l where "line_loop wv (length (schildren ?s)) vs (len + int (length t)) ?s =
      Inr (l, ?s\<lparr>schildren := schildren ?s @ ts\<rparr>)" "list_all2 (layout D) vs ts"
    using Cons.IH [of ?s "len + int (length t)"] Cons.prems by auto
  with t show ?case by (intro exI [of _ "t # ts"] exI [of _ l]) simp
qed simp

lemma isMultineArray_result:
  assumes st: "storable D (VArray xs)" and ps: "\<And>v. v \<in> set (map snd xs) \<Longrightarrow> one_line v \<Longrightarrow> pushes wv D v"
    and s: "\<not> sadd s"
  shows "\<exists>multi cs. isMultineArray wv xs s = Inr (multi, s\<lparr>schildren := cs\<rparr>) \<and>
      ((multi \<and> cs = []) \<or> list_all2 (layout D) (map snd xs) cs)"
proof -
  note d = dense_array [OF st]
  let ?s = "s\<lparr>schildren := [], sadd := True\<rparr>"
  let ?vs = "map snd xs"
  have sa: "s\<lparr>schildren := cs, sadd := False\<rparr> = s\<lparr>schildren := cs\<rparr>" for cs using s by simp
  show ?thesis
  proof (cases "rightMargin \<le> sint (vsize (VArray xs) * 3) \<or> list_ex (\<lambda>v. \<not> one_line v) ?vs")
    case True
    then have "isMultineArray wv xs s = Inr (True, s\<lparr>schildren := []\<rparr>)"
      using d by (auto simp: isMultineArray_def Let_def one_line_def)
    then show ?thesis by blast
  next
    case False
    then have "\<forall>v \<in> set ?vs. pushes wv D v" using ps by (auto simp: list_ex_iff)
    from line_loop_pushes [OF this, of ?s] obtain ts l where
      "line_loop wv 0 ?vs (4 + (int (length xs) - 1) * 2) ?s = Inr (l, ?s\<lparr>schildren := ts\<rparr>)"
      "list_all2 (layout D) ?vs ts"
      by fastforce
    with False d sa have "isMultineArray wv xs s = Inr (rightMargin \<le> l, s\<lparr>schildren := ts\<rparr>)"
      by (simp add: isMultineArray_def Let_def one_line_def)
    with \<open>list_all2 (layout D) ?vs ts\<close> show ?thesis by blast
  qed
qed

locale indenter =
  fixes C :: style
  assumes indentation_spaces: "spaces (indentation C)"
    and writeIndent_spaces: "spaces (sindent s) \<Longrightarrow> \<exists>w. spaces w \<and> writeIndent C s = emit w s"
begin

lemma writeWithIndent_result:
  "spaces (sindent s) \<Longrightarrow> \<exists>w. spaces w \<and> writeWithIndent C t s = emit (w @ t) s"
  using writeIndent_spaces [of s] by (auto simp: writeWithIndent_def emit_def)

lemma lines_of_children:
  assumes "list_all2 (layout D) vs cs" "vs \<noteq> []" "spaces (sindent s)" "drop i (schildren s) = cs"
  shows "\<exists>t. array_lines C wv True i vs s = Inr (emit t s) \<and> layout_elements D vs t"
  using assms
proof (induction vs cs arbitrary: i s rule: list_all2_induct)
  case (Cons v vs c cs)
  have i: "i < length (schildren s)" "schildren s ! i = c" "drop (Suc i) (schildren s) = cs"
    using Cons.prems(3) by (metis drop_all list.distinct(1) not_le, metis nth_via_drop, metis drop_Suc list.sel(3) tl_drop)
  obtain w where w: "spaces w" "writeWithIndent C c s = emit (w @ c) s"
    using writeWithIndent_result [OF Cons.prems(2)] by blast
  show ?case
  proof (cases "vs = []")
    case True
    then show ?thesis using i w l_element [OF w(1) Cons.hyps(1), of "[]"] Cons.hyps(2) by auto
  next
    case False
    let ?s = "emit (lit '','') (emit (w @ c) s)"
    obtain t where t: "array_lines C wv True (Suc i) vs ?s = Inr (emit t ?s)" "layout_elements D vs t"
      using Cons.IH [OF False, of ?s "Suc i"] Cons.prems(2) i(3) by (auto simp: emit_def)
    from l_elements [OF w(1) Cons.hyps(1) _ t(2), of "[]"] show ?thesis
      using False i w t by (intro exI [of _ "w @ c @ [44] @ t"]) (simp add: emit_def lit_def)
  qed
qed simp

lemma lines_of_values:
  assumes "\<forall>v \<in> set vs. writes wv D v" "vs \<noteq> []" "spaces (sindent s)" "\<not> sadd s"
  shows "\<exists>t s'. array_lines C wv False i vs s = Inr s' \<and> sdoc s' = sdoc s @ t \<and> layout_elements D vs t \<and>
      sindent s' = sindent s \<and> \<not> sadd s'"
  using assms
proof (induction vs arbitrary: i s)
  case (Cons v vs)
  obtain w where w: "spaces w" "writeIndent C s = emit w s"
    using writeIndent_spaces [OF Cons.prems(3)] by blast
  obtain w1 t1 s1 where s1: "wv v (emit w s) = Inr s1" "sdoc s1 = sdoc s @ w @ w1 @ t1" "spaces w1"
      "layout D v t1" "sindent s1 = sindent s" "\<not> sadd s1"
    using Cons.prems unfolding writes_def
    by (auto simp: emit_def dest!: spec [of _ "s\<lparr>sdoc := sdoc s @ w\<rparr>"])
  show ?case
  proof (cases "vs = []")
    case True
    then show ?thesis using w s1 l_element [of "w @ w1" D v t1 "[]"] by auto
  next
    case False
    let ?s = "emit (lit '','') s1"
    obtain t s' where t: "array_lines C wv False (Suc i) vs ?s = Inr s'" "sdoc s' = sdoc ?s @ t"
        "layout_elements D vs t" "sindent s' = sindent ?s" "\<not> sadd s'"
      using Cons.IH [of ?s "Suc i"] False Cons.prems s1 by (auto simp: emit_def)
    from l_elements [OF _ s1(4) _ t(3), of "w @ w1" "[]"] w s1 t show ?thesis
      using False by (intro exI [of _ "w @ w1 @ t1 @ [44] @ t"] exI [of _ s']) (simp add: emit_def lit_def)
  qed
qed simp

lemma lines_of_members:
  assumes "\<forall>(k, v) \<in> set ms. look k = v \<and> cstr k = k \<and> writes wv D v" "ms \<noteq> []"
    "spaces (sindent s)" "\<not> sadd s"
  shows "\<exists>t s'. member_lines C wv look (map fst ms) s = Inr s' \<and> sdoc s' = sdoc s @ t \<and> layout_members D ms t \<and>
      sindent s' = sindent s \<and> \<not> sadd s'"
  using assms
proof (induction ms arbitrary: s)
  case (Cons e ms)
  obtain k v where e: "e = (k, v)" "look k = v" "cstr k = k" "writes wv D v" using Cons.prems(1) by (cases e) auto
  obtain q where q: "valueToQuotedString (Some k) = Inr q" using quoted_ok by blast
  obtain w where w: "spaces w" "writeWithIndent C q s = emit (w @ q) s"
    using writeWithIndent_result [OF Cons.prems(3)] by blast
  let ?s = "emit (lit '' : '') (emit (w @ q) s)"
  obtain w1 t1 s1 where s1: "wv v ?s = Inr s1" "sdoc s1 = sdoc s @ w @ q @ [32, 58, 32] @ w1 @ t1" "spaces w1"
      "layout D v t1" "sindent s1 = sindent s" "\<not> sadd s1"
    using e(4) Cons.prems unfolding writes_def by (auto simp: emit_def lit_def dest!: spec [of _ ?s])
  have sp: "spaces [32]" by (simp add: is_space_def)
  show ?case
  proof (cases "ms = []")
    case True
    then show ?thesis using w s1 e q l_member [OF w(1) q sp _ s1(4), of "32 # w1" "[]"] sp by auto
  next
    case False
    let ?r = "emit (lit '','') s1"
    obtain t s' where t: "member_lines C wv look (map fst ms) ?r = Inr s'" "sdoc s' = sdoc ?r @ t"
        "layout_members D ms t" "sindent s' = sindent ?r" "\<not> sadd s'"
      using Cons.IH [of ?r] False Cons.prems s1 by (auto simp: emit_def)
    from l_members [OF w(1) q sp _ s1(4) _ t(3), of "32 # w1" "[]"] w s1 t e q sp show ?thesis
      using False
      by (intro exI [of _ "w @ q @ [32] @ [58] @ (32 # w1) @ t1 @ [] @ [44] @ t"] exI [of _ s'])
         (simp add: emit_def lit_def)
  qed
qed simp

lemma unindent_indent:
  "sindent s' = sindent s @ indentation C \<Longrightarrow> unindent C s' = Inr (s'\<lparr>sindent := sindent s\<rparr>)"
  by (simp add: unindent_def)

text \<open>The bracketing of a block of lines: indent, the lines, unindent and the closing bracket.\<close>

lemma block_result:
  assumes s: "spaces (sindent s)"
    and lines: "\<And>s1. sdoc s1 = sdoc s @ w0 @ [o1] \<Longrightarrow> sindent s1 = sindent s @ indentation C \<Longrightarrow>
      sadd s1 = sadd s \<Longrightarrow> schildren s1 = schildren s \<Longrightarrow>
      \<exists>t s2. f s1 = Inr s2 \<and> sdoc s2 = sdoc s1 @ t \<and> P t \<and> sindent s2 = sindent s1 \<and> \<not> sadd s2"
    and w0: "writeWithIndent C [o1] s = emit (w0 @ [o1]) s"
  shows "\<exists>t w s'. cbind (f (indent C (writeWithIndent C [o1] s))) (\<lambda>s. cmap (writeWithIndent C [o2]) (unindent C s)) = Inr s' \<and>
     sdoc s' = sdoc s @ w0 @ [o1] @ (t @ w) @ [o2] \<and> P t \<and> spaces w \<and> sindent s' = sindent s \<and> \<not> sadd s'"
proof -
  let ?s1 = "indent C (writeWithIndent C [o1] s)"
  obtain t s2 where s2: "f ?s1 = Inr s2" "sdoc s2 = sdoc s @ w0 @ [o1] @ t" "P t"
      "sindent s2 = sindent s @ indentation C" "\<not> sadd s2"
    using lines [of ?s1] by (auto simp: w0 indent_def emit_def)
  let ?s3 = "s2\<lparr>sindent := sindent s\<rparr>"
  obtain w where w: "spaces w" "writeWithIndent C [o2] ?s3 = emit (w @ [o2]) ?s3"
    using writeWithIndent_result [of ?s3 "[o2]"] s by auto
  show ?thesis using s2 w unindent_indent [OF s2(4)] by (auto simp: emit_def)
qed

lemma scalar_styled:
  assumes "storable D v" "\<And>xs. v \<noteq> VArray xs" "\<And>xs. v \<noteq> VObject xs"
  shows "\<exists>t. (\<forall>s. styled_writeValue C D v s = Inr (pushValue t s)) \<and> layout D v t"
proof -
  obtain t where t: "fast_writeValue D False v = Inr t" "layout D v t"
    using scalar_layout [OF assms] by blast
  then have "styled_writeValue C D v s = Inr (pushValue t s)" for s
    using assms by (cases v) (auto simp: cbind_eq_Inr cmap_eq_Inr lit_def)
  with t(2) show ?thesis by blast
qed

lemma empty_styled:
  "styled_writeValue C D (VArray []) s = Inr (pushValue (lit ''[]'') s)"
  "styled_writeValue C D (VObject []) s = Inr (pushValue (lit ''{}'') s)"
  by (simp_all add: writeArrayValue_def vsize_def)

lemma empty_layout: "layout D (VArray []) (lit ''[]'')" "layout D (VObject []) (lit ''{}'')"
  using l_array_empty [of "[]" D] l_object_empty [of "[]" D] by (simp_all add: lit_def)

lemma pushed:
  assumes "\<And>s. wv v s = Inr (pushValue t s)" "layout D v t"
  shows "pushes wv D v" "writes wv D v"
  using assms(2) spaces_Nil by (fastforce simp: pushes_def writes_def pushValue_def emit_def assms(1))+

lemma pushes_one_line:
  assumes "storable D v" "one_line v"
  shows "pushes (styled_writeValue C D) D v"
proof (cases v)
  case (VArray xs)
  then have "xs = []" using assms dense_array(3) [of D xs]
    by (simp add: one_line_def isArray_def word_neq_0_conv [symmetric])
  then show ?thesis using VArray pushed(1) [where wv = "styled_writeValue C D" and D = D, OF empty_styled(1) empty_layout(1)] by simp
next
  case (VObject xs)
  then have "(of_nat (length xs) :: u32) = 0" using assms(2)
    by (simp add: one_line_def isObject_def vsize_def word_neq_0_conv [symmetric])
  then have "unat (of_nat (length xs) :: u32) = 0" by simp
  then have "xs = []" using assms(1) VObject by (simp add: unsigned_of_nat take_bit_nat_eq_self)
  then show ?thesis using VObject pushed(1) [where wv = "styled_writeValue C D" and D = D, OF empty_styled(2) empty_layout(2)] by simp
qed (use scalar_styled [OF assms(1)] pushed(1) in \<open>auto simp del: styled_writeValue.simps\<close>)

lemma styled_writes:
  assumes "value_wf v" "storable D v"
  shows "writes (styled_writeValue C D) D v"
  using assms
proof (induction v rule: value_induct)
  case (scalar v)
  then obtain t where "\<And>s. styled_writeValue C D v s = Inr (pushValue t s)" "layout D v t"
    using scalar_styled [of D v] by auto
  then show ?case by (rule pushed(2))
next
  case (array xs)
  let ?wv = "styled_writeValue C D"
  note d = dense_array [OF array.prems(2)]
  have ok: "value_wf v \<and> storable D v" if "v \<in> set (map snd xs)" for v
    using array.prems that by (auto simp: value_wf_iff)
  then have vs: "\<forall>v \<in> set (map snd xs). writes ?wv D v" using array.IH by force
  show ?case
  proof (cases "xs = []")
    case True
    then show ?thesis using pushed(2) [where wv = ?wv and D = D, OF empty_styled(1) empty_layout(1)] by simp
  next
    case False
    show ?thesis unfolding writes_def
    proof (intro allI impI)
      fix s :: styled assume s: "spaces (sindent s)" "\<not> sadd s"
      obtain multi cs where m: "isMultineArray ?wv xs s = Inr (multi, s\<lparr>schildren := cs\<rparr>)"
          "(multi \<and> cs = []) \<or> list_all2 (layout D) (map snd xs) cs"
        using isMultineArray_result [of D xs ?wv s] pushes_one_line ok array.prems(2) s(2) by blast
      let ?s = "s\<lparr>schildren := cs\<rparr>"
      have size: "vsize (VArray xs) \<noteq> 0" using d(3) False by auto
      show "\<exists>w t s'. ?wv (VArray xs) s = Inr s' \<and> sdoc s' = sdoc s @ w @ t \<and> spaces w \<and>
          layout D (VArray xs) t \<and> sindent s' = sindent s \<and> \<not> sadd s'"
      proof (cases multi)
        case True
        obtain w0 where w0: "spaces w0" "writeWithIndent C [91] ?s = emit (w0 @ [91]) ?s"
          using writeWithIndent_result [of ?s "[91]"] s by auto
        have "\<exists>t s2. array_lines C ?wv (cs \<noteq> []) 0 (map snd xs) s1 = Inr s2 \<and> sdoc s2 = sdoc s1 @ t \<and>
            layout_elements D (map snd xs) t \<and> sindent s2 = sindent s1 \<and> \<not> sadd s2"
          if "sindent s1 = sindent ?s @ indentation C" "sadd s1 = sadd ?s" "schildren s1 = schildren ?s" for s1
        proof (cases "cs = []")
          case True
          then show ?thesis
            using lines_of_values [OF vs, of s1] False that s indentation_spaces by simp
        next
          case ne: False
          with m(2) have "list_all2 (layout D) (map snd xs) cs" by simp
          from lines_of_children [OF this, of s1 0 ?wv] show ?thesis
            using ne False that s indentation_spaces by (auto simp: emit_def)
        qed
        from block_result [of ?s w0 91 "array_lines C ?wv (cs \<noteq> []) 0 (map snd xs)"
            "layout_elements D (map snd xs)" 93, OF _ this w0(2)] s(1)
        obtain t w s' where r: "cbind (array_lines C ?wv (cs \<noteq> []) 0 (map snd xs) (indent C (writeWithIndent C [91] ?s)))
              (\<lambda>s. cmap (writeWithIndent C [93]) (unindent C s)) = Inr s'"
            "sdoc s' = sdoc s @ w0 @ [91] @ (t @ w) @ [93]" "layout_elements D (map snd xs) t" "spaces w"
            "sindent s' = sindent s" "\<not> sadd s'"
          by auto
        have "?wv (VArray xs) s = Inr s'"
          using r(1) m(1) True size d by (simp add: writeArrayValue_def lit_def)
        moreover have "layout D (VArray xs) ([91] @ (t @ w) @ [93])"
          by (rule l_array) (rule layout_after(2) [OF r(3,4)])
        ultimately show ?thesis using r w0(1) by blast
      next
        case one: False
        with m(2) have cs: "list_all2 (layout D) (map snd xs) cs" by simp
        have "?wv (VArray xs) s = Inr (emit ([91, 32] @ join_texts [44, 32] cs @ [32, 93]) ?s)"
          using m(1) one size d list_all2_lengthD [OF cs] by (simp add: writeArrayValue_def lit_def)
        moreover have "layout D (VArray xs) ([91] @ ([32] @ join_texts [44, 32] cs @ [32]) @ [93])"
        proof (rule l_array)
          have sp: "spaces [32]" by (simp add: is_space_def)
          have "layout_elements D (map snd xs) (join_texts (44 # [32]) cs)"
            by (rule layout_join [OF cs _ sp]) (use False in simp)
          from layout_elements_before [OF layout_after(2) [OF this sp] sp]
          show "layout_elements D (map snd xs) ([32] @ join_texts [44, 32] cs @ [32])" .
        qed
        ultimately show ?thesis
          using s by (intro exI [of _ "[]"] exI [of _ "[91] @ ([32] @ join_texts [44, 32] cs @ [32]) @ [93]"])
            (simp add: emit_def)
      qed
    qed
  qed
next
  case (object xs)
  let ?wv = "styled_writeValue C D"
  have ms: "\<forall>(k, v) \<in> set xs. or_null (map_of xs (cstr k)) = v \<and> cstr k = k \<and> writes ?wv D v"
  proof (intro ballI, clarify)
    fix k v assume e: "(k, v) \<in> set xs"
    then have "value_wf v" "storable D v" using object.prems by (auto simp: value_wf_iff)
    with object.IH [OF e] object_lookup [OF object.prems(1) e]
    show "or_null (map_of xs (cstr k)) = v \<and> cstr k = k \<and> writes ?wv D v" by simp
  qed
  show ?case
  proof (cases "xs = []")
    case True
    then show ?thesis using pushed(2) [where wv = ?wv and D = D, OF empty_styled(2) empty_layout(2)] by simp
  next
    case False
    show ?thesis unfolding writes_def
    proof (intro allI impI)
      fix s :: styled assume s: "spaces (sindent s)" "\<not> sadd s"
      let ?f = "member_lines C ?wv (\<lambda>name. or_null (map_of xs (cstr name))) (map fst xs)"
      obtain w0 where w0: "spaces w0" "writeWithIndent C [123] s = emit (w0 @ [123]) s"
        using writeWithIndent_result [of s "[123]"] s by auto
      have "\<exists>t s2. ?f s1 = Inr s2 \<and> sdoc s2 = sdoc s1 @ t \<and>
          layout_members D xs t \<and> sindent s2 = sindent s1 \<and> \<not> sadd s2"
        if "sindent s1 = sindent s @ indentation C" "sadd s1 = sadd s" for s1
        using lines_of_members [OF ms False, of s1] that s indentation_spaces by simp
      from block_result [of s w0 123 ?f "layout_members D xs" 125, OF s(1) this w0(2)]
      obtain t w s' where r: "cbind (?f (indent C (writeWithIndent C [123] s)))
            (\<lambda>s. cmap (writeWithIndent C [125]) (unindent C s)) = Inr s'"
          "sdoc s' = sdoc s @ w0 @ [123] @ (t @ w) @ [125]" "layout_members D xs t" "spaces w"
          "sindent s' = sindent s" "\<not> sadd s'"
        by auto
      have "?wv (VObject xs) s = Inr s'" using r(1) False by (simp add: lit_def)
      moreover have "layout D (VObject xs) ([123] @ (t @ w) @ [125])"
        by (rule l_object) (rule layout_after(3) [OF r(3,4)])
      ultimately show "\<exists>w t s'. ?wv (VObject xs) s = Inr s' \<and> sdoc s' = sdoc s @ w @ t \<and> spaces w \<and>
          layout D (VObject xs) t \<and> sindent s' = sindent s \<and> \<not> sadd s'"
        using r w0(1) by blast
    qed
  qed
qed

lemma styled_document:
  assumes "value_wf v" "storable D v"
  shows "\<exists>w t s'. styled_writeValue C D v (styled_start doc) = Inr s' \<and> sdoc s' = doc @ w @ t \<and>
    spaces w \<and> layout D v t"
  using styled_writes [OF assms, unfolded writes_def, THEN spec [of _ "styled_start doc"]]
  by (simp add: styled_start_def) blast

end

interpretation styled_writer: indenter StyledWriter
proof unfold_locales
  show "spaces (indentation StyledWriter)" by (simp add: StyledWriter_def spaces_def is_space_def list_all_iff)
  fix s :: styled assume s: "spaces (sindent s)"
  have "writeIndent StyledWriter s = emit [] s \<or> writeIndent StyledWriter s = emit (sindent s) s \<or>
      writeIndent StyledWriter s = emit (10 # sindent s) s"
    by (simp add: StyledWriter_def StyledWriter_writeIndent_def emit_def)
  moreover have "spaces (10 # sindent s)" using s by (simp add: is_space_def)
  ultimately show "\<exists>w. spaces w \<and> writeIndent StyledWriter s = emit w s" using s spaces_Nil by blast
qed

interpretation stream_writer: indenter "StyledStreamWriter [9]"
  by unfold_locales
     (auto simp: StyledStreamWriter_def StyledStreamWriter_writeIndent_def is_space_def
        intro!: exI [of _ "10 # sindent _"])

section \<open>Reading back\<close>

lemma parse_layout:
  assumes "layout D v t" "value_wf v" "storable D v" "spaces w" "spaces w'"
    and "strictRoot F \<Longrightarrow> isArray (reread D v) \<or> isObject (reread D v)"
  shows "parse F D (w @ t @ w') root = Some (Inr (True, reread D v, []))"
proof -
  have "after_number w'"
    using after_number_spaces [OF assms(5), of "[]"] by (simp add: after_number_def peek_def number_char_def is_digit_def)
  then have "readValue (2 * length (w @ t @ w') + 2) F D root (w @ t @ w') [] = Some (Inr (True, reread D v, w', []))"
    using layout_reads(1) [OF assms(1)] assms(2-4) unfolding reads_value_def by simp
  then show ?thesis using assms(6) by (auto simp: parse_def split: prod.splits)
qed

end
