(* ===== verification/Json_Props.thy ===== *)
theory Json_Props
  imports Json_Roundtrip
begin

text \<open>
  What the JSON library promises to its callers: the texts of the writers are read back, all three writers
  agree, reading always ends with a well-formed value, and where the reader fails. The instances are
  evaluated with \<open>int_reals\<close>, in which the \<open>double\<close>s are the integers.
\<close>

section \<open>Instances\<close>

definition scan_int :: "byte list \<Rightarrow> int option" where
  "scan_int t =
     (let neg = (peek t = 45); ds = takeWhile is_digit (if neg then tl t else t);
          n = foldl (\<lambda>n c. n * 10 + (int (unat c) - 48)) 0 ds in
      if ds = [] then None else Some (if neg then - n else n))"

definition int_reals :: "int real_ops" where
  "int_reals = \<lparr>r_zero = 0, r_one = 1, r_of_int = id, r_to_int = id, r_less = (<), r_le = (\<le>), r_eq = (=),
     r_print = (\<lambda>d. dec_int d @ lit ''.000000''), r_scan = scan_int\<rparr>"

definition sample :: "int Value" where
  "sample = VObject
     [(lit ''a'', VArray [(0, VInt 7), (1, VInt (- 5)), (2, VNull)]),
      (lit ''b'', VString (Some (lit ''x'' @ [10, 34] @ lit ''y''))),
      (lit ''c'', VReal 12),
      (lit ''d'', VObject [(lit ''e'', VBool True), (lit ''f'', VArray [])])]"

lemma sample_real: "real_storable int_reals 12"
  by code_simp

lemma sample_ok: "value_wf sample" "storable int_reals sample" "reread int_reals sample = sample"
  using sample_real by (simp_all add: sample_def lit_def value_wf_iff minInt_def maxInt_def upt_conv_Cons) code_simp?

section \<open>Writing and reading back\<close>

lemma reread_type [simp]: "isArray (reread D v) = isArray v" if "\<And>i. v \<noteq> VInt i" "\<And>u. v \<noteq> VUInt u"
  using that by (cases v) (simp_all add: isArray_def)

lemma reread_container: "isArray v \<or> isObject v \<Longrightarrow> isArray (reread D v) \<or> isObject (reread D v)"
  by (cases v) (auto simp: isArray_def isObject_def)

lemma spaces_newline: "spaces [10]"
  by (simp add: spaces_def is_space_def)

lemma written_text:
  assumes "value_wf v" "storable D v"
  shows "\<exists>t. fast_write D yaml v = Inr (t @ [10]) \<and> layout D v t"
    and "\<exists>w t. StyledWriter_write D v = Inr (w @ t @ [10]) \<and> spaces w \<and> layout D v t"
    and "\<exists>w t. StyledStreamWriter_write D [9] out v = Inr (out @ w @ t @ [10]) \<and> spaces w \<and> layout D v t"
  using fast_layout [OF assms, of yaml] apply (auto simp: fast_write_def)[1]
  using styled_writer.styled_document [OF assms, of "[]"]
   apply (clarsimp simp: StyledWriter_write_def emit_def) apply blast
  using stream_writer.styled_document [OF assms, of out]
  apply (clarsimp simp: StyledStreamWriter_write_def StyledStreamWriter_writeValue_def emit_def) apply blast
  done



text \<open>
  C28: The three writers are equivalent. For such a value \<open>FastWriter\<close>, \<open>StyledWriter\<close> and
  \<open>StyledStreamWriter\<close> (which appends to what the stream holds) all succeed, and their different
  texts are read as one and the same value.
\<close>

theorem json_writers_agree:
  assumes "value_wf v" "storable D v"
  shows "\<exists>t1 t2 t3 r. fast_write D yaml v = Inr t1 \<and> toStyledString D v = Inr t2 \<and>
    StyledStreamWriter_write D [9] out v = Inr (out @ t3) \<and>
    (\<forall>t \<in> {t1, t2, t3}. parse Features_all D t root = Some (Inr (True, r, [])))"
proof -
  have p: "parse Features_all D (w @ t @ [10]) root = Some (Inr (True, reread D v, []))"
    if "layout D v t" "spaces w" for w t
    by (rule parse_layout [OF that(1) assms that(2) spaces_newline]) (simp add: Features_all_def)
  obtain t1 where "fast_write D yaml v = Inr (t1 @ [10])" "layout D v t1"
    using written_text(1) [OF assms] by blast
  moreover obtain w2 t2 where "toStyledString D v = Inr (w2 @ t2 @ [10])" "spaces w2" "layout D v t2"
    using written_text(2) [OF assms] unfolding toStyledString_def by blast
  moreover obtain w3 t3 where "StyledStreamWriter_write D [9] out v = Inr (out @ w3 @ t3 @ [10])"
      "spaces w3" "layout D v t3"
    using written_text(3) [OF assms] by blast
  ultimately show ?thesis using p [of t1 "[]"] p [of t2 w2] p [of t3 w3]
    by (intro exI [of _ "t1 @ [10]"] exI [of _ "w2 @ t2 @ [10]"] exI [of _ "w3 @ t3 @ [10]"] exI [of _ "reread D v"])
      (auto simp: spaces_def)
qed

theorem json_writers_agree_witness:
  "\<exists>t1 t2 t3 r. fast_write int_reals False sample = Inr t1 \<and> toStyledString int_reals sample = Inr t2 \<and>
    StyledStreamWriter_write int_reals [9] [] sample = Inr ([] @ t3) \<and>
    (\<forall>t \<in> {t1, t2, t3}. parse Features_all int_reals t VNull = Some (Inr (True, r, [])))"
  by (rule json_writers_agree [OF sample_ok(1,2)])

section \<open>Any document\<close>

text \<open>
  C27: Reading always ends: on every document the fuel of \<open>parse\<close> is enough, and the result is either the
  one memory error of \<open>decodeDouble\<close> or a root that satisfies the invariant of the value type, with
  success exactly when no error was recorded.
\<close>

theorem parse_well_formed:
  assumes "value_wf root"
  shows "parse F D document root = Some (Inl OutOfBounds) \<or>
    (\<exists>ok v errors. parse F D document root = Some (Inr (ok, v, errors)) \<and> value_wf v \<and> (ok \<longleftrightarrow> errors = []))"
  by (rule parse_cases [OF assms])

theorem parse_well_formed_witness:
  "parse Features_all int_reals (lit ''[1,'') VNull = Some (Inl OutOfBounds) \<or>
    (\<exists>ok v errors. parse Features_all int_reals (lit ''[1,'') VNull = Some (Inr (ok, v, errors)) \<and> value_wf v \<and>
      (ok \<longleftrightarrow> errors = []))"
  by (rule parse_well_formed) simp

text \<open>
  C37: A number of exactly 32 characters with a point, an exponent or a sign inside makes \<open>decodeDouble\<close>
  write the NUL behind its 33 bytes: \<open>parse\<close> of such a document leaves the buffer, whatever the root.
\<close>

theorem number_overflows_buffer:
  assumes "number_text t" "looks_double t" "length t = 32" "after_number rest"
  shows "parse F D (t @ rest) root = Some (Inl OutOfBounds)"
proof -
  have "token_at (t @ rest) tokenNumber t rest" by (rule number_token [OF assms(1,4)])
  from skipCommentTokens_token [OF this, where F = F]
  have "readValue (Suc n) F D root (t @ rest) [] = Some (Inl OutOfBounds)" for n
    using assms(2,3) by (auto simp: readValue.simps readValue_body_def read_scalar_def decodeNumber_def decodeDouble_def Let_def)
  then show ?thesis by (simp add: parse_def)
qed

theorem number_overflows_buffer_witness:
  "parse Features_all int_reals (lit ''1.000000000000000000000000000000,'') VNull = Some (Inl OutOfBounds)"
  using number_overflows_buffer [of "lit ''1.000000000000000000000000000000''" "lit '',''" Features_all int_reals VNull]
  by (simp add: number_text_def looks_double_def lit_def is_digit_def number_char_def after_number_def peek_def)

section \<open>What the reader and the values accept\<close>

text \<open>The test for a bad separator is never true, so any token continues an array.\<close>

lemma array_comma_accepts:
  "ttype (fst (skip_comments s)) \<noteq> tokenArrayEnd \<Longrightarrow> array_comma v s errors = Inr (snd (skip_comments s))"
  by (simp add: array_comma_def split_beta Let_def)

lemma array_with_colon:
  "parse Features_all int_reals (lit ''[1:2]'') VNull = Some (Inr (True, VArray [(0, VInt 1), (1, VInt 2)], []))"
  by code_simp

lemma lone_minus: "parse Features_all int_reals (lit ''-'') VNull = Some (Inr (True, VInt 0, []))"
  by code_simp

lemma object_with_colon:
  "parse Features_all int_reals (lit ''{\"a\":1/**/:\"b\":2}'') VNull =
     Some (Inr (True, VObject [(lit ''a'', VInt 1), (lit ''b'', VInt 2)], []))"
  by code_simp

lemma strict_null: "parse Features_strictMode int_reals (lit ''null'') VNull = Some (Inr (True, VNull, []))"
  by code_simp

lemma strict_comment:
  "parse Features_strictMode int_reals (lit ''[1/**/]'') VNull = Some (Inr (True, VArray [(0, VInt 1)], []))"
  by code_simp

lemma le_is_ge: "value_le D v w = value_ge D v w"
  by (simp add: value_le_def value_ge_def value_gt_def)

lemma convertible_but_throws:
  "isConvertibleTo D (VUInt 2147483647) intValue" "asInt D (VUInt 2147483647) = Inl RuntimeError"
  "isConvertibleTo D (VInt i) stringValue" "asString (VInt i) = Inl RuntimeError"
  by (simp_all add: isConvertibleTo_def asInt_def asString_def maxInt_def)

end
