(* ===== verification/XParam.thy ===== *)
theory XParam
  imports Json_Props Net_Msg
begin

text \<open>
  \<open>core::XParam\<close> (\<^verbatim>\<open>src/Core/xparam.hpp\<close>): the named parameters that users of the bus put into a message,
  a JSON object with typed setters and getters, carried as the text \<open>FastWriter\<close> writes.

  A getter has an output argument that it leaves alone when the entry is missing or of another type: the
  model takes its old value and returns the new one. Member functions that change the object return
  the changed object. \<open>iconv\<close> (behind \<open>put_WStr\<close> and \<open>get_WStr\<close>) and the file system are arguments.
\<close>

section \<open>The object\<close>

record 'd XParam =
  m_internal_obj :: "'d Value"

definition XParam_init :: "'d XParam" where
  "XParam_init = \<lparr>m_internal_obj = VNull\<rparr>"

definition put_Value :: "byte list \<Rightarrow> 'd Value \<Rightarrow> 'd XParam \<Rightarrow> 'd XParam cres" where
  "put_Value key value x =
     cmap (\<lambda>v. x\<lparr>m_internal_obj := v\<rparr>) (assign_member (m_internal_obj x) key value)"

definition get_Value :: "byte list \<Rightarrow> 'd XParam \<Rightarrow> 'd Value cres" where
  "get_Value key x = get_member (m_internal_obj x) key VNull"

section \<open>Setters\<close>

definition put_Int :: "byte list \<Rightarrow> u32 \<Rightarrow> 'd XParam \<Rightarrow> 'd XParam cres" where
  "put_Int key value = put_Value key (VInt value)"

definition put_UInt :: "byte list \<Rightarrow> u32 \<Rightarrow> 'd XParam \<Rightarrow> 'd XParam cres" where
  "put_UInt key value = put_Value key (VUInt value)"

definition put_Str :: "byte list \<Rightarrow> byte list \<Rightarrow> 'd XParam \<Rightarrow> 'd XParam cres" where
  "put_Str key value = put_Value key (value_of_string value)"

text \<open>\<open>snprintf\<close> into a buffer of 17 bytes.\<close>

definition put_ULongLong :: "byte list \<Rightarrow> u64 \<Rightarrow> 'd XParam \<Rightarrow> 'd XParam cres" where
  "put_ULongLong key value = put_Str key (take 16 (hex_text False (unat value)))"

definition put_WStr :: "('w list \<Rightarrow> byte list cres) \<Rightarrow> byte list \<Rightarrow> 'w list \<Rightarrow> 'd XParam \<Rightarrow> 'd XParam cres" where
  "put_WStr w2a key value x = cbind (w2a value) (\<lambda>s. put_Str key s x)"

definition put_Bool :: "byte list \<Rightarrow> bool \<Rightarrow> 'd XParam \<Rightarrow> 'd XParam cres" where
  "put_Bool key value = put_Value key (VBool value)"

definition put_Real :: "byte list \<Rightarrow> 'd \<Rightarrow> 'd XParam \<Rightarrow> 'd XParam cres" where
  "put_Real key value = put_Value key (VReal value)"

fun append_all :: "'d Value list \<Rightarrow> 'd Value \<Rightarrow> 'd Value cres" where
  "append_all [] v = Inr v"
| "append_all (x # xs) v = cbind (vappend v x) (append_all xs)"

definition put_CharArray :: "byte list \<Rightarrow> byte list \<Rightarrow> 'd XParam \<Rightarrow> 'd XParam cres" where
  "put_CharArray key chararray x =
     cbind (append_all (map (\<lambda>c. VUInt (ucast c)) chararray) VNull) (\<lambda>arr_value. put_Value key arr_value x)"

definition get_InternalValue :: "'d XParam \<Rightarrow> 'd Value" where
  "get_InternalValue x = m_internal_obj x"

definition put_XParam :: "byte list \<Rightarrow> 'd XParam \<Rightarrow> 'd XParam \<Rightarrow> 'd XParam cres" where
  "put_XParam key param = put_Value key (get_InternalValue param)"

definition put_XParamVector :: "byte list \<Rightarrow> 'd XParam list \<Rightarrow> 'd XParam \<Rightarrow> 'd XParam cres" where
  "put_XParamVector key params x =
     cbind (append_all (map get_InternalValue params) VNull) (\<lambda>paramarray. put_Value key paramarray x)"

fun assign_all :: "(byte list \<times> 'd XParam) list \<Rightarrow> 'd Value \<Rightarrow> 'd Value cres" where
  "assign_all [] v = Inr v"
| "assign_all ((k, p) # ps) v = cbind (assign_member v k (get_InternalValue p)) (assign_all ps)"

definition put_XParamMap :: "byte list \<Rightarrow> (byte list, 'd XParam) std_map \<Rightarrow> 'd XParam \<Rightarrow> 'd XParam cres" where
  "put_XParamMap key params x =
     cbind (assign_all params VNull) (\<lambda>paramobj. put_Value key paramobj x)"

section \<open>Getters\<close>

definition get_Int :: "'d real_ops \<Rightarrow> byte list \<Rightarrow> 'd XParam \<Rightarrow> u32 \<Rightarrow> u32 cres" where
  "get_Int D key x value =
     cbind (get_Value key x) (\<lambda>result. if isInt result then asInt D result else Inr value)"

definition get_Int16 :: "'d real_ops \<Rightarrow> byte list \<Rightarrow> 'd XParam \<Rightarrow> u16 \<Rightarrow> u16 cres" where
  "get_Int16 D key x value =
     cbind (get_Value key x) (\<lambda>result. if isInt result then cmap ucast (asInt D result) else Inr value)"

definition get_Int8 :: "'d real_ops \<Rightarrow> byte list \<Rightarrow> 'd XParam \<Rightarrow> byte \<Rightarrow> byte cres" where
  "get_Int8 D key x value =
     cbind (get_Value key x) (\<lambda>result. if isInt result then cmap ucast (asInt D result) else Inr value)"

definition get_UInt8 :: "'d real_ops \<Rightarrow> byte list \<Rightarrow> 'd XParam \<Rightarrow> byte \<Rightarrow> byte cres" where
  "get_UInt8 D key x value = cbind (get_Value key x) (\<lambda>result.
     if isUInt result \<or> isInt result then cmap ucast (asUInt D result) else Inr value)"

definition get_UInt16 :: "'d real_ops \<Rightarrow> byte list \<Rightarrow> 'd XParam \<Rightarrow> u16 \<Rightarrow> u16 cres" where
  "get_UInt16 D key x value = cbind (get_Value key x) (\<lambda>result.
     if isUInt result \<or> isInt result then cmap ucast (asUInt D result) else Inr value)"

definition get_UInt :: "'d real_ops \<Rightarrow> byte list \<Rightarrow> 'd XParam \<Rightarrow> u32 \<Rightarrow> u32 cres" where
  "get_UInt D key x value = cbind (get_Value key x) (\<lambda>result.
     if isUInt result \<or> isInt result then asUInt D result else Inr value)"

definition get_Str :: "byte list \<Rightarrow> 'd XParam \<Rightarrow> byte list \<Rightarrow> byte list cres" where
  "get_Str key x value =
     cbind (get_Value key x) (\<lambda>result. if isString result then asString result else Inr value)"

text \<open>\<open>strtoull\<close> with base 16: white space, a sign, \<open>0x\<close>, digits, saturating at \<open>ULLONG_MAX\<close>.\<close>

definition hex_value :: "byte \<Rightarrow> nat option" where
  "hex_value c =
     (if is_digit c then Some (unat (c - ch CHR ''0''))
      else if ch CHR ''a'' \<le> c \<and> c \<le> ch CHR ''f'' then Some (unat (c - ch CHR ''a'') + 10)
      else if ch CHR ''A'' \<le> c \<and> c \<le> ch CHR ''F'' then Some (unat (c - ch CHR ''A'') + 10)
      else None)"

fun hex_number :: "nat \<Rightarrow> byte list \<Rightarrow> nat" where
  "hex_number n [] = n"
| "hex_number n (c # s) = (case hex_value c of Some d \<Rightarrow> hex_number (n * 16 + d) s | None \<Rightarrow> n)"

definition skip_0x :: "byte list \<Rightarrow> byte list" where
  "skip_0x s = (case s of
       a # b # c # r \<Rightarrow>
         if a = ch CHR ''0'' \<and> (b = ch CHR ''x'' \<or> b = ch CHR ''X'') \<and> hex_value c \<noteq> None
         then c # r else s
     | _ \<Rightarrow> s)"

definition strtoull16 :: "byte list \<Rightarrow> u64" where
  "strtoull16 s =
     (let s = dropWhile (\<lambda>c. c = 32 \<or> (9 \<le> c \<and> c \<le> 13)) s;
          neg = (peek s = ch CHR ''-'');
          s = (if peek s = ch CHR ''-'' \<or> peek s = ch CHR ''+'' then tl s else s);
          n = hex_number 0 (skip_0x s) in
      if 2 ^ 64 \<le> n then - 1 else if neg then - of_nat n else of_nat n)"

definition get_ULongLong :: "byte list \<Rightarrow> 'd XParam \<Rightarrow> u64 cres" where
  "get_ULongLong key x = cmap (\<lambda>s. strtoull16 (cstr s)) (get_Str key x [])"

definition get_WStr :: "(byte list \<Rightarrow> 'w list cres) \<Rightarrow> byte list \<Rightarrow> 'd XParam \<Rightarrow> 'w list \<Rightarrow> 'w list cres" where
  "get_WStr a2w key x value =
     cbind (get_Value key x) (\<lambda>result. if isString result then cbind (asString result) a2w else Inr value)"

definition get_Bool :: "'d real_ops \<Rightarrow> byte list \<Rightarrow> 'd XParam \<Rightarrow> bool \<Rightarrow> bool cres" where
  "get_Bool D key x value =
     cbind (get_Value key x) (\<lambda>result. Inr (if isBool result then asBool D result else value))"

definition get_Real :: "'d real_ops \<Rightarrow> byte list \<Rightarrow> 'd XParam \<Rightarrow> 'd \<Rightarrow> 'd cres" where
  "get_Real D key x value =
     cbind (get_Value key x) (\<lambda>result. if isDouble result then asDouble D result else Inr value)"

text \<open>
  The loops of \<open>get_CharArray\<close> and \<open>get_XParamVector\<close> over \<open>result[0]\<close>, ..., \<open>result[result.size() - 1]\<close>:
  \<open>operator[]\<close> gives null for an index that is missing.
\<close>

definition array_items :: "'d Value \<Rightarrow> 'd Value list" where
  "array_items result = (case result of
       VArray xs \<Rightarrow> elements (unat (vsize result)) xs
     | _ \<Rightarrow> [])"

definition get_CharArray :: "'d real_ops \<Rightarrow> byte list \<Rightarrow> 'd XParam \<Rightarrow> byte list \<Rightarrow> byte list cres" where
  "get_CharArray D key x chararray = cbind (get_Value key x) (\<lambda>result.
     if isArray result then cmapM (\<lambda>v. cmap ucast (asUInt D v)) (array_items result)
     else Inr chararray)"

definition get_XParam :: "byte list \<Rightarrow> 'd XParam \<Rightarrow> 'd XParam \<Rightarrow> 'd XParam cres" where
  "get_XParam key x param = cbind (get_Value key x) (\<lambda>result.
     Inr (if isObject result then param\<lparr>m_internal_obj := result\<rparr> else param))"

definition get_XParamVector :: "byte list \<Rightarrow> 'd XParam \<Rightarrow> 'd XParam list \<Rightarrow> 'd XParam list cres" where
  "get_XParamVector key x params = cbind (get_Value key x) (\<lambda>result.
     Inr (if isArray result then map (\<lambda>v. \<lparr>m_internal_obj = v\<rparr>) (array_items result) else params))"

fun insert_members :: "(byte list \<times> 'd Value) list \<Rightarrow> (byte list, 'd XParam) std_map \<Rightarrow> (byte list, 'd XParam) std_map" where
  "insert_members [] params = params"
| "insert_members ((k, v) # ms) params = insert_members ms (map_insert k \<lparr>m_internal_obj = v\<rparr> params)"

definition get_XParamMap :: "byte list \<Rightarrow> 'd XParam \<Rightarrow> (byte list, 'd XParam) std_map \<Rightarrow> (byte list, 'd XParam) std_map cres" where
  "get_XParamMap key x params = cbind (get_Value key x) (\<lambda>result.
     Inr (case result of
         VNull \<Rightarrow> []
       | VObject ms \<Rightarrow> insert_members ms []
       | _ \<Rightarrow> params))"

section \<open>Text, messages and files\<close>

definition ToJsonStr :: "'d real_ops \<Rightarrow> 'd XParam \<Rightarrow> byte list cres" where
  "ToJsonStr D x = fast_write D False (m_internal_obj x)"

definition FromJsonStr :: "'d real_ops \<Rightarrow> byte list \<Rightarrow> 'd XParam \<Rightarrow> (bool \<times> 'd XParam) cres option" where
  "FromJsonStr D jsonstr x =
     rbind (Some (vclear (m_internal_obj x))) (\<lambda>cleared.
     rbind (parse Features_all D jsonstr VNull) (\<lambda>(ok, root, errors).
       Some (Inr (if ok \<and> isObject root then (True, x\<lparr>m_internal_obj := root\<rparr>)
                  else (False, x\<lparr>m_internal_obj := cleared\<rparr>)))))"

definition FromMsgBusParam :: "'d real_ops \<Rightarrow> MsgBusParam \<Rightarrow> 'd XParam \<Rightarrow> (bool \<times> 'd XParam) cres option" where
  "FromMsgBusParam D param x =
     rbind (Some (memcpy_ptr (unat (paramlen param)) (paramdata param))) (\<lambda>jsonstr. FromJsonStr D jsonstr x)"

definition ToMsgBusParam :: "'d real_ops \<Rightarrow> 'd XParam \<Rightarrow> MsgBusParam cres" where
  "ToMsgBusParam D x =
     cmap (\<lambda>jsonstr. \<lparr>paramdata = Some jsonstr, paramlen = of_nat (length jsonstr)\<rparr>) (ToJsonStr D x)"

text \<open>The content of the file, or \<open>None\<close> when it cannot be opened.\<close>

definition FromJsonFile :: "'d real_ops \<Rightarrow> byte list option \<Rightarrow> 'd XParam \<Rightarrow> (bool \<times> 'd XParam) cres option" where
  "FromJsonFile D file x = (case file of
       None \<Rightarrow> Some (Inr (False, x))
     | Some filestr \<Rightarrow>
         rbind (parse_stream Features_all D filestr VNull) (\<lambda>(result, root, errors).
           Some (Inr (result, if result \<and> isObject root then x\<lparr>m_internal_obj := root\<rparr> else x))))"

text \<open>The result and the new content of the file, which is truncated when it can be opened.\<close>

definition ToJsonFile :: "'d real_ops \<Rightarrow> bool \<Rightarrow> 'd XParam \<Rightarrow> (bool \<times> byte list option) cres" where
  "ToJsonFile D can_open x =
     (if can_open
      then cmap (\<lambda>t. (True, Some t)) (StyledStreamWriter_write D [9] [] (m_internal_obj x))
      else Inr (False, None))"

end
