(* ===== verification/XParam_Props.thy ===== *)
theory XParam_Props
  imports XParam
begin

text \<open>
  What \<open>XParam\<close> promises: each setter followed by its getter gives the entry back and leaves the others
  alone, and the getters see the same entries after the object has travelled as the parameter of a
  message. The setter and getter of a type are the interface \<open>typed_entry\<close>, its entries read after the
  transport \<open>sent_entry\<close>; both are interpreted on every type the class offers.
\<close>

section \<open>The invariant of the object\<close>

definition param_wf :: "'d XParam \<Rightarrow> bool" where
  "param_wf x = (value_wf (m_internal_obj x) \<and> isObject (m_internal_obj x))"

lemma XParam_init_wf [simp]: "param_wf XParam_init"
  by (simp add: param_wf_def XParam_init_def isObject_def)

lemma assign_member_gives:
  "isObject v \<Longrightarrow> \<exists>c. assign_member v k x = Inr c \<and> isObject c"
  by (cases v) (auto simp: assign_member_def resolveReference_def isObject_def split: option.splits)

lemma get_Value_find: "param_wf x \<Longrightarrow> \<exists>r. member_find (m_internal_obj x) key = Inr r \<and> get_Value key x = Inr (or_null r)"
  by (cases "m_internal_obj x") (auto simp: param_wf_def isObject_def get_Value_def get_member_def member_find_def
      or_null_def cong: option.case_cong)

text \<open>A setter succeeds, its entry satisfies \<open>P\<close>, and all other entries are kept.\<close>

definition entry_put :: "byte list \<Rightarrow> 'd XParam \<Rightarrow> 'd XParam cres \<Rightarrow> ('d XParam \<Rightarrow> bool) \<Rightarrow> bool" where
  "entry_put key x r P \<longleftrightarrow>
     (\<exists>x'. r = Inr x' \<and> param_wf x' \<and> P x' \<and> (\<forall>k. cstr k \<noteq> cstr key \<longrightarrow> get_Value k x' = get_Value k x))"

lemma put_Value_gives:
  assumes "param_wf x" "value_wf v"
  shows "\<exists>x'. put_Value key v x = Inr x' \<and> param_wf x' \<and> get_Value key x' = Inr v \<and>
    (\<forall>k. cstr k \<noteq> cstr key \<longrightarrow> get_Value k x' = get_Value k x)"
proof -
  obtain c where c: "assign_member (m_internal_obj x) key v = Inr c" "isObject c"
    using assign_member_gives [of "m_internal_obj x" key v] assms(1) by (auto simp: param_wf_def)
  have "value_wf c" using assign_member_wf [OF _ assms(2) c(1)] assms(1) by (simp add: param_wf_def)
  then show ?thesis
    using c assign_member_find [OF _ c(1)] assms(1)
    by (intro exI [of _ "x\<lparr>m_internal_obj := c\<rparr>"]) (simp add: put_Value_def param_wf_def get_Value_def get_member_def)
qed

section \<open>Setter and getter of a type\<close>

locale typed_entry =
  fixes put :: "byte list \<Rightarrow> 'a \<Rightarrow> 'd XParam \<Rightarrow> 'd XParam cres"
    and get :: "byte list \<Rightarrow> 'd XParam \<Rightarrow> 'a \<Rightarrow> 'a cres"
    and valid :: "'a \<Rightarrow> bool" and canon :: "'a \<Rightarrow> 'a"
    and inject :: "'a \<Rightarrow> 'd Value" and pick :: "'d Value \<Rightarrow> 'a \<Rightarrow> 'a cres"
  assumes put_inject: "valid a \<Longrightarrow> put key a x = put_Value key (inject a) x"
    and get_pick: "get key x old = cbind (get_Value key x) (\<lambda>result. pick result old)"
    and inject_wf: "valid a \<Longrightarrow> value_wf (inject a)"
    and pick_inject: "valid a \<Longrightarrow> pick (inject a) old = Inr (canon a)"
begin

lemma put_get:
  assumes "param_wf x" "valid a"
  shows "entry_put key x (put key a x) (\<lambda>x'. get key x' old = Inr (canon a))"
  using put_Value_gives [OF assms(1) inject_wf [OF assms(2)], of key] pick_inject [OF assms(2)]
  by (auto simp: entry_put_def put_inject [OF assms(2)] get_pick)

end

lemma strings_wf: "value_wf (value_of_string s)"
  by (rule value_of_string_wf)

interpretation int_entry: typed_entry put_Int "get_Int D" "\<lambda>_. True" id VInt
  "\<lambda>r old. if isInt r then asInt D r else Inr old" for D :: "'d real_ops"
  by unfold_locales (simp_all add: put_Int_def get_Int_def isInt_def asInt_def)

interpretation uint_entry: typed_entry put_UInt "get_UInt D" "\<lambda>_. True" id VUInt
  "\<lambda>r old. if isUInt r \<or> isInt r then asUInt D r else Inr old" for D :: "'d real_ops"
  by unfold_locales (simp_all add: put_UInt_def get_UInt_def isUInt_def asUInt_def)

interpretation str_entry: typed_entry put_Str get_Str "\<lambda>_. True" cstr value_of_string
  "\<lambda>r old. if isString r then asString r else Inr old"
  by unfold_locales (simp_all add: put_Str_def get_Str_def value_of_string_def isString_def asString_def)

interpretation bool_entry: typed_entry put_Bool "get_Bool D" "\<lambda>_. True" id VBool
  "\<lambda>r old. Inr (if isBool r then asBool D r else old)" for D :: "'d real_ops"
  by unfold_locales (simp_all add: put_Bool_def get_Bool_def isBool_def asBool_def)

interpretation real_entry: typed_entry put_Real "get_Real D" "\<lambda>_. True" id VReal
  "\<lambda>r old. if isDouble r then asDouble D r else Inr old" for D :: "'d real_ops"
  by unfold_locales (simp_all add: put_Real_def get_Real_def isDouble_def asDouble_def)

interpretation object_entry: typed_entry put_XParam get_XParam param_wf id m_internal_obj
  "\<lambda>r old. Inr (if isObject r then old\<lparr>m_internal_obj := r\<rparr> else old)"
  by unfold_locales (simp_all add: put_XParam_def get_XParam_def get_InternalValue_def param_wf_def)

section \<open>Numbers of 64 bits\<close>

lemma hex_value_digit: "d < 16 \<Longrightarrow> hex_value (hex_digit False d) = Some d"
  by (erule hex_digit_cases) (simp_all add: hex_value_def hex_digit_def is_digit_def)

lemma hex_text_digits:
  "\<exists>ds. hex_text False n = map (hex_digit False) ds \<and> ds \<noteq> [] \<and> (\<forall>d \<in> set ds. d < 16) \<and>
     foldl (\<lambda>m d. m * 16 + d) 0 ds = n \<and> (\<forall>k > 0. n < 16 ^ k \<longrightarrow> length ds \<le> k)"
proof (induction n rule: less_induct)
  case (less n)
  show ?case
  proof (cases "n < 16")
    case True
    then show ?thesis by (intro exI [of _ "[n]"]) (simp add: hex_text.simps [of False n])
  next
    case False
    then obtain ds where ds: "hex_text False (n div 16) = map (hex_digit False) ds" "ds \<noteq> []"
        "\<forall>d \<in> set ds. d < 16" "foldl (\<lambda>m d. m * 16 + d) 0 ds = n div 16"
        "\<forall>k > 0. n div 16 < 16 ^ k \<longrightarrow> length ds \<le> k"
      using less [of "n div 16"] by auto
    have "length (ds @ [n mod 16]) \<le> k" if k: "k > 0" "n < 16 ^ k" for k
    proof (cases k)
      case (Suc j)
      with k(2) have "n div 16 < 16 ^ j" by simp
      moreover from this False have "j > 0" by (cases j) simp_all
      ultimately show ?thesis using ds(5) Suc by auto
    qed (use k in simp)
    then show ?thesis using False ds
      by (intro exI [of _ "ds @ [n mod 16]"]) (simp add: hex_text.simps [of False n])
  qed
qed

lemma hex_number_digits:
  "\<forall>d \<in> set ds. d < 16 \<Longrightarrow> hex_number m (map (hex_digit False) ds) = foldl (\<lambda>m d. m * 16 + d) m ds"
  by (induction ds arbitrary: m) (simp_all add: hex_value_digit)

lemma hex_digit_facts:
  "d < 16 \<Longrightarrow> hex_digit False d \<notin> {0, 32, 43, 45, 88, 120} \<and> \<not> (9 \<le> hex_digit False d \<and> hex_digit False d \<le> 13)"
  by (erule hex_digit_cases) (simp_all add: hex_digit_def)

lemma strtoull16_hex:
  assumes "n < 2 ^ 64"
  shows "length (hex_text False n) \<le> 16" "cstr (hex_text False n) = hex_text False n"
    "strtoull16 (hex_text False n) = of_nat n"
proof -
  obtain ds where ds: "hex_text False n = map (hex_digit False) ds" "ds \<noteq> []" "\<forall>d \<in> set ds. d < 16"
      "foldl (\<lambda>m d. m * 16 + d) 0 ds = n" "\<forall>k > 0. n < 16 ^ k \<longrightarrow> length ds \<le> k"
    using hex_text_digits [of n] by blast
  show "length (hex_text False n) \<le> 16" using ds(1,5) assms by (auto dest: spec [of _ 16])
  have "0 \<notin> set (hex_text False n)" using ds(1,3) hex_digit_facts by (force simp: image_iff)
  then show "cstr (hex_text False n) = hex_text False n" by (rule cstr_id)
  obtain d es where e: "ds = d # es" using ds(2) by (cases ds) auto
  have f: "hex_digit False d' \<notin> {0, 32, 43, 45, 88, 120}" "\<not> (9 \<le> hex_digit False d' \<and> hex_digit False d' \<le> 13)"
    if "d' \<in> set ds" for d' using hex_digit_facts [of d'] ds(3) that by auto
  have "dropWhile (\<lambda>c. c = 32 \<or> (9 \<le> c \<and> c \<le> 13)) (hex_text False n) = hex_text False n"
    using f [of d] e ds(1) by auto
  moreover have "peek (hex_text False n) \<noteq> 43 \<and> peek (hex_text False n) \<noteq> 45"
    using f [of d] e ds(1) by (simp add: peek_def)
  moreover have "skip_0x (hex_text False n) = hex_text False n"
    using f e ds(1) by (auto simp: skip_0x_def split: list.splits)
  moreover have "hex_number 0 (hex_text False n) = n" using hex_number_digits [OF ds(3)] ds(1,4) by simp
  ultimately show "strtoull16 (hex_text False n) = of_nat n" using assms by (simp add: strtoull16_def Let_def)
qed

interpretation ulonglong_entry: typed_entry put_ULongLong "\<lambda>key x old. get_ULongLong key x" "\<lambda>_. True" id
  "\<lambda>n. value_of_string (hex_text False (unat n))"
  "\<lambda>r old. cmap (\<lambda>s. strtoull16 (cstr s)) (if isString r then asString r else Inr [])"
proof unfold_locales
  fix key x and old :: u64
  show "get_ULongLong key x =
      cbind (get_Value key x) (\<lambda>r. cmap (\<lambda>s. strtoull16 (cstr s)) (if isString r then asString r else Inr []))"
    by (simp add: get_ULongLong_def get_Str_def cmap_def cbind_def split: sum.splits)
next
  fix a :: u64 and old :: u64
  have "unat a < 2 ^ 64" using unsigned_less [of a] by simp
  from strtoull16_hex [OF this]
  show "cmap (\<lambda>s. strtoull16 (cstr s)) (if isString (value_of_string (hex_text False (unat a)))
      then asString (value_of_string (hex_text False (unat a))) else Inr []) = Inr (id a)"
    by (simp add: value_of_string_def isString_def asString_def)
next
  fix a :: u64 and key x
  have "unat a < 2 ^ 64" using unsigned_less [of a] by simp
  from strtoull16_hex [OF this]
  show "put_ULongLong key a x = put_Value key (value_of_string (hex_text False (unat a))) x"
    by (simp add: put_ULongLong_def put_Str_def)
qed (rule strings_wf)

section \<open>Arrays and maps\<close>

definition array_of :: "'d Value list \<Rightarrow> 'd Value" where
  "array_of vs = (if vs = [] then VNull else VArray (array_from 0 vs))"

lemma array_from_keys [simp]: "map fst (array_from i vs) = map int [i..<i + length vs]"
  by (simp add: array_from_def)

lemma array_from_values [simp]: "map snd (array_from i vs) = vs"
  by (simp add: array_from_def)

lemma array_from_length [simp]: "length (array_from i vs) = length vs"
  by (simp add: array_from_def)

lemma vappend_dense:
  assumes "map fst ys = map int [0..<length ys]" "length ys < 2147483648"
  shows "vappend (VArray ys) x = Inr (VArray (ys @ [(int (length ys), x)]))"
proof -
  note slot = element_slot [OF assms]
  have "assign_index (VArray ys) (of_nat (length ys)) x =
      assign_index (VArray (ys @ [(int (length ys), VNull)])) (of_nat (length ys)) x"
    using slot(1) slot(2) [of VNull] by (simp add: assign_index_def index_ref_def index_find_def)
  then show ?thesis using slot(3) by (simp add: vappend_def dense_entries(1) [OF assms])
qed

lemma append_all_dense:
  assumes "map fst ys = map int [0..<length ys]" "length ys + length vs \<le> 2147483648"
  shows "append_all vs (VArray ys) = Inr (VArray (ys @ array_from (length ys) vs))"
  using assms
proof (induction vs arbitrary: ys)
  case (Cons v vs)
  then show ?case
    using Cons.IH [of "ys @ [(int (length ys), v)]"] vappend_dense [of ys v] by simp
qed simp

lemma append_all_array:
  assumes "length vs \<le> 2147483648"
  shows "append_all vs VNull = Inr (array_of vs)"
proof (cases vs)
  case (Cons v ws)
  have "vappend VNull v = Inr (VArray [(0, v)])"
    by (simp add: vappend_def vsize_def assign_index_def index_ref_def index_key_def)
  then show ?thesis using assms append_all_dense [of "[(0, v)]" ws] by (simp add: Cons array_of_def)
qed (simp add: array_of_def)

lemma array_of_wf:
  assumes "\<forall>v \<in> set vs. value_wf v" "length vs < 2147483648"
  shows "value_wf (array_of vs)"
proof -
  have "map_sorted (array_from 0 vs)"
    by (simp add: map_sorted_def distinct_map sorted_map sorted_wrt_upt strict_sorted_imp_sorted)
  moreover have "minInt \<le> i \<and> i \<le> maxInt \<and> value_wf v" if "(i, v) \<in> set (array_from 0 vs)" for i v
    using that assms by (auto simp: array_from_def in_set_zip minInt_def maxInt_def)
  ultimately show ?thesis by (auto simp: array_of_def value_wf_array)
qed

lemma array_of_items:
  assumes "length vs < 2147483648"
  shows "isArray (array_of vs)" "array_items (array_of vs) = vs"
  using dense_entries(3,4) [of "array_from 0 vs"] assms
  by (simp_all add: array_of_def isArray_def array_items_def)

abbreviation byte_value :: "byte \<Rightarrow> 'd Value" where
  "byte_value c \<equiv> VUInt (ucast c)"

lemma bytes_items: "cmapM (\<lambda>v. cmap ucast (asUInt D v)) (map byte_value s) = Inr (s :: byte list)"
  by (induction s) (simp_all add: asUInt_def ucast_up_ucast_id is_up)

interpretation chararray_entry: typed_entry put_CharArray "get_CharArray D" "\<lambda>s. length s < 2147483648" id
  "\<lambda>s. array_of (map byte_value s)"
  "\<lambda>r old. if isArray r then cmapM (\<lambda>v. cmap ucast (asUInt D v)) (array_items r) else Inr old"
  for D :: "'d real_ops"
  by unfold_locales
    (simp_all add: put_CharArray_def get_CharArray_def append_all_array array_of_wf array_of_items bytes_items)

lemma XParam_wrap [simp]: "\<lparr>m_internal_obj = m_internal_obj (p :: 'd XParam)\<rparr> = p"
  by simp

interpretation vector_entry: typed_entry put_XParamVector get_XParamVector
  "\<lambda>ps. length ps < 2147483648 \<and> (\<forall>p \<in> set ps. param_wf p)" id "\<lambda>ps. array_of (map m_internal_obj ps)"
  "\<lambda>r old. Inr (if isArray r then map (\<lambda>v. \<lparr>m_internal_obj = v\<rparr>) (array_items r) else old)"
  by unfold_locales
    (simp_all add: put_XParamVector_def get_XParamVector_def append_all_array array_of_wf array_of_items
      get_InternalValue_def [abs_def] param_wf_def o_def)

definition object_of :: "(byte list \<times> 'd XParam) list \<Rightarrow> 'd Value" where
  "object_of ps = (if ps = [] then VNull else VObject (map (\<lambda>(k, p). (k, m_internal_obj p)) ps))"

definition members_wf :: "(byte list, 'd XParam) std_map \<Rightarrow> bool" where
  "members_wf ps = (map_sorted ps \<and> (\<forall>(k, p) \<in> set ps. 0 \<notin> set k \<and> param_wf p))"

lemma assign_member_last:
  assumes "map_sorted (ys @ (k, v) # ms)" "0 \<notin> set k"
  shows "assign_member (VObject ys) k x = Inr (VObject (ys @ [(k, x)]))"
proof -
  note slot = member_slot [OF assms]
  have "assign_member (VObject ys) k x = assign_member (VObject (ys @ [(k, VNull)])) k x"
    using slot(1) slot(2) [of VNull] by (simp add: assign_member_def resolveReference_def member_find_def)
  then show ?thesis using slot(3) by simp
qed

lemma map_sorted_map_values: "map_sorted (map (\<lambda>(k, p). (k, f p)) ps) = map_sorted ps"
  by (simp add: map_sorted_def split_beta o_def)

lemma assign_all_members:
  assumes "map_sorted (ys @ map (\<lambda>(k, p). (k, m_internal_obj p)) ps)" "\<forall>(k, p) \<in> set ps. 0 \<notin> set k"
  shows "assign_all ps (VObject ys) = Inr (VObject (ys @ map (\<lambda>(k, p). (k, m_internal_obj p)) ps))"
  using assms
proof (induction ps arbitrary: ys)
  case (Cons e ps)
  obtain k p where e: "e = (k, p)" by (cases e)
  have "assign_member (VObject ys) k (m_internal_obj p) = Inr (VObject (ys @ [(k, m_internal_obj p)]))"
    by (rule assign_member_last) (use Cons.prems in \<open>simp_all add: e\<close>)
  then show ?case using Cons.IH [of "ys @ [(k, m_internal_obj p)]"] Cons.prems
    by (simp add: e get_InternalValue_def)
qed simp

lemma assign_all_object:
  assumes "members_wf ps"
  shows "assign_all ps VNull = Inr (object_of ps)"
proof (cases ps)
  case (Cons e rest)
  obtain k p where e: "e = (k, p)" by (cases e)
  have "assign_member VNull k (m_internal_obj p) = Inr (VObject [(k, m_internal_obj p)])"
    using assms by (simp add: Cons e members_wf_def assign_member_def resolveReference_def cstr_id)
  moreover have "assign_all rest (VObject [(k, m_internal_obj p)]) = Inr (object_of ps)"
    using assms assign_all_members [of "[(k, m_internal_obj p)]" rest] map_sorted_map_values [of m_internal_obj ps]
    by (fastforce simp: Cons e members_wf_def object_of_def)
  ultimately show ?thesis by (simp add: Cons e get_InternalValue_def)
qed (simp add: object_of_def)

lemma insert_members_append:
  "map_sorted (params @ map (\<lambda>(k, v). (k, \<lparr>m_internal_obj = v\<rparr>)) ms) \<Longrightarrow>
     insert_members ms params = params @ map (\<lambda>(k, v). (k, \<lparr>m_internal_obj = v\<rparr>)) ms"
proof (induction ms arbitrary: params)
  case (Cons e ms)
  obtain k v where e: "e = (k, v)" by (cases e)
  have "\<forall>k' \<in> fst ` set params. k' < k"
    using Cons.prems by (auto simp: e map_sorted_def sorted_append order_less_le)
  then show ?case using Cons.IH [of "params @ [(k, \<lparr>m_internal_obj = v\<rparr>)]"] Cons.prems
    by (simp add: e map_insert_last)
qed simp

interpretation map_entry: typed_entry put_XParamMap get_XParamMap members_wf id object_of
  "\<lambda>r old. Inr (case r of VNull \<Rightarrow> [] | VObject ms \<Rightarrow> insert_members ms [] | _ \<Rightarrow> old)"
proof unfold_locales
  fix a :: "(byte list, 'd XParam) std_map" and old
  assume a: "members_wf a"
  then show "value_wf (object_of a)"
    by (auto simp: object_of_def members_wf_def value_wf_object map_sorted_map_values param_wf_def)
  have "map_sorted (map (\<lambda>(k, v). (k, \<lparr>m_internal_obj = v\<rparr>)) (map (\<lambda>(k, p). (k, m_internal_obj p)) a))"
    using a by (simp only: map_sorted_map_values members_wf_def)
  from insert_members_append [of "[]", simplified, OF this]
  show "Inr (case object_of a of VNull \<Rightarrow> [] | VObject ms \<Rightarrow> insert_members ms [] | _ \<Rightarrow> old) = Inr (id a)"
    by (auto simp: object_of_def o_def split_beta)
qed (simp_all add: put_XParamMap_def get_XParamMap_def assign_all_object)

section \<open>Over the bus\<close>

text \<open>The numbers that the text carries as what they are.\<close>

fun small_numbers :: "'d Value \<Rightarrow> bool" where
  "small_numbers (VInt i) = (- 2147483640 < sint i)"
| "small_numbers (VUInt u) = (unat u < 4294967290)"
| "small_numbers (VArray xs) = (\<forall>(i, v) \<in> set xs. small_numbers v)"
| "small_numbers (VObject xs) = (\<forall>(k, v) \<in> set xs. small_numbers v)"
| "small_numbers _ = True"

definition arrived :: "'d real_ops \<Rightarrow> 'd XParam \<Rightarrow> 'd XParam \<Rightarrow> bool" where
  "arrived D x x' = (m_internal_obj x' = reread D (m_internal_obj x))"

lemma reread_tests [simp]:
  "isObject (reread D v) = isObject v" "isArray (reread D v) = isArray v"
  "isString (reread D v) = isString v" "isBool (reread D v) = isBool v"
  by (cases v; simp add: isObject_def isArray_def isString_def isBool_def)+

lemma map_of_values: "map_of (map (\<lambda>(k, v). (k, f v)) xs) k = map_option f (map_of xs k)"
  by (induction xs) auto

lemma get_Value_sent:
  assumes "arrived D x x'" "param_wf x"
  shows "get_Value key x' = cmap (reread D) (get_Value key x)"
  using assms by (cases "m_internal_obj x")
    (auto simp: arrived_def param_wf_def isObject_def get_Value_def get_member_def member_find_def map_of_values
      split: option.splits)

lemma get_Value_member:
  assumes "param_wf x" "get_Value key x = Inr v"
  shows "v = VNull \<or> (\<exists>xs k. m_internal_obj x = VObject xs \<and> (k, v) \<in> set xs)"
  using assms by (cases "m_internal_obj x")
    (auto simp: param_wf_def isObject_def get_Value_def get_member_def member_find_def cmap_eq_Inr
      split: option.splits dest!: map_of_SomeD)

lemma get_Value_inherits:
  assumes "param_wf x" "get_Value key x = Inr v"
  shows "storable D (m_internal_obj x) \<Longrightarrow> storable D v" "small_numbers (m_internal_obj x) \<Longrightarrow> small_numbers v"
  using get_Value_member [OF assms] by auto

locale sent_entry = typed_entry put get valid canon inject pick
  for put :: "byte list \<Rightarrow> 'a \<Rightarrow> 'd XParam \<Rightarrow> 'd XParam cres"
    and get :: "byte list \<Rightarrow> 'd XParam \<Rightarrow> 'a \<Rightarrow> 'a cres"
    and valid :: "'a \<Rightarrow> bool" and canon :: "'a \<Rightarrow> 'a"
    and inject :: "'a \<Rightarrow> 'd Value" and pick :: "'d Value \<Rightarrow> 'a \<Rightarrow> 'a cres" +
  fixes D :: "'d real_ops" and carried :: "'d Value \<Rightarrow> bool"
  assumes pick_reread: "carried v \<Longrightarrow> storable D v \<Longrightarrow> small_numbers v \<Longrightarrow> pick (reread D v) old = pick v old"
begin

lemma get_sent:
  assumes "param_wf x" "storable D (m_internal_obj x)" "small_numbers (m_internal_obj x)" "arrived D x x'"
    and "\<And>v. get_Value key x = Inr v \<Longrightarrow> carried v"
  shows "get key x' old = get key x old"
proof -
  obtain v where v: "get_Value key x = Inr v" using get_Value_find [OF assms(1)] by blast
  have "pick (reread D v) old = pick v old"
    using get_Value_inherits [OF assms(1) v] assms(2,3) assms(5) [OF v] by (intro pick_reread) auto
  then show ?thesis by (simp add: get_pick get_Value_sent [OF assms(4,1)] v)
qed

end

lemma sint_small: "n < 2147483648 \<Longrightarrow> sint (of_nat n :: u32) = int n"
  by (simp add: signed_of_nat signed_take_bit_int_eq_self)

lemma asUInt_reread:
  assumes "small_numbers v"
  shows "asUInt D (reread D v) = asUInt D v"
proof (cases v)
  case (VUInt u)
  have "0 \<le> sint u" if "u \<le> word_of_int maxInt"
    using sint_small [of "unat u"] that by (simp add: maxInt_def word_le_nat_alt)
  with VUInt assms show ?thesis by (simp add: asUInt_def)
qed (use assms in \<open>simp_all add: asUInt_def\<close>)

lemma array_items_reread:
  "storable D v \<Longrightarrow> array_items (reread D v) = map (reread D) (array_items v)"
proof (cases v)
  case (VArray xs)
  let ?ys = "map (\<lambda>(i, v). (i, reread D v)) xs"
  assume "storable D v"
  then have "map fst xs = map int [0..<length xs]" "length xs < 2147483648" using VArray by simp_all
  moreover have "map fst ?ys = map fst xs" "map snd ?ys = map (reread D) (map snd xs)" by (simp_all add: split_beta)
  ultimately show ?thesis
    using VArray dense_entries(3,4) [of xs] dense_entries(3,4) [of ?ys] by (simp add: array_items_def)
qed (simp_all add: array_items_def)

lemma array_items_small: "small_numbers v \<Longrightarrow> w \<in> set (array_items v) \<Longrightarrow> small_numbers w"
  by (cases v) (force simp: array_items_def elements_def or_null_def split: option.splits dest: map_of_SomeD)+

lemma cmapM_same: "(\<And>v. v \<in> set vs \<Longrightarrow> f (g v) = h v) \<Longrightarrow> cmapM f (map g vs) = cmapM h vs"
  by (induction vs) simp_all

interpretation int_sent: sent_entry put_Int "get_Int D" "\<lambda>_. True" id VInt
  "\<lambda>r old. if isInt r then asInt D r else Inr old" D "\<lambda>v. \<not> isUInt v" for D :: "'d real_ops"
proof (unfold_locales, goal_cases)
  case (1 v old)
  then show ?case by (cases v) (simp_all add: isInt_def isUInt_def)
qed

interpretation uint_sent: sent_entry put_UInt "get_UInt D" "\<lambda>_. True" id VUInt
  "\<lambda>r old. if isUInt r \<or> isInt r then asUInt D r else Inr old" D "\<lambda>_. True" for D :: "'d real_ops"
proof (unfold_locales, goal_cases)
  case (1 v old)
  have "(isUInt (reread D v) \<or> isInt (reread D v)) = (isUInt v \<or> isInt v)"
    using 1 by (cases v) (simp_all add: isInt_def isUInt_def)
  then show ?case using asUInt_reread [OF 1(3), of D] by simp
qed

interpretation str_sent: sent_entry put_Str get_Str "\<lambda>_. True" cstr value_of_string
  "\<lambda>r old. if isString r then asString r else Inr old" D "\<lambda>_. True" for D :: "'d real_ops"
proof (unfold_locales, goal_cases)
  case (1 v old)
  show ?case by (cases v) (simp_all add: isString_def)
qed

interpretation ulonglong_sent: sent_entry put_ULongLong "\<lambda>key x old. get_ULongLong key x" "\<lambda>_. True" id
  "\<lambda>n. value_of_string (hex_text False (unat n))"
  "\<lambda>r old. cmap (\<lambda>s. strtoull16 (cstr s)) (if isString r then asString r else Inr [])" D "\<lambda>_. True"
  for D :: "'d real_ops"
proof (unfold_locales, goal_cases)
  case (1 v old)
  show ?case by (cases v) (simp_all add: isString_def)
qed

interpretation bool_sent: sent_entry put_Bool "get_Bool D" "\<lambda>_. True" id VBool
  "\<lambda>r old. Inr (if isBool r then asBool D r else old)" D "\<lambda>_. True" for D :: "'d real_ops"
proof (unfold_locales, goal_cases)
  case (1 v old)
  show ?case by (cases v) (simp_all add: isBool_def)
qed

interpretation real_sent: sent_entry put_Real "get_Real D" "\<lambda>_. True" id VReal
  "\<lambda>r old. if isDouble r then asDouble D r else Inr old" D "\<lambda>_. True" for D :: "'d real_ops"
proof (unfold_locales, goal_cases)
  case (1 v old)
  then show ?case by (cases v) (simp_all add: isDouble_def)
qed

interpretation chararray_sent: sent_entry put_CharArray "get_CharArray D" "\<lambda>s. length s < 2147483648" id
  "\<lambda>s. array_of (map byte_value s)"
  "\<lambda>r old. if isArray r then cmapM (\<lambda>v. cmap ucast (asUInt D v)) (array_items r) else Inr old" D "\<lambda>_. True"
  for D :: "'d real_ops"
proof (unfold_locales, goal_cases)
  case (1 v old)
  have "cmapM (\<lambda>v. cmap ucast (asUInt D v)) (map (reread D) (array_items v)) =
      (cmapM (\<lambda>v. cmap ucast (asUInt D v)) (array_items v) :: byte list cres)"
    by (rule cmapM_same) (simp add: asUInt_reread array_items_small [OF 1(3)])
  then show ?case by (simp add: array_items_reread [OF 1(2)])
qed

section \<open>Properties\<close>



lemma parsed_wf:
  assumes "parse F D t root = Some (Inr (ok, v, errors))" "value_wf root"
  shows "value_wf v"
  using parse_cases [OF assms(2), of F D t] assms(1) by auto

lemma xparam_travels:
  assumes "param_wf x" "storable D (m_internal_obj x)" "param_wf y"
    and "\<And>t. ToJsonStr D x = Inr t \<Longrightarrow> length t < 2 ^ 32"
  shows "\<exists>t x'. ToJsonStr D x = Inr t \<and>
    ToMsgBusParam D x = Inr \<lparr>paramdata = Some t, paramlen = of_nat (length t)\<rparr> \<and>
    unat (of_nat (length t) :: u32) = length t \<and>
    FromMsgBusParam D \<lparr>paramdata = Some t, paramlen = of_nat (length t)\<rparr> y = Some (Inr (True, x')) \<and>
    arrived D x x' \<and> param_wf x'"
proof -
  let ?v = "m_internal_obj x" and ?x' = "y\<lparr>m_internal_obj := reread D (m_internal_obj x)\<rparr>"
  have wf: "value_wf ?v" "isObject ?v" using assms(1) by (simp_all add: param_wf_def)
  obtain t0 where t0: "fast_write D False ?v = Inr (t0 @ [10])" "layout D ?v t0"
    using written_text(1) [OF wf(1) assms(2)] by blast
  define t where "t = t0 @ [10]"
  have parse: "parse Features_all D t VNull = Some (Inr (True, reread D ?v, []))"
    using parse_layout [OF t0(2) wf(1) assms(2) _ spaces_newline, of "[]" Features_all]
    by (simp add: t_def spaces_def Features_all_def)
  have js: "ToJsonStr D x = Inr t" using t0(1) by (simp add: ToJsonStr_def t_def)
  have u: "unat (of_nat (length t) :: u32) = length t"
    using assms(4) [OF js] by (simp add: unsigned_of_nat take_bit_nat_eq_self)
  have "\<exists>w. vclear (m_internal_obj y) = Inr w"
    using assms(3) by (cases "m_internal_obj y") (simp_all add: param_wf_def isObject_def vclear_def)
  then have "FromMsgBusParam D \<lparr>paramdata = Some t, paramlen = of_nat (length t)\<rparr> y = Some (Inr (True, ?x'))"
    using parse wf(2) by (auto simp: FromMsgBusParam_def FromJsonStr_def memcpy_ptr_def cload_def u)
  moreover have "arrived D x ?x'" by (simp add: arrived_def)
  moreover have "param_wf ?x'" using parsed_wf [OF parse] wf(2) by (simp add: param_wf_def)
  ultimately show ?thesis using js u by (auto simp: ToMsgBusParam_def)
qed


definition sample_param :: "int XParam" where
  "sample_param = \<lparr>m_internal_obj = sample\<rparr>"

lemma sample_text: "ToJsonStr int_reals sample_param = Inr t \<Longrightarrow> length t < 1000"
proof -
  have "case ToJsonStr int_reals sample_param of Inr t \<Rightarrow> length t < 1000 | Inl _ \<Rightarrow> False" by code_simp
  then show "ToJsonStr int_reals sample_param = Inr t \<Longrightarrow> length t < 1000" by simp
qed

lemma sample_small: "small_numbers sample"
  by (simp add: sample_def)


text \<open>
  The smallest numbers get lost. A signed number of at most -2147483640 that was put with \<open>put_Int\<close>
  arrives as a \<open>double\<close>: \<open>get_Int\<close> at the receiver leaves its argument alone, without an error.
\<close>

theorem xparam_extreme_int_lost:
  assumes "param_wf x" "put_Int key i x = Inr x1" "sint i \<le> - 2147483640" "storable D (m_internal_obj x1)"
    and "\<And>t. ToJsonStr D x1 = Inr t \<Longrightarrow> length t < 2 ^ 32"
  shows "\<exists>p x'. ToMsgBusParam D x1 = Inr p \<and> FromMsgBusParam D p XParam_init = Some (Inr (True, x')) \<and>
    get_Int D key x1 old = Inr i \<and> get_Int D key x' old = Inr old"
proof -
  have p: "param_wf x1" "get_Value key x1 = Inr (VInt i)"
    using put_Value_gives [OF assms(1), of "VInt i" key] assms(2) by (simp_all add: put_Int_def)
  from xparam_travels [OF p(1) assms(4) XParam_init_wf assms(5)] obtain q x' where
    "ToMsgBusParam D x1 = Inr q" "FromMsgBusParam D q XParam_init = Some (Inr (True, x'))" "arrived D x1 x'"
    by blast
  moreover from get_Value_sent [OF this(3) p(1), of key] have "get_Int D key x' old = Inr old"
    using assms(3) p(2) by (simp add: get_Int_def isInt_def)
  moreover have "get_Int D key x1 old = Inr i" using p(2) by (simp add: get_Int_def isInt_def asInt_def)
  ultimately show ?thesis by blast
qed

definition smallest_param :: "int XParam" where
  "smallest_param = \<lparr>m_internal_obj = VObject [(lit ''n'', VInt 0x80000000)]\<rparr>"

lemma smallest_scan: "r_scan int_reals (45 # digits (- 0x80000000)) \<noteq> None"
  by code_simp

lemma smallest_param_facts:
  "put_Int (lit ''n'') 0x80000000 XParam_init = Inr smallest_param"
  "storable int_reals (m_internal_obj smallest_param)"
  "case ToJsonStr int_reals smallest_param of Inr t \<Rightarrow> length t < 1000 | Inl _ \<Rightarrow> False"
  subgoal by (simp add: smallest_param_def XParam_init_def put_Int_def put_Value_def assign_member_def
        resolveReference_def lit_def cstr_def)
  subgoal using smallest_scan by (simp add: smallest_param_def)
  subgoal by code_simp
  done

theorem xparam_extreme_int_lost_witness:
  "\<exists>p x'. ToMsgBusParam int_reals smallest_param = Inr p \<and>
    FromMsgBusParam int_reals p XParam_init = Some (Inr (True, x')) \<and>
    get_Int int_reals (lit ''n'') smallest_param 5 = Inr 0x80000000 \<and> get_Int int_reals (lit ''n'') x' 5 = Inr 5"
  by (rule xparam_extreme_int_lost [OF XParam_init_wf smallest_param_facts(1) _ smallest_param_facts(2)])
    (use smallest_param_facts(3) in simp_all)

section \<open>Failing getters\<close>

text \<open>A negative number read as unsigned throws; an \<open>XParam\<close> that holds no object aborts.\<close>

lemma get_UInt_negative:
  assumes "get_Value key x = Inr (VInt i)" "sint i < 0"
  shows "get_UInt D key x u = Inl RuntimeError" "get_UInt16 D key x u16 = Inl RuntimeError"
    "get_UInt8 D key x u8 = Inl RuntimeError"
  using assms by (simp_all add: get_UInt_def get_UInt16_def get_UInt8_def isInt_def isUInt_def asUInt_def)

lemma vector_of_numbers_aborts:
  "get_XParamVector (lit ''v'') \<lparr>m_internal_obj = VObject [(lit ''v'', VArray [(0, VInt 1)])]\<rparr> [] =
     Inr [\<lparr>m_internal_obj = VInt 1\<rparr>]"
  "get_Value key \<lparr>m_internal_obj = VInt 1\<rparr> = Inl AssertFailed"
  "FromJsonStr D t \<lparr>m_internal_obj = VInt 1\<rparr> = Some (Inl AssertFailed)"
  by (simp_all add: get_XParamVector_def get_Value_def get_member_def member_find_def FromJsonStr_def vclear_def
      isArray_def array_items_def vsize_def elements_def index_key_def or_null_def cstr_def lit_def)

lemma null_text_accepted:
  "FromJsonStr int_reals (lit ''null'') XParam_init = Some (Inr (True, \<lparr>m_internal_obj = VNull\<rparr>))"
  by code_simp

lemma file_of_number_accepted:
  "FromJsonFile D (Some (lit ''true'')) x = Some (Inr (True, x))"
  "FromJsonStr D (lit ''true'') x = rbind (Some (vclear (m_internal_obj x))) (\<lambda>c. Some (Inr (False, x\<lparr>m_internal_obj := c\<rparr>)))"
proof -
  have "parse Features_all D (lit ''true'') VNull = Some (Inr (True, VBool True, []))"
    using parse_layout [OF l_bool [of D True], of "[]" "[]" Features_all VNull]
    by (simp add: valueToString_bool_def spaces_def Features_all_def)
  then show "FromJsonFile D (Some (lit ''true'')) x = Some (Inr (True, x))"
    "FromJsonStr D (lit ''true'') x = rbind (Some (vclear (m_internal_obj x))) (\<lambda>c. Some (Inr (False, x\<lparr>m_internal_obj := c\<rparr>)))"
    by (simp_all add: FromJsonFile_def FromJsonStr_def parse_stream_def isObject_def lit_def)
qed

end
