(* ===== verification/Json_Access.thy ===== *)
theory Json_Access
  imports Json_Props
begin

text \<open>
  Two more ways to the parts of a JSON value: the iterators (\<^verbatim>\<open>json_valueiterator.inl\<close>, \<open>begin\<close> and \<open>end\<close> in
  \<^verbatim>\<open>json_value.cpp\<close>) and the paths (\<open>PathArgument\<close>, \<open>Path\<close>). An iterator is a position in the entries of the
  container it was made from; using it outside of them is the error \<open>OutOfBounds\<close>. A reference that a path
  gives is modelled by what is done to the value it refers to.
\<close>

section \<open>Iterators\<close>

record ValueIterator =
  it_current :: nat
  it_isNull :: bool

definition null_iterator :: ValueIterator where
  "null_iterator = \<lparr>it_current = 0, it_isNull = True\<rparr>"

text \<open>The entries of the \<open>std::map\<close> behind a value, with the keys of an array or of an object.\<close>

fun entry_count :: "'d Value \<Rightarrow> nat" where
  "entry_count (VArray xs) = length xs"
| "entry_count (VObject xs) = length xs"
| "entry_count _ = 0"

fun entry_value :: "'d Value \<Rightarrow> nat \<Rightarrow> 'd Value" where
  "entry_value (VArray xs) i = snd (xs ! i)"
| "entry_value (VObject xs) i = snd (xs ! i)"
| "entry_value _ i = VNull"

definition value_begin :: "'d Value \<Rightarrow> ValueIterator" where
  "value_begin v = (case v of
       VArray xs \<Rightarrow> \<lparr>it_current = 0, it_isNull = False\<rparr>
     | VObject xs \<Rightarrow> \<lparr>it_current = 0, it_isNull = False\<rparr>
     | _ \<Rightarrow> null_iterator)"

definition value_end :: "'d Value \<Rightarrow> ValueIterator" where
  "value_end v = (case v of
       VArray xs \<Rightarrow> \<lparr>it_current = length xs, it_isNull = False\<rparr>
     | VObject xs \<Rightarrow> \<lparr>it_current = length xs, it_isNull = False\<rparr>
     | _ \<Rightarrow> null_iterator)"

definition it_inside :: "'d Value \<Rightarrow> ValueIterator \<Rightarrow> bool" where
  "it_inside v it = (it_current it < entry_count v)"

definition it_deref :: "'d Value \<Rightarrow> ValueIterator \<Rightarrow> 'd Value cres" where
  "it_deref v it = (if it_inside v it then Inr (entry_value v (it_current it)) else Inl OutOfBounds)"

definition it_increment :: "'d Value \<Rightarrow> ValueIterator \<Rightarrow> ValueIterator cres" where
  "it_increment v it =
     (if it_inside v it then Inr (it\<lparr>it_current := it_current it + 1\<rparr>) else Inl OutOfBounds)"

definition it_decrement :: "'d Value \<Rightarrow> ValueIterator \<Rightarrow> ValueIterator cres" where
  "it_decrement v it =
     (if 0 < it_current it then Inr (it\<lparr>it_current := it_current it - 1\<rparr>) else Inl OutOfBounds)"

text \<open>The loop of \<open>computeDistance\<close> from one position to the other, which must come later.\<close>

function distance_loop :: "'d Value \<Rightarrow> nat \<Rightarrow> nat \<Rightarrow> nat \<Rightarrow> nat cres" where
  "distance_loop v pos other myDistance =
     (if pos = other then Inr myDistance
      else if entry_count v \<le> pos then Inl OutOfBounds
      else distance_loop v (pos + 1) other (myDistance + 1))"
  by pat_completeness auto
termination
  by (relation "measure (\<lambda>(v, pos, other, d). entry_count v - pos)") auto

declare distance_loop.simps [simp del]

definition computeDistance :: "'d Value \<Rightarrow> ValueIterator \<Rightarrow> ValueIterator \<Rightarrow> nat cres" where
  "computeDistance v it other =
     (if it_isNull it \<and> it_isNull other then Inr 0
      else distance_loop v (it_current it) (it_current other) 0)"

definition it_isEqual :: "ValueIterator \<Rightarrow> ValueIterator \<Rightarrow> bool" where
  "it_isEqual it other = (if it_isNull it then it_isNull other else it_current it = it_current other)"

definition it_copy :: "ValueIterator \<Rightarrow> ValueIterator \<Rightarrow> ValueIterator" where
  "it_copy it other = it\<lparr>it_current := it_current other\<rparr>"

definition it_key :: "'d Value \<Rightarrow> ValueIterator \<Rightarrow> 'd Value cres" where
  "it_key v it =
     (if \<not> it_inside v it then Inl OutOfBounds
      else (case v of
          VArray xs \<Rightarrow> Inr (VInt (word_of_int (fst (xs ! it_current it))))
        | VObject xs \<Rightarrow> Inr (VString (Some (fst (xs ! it_current it))))
        | _ \<Rightarrow> Inl OutOfBounds))"

definition it_index :: "'d Value \<Rightarrow> ValueIterator \<Rightarrow> u32 cres" where
  "it_index v it =
     (if \<not> it_inside v it then Inl OutOfBounds
      else (case v of
          VArray xs \<Rightarrow> Inr (word_of_int (fst (xs ! it_current it)))
        | _ \<Rightarrow> Inr (- 1)))"

definition it_memberName :: "'d Value \<Rightarrow> ValueIterator \<Rightarrow> byte list cres" where
  "it_memberName v it =
     (if \<not> it_inside v it then Inl OutOfBounds
      else (case v of
          VObject xs \<Rightarrow> Inr (fst (xs ! it_current it))
        | _ \<Rightarrow> Inr []))"

text \<open>The loop \<open>for (it = v.begin(); it != v.end(); ++it)\<close> of the users, with what it does to each value.\<close>

function visit :: "'d Value \<Rightarrow> (byte list \<Rightarrow> 'd Value \<Rightarrow> 's \<Rightarrow> 's) \<Rightarrow> ValueIterator \<Rightarrow> 's \<Rightarrow> 's cres" where
  "visit v f it s =
     (if it_isEqual it (value_end v) then Inr s
      else if \<not> it_inside v it then Inl OutOfBounds
      else cbind (it_memberName v it) (\<lambda>name. cbind (it_deref v it) (\<lambda>x.
        visit v f (it\<lparr>it_current := it_current it + 1\<rparr>) (f name x s))))"
  by pat_completeness auto
termination
  by (relation "measure (\<lambda>(v, f, it, s). entry_count v - it_current it)") (auto simp: it_inside_def)

declare visit.simps [simp del]

lemma visit_from:
  "visit (VObject (pre @ xs)) f \<lparr>it_current = length pre, it_isNull = False\<rparr> s =
     Inr (fold (\<lambda>(k, v) s. f k v s) xs s)"
proof (induction xs arbitrary: pre s)
  case Nil
  show ?case by (simp add: visit.simps it_isEqual_def value_end_def)
next
  case (Cons e xs)
  obtain k v where e: "e = (k, v)" by (cases e)
  show ?case using Cons.IH [of "pre @ [e]"]
    by (simp add: e visit.simps [of "VObject (pre @ (k, v) # xs)" f "\<lparr>it_current = length pre, it_isNull = False\<rparr>"]
        it_isEqual_def value_end_def it_inside_def it_memberName_def it_deref_def)
qed

text \<open>The traversal visits the members of an object once each, in the order of their names.\<close>

lemma visit_object: "visit (VObject xs) f (value_begin (VObject xs)) s = Inr (fold (\<lambda>(k, v) s. f k v s) xs s)"
  using visit_from [of "[]"] by (simp add: value_begin_def)

lemma visit_scalar: "entry_count v = 0 \<Longrightarrow> visit v f (value_begin v) s = Inr s"
  by (cases v) (simp_all add: visit.simps it_isEqual_def value_begin_def value_end_def null_iterator_def)

lemma distance_loop_eq:
  "pos \<le> other \<Longrightarrow> other \<le> entry_count v \<Longrightarrow> distance_loop v pos other d = Inr (d + (other - pos))"
  by (induction v pos other d rule: distance_loop.induct)
    (subst distance_loop.simps, auto)

lemma distance_begin_end: "computeDistance v (value_begin v) (value_end v) = Inr (entry_count v)"
  by (cases v) (simp_all add: computeDistance_def value_begin_def value_end_def null_iterator_def distance_loop_eq)

text \<open>
  Assigning to an iterator made by the default constructor leaves it null, so it never equals the end of a
  container.
\<close>

lemma assigned_never_at_end: "\<not> it_isEqual (it_copy null_iterator it) (value_end (VObject xs))"
  by (simp add: it_isEqual_def it_copy_def null_iterator_def value_end_def)

section \<open>Paths\<close>

datatype PathArgument = kindNone | kindIndex u32 | kindKey "byte list"

fun same_kind :: "PathArgument \<Rightarrow> PathArgument \<Rightarrow> bool" where
  "same_kind kindNone kindNone = True"
| "same_kind (kindIndex _) (kindIndex _) = True"
| "same_kind (kindKey _) (kindKey _) = True"
| "same_kind _ _ = False"

text \<open>
  The argument that \<open>itInArg\<close> points to is pushed when it is of the kind asked for (an argument of that
  kind); the iterator stays where it is.
\<close>

definition addPathInArg :: "PathArgument list \<Rightarrow> PathArgument \<Rightarrow> PathArgument list \<Rightarrow> PathArgument list" where
  "addPathInArg inargs kind args =
     (case inargs of
        [] \<Rightarrow> args
      | a # _ \<Rightarrow> if same_kind a kind then args @ [a] else args)"

definition path_number :: "byte list \<Rightarrow> u32" where
  "path_number ds = foldl (\<lambda>index c. index * 10 + ucast (c - 48)) 0 ds"

definition name_char :: "byte \<Rightarrow> bool" where
  "name_char c = (c \<noteq> ch CHR ''['' \<and> c \<noteq> ch CHR ''.'' \<and> c \<noteq> 0)"

text \<open>
  \<open>makePath\<close> gives the arguments of the path. A NUL at the start of a name is found by \<open>strchr\<close>, so that
  the loop pushes empty names without end: the result is \<open>None\<close>.
\<close>

function makePath :: "PathArgument list \<Rightarrow> byte list \<Rightarrow> PathArgument list \<Rightarrow> PathArgument list option" where
  "makePath inargs [] args = Some args"
| "makePath inargs (c # s) args =
     (if c = ch CHR ''['' then
        if peek s = ch CHR ''%'' then makePath inargs (tl s) (addPathInArg inargs (kindIndex 0) args)
        else makePath inargs (tl (dropWhile is_digit s)) (args @ [kindIndex (path_number (takeWhile is_digit s))])
      else if c = ch CHR ''%'' then makePath inargs s (addPathInArg inargs (kindKey []) args)
      else if c = ch CHR ''.'' then makePath inargs s args
      else if \<not> name_char c then None
      else makePath inargs (dropWhile name_char s) (args @ [kindKey (c # takeWhile name_char s)]))"
  by pat_completeness auto
termination
proof (relation "measure (\<lambda>(inargs, s, args). length s)", goal_cases)
  case (3 inargs c s args)
  have "length (tl (dropWhile is_digit s)) \<le> length s" using length_dropWhile_le [of is_digit s] by simp
  then show ?case by simp
next
  case (6 inargs c s args)
  then show ?case using length_dropWhile_le [of name_char s] by simp
qed auto

declare makePath.simps(2) [simp del]

text \<open>\<open>Path::Path\<close> with up to five arguments.\<close>

definition new_Path :: "byte list \<Rightarrow> PathArgument list \<Rightarrow> PathArgument list option" where
  "new_Path path inargs = makePath (take 5 (inargs @ replicate 5 kindNone)) path []"

fun path_resolve :: "PathArgument list \<Rightarrow> 'd Value \<Rightarrow> 'd Value cres" where
  "path_resolve [] node = Inr node"
| "path_resolve (kindIndex i # args) node = cbind (index_find node i) (\<lambda>r. path_resolve args (or_null r))"
| "path_resolve (kindKey k # args) node = cbind (member_find node k) (\<lambda>r. path_resolve args (or_null r))"
| "path_resolve (kindNone # args) node = path_resolve args node"

fun path_resolve_default :: "PathArgument list \<Rightarrow> 'd Value \<Rightarrow> 'd Value \<Rightarrow> 'd Value cres" where
  "path_resolve_default [] defaultValue node = Inr node"
| "path_resolve_default (kindIndex i # args) defaultValue node =
     (if \<not> isArray node \<or> isValidIndex node i then Inr defaultValue
      else cbind (index_find node i) (\<lambda>r. path_resolve_default args defaultValue (or_null r)))"
| "path_resolve_default (kindKey k # args) defaultValue node =
     (if \<not> isObject node then Inr defaultValue
      else cbind (member_find node k) (\<lambda>r. case r of
          None \<Rightarrow> Inr defaultValue
        | Some v \<Rightarrow> path_resolve_default args defaultValue v))"
| "path_resolve_default (kindNone # args) defaultValue node = path_resolve_default args defaultValue node"

text \<open>\<open>make\<close>: the root after the node has been created and \<open>f\<close> applied through the reference to it.\<close>

fun path_make :: "('d Value \<Rightarrow> 'd Value) \<Rightarrow> PathArgument list \<Rightarrow> 'd Value \<Rightarrow> 'd Value cres" where
  "path_make f [] root = Inr (f root)"
| "path_make f (kindIndex i # args) root =
     cbind (index_ref root i) (\<lambda>c. cbind (index_find c i) (\<lambda>r.
     cbind (path_make f args (or_null r)) (assign_index c i)))"
| "path_make f (kindKey k # args) root =
     cbind (resolveReference root k) (\<lambda>c. cbind (member_find c k) (\<lambda>r.
     cbind (path_make f args (or_null r)) (assign_member c k)))"
| "path_make f (kindNone # args) root = path_make f args root"

lemma or_null_value_wf: "(\<And>x. r = Some x \<Longrightarrow> value_wf x) \<Longrightarrow> value_wf (or_null r)"
  by (cases r) (simp_all add: or_null_def)

lemma index_find_wf: "value_wf v \<Longrightarrow> index_find v i = Inr (Some x) \<Longrightarrow> value_wf x"
  by (auto simp: index_find_def value_wf_iff split: Value.splits dest: map_of_SomeD)

lemma path_make_wf:
  "value_wf root \<Longrightarrow> (\<And>v. value_wf v \<Longrightarrow> value_wf (f v)) \<Longrightarrow> path_make f args root = Inr c \<Longrightarrow> value_wf c"
proof (induction f args root arbitrary: c rule: path_make.induct)
  case (2 f i args root)
  from "2.prems"(3) obtain a r x where a: "index_ref root i = Inr a" "index_find a i = Inr r"
      "path_make f args (or_null r) = Inr x" "assign_index a i x = Inr c"
    by (auto simp: cbind_eq_Inr)
  have "value_wf a" by (rule index_ref_wf [OF "2.prems"(1) a(1)])
  moreover from this have "value_wf (or_null r)" using index_find_wf a(2) by (intro or_null_value_wf) blast
  ultimately show ?case using "2.IH" [OF _ "2.prems"(2) a(3)] assign_index_wf a(4) by blast
next
  case (3 f k args root)
  from "3.prems"(3) obtain a r x where a: "resolveReference root k = Inr a" "member_find a k = Inr r"
      "path_make f args (or_null r) = Inr x" "assign_member a k x = Inr c"
    by (auto simp: cbind_eq_Inr)
  have "value_wf a" by (rule resolveReference_wf [OF "3.prems"(1) a(1)])
  moreover from this have "value_wf (or_null r)" using member_find_wf a(2) by (intro or_null_value_wf) blast
  ultimately show ?case using "3.IH" [OF _ "3.prems"(2) a(3)] assign_member_wf a(4) by blast
qed auto

text \<open>What was assigned through \<open>make\<close> is what \<open>resolve\<close> finds.\<close>

lemma path_make_resolve:
  fixes x :: "'d Value"
  shows "value_wf root \<Longrightarrow> value_wf x \<Longrightarrow> path_make (\<lambda>_. x) args root = Inr c \<Longrightarrow> path_resolve args c = Inr x"
proof (induction "\<lambda>_ :: 'd Value. x" args root arbitrary: c rule: path_make.induct)
  case (2 i args root)
  from "2.prems"(3) obtain a r y where a: "index_ref root i = Inr a" "index_find a i = Inr r"
      "path_make (\<lambda>_. x) args (or_null r) = Inr y" "assign_index a i y = Inr c"
    by (auto simp: cbind_eq_Inr)
  have wf: "value_wf a" by (rule index_ref_wf [OF "2.prems"(1) a(1)])
  then have "value_wf (or_null r)" using index_find_wf a(2) by (intro or_null_value_wf) blast
  with "2.hyps" [OF _ "2.prems"(2) a(3)] assign_index_find [OF wf a(4)] show ?case
    by (simp add: or_null_def)
next
  case (3 k args root)
  from "3.prems"(3) obtain a r y where a: "resolveReference root k = Inr a" "member_find a k = Inr r"
      "path_make (\<lambda>_. x) args (or_null r) = Inr y" "assign_member a k y = Inr c"
    by (auto simp: cbind_eq_Inr)
  have wf: "value_wf a" by (rule resolveReference_wf [OF "3.prems"(1) a(1)])
  then have "value_wf (or_null r)" using member_find_wf a(2) by (intro or_null_value_wf) blast
  with "3.hyps" [OF _ "3.prems"(2) a(3)] assign_member_find [OF wf a(4)] show ?case
    by (simp add: or_null_def)
qed auto

text \<open>
  With a default, \<open>resolve\<close> gives the default for every valid index, and null for an invalid one.
\<close>

lemma path_default_inverted:
  "isValidIndex v i \<Longrightarrow> path_resolve_default [kindIndex i] dflt v = Inr dflt"
  "path_resolve_default [kindIndex 5] dflt (VArray [(0, VInt 1)]) = Inr VNull"
  by (simp_all add: isArray_def isValidIndex_def vsize_def index_find_def index_key_def or_null_def)

text \<open>
  \<open>[%]\<close> pushes its argument, but the sign is not skipped: the bracket becomes a member name; and every
  sign takes the first argument.
\<close>

lemma path_index_argument:
  "new_Path (lit ''[%]'') [kindIndex 3] = Some [kindIndex 3, kindKey (lit '']'')]"
  "new_Path (lit ''%.%'') [kindKey (lit ''a''), kindKey (lit ''b'')] = Some [kindKey (lit ''a''), kindKey (lit ''a'')]"
  by code_simp+

lemma path_nul_diverges: "makePath inargs (0 # s) args = None"
  by (simp add: makePath.simps(2) name_char_def)

section \<open>Printing a path\<close>

text \<open>The text of a path: \<open>.name\<close> for a member, \<open>[n]\<close> for an index.\<close>

fun path_text :: "PathArgument list \<Rightarrow> byte list" where
  "path_text [] = []"
| "path_text (kindKey k # args) = ch CHR ''.'' # k @ path_text args"
| "path_text (kindIndex i # args) = ch CHR ''['' # digits i @ ch CHR '']'' # path_text args"
| "path_text (kindNone # args) = path_text args"

fun plain_arg :: "PathArgument \<Rightarrow> bool" where
  "plain_arg (kindKey k) = (k \<noteq> [] \<and> list_all name_char k \<and> hd k \<noteq> ch CHR ''%'')"
| "plain_arg (kindIndex i) = True"
| "plain_arg kindNone = False"

lemma path_number_digits: "path_number (digits v) = v"
proof (induction v rule: measure_induct_rule [of unat])
  case (less v)
  note m = div_mult_mod_eq [of v 10] digit_byte(2) [of v]
  show ?case
  proof (cases "v div 10 = 0")
    case True
    with m show ?thesis by (simp add: digits_simps [of v] path_number_def)
  next
    case False
    then have "v \<noteq> 0" by auto
    then have "0 < unat v" by (simp add: unat_gt_0)
    then have "unat (v div 10) < unat v" by (simp add: unat_div)
    from less [OF this] False m show ?thesis by (simp add: digits_simps [of v] path_number_def)
  qed
qed

lemma path_text_start: "path_text args = [] \<or> \<not> name_char (hd (path_text args))" if "list_all plain_arg args"
  using that by (cases args rule: path_text.cases) (simp_all add: name_char_def)

text \<open>Every path without reserved characters is read back from its text.\<close>

lemma path_text_makePath:
  "list_all plain_arg args \<Longrightarrow> makePath inargs (path_text args) acc = Some (acc @ args)"
proof (induction args arbitrary: acc rule: path_text.induct)
  case (2 k args)
  obtain c r where k: "k = c # r" "name_char c" "list_all name_char r" "c \<noteq> 37"
    using 2(2) by (cases k) auto
  have "takeWhile name_char (r @ path_text args) = r" "dropWhile name_char (r @ path_text args) = path_text args"
    using path_text_start [of args] 2(2) k(3)
    by (cases "path_text args"; simp add: list_all_iff)+
  moreover have "c \<noteq> 91" "c \<noteq> 46" using k(2) by (simp_all add: name_char_def)
  ultimately show ?case using 2 k by (simp add: makePath.simps(2))
next
  case (3 i args)
  have d: "takeWhile is_digit (digits i @ 93 # path_text args) = digits i"
    "dropWhile is_digit (digits i @ 93 # path_text args) = 93 # path_text args"
    using digits_digits [of i] by (simp_all add: list_all_iff is_digit_def)
  have "peek (digits i @ 93 # path_text args) \<noteq> 37"
    using digits_digits [of i] by (cases "digits i") (auto simp: peek_def is_digit_def)
  then show ?case using 3 d by (simp add: makePath.simps(2) path_number_digits)
qed auto

end
