(* ===== verification/Json_Comments.thy ===== *)
theory Json_Comments
  imports Json_Reader
begin

text \<open>
  The comments that the JSON library keeps with values: the slots of a value (\<open>CommentInfo\<close>, \<open>setComment\<close>,
  \<open>hasComment\<close>, \<open>getComment\<close>), where the reader puts a comment it has passed (\<open>readComment\<close>, \<open>addComment\<close>), and how
  the styled writers print them. The values of \<open>Json_Value\<close> have no slots; the functions here take them as
  arguments.
\<close>

section \<open>Slots\<close>

datatype CommentPlacement = commentBefore | commentAfterOnSameLine | commentAfter

type_synonym CommentInfo = "CommentPlacement \<Rightarrow> byte list option"

definition no_comments :: CommentInfo where
  "no_comments = (\<lambda>_. None)"

text \<open>A null pointer fails the assertion; a text that does not start with a slash is refused.\<close>

definition setComment :: "byte list option \<Rightarrow> CommentPlacement \<Rightarrow> CommentInfo \<Rightarrow> CommentInfo cres" where
  "setComment comment placement slots =
     (case comment of
        None \<Rightarrow> Inl AssertFailed
      | Some text \<Rightarrow>
          if peek text = 0 \<or> peek text = ch CHR ''/'' then Inr (slots(placement := Some (cstr text)))
          else Inl RuntimeError)"

definition hasComment :: "CommentInfo \<Rightarrow> CommentPlacement \<Rightarrow> bool" where
  "hasComment slots placement = (slots placement \<noteq> None)"

definition getComment :: "CommentInfo \<Rightarrow> CommentPlacement \<Rightarrow> byte list" where
  "getComment slots placement = (case slots placement of Some c \<Rightarrow> c | None \<Rightarrow> [])"

section \<open>Reading\<close>

definition containsNewLine :: "byte list \<Rightarrow> bool" where
  "containsNewLine t = list_ex (\<lambda>c. c = 10 \<or> c = 13) t"

text \<open>
  \<open>c\<close> is the character after the slash, \<open>between\<close> the text between the end of the last value and the
  comment, when there was a value.
\<close>

definition comment_placement :: "byte \<Rightarrow> byte list option \<Rightarrow> byte list \<Rightarrow> CommentPlacement" where
  "comment_placement c between comment =
     (case between of
        None \<Rightarrow> commentBefore
      | Some b \<Rightarrow>
          if \<not> containsNewLine b \<and> (c \<noteq> ch CHR ''*'' \<or> \<not> containsNewLine comment) then commentAfterOnSameLine
          else commentBefore)"

text \<open>The comments collected for the next value, and the slots of the last value.\<close>

record comment_state =
  commentsBefore :: "byte list"
  lastValue :: "CommentInfo option"

definition addComment :: "byte list \<Rightarrow> CommentPlacement \<Rightarrow> comment_state \<Rightarrow> comment_state cres" where
  "addComment text placement s =
     (if placement = commentAfterOnSameLine then
        (case lastValue s of
           None \<Rightarrow> Inl AssertFailed
         | Some slots \<Rightarrow> cmap (\<lambda>slots. s\<lparr>lastValue := Some slots\<rparr>) (setComment (Some text) placement slots))
      else Inr (s\<lparr>commentsBefore :=
        (if commentsBefore s \<noteq> [] then commentsBefore s @ [10] else commentsBefore s) @ text\<rparr>))"

section \<open>Writing\<close>

fun normalizeEOL :: "byte list \<Rightarrow> byte list" where
  "normalizeEOL [] = []"
| "normalizeEOL (c # s) =
     (if c = 13 then 10 # normalizeEOL (if peek s = 10 then tl s else s)
      else c # normalizeEOL s)"

definition writeCommentBeforeValue :: "CommentInfo \<Rightarrow> styled \<Rightarrow> styled" where
  "writeCommentBeforeValue root s =
     (if \<not> hasComment root commentBefore then s
      else emit [10] (emit (normalizeEOL (getComment root commentBefore)) s))"

definition writeCommentAfterValueOnSameLine :: "CommentInfo \<Rightarrow> styled \<Rightarrow> styled" where
  "writeCommentAfterValueOnSameLine root s =
     (let s = (if hasComment root commentAfterOnSameLine
               then emit (lit '' '' @ normalizeEOL (getComment root commentAfterOnSameLine)) s else s) in
      if hasComment root commentAfter
      then emit [10] (emit (normalizeEOL (getComment root commentAfter)) (emit [10] s)) else s)"

definition hasCommentForValue :: "CommentInfo \<Rightarrow> bool" where
  "hasCommentForValue v = (hasComment v commentBefore \<or> hasComment v commentAfterOnSameLine \<or> hasComment v commentAfter)"

section \<open>Lemmas\<close>

text \<open>The text written has no carriage return, and writing and normalising again changes nothing.\<close>

lemma normalizeEOL_no_return: "13 \<notin> set (normalizeEOL t)"
  by (induction t rule: normalizeEOL.induct) auto

lemma normalizeEOL_id: "13 \<notin> set t \<Longrightarrow> normalizeEOL t = t"
  by (induction t rule: normalizeEOL.induct) auto

lemma normalizeEOL_idem: "normalizeEOL (normalizeEOL t) = normalizeEOL t"
  by (rule normalizeEOL_id [OF normalizeEOL_no_return])

lemma setComment_get:
  "setComment (Some t) p slots = Inr slots' \<Longrightarrow>
     getComment slots' p = cstr t \<and> hasComment slots' p \<and> (\<forall>q. q \<noteq> p \<longrightarrow> getComment slots' q = getComment slots q)"
  by (auto simp: setComment_def getComment_def hasComment_def split: if_splits)

text \<open>A comment that the reader passes always starts with a slash, so it is never refused.\<close>

lemma addComment_accepts:
  assumes "text = ch CHR ''/'' # rest" "between \<noteq> None \<longrightarrow> lastValue s \<noteq> None"
  shows "\<exists>s'. addComment text (comment_placement c between text) s = Inr s'"
  using assms by (auto simp: addComment_def comment_placement_def setComment_def peek_def split: option.splits)

text \<open>Without comments the writers print what they print in \<open>Json_Writer\<close>.\<close>

lemma write_no_comments [simp]:
  "writeCommentBeforeValue no_comments s = s" "writeCommentAfterValueOnSameLine no_comments s = s"
  "\<not> hasCommentForValue no_comments"
  by (simp_all add: writeCommentBeforeValue_def writeCommentAfterValueOnSameLine_def hasCommentForValue_def
      hasComment_def no_comments_def)

end
