(* ===== verification/Simple_Logger.thy ===== *)
theory Simple_Logger
  imports Json_Reader
begin

text \<open>
  The log (\<^verbatim>\<open>SimpleLogger.h\<close>, \<^verbatim>\<open>SimpleLogger.cpp\<close>): categories format a message and queue it, a timer
  task asks the named thread \<open>logsaver\<close> to write what waits into the file.

  The file is the list of its bytes, \<open>None\<close> while it is not open. Tasks given to the thread pool are
  counted: \<open>sl_timers\<close> are the calls of \<open>flush_all\<close> that timers still have to make, \<open>sl_writes\<close> the calls of
  \<open>write2file\<close> queued to \<open>logsaver\<close>. What \<open>fopen\<close>, \<open>fcntl\<close>, \<open>vsnprintf\<close>, \<open>malloc\<close>, \<open>ctime\<close> and \<open>errno\<close> give is an
  argument; the copy of each message that \<open>Log\<close> prints to the terminal is its first result.
\<close>

section \<open>State\<close>

datatype LogLevel = lv_error | lv_warn | lv_info | lv_debug

fun level_code :: "LogLevel \<Rightarrow> nat" where
  "level_code lv_error = 0"
| "level_code lv_warn = 1"
| "level_code lv_info = 2"
| "level_code lv_debug = 3"

record LogInfo =
  li_category :: "byte list"
  li_level :: LogLevel
  li_content :: "byte list"
  li_time :: "byte list"

record SimpleLogger =
  m_logfile :: "byte list option"
  m_waiting_logs :: "LogInfo list"
  m_level_str :: "byte list list"
  m_global_lv :: LogLevel
  sl_timers :: nat
  sl_writes :: nat

definition new_SimpleLogger :: SimpleLogger where
  "new_SimpleLogger = \<lparr>m_logfile = None, m_waiting_logs = [], m_level_str = [[], [], [], []],
     m_global_lv = lv_warn, sl_timers = 0, sl_writes = 0\<rparr>"

section \<open>The log file\<close>

text \<open>\<open>opened\<close> is what the file holds when \<open>fopen\<close> succeeds.\<close>

definition Logger_Init :: "byte list option \<Rightarrow> LogLevel \<Rightarrow> SimpleLogger \<Rightarrow> bool \<times> SimpleLogger" where
  "Logger_Init opened global_lv s =
     (case opened of
        None \<Rightarrow> (False, s\<lparr>m_logfile := None\<rparr>)
      | Some content \<Rightarrow> (True, s\<lparr>m_logfile := Some content,
          m_level_str := [lit ''ERROR'', lit ''WARN'', lit ''INFO'', lit ''DEBUG''], m_global_lv := global_lv\<rparr>))"

definition GetLogLevel :: "SimpleLogger \<Rightarrow> LogLevel" where
  "GetLogLevel s = m_global_lv s"

definition queue_log :: "LogInfo \<Rightarrow> SimpleLogger \<Rightarrow> SimpleLogger" where
  "queue_log loginfo s =
     (case m_logfile s of
        None \<Rightarrow> s
      | Some _ \<Rightarrow> s\<lparr>m_waiting_logs := m_waiting_logs s @ [loginfo], sl_timers := sl_timers s + 1\<rparr>)"

definition flush_all :: "SimpleLogger \<Rightarrow> SimpleLogger" where
  "flush_all s = s\<lparr>sl_writes := sl_writes s + 1\<rparr>"

text \<open>\<open>fprintf\<close> of one entry, through C strings.\<close>

definition log_line :: "byte list list \<Rightarrow> LogInfo \<Rightarrow> byte list" where
  "log_line level_str info =
     cstr (level_str ! level_code (li_level info)) @ lit '' in '' @ cstr (li_category info) @ lit '' : ''
       @ cstr (li_content info) @ lit '' ['' @ cstr (li_time info) @ lit '']'' @ [10]"

text \<open>
  The results of waiting for the lock of the file, until it is got or fails; \<open>None\<close> when the list ends
  before, and the call does not return.
\<close>

datatype lock_result = Locked | Interrupted | LockFailed

fun wait_lock :: "lock_result list \<Rightarrow> bool option" where
  "wait_lock [] = None"
| "wait_lock (Locked # rs) = Some True"
| "wait_lock (Interrupted # rs) = wait_lock rs"
| "wait_lock (LockFailed # rs) = Some False"

text \<open>The two halves of \<open>write2file\<close>: the swap under \<open>m_lock\<close>, and the loop that writes.\<close>

definition swap_logs :: "SimpleLogger \<Rightarrow> LogInfo list \<times> SimpleLogger" where
  "swap_logs s = (m_waiting_logs s, s\<lparr>m_waiting_logs := []\<rparr>)"

fun write_logs :: "LogInfo list \<Rightarrow> SimpleLogger \<Rightarrow> SimpleLogger" where
  "write_logs [] s = s"
| "write_logs (info # infos) s =
     write_logs infos (s\<lparr>m_logfile := map_option (\<lambda>f. f @ log_line (m_level_str s) info) (m_logfile s)\<rparr>)"

definition write2file :: "lock_result list \<Rightarrow> bool \<Rightarrow> SimpleLogger \<Rightarrow> SimpleLogger cres option" where
  "write2file locks unlock_ok s =
     (if m_logfile s = None then Some (Inr s)
      else (case wait_lock locks of
          None \<Rightarrow> None
        | Some False \<Rightarrow> Some (Inr s)
        | Some True \<Rightarrow>
            let (writinglogs, s) = swap_logs s; s = write_logs writinglogs s in
            Some (if unlock_ok then Inr s else Inl AssertFailed)))"

definition Logger_Reset :: "lock_result list \<Rightarrow> bool \<Rightarrow> SimpleLogger \<Rightarrow> SimpleLogger cres option" where
  "Logger_Reset locks unlock_ok s =
     map_option (cmap (\<lambda>s. s\<lparr>m_logfile := None, m_waiting_logs := []\<rparr>)) (write2file locks unlock_ok s)"

section \<open>Log\<close>

definition new_LoggerCategory :: "byte list \<Rightarrow> byte list cres" where
  "new_LoggerCategory category = (if length category < 64 then Inr category else Inl AssertFailed)"

text \<open>
  The loop over \<open>vsnprintf\<close>. \<open>text\<close> is what the format gives, \<open>None\<close> when \<open>vsnprintf\<close> fails; \<open>alloc\<close> says
  which sizes \<open>realloc\<close> can give. The result is the text, or \<open>None\<close> when memory runs out; the size is a
  signed 32-bit number.
\<close>

function format_loop :: "byte list option \<Rightarrow> (nat \<Rightarrow> bool) \<Rightarrow> nat \<Rightarrow> byte list option cres" where
  "format_loop text alloc sz =
     (case text of
        Some t \<Rightarrow>
          if length t < sz then Inr (Some t)
          else if 2 ^ 31 \<le> length t + 1 then Inl OutOfBounds
          else if alloc (length t + 1) then format_loop text alloc (length t + 1) else Inr None
      | None \<Rightarrow>
          if sz = 0 \<or> 2 ^ 31 \<le> sz * 2 then Inl OutOfBounds
          else if alloc (sz * 2) then format_loop text alloc (sz * 2) else Inr None)"
  by pat_completeness auto
termination
  by (relation "measure (\<lambda>(text, alloc, sz). (case text of Some t \<Rightarrow> length t + 1 | None \<Rightarrow> 2 ^ 31) - sz)") auto

declare format_loop.simps [simp del]

definition error_code_text :: "LogLevel \<Rightarrow> int \<Rightarrow> byte list" where
  "error_code_text lv errno =
     (if lv = lv_error then lit ''error code: '' @ take 5 (dec_int errno) @ lit ''.'' else [])"

definition Log :: "byte list \<Rightarrow> bool \<Rightarrow> LogLevel \<Rightarrow> int \<Rightarrow> byte list option \<Rightarrow> (nat \<Rightarrow> bool) \<Rightarrow> byte list
    \<Rightarrow> SimpleLogger \<Rightarrow> (byte list \<times> SimpleLogger) cres" where
  "Log category ndebug lv errno text alloc ctime s =
     (if level_code (GetLogLevel s) < level_code lv then Inr ([], s)
      else if ndebug \<and> lv = lv_debug then Inr ([], s)
      else
        let printed = (case text of Some t \<Rightarrow> t | None \<Rightarrow> []) @ [10] in
        if \<not> alloc 32 then Inr (printed, s)
        else cbind (format_loop text alloc 32) (\<lambda>buffer. case buffer of
            None \<Rightarrow> Inr (printed, s)
          | Some t \<Rightarrow>
              let info = \<lparr>li_category = category, li_level = lv, li_content = error_code_text lv errno @ t,
                          li_time = butlast ctime @ [0]\<rparr> in
              Inr (printed, queue_log info s)))"

section \<open>Lemmas\<close>

lemma format_loop_text:
  assumes "length t + 1 < 2 ^ 31" "alloc (length t + 1)"
  shows "format_loop (Some t) alloc sz = Inr (Some t)"
proof (cases "length t < sz")
  case True
  then show ?thesis by (simp add: format_loop.simps)
next
  case False
  have "format_loop (Some t) alloc (length t + 1) = Inr (Some t)" by (simp add: format_loop.simps)
  with False assms show ?thesis by (simp add: format_loop.simps [of "Some t" alloc sz])
qed

lemma write_logs_file:
  "write_logs infos s =
     s\<lparr>m_logfile := map_option (\<lambda>f. f @ concat (map (log_line (m_level_str s)) infos)) (m_logfile s)\<rparr>"
  by (induction infos arbitrary: s) (simp_all add: option.map_comp o_def option.map_ident)

lemma write2file_complete:
  assumes "m_logfile s = Some f" "wait_lock locks = Some True"
  shows "write2file locks True s = Some (Inr (s\<lparr>m_waiting_logs := [],
    m_logfile := Some (f @ concat (map (log_line (m_level_str s)) (m_waiting_logs s)))\<rparr>))"
  using assms by (simp add: write2file_def swap_logs_def write_logs_file)

text \<open>A lock that fails leaves the entries waiting, and no task that would write them.\<close>

lemma write2file_lock_fails: "wait_lock locks = Some False \<Longrightarrow> write2file locks unlock_ok s = Some (Inr s)"
  by (simp add: write2file_def)

section \<open>Runs\<close>

text \<open>
  Threads that log, the timers and the thread \<open>logsaver\<close>, whose tasks run one after the other: \<open>rl_writing\<close>
  are the entries it has taken and not written yet. \<open>rl_queued\<close> is the history of what was logged. The lock of
  the file is always got here; when it fails, entries stay without a task (\<open>write2file_lock_fails\<close>).
\<close>

record log_run =
  rl_logger :: SimpleLogger
  rl_writing :: "LogInfo list option"
  rl_queued :: "LogInfo list"

inductive log_step :: "log_run \<Rightarrow> log_run \<Rightarrow> bool" where
  log_queue: "m_logfile (rl_logger r) \<noteq> None \<Longrightarrow>
    log_step r (r\<lparr>rl_logger := queue_log info (rl_logger r), rl_queued := rl_queued r @ [info]\<rparr>)"
| log_timer: "sl_timers (rl_logger r) = Suc n \<Longrightarrow>
    log_step r (r\<lparr>rl_logger := flush_all ((rl_logger r)\<lparr>sl_timers := n\<rparr>)\<rparr>)"
| log_swap: "sl_writes (rl_logger r) = Suc n \<Longrightarrow> rl_writing r = None \<Longrightarrow>
    swap_logs ((rl_logger r)\<lparr>sl_writes := n\<rparr>) = (infos, s) \<Longrightarrow>
    log_step r (r\<lparr>rl_logger := s, rl_writing := Some infos\<rparr>)"
| log_write: "rl_writing r = Some infos \<Longrightarrow>
    log_step r (r\<lparr>rl_logger := write_logs infos (rl_logger r), rl_writing := None\<rparr>)"

definition taken_logs :: "log_run \<Rightarrow> LogInfo list" where
  "taken_logs r = (case rl_writing r of Some infos \<Rightarrow> infos | None \<Rightarrow> [])"

definition log_inv :: "byte list \<Rightarrow> byte list list \<Rightarrow> log_run \<Rightarrow> bool" where
  "log_inv f0 lv r \<longleftrightarrow> m_level_str (rl_logger r) = lv \<and>
     (\<exists>written. m_logfile (rl_logger r) = Some (f0 @ concat (map (log_line lv) written)) \<and>
        rl_queued r = written @ taken_logs r @ m_waiting_logs (rl_logger r)) \<and>
     (m_waiting_logs (rl_logger r) \<noteq> [] \<longrightarrow> 0 < sl_timers (rl_logger r) + sl_writes (rl_logger r))"

lemma log_step_inv:
  assumes "log_step r r'" "log_inv f0 lv r"
  shows "log_inv f0 lv r'"
proof -
  obtain written where w: "m_level_str (rl_logger r) = lv"
      "m_logfile (rl_logger r) = Some (f0 @ concat (map (log_line lv) written))"
      "rl_queued r = written @ taken_logs r @ m_waiting_logs (rl_logger r)"
      "m_waiting_logs (rl_logger r) \<noteq> [] \<longrightarrow> 0 < sl_timers (rl_logger r) + sl_writes (rl_logger r)"
    using assms(2) by (auto simp: log_inv_def)
  from assms(1) show ?thesis
  proof cases
    case (log_write infos)
    then show ?thesis using w
      by (auto simp: log_inv_def write_logs_file taken_logs_def intro!: exI [of _ "written @ infos"])
  qed (use w in \<open>auto simp: log_inv_def queue_log_def flush_all_def swap_logs_def taken_logs_def intro!: exI [of _ written]\<close>)
qed

lemma log_steps_inv: "log_step\<^sup>*\<^sup>* r r' \<Longrightarrow> log_inv f0 lv r \<Longrightarrow> log_inv f0 lv r'"
  by (induction rule: rtranclp_induct) (auto intro: log_step_inv)

definition log_start :: "byte list \<Rightarrow> LogLevel \<Rightarrow> log_run" where
  "log_start f0 lv = \<lparr>rl_logger = snd (Logger_Init (Some f0) lv new_SimpleLogger), rl_writing = None, rl_queued = []\<rparr>"

definition level_names :: "byte list list" where
  "level_names = [lit ''ERROR'', lit ''WARN'', lit ''INFO'', lit ''DEBUG'']"

lemma log_start_inv: "log_inv f0 level_names (log_start f0 lv)"
  by (simp add: log_inv_def log_start_def Logger_Init_def new_SimpleLogger_def level_names_def taken_logs_def)

text \<open>
  C0: The log loses nothing. In every interleaving of the threads that log, the timers and the thread that
  writes, the file holds what it held before, followed by one line for each of the first entries that were
  queued, in the order they were queued; entries that still wait have a timer or a task that will write them,
  so when no task is left the file holds them all.
\<close>

theorem log_complete:
  assumes "log_step\<^sup>*\<^sup>* (log_start f0 lv) r"
  shows "\<exists>written. m_logfile (rl_logger r) = Some (f0 @ concat (map (log_line level_names) written)) \<and>
    rl_queued r = written @ taken_logs r @ m_waiting_logs (rl_logger r) \<and>
    (sl_timers (rl_logger r) = 0 \<and> sl_writes (rl_logger r) = 0 \<and> rl_writing r = None \<longrightarrow> written = rl_queued r)"
proof -
  obtain written where w: "m_logfile (rl_logger r) = Some (f0 @ concat (map (log_line level_names) written))"
      "rl_queued r = written @ taken_logs r @ m_waiting_logs (rl_logger r)"
      "m_waiting_logs (rl_logger r) \<noteq> [] \<longrightarrow> 0 < sl_timers (rl_logger r) + sl_writes (rl_logger r)"
    using log_steps_inv [OF assms log_start_inv] by (auto simp: log_inv_def)
  then show ?thesis by (intro exI [of _ written]) (auto simp: taken_logs_def)
qed

definition sample_entry :: LogInfo where
  "sample_entry = \<lparr>li_category = lit ''bus'', li_level = lv_warn, li_content = lit ''x'', li_time = lit ''t'' @ [0]\<rparr>"

theorem log_complete_witness:
  "\<exists>written. m_logfile (rl_logger ((log_start [] lv_info)\<lparr>rl_logger := queue_log sample_entry (rl_logger (log_start [] lv_info)),
       rl_queued := [sample_entry]\<rparr>)) = Some ([] @ concat (map (log_line level_names) written)) \<and>
    [sample_entry] = written @ [] @ [sample_entry]"
proof -
  let ?r = "(log_start [] lv_info)\<lparr>rl_logger := queue_log sample_entry (rl_logger (log_start [] lv_info)),
       rl_queued := [sample_entry]\<rparr>"
  have "log_step (log_start [] lv_info) ?r"
    using log_queue [of "log_start [] lv_info" sample_entry]
    by (simp add: log_start_def Logger_Init_def new_SimpleLogger_def)
  from log_complete [OF r_into_rtranclp, OF this] show ?thesis
    by (simp add: taken_logs_def queue_log_def log_start_def Logger_Init_def new_SimpleLogger_def)
qed

text \<open>
  Closing the log drops what is queued between its last writing and the clearing: the entries that wait
  when the lock fails.
\<close>

lemma reset_drops:
  "wait_lock locks = Some False \<Longrightarrow>
     Logger_Reset locks unlock_ok s = Some (Inr (s\<lparr>m_logfile := None, m_waiting_logs := []\<rparr>))"
  by (simp add: Logger_Reset_def write2file_lock_fails)

end
