(* ===== verification/Server_Main.thy ===== *)
theory Server_Main
  imports Server_Theorems
begin

text \<open>
  The life of the server process (\<^verbatim>\<open>msgbus_server.cpp\<close>): \<open>main\<close>, \<open>msgbus_server_accept_thread\<close> and
  \<open>msgbus_process_thread\<close> running together with the workers and event loops that call the handlers.

  Each thread has a program counter; code between two waits or under one lock is one step of \<open>life_step\<close>,
  so what is proved of its runs holds for every interleaving. What the system calls answer (\<open>bind\<close>,
  \<open>listen\<close>, \<open>fcntl\<close>, \<open>select\<close>, \<open>accept\<close>, \<open>pthread_create\<close>) is the choice of the step or an argument.
\<close>

section \<open>State\<close>

datatype accept_pc = A_Setup | A_Loop | A_Ended

datatype process_pc = P_Lock | P_Waiting | P_Ended

datatype main_pc = M_Sleep | M_Notify | M_JoinAccept | M_JoinProcess | M_Destroy | M_Ended

record server_process =
  the_server :: server
  accept_at :: accept_pc
  noclient_quit :: nat
  server_running :: bool
  process_at :: process_pc
  main_at :: main_pc

section \<open>\<open>main\<close>\<close>

text \<open>\<open>strtol\<close> with base 10: white space, a sign, digits, saturating; the assignment keeps 16 bits.\<close>

fun decimal :: "nat \<Rightarrow> byte list \<Rightarrow> nat" where
  "decimal n [] = n"
| "decimal n (c # s) = (if 48 \<le> c \<and> c \<le> 57 then decimal (n * 10 + unat (c - 48)) s else n)"

definition strtol10 :: "byte list \<Rightarrow> int" where
  "strtol10 s =
     (let s = dropWhile (\<lambda>c. c = 32 \<or> (9 \<le> c \<and> c \<le> 13)) s in
      case s of
        [] \<Rightarrow> 0
      | c # r \<Rightarrow>
          if c = 45 then max (- int (decimal 0 r)) (- (2 ^ 63))
          else min (int (decimal 0 (if c = 43 then r else s))) (2 ^ 63 - 1))"

definition MSGBUS_SERVER_DEFAULT_PORT :: u16 where "MSGBUS_SERVER_DEFAULT_PORT = 19000"

definition server_port :: "byte list list \<Rightarrow> u16" where
  "server_port argv =
     (if length argv > 1 then
        let s_server_port = word_of_int (strtol10 (argv ! 1)) in
        if s_server_port = 0 then MSGBUS_SERVER_DEFAULT_PORT else s_server_port
      else MSGBUS_SERVER_DEFAULT_PORT)"

text \<open>
  \<open>main\<close> up to its waiting loop: \<open>Inl\<close> the exit code when a thread cannot be created, or the process that
  runs.
\<close>

definition main_start :: "(int \<Rightarrow> sock_info) \<Rightarrow> bool \<Rightarrow> bool \<Rightarrow> int + server_process" where
  "main_start heap register_created process_created =
     (if \<not> register_created then Inl (- 1)
      else if \<not> process_created then Inl (- 1)
      else Inr \<lparr>the_server = server_init heap, accept_at = A_Setup, noclient_quit = 0, server_running = False,
             process_at = P_Lock, main_at = M_Sleep\<rparr>)"

text \<open>One step of the rest of \<open>main\<close>; \<open>None\<close> where it waits.\<close>

definition main_step :: "server_process \<Rightarrow> server_process option" where
  "main_step p = (case main_at p of
       M_Sleep \<Rightarrow> if server_terminate (the_server p) then Some (p\<lparr>main_at := M_Notify\<rparr>) else None
     | M_Notify \<Rightarrow>
         Some (p\<lparr>main_at := M_JoinAccept,
                 process_at := (if process_at p = P_Waiting then P_Lock else process_at p)\<rparr>)
     | M_JoinAccept \<Rightarrow> if accept_at p = A_Ended then Some (p\<lparr>main_at := M_JoinProcess\<rparr>) else None
     | M_JoinProcess \<Rightarrow> if process_at p = P_Ended then Some (p\<lparr>main_at := M_Destroy\<rparr>) else None
     | M_Destroy \<Rightarrow> Some (p\<lparr>main_at := M_Ended\<rparr>)
     | M_Ended \<Rightarrow> None)"

section \<open>The accepting thread\<close>

definition accept_fails :: "bool \<Rightarrow> server_process \<Rightarrow> server_process" where
  "accept_fails terminate p =
     p\<lparr>the_server := (if terminate then (the_server p)\<lparr>server_terminate := True\<rparr> else the_server p),
       server_running := False, accept_at := A_Ended\<rparr>"

definition accept_setup :: "bool \<Rightarrow> bool \<Rightarrow> bool \<Rightarrow> bool \<Rightarrow> server_process \<Rightarrow> server_process" where
  "accept_setup bind_ok listen_ok closeonexec_ok nonblock_ok p =
     (if \<not> bind_ok then accept_fails True p
      else if \<not> listen_ok then accept_fails True p
      else
        let p = p\<lparr>the_server := (the_server p)\<lparr>available_services := [], active_clients := [],
                     tcp_services_map := Map.empty\<rparr>\<rparr> in
        if \<not> closeonexec_ok then accept_fails False p
        else if \<not> nonblock_ok then accept_fails False p
        else p\<lparr>server_running := True, noclient_quit := 0, accept_at := A_Loop\<rparr>)"

definition accept_round :: "int \<Rightarrow> (int \<times> sock_info) option \<Rightarrow> server_process \<Rightarrow> server_process" where
  "accept_round result conn p =
     (let (st, cnt, go_on) = accept_loop_step (the_server p) (noclient_quit p) result conn in
      if go_on then p\<lparr>the_server := st, noclient_quit := cnt\<rparr>
      else p\<lparr>the_server := st, noclient_quit := cnt, server_running := False, accept_at := A_Ended\<rparr>)"

section \<open>The relay thread\<close>

text \<open>From the lock to the next wait or the next lock.\<close>

definition queues_empty :: "server \<Rightarrow> bool" where
  "queues_empty st = (reqtoclient_task_container st = [] \<and> broadcast_task_container st = [])"

definition process_step :: "server_env \<Rightarrow> server_process \<Rightarrow> server_process" where
  "process_step env p =
     (if queues_empty (the_server p) then
        if server_terminate (the_server p) then p\<lparr>process_at := P_Ended\<rparr>
        else p\<lparr>process_at := P_Waiting\<rparr>
      else (case msgbus_process_round env (the_server p) of
          None \<Rightarrow> p\<lparr>process_at := P_Ended\<rparr>
        | Some st \<Rightarrow> p\<lparr>the_server := st\<rparr>))"

text \<open>
  A worker or an event loop has run a handler; \<open>notify_one\<close> wakes the relay thread when it has queued
  something.
\<close>

definition handler_ran :: "server \<Rightarrow> server_process \<Rightarrow> server_process" where
  "handler_ran st p =
     p\<lparr>the_server := st,
       process_at := (if process_at p = P_Waiting \<and> \<not> queues_empty st then P_Lock else process_at p)\<rparr>"

section \<open>Runs\<close>

inductive life_step :: "server_env \<Rightarrow> server_process \<Rightarrow> server_process \<Rightarrow> bool" for env where
  life_main: "main_step p = Some p' \<Longrightarrow> life_step env p p'"
| life_setup: "accept_at p = A_Setup \<Longrightarrow> life_step env p (accept_setup b l c n p)"
| life_accept: "accept_at p = A_Loop \<Longrightarrow> life_step env p (accept_round result conn p)"
| life_process: "process_at p = P_Lock \<Longrightarrow> life_step env p (process_step env p)"
| life_wakeup: "process_at p = P_Waiting \<Longrightarrow> life_step env p (p\<lparr>process_at := P_Lock\<rparr>)"
| life_handle: "process_data_from_client env (the_server p) sp head body = Inr st \<Longrightarrow>
    life_step env p (handler_ran st p)"
| life_close: "server_onClose (the_server p) sp = Inr st \<Longrightarrow> life_step env p (handler_ran st p)"
| life_timeout: "server_onTimeout (the_server p) sp = Inr st \<Longrightarrow> life_step env p (handler_ran st p)"

inductive_cases life_stepE: "life_step env p p'"

section \<open>What the handlers leave alone\<close>

lemma unregister_terminate [simp]:
  "server_terminate (unregister_client_from_service st n h) = server_terminate st"
  by (auto simp: unregister_client_from_service_def Let_def split: option.splits)

lemma register_host_terminate:
  "register_host st sp n h r e = Inr (st', r', e') \<Longrightarrow> server_terminate st' = server_terminate st"
  by (auto simp: register_host_def Let_def cbind_eq_Inr split: option.splits if_splits)

lemma register_terminate:
  "process_register_req st sp head body = Inr st' \<Longrightarrow> server_terminate st' = server_terminate st"
  unfolding process_register_req_def Let_def
  by (elim cbindE) (auto dest: register_host_terminate split: if_splits prod.splits elim!: cbindE)

lemma unregister_req_terminate:
  "process_unregister_req st sp head body = Inr st' \<Longrightarrow> server_terminate st' = server_terminate st"
  unfolding process_unregister_req_def Let_def
  by (elim cbindE) (auto split: if_splits prod.splits elim!: cbindE)

lemma same_registry_terminate: "same_registry st st' \<Longrightarrow> server_terminate st' = server_terminate st"
  by (simp add: same_registry_def)

lemma handler_terminate:
  "process_data_from_client env st sp head body = Inr st' \<Longrightarrow> server_terminate st' = server_terminate st"
  unfolding process_data_from_client_def
  by (auto split: if_splits elim!: cbindE
      dest: register_terminate unregister_req_terminate read_only_handlers [THEN same_registry_terminate])

lemma close_terminate: "server_onClose st sp = Inr st' \<Longrightarrow> server_terminate st' = server_terminate st"
  by (auto simp: server_onClose_def cbind_eq_Inr Let_def split: option.splits if_splits prod.splits)

lemma timeout_terminate: "server_onTimeout st sp = Inr st' \<Longrightarrow> server_terminate st' = server_terminate st"
  by (auto simp: server_onTimeout_def cbind_eq_Inr dest: close_terminate)

lemma relay_terminate: "msgbus_process_round env st = Some st' \<Longrightarrow> server_terminate st' = server_terminate st"
  unfolding msgbus_process_round_def Let_def
  by (auto split: if_splits simp: same_registry_terminate [OF fold_same [OF run_reqtask_same]]
      same_registry_terminate [OF fold_same [OF run_broadcast_same]])

lemma accept_terminate:
  "accept_loop_step st cnt result conn = (st', cnt', go_on) \<Longrightarrow>
     (server_terminate st \<longrightarrow> server_terminate st') \<and>
     (result \<noteq> - 1 \<longrightarrow> go_on = (\<not> server_terminate st')) \<and> (result = - 1 \<longrightarrow> go_on \<and> st' = st) \<and>
     reqtoclient_task_container st' = reqtoclient_task_container st \<and>
     broadcast_task_container st' = broadcast_task_container st"
  by (auto simp: accept_loop_step_def Let_def split: if_splits prod.splits option.splits)

section \<open>The end of the process\<close>

definition life_inv :: "server_process \<Rightarrow> bool" where
  "life_inv p \<longleftrightarrow>
     (process_at p = P_Waiting \<longrightarrow> queues_empty (the_server p)) \<and>
     (server_terminate (the_server p) \<longrightarrow> accept_at p = A_Ended) \<and>
     (main_at p \<noteq> M_Sleep \<longrightarrow> server_terminate (the_server p)) \<and>
     (main_at p \<notin> {M_Sleep, M_Notify} \<longrightarrow> process_at p \<noteq> P_Waiting) \<and>
     (main_at p \<in> {M_Destroy, M_Ended} \<longrightarrow> process_at p = P_Ended)"

text \<open>How far the process is from its end once it was told to terminate.\<close>

fun main_left :: "main_pc \<Rightarrow> nat" where
  "main_left M_Sleep = 5"
| "main_left M_Notify = 4"
| "main_left M_JoinAccept = 3"
| "main_left M_JoinProcess = 2"
| "main_left M_Destroy = 1"
| "main_left M_Ended = 0"

fun process_left :: "process_pc \<Rightarrow> nat" where
  "process_left P_Waiting = 2"
| "process_left P_Lock = 1"
| "process_left P_Ended = 0"

definition steps_left :: "server_process \<Rightarrow> nat" where
  "steps_left p = main_left (main_at p) + process_left (process_at p)"

lemma queues_empty_terminate [simp]: "queues_empty (st\<lparr>server_terminate := b\<rparr>) = queues_empty st"
  by (simp add: queues_empty_def)

lemma handler_ran_inv:
  "life_inv p \<Longrightarrow> server_terminate st = server_terminate (the_server p) \<Longrightarrow> life_inv (handler_ran st p)"
  by (auto simp: life_inv_def handler_ran_def)

lemma accept_setup_inv: "life_inv p \<Longrightarrow> accept_at p = A_Setup \<Longrightarrow> life_inv (accept_setup b l c n p)"
  by (cases b; cases l; cases c; cases n; auto simp: life_inv_def accept_setup_def accept_fails_def queues_empty_def)

lemma accept_round_facts:
  assumes "accept_at p = A_Loop"
  shows "main_at (accept_round result conn p) = main_at p" "process_at (accept_round result conn p) = process_at p"
    "queues_empty (the_server (accept_round result conn p)) = queues_empty (the_server p)"
    "server_terminate (the_server p) \<Longrightarrow> server_terminate (the_server (accept_round result conn p))"
    "server_terminate (the_server (accept_round result conn p)) \<Longrightarrow>
      server_terminate (the_server p) \<or> accept_at (accept_round result conn p) = A_Ended"
proof -
  obtain st cnt go where r: "accept_loop_step (the_server p) (noclient_quit p) result conn = (st, cnt, go)"
    by (cases "accept_loop_step (the_server p) (noclient_quit p) result conn") auto
  note a = accept_terminate [OF r]
  show "main_at (accept_round result conn p) = main_at p" "process_at (accept_round result conn p) = process_at p"
    by (simp_all add: accept_round_def r)
  show "queues_empty (the_server (accept_round result conn p)) = queues_empty (the_server p)"
    using a by (simp add: accept_round_def r queues_empty_def)
  show "server_terminate (the_server p) \<Longrightarrow> server_terminate (the_server (accept_round result conn p))"
    using a by (simp add: accept_round_def r)
  show "server_terminate (the_server (accept_round result conn p)) \<Longrightarrow>
      server_terminate (the_server p) \<or> accept_at (accept_round result conn p) = A_Ended"
    using a by (cases go) (auto simp: accept_round_def r)
qed

lemma accept_round_inv: "life_inv p \<Longrightarrow> accept_at p = A_Loop \<Longrightarrow> life_inv (accept_round result conn p)"
  using accept_round_facts [of p result conn] unfolding life_inv_def by (metis accept_pc.distinct(5))

lemma process_step_cases:
  obtains "process_step env p = p\<lparr>process_at := P_Ended\<rparr>"
  | "process_step env p = p\<lparr>process_at := P_Waiting\<rparr>" "queues_empty (the_server p)" "\<not> server_terminate (the_server p)"
  | st where "process_step env p = p\<lparr>the_server := st\<rparr>" "server_terminate st = server_terminate (the_server p)"
proof (cases "queues_empty (the_server p)")
  case True
  then show ?thesis using that(1,2) by (cases "server_terminate (the_server p)") (simp_all add: process_step_def)
next
  case False
  then show ?thesis using that(1,3) relay_terminate [of env "the_server p"]
    by (cases "msgbus_process_round env (the_server p)") (simp_all add: process_step_def)
qed

lemma process_step_inv: "life_inv p \<Longrightarrow> process_at p = P_Lock \<Longrightarrow> life_inv (process_step env p)"
  by (rule process_step_cases [of env p]) (simp_all add: life_inv_def)

lemma main_step_inv: "life_inv p \<Longrightarrow> main_step p = Some p' \<Longrightarrow> life_inv p'"
  by (cases "main_at p") (auto simp: life_inv_def main_step_def split: if_splits)

lemma life_step_inv:
  assumes "life_step env p p'" "life_inv p"
  shows "life_inv p'"
  using assms(1)
proof (rule life_stepE)
  assume "p' = p\<lparr>process_at := P_Lock\<rparr>" "process_at p = P_Waiting"
  with assms(2) show ?thesis by (auto simp: life_inv_def)
qed (use assms(2) in \<open>auto intro: main_step_inv accept_setup_inv accept_round_inv process_step_inv
    handler_ran_inv [OF _ handler_terminate] handler_ran_inv [OF _ close_terminate]
    handler_ran_inv [OF _ timeout_terminate]\<close>)

interpretation server_life: step_invariant "life_step env" life_inv for env
  by unfold_locales (rule life_step_inv)

lemma main_start_inv: "main_start heap r q = Inr p \<Longrightarrow> life_inv p"
  by (auto simp: main_start_def life_inv_def server_init_def split: if_splits)

lemma handler_ran_left:
  "server_terminate st = server_terminate (the_server p) \<Longrightarrow>
     server_terminate (the_server (handler_ran st p)) = server_terminate (the_server p) \<and>
     steps_left (handler_ran st p) \<le> steps_left p"
  by (simp add: handler_ran_def steps_left_def)

lemma process_step_left:
  "process_at p = P_Lock \<Longrightarrow> server_terminate (the_server p) \<Longrightarrow>
     server_terminate (the_server (process_step env p)) \<and> steps_left (process_step env p) < steps_left p"
  by (simp add: process_step_def msgbus_process_round_def steps_left_def)

lemma main_step_left:
  "main_step p = Some p' \<Longrightarrow> the_server p' = the_server p \<and> steps_left p' < steps_left p"
  by (cases "main_at p") (auto simp: main_step_def steps_left_def split: if_splits)

lemma life_step_left:
  assumes "life_step env p p'" "life_inv p" "server_terminate (the_server p)"
  shows "server_terminate (the_server p') \<and> steps_left p' \<le> steps_left p"
proof -
  have ended: "accept_at p = A_Ended" using assms(2,3) by (simp add: life_inv_def)
  from assms(1) show ?thesis
  proof (rule life_stepE)
    assume "main_step p = Some p'"
    with assms(3) main_step_left [of p p'] show ?thesis by simp
  next
    assume "p' = process_step env p" "process_at p = P_Lock"
    with assms(3) process_step_left [of p env] show ?thesis by simp
  next
    assume "p' = p\<lparr>process_at := P_Lock\<rparr>" "process_at p = P_Waiting"
    with assms(3) show ?thesis by (simp add: steps_left_def)
  qed (use assms(3) ended handler_ran_left [of _ p] in
      \<open>auto dest: handler_terminate close_terminate timeout_terminate\<close>)
qed

lemma life_goes_on:
  assumes "life_inv p" "server_terminate (the_server p)" "main_at p \<noteq> M_Ended"
  shows "\<exists>p'. life_step env p p' \<and> steps_left p' < steps_left p"
proof (cases "main_at p = M_JoinProcess \<and> process_at p \<noteq> P_Ended")
  case True
  then have "process_at p = P_Lock" using assms(1) by (cases "process_at p") (simp_all add: life_inv_def)
  then show ?thesis using process_step_left [of p env] assms(2) life_process by blast
next
  case False
  then obtain p' where "main_step p = Some p'"
    using assms by (cases "main_at p") (auto simp: main_step_def life_inv_def)
  then show ?thesis using main_step_left life_main by blast
qed

text \<open>
  C0: The server process ends when it is told to, and its relay thread never sleeps on work. In every
  interleaving of \<open>main\<close>, the accepting thread, the relay thread and the handlers: a sleeping relay thread has
  empty queues; once the termination flag is set (by an idle accept loop or a failed \<open>bind\<close> or \<open>listen\<close>)
  the accepting thread has ended, no step of any thread undoes progress, and until \<open>main\<close> has returned
  there is always a step that makes some, so after at most seven of them the process has ended.
\<close>

theorem server_process_ends:
  assumes "main_start heap True True = Inr p0" "(life_step env)\<^sup>*\<^sup>* p0 p"
  shows "(process_at p = P_Waiting \<longrightarrow> queues_empty (the_server p)) \<and>
    (server_terminate (the_server p) \<longrightarrow> accept_at p = A_Ended \<and> steps_left p \<le> 7 \<and>
      (\<forall>p'. life_step env p p' \<longrightarrow> server_terminate (the_server p') \<and> steps_left p' \<le> steps_left p) \<and>
      (main_at p = M_Ended \<or> (\<exists>p'. life_step env p p' \<and> steps_left p' < steps_left p)))"
proof -
  have inv: "life_inv p" using server_life.reachable_inv [OF assms(2)] main_start_inv [OF assms(1)] by blast
  moreover have "steps_left p \<le> 7" by (cases "main_at p"; cases "process_at p"; simp add: steps_left_def)
  ultimately show ?thesis using life_step_left [of env p] life_goes_on [of p env] by (auto simp: life_inv_def)
qed

definition idle_env :: server_env where
  "idle_env = \<lparr>rnd = (\<lambda>_. 0), pb_parse = (\<lambda>_. None), pb_serialize = concat, junk_name = []\<rparr>"

definition started :: server_process where
  "started = projr (main_start (\<lambda>_. \<lparr>si_fd = 0, si_ip = [], si_port = 0\<rparr>) True True)"

theorem server_process_ends_witness:
  "server_terminate (the_server (accept_setup False True True True started)) \<and>
   accept_at (accept_setup False True True True started) = A_Ended \<and>
   (\<exists>p'. life_step idle_env (accept_setup False True True True started) p' \<and>
      steps_left p' < steps_left (accept_setup False True True True started))"
proof -
  have s: "main_start (\<lambda>_. \<lparr>si_fd = 0, si_ip = [], si_port = 0\<rparr>) True True = Inr started"
    by (simp add: started_def main_start_def)
  have "life_step idle_env started (accept_setup False True True True started)"
    by (rule life_setup) (simp add: started_def main_start_def)
  from server_process_ends [OF s r_into_rtranclp, OF this] show ?thesis
    by (simp add: accept_setup_def accept_fails_def started_def main_start_def)
qed

text \<open>Without clients the accept loop ends at its sixteenth time-out, after about half a minute.\<close>

lemma idle_rounds:
  assumes "active_clients (the_server p) = []" "noclient_quit p = 0" "\<not> server_terminate (the_server p)" "n \<le> 15"
  shows "(accept_round 0 None ^^ n) p = p\<lparr>noclient_quit := n\<rparr>"
  using assms(4)
proof (induction n)
  case (Suc n)
  then show ?case using assms(1,3) by (simp add: accept_round_def accept_loop_step_def Let_def)
qed (use assms(2) in simp)

lemma server_quits_idle:
  assumes "active_clients (the_server p) = []" "noclient_quit p = 0" "\<not> server_terminate (the_server p)"
  shows "server_terminate (the_server ((accept_round 0 None ^^ 16) p))" "accept_at ((accept_round 0 None ^^ 16) p) = A_Ended"
proof -
  have "(accept_round 0 None ^^ 16) p = accept_round 0 None (p\<lparr>noclient_quit := 15\<rparr>)"
    using idle_rounds [OF assms, of 15] by (simp add: funpow_Suc_right eval_nat_numeral)
  then show "server_terminate (the_server ((accept_round 0 None ^^ 16) p))" "accept_at ((accept_round 0 None ^^ 16) p) = A_Ended"
    using assms(1) by (simp_all add: accept_round_def accept_loop_step_def Let_def)
qed

text \<open>
  When the descriptor cannot be set up after \<open>listen\<close>, the thread ends without the termination flag, and
  \<open>main\<close> sleeps for ever.
\<close>

definition abandoned :: "server_process \<Rightarrow> bool" where
  "abandoned p = (accept_at p = A_Ended \<and> \<not> server_terminate (the_server p) \<and> main_at p = M_Sleep)"

lemma setup_abandons:
  "\<not> server_terminate (the_server p) \<Longrightarrow> main_at p = M_Sleep \<Longrightarrow> \<not> (c \<and> n) \<Longrightarrow> abandoned (accept_setup True True c n p)"
  by (auto simp: abandoned_def accept_setup_def accept_fails_def Let_def)

lemma abandoned_step: "life_step env p p' \<Longrightarrow> abandoned p \<Longrightarrow> abandoned p'"
  by (erule life_stepE)
    (auto simp: abandoned_def main_step_def handler_ran_def process_step_def split: option.splits
      dest: handler_terminate close_terminate timeout_terminate relay_terminate)

interpretation abandoned_life: step_invariant "life_step env" abandoned for env
  by unfold_locales (rule abandoned_step)

text \<open>A failing \<open>select\<close> is repeated without a look at the termination flag.\<close>

lemma select_error_repeats: "accept_at p = A_Loop \<Longrightarrow> accept_round (- 1) conn p = p"
  by (simp add: accept_round_def accept_loop_step_def)

end
