(* ===== verification/Spec2Isabelle.thy ===== *)
theory Spec2Isabelle
  imports Fast_Buffer Net_Msg Server_Theorems Sock_Waiter Req2Receiver_Props Receiver Server_Conn_Calls Local_Bus_Sync Thread_Pool_Props Named_Threads Event_Loop_Props Select_Waiter Client_Request XParam_Props Json_Access Json_Comments Simple_Logger Server_Main
begin

text \<open>
  A message bus within a process, between processes and over the network (\<^verbatim>\<open>src/Core\<close>, C++).

  \<^bold>\<open>The parts and how they interact.\<close> Inside a process, objects register handlers for message ids; \<open>PostMsg\<close> queues a
  message for the bus thread, \<open>SendMsg\<close> waits for the handlers' result. Between processes, a client registers its
  receiver under a name with the server, asks the server for the address of a name, and then talks to the other
  client directly (request with a session id, answer with the same id), or lets the server relay a message. Every
  connection is a \<open>TcpSock\<close> with two growing buffers, driven by an event loop whose waiter is an epoll set and
  a notification pipe; each \<open>onRead\<close> callback gets all buffered bytes and returns how many it consumed.

  \<^bold>\<open>Theories and sources.\<close>
  \<^item> \<open>Bus_Prelude\<close>: bytes, memory accesses with bounds, byte order, C strings, errors; \<open>Std_Map\<close>: \<open>std::map\<close>;
    \<open>Framing\<close>: cutting a byte stream into frames (locales \<open>frame_protocol\<close> and \<open>stream_reader\<close>, interpreted for the three frame formats and the four reading loops).
  \<^item> \<open>Fast_Buffer\<close>: \<^verbatim>\<open>FastBuffer.h/.cpp\<close>, refined to a byte queue.
  \<^item> \<open>Host_Info\<close>, \<open>MsgBus_Def\<close>, \<open>MsgBus_Codec\<close>: \<^verbatim>\<open>msgbus_def.h/.cpp\<close>, the ten message classes; one locale
    (\<open>message_codec\<close>) has the contract of a class, and every class interprets it.
  \<^item> \<open>Net_Msg\<close>: content of messages between clients and the filters (\<^verbatim>\<open>NetMsgBusUtility.hpp\<close>, \<^verbatim>\<open>NetMsgBusFilterMgr.*\<close>).
  \<^item> \<open>Server\<close>, \<open>Server_Registry\<close>, \<open>Server_Props\<close>, \<open>Server_Theorems\<close>: \<^verbatim>\<open>msgbus_server.cpp\<close>.
  \<^item> \<open>Tcp_Sock\<close>, \<open>Sock_Waiter\<close>, \<open>Client_Pool\<close>: \<^verbatim>\<open>TcpSock.*\<close>, \<^verbatim>\<open>SockEvent.hpp\<close>, \<^verbatim>\<open>SockWaiterBase.*\<close>, \<^verbatim>\<open>EpollWaiter.cpp\<close>,
    the entry points of \<^verbatim>\<open>EventLoop.*\<close>, \<^verbatim>\<open>EventLoopPool.cpp\<close>, \<^verbatim>\<open>TcpClientPool.*\<close>.
  \<^item> \<open>Event_Loop\<close>, \<open>Event_Loop_Ops\<close>, \<open>Event_Loop_Inv\<close>, \<open>Event_Loop_Props\<close>: the thread of \<^verbatim>\<open>EventLoop.cpp\<close>, its start, rounds and end, and the end of
    the loops in \<^verbatim>\<open>EventLoopPool.cpp\<close>; \<open>Select_Waiter\<close>: \<^verbatim>\<open>SelectWaiter.*\<close>. The locale \<open>event_waiter\<close> has the contract of a waiter's
    \<open>UpdateTcpSockEvent\<close> and is interpreted for both waiters.
  \<^item> \<open>Thread_Pool\<close>, \<open>Thread_Pool_Props\<close>, \<open>Named_Threads\<close>: \<^verbatim>\<open>multitimer.*\<close>, \<^verbatim>\<open>threadpool*\<close>, \<^verbatim>\<open>worker_thread.hpp\<close>, \<^verbatim>\<open>timer_thread.hpp\<close>,
    \<^verbatim>\<open>named_worker_thread.*\<close>.
  \<^item> \<open>Future\<close>, \<open>Req2Receiver\<close>, \<open>Req2Receiver_Props\<close>: \<^verbatim>\<open>NetMsgBusFuture.hpp\<close>, \<^verbatim>\<open>NetMsgBusReq2ReceiverMgr.hpp\<close>, the sending side.
  \<^item> \<open>Receiver\<close>: \<^verbatim>\<open>NetMsgBusReceiverMgr.hpp\<close> and the bridge to the local bus in \<^verbatim>\<open>NetMsgBusUtility.hpp\<close>.
  \<^item> \<open>Server_Conn\<close>, \<open>Server_Conn_Props\<close>, \<open>Server_Conn_Calls\<close>: \<^verbatim>\<open>NetMsgBusServerConnMgr.hpp\<close>, alone and together with the server.
  \<^item> \<open>Local_Bus\<close>, \<open>Local_Bus_Props\<close>, \<open>Local_Bus_Sync\<close>: \<^verbatim>\<open>msgbus_interface.cpp\<close>, \<^verbatim>\<open>msgbus_handlerbase.hpp\<close>, the local bus and the
    interleavings of its threads.
  \<^item> \<open>Handler_Mgr\<close>: \<^verbatim>\<open>MsgHandlerMgr.h\<close>; \<open>Client_Api\<close>, \<open>Client_Lifecycle\<close>, \<open>Client_Request\<close>: \<^verbatim>\<open>msgbus_client.cpp\<close>, the \<open>NetMsgBus...\<close> functions of
    \<^verbatim>\<open>msgbus_interface.cpp\<close>, start and stop of the request and receiver threads: all parts of a client together.
  \<^item> \<open>Json_Value\<close>, \<open>Json_Writer\<close>, \<open>Json_Reader\<close>: the library \<^verbatim>\<open>3rd_tools/jsoncpp\<close> that the parameters of messages are written with;
    \<open>Json_Reader_Props\<close>, \<open>Json_Tokens\<close>, \<open>Json_Layout\<close>, \<open>Json_Roundtrip\<close>, \<open>Json_Props\<close>: reading what was written. The locale \<open>indenter\<close>
    has the contract of the indentation and is interpreted for both styled writers.
  \<^item> \<open>XParam\<close>, \<open>XParam_Props\<close>: \<^verbatim>\<open>xparam.hpp\<close>, named parameters as JSON; the locales \<open>typed_entry\<close> and \<open>sent_entry\<close> have the contract of
    a setter and its getter, before and after the transport, and are interpreted for the types of the class.
  \<^item> this theory: a request from client to client and back, through all layers.

  \<^bold>\<open>How the code is modelled.\<close> A class is a record, its methods are functions on it with the names of the source;
  message classes extend the record of the packet head as the classes derive from it. Every read and write of memory
  is bounds-checked: the result type \<open>cres\<close> has the error (out of bounds, null pointer, failed assertion, a
  bare \<open>throw\<close>, which terminates the process) or the value. Integers have the width of the code, and wrap. What is
  not under \<^verbatim>\<open>src/\<close> or not determined by the code is an argument: results of system calls, the clock, \<open>rand()\<close>, the
  encoding of protocol buffers, uninitialised memory, whether a thread starts, the member functions of user handlers.
  Sockets live in a heap, pointers to them are addresses; calls out of a socket (its callbacks, data queued for
  sending) are logged in it. Code under one lock is one step; the pipe of the waiter, \<open>SendMsg\<close> with the bus thread,
  the workers of the pool, the named threads and the event loop with the threads that use it are step relations, so their
  properties hold for every interleaving. A wait that may not end has an argument for what it sees, and the result \<open>None\<close> when it does not return. A caller that waits for a future gets the
  states it finds at its wake-ups and at its time-out as arguments. All loops are total functions; fuel is
  used in \<open>split_frames\<close>, where the number of bytes bounds the number of frames, and for the recursion of the JSON reader,
  where twice the length of the document is proved to be enough.

  \<^bold>\<open>What the lemmas show.\<close> Buffers: any legal history is a byte queue. Wire formats: packing and unpacking are
  inverse and stay in bounds, with the exceptions stated as properties. Streams: for each of the four readers, however the
  network cuts the bytes, exactly the frames of the stream are handled. Server: the registry's invariant over all runs,
  registration, look-up, relaying, closing. Sockets: bytes leave in the order accepted and arrive complete; the waiter
  loses no notification, the loop thread fails no assertion and ends when told to, and both waiters agree. Threads: pools and named
  threads run tasks in the order queued, lose no wake-up and can be ended; timers keep their period. Requests: every session gets exactly its own answer. Local bus: the order and result of
  handlers, registrations, merging is unobservable, synchronous messages get their own answer and are always answered.
  JSON and parameters: reading always ends with a well-formed value, the texts of all writers are read back, typed entries survive the
  transport in a message.
  Compositions: registering and finding, relaying, the first request of an
  application to a name, the end of a client after any history, and request and response between clients. Properties marked as errors
  state where the code fails: stale answers after a time-out, assertions in the wrong thread, dropped futures,
  unchecked lengths and names.

  \<^bold>\<open>Not modelled.\<close> \<open>main\<close> of the server and the system calls that set up listening sockets; writing to the log, printing, locks and scope guards,
  which the steps of the model stand for; in \<^verbatim>\<open>jsoncpp\<close> the comments kept with values, \<open>Path\<close>, the iterators, the allocators and the internal
  containers that are not compiled in; the tests and the Python port of the client.
\<close>

section \<open>A request and its answer\<close>

lemma frames_two:
  assumes "post_parse (a @ b) = Some (f, length a)" "post_parse b = Some (g, length b)"
  shows "frames post_parse (a @ b) = ([f, g], [])"
proof -
  have "frames post_parse b = ([g], [])"
    using post_frames.frames_step [OF assms(2)] by (simp add: frames_def)
  with post_frames.frames_step [OF assms(1)] show ?thesis by simp
qed

lemma frames_rsp:
  assumes "rsp_parse b = Some (f, length b)"
  shows "frames rsp_parse b = ([f], [])"
  using rsp_frames.frames_step [OF assms] by (simp add: frames_def)

text \<open>The identification has no parameter.\<close>

lemma generate_empty: "GenerateNetMsgContent mid MsgBusParam_empty sender =
    GenerateNetMsgContent mid \<lparr>paramdata = Some [], paramlen = 0\<rparr> sender"
  by (simp add: GenerateNetMsgContent_def MsgBusParam_empty_def memcpy_ptr_def cload_def)

lemma task_frame:
  assumes "task_block t = Inr b" "data t = Some c" "unat (data_len t) = length c" "length c + 9 < 2 ^ 32"
  shows "post_parse (b @ rest) = Some (((if sync t then 1 else 0), future_id t, c), length b)"
proof -
  have "b = task_bytes t c" using task_block_bytes [OF assms(2)] assms by simp
  with post_parse_task [OF assms(3), of rest] show ?thesis by (simp add: task_bytes_def)
qed

text \<open>
  C1: a request travels from client to client and its answer back. The sender opens a connection with its
  identification and a request; whatever way the network cuts the two packets, a receiver that accepts the
  sender's name queues exactly this request; the worker hands its parameter to the local bus and sends the result
  back; whatever way the network cuts the answer, the sender's future of that session, and no other, gets exactly
  the bytes the handlers produced.
\<close>

theorem request_response:
  assumes ident: "GenerateNetMsgContent [] MsgBusParam_empty sender = Inr \<lparr>paramdata = Some c1, paramlen = n1\<rparr>"
      "length sender < 256" "FilterBySender (filter_mgr m) sender"
    and req: "GenerateNetMsgContent mid \<lparr>paramdata = Some d, paramlen = of_nat (length d)\<rparr> name = Inr \<lparr>paramdata = Some c2, paramlen = n2\<rparr>"
      "length name < 256" "length mid < 256" "length d < 2 ^ 31" "FilterByMsgId f mid"
    and tasks: "task_block t1 = Inr b1" "data t1 = Some c1" "data_len t1 = n1" "future_id t1 = 0"
      "task_block t2 = Inr b2" "data t2 = Some c2" "data_len t2 = n2" "future_id t2 = i" "i \<noteq> 0"
    and net: "concat chunks = b1 @ b2" "m_client_senders m (m_fd (sock_mem (rnet m) p)) = None"
    and handlers: "handlers mid d (of_nat (length d)) = (True, d', n')" "unat n' \<le> length d'" "unat n' + 8 \<le> MAX_BUF_SIZE"
    and sock: "\<not> IsClosed s" "Writeable s" "m_evloop s"
    and fut: "future_inv (future_mgr cm)" "sendmsg_rsp_container (future_mgr cm) i = Some q"
  shows "\<exists>m' pkt. receiver_feed m p [] chunks = Inr (m', []) \<and> rsp_work m' = rsp_work m @ [(p, c2, i)] \<and>
    NetMsgBusRspSendMsg f handlers s c2 i = Inr (log_call s (QueueSend pkt)) \<and>
    (\<forall>rchunks. concat rchunks = pkt \<longrightarrow> (\<exists>cm'. req_feed cm [] rchunks = Inr (cm', []) \<and>
      get_now (fut_heap (future_mgr cm') ! q) = Some (take (unat n') d') \<and>
      (\<forall>q'. q' \<noteq> q \<longrightarrow> fut_heap (future_mgr cm') ! q' = fut_heap (future_mgr cm) ! q')))"
proof -
  have c1: "c1 = netmsg_bytes sender [] []" "unat n1 = length c1"
    using GenerateNetMsgContent_bytes [of sender "[]" "\<lparr>paramdata = Some [], paramlen = 0\<rparr>" "[]"] ident(1,2)
      generate_empty [of "[]" sender] by (auto simp: netmsg_bytes_def)
  have u: "unat (of_nat (length d) :: u32) = length d" using req(4) by (simp add: unat_of_nat)
  have c2: "c2 = netmsg_bytes name mid d" "unat n2 = length c2"
    using GenerateNetMsgContent_bytes [of name mid "\<lparr>paramdata = Some d, paramlen = of_nat (length d)\<rparr>" d] req u
    by (auto simp: netmsg_bytes_def)
  have len: "length c1 + 9 < 2 ^ 32" "length c2 + 9 < 2 ^ 32" using ident(2) req(2-4) c1(1) c2(1) by (simp_all add: netmsg_bytes_def)
  have "frames post_parse (b1 @ b2) = ([((if sync t1 then 1 else 0), 0, c1), ((if sync t2 then 1 else 0), i, c2)], [])"
    using task_frame [OF tasks(1,2), of b2] task_frame [OF tasks(5,6), of "[]"] tasks len c1(2) c2(2)
    by (intro frames_two) simp_all
  moreover have "identifies (filter_mgr m) c1"
    using GetMsgSender_bytes [OF ident(2), of "[]" "[]"] ident(3) c1(1) by (simp add: identifies_def)
  ultimately have rcv: "\<exists>m'. receiver_feed m p [] chunks = Inr (m', []) \<and> rsp_work m' = rsp_work m @ [(p, c2, i)]"
    using receive_stream [of m p chunks] net tasks(9) by (simp add: requests_of_def)
  let ?pkt = "rsp_bytes i (take (unat n') d')"
  have snd: "NetMsgBusRspSendMsg f handlers s c2 i = Inr (log_call s (QueueSend ?pkt))"
    using rsp_sent [of name mid d f handlers True d' n' s i] req(2-5) handlers sock c2(1) by simp
  have "frames rsp_parse ?pkt = ([(i, take (unat n') d')], [])"
    using rsp_parse_bytes [of "take (unat n') d'" i "[]"] handlers(3)
    by (intro frames_rsp) (simp_all add: rsp_bytes_def MAX_BUF_SIZE_def BLOCK_SIZE_def)
  moreover have "q < length (fut_heap (future_mgr cm))" using fut by (auto simp: future_inv_def)
  ultimately have "\<exists>cm'. req_feed cm [] rchunks = Inr (cm', []) \<and> get_now (fut_heap (future_mgr cm') ! q) = Some (take (unat n') d') \<and>
      (\<forall>q'. q' \<noteq> q \<longrightarrow> fut_heap (future_mgr cm') ! q' = fut_heap (future_mgr cm) ! q')" if "concat rchunks = ?pkt" for rchunks
    using req_feed_all [of cm rchunks] that fut(2)
    by (elim exE, intro exI conjI) (auto simp: answer_future_eq get_now_def)
  with rcv snd show ?thesis by blast
qed

text \<open>An example exchange: the sender \<open>a\<close> asks for \<open>get\<close>, the handlers reverse the parameter.\<close>

definition demo_bus :: local_bus where "demo_bus mid d n = (True, rev d, n)"

definition demo_task_of :: "byte list \<Rightarrow> u32 \<Rightarrow> Req2ReceiverTask" where
  "demo_task_of c i = (new_Req2ReceiverTask (i, of_nat (length c)))\<lparr>data := Some c\<rparr>"

lemma demo_block:
  assumes "length c < 100"
  shows "task_block (demo_task_of c i) = Inr (task_bytes (demo_task_of c i) c)"
  using task_block_bytes [of "demo_task_of c i" c] assms
  by (simp add: demo_task_of_def new_Req2ReceiverTask_def unat_of_nat)

theorem request_response_witness:
  "\<exists>chunks m' pkt cm'. receiver_feed demo_receiver 7 [] chunks = Inr (m', []) \<and>
     rsp_work m' = [(7, netmsg_bytes (lit ''b'') (lit ''get'') [1, 2], 1)] \<and>
     NetMsgBusRspSendMsg FilterMgr_init demo_bus (Sock_Waiter.demo_heap 7) (netmsg_bytes (lit ''b'') (lit ''get'') [1, 2]) 1
       = Inr (log_call (Sock_Waiter.demo_heap 7) (QueueSend pkt)) \<and>
     req_feed (demo_req\<lparr>future_mgr := demo_fm\<rparr>) [] [pkt] = Inr (cm', []) \<and>
     get_now (fut_heap (future_mgr cm') ! 0) = Some [2, 1]"
proof -
  let ?c1 = "netmsg_bytes (lit ''a'') [] []" and ?c2 = "netmsg_bytes (lit ''b'') (lit ''get'') [1, 2]"
  let ?b1 = "task_bytes (demo_task_of ?c1 0) ?c1" and ?b2 = "task_bytes (demo_task_of ?c2 1) ?c2"
  have l: "length (lit ''a'') < 256" "length (lit ''b'') < 256" "length (lit ''get'') < 256" "length ?c1 = 7" "length ?c2 = 12"
    by (simp_all add: lit_def netmsg_bytes_def)
  have g1: "GenerateNetMsgContent [] MsgBusParam_empty (lit ''a'') = Inr \<lparr>paramdata = Some ?c1, paramlen = 7\<rparr>"
    using GenerateNetMsgContent_bytes [of "lit ''a''" "[]" "\<lparr>paramdata = Some [], paramlen = 0\<rparr>" "[]"] l
    by (auto simp: generate_empty lit_def word_unat_eq_iff)
  have g2: "GenerateNetMsgContent (lit ''get'') \<lparr>paramdata = Some [1, 2], paramlen = of_nat (length [1 :: byte, 2])\<rparr> (lit ''b'')
      = Inr \<lparr>paramdata = Some ?c2, paramlen = 12\<rparr>"
    using GenerateNetMsgContent_bytes [of "lit ''b''" "lit ''get''" "\<lparr>paramdata = Some [1, 2], paramlen = 2\<rparr>" "[1, 2]"] l
    by (auto simp: lit_def word_unat_eq_iff)
  have b: "task_block (demo_task_of ?c1 0) = Inr ?b1" "task_block (demo_task_of ?c2 1) = Inr ?b2"
    using l by (simp_all add: demo_block)
  have t: "data (demo_task_of ?c1 0) = Some ?c1" "data_len (demo_task_of ?c1 0) = 7" "future_id (demo_task_of ?c1 0) = 0"
    "data (demo_task_of ?c2 1) = Some ?c2" "data_len (demo_task_of ?c2 1) = 12" "future_id (demo_task_of ?c2 1) = 1"
    using l by (simp_all add: demo_task_of_def new_Req2ReceiverTask_def)
  have s: "\<not> IsClosed (Sock_Waiter.demo_heap 7)" "Writeable (Sock_Waiter.demo_heap 7)" "m_evloop (Sock_Waiter.demo_heap 7)"
    by (simp_all add: Sock_Waiter.demo_heap_def new_TcpSock_def IsClosed_def Writeable_def)
  have f: "future_inv (future_mgr (demo_req\<lparr>future_mgr := demo_fm\<rparr>))"
    "sendmsg_rsp_container (future_mgr (demo_req\<lparr>future_mgr := demo_fm\<rparr>)) 1 = Some 0"
    by (simp_all add: demo_fm_def future_inv_def new_NetFuture_def)
  have r: "FilterBySender (filter_mgr demo_receiver) (lit ''a'')" "FilterByMsgId FilterMgr_init (lit ''get'')"
    "m_client_senders demo_receiver (m_fd (sock_mem (rnet demo_receiver) 7)) = None" "rsp_work demo_receiver = []"
    by (simp_all add: demo_receiver_def FilterMgr_init_def FilterBySender_def FilterByMsgId_def)
  have n: "concat [?b1, ?b2] = ?b1 @ ?b2" "length [1 :: byte, 2] < 2 ^ 31" "(1 :: u32) \<noteq> 0" by simp_all
  have v: "demo_bus (lit ''get'') [1, 2] (of_nat (length [1 :: byte, 2])) = (True, [2, 1], 2 :: u32)"
    "unat (2 :: u32) \<le> length [2 :: byte, 1]" "unat (2 :: u32) + 8 \<le> MAX_BUF_SIZE" by (simp_all add: demo_bus_def MAX_BUF_SIZE_def BLOCK_SIZE_def)
  from request_response [where m = demo_receiver and d = "[1, 2]" and handlers = demo_bus and mid = "lit ''get''" and p = 7 and d' = "[2, 1]",
      OF g1 l(1) r(1) g2 l(2,3) n(2) r(2) b(1) t(1-3) b(2) t(4-6) n(3,1) r(3) v s f]
  obtain m' pkt where x: "receiver_feed demo_receiver 7 [] [?b1, ?b2] = Inr (m', [])" "rsp_work m' = rsp_work demo_receiver @ [(7, ?c2, 1)]"
    "NetMsgBusRspSendMsg FilterMgr_init demo_bus (Sock_Waiter.demo_heap 7) ?c2 1 = Inr (log_call (Sock_Waiter.demo_heap 7) (QueueSend pkt))"
    and y: "\<forall>rchunks. concat rchunks = pkt \<longrightarrow> (\<exists>cm'. req_feed (demo_req\<lparr>future_mgr := demo_fm\<rparr>) [] rchunks = Inr (cm', []) \<and>
      get_now (fut_heap (future_mgr cm') ! 0) = Some (take (unat (2 :: u32)) [2, 1]) \<and>
      (\<forall>q'. q' \<noteq> 0 \<longrightarrow> fut_heap (future_mgr cm') ! q' = fut_heap (future_mgr (demo_req\<lparr>future_mgr := demo_fm\<rparr>)) ! q'))"
    by blast
  have "\<exists>cm'. req_feed (demo_req\<lparr>future_mgr := demo_fm\<rparr>) [] [pkt] = Inr (cm', []) \<and> get_now (fut_heap (future_mgr cm') ! 0) = Some [2, 1]"
    using y [rule_format, of "[pkt]"] by auto
  then obtain cm' where z: "req_feed (demo_req\<lparr>future_mgr := demo_fm\<rparr>) [] [pkt] = Inr (cm', [])"
    "get_now (fut_heap (future_mgr cm') ! 0) = Some [2, 1]" by blast
  from x(2) r(4) have "rsp_work m' = [(7, ?c2, 1)]" by simp
  with x(1,3) z show ?thesis by blast
qed

end
